(* ===== verification/Prelude.thy ===== *)
theory Prelude
  imports Main
begin

section \<open>Prelude: outcomes, tables and the shared automation\<close>

text \<open>
  What every component of the platform shares.

  \<^item> \<open>exn\<close> is what the Python code raises, and \<open>('a, 's) outcome\<close> is the
    result of an operation that runs on a state: the value or the exception, together with
    the state it leaves behind. A handler that commits and then raises leaves its commit in
    place, so the state is part of the outcome on both branches.
  \<^item> \<open>bindr\<close> sequences two operations as consecutive Python statements: the first
    exception ends the handler. \<open>guardr\<close> does the same for a check that only reads.
  \<^item> A database table is a list of rows in insertion order. \<open>first_where\<close>,
    \<open>upd_where\<close>, \<open>del_where\<close> and \<open>count_where\<close> are
    \<open>select(..).first()\<close>, \<open>update(..)\<close>, \<open>delete(..)\<close> and
    \<open>select(func.count())\<close>; \<open>fresh_id\<close> is an integer primary key.
\<close>

named_theorems run_simps \<open>evaluating a handler: sequencing, guards and table operations\<close>
named_theorems table_simps \<open>rewriting table operations\<close>

subsection \<open>Exceptions and outcomes\<close>

datatype exn =
    HTTPException (status_code: int) (detail: string)
  | RuntimeError string
  | ValueError string
  | TypeError
  | AttributeError
  | AssertionError
  | IntegrityError

type_synonym ('a, 's) outcome = "(exn + 'a) \<times> 's"

fun bindr :: "('a, 's) outcome \<Rightarrow> ('a \<Rightarrow> 's \<Rightarrow> ('b, 's) outcome) \<Rightarrow> ('b, 's) outcome" where
  "bindr (Inl e, s) k = (Inl e, s)"
| "bindr (Inr x, s) k = k x s"

definition guardr :: "exn + 'a \<Rightarrow> 's \<Rightarrow> ('a \<Rightarrow> ('b, 's) outcome) \<Rightarrow> ('b, 's) outcome" where
  "guardr c s k = (case c of Inl e \<Rightarrow> (Inl e, s) | Inr x \<Rightarrow> k x)"

definition sbind :: "exn + 'a \<Rightarrow> ('a \<Rightarrow> exn + 'b) \<Rightarrow> exn + 'b" where
  "sbind c k = (case c of Inl e \<Rightarrow> Inl e | Inr x \<Rightarrow> k x)"

definition require :: "bool \<Rightarrow> exn \<Rightarrow> exn + unit" where
  "require b e = (if b then Inr () else Inl e)"

definition is_ok :: "('a, 's) outcome \<Rightarrow> bool" where
  "is_ok r = (case fst r of Inl _ \<Rightarrow> False | Inr _ \<Rightarrow> True)"

lemma guardr_simps [simp, run_simps]:
  "guardr (Inl e) s k = (Inl e, s)"
  "guardr (Inr x) s k = k x"
  by (simp_all add: guardr_def)

lemma sbind_simps [simp, run_simps]:
  "sbind (Inl e) g = Inl e"
  "sbind (Inr x) g = g x"
  by (simp_all add: sbind_def)

lemma require_simps [simp, run_simps]:
  "require True e = Inr ()"
  "require False e = Inl e"
  by (simp_all add: require_def)

lemma is_ok_simps [simp, run_simps]:
  "is_ok (Inl e, s) = False"
  "is_ok (Inr x, s) = True"
  by (simp_all add: is_ok_def)

lemma require_InrD: "require b e = Inr u \<Longrightarrow> b"
  by (simp add: require_def split: if_splits)

lemma require_eq_Inr [simp]: "require b e = Inr u \<longleftrightarrow> b"
  by (simp add: require_def)

lemma require_eq_Inl [simp]: "require b e = Inl e' \<longleftrightarrow> \<not> b \<and> e' = e"
  by (auto simp: require_def)

lemma bindr_InrE:
  assumes "bindr m k = (Inr y, s')"
  obtains x s where "m = (Inr x, s)" and "k x s = (Inr y, s')"
  using assms by (cases m; cases "fst m") auto

lemma guardr_InrE:
  assumes "guardr c s k = (Inr y, s')"
  obtains x where "c = Inr x" and "k x = (Inr y, s')"
  using assms by (cases c) auto

lemma sbind_InrE:
  assumes "sbind c k = Inr y"
  obtains x where "c = Inr x" and "k x = Inr y"
  using assms by (cases c) auto

lemma snd_bindr:
  "snd (bindr m k) = (case fst m of Inl e \<Rightarrow> snd m | Inr x \<Rightarrow> snd (k x (snd m)))"
  by (cases m; cases "fst m") auto

lemma snd_guardr: "snd (guardr c s k) = (case c of Inl e \<Rightarrow> s | Inr x \<Rightarrow> snd (k x))"
  by (cases c) auto

text \<open>
  An invariant of the state is kept by a sequence when each operation keeps it, whether the
  sequence ends normally or with an exception.
\<close>

lemma bindr_keeps:
  assumes "P (snd m)"
    and "\<And>x s. m = (Inr x, s) \<Longrightarrow> P s \<Longrightarrow> P (snd (k x s))"
  shows "P (snd (bindr m k))"
  using assms by (cases m; cases "fst m") auto

lemma guardr_keeps:
  assumes "P s" and "\<And>x. c = Inr x \<Longrightarrow> P (snd (k x))"
  shows "P (snd (guardr c s k))"
  using assms by (cases c) auto

subsection \<open>Tables\<close>

abbreviation first_where :: "('r \<Rightarrow> bool) \<Rightarrow> 'r list \<Rightarrow> 'r option" where
  "first_where p t \<equiv> List.find p t"

definition upd_where :: "('r \<Rightarrow> bool) \<Rightarrow> ('r \<Rightarrow> 'r) \<Rightarrow> 'r list \<Rightarrow> 'r list" where
  "upd_where p f t = map (\<lambda>r. if p r then f r else r) t"

definition del_where :: "('r \<Rightarrow> bool) \<Rightarrow> 'r list \<Rightarrow> 'r list" where
  "del_where p t = filter (\<lambda>r. \<not> p r) t"

definition count_where :: "('r \<Rightarrow> bool) \<Rightarrow> 'r list \<Rightarrow> nat" where
  "count_where p t = length (filter p t)"

definition exists_where :: "('r \<Rightarrow> bool) \<Rightarrow> 'r list \<Rightarrow> bool" where
  "exists_where p t = list_ex p t"

definition fresh_id :: "('r \<Rightarrow> int) \<Rightarrow> 'r list \<Rightarrow> int" where
  "fresh_id f t = 1 + foldr (\<lambda>r m. max (f r) m) t 0"

lemma find_SomeD: "first_where p t = Some r \<Longrightarrow> r \<in> set t \<and> p r"
  by (induction t) (auto split: if_splits)

lemma find_None_iff': "first_where p t = None \<longleftrightarrow> (\<forall>r\<in>set t. \<not> p r)"
  by (induction t) auto

lemma find_append:
  "first_where p (xs @ ys) = (case first_where p xs of None \<Rightarrow> first_where p ys | Some r \<Rightarrow> Some r)"
  by (induction xs) auto

lemma find_cong_on: "(\<And>r. r \<in> set t \<Longrightarrow> p r = q r) \<Longrightarrow> first_where p t = first_where q t"
  by (induction t) auto

lemma exists_where_iff [table_simps]: "exists_where p t \<longleftrightarrow> (\<exists>r\<in>set t. p r)"
  by (simp add: exists_where_def list_ex_iff)

lemma exists_where_find: "exists_where p t \<longleftrightarrow> first_where p t \<noteq> None"
  by (auto simp: exists_where_iff find_None_iff')

lemma upd_where_simps [simp, run_simps]:
  "upd_where p f [] = []"
  "upd_where p f (r # t) = (if p r then f r else r) # upd_where p f t"
  by (simp_all add: upd_where_def)

lemma upd_where_append [simp]: "upd_where p f (xs @ ys) = upd_where p f xs @ upd_where p f ys"
  by (simp add: upd_where_def)

lemma length_upd_where [simp]: "length (upd_where p f t) = length t"
  by (simp add: upd_where_def)

lemma upd_where_none: "(\<And>r. r \<in> set t \<Longrightarrow> \<not> p r) \<Longrightarrow> upd_where p f t = t"
  by (induction t) auto

lemma set_upd_where: "set (upd_where p f t) = f ` {r \<in> set t. p r} \<union> {r \<in> set t. \<not> p r}"
  by (induction t) auto

lemma in_upd_where:
  "r \<in> set (upd_where p f t) \<longleftrightarrow> (\<exists>r0\<in>set t. r = (if p r0 then f r0 else r0))"
  by (auto simp: upd_where_def)

lemma all_upd_where:
  assumes "r \<in> set (upd_where p f t)" and "\<And>x. x \<in> set t \<Longrightarrow> p x \<Longrightarrow> Q (f x)"
    and "\<And>x. x \<in> set t \<Longrightarrow> \<not> p x \<Longrightarrow> Q x"
  shows "Q r"
proof -
  obtain x where "x \<in> set t" "r = (if p x then f x else x)" using assms(1) by (auto simp: in_upd_where)
  with assms(2,3) show ?thesis by (cases "p x") auto
qed

lemma map_upd_where:
  "(\<And>r. p r \<Longrightarrow> g (f r) = g r) \<Longrightarrow> map g (upd_where p f t) = map g t"
  by (induction t) auto

lemma filter_upd_where:
  "(\<And>r. p r \<Longrightarrow> q (f r) = q r) \<Longrightarrow>
   filter q (upd_where p f t) = upd_where p f (filter q t)"
  by (induction t) auto

lemma find_upd_where:
  "(\<And>r. p r \<Longrightarrow> q (f r) = q r) \<Longrightarrow>
   first_where q (upd_where p f t) =
     map_option (\<lambda>r. if p r then f r else r) (first_where q t)"
  by (induction t) auto

lemma count_where_simps [simp, run_simps]:
  "count_where p [] = 0"
  "count_where p (r # t) = (if p r then Suc (count_where p t) else count_where p t)"
  by (simp_all add: count_where_def)

lemma count_where_append [simp]: "count_where p (xs @ ys) = count_where p xs + count_where p ys"
  by (simp add: count_where_def)

lemma count_where_zero: "count_where p t = 0 \<longleftrightarrow> (\<forall>r\<in>set t. \<not> p r)"
  by (induction t) auto

lemma count_where_pos: "0 < count_where p t \<longleftrightarrow> (\<exists>r\<in>set t. p r)"
  by (metis count_where_zero gr0I less_numeral_extra(3))

lemma count_where_le: "count_where p t \<le> length t"
  by (simp add: count_where_def)

lemma set_del_where [simp]: "set (del_where p t) = {r \<in> set t. \<not> p r}"
  by (auto simp: del_where_def)

lemma del_where_simps [simp, run_simps]:
  "del_where p [] = []"
  "del_where p (r # t) = (if p r then del_where p t else r # del_where p t)"
  by (simp_all add: del_where_def)

lemma del_where_none: "(\<And>r. r \<in> set t \<Longrightarrow> \<not> p r) \<Longrightarrow> del_where p t = t"
  by (induction t) auto

lemma filter_del_where: "filter q (del_where p t) = del_where p (filter q t)"
  by (induction t) auto

lemma find_del_where:
  "(\<And>r. q r \<Longrightarrow> \<not> p r) \<Longrightarrow> first_where q (del_where p t) = first_where q t"
  by (induction t) auto

lemma fresh_id_gt: "r \<in> set t \<Longrightarrow> f r < fresh_id f t"
  unfolding fresh_id_def by (induction t) auto

lemma fresh_id_notin: "fresh_id f t \<notin> f ` set t"
  using fresh_id_gt [of _ t f] by force

text \<open>
  Rows are told apart by a key. When the key of a table is unique, \<open>first_where\<close> on
  that key is exact, whatever order the database returns the rows in.
\<close>

definition unique_key :: "('r \<Rightarrow> 'k) \<Rightarrow> 'r list \<Rightarrow> bool" where
  "unique_key f t = distinct (map f t)"

lemma unique_key_Nil [simp]: "unique_key f []"
  by (simp add: unique_key_def)

lemma unique_key_append:
  "unique_key f (t @ [r]) \<longleftrightarrow> unique_key f t \<and> f r \<notin> f ` set t"
  by (auto simp: unique_key_def)

lemma unique_keyD: "unique_key f t \<Longrightarrow> r \<in> set t \<Longrightarrow> r' \<in> set t \<Longrightarrow> f r = f r' \<Longrightarrow> r = r'"
  by (auto simp: unique_key_def distinct_map inj_on_def)

lemma unique_key_upd:
  "(\<And>r. p r \<Longrightarrow> f (g r) = f r) \<Longrightarrow> unique_key f (upd_where p g t) = unique_key f t"
  by (simp add: unique_key_def map_upd_where)

lemma unique_key_filter: "unique_key f t \<Longrightarrow> unique_key f (filter q t)"
  by (simp add: unique_key_def distinct_map inj_on_def)

lemma unique_key_del: "unique_key f t \<Longrightarrow> unique_key f (del_where p t)"
  by (simp add: del_where_def unique_key_filter)

lemma find_unique:
  "unique_key f t \<Longrightarrow> r \<in> set t \<Longrightarrow> first_where (\<lambda>x. f x = f r) t = Some r"
  by (induction t) (auto simp: unique_key_def)

lemma ex_unique_key:
  assumes "unique_key f t" and "first_where (\<lambda>r. f r = k) t = Some r"
  shows "(\<exists>x\<in>set t. f x = k \<and> P x) \<longleftrightarrow> P r"
  using find_SomeD [OF assms(2)] unique_keyD [OF assms(1), of _ r] by metis

lemma count_unique_key:
  "unique_key f t \<Longrightarrow> count_where (\<lambda>r. f r = k) t \<le> 1"
proof (induction t)
  case Nil
  then show ?case by simp
next
  case (Cons r t)
  show ?case
  proof (cases "f r = k")
    case True
    have "\<forall>x\<in>set t. f x \<noteq> k"
      using Cons.prems True by (auto simp: unique_key_def) (metis imageI)
    with True show ?thesis by (simp add: count_where_zero [THEN iffD2])
  next
    case False
    with Cons show ?thesis by (simp add: unique_key_def)
  qed
qed

lemma count_where_mono: "(\<And>r. r \<in> set t \<Longrightarrow> p r \<Longrightarrow> q r) \<Longrightarrow> count_where p t \<le> count_where q t"
  by (induction t) (auto intro: le_SucI)

lemma count_two_keys:
  assumes "unique_key f t" and "1 < count_where p t"
  shows "\<exists>r\<in>set t. p r \<and> f r \<noteq> k"
proof (rule ccontr)
  assume "\<not> ?thesis"
  then have "count_where p t \<le> count_where (\<lambda>r. f r = k) t" by (intro count_where_mono) blast
  also have "\<dots> \<le> 1" using assms(1) by (rule count_unique_key)
  finally show False using assms(2) by simp
qed

end
