(* ===== verification/PyText.thy ===== *)
theory PyText
  imports Prelude Complex_Main
begin

section \<open>Python text: the string operations the code uses\<close>

text \<open>
  A Python \<open>str\<close> is a list of characters. The model keeps code points up to 255 (the
  range of \<open>char\<close>), and \<open>strip\<close>, \<open>lower\<close> and \<open>int\<close> follow
  Python on that range. JSON values, which the callback stores verbatim, are the datatype
  \<open>json\<close>.
\<close>

subsection \<open>Characters\<close>

definition code :: "char \<Rightarrow> nat" where
  "code c = of_char c"

definition is_space :: "char \<Rightarrow> bool" where
  "is_space c = (let n = code c in
     (9 \<le> n \<and> n \<le> 13) \<or> (28 \<le> n \<and> n \<le> 32) \<or> n = 133 \<or> n = 160)"

definition is_digit :: "char \<Rightarrow> bool" where
  "is_digit c = (48 \<le> code c \<and> code c \<le> 57)"

definition lower_char :: "char \<Rightarrow> char" where
  "lower_char c = (let n = code c in
     if (65 \<le> n \<and> n \<le> 90) \<or> (192 \<le> n \<and> n \<le> 222 \<and> n \<noteq> 215)
     then char_of (n + 32) else c)"

definition py_lower :: "string \<Rightarrow> string" where
  "py_lower s = map lower_char s"

definition py_lstrip :: "(char \<Rightarrow> bool) \<Rightarrow> string \<Rightarrow> string" where
  "py_lstrip p s = dropWhile p s"

definition py_strip_on :: "(char \<Rightarrow> bool) \<Rightarrow> string \<Rightarrow> string" where
  "py_strip_on p s = rev (dropWhile p (rev (dropWhile p s)))"

definition py_strip :: "string \<Rightarrow> string" where
  "py_strip s = py_strip_on is_space s"

lemma code_char_of: "n < 256 \<Longrightarrow> code (char_of n) = n"
  by (simp add: code_def)

lemma code_lt: "code c < 256"
  by (simp add: code_def)

lemma lower_char_idem [simp]: "lower_char (lower_char c) = lower_char c"
proof -
  have "code c < 256" by (rule code_lt)
  then show ?thesis
    by (auto simp: lower_char_def Let_def code_char_of)
qed

lemma is_space_lower [simp]: "is_space (lower_char c) = is_space c"
proof -
  have "code c < 256" by (rule code_lt)
  then show ?thesis
    by (auto simp: lower_char_def is_space_def Let_def code_char_of)
qed

lemma py_lower_idem [simp]: "py_lower (py_lower s) = py_lower s"
  by (simp add: py_lower_def)

lemma dropWhile_map_lower: "dropWhile is_space (map lower_char s) = map lower_char (dropWhile is_space s)"
  by (induction s) auto

lemma py_strip_lower: "py_strip (py_lower s) = py_lower (py_strip s)"
  by (simp add: py_strip_def py_strip_on_def py_lower_def dropWhile_map_lower rev_map)

lemma dropWhile_keep_hd: "\<not> p c \<Longrightarrow> dropWhile p (rev (dropWhile p (rev (c # cs)))) = rev (dropWhile p (rev (c # cs)))"
  by (cases "dropWhile p (rev cs)") (auto simp: dropWhile_append)

lemma dropWhile_rev_idem:
  "dropWhile p (rev (dropWhile p (rev (dropWhile p s)))) = rev (dropWhile p (rev (dropWhile p s)))"
proof (cases "dropWhile p s")
  case Nil
  show ?thesis unfolding Nil by simp
next
  case (Cons c cs)
  then have "\<not> p c" by (metis dropWhile_eq_Cons_conv)
  then show ?thesis unfolding Cons by (rule dropWhile_keep_hd)
qed

lemma py_strip_idem [simp]: "py_strip (py_strip s) = py_strip s"
  unfolding py_strip_def py_strip_on_def
  by (subst dropWhile_rev_idem) (simp add: dropWhile_idem)

subsection \<open>Splitting, prefixes and suffixes\<close>

fun py_split :: "char \<Rightarrow> string \<Rightarrow> string list" where
  "py_split sep [] = [[]]"
| "py_split sep (c # s) =
     (if c = sep then [] # py_split sep s
      else (case py_split sep s of [] \<Rightarrow> [[c]] | w # ws \<Rightarrow> (c # w) # ws))"

fun py_partition :: "char \<Rightarrow> string \<Rightarrow> string \<times> bool \<times> string" where
  "py_partition sep [] = ([], False, [])"
| "py_partition sep (c # s) =
     (if c = sep then ([], True, s)
      else (case py_partition sep s of (a, found, b) \<Rightarrow> (c # a, found, b)))"

definition startswith :: "string \<Rightarrow> string \<Rightarrow> bool" where
  "startswith s p = (take (length p) s = p)"

definition endswith :: "string \<Rightarrow> string \<Rightarrow> bool" where
  "endswith s p = startswith (rev s) (rev p)"

lemma py_split_nonempty [simp]: "py_split sep s \<noteq> []"
  by (induction s) (auto split: list.splits)

lemma py_split_no_sep: "sep \<notin> set s \<Longrightarrow> py_split sep s = [s]"
  by (induction s) auto

lemma py_split_append: "py_split sep (a @ sep # b) = py_split sep a @ py_split sep b"
  by (induction a) (auto split: list.splits)

lemma py_split_append_sep:
  "sep \<notin> set a \<Longrightarrow> py_split sep (a @ sep # b) = a # py_split sep b"
  by (induction a) auto

lemma py_partition_found:
  "sep \<notin> set a \<Longrightarrow> py_partition sep (a @ sep # b) = (a, True, b)"
  by (induction a) auto

lemma py_partition_missing: "sep \<notin> set a \<Longrightarrow> py_partition sep a = (a, False, [])"
  by (induction a) auto

lemma endswith_append [simp]: "endswith (a @ p) p"
  by (simp add: endswith_def startswith_def)

lemma py_strip_no_space: "(\<And>c. c \<in> set s \<Longrightarrow> \<not> is_space c) \<Longrightarrow> py_strip s = s"
proof -
  assume ns: "\<And>c. c \<in> set s \<Longrightarrow> \<not> is_space c"
  have "dropWhile is_space s = s"
    using ns by (cases s) auto
  moreover have "dropWhile is_space (rev s) = rev s"
    using ns by (cases "rev s") (auto simp: dropWhile_eq_self_iff)
  ultimately show ?thesis by (simp add: py_strip_def py_strip_on_def)
qed

subsection \<open>Numbers in text\<close>

definition digit_char :: "nat \<Rightarrow> char" where
  "digit_char d = char_of (48 + d)"

fun show_nat :: "nat \<Rightarrow> string" where
  "show_nat n = (if n < 10 then [digit_char n] else show_nat (n div 10) @ [digit_char (n mod 10)])"

declare show_nat.simps [simp del]

definition show_int :: "int \<Rightarrow> string" where
  "show_int i = (if i < 0 then CHR ''-'' # show_nat (nat (- i)) else show_nat (nat i))"

definition digit_val :: "char \<Rightarrow> int" where
  "digit_val c = int (code c) - 48"

text \<open>
  \<open>int(s)\<close> on a string: surrounding white space, an optional sign, then decimal digits
  in which single underscores may separate digits.
\<close>

fun digits_val :: "int \<Rightarrow> bool \<Rightarrow> string \<Rightarrow> int option" where
  \<comment> \<open>the flag says whether the previous character was a digit\<close>
  "digits_val acc prev [] = (if prev then Some acc else None)"
| "digits_val acc prev (c # s) =
     (if is_digit c then digits_val (10 * acc + digit_val c) True s
      else if c = CHR ''_'' \<and> prev then digits_val acc False s
      else None)"

definition py_int :: "string \<Rightarrow> int option" where
  "py_int s = (case py_strip s of
     [] \<Rightarrow> None
   | c # cs \<Rightarrow>
       (if c = CHR ''-'' then map_option uminus (digits_val 0 False cs)
        else if c = CHR ''+'' then digits_val 0 False cs
        else digits_val 0 False (c # cs)))"

lemma is_digit_digit_char: "d < 10 \<Longrightarrow> is_digit (digit_char d)"
  by (simp add: is_digit_def digit_char_def code_char_of)

lemma digit_val_digit_char: "d < 10 \<Longrightarrow> digit_val (digit_char d) = int d"
  by (simp add: digit_val_def digit_char_def code_char_of)

lemma show_nat_digits: "c \<in> set (show_nat n) \<Longrightarrow> is_digit c"
proof (induction n rule: show_nat.induct)
  case (1 n)
  show ?case
  proof (cases "n < 10")
    case True
    with "1.prems" show ?thesis by (simp add: show_nat.simps [of n] is_digit_digit_char)
  next
    case False
    with "1.prems" have "c \<in> set (show_nat (n div 10)) \<or> c = digit_char (n mod 10)"
      by (auto simp: show_nat.simps [of n])
    with "1.IH" [OF False] show ?thesis by (auto simp: is_digit_digit_char)
  qed
qed

lemma show_nat_nonempty [simp]: "show_nat n \<noteq> []"
  by (subst show_nat.simps) auto

lemma digits_val_append:
  "(\<And>c. c \<in> set s \<Longrightarrow> is_digit c) \<Longrightarrow> s \<noteq> [] \<Longrightarrow>
   digits_val acc p (s @ t) = digits_val (the (digits_val acc p s)) True t"
  by (induction s arbitrary: acc p) (auto split: if_splits, metis append_Nil digits_val.simps(1) option.sel)

lemma digits_val_show_nat: "digits_val 0 False (show_nat n) = Some (int n)"
proof (induction n rule: show_nat.induct)
  case (1 n)
  show ?case
  proof (cases "n < 10")
    case True
    then show ?thesis
      by (simp add: show_nat.simps [of n] is_digit_digit_char digit_val_digit_char)
  next
    case False
    have "digits_val 0 False (show_nat (n div 10) @ [digit_char (n mod 10)]) =
          digits_val (int (n div 10)) True [digit_char (n mod 10)]"
      using "1.IH" [OF False] by (subst digits_val_append) (auto simp: show_nat_digits)
    also have "\<dots> = Some (int n)"
      by (simp add: is_digit_digit_char digit_val_digit_char) presburger
    finally show ?thesis using False by (simp add: show_nat.simps [of n])
  qed
qed

lemma digit_not_space: "is_digit c \<Longrightarrow> \<not> is_space c"
  by (auto simp: is_digit_def is_space_def Let_def)

lemma digit_not_sign: "is_digit c \<Longrightarrow> c \<noteq> CHR ''-'' \<and> c \<noteq> CHR ''+''"
  by (auto simp: is_digit_def code_def)

lemma digit_not_comma: "is_digit c \<Longrightarrow> c \<noteq> CHR '',''"
  by (auto simp: is_digit_def code_def)

lemma digit_not_eq: "is_digit c \<Longrightarrow> c \<noteq> CHR ''=''"
  by (auto simp: is_digit_def code_def)

lemma py_int_show_nat: "py_int (show_nat n) = Some (int n)"
proof -
  have "py_strip (show_nat n) = show_nat n"
    by (rule py_strip_no_space) (auto dest: show_nat_digits digit_not_space)
  moreover obtain c cs where c: "show_nat n = c # cs"
    by (cases "show_nat n") auto
  moreover have "c \<noteq> CHR ''-'' \<and> c \<noteq> CHR ''+''"
    using show_nat_digits [of c n] c by (auto dest: digit_not_sign)
  ultimately show ?thesis
    using digits_val_show_nat [of n] by (simp add: py_int_def)
qed

lemma show_int_nat: "0 \<le> i \<Longrightarrow> show_int i = show_nat (nat i)"
  by (simp add: show_int_def)

lemma py_int_show_int: "py_int (show_int i) = Some i"
proof (cases "i < 0")
  case False
  then show ?thesis by (simp add: show_int_def py_int_show_nat)
next
  case True
  let ?s = "CHR ''-'' # show_nat (nat (- i))"
  have "py_strip ?s = ?s"
  proof (rule py_strip_no_space)
    fix c
    assume "c \<in> set ?s"
    then show "\<not> is_space c"
      by (auto dest!: show_nat_digits digit_not_space) (simp add: is_space_def code_def)
  qed
  with True show ?thesis
    by (simp add: show_int_def py_int_def digits_val_show_nat)
qed

lemma show_int_inj: "show_int i = show_int j \<Longrightarrow> i = j"
  by (metis option.inject py_int_show_int)

text \<open>
  \<open>repr(s)\<close> of a string: double quotes when it holds a single quote and no double one, and
  escapes for the backslash, the quote and the characters that do not print.
\<close>

definition hex_digit :: "nat \<Rightarrow> char" where
  "hex_digit n = (if n < 10 then char_of (48 + n) else char_of (87 + n))"

definition repr_char :: "char \<Rightarrow> char \<Rightarrow> string" where
  "repr_char q c = (let n = code c in
     if n = 92 \<or> c = q then [char_of (92 :: nat), c]
     else if n = 9 then [char_of (92 :: nat), CHR ''t'']
     else if n = 10 then [char_of (92 :: nat), CHR ''n'']
     else if n = 13 then [char_of (92 :: nat), CHR ''r'']
     else if n < 32 \<or> (127 \<le> n \<and> n \<le> 160) \<or> n = 173
     then [char_of (92 :: nat), CHR ''x'', hex_digit (n div 16), hex_digit (n mod 16)]
     else [c])"

definition py_repr :: "string \<Rightarrow> string" where
  "py_repr s = (let single = char_of (39 :: nat); double = char_of (34 :: nat);
                    q = (if single \<in> set s \<and> double \<notin> set s then double else single)
                in q # concat (map (repr_char q) s) @ [q])"

subsection \<open>JSON values\<close>

datatype json =
    JNull
  | JBool bool
  | JInt int
  | JFloat rat
  | JStr string
  | JList "json list"
  | JObj "(string \<times> json) list"

text \<open>\<open>bool(v)\<close> and \<open>d.get(k)\<close>.\<close>

fun truthy :: "json \<Rightarrow> bool" where
  "truthy JNull = False"
| "truthy (JBool b) = b"
| "truthy (JInt i) = (i \<noteq> 0)"
| "truthy (JFloat r) = (r \<noteq> 0)"
| "truthy (JStr s) = (s \<noteq> [])"
| "truthy (JList xs) = (xs \<noteq> [])"
| "truthy (JObj d) = (d \<noteq> [])"

definition dict_get :: "(string \<times> json) list \<Rightarrow> string \<Rightarrow> json" where
  "dict_get d k = (case map_of d k of None \<Rightarrow> JNull | Some v \<Rightarrow> v)"

text \<open>
  What the model takes from outside: \<open>repr\<close> of the values it has no text for (floats and
  containers), \<open>float()\<close> of a string, and \<open>HMAC-SHA256\<close> as a hexadecimal digest of a key and a
  message.
\<close>

record externals =
  x_repr :: "json \<Rightarrow> string"
  x_parse_float :: "string \<Rightarrow> rat option"
  x_hmac :: "string \<Rightarrow> string \<Rightarrow> string"

definition example_externals :: externals where
  "example_externals = \<lparr>x_repr = (\<lambda>_. ''...''), x_parse_float = (\<lambda>_. None), x_hmac = (\<lambda>k m. k @ m)\<rparr>"

text \<open>\<open>str(v)\<close> and \<open>float(v)\<close> of a JSON value.\<close>

definition py_str :: "externals \<Rightarrow> json \<Rightarrow> string" where
  "py_str x j = (case j of
     JStr s \<Rightarrow> s
   | JNull \<Rightarrow> ''None''
   | JBool b \<Rightarrow> (if b then ''True'' else ''False'')
   | JInt i \<Rightarrow> show_int i
   | _ \<Rightarrow> x_repr x j)"

definition py_float :: "externals \<Rightarrow> json \<Rightarrow> exn + rat" where
  "py_float x j = (case j of
     JFloat r \<Rightarrow> Inr r
   | JInt i \<Rightarrow> Inr (of_int i)
   | JBool b \<Rightarrow> Inr (if b then 1 else 0)
   | JStr s \<Rightarrow> (case x_parse_float x s of
        None \<Rightarrow> Inl (ValueError ''could not convert string to float'') | Some r \<Rightarrow> Inr r)
   | _ \<Rightarrow> Inl TypeError)"

text \<open>\<open>str.isdigit\<close>: the superscript digits count too, and \<open>int\<close> refuses them.\<close>

definition py_isdigit :: "string \<Rightarrow> bool" where
  "py_isdigit s = (s \<noteq> [] \<and> list_all (\<lambda>ch. is_digit ch \<or> code ch \<in> {178, 179, 185}) s)"

text \<open>\<open>sep.join(ws)\<close>.\<close>

fun py_join :: "string \<Rightarrow> string list \<Rightarrow> string" where
  "py_join sep [] = []"
| "py_join sep [w] = w"
| "py_join sep (w # ws) = w @ sep @ py_join sep ws"

end
