(* ===== verification/Tables.thy ===== *)
theory Tables
  imports PyText
begin

section \<open>Tables: the persistent state of the platform\<close>

text \<open>
  The rows of \<open>models.py\<close> as records and the whole database as one record
  \<open>store\<close>. Ids are integers, except those of organisations and usage rows: the code
  builds transient rows of these two, whose id is \<open>None\<close>. A datetime is an integer,
  the microseconds since the epoch in UTC, so \<open>as_utc\<close> is the identity. Money and scores are
  rationals. Of the row-metadata timestamps, the model keeps \<open>created_at\<close> and
  \<open>updated_at\<close> on the rows where some operation reads them.

  \<open>store\<close> also holds the process-local counters of the in-memory rate limiter and the
  effects handed to background tasks (\<open>outbox\<close>), in the order they were queued.
\<close>

type_synonym instant = int  \<comment> \<open>microseconds, UTC\<close>

record organization =
  o_id :: "int option"
  o_name :: string
  o_logo_sha :: "string option"
  o_plan :: string
  o_plan_status :: string
  o_stripe_customer_id :: "string option"
  o_stripe_subscription_id :: "string option"
  o_current_period_end :: "instant option"
  o_retention_days :: "int option"
  o_results_webhook_url :: "string option"
  o_results_webhook_secret :: "string option"

record org_usage =
  u_id :: "int option"
  u_org_id :: int
  u_period :: string
  u_sittings :: int
  u_drafts :: int
  u_sittings_over :: int
  u_drafts_over :: int
  u_sittings_carried :: int
  u_drafts_carried :: int
  u_judge_cost_usd :: rat
  u_draft_cost_usd :: rat

record org_asset =
  as_id :: int
  as_org_id :: int
  as_kind :: string
  as_content_type :: string
  as_sha256 :: string
  as_data :: "nat list"
  as_width :: int
  as_height :: int

record interviewer =
  iv_id :: int
  iv_email :: string
  iv_password_hash :: string
  iv_name :: string
  iv_token_version :: int
  iv_email_verified_at :: "instant option"

record membership =
  m_id :: int
  m_org_id :: int
  m_interviewer_id :: int
  m_role :: string
  m_invited_by :: "int option"
  m_created_at :: instant

record org_invite =
  oi_id :: int
  oi_org_id :: int
  oi_token :: string
  oi_email :: string
  oi_role :: string
  oi_invited_by :: "int option"
  oi_expires_at :: "instant option"
  oi_accepted_at :: "instant option"
  oi_sent :: bool
  oi_send_error :: "string option"
  oi_created_at :: instant

record test_case =
  tc_id :: int
  tc_question_id :: string
  tc_name :: string
  tc_stdin :: string
  tc_expected :: string
  tc_category :: string
  tc_weight :: rat

record question =
  q_id :: string
  q_owner_id :: "int option"
  q_org_id :: int
  q_title :: string
  q_prompt :: string
  q_constraints :: string
  q_time_limit_s :: rat
  q_pass_threshold :: rat
  q_required_complexity :: "string option"
  q_example_input :: "string option"
  q_example_output :: "string option"
  q_difficulty :: "string option"
  q_variant_set_id :: "string option"
  q_variant_label :: "string option"
  q_reference_solution :: "string option"
  q_reference_language :: "string option"
  q_duration_minutes :: "int option"
  q_status :: string
  q_created_at :: instant

record variant_set =
  vs_id :: string
  vs_owner_id :: "int option"
  vs_org_id :: int
  vs_title :: string
  vs_brief :: string
  vs_language :: string
  vs_difficulty :: "string option"
  vs_target_complexity :: "string option"
  vs_status :: string
  vs_created_at :: instant

record assessment =
  a_id :: string
  a_owner_id :: "int option"
  a_org_id :: int
  a_title :: string
  a_duration_minutes :: "int option"
  a_org_name :: "string option"
  a_logo_sha :: "string option"
  a_proctored :: bool
  a_status :: string
  a_created_at :: instant

record assessment_question =
  aq_id :: int
  aq_assessment_id :: string
  aq_question_id :: "string option"
  aq_variant_set_id :: "string option"
  aq_position :: int

record delivery =
  d_recipient :: string
  d_sent :: bool
  d_error :: "string option"

record invite =
  inv_id :: int
  inv_token :: string
  inv_question_id :: "string option"
  inv_assessment_id :: "string option"
  inv_variant_set_id :: "string option"
  inv_created_by :: "int option"
  inv_recipients :: "string list"
  inv_deliveries :: "delivery list"
  inv_expires_at :: "instant option"
  inv_proctored :: bool
  inv_duration_minutes :: "int option"
  inv_status :: string
  inv_created_at :: instant

record candidate_attempt =
  at_id :: int
  at_invite_id :: int
  at_candidate_email :: string
  at_candidate_name :: "string option"
  at_started_at :: instant
  at_consent_at :: "instant option"
  at_consent_version :: "string option"
  at_results_notified_at :: "instant option"
  at_erased_at :: "instant option"

record slot_variant =
  sv_id :: int
  sv_invite_id :: int
  sv_candidate_email :: string
  sv_assessment_question_id :: int
  sv_question_id :: string

record integrity_event =
  ev_id :: int
  ev_invite_id :: int
  ev_candidate_email :: string
  ev_question_id :: "string option"
  ev_kind :: string
  ev_offset_ms :: int
  ev_duration_ms :: "int option"
  ev_size :: "int option"
  ev_blocked :: bool
  ev_created_at :: instant

record candidate_draft =
  dr_id :: int
  dr_invite_id :: int
  dr_candidate_email :: string
  dr_question_id :: string
  dr_code :: string
  dr_language :: string
  dr_updated_at :: instant

record candidate_feedback =
  fb_id :: int
  fb_org_id :: int
  fb_attempt_id :: int
  fb_rating :: int
  fb_difficulty_fair :: string
  fb_comment :: string
  fb_created_at :: instant

record submission =
  s_id :: string
  s_question_id :: string
  s_invite_id :: "int option"
  s_candidate :: string
  s_candidate_email :: "string option"
  s_language :: string
  s_code :: string
  s_status :: string
  s_late :: bool
  s_agent_job_id :: "string option"
  s_attempts :: int
  s_error_reason :: "string option"
  s_judge_cost_usd :: "rat option"
  s_created_at :: instant
  s_updated_at :: instant

record assessment_result =
  r_id :: int
  r_submission_id :: string
  r_verdict :: string
  r_score_pct :: rat
  r_reason :: string
  r_full_result :: "(string \<times> json) list"
  r_received_at :: instant

record rate_limit_counter =
  rl_bucket :: string
  rl_client :: string
  rl_window_start :: int
  rl_count :: int

subsection \<open>The results notification\<close>

text \<open>
  \<open>notify.GradedQuestion\<close> and \<open>notify.ResultsReady\<close>: plain values, read from the
  session before the background task runs.
\<close>

record graded_question =
  gq_submission_id :: string
  gq_question_id :: string
  gq_title :: string
  gq_verdict :: string
  gq_score_pct :: rat

record results_ready =
  rr_org_id :: int
  rr_invite_id :: int
  rr_candidate :: string
  rr_candidate_email :: "string option"
  rr_title :: string
  rr_results_url :: string
  rr_recipient :: "string option"
  rr_webhook_url :: "string option"
  rr_webhook_secret :: "string option"
  rr_questions :: "graded_question list"

text \<open>
  What is handed to a background task: a results notification, or an account mail, its recipient,
  template and link.
\<close>

datatype account_mail = ConfirmAddress string | ResetPassword string | ChangeEmail string string

datatype outgoing = Deliver results_ready | AccountMail string account_mail string

subsection \<open>The store\<close>

record store =
  t_orgs :: "organization list"
  t_usage :: "org_usage list"
  t_assets :: "org_asset list"
  t_interviewers :: "interviewer list"
  t_memberships :: "membership list"
  t_org_invites :: "org_invite list"
  t_questions :: "question list"
  t_test_cases :: "test_case list"
  t_variant_sets :: "variant_set list"
  t_assessments :: "assessment list"
  t_assessment_questions :: "assessment_question list"
  t_invites :: "invite list"
  t_attempts :: "candidate_attempt list"
  t_slot_variants :: "slot_variant list"
  t_events :: "integrity_event list"
  t_drafts :: "candidate_draft list"
  t_feedback :: "candidate_feedback list"
  t_submissions :: "submission list"
  t_results :: "assessment_result list"
  t_counters :: "rate_limit_counter list"
  mem_hits :: "((string \<times> string) \<times> instant list) list"
  outbox :: "outgoing list"

definition empty_store :: store where
  "empty_store = \<lparr>t_orgs = [], t_usage = [], t_assets = [], t_interviewers = [],
     t_memberships = [], t_org_invites = [], t_questions = [], t_test_cases = [],
     t_variant_sets = [], t_assessments = [], t_assessment_questions = [], t_invites = [],
     t_attempts = [], t_slot_variants = [], t_events = [], t_drafts = [], t_feedback = [],
     t_submissions = [], t_results = [], t_counters = [], mem_hits = [], outbox = []\<rparr>"

text \<open>\<open>session.get(Model, key)\<close>.\<close>

definition get_org :: "int \<Rightarrow> store \<Rightarrow> organization option" where
  "get_org i st = first_where (\<lambda>r. o_id r = Some i) (t_orgs st)"

definition get_interviewer :: "int \<Rightarrow> store \<Rightarrow> interviewer option" where
  "get_interviewer i st = first_where (\<lambda>r. iv_id r = i) (t_interviewers st)"

definition get_question :: "string \<Rightarrow> store \<Rightarrow> question option" where
  "get_question i st = first_where (\<lambda>r. q_id r = i) (t_questions st)"

definition get_assessment :: "string \<Rightarrow> store \<Rightarrow> assessment option" where
  "get_assessment i st = first_where (\<lambda>r. a_id r = i) (t_assessments st)"

definition get_invite :: "int \<Rightarrow> store \<Rightarrow> invite option" where
  "get_invite i st = first_where (\<lambda>r. inv_id r = i) (t_invites st)"

definition get_submission :: "string \<Rightarrow> store \<Rightarrow> submission option" where
  "get_submission i st = first_where (\<lambda>r. s_id r = i) (t_submissions st)"

text \<open>
  The unique constraints of the schema that the properties below rely on. In SQL two NULLs are
  distinct, so the constraint on submissions binds candidate submissions only.
\<close>

definition sub_key :: "submission \<Rightarrow> (int \<times> string \<times> string) option" where
  "sub_key s = (case (s_invite_id s, s_candidate_email s) of
     (Some i, Some e) \<Rightarrow> Some (i, e, s_question_id s) | _ \<Rightarrow> None)"

definition submissions_unique :: "store \<Rightarrow> bool" where
  "submissions_unique st = (unique_key s_id (t_submissions st) \<and>
     distinct (map sub_key (filter (\<lambda>s. sub_key s \<noteq> None) (t_submissions st))))"

definition at_key :: "candidate_attempt \<Rightarrow> int \<times> string" where
  "at_key r = (at_invite_id r, at_candidate_email r)"

definition sv_key :: "slot_variant \<Rightarrow> int \<times> string \<times> int" where
  "sv_key r = (sv_invite_id r, sv_candidate_email r, sv_assessment_question_id r)"

definition dr_key :: "candidate_draft \<Rightarrow> int \<times> string \<times> string" where
  "dr_key r = (dr_invite_id r, dr_candidate_email r, dr_question_id r)"

definition usage_key :: "org_usage \<Rightarrow> int \<times> string" where
  "usage_key r = (u_org_id r, u_period r)"

definition attempts_unique :: "store \<Rightarrow> bool" where
  "attempts_unique st = (unique_key at_id (t_attempts st) \<and> unique_key at_key (t_attempts st))"

definition schema_ok :: "store \<Rightarrow> bool" where
  "schema_ok st = (submissions_unique st \<and> attempts_unique st \<and>
     unique_key sv_key (t_slot_variants st) \<and> unique_key dr_key (t_drafts st) \<and>
     unique_key fb_attempt_id (t_feedback st) \<and> unique_key r_submission_id (t_results st) \<and>
     unique_key usage_key (t_usage st))"

lemma get_question_SomeD: "get_question i st = Some q \<Longrightarrow> q \<in> set (t_questions st) \<and> q_id q = i"
  unfolding get_question_def by (rule find_SomeD)

lemma get_submission_SomeD:
  "get_submission i st = Some s \<Longrightarrow> s \<in> set (t_submissions st) \<and> s_id s = i"
  unfolding get_submission_def by (rule find_SomeD)

lemma get_invite_SomeD: "get_invite i st = Some v \<Longrightarrow> v \<in> set (t_invites st) \<and> inv_id v = i"
  unfolding get_invite_def by (rule find_SomeD)

lemma get_assessment_SomeD:
  "get_assessment i st = Some a \<Longrightarrow> a \<in> set (t_assessments st) \<and> a_id a = i"
  unfolding get_assessment_def by (rule find_SomeD)

lemma get_org_SomeD: "get_org i st = Some g \<Longrightarrow> g \<in> set (t_orgs st) \<and> o_id g = Some i"
  unfolding get_org_def by (rule find_SomeD)

lemmas get_SomeD = get_question_SomeD get_submission_SomeD get_invite_SomeD
  get_assessment_SomeD get_org_SomeD

lemma schema_ok_empty: "schema_ok empty_store"
  by (simp add: schema_ok_def submissions_unique_def attempts_unique_def empty_store_def)

text \<open>Rows for the concrete examples.\<close>

definition example_question :: question where
  "example_question = \<lparr>q_id = ''q1'', q_owner_id = None, q_org_id = 1, q_title = ''Sum'', q_prompt = ''p'',
     q_constraints = ''c'', q_time_limit_s = 2, q_pass_threshold = 9/10, q_required_complexity = None,
     q_example_input = None, q_example_output = None, q_difficulty = None, q_variant_set_id = None,
     q_variant_label = None, q_reference_solution = None, q_reference_language = None,
     q_duration_minutes = None, q_status = ''active'', q_created_at = 0\<rparr>"

definition example_admin :: membership where
  "example_admin = \<lparr>m_id = 1, m_org_id = 1, m_interviewer_id = 1, m_role = ''admin'', m_invited_by = None,
     m_created_at = 0\<rparr>"

end
