(* ===== verification/Settings.thy ===== *)
theory Settings
  imports Tables
begin

section \<open>Settings: the configuration read from the environment\<close>

text \<open>
  \<open>config.py\<close>. The environment is a function from variable names to values; loading
  the module reads every setting once and raises where Python's \<open>int\<close> or the
  \<open>COOKIE_SAMESITE\<close> check does. The model keeps the settings that decide what the
  platform does; it leaves out those that are only handed to a library (log format and level,
  SMTP and HTTP timeouts, Sentry, the database URL). The ephemeral JWT secret, minted by
  \<open>secrets.token_urlsafe\<close>, is an argument.
\<close>

record settings =
  c_testing :: bool
  c_platform_base_url :: string
  c_frontend_base_url :: string
  c_callback_token :: "string option"
  c_assess_api_token :: "string option"
  c_assess_signing_secret :: "string option"
  c_callback_signing_secret :: "string option"
  c_jwt_secret :: string
  c_jwt_expire_min :: int
  c_refresh_expire_days :: int
  c_cookie_secure :: bool
  c_cookie_samesite :: string
  c_password_breach_check :: bool
  c_cors_origins :: "string list"
  c_registration_code :: "string option"
  c_trust_proxy_headers :: bool
  c_smtp_host :: "string option"
  c_allow_private_webhooks :: bool
  c_rate_limit_backend :: string
  c_rate_limit_window_s :: int
  c_login_rate_limit_max :: int
  c_submit_rate_limit_max :: int
  c_register_rate_limit_max :: int
  c_draft_rate_limit_max :: int
  c_draft_save_rate_limit_max :: int
  c_run_rate_limit_max :: int
  c_reap_interval_s :: int
  c_reap_running_after_s :: int
  c_trigger_retry_after_s :: int
  c_max_trigger_attempts :: int
  c_submit_grace_seconds :: int
  c_billing_enforced :: bool
  c_stripe_secret_key :: "string option"
  c_stripe_webhook_secret :: "string option"
  c_stripe_price_starter :: "string option"
  c_stripe_price_growth :: "string option"
  c_stripe_automatic_tax :: bool
  c_retention_interval_s :: int
  c_privacy_policy_version :: string
  c_support_email :: string
  c_support_email_org_tag :: bool
  c_metrics_token :: string
  c_metrics_auth_disabled :: bool

type_synonym environ = "string \<Rightarrow> string option"

definition getenv :: "environ \<Rightarrow> string \<Rightarrow> string \<Rightarrow> string" where
  "getenv env k d = (case env k of None \<Rightarrow> d | Some v \<Rightarrow> v)"

text \<open>\<open>os.getenv(k) or None\<close>.\<close>

definition getenv_or_none :: "environ \<Rightarrow> string \<Rightarrow> string option" where
  "getenv_or_none env k = (case env k of None \<Rightarrow> None | Some v \<Rightarrow> if v = [] then None else Some v)"

definition getenv_int :: "environ \<Rightarrow> string \<Rightarrow> string \<Rightarrow> exn + int" where
  "getenv_int env k d = (case py_int (getenv env k d) of
     None \<Rightarrow> Inl (ValueError (getenv env k d)) | Some i \<Rightarrow> Inr i)"

text \<open>\<open>.lower() in {"1", "true"}\<close>, \<open>.lower() == "true"\<close> and \<open>.lower() != "false"\<close>.\<close>

definition flag_set :: "environ \<Rightarrow> string \<Rightarrow> string \<Rightarrow> bool" where
  "flag_set env k d = (py_lower (getenv env k d) \<in> {''1'', ''true''})"

definition flag_true :: "environ \<Rightarrow> string \<Rightarrow> string \<Rightarrow> bool" where
  "flag_true env k d = (py_lower (getenv env k d) = ''true'')"

definition flag_not_false :: "environ \<Rightarrow> string \<Rightarrow> string \<Rightarrow> bool" where
  "flag_not_false env k d = (py_lower (getenv env k d) \<noteq> ''false'')"

definition cors_origins :: "environ \<Rightarrow> string \<Rightarrow> string list" where
  "cors_origins env frontend =
     map py_strip (filter (\<lambda>s. py_strip s \<noteq> [])
       (py_split (CHR '','') (getenv env ''CORS_ORIGINS'' frontend)))"

definition cookie_samesite :: "environ \<Rightarrow> exn + string" where
  "cookie_samesite env = (let s = py_lower (getenv env ''COOKIE_SAMESITE'' ''lax'') in
     if s \<in> {''lax'', ''strict'', ''none''} then Inr s
     else Inl (RuntimeError ''COOKIE_SAMESITE must be lax, strict or none''))"

definition jwt_secret :: "environ \<Rightarrow> string \<Rightarrow> string" where
  "jwt_secret env ephemeral = (case env ''JWT_SECRET'' of
     None \<Rightarrow> ephemeral | Some v \<Rightarrow> if v = [] then ephemeral else v)"

definition load_settings :: "environ \<Rightarrow> string \<Rightarrow> exn + settings" where
  "load_settings env ephemeral =
    (let testing = flag_set env ''PLATFORM_TESTING'' [];
         platform_url = getenv env ''PLATFORM_BASE_URL'' ''http://127.0.0.1:9000'';
         frontend_url = getenv env ''FRONTEND_BASE_URL'' ''http://127.0.0.1:5173'' in
     sbind (getenv_int env ''JWT_EXPIRE_MIN'' ''15'') (\<lambda>jwt_expire_min.
     sbind (getenv_int env ''REFRESH_EXPIRE_DAYS'' ''30'') (\<lambda>refresh_days.
     sbind (cookie_samesite env) (\<lambda>samesite.
     sbind (getenv_int env ''RATE_LIMIT_WINDOW_S'' ''60'') (\<lambda>window.
     sbind (getenv_int env ''LOGIN_RATE_LIMIT_MAX'' ''10'') (\<lambda>login.
     sbind (getenv_int env ''SUBMIT_RATE_LIMIT_MAX'' ''20'') (\<lambda>submit.
     sbind (getenv_int env ''REGISTER_RATE_LIMIT_MAX'' ''5'') (\<lambda>register.
     sbind (getenv_int env ''DRAFT_RATE_LIMIT_MAX'' ''10'') (\<lambda>draft.
     sbind (getenv_int env ''DRAFT_SAVE_RATE_LIMIT_MAX'' ''60'') (\<lambda>draft_save.
     sbind (getenv_int env ''RUN_RATE_LIMIT_MAX'' ''60'') (\<lambda>run.
     sbind (if testing then Inr 0 else getenv_int env ''REAP_INTERVAL_S'' ''60'') (\<lambda>reap_interval.
     sbind (getenv_int env ''REAP_RUNNING_AFTER_S'' ''900'') (\<lambda>reap_running.
     sbind (getenv_int env ''TRIGGER_RETRY_AFTER_S'' ''120'') (\<lambda>retry_after.
     sbind (getenv_int env ''MAX_TRIGGER_ATTEMPTS'' ''3'') (\<lambda>max_attempts.
     sbind (getenv_int env ''SUBMIT_GRACE_SECONDS'' ''15'') (\<lambda>grace.
     sbind (if testing then Inr 0 else getenv_int env ''RETENTION_INTERVAL_S'' ''3600'') (\<lambda>retention.
     Inr \<lparr>c_testing = testing,
       c_platform_base_url = platform_url,
       c_frontend_base_url = frontend_url,
       c_callback_token = getenv_or_none env ''CALLBACK_TOKEN'',
       c_assess_api_token = getenv_or_none env ''ASSESS_API_TOKEN'',
       c_assess_signing_secret = getenv_or_none env ''ASSESS_SIGNING_SECRET'',
       c_callback_signing_secret = getenv_or_none env ''CALLBACK_SIGNING_SECRET'',
       c_jwt_secret = jwt_secret env ephemeral,
       c_jwt_expire_min = jwt_expire_min,
       c_refresh_expire_days = refresh_days,
       c_cookie_secure = flag_true env ''COOKIE_SECURE''
          (if startswith platform_url ''https://'' then ''True'' else ''False''),
       c_cookie_samesite = samesite,
       c_password_breach_check = (\<not> testing \<and> flag_true env ''PASSWORD_BREACH_CHECK'' ''true''),
       c_cors_origins = cors_origins env frontend_url,
       c_registration_code = getenv_or_none env ''REGISTRATION_CODE'',
       c_trust_proxy_headers = flag_true env ''TRUST_PROXY_HEADERS'' ''false'',
       c_smtp_host = (if testing then None else getenv_or_none env ''SMTP_HOST''),
       c_allow_private_webhooks = flag_set env ''ALLOW_PRIVATE_WEBHOOKS'' [],
       c_rate_limit_backend = getenv env ''RATE_LIMIT_BACKEND'' ''memory'',
       c_rate_limit_window_s = window,
       c_login_rate_limit_max = login,
       c_submit_rate_limit_max = submit,
       c_register_rate_limit_max = register,
       c_draft_rate_limit_max = draft,
       c_draft_save_rate_limit_max = draft_save,
       c_run_rate_limit_max = run,
       c_reap_interval_s = reap_interval,
       c_reap_running_after_s = reap_running,
       c_trigger_retry_after_s = retry_after,
       c_max_trigger_attempts = max_attempts,
       c_submit_grace_seconds = grace,
       c_billing_enforced = (\<not> testing \<and> flag_not_false env ''BILLING_ENFORCED'' ''true''),
       c_stripe_secret_key = getenv_or_none env ''STRIPE_SECRET_KEY'',
       c_stripe_webhook_secret = getenv_or_none env ''STRIPE_WEBHOOK_SECRET'',
       c_stripe_price_starter = getenv_or_none env ''STRIPE_PRICE_STARTER'',
       c_stripe_price_growth = getenv_or_none env ''STRIPE_PRICE_GROWTH'',
       c_stripe_automatic_tax = flag_not_false env ''STRIPE_AUTOMATIC_TAX'' ''true'',
       c_retention_interval_s = retention,
       c_privacy_policy_version = getenv env ''PRIVACY_POLICY_VERSION'' ''2026-09-14'',
       c_support_email = getenv env ''SUPPORT_EMAIL'' [],
       c_support_email_org_tag = flag_set env ''SUPPORT_EMAIL_ORG_TAG'' ''true'',
       c_metrics_token = getenv env ''METRICS_TOKEN'' [],
       c_metrics_auth_disabled = flag_set env ''METRICS_AUTH_DISABLED'' []\<rparr>
     )))))))))))))))))"

definition billing_enabled :: "settings \<Rightarrow> bool" where
  "billing_enabled c = (c_stripe_secret_key c \<noteq> None)"

text \<open>The settings of a deployment that sets nothing, for the concrete examples.\<close>

definition default_settings :: settings where
  "default_settings = \<lparr>c_testing = False,
     c_platform_base_url = ''http://127.0.0.1:9000'', c_frontend_base_url = ''http://127.0.0.1:5173'',
     c_callback_token = None, c_assess_api_token = None, c_assess_signing_secret = None,
     c_callback_signing_secret = None, c_jwt_secret = ''k'', c_jwt_expire_min = 15,
     c_refresh_expire_days = 30, c_cookie_secure = False, c_cookie_samesite = ''lax'',
     c_password_breach_check = True, c_cors_origins = [''http://127.0.0.1:5173''],
     c_registration_code = None, c_trust_proxy_headers = False, c_smtp_host = None,
     c_allow_private_webhooks = False, c_rate_limit_backend = ''memory'',
     c_rate_limit_window_s = 60, c_login_rate_limit_max = 10, c_submit_rate_limit_max = 20,
     c_register_rate_limit_max = 5, c_draft_rate_limit_max = 10,
     c_draft_save_rate_limit_max = 60, c_run_rate_limit_max = 60, c_reap_interval_s = 60,
     c_reap_running_after_s = 900, c_trigger_retry_after_s = 120, c_max_trigger_attempts = 3,
     c_submit_grace_seconds = 15, c_billing_enforced = True, c_stripe_secret_key = None,
     c_stripe_webhook_secret = None, c_stripe_price_starter = None, c_stripe_price_growth = None, c_stripe_automatic_tax = True,
     c_retention_interval_s = 3600, c_privacy_policy_version = ''2026-09-14'',
     c_support_email = [], c_support_email_org_tag = True, c_metrics_token = [],
     c_metrics_auth_disabled = False\<rparr>"

text \<open>What loading guarantees, whatever the environment says.\<close>

lemma load_settings_testing:
  assumes "load_settings env e = Inr c" and "c_testing c"
  shows "\<not> c_billing_enforced c \<and> c_reap_interval_s c = 0 \<and> c_retention_interval_s c = 0 \<and>
         c_smtp_host c = None \<and> \<not> c_password_breach_check c"
  using assms unfolding load_settings_def Let_def
  by (elim sbind_InrE) (auto split: if_splits)

lemma cookie_samesite_ok: "cookie_samesite env = Inr s \<Longrightarrow> s \<in> {''lax'', ''strict'', ''none''}"
  unfolding cookie_samesite_def Let_def by (simp split: if_splits)

lemma cors_origins_nonempty: "[] \<notin> set (cors_origins env f)"
  by (auto simp: cors_origins_def)

lemma jwt_secret_nonempty: "e \<noteq> [] \<Longrightarrow> jwt_secret env e \<noteq> []"
  by (simp add: jwt_secret_def split: option.splits)

lemma load_settings_secrets:
  assumes "load_settings env e = Inr c" and "e \<noteq> []"
  shows "c_jwt_secret c \<noteq> [] \<and> c_cookie_samesite c \<in> {''lax'', ''strict'', ''none''} \<and>
         [] \<notin> set (c_cors_origins c)"
proof -
  from assms(1) obtain s f where s: "cookie_samesite env = Inr s"
    and c: "c_cookie_samesite c = s" "c_cors_origins c = cors_origins env f"
      "c_jwt_secret c = jwt_secret env e"
    unfolding load_settings_def Let_def by (elim sbind_InrE) force
  show ?thesis
    unfolding c using cookie_samesite_ok [OF s] jwt_secret_nonempty [OF assms(2)]
      cors_origins_nonempty by blast
qed

lemma py_int_defaults:
  "py_int ''15'' = Some 15" "py_int ''30'' = Some 30" "py_int ''60'' = Some 60"
  "py_int ''10'' = Some 10" "py_int ''20'' = Some 20" "py_int ''5'' = Some 5"
  "py_int ''900'' = Some 900" "py_int ''120'' = Some 120" "py_int ''3'' = Some 3"
  "py_int ''3600'' = Some 3600"
  by code_simp+

lemma default_settings_loaded: "load_settings (\<lambda>_. None) ''k'' = Inr default_settings"
proof -
  have low: "py_lower ''true'' = ''true''" "py_lower ''false'' = ''false''"
    "py_lower [] = []" "py_lower ''lax'' = ''lax''" "py_lower ''False'' = ''false''"
    by code_simp+
  have cors: "cors_origins (\<lambda>_. None) ''http://127.0.0.1:5173'' = [''http://127.0.0.1:5173'']"
    by code_simp
  have pre: "startswith ''http://127.0.0.1:9000'' ''https://'' = False"
    by code_simp
  show ?thesis
    unfolding load_settings_def default_settings_def Let_def cors getenv_def getenv_int_def
    by (simp add: py_int_defaults low pre getenv_or_none_def flag_set_def getenv_def cors
        flag_true_def flag_not_false_def jwt_secret_def cookie_samesite_def)
qed

end
