(* ===== verification/Counter.thy ===== *)
theory Counter
  imports Prelude
begin

section \<open>Counter: the contract of a conditional UPDATE\<close>

text \<open>
  A counter that several workers bump with \<open>UPDATE .. SET n = n + k WHERE n + k <= limit\<close>. Each
  UPDATE is atomic, so an interleaving of workers is a list of claims. \<open>granted\<close> adds up what the
  successful ones took. The billing claim and the rate limiter's row give this contract.
\<close>

fun run_claims :: "(int \<Rightarrow> int \<Rightarrow> 's \<Rightarrow> bool \<times> 's) \<Rightarrow> (int \<times> int) list \<Rightarrow> 's \<Rightarrow> bool list \<times> 's" where
  "run_claims claim [] s = ([], s)"
| "run_claims claim ((limit, n) # cs) s =
     (let r = claim limit n s; rest = run_claims claim cs (snd r)
      in (fst r # fst rest, snd rest))"

definition granted :: "bool list \<Rightarrow> (int \<times> int) list \<Rightarrow> int" where
  "granted bs cs = sum_list (map (\<lambda>(b, (_, n)). if b then n else 0) (zip bs cs))"

locale counter =
  fixes claim :: "int \<Rightarrow> int \<Rightarrow> 's \<Rightarrow> bool \<times> 's"
    and level :: "'s \<Rightarrow> int"
    and ok :: "'s \<Rightarrow> bool"
    and sizes :: "int set"
  assumes sizes_pos: "n \<in> sizes \<Longrightarrow> 0 < n"
    and keeps: "ok s \<Longrightarrow> n \<in> sizes \<Longrightarrow> ok (snd (claim limit n s))"
    and grants: "ok s \<Longrightarrow> n \<in> sizes \<Longrightarrow> fst (claim limit n s) \<longleftrightarrow> level s + n \<le> limit"
    and moves: "ok s \<Longrightarrow> n \<in> sizes \<Longrightarrow>
       level (snd (claim limit n s)) = level s + (if level s + n \<le> limit then n else 0)"
begin

lemma run_ok: "ok s \<Longrightarrow> snd ` set cs \<subseteq> sizes \<Longrightarrow> ok (snd (run_claims claim cs s))"
  by (induction cs arbitrary: s) (auto simp: Let_def keeps)

theorem run_level:
  "ok s \<Longrightarrow> snd ` set cs \<subseteq> sizes \<Longrightarrow>
   level (snd (run_claims claim cs s)) = level s + granted (fst (run_claims claim cs s)) cs"
  by (induction cs arbitrary: s) (auto simp: Let_def keeps moves grants granted_def)

theorem run_bound:
  "\<lbrakk>ok s; snd ` set cs \<subseteq> sizes; \<forall>(limit, n)\<in>set cs. limit \<le> cap; level s \<le> cap\<rbrakk> \<Longrightarrow>
   level (snd (run_claims claim cs s)) \<le> cap"
proof (induction cs arbitrary: s)
  case Nil
  then show ?case by simp
next
  case (Cons c cs)
  obtain limit n where c: "c = (limit, n)" by fastforce
  with Cons.prems have "ok (snd (claim limit n s))" "level (snd (claim limit n s)) \<le> cap"
    by (auto simp: keeps moves)
  with Cons show ?case by (auto simp: c Let_def)
qed

lemma boundary_race:
  assumes "ok s" and "a \<in> sizes" and "b \<in> sizes"
    and "level s + a \<le> limit" and "level s + b \<le> limit" and "limit < level s + a + b"
  shows "fst (run_claims claim [(limit, a), (limit, b)] s) = [True, False]"
  using assms by (simp add: Let_def grants keeps moves)

end

end
