(* ===== verification/RateLimit.thy ===== *)
theory RateLimit
  imports Settings Counter "HOL-Library.AList"
begin

section \<open>Rate limiting\<close>

text \<open>
  \<open>ratelimit.py\<close>: the in-memory sliding-window limiter, the fixed-window limiter in
  the shared database, the choice between them and the address a request counts against.
  The monotonic and the wall clock are arguments, in microseconds. What sibling workers commit
  between the limiter's SELECT and its INSERT is the argument \<open>others\<close>; it is the identity for
  a limiter that runs alone. \<open>rate_limiter\<close> is the contract both backends give.
\<close>

definition too_many :: exn where
  "too_many = HTTPException 429 ''too many requests; slow down and retry shortly.''"

subsection \<open>The in-memory backend\<close>

type_synonym hit_table = "((string \<times> string) \<times> instant list) list"

definition max_tracked_keys :: nat where
  "max_tracked_keys = 10000"

definition hits_of :: "hit_table \<Rightarrow> string \<times> string \<Rightarrow> instant list" where
  "hits_of h k = (case map_of h k of None \<Rightarrow> [] | Some ts \<Rightarrow> ts)"

definition purge_hits :: "instant \<Rightarrow> hit_table \<Rightarrow> hit_table" where
  "purge_hits cutoff h = filter (\<lambda>(k, ts). list_ex (\<lambda>t. t > cutoff) ts) h"

definition mem_check :: "string \<Rightarrow> string \<Rightarrow> int \<Rightarrow> int \<Rightarrow> instant \<Rightarrow> hit_table \<Rightarrow> (unit, hit_table) outcome" where
  "mem_check bucket client max_requests window_s now h =
    (if max_requests \<le> 0 then (Inr (), h)
     else
       let cutoff = now - window_s * 1000000;
           key = (bucket, client);
           h' = (if length h > max_tracked_keys then purge_hits cutoff h else h);
           hits = filter (\<lambda>t. t > cutoff) (hits_of h' key)
       in if int (length hits) \<ge> max_requests then (Inl too_many, h')
          else (Inr (), AList.update key (hits @ [now]) h'))"

definition mem_reset :: "hit_table \<Rightarrow> hit_table" where
  "mem_reset h = []"

definition mem_used :: "string \<Rightarrow> string \<Rightarrow> int \<Rightarrow> instant \<Rightarrow> hit_table \<Rightarrow> nat" where
  "mem_used bucket client window_s now h =
     length (filter (\<lambda>t. t > now - window_s * 1000000) (hits_of h (bucket, client)))"

subsection \<open>The database backend\<close>

definition purge_grace_s :: int where
  "purge_grace_s = 86400"

type_synonym counters = "rate_limit_counter list"

definition rl_key :: "rate_limit_counter \<Rightarrow> string \<times> string \<times> int" where
  "rl_key r = (rl_bucket r, rl_client r, rl_window_start r)"

text \<open>The conditional UPDATE: the rows it matched and the table after it.\<close>

definition db_increment :: "string \<times> string \<times> int \<Rightarrow> int \<Rightarrow> counters \<Rightarrow> bool \<times> counters" where
  "db_increment key max_requests t =
     (let hit = (\<lambda>r. rl_key r = key \<and> rl_count r < max_requests) in
      (0 < count_where hit t, upd_where hit (\<lambda>r. r\<lparr>rl_count := rl_count r + 1\<rparr>) t))"

definition db_check :: "(counters \<Rightarrow> counters) \<Rightarrow> string \<Rightarrow> string \<Rightarrow> int \<Rightarrow> int \<Rightarrow> instant \<Rightarrow>
    counters \<Rightarrow> (unit, counters) outcome" where
  "db_check others bucket client max_requests window_s clock t =
    (if max_requests \<le> 0 then (Inr (), t)
     else
       let now = clock div 1000000;
           window_start = now - (now mod window_s);
           key = (bucket, client, window_start);
           purge = del_where (\<lambda>r. rl_window_start r < now - purge_grace_s);
           t1 = purge t
       in case db_increment key max_requests t1 of
            (True, t2) \<Rightarrow> (Inr (), t2)
          | (False, _) \<Rightarrow>
              if exists_where (\<lambda>r. rl_key r = key) t1 then (Inl too_many, t1)
              else
                let t3 = purge (others t) in
                if exists_where (\<lambda>r. rl_key r = key) t3
                then (case db_increment key max_requests (others t) of
                        (True, t4) \<Rightarrow> (Inr (), t4)
                      | (False, t4) \<Rightarrow> (Inl too_many, t4))
                else (Inr (), t3 @ [\<lparr>rl_bucket = bucket, rl_client = client,
                                     rl_window_start = window_start, rl_count = 1\<rparr>]))"

definition db_reset :: "counters \<Rightarrow> counters" where
  "db_reset t = []"

definition db_used :: "string \<Rightarrow> string \<Rightarrow> int \<Rightarrow> instant \<Rightarrow> counters \<Rightarrow> nat" where
  "db_used bucket client window_s clock t =
     (let now = clock div 1000000 in
      case first_where (\<lambda>r. rl_key r = (bucket, client, now - (now mod window_s))) t of
        None \<Rightarrow> 0 | Some r \<Rightarrow> nat (rl_count r))"

definition counters_ok :: "counters \<Rightarrow> bool" where
  "counters_ok t = (unique_key rl_key t \<and> (\<forall>r\<in>set t. 0 \<le> rl_count r))"

subsection \<open>The limiter the routes use\<close>

text \<open>
  \<open>limiter.check\<close> on the store. \<open>tick\<close> is the process's monotonic clock, \<open>wall\<close> the wall
  clock.
\<close>

definition limiter_check :: "settings \<Rightarrow> string \<Rightarrow> string \<Rightarrow> int \<Rightarrow> int \<Rightarrow> instant \<Rightarrow> instant \<Rightarrow> store \<Rightarrow>
    (unit, store) outcome" where
  "limiter_check c bucket client max_requests window_s tick wall st =
    (if c_rate_limit_backend c = ''db''
     then (case db_check id bucket client max_requests window_s wall (t_counters st) of
             (r, t) \<Rightarrow> (r, st\<lparr>t_counters := t\<rparr>))
     else (case mem_check bucket client max_requests window_s tick (mem_hits st) of
             (r, h) \<Rightarrow> (r, st\<lparr>mem_hits := h\<rparr>)))"

definition client_ip :: "settings \<Rightarrow> string option \<Rightarrow> string option \<Rightarrow> string" where
  "client_ip c forwarded peer =
    (case (if c_trust_proxy_headers c then forwarded else None) of
       Some f \<Rightarrow> if f \<noteq> [] then py_strip (last (py_split (CHR '','') f))
                 else (case peer of Some h \<Rightarrow> h | None \<Rightarrow> ''unknown'')
     | None \<Rightarrow> (case peer of Some h \<Rightarrow> h | None \<Rightarrow> ''unknown''))"

subsection \<open>The contract\<close>

text \<open>
  A limiter counts the requests of a (bucket, client) inside the current window. It admits one
  exactly when the count is below the cap, an admitted request counts once, a rejected one
  does not count, and no other client's count moves.
\<close>

text \<open>
  A burst: \<open>n\<close> requests of one client at one instant; the result counts those admitted.
\<close>

primrec burst :: "('s \<Rightarrow> (unit, 's) outcome) \<Rightarrow> nat \<Rightarrow> 's \<Rightarrow> nat \<times> 's" where
  "burst chk 0 s = (0, s)"
| "burst chk (Suc n) s =
     (let r = chk s; rest = burst chk n (snd r)
      in ((if is_ok r then 1 else 0) + fst rest, snd rest))"

locale rate_limiter =
  fixes check :: "string \<Rightarrow> string \<Rightarrow> int \<Rightarrow> int \<Rightarrow> instant \<Rightarrow> 's \<Rightarrow> (unit, 's) outcome"
    and used :: "string \<Rightarrow> string \<Rightarrow> int \<Rightarrow> instant \<Rightarrow> 's \<Rightarrow> nat"
    and ok :: "'s \<Rightarrow> bool"
  assumes off: "m \<le> 0 \<Longrightarrow> check b c m w now s = (Inr (), s)"
    and keeps: "\<lbrakk>ok s; 0 < w; w \<le> 86400\<rbrakk> \<Longrightarrow> ok (snd (check b c m w now s))"
    and admit: "\<lbrakk>ok s; 0 < w; w \<le> 86400; 0 < m; int (used b c w now s) < m\<rbrakk> \<Longrightarrow>
       fst (check b c m w now s) = Inr () \<and>
       used b c w now (snd (check b c m w now s)) = Suc (used b c w now s)"
    and reject: "\<lbrakk>ok s; 0 < w; w \<le> 86400; 0 < m; m \<le> int (used b c w now s)\<rbrakk> \<Longrightarrow>
       fst (check b c m w now s) = Inl too_many \<and>
       used b c w now (snd (check b c m w now s)) = used b c w now s"
    and frame: "\<lbrakk>ok s; 0 < w; w \<le> 86400; (b', c') \<noteq> (b, c)\<rbrakk> \<Longrightarrow>
       used b' c' w now (snd (check b c m w now s)) = used b' c' w now s"
begin

lemma burst_rejected:
  "\<lbrakk>ok s; 0 < w; w \<le> 86400; 0 < m; m \<le> int (used b c w now s)\<rbrakk> \<Longrightarrow>
   fst (burst (check b c m w now) n s) = 0"
proof (induction n arbitrary: s)
  case 0
  then show ?case by simp
next
  case (Suc n)
  let ?r = "check b c m w now s"
  have r: "fst ?r = Inl too_many" "used b c w now (snd ?r) = used b c w now s"
    using reject [OF Suc.prems] by auto
  have "ok (snd ?r)" using keeps Suc.prems by blast
  with Suc r have "fst (burst (check b c m w now) n (snd ?r)) = 0" by simp
  with r show ?case by (simp add: Let_def is_ok_def)
qed

theorem burst_exact:
  "\<lbrakk>ok s; 0 < w; w \<le> 86400; 0 < m\<rbrakk> \<Longrightarrow>
   fst (burst (check b c m w now) n s) = min n (nat m - used b c w now s)"
proof (induction n arbitrary: s)
  case 0
  then show ?case by simp
next
  case (Suc n)
  let ?r = "check b c m w now s"
  have okr: "ok (snd ?r)" using keeps Suc.prems by blast
  show ?case
  proof (cases "int (used b c w now s) < m")
    case True
    then have "fst ?r = Inr ()" "used b c w now (snd ?r) = Suc (used b c w now s)"
      using admit Suc.prems by auto
    moreover have "fst (burst (check b c m w now) n (snd ?r)) = min n (nat m - used b c w now (snd ?r))"
      using Suc okr by blast
    moreover have "Suc (min n (nat m - Suc u)) = min (Suc n) (nat m - u)" if "int u < m" for u
      using that by linarith
    ultimately show ?thesis using True by (simp add: Let_def is_ok_def)
  next
    case False
    then have "m \<le> int (used b c w now s)" by simp
    then show ?thesis
      using burst_rejected [of s w m b c now "Suc n"] Suc.prems by simp
  qed
qed

text \<open>A flood from one client leaves every other client's allowance as it was.\<close>

lemma burst_frame:
  "\<lbrakk>ok s; 0 < w; w \<le> 86400; (b', c') \<noteq> (b, c)\<rbrakk> \<Longrightarrow>
   used b' c' w now (snd (burst (check b c m w now) n s)) = used b' c' w now s"
proof (induction n arbitrary: s)
  case 0
  then show ?case by simp
next
  case (Suc n)
  have "ok (snd (check b c m w now s))" using keeps Suc.prems by blast
  with Suc show ?case by (simp add: Let_def frame)
qed

end

subsection \<open>The in-memory backend gives the contract\<close>

definition hits_ok :: "hit_table \<Rightarrow> bool" where
  "hits_ok h = distinct (map fst h)"

lemma hits_of_update [simp]: "hits_of (AList.update k v h) k' = (if k = k' then v else hits_of h k')"
  by (simp add: hits_of_def update_conv)

lemma hits_ok_update [simp]: "hits_ok h \<Longrightarrow> hits_ok (AList.update k v h)"
  by (simp add: hits_ok_def distinct_update)

lemma hits_ok_purge [simp]: "hits_ok h \<Longrightarrow> hits_ok (purge_hits c h)"
  unfolding hits_ok_def purge_hits_def by (rule distinct_map_filter)

lemma hits_of_notin: "k \<notin> fst ` set h \<Longrightarrow> hits_of h k = []"
  by (simp add: hits_of_def map_of_eq_None_iff [THEN iffD2])

text \<open>
  Dropping the keys whose hits have all aged out changes no count, now or at any later time.
\<close>

lemma hits_of_purge:
  "hits_ok h \<Longrightarrow> c \<le> c' \<Longrightarrow>
   filter (\<lambda>t. t > c') (hits_of (purge_hits c h) k) = filter (\<lambda>t. t > c') (hits_of h k)"
proof (induction h)
  case Nil
  then show ?case by (simp add: purge_hits_def)
next
  case (Cons e h)
  obtain k0 ts where e: "e = (k0, ts)" by fastforce
  have ok: "hits_ok h" "k0 \<notin> fst ` set h" using Cons.prems e by (auto simp: hits_ok_def)
  then have notin: "k0 \<notin> fst ` set (purge_hits c h)"
    unfolding purge_hits_def by auto
  show ?case
  proof (cases "k = k0")
    case False
    then show ?thesis
      using Cons.IH [OF ok(1) Cons.prems(2)] e by (simp add: purge_hits_def hits_of_def)
  next
    case True
    show ?thesis
    proof (cases "list_ex (\<lambda>t. t > c) ts")
      case True
      then show ?thesis using \<open>k = k0\<close> e by (simp add: purge_hits_def hits_of_def)
    next
      case False
      then have "filter (\<lambda>t. t > c') ts = []"
        using Cons.prems(2) by (auto simp: filter_empty_conv list_ex_iff)
      moreover have "hits_of (purge_hits c (e # h)) k = []"
        using False notin \<open>k = k0\<close> e hits_of_notin by (simp add: purge_hits_def)
      ultimately show ?thesis using \<open>k = k0\<close> e by (simp add: hits_of_def)
    qed
  qed
qed

definition mem_swept :: "instant \<Rightarrow> hit_table \<Rightarrow> hit_table" where
  "mem_swept cutoff h = (if length h > max_tracked_keys then purge_hits cutoff h else h)"

lemma mem_swept_ok [simp]: "hits_ok h \<Longrightarrow> hits_ok (mem_swept c h)"
  by (simp add: mem_swept_def)

lemma hits_of_swept:
  "hits_ok h \<Longrightarrow> c \<le> c' \<Longrightarrow>
   filter (\<lambda>t. t > c') (hits_of (mem_swept c h) k) = filter (\<lambda>t. t > c') (hits_of h k)"
  by (simp add: mem_swept_def hits_of_purge)

lemma mem_check_unfold:
  "0 < m \<Longrightarrow> hits_ok h \<Longrightarrow> mem_check b cl m w now h =
     (let cutoff = now - w * 1000000; h' = mem_swept cutoff h;
          hits = filter (\<lambda>t. t > cutoff) (hits_of h (b, cl)) in
      if m \<le> int (mem_used b cl w now h) then (Inl too_many, h')
      else (Inr (), AList.update (b, cl) (hits @ [now]) h'))"
  by (simp add: mem_check_def mem_used_def Let_def hits_of_swept flip: mem_swept_def)

interpretation mem_limiter: rate_limiter mem_check mem_used hits_ok
proof (unfold_locales, goal_cases)
  case (1 m b c w now s)
  then show ?case by (simp add: mem_check_def)
next
  case (2 s w b c m now)
  then show ?case
    by (cases "m \<le> 0") (simp_all add: mem_check_def [of _ _ m] mem_check_unfold Let_def)
next
  case (3 s w m b c now)
  then show ?case by (simp add: mem_check_unfold Let_def) (simp add: mem_used_def)
next
  case (4 s w m b c now)
  then show ?case
    by (simp add: mem_check_unfold Let_def) (simp add: mem_used_def hits_of_swept)
next
  case (5 s w b' c' b c now m)
  show ?case
  proof (cases "m \<le> 0")
    case True
    then show ?thesis by (simp add: mem_check_def)
  next
    case False
    with 5 show ?thesis
      by (auto simp: mem_check_unfold Let_def mem_used_def hits_of_swept)
  qed
qed

subsection \<open>The database backend gives the contract\<close>

lemma rl_key_count [simp]: "rl_key (r\<lparr>rl_count := n\<rparr>) = rl_key r"
  by (simp add: rl_key_def)

lemma counters_ok_del: "counters_ok t \<Longrightarrow> counters_ok (del_where p t)"
  by (simp add: counters_ok_def unique_key_del)

lemma counters_ok_increment: "counters_ok t \<Longrightarrow> counters_ok (snd (db_increment k m t))"
  by (auto simp: counters_ok_def db_increment_def Let_def unique_key_upd in_upd_where)

lemma counters_ok_insert:
  "\<lbrakk>counters_ok t; \<not> exists_where (\<lambda>r. rl_key r = rl_key x) t; 0 \<le> rl_count x\<rbrakk> \<Longrightarrow>
   counters_ok (t @ [x])"
  by (auto simp: counters_ok_def unique_key_append exists_where_iff)

text \<open>The current window is never swept: it began less than a day ago.\<close>

lemma window_start_recent:
  "0 < w \<Longrightarrow> w \<le> 86400 \<Longrightarrow> n - purge_grace_s \<le> n - n mod (w::int)"
  unfolding purge_grace_s_def using pos_mod_bound [of w n] by linarith

lemma increment_hit:
  "fst (db_increment k m t) \<longleftrightarrow> (\<exists>r\<in>set t. rl_key r = k \<and> rl_count r < m)"
  by (simp add: db_increment_def Let_def count_where_pos)

lemma find_increment:
  "first_where (\<lambda>r. rl_key r = k') (snd (db_increment k m t)) =
   map_option (\<lambda>r. if rl_key r = k \<and> rl_count r < m then r\<lparr>rl_count := rl_count r + 1\<rparr> else r)
     (first_where (\<lambda>r. rl_key r = k') t)"
  unfolding db_increment_def Let_def snd_conv by (rule find_upd_where) simp

lemma find_key_unique:
  "counters_ok t \<Longrightarrow> r \<in> set t \<Longrightarrow> rl_key r = k \<Longrightarrow> first_where (\<lambda>x. rl_key x = k) t = Some r"
  using find_unique [of rl_key t r] by (simp add: counters_ok_def)

text \<open>
  The check in terms of the row it finds, for a limiter that runs alone.
\<close>

definition window_key :: "string \<Rightarrow> string \<Rightarrow> int \<Rightarrow> instant \<Rightarrow> string \<times> string \<times> int" where
  "window_key b c w clock = (b, c, clock div 1000000 - (clock div 1000000) mod w)"

definition swept :: "instant \<Rightarrow> counters \<Rightarrow> counters" where
  "swept clock t = del_where (\<lambda>r. rl_window_start r < clock div 1000000 - purge_grace_s) t"

lemma find_swept:
  "0 < w \<Longrightarrow> w \<le> 86400 \<Longrightarrow>
   first_where (\<lambda>r. rl_key r = window_key b c w clock) (swept clock t) =
   first_where (\<lambda>r. rl_key r = window_key b c w clock) t"
  unfolding swept_def
  by (rule find_del_where)
     (use window_start_recent [of w "clock div 1000000"] in \<open>auto simp: rl_key_def window_key_def\<close>)

lemma db_check_alone:
  assumes "0 < m"
  shows "db_check id b c m w clock t =
    (case first_where (\<lambda>r. rl_key r = window_key b c w clock) (swept clock t) of
       None \<Rightarrow> (Inr (), swept clock t @ [\<lparr>rl_bucket = b, rl_client = c,
          rl_window_start = clock div 1000000 - (clock div 1000000) mod w, rl_count = 1\<rparr>])
     | Some r \<Rightarrow> (if fst (db_increment (window_key b c w clock) m (swept clock t))
                  then (Inr (), snd (db_increment (window_key b c w clock) m (swept clock t)))
                  else (Inl too_many, swept clock t)))"
proof -
  let ?t = "swept clock t" and ?k = "window_key b c w clock"
  obtain hit t2 where inc: "db_increment ?k m ?t = (hit, t2)" by fastforce
  have unf: "db_check id b c m w clock t =
    (if hit then (Inr (), t2)
     else if first_where (\<lambda>r. rl_key r = ?k) ?t \<noteq> None then (Inl too_many, ?t)
     else (Inr (), ?t @ [\<lparr>rl_bucket = b, rl_client = c,
          rl_window_start = clock div 1000000 - (clock div 1000000) mod w, rl_count = 1\<rparr>]))"
    using assms inc by (cases hit) (simp_all add: db_check_def Let_def exists_where_find
        flip: window_key_def swept_def)
  show ?thesis
  proof (cases "first_where (\<lambda>r. rl_key r = ?k) ?t")
    case None
    then have "\<not> hit" using increment_hit [of ?k m ?t] inc by (auto simp: find_None_iff')
    with None show ?thesis by (simp add: unf)
  next
    case (Some r)
    then show ?thesis by (simp add: unf inc)
  qed
qed

lemma window_row_key [simp]:
  "rl_key \<lparr>rl_bucket = b, rl_client = c, rl_window_start = clock div 1000000 - (clock div 1000000) mod w,
     rl_count = n\<rparr> = window_key b c w clock"
  by (simp add: rl_key_def window_key_def)

lemma db_used_alt:
  "db_used b c w clock t = (case first_where (\<lambda>r. rl_key r = window_key b c w clock) t of
     None \<Rightarrow> 0 | Some r \<Rightarrow> nat (rl_count r))"
  by (simp add: db_used_def window_key_def Let_def)

lemma window_key_inj: "window_key b c w n = window_key b' c' w n \<longleftrightarrow> b = b' \<and> c = c'"
  by (auto simp: window_key_def)

interpretation db_limiter: rate_limiter "db_check id" db_used counters_ok
proof (unfold_locales, goal_cases)
  case (1 m b c w now s)
  then show ?case by (simp add: db_check_def)
next
  case (2 s w b c m now)
  show ?case
  proof (cases "0 < m")
    case False
    then show ?thesis using 2 by (simp add: db_check_def)
  next
    case True
    have "counters_ok (swept now s)" using 2 by (simp add: swept_def counters_ok_del)
    then show ?thesis
      using True by (auto simp: db_check_alone exists_where_find
          intro!: counters_ok_increment counters_ok_insert split: option.splits)
  qed
next
  case (3 s w m b c now)
  let ?k = "window_key b c w now"
  show ?case
  proof (cases "first_where (\<lambda>r. rl_key r = ?k) s")
    case None
    with 3 show ?thesis
      by (simp add: db_check_alone find_swept db_used_alt find_append)
  next
    case (Some r)
    have f: "first_where (\<lambda>r. rl_key r = ?k) (swept now s) = Some r"
      using Some find_swept [OF 3(2,3)] by simp
    have r: "r \<in> set (swept now s)" "rl_key r = ?k" using find_SomeD [OF f] by auto
    have nn: "0 \<le> rl_count r" using find_SomeD [OF Some] 3(1) by (auto simp: counters_ok_def)
    have lt: "rl_count r < m" using 3(5) Some nn by (simp add: db_used_alt)
    have "fst (db_increment ?k m (swept now s))" unfolding increment_hit using r lt by blast
    then have run: "db_check id b c m w now s = (Inr (), snd (db_increment ?k m (swept now s)))"
      using 3(4) f by (simp add: db_check_alone)
    have "first_where (\<lambda>r. rl_key r = ?k) (snd (db_increment ?k m (swept now s))) =
        Some (r\<lparr>rl_count := rl_count r + 1\<rparr>)"
      unfolding find_increment f using r lt by simp
    with run nn Some show ?thesis by (simp add: db_used_alt)
  qed
next
  case (4 s w m b c now)
  let ?k = "window_key b c w now"
  show ?case
  proof (cases "first_where (\<lambda>r. rl_key r = ?k) s")
    case None
    with 4 show ?thesis by (simp add: db_used_alt)
  next
    case (Some r)
    have ok: "counters_ok (swept now s)" using 4 by (simp add: swept_def counters_ok_del)
    have "\<not> fst (db_increment ?k m (swept now s))"
    proof
      assume "fst (db_increment ?k m (swept now s))"
      then obtain r' where "r' \<in> set (swept now s)" "rl_key r' = ?k" "rl_count r' < m"
        by (auto simp: increment_hit)
      then have "Some r' = Some r" "rl_count r' < m"
        using find_key_unique [OF ok, of r' ?k] Some find_swept [OF 4(2,3), of b c now s] by simp_all
      then show False using 4(4,5) Some by (simp add: db_used_alt split: if_splits)
    qed
    then show ?thesis using 4 Some by (simp add: db_check_alone find_swept db_used_alt)
  qed
next
  case (5 s w b' c' b c now m)
  show ?case
  proof (cases "0 < m")
    case False
    then show ?thesis by (simp add: db_check_def)
  next
    case True
    let ?k' = "window_key b' c' w now"
    have ne: "?k' \<noteq> window_key b c w now" using 5(4) by (auto simp: window_key_inj)
    then have "map_option (\<lambda>r. if rl_key r = window_key b c w now \<and> rl_count r < m
          then r\<lparr>rl_count := rl_count r + 1\<rparr> else r) (first_where (\<lambda>r. rl_key r = ?k') t) =
        first_where (\<lambda>r. rl_key r = ?k') t" for t
      by (cases "first_where (\<lambda>r. rl_key r = ?k') t") (auto dest!: find_SomeD)
    then have "first_where (\<lambda>r. rl_key r = ?k') (snd (db_check id b c m w now s)) =
        first_where (\<lambda>r. rl_key r = ?k') (swept now s)"
      using True ne [symmetric] by (simp add: db_check_alone find_increment find_append
          split: option.splits)
    then show ?thesis using 5 by (simp add: db_used_alt find_swept)
  qed
qed

text \<open>The row of one window is a conditional counter that moves by one.\<close>

definition row_level :: "string \<times> string \<times> int \<Rightarrow> counters \<Rightarrow> int" where
  "row_level k t = (case first_where (\<lambda>r. rl_key r = k) t of None \<Rightarrow> 0 | Some r \<Rightarrow> rl_count r)"

definition row_ready :: "string \<times> string \<times> int \<Rightarrow> counters \<Rightarrow> bool" where
  "row_ready k t = (counters_ok t \<and> first_where (\<lambda>r. rl_key r = k) t \<noteq> None)"

lemma row_hit:
  assumes "row_ready k t"
  shows "fst (db_increment k m t) \<longleftrightarrow> row_level k t + 1 \<le> m"
proof -
  from assms obtain r where f: "first_where (\<lambda>r. rl_key r = k) t = Some r"
    by (auto simp: row_ready_def)
  have "unique_key rl_key t" using assms by (simp add: row_ready_def counters_ok_def)
  then have "fst (db_increment k m t) \<longleftrightarrow> rl_count r < m"
    unfolding increment_hit by (rule ex_unique_key [OF _ f])
  then show ?thesis unfolding row_level_def f by auto
qed

interpretation window_row: counter "\<lambda>limit n. db_increment k limit" "row_level k" "row_ready k" "{1}" for k
proof (unfold_locales, goal_cases)
  case (1 n)
  then show ?case by simp
next
  case (2 s n limit)
  then show ?case by (simp add: row_ready_def counters_ok_increment find_increment)
next
  case (3 s n limit)
  then show ?case by (simp add: row_hit)
next
  case (4 s n limit)
  then obtain r where "first_where (\<lambda>r. rl_key r = k) s = Some r"
    by (auto simp: row_ready_def)
  moreover from this have "rl_key r = k" by (auto dest: find_SomeD)
  ultimately show ?case using 4 by (simp add: row_level_def find_increment)
qed

subsection \<open>The sliding window bounds the admitted requests\<close>

text \<open>
  A run of the in-memory limiter: the requests of every client in the order they arrive, each
  bucket with its own cap, all on the one configured window. The result is the list of admitted
  requests.
\<close>

type_synonym admission = "(string \<times> string) \<times> instant"

fun mem_run :: "(string \<Rightarrow> int) \<Rightarrow> int \<Rightarrow> (string \<times> string \<times> instant) list \<Rightarrow> hit_table \<Rightarrow>
    admission list \<times> hit_table" where
  "mem_run caps w [] h = ([], h)"
| "mem_run caps w ((b, c, t) # rs) h =
     (let r = mem_check b c (caps b) w t h; rest = mem_run caps w rs (snd r)
      in ((if is_ok r then [((b, c), t)] else []) @ fst rest, snd rest))"

definition times_of :: "string \<times> string \<Rightarrow> admission list \<Rightarrow> instant list" where
  "times_of k adm = map snd (filter (\<lambda>e. fst e = k) adm)"

definition in_window :: "int \<Rightarrow> instant \<Rightarrow> string \<times> string \<Rightarrow> admission list \<Rightarrow> instant list" where
  "in_window w t k adm = filter (\<lambda>x. t - w * 1000000 < x \<and> x \<le> t) (times_of k adm)"

fun ascending :: "instant \<Rightarrow> (string \<times> string \<times> instant) list \<Rightarrow> bool" where
  "ascending t0 [] = True"
| "ascending t0 ((b, c, t) # rs) = (t0 \<le> t \<and> ascending t rs)"

definition log_inv :: "(string \<Rightarrow> int) \<Rightarrow> int \<Rightarrow> instant \<Rightarrow> admission list \<Rightarrow> hit_table \<Rightarrow> bool" where
  "log_inv caps w t0 adm h =
    (hits_ok h \<and> (\<forall>e\<in>set adm. snd e \<le> t0) \<and>
     (\<forall>k. \<forall>c \<ge> t0 - w * 1000000. filter (\<lambda>x. x > c) (hits_of h k) = filter (\<lambda>x. x > c) (times_of k adm)) \<and>
     (\<forall>k t. int (length (in_window w t k adm)) \<le> caps (fst k)))"

lemma times_of_append: "times_of k (a @ b) = times_of k a @ times_of k b"
  by (simp add: times_of_def)

lemma in_window_append: "in_window w t k (a @ b) = in_window w t k a @ in_window w t k b"
  by (simp add: in_window_def times_of_append)

lemma length_filter_mono: "(\<And>x. x \<in> set xs \<Longrightarrow> p x \<Longrightarrow> q x) \<Longrightarrow> length (filter p xs) \<le> length (filter q xs)"
  by (induction xs) (auto intro: le_SucI)

lemma log_inv_rejected:
  assumes "log_inv caps w t0 adm h" and "t0 \<le> t"
  shows "log_inv caps w t adm (mem_swept (t - w * 1000000) h)"
  using assms unfolding log_inv_def by (auto simp: hits_of_swept intro: order_trans)

lemma log_inv_admitted:
  assumes inv: "log_inv caps w t0 adm h" and t: "t0 \<le> t"
    and below: "int (mem_used b c w t h) < caps b"
    and h': "h' = AList.update (b, c) (filter (\<lambda>x. x > t - w * 1000000) (hits_of h (b, c)) @ [t])
                    (mem_swept (t - w * 1000000) h)"
  shows "log_inv caps w t (adm @ [((b, c), t)]) h'"
proof -
  let ?adm' = "adm @ [((b, c), t)]"
  have ok: "hits_ok h" and old: "\<forall>e\<in>set adm. snd e \<le> t"
    using inv t by (auto simp: log_inv_def intro: order_trans)
  have same: "filter (\<lambda>x. x > d) (hits_of h k) = filter (\<lambda>x. x > d) (times_of k adm)"
    if "t - w * 1000000 \<le> d" for k d
    using inv t that by (cases k) (simp add: log_inv_def)
  have "filter (\<lambda>x. x > d) (hits_of h' k) = filter (\<lambda>x. x > d) (times_of k ?adm')"
    if d: "t - w * 1000000 \<le> d" for k d
  proof -
    have "filter (\<lambda>x. x > d) (filter (\<lambda>x. x > t - w * 1000000) xs) = filter (\<lambda>x. x > d) xs" for xs
      using d by (induction xs) auto
    then show ?thesis
      using same [OF d, of k] same [OF d, of "(b, c)"] ok d
      by (auto simp: h' times_of_append times_of_def hits_of_swept)
  qed
  moreover have "int (length (in_window w s k ?adm')) \<le> caps (fst k)" for s k
  proof (cases "k = (b, c) \<and> s - w * 1000000 < t \<and> t \<le> s")
    case False
    then have "in_window w s k [((b, c), t)] = []"
      by (auto simp: in_window_def times_of_def)
    then show ?thesis using inv by (cases k) (simp add: log_inv_def in_window_append)
  next
    case True
    then have "length (in_window w s k adm) \<le>
        length (filter (\<lambda>x. x > t - w * 1000000) (times_of k adm))"
      unfolding in_window_def by (intro length_filter_mono) auto
    also have "\<dots> = mem_used b c w t h"
      using same [of "t - w * 1000000" k] True by (simp add: mem_used_def)
    finally have "int (length (in_window w s k adm)) < caps b" using below by simp
    then show ?thesis using True by (simp add: in_window_append) (simp add: in_window_def times_of_def)
  qed
  ultimately show ?thesis
    using ok old unfolding log_inv_def by (auto simp: h')
qed

lemma mem_run_bounded:
  "\<lbrakk>log_inv caps w t0 adm h; ascending t0 rs; \<forall>b. 0 < caps b\<rbrakk> \<Longrightarrow>
   int (length (in_window w t k (adm @ fst (mem_run caps w rs h)))) \<le> caps (fst k)"
proof (induction rs arbitrary: t0 adm h)
  case Nil
  then show ?case by (cases k) (simp add: log_inv_def)
next
  case (Cons r rs)
  obtain b c s where r: "r = (b, c, s)" using prod_cases3 by blast
  have ok: "hits_ok h" and s: "t0 \<le> s" "ascending s rs" and cap: "0 < caps b"
    using Cons.prems r by (auto simp: log_inv_def)
  show ?case
  proof (cases "caps b \<le> int (mem_used b c w s h)")
    case True
    then have "mem_check b c (caps b) w s h = (Inl too_many, mem_swept (s - w * 1000000) h)"
      by (simp add: mem_check_unfold [OF cap ok] Let_def)
    then show ?thesis
      using Cons.IH [OF log_inv_rejected [OF Cons.prems(1) s(1)] s(2) Cons.prems(3)] r
      by (simp add: Let_def)
  next
    case False
    let ?h = "AList.update (b, c) (filter (\<lambda>x. x > s - w * 1000000) (hits_of h (b, c)) @ [s])
                    (mem_swept (s - w * 1000000) h)"
    have "mem_check b c (caps b) w s h = (Inr (), ?h)"
      using False by (simp add: mem_check_unfold [OF cap ok] Let_def)
    moreover have "log_inv caps w s (adm @ [((b, c), s)]) ?h"
      using log_inv_admitted [OF Cons.prems(1) s(1) _ refl] False by simp
    ultimately show ?thesis
      using Cons.IH [of s "adm @ [((b, c), s)]" ?h] s(2) Cons.prems(3) r
      by (simp add: Let_def)
  qed
qed

subsection \<open>Properties\<close>

text \<open>
  C39. However the requests of all clients and buckets are spread over time, the in-memory
  limiter admits at most the bucket's cap in any interval of one window's length, for every
  client: the sweep of idle keys and the lazy pruning never let an extra request through.
\<close>

theorem sliding_window_bound:
  assumes "ascending t0 rs" and "\<forall>b. 0 < caps b"
  shows "int (length (in_window w t k (fst (mem_run caps w rs [])))) \<le> caps (fst k)"
proof -
  have "log_inv caps w t0 [] []"
    using assms(2) by (auto simp: log_inv_def hits_ok_def hits_of_def times_of_def in_window_def
        intro: less_imp_le)
  from mem_run_bounded [OF this assms] show ?thesis by simp
qed

lemma sliding_window_bound_witness:
  "int (length (in_window 60 1000000 (''submit'', ''1.2.3.4'')
     (fst (mem_run (\<lambda>_. 2) 60 [(''submit'', ''1.2.3.4'', 0), (''submit'', ''1.2.3.4'', 5),
        (''run'', ''5.6.7.8'', 7), (''submit'', ''1.2.3.4'', 9)] [])))) \<le> 2"
  using sliding_window_bound [of 0 "[(''submit'', ''1.2.3.4'', 0), (''submit'', ''1.2.3.4'', 5),
        (''run'', ''5.6.7.8'', 7), (''submit'', ''1.2.3.4'', 9)]" "\<lambda>_. 2" 60 1000000
        "(''submit'', ''1.2.3.4'')"] by simp

definition limiter_used :: "settings \<Rightarrow> string \<Rightarrow> string \<Rightarrow> int \<Rightarrow> instant \<Rightarrow> instant \<Rightarrow> store \<Rightarrow> nat" where
  "limiter_used c b cl w tick wall st =
     (if c_rate_limit_backend c = ''db'' then db_used b cl w wall (t_counters st)
      else mem_used b cl w tick (mem_hits st))"

definition limiter_ok :: "store \<Rightarrow> bool" where
  "limiter_ok st = (counters_ok (t_counters st) \<and> hits_ok (mem_hits st))"

lemma burst_db:
  "c_rate_limit_backend c = ''db'' \<Longrightarrow>
   fst (burst (limiter_check c b cl m w tick wall) n st) =
   fst (burst (db_check id b cl m w wall) n (t_counters st))"
  by (induction n arbitrary: st) (auto simp: limiter_check_def Let_def is_ok_def split: prod.splits)

lemma burst_mem:
  "c_rate_limit_backend c \<noteq> ''db'' \<Longrightarrow>
   fst (burst (limiter_check c b cl m w tick wall) n st) =
   fst (burst (mem_check b cl m w tick) n (mem_hits st))"
  by (induction n arbitrary: st) (auto simp: limiter_check_def Let_def is_ok_def split: prod.splits)

text \<open>
  With either backend, \<open>n\<close> simultaneous requests of one client are admitted exactly up to
  what is left of the cap, and the rest are refused with 429 without using anything up.
\<close>

theorem limiter_burst_exact:
  assumes "limiter_ok st" and "0 < w" and "w \<le> 86400" and "0 < m"
  shows "fst (burst (limiter_check c b cl m w tick wall) n st) =
         min n (nat m - limiter_used c b cl w tick wall st)"
  using assms mem_limiter.burst_exact db_limiter.burst_exact
  by (cases "c_rate_limit_backend c = ''db''")
     (simp_all add: burst_db burst_mem limiter_used_def limiter_ok_def)

lemma limiter_burst_exact_witness:
  "fst (burst (limiter_check default_settings ''run'' ''1.2.3.4'' 3 60 7 9) 5 empty_store) = 3"
  using limiter_burst_exact [of empty_store 60 3 default_settings "''run''" "''1.2.3.4''" 7 9 5]
  by (simp add: limiter_ok_def counters_ok_def hits_ok_def empty_store_def limiter_used_def
      default_settings_def mem_used_def hits_of_def)

definition under_cap :: "string \<Rightarrow> string \<Rightarrow> int \<Rightarrow> counters \<Rightarrow> bool" where
  "under_cap b c m t =
     (counters_ok t \<and> (\<forall>r\<in>set t. rl_bucket r = b \<and> rl_client r = c \<longrightarrow> rl_count r \<le> m))"

lemma under_cap_del: "under_cap b c m t \<Longrightarrow> under_cap b c m (del_where p t)"
  by (auto simp: under_cap_def counters_ok_del)

lemma under_cap_increment: "under_cap b c m t \<Longrightarrow> under_cap b c m (snd (db_increment (b, c, ws) m t))"
proof -
  assume cap: "under_cap b c m t"
  have "rl_count r \<le> m"
    if r: "r \<in> set (snd (db_increment (b, c, ws) m t))" "rl_bucket r = b" "rl_client r = c" for r
  proof -
    from r(1) obtain r0 where r0: "r0 \<in> set t"
      and eq: "r = (if rl_key r0 = (b, c, ws) \<and> rl_count r0 < m
                    then r0\<lparr>rl_count := rl_count r0 + 1\<rparr> else r0)"
      unfolding db_increment_def Let_def snd_conv in_upd_where by blast
    show ?thesis
    proof (cases "rl_key r0 = (b, c, ws) \<and> rl_count r0 < m")
      case True
      then show ?thesis using eq by simp
    next
      case False
      then show ?thesis using cap r0 r eq by (simp only: under_cap_def if_False)
    qed
  qed
  then show ?thesis using cap by (simp add: under_cap_def counters_ok_increment)
qed

text \<open>
  Workers that share the database never count past the cap, even when a sibling inserts or
  bumps the same window's row between this worker's SELECT and INSERT: no row of the client
  goes above the cap, and no second row for the window appears.
\<close>

theorem db_race_never_over_cap:
  assumes "under_cap b c m t" and "under_cap b c m (others t)" and "0 < m"
  shows "under_cap b c m (snd (db_check others b c m w clock t))"
proof -
  let ?n = "clock div 1000000"
  let ?k = "(b, c, ?n - ?n mod w)"
  let ?purge = "del_where (\<lambda>r. rl_window_start r < ?n - purge_grace_s)"
  obtain h1 t1 where i1: "db_increment ?k m (?purge t) = (h1, t1)" by fastforce
  obtain h2 t2 where i2: "db_increment ?k m (others t) = (h2, t2)" by fastforce
  have "under_cap b c m t1"
    using under_cap_increment [OF under_cap_del [OF assms(1)]] i1 by (metis snd_conv)
  moreover have "under_cap b c m t2"
    using under_cap_increment [OF assms(2)] i2 by (metis snd_conv)
  moreover have "under_cap b c m (?purge (others t) @ [\<lparr>rl_bucket = b, rl_client = c,
      rl_window_start = ?n - ?n mod w, rl_count = 1\<rparr>])"
    if "\<not> exists_where (\<lambda>r. rl_key r = ?k) (?purge (others t))"
    using that under_cap_del [OF assms(2)] assms(3)
    unfolding under_cap_def by (auto simp del: window_row_key simp: rl_key_def intro!: counters_ok_insert)
  ultimately show ?thesis
    using under_cap_del [OF assms(1)] assms i1 i2
    by (cases h1; cases h2) (auto simp: db_check_def Let_def)
qed

lemma db_race_never_over_cap_witness:
  "under_cap ''run'' ''x'' 2 (snd (db_check (\<lambda>_. [\<lparr>rl_bucket = ''run'', rl_client = ''x'',
      rl_window_start = 60, rl_count = 2\<rparr>]) ''run'' ''x'' 2 60 61000000 []))"
  by (rule db_race_never_over_cap) (simp_all add: under_cap_def counters_ok_def unique_key_def)

text \<open>
  Behind the trusted proxy the address a request counts against is the rightmost
  X-Forwarded-For entry, whatever the client wrote to the left of it; without the trust the
  header is ignored.
\<close>

theorem client_ip_not_forgeable:
  assumes "CHR '','' \<notin> set hop"
  shows "client_ip c (Some (forged @ CHR '','' # hop)) peer =
    (if c_trust_proxy_headers c then py_strip hop else client_ip c None peer)"
proof -
  have "last (py_split (CHR '','') (forged @ CHR '','' # hop)) = hop"
    using assms by (simp add: py_split_append py_split_no_sep)
  then show ?thesis by (simp add: client_ip_def)
qed

lemma client_ip_not_forgeable_witness:
  "client_ip (default_settings\<lparr>c_trust_proxy_headers := True\<rparr>)
     (Some (''6.6.6.6'' @ CHR '','' # '' 10.0.0.1'')) (Some ''proxy'') = py_strip '' 10.0.0.1''"
  using client_ip_not_forgeable [of "'' 10.0.0.1''" "default_settings\<lparr>c_trust_proxy_headers := True\<rparr>"
      "''6.6.6.6''" "Some ''proxy''"] by simp

end
