(* ===== verification/PyTime.thy ===== *)
theory PyTime
  imports Tables
begin

section \<open>Python time: instants, days and calendar months\<close>

text \<open>
  What the code uses of \<open>datetime\<close>: the UTC day of an instant, its year and month (the
  algorithm of \<open>datetime._ord2ymd\<close>) and differences in seconds and minutes. An instant is a
  number of microseconds since 1970-01-01, which is ordinal 719163.
\<close>

definition seconds :: "int \<Rightarrow> int" where
  "seconds n = n * 1000000"

definition minutes :: "int \<Rightarrow> int" where
  "minutes n = n * 60 * 1000000"

definition days_us :: "int \<Rightarrow> int" where
  "days_us n = n * 86400 * 1000000"

text \<open>\<open>dt.date()\<close> as an ordinal.\<close>

definition date_ordinal :: "instant \<Rightarrow> int" where
  "date_ordinal t = t div 86400000000 + 719163"

definition days_before_month :: "int list" where
  "days_before_month = [0, 31, 59, 90, 120, 151, 181, 212, 243, 273, 304, 334]"

text \<open>The month of day \<open>n\<close> (from 0) of a year, from the estimate \<open>(n + 50) >> 5\<close>.\<close>

definition month_of :: "int \<Rightarrow> bool \<Rightarrow> int" where
  "month_of n leap =
    (let m = (n + 50) div 32;
         preceding = days_before_month ! nat (m - 1) + (if m > 2 \<and> leap then 1 else 0)
     in if preceding > n then m - 1 else m)"

definition year_month :: "int \<Rightarrow> int \<times> int" where
  "year_month ord =
    (let n0 = ord - 1;
         n400 = n0 div 146097; r400 = n0 mod 146097;
         n100 = r400 div 36524; r100 = r400 mod 36524;
         n4 = r100 div 1461; r4 = r100 mod 1461;
         n1 = r4 div 365; n = r4 mod 365;
         year = n400 * 400 + 1 + n100 * 100 + n4 * 4 + n1
     in if n1 = 4 \<or> n100 = 4 then (year - 1, 12)
        else (year, month_of n (n1 = 3 \<and> (n4 \<noteq> 24 \<or> n100 = 3))))"

lemma year_month_examples:
  "year_month (date_ordinal 0) = (1970, 1)"
  "year_month (date_ordinal 1709164800000000) = (2024, 2)"
  "year_month (date_ordinal 1709251200000000) = (2024, 3)"
  "year_month (date_ordinal 1735603200000000) = (2024, 12)"
  by (simp_all add: year_month_def month_of_def date_ordinal_def days_before_month_def Let_def)

lemma month_of_range:
  assumes "0 \<le> n" and "n < 365"
  shows "1 \<le> month_of n leap \<and> month_of n leap \<le> 12"
proof -
  have m: "1 \<le> (n + 50) div 32" "(n + 50) div 32 \<le> 12" using assms by linarith+
  show ?thesis
  proof (cases "(n + 50) div 32 = 1")
    case True
    then show ?thesis using assms by (simp add: month_of_def days_before_month_def)
  next
    case False
    with m have "2 \<le> (n + 50) div 32" by linarith
    with m show ?thesis by (simp add: month_of_def Let_def)
  qed
qed

lemma month_range: "1 \<le> snd (year_month d) \<and> snd (year_month d) \<le> 12"
  unfolding year_month_def Let_def
  using month_of_range [of "((d - 1) mod 146097) mod 36524 mod 1461 mod 365"]
  by (simp split: if_splits)

lemma year_pos:
  assumes "1 \<le> d"
  shows "0 \<le> fst (year_month d)"
proof -
  have sum: "0 \<le> a * 400 + 1 + b * 100 + c * 4 + e \<and> 0 \<le> a * 400 + 1 + b * 100 + c * 4 + e - (1::int)"
    if "0 \<le> a" "0 \<le> b" "0 \<le> c" "0 \<le> e" for a b c e
    using that by linarith
  have "0 \<le> (d - 1) div 146097" using assms by (simp add: pos_imp_zdiv_nonneg_iff)
  moreover have "0 \<le> (d - 1) mod 146097 div 36524"
    "0 \<le> (d - 1) mod 146097 mod 36524 div 1461"
    "0 \<le> (d - 1) mod 146097 mod 36524 mod 1461 div 365"
    by (simp_all add: pos_imp_zdiv_nonneg_iff)
  ultimately show ?thesis
    unfolding year_month_def Let_def using sum by (simp only: fst_conv split: if_splits) blast
qed

lemma date_ordinal_pos: "0 \<le> t \<Longrightarrow> 1 \<le> date_ordinal t"
  by (simp add: date_ordinal_def pos_imp_zdiv_nonneg_iff add_increasing)

subsection \<open>The interference of sibling workers\<close>

text \<open>
  A handler that reads, then writes, can see other transactions commit in between. The
  \<open>i\<close>-th such point of a handler applies \<open>others i\<close> to the store; \<open>alone\<close> is a handler that
  runs with no sibling.
\<close>

type_synonym interference = "nat \<Rightarrow> store \<Rightarrow> store"

definition alone :: interference where
  "alone i st = st"

lemma alone_simp [run_simps]: "alone i st = st"
  by (simp add: alone_def)

lemma alone_id: "alone i = id"
  by (rule ext) (simp add: alone_def)

lemma alone_fun: "alone = (\<lambda>_. id)"
  by (intro ext) (simp add: alone_def)

end
