(* ===== verification/Billing.thy ===== *)
theory Billing
  imports PyTime Settings Counter
begin

section \<open>Billing: plans, allowances and metered usage\<close>

text \<open>
  \<open>billing.py\<close>. A plan gives an organisation two monthly allowances (candidate sittings and
  AI drafts) and a number of seats. Usage is one row per organisation and calendar month;
  \<open>consume\<close> claims units inside a conditional UPDATE, \<open>record_usage\<close> (\<open>record\<close> in the source)
  adds to the counters and \<open>release\<close> hands units back. The metric names, which are strings
  used to build attribute names, are a datatype here. The claim is an instance of the
  \<open>counter\<close> contract.
\<close>

subsection \<open>Plans\<close>

record plan =
  p_key :: string
  p_label :: string
  p_price_usd_month :: int
  p_sittings :: int
  p_drafts :: int
  p_seats :: int

definition PLANS :: "(string \<times> plan) list" where
  "PLANS =
    [(''free'', \<lparr>p_key = ''free'', p_label = ''Free'', p_price_usd_month = 0,
        p_sittings = 10, p_drafts = 5, p_seats = 2\<rparr>),
     (''starter'', \<lparr>p_key = ''starter'', p_label = ''Starter'', p_price_usd_month = 49,
        p_sittings = 100, p_drafts = 50, p_seats = 5\<rparr>),
     (''growth'', \<lparr>p_key = ''growth'', p_label = ''Growth'', p_price_usd_month = 199,
        p_sittings = 500, p_drafts = 250, p_seats = 20\<rparr>)]"

definition FREE :: plan where
  "FREE = the (map_of PLANS ''free'')"

definition ENTITLED_STATUSES :: "string list" where
  "ENTITLED_STATUSES = [''active'', ''trialing'', ''past_due'']"

definition plan_for :: "organization \<Rightarrow> plan" where
  "plan_for org =
    (if o_plan_status org \<notin> set ENTITLED_STATUSES then FREE
     else case map_of PLANS (o_plan org) of None \<Rightarrow> FREE | Some p \<Rightarrow> p)"

datatype monthly = Sittings | Drafts
datatype metric = Monthly monthly | Seats

fun plan_limit :: "plan \<Rightarrow> metric \<Rightarrow> int" where
  "plan_limit p (Monthly Sittings) = p_sittings p"
| "plan_limit p (Monthly Drafts) = p_drafts p"
| "plan_limit p Seats = p_seats p"

fun u_count :: "monthly \<Rightarrow> org_usage \<Rightarrow> int" where
  "u_count Sittings r = u_sittings r"
| "u_count Drafts r = u_drafts r"

fun u_over :: "monthly \<Rightarrow> org_usage \<Rightarrow> int" where
  "u_over Sittings r = u_sittings_over r"
| "u_over Drafts r = u_drafts_over r"

fun u_carried :: "monthly \<Rightarrow> org_usage \<Rightarrow> int" where
  "u_carried Sittings r = u_sittings_carried r"
| "u_carried Drafts r = u_drafts_carried r"

fun set_count :: "monthly \<Rightarrow> int \<Rightarrow> org_usage \<Rightarrow> org_usage" where
  "set_count Sittings n r = r\<lparr>u_sittings := n\<rparr>"
| "set_count Drafts n r = r\<lparr>u_drafts := n\<rparr>"

subsection \<open>Billing periods\<close>

definition pad2 :: "int \<Rightarrow> string" where
  "pad2 n = (if 0 \<le> n \<and> n < 10 then CHR ''0'' # show_int n else show_int n)"

definition period_key :: "instant \<Rightarrow> string" where
  "period_key now =
     (case year_month (date_ordinal now) of (y, m) \<Rightarrow> show_int y @ ''-'' @ pad2 m)"

definition previous_period :: "string \<Rightarrow> exn + string" where
  "previous_period period =
    (case py_split (CHR ''-'') period of
       [ys, ms] \<Rightarrow>
         (case (py_int ys, py_int ms) of
            (Some year, Some month) \<Rightarrow>
              Inr (if month = 1 then show_int (year - 1) @ ''-12''
                   else show_int year @ ''-'' @ pad2 (month - 1))
          | _ \<Rightarrow> Inl (ValueError ''invalid literal for int()''))
     | _ \<Rightarrow> Inl (ValueError ''wrong number of values to unpack''))"

subsection \<open>Reading usage\<close>

definition find_usage :: "int \<Rightarrow> string \<Rightarrow> store \<Rightarrow> org_usage option" where
  "find_usage org_id period st =
     first_where (\<lambda>r. u_org_id r = org_id \<and> u_period r = period) (t_usage st)"

definition allowance :: "organization \<Rightarrow> monthly \<Rightarrow> org_usage \<Rightarrow> int" where
  "allowance org mt row = max 0 (plan_limit (plan_for org) (Monthly mt) - u_carried mt row)"

text \<open>
  The columns \<open>carried_from_previous\<close> fills: \<open>(sittings_carried, drafts_carried)\<close>, the default
  0 where the dictionary has no entry.
\<close>

definition carried_from_previous :: "int \<Rightarrow> string \<Rightarrow> store \<Rightarrow> exn + (int \<times> int)" where
  "carried_from_previous org_id period st =
    sbind (previous_period period) (\<lambda>prev.
      case find_usage org_id prev st of
        None \<Rightarrow> Inr (0, 0)
      | Some r \<Rightarrow> Inr (if u_sittings_over r > 0 then u_sittings_over r else 0,
                       if u_drafts_over r > 0 then u_drafts_over r else 0))"

definition usage_row :: "int option \<Rightarrow> int \<Rightarrow> string \<Rightarrow> int \<times> int \<Rightarrow> org_usage" where
  "usage_row i org_id period carried =
     \<lparr>u_id = i, u_org_id = org_id, u_period = period, u_sittings = 0, u_drafts = 0,
      u_sittings_over = 0, u_drafts_over = 0, u_sittings_carried = fst carried,
      u_drafts_carried = snd carried, u_judge_cost_usd = 0, u_draft_cost_usd = 0\<rparr>"

definition usage :: "int \<Rightarrow> string \<Rightarrow> store \<Rightarrow> exn + org_usage" where
  "usage org_id period st =
    (case find_usage org_id period st of
       Some r \<Rightarrow> Inr r
     | None \<Rightarrow> sbind (carried_from_previous org_id period st)
                 (\<lambda>carried. Inr (usage_row None org_id period carried)))"

definition usage_id_value :: "org_usage \<Rightarrow> int" where
  "usage_id_value r = (case u_id r of None \<Rightarrow> 0 | Some i \<Rightarrow> i)"

text \<open>
  \<open>_ensure_row\<close>: the INSERT is refused when a sibling has committed the row in between, and the
  refusal is swallowed.
\<close>

definition ensure_row :: "(store \<Rightarrow> store) \<Rightarrow> int \<Rightarrow> string \<Rightarrow> store \<Rightarrow> (unit, store) outcome" where
  "ensure_row sibling org_id period st =
    guardr (carried_from_previous org_id period st) st (\<lambda>carried.
      let st1 = sibling st in
      if exists_where (\<lambda>r. u_org_id r = org_id \<and> u_period r = period) (t_usage st1)
      then (Inr (), st1)
      else (Inr (), st1\<lparr>t_usage := t_usage st1 @
              [usage_row (Some (fresh_id usage_id_value (t_usage st1))) org_id period carried]\<rparr>))"

definition require_org_id :: "organization \<Rightarrow> exn + int" where
  "require_org_id org = (case o_id org of
     None \<Rightarrow> Inl (RuntimeError ''organisation has no id'') | Some i \<Rightarrow> Inr i)"

definition remaining :: "instant \<Rightarrow> organization \<Rightarrow> metric \<Rightarrow> int option \<Rightarrow> store \<Rightarrow> exn + int" where
  "remaining now org metric used st =
    sbind (require_org_id org) (\<lambda>org_id.
    sbind (usage org_id (period_key now) st) (\<lambda>row.
      (case metric of
         Seats \<Rightarrow> (case used of None \<Rightarrow> Inl AttributeError
                    | Some u \<Rightarrow> Inr (max 0 (plan_limit (plan_for org) Seats - u)))
       | Monthly mt \<Rightarrow>
           Inr (max 0 (allowance org mt row - (case used of None \<Rightarrow> u_count mt row | Some u \<Rightarrow> u))))))"

subsection \<open>The refusal\<close>

fun metric_noun :: "metric \<Rightarrow> string" where
  "metric_noun (Monthly Sittings) = ''candidate sittings''"
| "metric_noun (Monthly Drafts) = ''AI question drafts''"
| "metric_noun Seats = ''seats''"

definition quota_error :: "organization \<Rightarrow> metric \<Rightarrow> int option \<Rightarrow> exn" where
  "quota_error org metric limit_opt =
    (let plan = plan_for org;
         published = plan_limit plan metric;
         limit = (case limit_opt of None \<Rightarrow> published | Some l \<Rightarrow> l);
         noun = metric_noun metric;
         period = (if metric = Seats then [] else '' this month'');
         used_up =
           (if limit < published
            then ''the '' @ p_label plan @ '' plan allows '' @ show_int published @ '' '' @ noun @
                 '' a month, and '' @ show_int (published - limit) @
                 '' carried over from last month, so this month's limit of '' @ show_int limit @
                 '' is used up. ''
            else ''the '' @ p_label plan @ '' plan's limit of '' @ show_int limit @ '' '' @ noun @
                 period @ '' is used up. '')
     in HTTPException 402 (used_up @ ''Upgrade the plan in Settings -> Billing to continue.''))"

subsection \<open>Recording, claiming and releasing\<close>

record usage_delta =
  dl_sittings :: int
  dl_drafts :: int
  dl_sittings_over :: int
  dl_drafts_over :: int
  dl_judge_cost_usd :: rat
  dl_draft_cost_usd :: rat

definition no_delta :: usage_delta where
  "no_delta = \<lparr>dl_sittings = 0, dl_drafts = 0, dl_sittings_over = 0, dl_drafts_over = 0,
     dl_judge_cost_usd = 0, dl_draft_cost_usd = 0\<rparr>"

definition bump :: "usage_delta \<Rightarrow> org_usage \<Rightarrow> org_usage" where
  "bump d r = r\<lparr>u_sittings := u_sittings r + dl_sittings d, u_drafts := u_drafts r + dl_drafts d,
     u_sittings_over := u_sittings_over r + dl_sittings_over d,
     u_drafts_over := u_drafts_over r + dl_drafts_over d,
     u_judge_cost_usd := u_judge_cost_usd r + dl_judge_cost_usd d,
     u_draft_cost_usd := u_draft_cost_usd r + dl_draft_cost_usd d\<rparr>"

definition bump_usage :: "int \<Rightarrow> string \<Rightarrow> usage_delta \<Rightarrow> store \<Rightarrow> bool \<times> store" where
  "bump_usage org_id period d st =
    (let here = (\<lambda>r. u_org_id r = org_id \<and> u_period r = period) in
     (0 < count_where here (t_usage st), st\<lparr>t_usage := upd_where here (bump d) (t_usage st)\<rparr>))"

definition record_usage :: "interference \<Rightarrow> instant \<Rightarrow> int \<Rightarrow> usage_delta \<Rightarrow> store \<Rightarrow> (unit, store) outcome" where
  "record_usage others now org_id d st =
    (if d = no_delta then (Inr (), st)
     else
       let period = period_key now in
       case bump_usage org_id period d st of
         (True, st1) \<Rightarrow> (Inr (), st1)
       | (False, _) \<Rightarrow>
           bindr (ensure_row (others 0) org_id period st) (\<lambda>_ st1.
             (Inr (), snd (bump_usage org_id period d st1))))"

fun metric_delta :: "monthly \<Rightarrow> int \<Rightarrow> int \<Rightarrow> usage_delta" where
  "metric_delta Sittings n over = no_delta\<lparr>dl_sittings := n, dl_sittings_over := over\<rparr>"
| "metric_delta Drafts n over = no_delta\<lparr>dl_drafts := n, dl_drafts_over := over\<rparr>"

text \<open>The conditional UPDATE of \<open>consume\<close>: did it match, and the table after it.\<close>

definition claim_units :: "int \<Rightarrow> string \<Rightarrow> monthly \<Rightarrow> int \<Rightarrow> int \<Rightarrow> org_usage list \<Rightarrow> bool \<times> org_usage list" where
  "claim_units org_id period mt limit n t =
    (let hit = (\<lambda>r. u_org_id r = org_id \<and> u_period r = period \<and> u_count mt r + n \<le> limit) in
     (0 < count_where hit t, upd_where hit (\<lambda>r. set_count mt (u_count mt r + n) r) t))"

definition settled_usage :: "interference \<Rightarrow> int \<Rightarrow> string \<Rightarrow> store \<Rightarrow> (org_usage, store) outcome" where
  "settled_usage others org_id period st =
    guardr (usage org_id period st) st (\<lambda>row.
      if u_id row = None
      then bindr (ensure_row (others 0) org_id period st) (\<lambda>_ st1.
             guardr (usage org_id period st1) st1 (\<lambda>row1. (Inr row1, st1)))
      else (Inr row, st))"

definition consume :: "settings \<Rightarrow> interference \<Rightarrow> instant \<Rightarrow> organization \<Rightarrow> monthly \<Rightarrow> int \<Rightarrow> store \<Rightarrow>
    (unit, store) outcome" where
  "consume c others now org mt n st =
    (if n \<le> 0 then (Inr (), st)
     else guardr (require_org_id org) st (\<lambda>org_id.
       let period = period_key now in
       bindr (settled_usage others org_id period st) (\<lambda>row st1.
         let limit = allowance org mt row in
         if \<not> c_billing_enforced c
         then let over = min n (max 0 (u_count mt row + n - limit)) in
              record_usage others now org_id (metric_delta mt n over) st1
         else let st2 = others 1 st1 in
              (case claim_units org_id period mt limit n (t_usage st2) of
                 (False, _) \<Rightarrow> (Inl (quota_error org (Monthly mt) (Some limit)), st2)
               | (True, t) \<Rightarrow> (Inr (), st2\<lparr>t_usage := t\<rparr>)))))"

text \<open>
  \<open>release\<close> reads the row, computes the new value and writes it back by id; \<open>others 0\<close> runs
  between the two.
\<close>

definition release :: "interference \<Rightarrow> instant \<Rightarrow> int \<Rightarrow> monthly \<Rightarrow> int \<Rightarrow> store \<Rightarrow> (unit, store) outcome" where
  "release others now org_id mt n st =
    guardr (usage org_id (period_key now) st) st (\<lambda>row.
      if u_id row = None then (Inr (), st)
      else
        let st1 = others 0 st; left = max 0 (u_count mt row - n) in
        (Inr (), st1\<lparr>t_usage := upd_where (\<lambda>r. u_id r = u_id row) (set_count mt left) (t_usage st1)\<rparr>))"

subsection \<open>Periods: parsing back what was printed\<close>

lemma digits_val_digit_flag:
  "s \<noteq> [] \<Longrightarrow> is_digit (hd s) \<Longrightarrow> digits_val a p s = digits_val a False s"
  by (cases s) auto

lemma show_nat_hd: "is_digit (hd (show_nat n))"
  by (rule show_nat_digits [of _ n]) simp

lemma pad2_py_int:
  assumes "0 \<le> n"
  shows "py_int (pad2 n) = Some n"
proof (cases "n < 10")
  case False
  then show ?thesis by (simp add: pad2_def py_int_show_int)
next
  case True
  let ?s = "CHR ''0'' # show_nat (nat n)"
  have zero: "is_digit (CHR ''0'')" "digit_val (CHR ''0'') = 0"
    by (simp_all add: is_digit_def digit_val_def code_def)
  have "py_strip ?s = ?s"
    by (rule py_strip_no_space) (use show_nat_digits zero digit_not_space in auto)
  moreover have "digits_val 0 True (show_nat (nat n)) = Some n"
    using digits_val_digit_flag [of "show_nat (nat n)" 0 True] show_nat_hd digits_val_show_nat assms
    by simp
  ultimately show ?thesis using True assms zero by (simp add: pad2_def py_int_def show_int_def)
qed

lemma minus_not_digit: "\<not> is_digit (CHR ''-'')"
  by (simp add: is_digit_def code_def)

lemma show_nat_no_minus: "CHR ''-'' \<notin> set (show_nat n)"
  using show_nat_digits minus_not_digit by blast

lemma pad2_no_minus: "0 \<le> n \<Longrightarrow> CHR ''-'' \<notin> set (pad2 n)"
  by (simp add: pad2_def show_int_def show_nat_no_minus)

lemma previous_period_month:
  assumes "0 \<le> y" and "0 \<le> m"
  shows "previous_period (show_int y @ ''-'' @ pad2 m) =
    Inr (if m = 1 then show_int (y - 1) @ ''-12'' else show_int y @ ''-'' @ pad2 (m - 1))"
proof -
  have "py_split (CHR ''-'') (show_int y @ CHR ''-'' # pad2 m) = [show_int y, pad2 m]"
    using assms by (simp add: py_split_append_sep py_split_no_sep pad2_no_minus show_int_def
        show_nat_no_minus)
  then show ?thesis
    using assms by (simp add: previous_period_def py_int_show_int pad2_py_int)
qed

definition prior_period :: "instant \<Rightarrow> string" where
  "prior_period now = (case previous_period (period_key now) of Inl _ \<Rightarrow> [] | Inr p \<Rightarrow> p)"

lemma previous_period_now: "0 \<le> now \<Longrightarrow> previous_period (period_key now) = Inr (prior_period now)"
  unfolding prior_period_def period_key_def
  using year_pos [OF date_ordinal_pos, of now] month_range [of "date_ordinal now"]
  by (cases "year_month (date_ordinal now)") (simp add: previous_period_month del: append.simps)

subsection \<open>The usage row of a period\<close>

definition usage_ok :: "store \<Rightarrow> bool" where
  "usage_ok st = (unique_key usage_key (t_usage st) \<and> unique_key u_id (t_usage st) \<and>
     (\<forall>r\<in>set (t_usage st). u_id r \<noteq> None))"

definition current_usage :: "int \<Rightarrow> instant \<Rightarrow> store \<Rightarrow> org_usage" where
  "current_usage i now st = (case usage i (period_key now) st of Inr r \<Rightarrow> r
     | Inl _ \<Rightarrow> usage_row None i (period_key now) (0, 0))"

lemma find_usage_key: "find_usage i p st = first_where (\<lambda>r. usage_key r = (i, p)) (t_usage st)"
  by (simp add: find_usage_def usage_key_def)

lemma find_usage_SomeD:
  "find_usage i p st = Some r \<Longrightarrow> r \<in> set (t_usage st) \<and> u_org_id r = i \<and> u_period r = p"
  unfolding find_usage_def by (drule find_SomeD) simp

lemma find_usage_unique:
  "usage_ok st \<Longrightarrow> r \<in> set (t_usage st) \<Longrightarrow> find_usage (u_org_id r) (u_period r) st = Some r"
  using find_unique [of usage_key "t_usage st" r] by (simp add: usage_ok_def find_usage_key usage_key_def)

lemma carried_now:
  "0 \<le> now \<Longrightarrow> carried_from_previous i (period_key now) st =
    Inr (case find_usage i (prior_period now) st of None \<Rightarrow> (0, 0)
         | Some r \<Rightarrow> (max 0 (u_sittings_over r), max 0 (u_drafts_over r)))"
  by (simp add: carried_from_previous_def previous_period_now max_def split: option.splits)

lemma usage_now: "0 \<le> now \<Longrightarrow> usage i (period_key now) st = Inr (current_usage i now st)"
  by (simp add: current_usage_def usage_def carried_now split: option.splits)

lemma current_usage_found:
  "find_usage i (period_key now) st = Some r \<Longrightarrow> current_usage i now st = r"
  by (simp add: current_usage_def usage_def)

lemma current_usage_id:
  "0 \<le> now \<Longrightarrow> usage_ok st \<Longrightarrow>
   u_id (current_usage i now st) = None \<longleftrightarrow> find_usage i (period_key now) st = None"
  by (cases "find_usage i (period_key now) st")
     (auto simp: current_usage_def usage_def carried_now usage_row_def usage_ok_def
       dest!: find_usage_SomeD)

text \<open>
  \<open>settled_usage\<close> ends with the row stored, whatever it found: the same counters and the same
  debt, and no other row touched.
\<close>

lemma fresh_usage_id: "usage_ok st \<Longrightarrow> Some (fresh_id usage_id_value (t_usage st)) \<notin> u_id ` set (t_usage st)"
proof
  assume "Some (fresh_id usage_id_value (t_usage st)) \<in> u_id ` set (t_usage st)"
  then obtain r where r: "r \<in> set (t_usage st)"
    "u_id r = Some (fresh_id usage_id_value (t_usage st))" by auto
  then show False using fresh_id_gt [of r "t_usage st" usage_id_value] by (simp add: usage_id_value_def)
qed

definition opened :: "int \<Rightarrow> instant \<Rightarrow> store \<Rightarrow> store" where
  "opened i now st =
    (if find_usage i (period_key now) st = None
     then st\<lparr>t_usage := t_usage st @ [(current_usage i now st)
            \<lparr>u_id := Some (fresh_id usage_id_value (t_usage st))\<rparr>]\<rparr>
     else st)"

lemma current_usage_fresh:
  "0 \<le> now \<Longrightarrow> find_usage i (period_key now) st = None \<Longrightarrow>
   current_usage i now st = usage_row None i (period_key now)
     (case find_usage i (prior_period now) st of None \<Rightarrow> (0, 0)
      | Some r \<Rightarrow> (max 0 (u_sittings_over r), max 0 (u_drafts_over r)))"
  by (simp add: current_usage_def usage_def carried_now)

lemma ensure_row_alone:
  "0 \<le> now \<Longrightarrow> find_usage i (period_key now) st = None \<Longrightarrow>
   ensure_row (alone k) i (period_key now) st = (Inr (), opened i now st)"
  by (simp add: ensure_row_def carried_now opened_def current_usage_fresh exists_where_find
      find_usage_def usage_row_def alone_def)

lemma opened_usage_ok: "usage_ok st \<Longrightarrow> 0 \<le> now \<Longrightarrow> usage_ok (opened i now st)"
  using fresh_usage_id [of st]
  by (auto simp: opened_def usage_ok_def unique_key_append current_usage_fresh usage_row_def
      usage_key_def find_usage_def find_None_iff')

text \<open>Two rows that differ only in their id count the same.\<close>

definition same_usage :: "org_usage \<Rightarrow> org_usage \<Rightarrow> bool" where
  "same_usage r r' = (r\<lparr>u_id := None\<rparr> = r'\<lparr>u_id := None\<rparr>)"

lemma same_usage_refl [simp]: "same_usage r r"
  by (simp add: same_usage_def)

lemma same_usage_counts:
  assumes "same_usage r r'"
  shows "u_count mt r = u_count mt r'" and "u_over mt r = u_over mt r'" and "u_carried mt r = u_carried mt r'"
    and "u_judge_cost_usd r = u_judge_cost_usd r'"
  using assms by (cases mt; cases r; cases r'; simp add: same_usage_def)+

lemma opened_row:
  assumes "usage_ok st" and "0 \<le> now"
  shows "\<exists>r. find_usage i (period_key now) (opened i now st) = Some r \<and> u_id r \<noteq> None \<and>
             same_usage r (current_usage i now st)"
proof (cases "find_usage i (period_key now) st")
  case None
  then show ?thesis
    using assms by (simp add: opened_def find_usage_def find_append current_usage_fresh usage_row_def
        same_usage_def)
next
  case (Some r)
  with assms show ?thesis
    by (auto simp: opened_def current_usage_found usage_ok_def dest: find_usage_SomeD)
qed

lemma current_usage_opened:
  "usage_ok st \<Longrightarrow> 0 \<le> now \<Longrightarrow>
   find_usage i (period_key now) (opened i now st) = Some (current_usage i now (opened i now st)) \<and>
   u_id (current_usage i now (opened i now st)) \<noteq> None \<and>
   same_usage (current_usage i now (opened i now st)) (current_usage i now st)"
  using opened_row [of st now i] current_usage_found by auto

lemma settled_usage_alone:
  "usage_ok st \<Longrightarrow> 0 \<le> now \<Longrightarrow>
   settled_usage alone i (period_key now) st = (Inr (current_usage i now (opened i now st)), opened i now st)"
  using current_usage_id [of now st i]
  by (auto simp: settled_usage_def usage_now ensure_row_alone opened_def)

subsection \<open>The claim of a monthly allowance is a conditional counter\<close>

definition claim_level :: "int \<Rightarrow> string \<Rightarrow> monthly \<Rightarrow> org_usage list \<Rightarrow> int" where
  "claim_level i p mt t = (case first_where (\<lambda>r. usage_key r = (i, p)) t of
     None \<Rightarrow> 0 | Some r \<Rightarrow> u_count mt r)"

definition claim_ready :: "int \<Rightarrow> string \<Rightarrow> org_usage list \<Rightarrow> bool" where
  "claim_ready i p t = (unique_key usage_key t \<and> first_where (\<lambda>r. usage_key r = (i, p)) t \<noteq> None)"

lemma usage_key_set_count [simp]: "usage_key (set_count mt n r) = usage_key r"
  by (cases mt) (simp_all add: usage_key_def)

lemma u_count_set_count [simp]: "u_count mt (set_count mt n r) = n"
  by (cases mt) simp_all

lemma u_carried_set_count [simp]: "u_carried mt' (set_count mt n r) = u_carried mt' r"
  by (cases mt; cases mt') simp_all

lemma u_id_set_count [simp]: "u_id (set_count mt n r) = u_id r"
  by (cases mt) simp_all

lemma claim_units_key:
  "claim_units i p mt limit n t =
    (let hit = (\<lambda>r. usage_key r = (i, p) \<and> u_count mt r + n \<le> limit) in
     (0 < count_where hit t, upd_where hit (\<lambda>r. set_count mt (u_count mt r + n) r) t))"
  by (simp add: claim_units_def usage_key_def conj_assoc)

lemma claim_find:
  "first_where (\<lambda>r. usage_key r = k) (snd (claim_units i p mt limit n t)) =
   map_option (\<lambda>r. if usage_key r = (i, p) \<and> u_count mt r + n \<le> limit
                   then set_count mt (u_count mt r + n) r else r)
     (first_where (\<lambda>r. usage_key r = k) t)"
  unfolding claim_units_key Let_def snd_conv by (rule find_upd_where) simp

lemma claim_hit:
  "claim_ready i p t \<Longrightarrow> fst (claim_units i p mt limit n t) \<longleftrightarrow> claim_level i p mt t + n \<le> limit"
proof -
  assume r: "claim_ready i p t"
  then obtain r where f: "first_where (\<lambda>r. usage_key r = (i, p)) t = Some r"
    by (auto simp: claim_ready_def)
  have "unique_key usage_key t" using r by (simp add: claim_ready_def)
  from ex_unique_key [OF this f] show ?thesis
    using f by (simp add: claim_units_key Let_def count_where_pos claim_level_def)
qed

interpretation quota: counter "claim_units i p mt" "claim_level i p mt" "claim_ready i p" "{0<..}" for i p mt
proof (unfold_locales, goal_cases)
  case (1 n)
  then show ?case by simp
next
  case (2 s n limit)
  have "unique_key usage_key (snd (claim_units i p mt limit n s))"
    using 2 by (simp add: claim_ready_def claim_units_key Let_def unique_key_upd)
  with 2 show ?case by (simp add: claim_ready_def claim_find)
next
  case (3 s n limit)
  then show ?case by (simp add: claim_hit)
next
  case (4 s n limit)
  then obtain r where "first_where (\<lambda>r. usage_key r = (i, p)) s = Some r"
    by (auto simp: claim_ready_def)
  moreover from this have "usage_key r = (i, p)" by (auto dest: find_SomeD)
  ultimately show ?case by (simp add: claim_level_def claim_find)
qed

subsection \<open>What the operations do to the current row\<close>

lemma claim_ready_usage:
  "usage_ok st \<Longrightarrow> find_usage i p st = Some r \<Longrightarrow> claim_ready i p (t_usage st)"
  by (simp add: claim_ready_def usage_ok_def find_usage_key)

lemma claim_level_usage:
  "find_usage i p st = Some r \<Longrightarrow> claim_level i p mt (t_usage st) = u_count mt r"
  by (simp add: claim_level_def find_usage_key)

lemma current_count_level:
  "find_usage i (period_key now) st \<noteq> None \<Longrightarrow>
   u_count mt (current_usage i now st) = claim_level i (period_key now) mt (t_usage st)"
  by (auto simp: current_usage_found claim_level_usage)

lemma claim_usage_ok:
  "usage_ok st \<Longrightarrow> usage_ok (st\<lparr>t_usage := snd (claim_units i p mt l n (t_usage st))\<rparr>)"
  by (simp add: usage_ok_def claim_units_key Let_def unique_key_upd) (auto simp: in_upd_where)

lemma find_usage_claim:
  "find_usage j q (st\<lparr>t_usage := snd (claim_units i p mt l n (t_usage st))\<rparr>) =
   map_option (\<lambda>r. if (j, q) = (i, p) \<and> u_count mt r + n \<le> l
                   then set_count mt (u_count mt r + n) r else r) (find_usage j q st)"
  unfolding find_usage_key using claim_find [of "(j, q)" i p mt l n "t_usage st"]
  by (cases "first_where (\<lambda>r. usage_key r = (j, q)) (t_usage st)") (auto dest: find_SomeD)

lemma require_org_id_Some [simp]: "o_id org = Some i \<Longrightarrow> require_org_id org = Inr i"
  by (simp add: require_org_id_def)

text \<open>Claiming with enforcement on: the branches of the handler, in terms of the claim.\<close>

lemma consume_enforced_unfold:
  assumes "c_billing_enforced c" and "0 < n" and "o_id org = Some i" and "usage_ok st" and "0 \<le> now"
    and "others 0 = alone 0"
  shows "consume c others now org mt n st =
    (let st2 = others 1 (opened i now st);
         limit = allowance org mt (current_usage i now (opened i now st));
         r = claim_units i (period_key now) mt limit n (t_usage st2)
     in if fst r then (Inr (), st2\<lparr>t_usage := snd r\<rparr>)
        else (Inl (quota_error org (Monthly mt) (Some limit)), st2))"
proof -
  have "settled_usage others i (period_key now) st =
      (Inr (current_usage i now (opened i now st)), opened i now st)"
    using settled_usage_alone [OF assms(4,5), of i] unfolding settled_usage_def assms(6) .
  then show ?thesis
    using assms by (simp add: consume_def Let_def split: prod.split bool.split)
qed

lemma allowance_same: "same_usage r r' \<Longrightarrow> allowance org mt r = allowance org mt r'"
  by (simp add: allowance_def same_usage_counts(3))

lemma opened_found:
  "usage_ok st \<Longrightarrow> 0 \<le> now \<Longrightarrow> find_usage i (period_key now) (opened i now st) \<noteq> None"
  using opened_row [of st now i] by auto

lemma find_usage_opened_other:
  "0 \<le> now \<Longrightarrow> (j, q) \<noteq> (i, period_key now) \<Longrightarrow> find_usage j q (opened i now st) = find_usage j q st"
  by (auto simp: opened_def find_usage_def find_append current_usage_fresh usage_row_def
      split: option.splits)

subsection \<open>Properties\<close>

lemma consume_outcome:
  fixes mt :: monthly
  assumes "c_billing_enforced c" and "0 < n" and "o_id org = Some i" and "usage_ok st" and "0 \<le> now"
  defines "r \<equiv> consume c alone now org mt n st"
    and "used \<equiv> \<lambda>s. u_count mt (current_usage i now s)"
    and "limit \<equiv> allowance org mt (current_usage i now st)"
  shows "fst r = (if used st + n \<le> limit then Inr () else Inl (quota_error org (Monthly mt) (Some limit))) \<and>
         used (snd r) = (if used st + n \<le> limit then used st + n else used st) \<and>
         usage_ok (snd r) \<and>
         (\<forall>j q. (j, q) = (i, period_key now) \<or> find_usage j q (snd r) = find_usage j q st)"
proof -
  let ?o = "opened i now st" and ?p = "period_key now"
  let ?cl = "claim_units i ?p mt limit n (t_usage ?o)"
  have same: "same_usage (current_usage i now ?o) (current_usage i now st)"
    using current_usage_opened [OF assms(4,5)] by blast
  have ok: "usage_ok ?o" by (rule opened_usage_ok [OF assms(4,5)])
  obtain row where row: "find_usage i ?p ?o = Some row" using opened_found [OF assms(4,5), of i] by auto
  have lev: "claim_level i ?p mt (t_usage ?o) = used st"
    using claim_level_usage [OF row] current_usage_found [OF row] same_usage_counts(1) [OF same]
    by (simp add: used_def)
  have hit: "fst ?cl \<longleftrightarrow> used st + n \<le> limit"
    using quota.grants [OF claim_ready_usage [OF ok row], of n mt limit] assms(2) lev by simp
  have r: "r = (if fst ?cl then (Inr (), ?o\<lparr>t_usage := snd ?cl\<rparr>)
                else (Inl (quota_error org (Monthly mt) (Some limit)), ?o))"
    using allowance_same [OF same, of org mt] assms
    by (simp add: r_def limit_def consume_enforced_unfold Let_def alone_simp)
  have after: "used (?o\<lparr>t_usage := snd ?cl\<rparr>) = used st + n" if "fst ?cl"
    using that hit lev claim_level_usage [OF row, of mt] row current_usage_found [of i now "?o\<lparr>t_usage := snd ?cl\<rparr>"]
    by (simp add: used_def find_usage_claim)
  have keep: "used ?o = used st" using same_usage_counts(1) [OF same] by (simp add: used_def)
  have frame: "find_usage j q (snd r) = find_usage j q st" if "(j, q) \<noteq> (i, ?p)" for j q
  proof -
    have "find_usage j q ?o = find_usage j q st" using find_usage_opened_other [OF assms(5) that] .
    with that show ?thesis
      by (cases "find_usage j q st") (auto simp: r find_usage_claim)
  qed
  have main: "fst r = (if used st + n \<le> limit then Inr () else Inl (quota_error org (Monthly mt) (Some limit)))"
    "used (snd r) = (if used st + n \<le> limit then used st + n else used st)" "usage_ok (snd r)"
    using r hit after keep ok claim_usage_ok [OF ok, of i ?p mt limit n] by (cases "fst ?cl"; simp)+
  have "\<forall>j q. (j, q) = (i, ?p) \<or> find_usage j q (snd r) = find_usage j q st"
    using frame by blast
  with main show ?thesis by blast
qed

text \<open>
  With enforcement on, a claim of \<open>n\<close> units succeeds exactly when what was used plus
  \<open>n\<close> fits this month's allowance (the plan less the debt carried over), and then exactly
  \<open>n\<close> units are counted; otherwise it raises the 402 naming that allowance and no counter
  moves. No other organisation's or month's row changes in either case.
\<close>

theorem consume_enforced:
  fixes mt :: monthly
  assumes "c_billing_enforced c" and "0 < n" and "o_id org = Some i" and "usage_ok st" and "0 \<le> now"
  defines "r \<equiv> consume c alone now org mt n st"
    and "used \<equiv> \<lambda>s. u_count mt (current_usage i now s)"
    and "limit \<equiv> allowance org mt (current_usage i now st)"
  shows "fst r = (if used st + n \<le> limit then Inr () else Inl (quota_error org (Monthly mt) (Some limit))) \<and>
         used (snd r) = (if used st + n \<le> limit then used st + n else used st) \<and>
         usage_ok (snd r) \<and>
         (\<forall>j q. (j, q) = (i, period_key now) \<or> find_usage j q (snd r) = find_usage j q st)"
  unfolding r_def used_def limit_def using assms(1-5) by (rule consume_outcome)

definition example_org :: organization where
  "example_org = \<lparr>o_id = Some 1, o_name = ''Acme'', o_logo_sha = None, o_plan = ''free'',
     o_plan_status = ''active'', o_stripe_customer_id = None, o_stripe_subscription_id = None,
     o_current_period_end = None, o_retention_days = None, o_results_webhook_url = None,
     o_results_webhook_secret = None\<rparr>"

lemma usage_ok_empty: "usage_ok empty_store"
  by (simp add: usage_ok_def empty_store_def)

lemma current_usage_empty: "0 \<le> now \<Longrightarrow> current_usage i now empty_store = usage_row None i (period_key now) (0, 0)"
  by (simp add: current_usage_fresh find_usage_def empty_store_def)

lemma free_limits [simp]:
  "p_sittings (plan_for example_org) = 10"
  "p_drafts (plan_for example_org) = 5"
  by (simp_all add: plan_for_def example_org_def ENTITLED_STATUSES_def PLANS_def)

lemma consume_enforced_witness:
  "fst (consume default_settings alone 0 example_org Sittings 10 empty_store) = Inr ()"
proof -
  have "c_billing_enforced default_settings" by (simp add: default_settings_def)
  moreover have "o_id example_org = Some 1" by (simp add: example_org_def)
  ultimately show ?thesis
    using consume_enforced [of default_settings 10 example_org 1 empty_store 0 Sittings]
    by (simp add: usage_ok_empty current_usage_empty allowance_def usage_row_def)
qed

text \<open>
  C35. Whatever sibling workers commit between this worker's read of the month's row and its
  conditional UPDATE, a claim that succeeds leaves the counter within the allowance and a claim
  that is refused changes nothing: the limit is not overrun by a race.
\<close>

theorem consume_race_within_allowance:
  fixes mt :: monthly
  assumes "c_billing_enforced c" and "0 < n" and "o_id org = Some i" and "usage_ok st" and "0 \<le> now"
    and "others 0 = alone 0" and "usage_ok (others 1 (opened i now st))"
    and "find_usage i (period_key now) (others 1 (opened i now st)) = Some raced"
    and "u_carried mt raced = u_carried mt (current_usage i now st)"
  defines "r \<equiv> consume c others now org mt n st"
  shows "(fst r = Inr () \<longrightarrow> u_count mt (current_usage i now (snd r)) = u_count mt raced + n \<and>
             u_count mt (current_usage i now (snd r)) \<le> allowance org mt raced) \<and>
         (fst r \<noteq> Inr () \<longrightarrow> snd r = others 1 (opened i now st) \<and> allowance org mt raced < u_count mt raced + n)"
proof -
  let ?s = "others 1 (opened i now st)" and ?p = "period_key now"
  let ?limit = "allowance org mt raced"
  let ?cl = "claim_units i ?p mt ?limit n (t_usage ?s)"
  have "allowance org mt (current_usage i now (opened i now st)) = ?limit"
    using current_usage_opened [OF assms(4,5), of i] allowance_same assms(9) by (metis allowance_def)
  then have r: "r = (if fst ?cl then (Inr (), ?s\<lparr>t_usage := snd ?cl\<rparr>)
                else (Inl (quota_error org (Monthly mt) (Some ?limit)), ?s))"
    using assms(1-6) by (simp add: r_def consume_enforced_unfold Let_def)
  have hit: "fst ?cl \<longleftrightarrow> u_count mt raced + n \<le> ?limit"
    using quota.grants [OF claim_ready_usage [OF assms(7,8)], of n mt ?limit] assms(2)
      claim_level_usage [OF assms(8), of mt] by simp
  have "current_usage i now (?s\<lparr>t_usage := snd ?cl\<rparr>) = set_count mt (u_count mt raced + n) raced"
    if "fst ?cl" using that hit assms(8) by (intro current_usage_found) (simp add: find_usage_claim)
  then show ?thesis using r hit by auto
qed

definition sibling_seven :: interference where
  "sibling_seven k st = (if k = 1 then st\<lparr>t_usage := map (set_count Sittings 7) (t_usage st)\<rparr> else st)"

lemma consume_race_within_allowance_witness:
  "fst (consume default_settings sibling_seven 0 example_org Sittings 3 empty_store) = Inr () \<and>
   u_count Sittings (current_usage 1 0 (snd (consume default_settings sibling_seven 0 example_org
     Sittings 3 empty_store))) = 10"
proof -
  let ?row = "usage_row (Some 1) 1 (period_key 0) (0, 0)"
  let ?s = "sibling_seven 1 (opened 1 0 empty_store)"
  have o: "opened 1 0 empty_store = empty_store\<lparr>t_usage := [?row]\<rparr>"
    by (simp add: opened_def current_usage_empty)
       (simp add: find_usage_def empty_store_def usage_row_def fresh_id_def)
  have s: "?s = empty_store\<lparr>t_usage := [set_count Sittings 7 ?row]\<rparr>"
    by (simp add: sibling_seven_def o)
  have h1: "c_billing_enforced default_settings" by (simp add: default_settings_def)
  have h2: "o_id example_org = Some 1" by (simp add: example_org_def)
  have h3: "sibling_seven 0 = alone 0" by (rule ext) (simp add: sibling_seven_def alone_simp)
  have h4: "usage_ok ?s" unfolding s by (simp add: usage_ok_def usage_row_def unique_key_def)
  have h5: "find_usage 1 (period_key 0) ?s = Some (set_count Sittings 7 ?row)"
    unfolding s by (simp add: find_usage_def usage_row_def)
  have h6: "u_carried Sittings (set_count Sittings 7 ?row) = u_carried Sittings (current_usage 1 0 empty_store)"
    by (simp add: current_usage_empty usage_row_def)
  show ?thesis
    using consume_race_within_allowance [OF h1 _ h2 usage_ok_empty _ h3 h4 h5 h6, of 3]
    by (simp add: allowance_def usage_row_def)
qed

subsection \<open>Metering without enforcing, and settling the overrun\<close>

lemma bump_metric [simp]:
  "u_count mt (bump (metric_delta mt n over) r) = u_count mt r + n"
  "u_over mt (bump (metric_delta mt n over) r) = u_over mt r + over"
  "u_carried mt' (bump d r) = u_carried mt' r"
  "usage_key (bump d r) = usage_key r"
  "u_id (bump d r) = u_id r"
  by (cases mt; simp add: bump_def no_delta_def usage_key_def; cases mt'; simp add: bump_def)+

lemma metric_delta_nonzero: "0 < n \<Longrightarrow> metric_delta mt n over \<noteq> no_delta"
  by (cases mt) (auto simp: no_delta_def usage_delta.defs)

lemma bump_usage_key:
  "bump_usage i p d st =
    (let here = (\<lambda>r. usage_key r = (i, p)) in
     (0 < count_where here (t_usage st), st\<lparr>t_usage := upd_where here (bump d) (t_usage st)\<rparr>))"
  by (simp add: bump_usage_def usage_key_def)

lemma find_usage_bump:
  "find_usage j q (snd (bump_usage i p d st)) =
   map_option (\<lambda>r. if (j, q) = (i, p) then bump d r else r) (find_usage j q st)"
proof -
  have "find_usage j q (snd (bump_usage i p d st)) =
      map_option (\<lambda>r. if usage_key r = (i, p) then bump d r else r) (find_usage j q st)"
    by (simp add: find_usage_key bump_usage_key Let_def find_upd_where)
  then show ?thesis
    by (cases "find_usage j q st") (auto simp: find_usage_key dest: find_SomeD)
qed

lemma bump_usage_ok: "usage_ok st \<Longrightarrow> usage_ok (snd (bump_usage i p d st))"
  by (simp add: usage_ok_def bump_usage_key Let_def unique_key_upd) (auto simp: in_upd_where)

lemma bump_usage_hit: "find_usage i p st \<noteq> None \<Longrightarrow> bump_usage i p d st = (True, snd (bump_usage i p d st))"
  by (auto simp: bump_usage_key find_usage_key Let_def count_where_pos find_None_iff')

lemma record_usage_alone:
  assumes "usage_ok st" and "0 \<le> now" and "d \<noteq> no_delta"
  shows "record_usage alone now i d st = (Inr (), snd (bump_usage i (period_key now) d (opened i now st)))"
proof (cases "find_usage i (period_key now) st")
  case None
  then have "\<not> fst (bump_usage i (period_key now) d st)"
    by (simp add: bump_usage_key find_usage_key Let_def count_where_pos find_None_iff')
  then obtain s where e: "bump_usage i (period_key now) d st = (False, s)"
    by (cases "bump_usage i (period_key now) d st") simp
  have ens: "ensure_row (alone 0) i (period_key now) st = (Inr (), opened i now st)"
    by (rule ensure_row_alone [OF assms(2) None])
  show ?thesis
    unfolding record_usage_def Let_def e ens using assms(3) by simp
next
  case (Some r)
  obtain s where e: "bump_usage i (period_key now) d st = (True, s)"
    using bump_usage_hit [of i "period_key now" st d] Some by (metis option.discI)
  have "opened i now st = st" using Some by (simp add: opened_def)
  then show ?thesis
    unfolding record_usage_def Let_def e using assms(3) e by simp
qed

lemma consume_unenforced:
  fixes mt :: monthly
  assumes "\<not> c_billing_enforced c" and "0 < n" and "o_id org = Some i" and "usage_ok st" and "0 \<le> now"
  defines "cur \<equiv> current_usage i now st" and "r \<equiv> consume c alone now org mt n st"
  shows "fst r = Inr () \<and> usage_ok (snd r) \<and> find_usage i (period_key now) (snd r) \<noteq> None \<and>
    u_count mt (current_usage i now (snd r)) = u_count mt cur + n \<and>
    u_over mt (current_usage i now (snd r)) =
      u_over mt cur + min n (max 0 (u_count mt cur + n - allowance org mt cur)) \<and>
    u_carried mt (current_usage i now (snd r)) = u_carried mt cur \<and>
    (\<forall>q. q \<noteq> period_key now \<longrightarrow> find_usage i q (snd r) = find_usage i q st)"
proof -
  let ?o = "opened i now st" and ?p = "period_key now"
  let ?row = "current_usage i now ?o"
  let ?d = "metric_delta mt n (min n (max 0 (u_count mt ?row + n - allowance org mt ?row)))"
  have same: "same_usage ?row cur" and row: "find_usage i ?p ?o = Some ?row"
    using current_usage_opened [OF assms(4,5)] by (auto simp: cur_def)
  have ok: "usage_ok ?o" by (rule opened_usage_ok [OF assms(4,5)])
  have "opened i now ?o = ?o" using row by (simp add: opened_def)
  then have r: "r = (Inr (), snd (bump_usage i ?p ?d ?o))"
    using record_usage_alone [OF ok assms(5) metric_delta_nonzero [OF assms(2)], of i]
      settled_usage_alone [OF assms(4,5), of i] assms(1-3)
    by (simp add: r_def consume_def Let_def)
  have cur': "current_usage i now (snd r) = bump ?d ?row"
    using row by (intro current_usage_found) (simp add: r find_usage_bump)
  have "find_usage i q (snd r) = find_usage i q st" if "q \<noteq> ?p" for q
    using that find_usage_opened_other [OF assms(5), of i q i st]
    by (cases "find_usage i q st") (simp_all add: r find_usage_bump)
  moreover have "find_usage i ?p (snd r) \<noteq> None" using row by (simp add: r find_usage_bump)
  moreover have "fst r = Inr ()" "usage_ok (snd r)" using bump_usage_ok [OF ok] by (simp_all add: r)
  ultimately show ?thesis
    using same_usage_counts [OF same] allowance_same [OF same] by (simp add: cur')
qed

primrec consume_all :: "settings \<Rightarrow> instant \<Rightarrow> organization \<Rightarrow> monthly \<Rightarrow> int list \<Rightarrow> store \<Rightarrow> bool \<times> store" where
  "consume_all c now org mt [] st = (True, st)"
| "consume_all c now org mt (n # ns) st =
     (let r = consume c alone now org mt n st; rest = consume_all c now org mt ns (snd r)
      in (is_ok r \<and> fst rest, snd rest))"

lemma overrun_step:
  "\<lbrakk>over = max 0 (u - l); 0 < n; 0 \<le> (l::int)\<rbrakk> \<Longrightarrow> over + min n (max 0 (u + n - l)) = max 0 (u + n - l)"
  by linarith

lemma allowance_nonneg: "0 \<le> allowance org mt r"
  by (simp add: allowance_def)

lemma consume_all_unenforced:
  assumes "\<not> c_billing_enforced c" and "o_id org = Some i" and "0 \<le> now"
  shows "\<lbrakk>usage_ok st; \<forall>n\<in>set ns. 0 < n;
      u_over mt (current_usage i now st) =
        max 0 (u_count mt (current_usage i now st) - allowance org mt (current_usage i now st))\<rbrakk> \<Longrightarrow>
    let r = consume_all c now org mt ns st; cur = current_usage i now st; cur' = current_usage i now (snd r) in
      fst r \<and> usage_ok (snd r) \<and> u_count mt cur' = u_count mt cur + sum_list ns \<and>
      u_carried mt cur' = u_carried mt cur \<and>
      u_over mt cur' = max 0 (u_count mt cur + sum_list ns - allowance org mt cur) \<and>
      (\<forall>q. q \<noteq> period_key now \<longrightarrow> find_usage i q (snd r) = find_usage i q st) \<and>
      (ns \<noteq> [] \<longrightarrow> find_usage i (period_key now) (snd r) \<noteq> None)"
proof (induction ns arbitrary: st)
  case Nil
  then show ?case by simp
next
  case (Cons n ns)
  have n: "0 < n" using Cons.prems by simp
  note step = consume_unenforced [OF assms(1) n assms(2) Cons.prems(1) assms(3), of mt]
  let ?st = "snd (consume c alone now org mt n st)"
  have al: "allowance org mt (current_usage i now ?st) = allowance org mt (current_usage i now st)"
    using step by (simp add: allowance_def)
  have "u_over mt (current_usage i now ?st) =
      max 0 (u_count mt (current_usage i now ?st) - allowance org mt (current_usage i now ?st))"
    using step overrun_step [OF Cons.prems(3) n allowance_nonneg] al by simp
  then show ?case
    using Cons.IH [of ?st] Cons.prems(2) step al
    by (cases "ns = []") (auto simp: Let_def is_ok_def algebra_simps)
qed

text \<open>
  With enforcement off nothing is refused, and however a month's claims are split up the
  overrun written down is exactly what the total use exceeded the month's allowance by; the next
  month's allowance is the plan less that overrun, never below zero.
\<close>

theorem overrun_settled_next_month:
  fixes mt :: monthly
  assumes "\<not> c_billing_enforced c" and "o_id org = Some i" and "0 \<le> now" and "usage_ok st"
    and "ns \<noteq> []" and "\<forall>n\<in>set ns. 0 < n"
    and "u_over mt (current_usage i now st) =
         max 0 (u_count mt (current_usage i now st) - allowance org mt (current_usage i now st))"
    and "0 \<le> later" and "prior_period later = period_key now" and "period_key later \<noteq> period_key now"
    and "find_usage i (period_key later) st = None"
  defines "r \<equiv> consume_all c now org mt ns st"
    and "spent \<equiv> u_count mt (current_usage i now st) + sum_list ns"
  shows "fst r \<and> u_count mt (current_usage i now (snd r)) = spent \<and>
    allowance org mt (current_usage i later (snd r)) =
      max 0 (plan_limit (plan_for org) (Monthly mt) -
             max 0 (spent - allowance org mt (current_usage i now st)))"
proof -
  note run = consume_all_unenforced [OF assms(1-3) assms(4,6,7), unfolded Let_def]
  obtain row where row: "find_usage i (period_key now) (snd r) = Some row"
    using run assms(5) by (auto simp: r_def)
  have "find_usage i (period_key later) (snd r) = None"
    using run assms(10,11) by (simp add: r_def)
  then have "u_carried mt (current_usage i later (snd r)) = max 0 (u_over mt row)"
    using assms(8,9) row by (cases mt) (simp_all add: current_usage_fresh usage_row_def)
  then show ?thesis
    using run current_usage_found [OF row] by (simp add: r_def spent_def allowance_def)
qed

lemma overrun_settled_next_month_witness:
  "allowance example_org Drafts (current_usage 1 2678400000000
     (snd (consume_all (default_settings\<lparr>c_billing_enforced := False\<rparr>) 0 example_org Drafts [4, 3] empty_store))) = 3"
proof -
  have h: "\<not> c_billing_enforced (default_settings\<lparr>c_billing_enforced := False\<rparr>)"
    "o_id example_org = Some 1" by (simp_all add: example_org_def)
  have ym: "year_month (date_ordinal 0) = (1970, 1)" "year_month (date_ordinal 2678400000000) = (1970, 2)"
    by (simp_all add: year_month_def month_of_def date_ordinal_def days_before_month_def Let_def)
  have p: "period_key 0 = ''1970-01''" "period_key 2678400000000 = ''1970-02''"
    unfolding period_key_def ym prod.case by code_simp+
  have pp: "prior_period 2678400000000 = ''1970-01''"
    unfolding prior_period_def p by code_simp
  have f: "find_usage 1 q empty_store = None" for q by (simp add: find_usage_def empty_store_def)
  show ?thesis
    using overrun_settled_next_month [OF h _ usage_ok_empty, of 0 "[4, 3]" Drafts 2678400000000]
    by (simp add: pp p f current_usage_empty usage_row_def allowance_def)
qed

subsection \<open>Handing units back\<close>

lemma find_usage_write:
  assumes "usage_ok st" and "find_usage i p st = Some row"
  shows "find_usage j q (st\<lparr>t_usage := upd_where (\<lambda>r. u_id r = u_id row) (set_count mt n) (t_usage st)\<rparr>) =
    map_option (\<lambda>r. if (j, q) = (i, p) then set_count mt n r else r) (find_usage j q st)"
proof -
  have row: "row \<in> set (t_usage st)" "usage_key row = (i, p)"
    using find_usage_SomeD [OF assms(2)] by (auto simp: usage_key_def)
  have same: "u_id r = u_id row \<longleftrightarrow> usage_key r = (i, p)" if "r \<in> set (t_usage st)" for r
    using assms(1) row that unique_keyD [of u_id "t_usage st" r row]
      unique_keyD [of usage_key "t_usage st" r row] by (auto simp: usage_ok_def)
  have "first_where (\<lambda>r. usage_key r = (j, q)) (upd_where (\<lambda>r. u_id r = u_id row) (set_count mt n) (t_usage st)) =
      map_option (\<lambda>r. if u_id r = u_id row then set_count mt n r else r)
        (first_where (\<lambda>r. usage_key r = (j, q)) (t_usage st))"
    by (rule find_upd_where) simp
  then show ?thesis
    unfolding find_usage_key using same
    by (cases "first_where (\<lambda>r. usage_key r = (j, q)) (t_usage st)") (auto dest!: find_SomeD)
qed

lemma release_outcome:
  fixes mt :: monthly and n i :: int
  assumes "usage_ok st" and "0 \<le> now"
  defines "r \<equiv> release alone now i mt n st"
  shows "fst r = Inr () \<and>
    find_usage i (period_key now) (snd r) = map_option (\<lambda>row. set_count mt (max 0 (u_count mt row - n)) row)
      (find_usage i (period_key now) st) \<and>
    (\<forall>j q. (j, q) \<noteq> (i, period_key now) \<longrightarrow> find_usage j q (snd r) = find_usage j q st)"
proof (cases "find_usage i (period_key now) st")
  case None
  then have "u_id (current_usage i now st) = None" using current_usage_id [OF assms(2,1)] by simp
  then show ?thesis using None assms(2) by (simp add: r_def release_def usage_now)
next
  case (Some row)
  then have "u_id row \<noteq> None" "current_usage i now st = row"
    using assms(1) current_usage_found by (auto simp: usage_ok_def dest: find_usage_SomeD)
  then have r: "r = (Inr (), st\<lparr>t_usage := upd_where (\<lambda>r. u_id r = u_id row)
      (set_count mt (max 0 (u_count mt row - n))) (t_usage st)\<rparr>)"
    using assms(2) by (auto simp: r_def release_def usage_now Let_def alone_simp)
  show ?thesis
  proof (intro conjI allI impI)
    show "fst r = Inr ()" by (simp add: r)
    show "find_usage i (period_key now) (snd r) =
      map_option (\<lambda>row. set_count mt (max 0 (u_count mt row - n)) row) (find_usage i (period_key now) st)"
      unfolding r snd_conv find_usage_write [OF assms(1) Some] Some by simp
    show "find_usage j q (snd r) = find_usage j q st" if "(j, q) \<noteq> (i, period_key now)" for j q
      unfolding r snd_conv find_usage_write [OF assms(1) Some]
      using that by (cases "find_usage j q st") auto
  qed
qed

text \<open>
  Handing back \<open>n\<close> units subtracts them from this month's counter but never below zero, so
  a double release mints nothing; a month with nothing metered stays without a row, and no
  other row changes.
\<close>

theorem release_floored:
  fixes mt :: monthly and n i :: int
  assumes "usage_ok st" and "0 \<le> now"
  defines "r \<equiv> release alone now i mt n st"
  shows "fst r = Inr () \<and>
    find_usage i (period_key now) (snd r) = map_option (\<lambda>row. set_count mt (max 0 (u_count mt row - n)) row)
      (find_usage i (period_key now) st) \<and>
    (\<forall>j q. (j, q) \<noteq> (i, period_key now) \<longrightarrow> find_usage j q (snd r) = find_usage j q st)"
  unfolding r_def using assms(1,2) by (rule release_outcome)

lemma release_floored_witness:
  "fst (release alone 0 1 Drafts 2 (snd (consume default_settings alone 0 example_org Drafts 1 empty_store))) = Inr ()"
proof -
  have h: "c_billing_enforced default_settings" "o_id example_org = Some 1"
    by (simp_all add: default_settings_def example_org_def)
  have "usage_ok (snd (consume default_settings alone 0 example_org Drafts 1 empty_store))"
    using consume_outcome [OF h(1) _ h(2) usage_ok_empty, of 1 0 Drafts] by simp
  from release_floored [OF this, of 0 1 Drafts 2] show ?thesis by simp
qed

text \<open>
  The plan in force is always one of the published ones, never less than the free plan, and
  never more than the plan the row names: a lapsed subscription or an unknown plan name falls
  back to the free limits.
\<close>

theorem plan_for_falls_back:
  "plan_for org \<in> snd ` set PLANS \<and>
   plan_limit FREE mt \<le> plan_limit (plan_for org) mt \<and>
   plan_limit (plan_for org) mt \<le>
     plan_limit (case map_of PLANS (o_plan org) of None \<Rightarrow> FREE | Some p \<Rightarrow> p) mt"
proof -
  have free: "FREE \<in> snd ` set PLANS" by (simp add: FREE_def PLANS_def)
  have least: "plan_limit FREE mt \<le> plan_limit p mt" if "p \<in> snd ` set PLANS" for p
  proof (cases mt)
    case (Monthly m)
    then show ?thesis using that by (cases m) (auto simp: PLANS_def FREE_def)
  next
    case Seats
    then show ?thesis using that by (auto simp: PLANS_def FREE_def)
  qed
  have named: "p \<in> snd ` set PLANS" if "map_of PLANS k = Some p" for k p
    using map_of_SomeD [OF that] by force
  show ?thesis
    using free least named
    by (auto simp: plan_for_def split: option.splits)
qed

subsection \<open>Two ways the counters drift\<close>

text \<open>
  \<open>release\<close> is not the conditional UPDATE that \<open>consume\<close> is: a claim that a sibling commits
  between its read and its write is lost, so work that was allowed is no longer counted. And
  it hands back the claim only: when metering without enforcing, the overrun that the claim
  wrote down stays, and is charged to the next month for work that never happened.
\<close>

definition drift_row :: org_usage where
  "drift_row = (usage_row (Some 1) 1 (period_key 0) (0, 0))\<lparr>u_drafts := 4\<rparr>"

lemma release_loses_a_claim:
  "let st = empty_store\<lparr>t_usage := [drift_row]\<rparr>;
       sibling = (\<lambda>_ s. snd (consume default_settings alone 0 example_org Drafts 1 s))
   in u_count Drafts (current_usage 1 0 (sibling 0 st)) = 5 \<and>
      u_count Drafts (current_usage 1 0 (snd (release sibling 0 1 Drafts 1 st))) = 3"
  by (simp add: alone_simp Let_def release_def usage_def find_usage_def drift_row_def usage_row_def
      consume_def default_settings_def example_org_def settled_usage_def
      allowance_def claim_units_def current_usage_def plan_for_def ENTITLED_STATUSES_def PLANS_def)

lemma release_keeps_the_overrun:
  "let st = empty_store\<lparr>t_usage := [drift_row\<lparr>u_drafts := 5\<rparr>]\<rparr>;
       c = default_settings\<lparr>c_billing_enforced := False\<rparr>;
       claimed = snd (consume c alone 0 example_org Drafts 1 st);
       row = current_usage 1 0 (snd (release alone 0 1 Drafts 1 claimed))
   in u_count Drafts row = 5 \<and> u_over Drafts row = 1"
  by (simp add: alone_simp Let_def release_def usage_def find_usage_def drift_row_def usage_row_def
      consume_def default_settings_def example_org_def settled_usage_def record_usage_def
      bump_usage_def bump_def no_delta_def allowance_def current_usage_def plan_for_def
      ENTITLED_STATUSES_def PLANS_def)

subsection \<open>What metering leaves alone\<close>

text \<open>
  Metering writes the usage table only, so it keeps every fact that does not look at that table and
  that the sibling workers keep.
\<close>

definition usage_free :: "(store \<Rightarrow> bool) \<Rightarrow> bool" where
  "usage_free P = (\<forall>s u. P s \<longrightarrow> P (s\<lparr>t_usage := u\<rparr>))"

lemma usage_freeD: "usage_free P \<Longrightarrow> P s \<Longrightarrow> P (s\<lparr>t_usage := u\<rparr>)"
  by (auto simp: usage_free_def)

lemma ensure_row_keeps:
  assumes "usage_free P" and "P st" and "P (f st)"
  shows "P (snd (ensure_row f i p st))"
proof -
  note w = usage_freeD [OF assms(1)]
  show ?thesis
    using assms(2,3) w by (cases "carried_from_previous i p st") (simp_all add: ensure_row_def Let_def)
qed

lemma bump_usage_keeps: "usage_free P \<Longrightarrow> P st \<Longrightarrow> P (snd (bump_usage i p d st))"
  unfolding bump_usage_def Let_def snd_conv by (rule usage_freeD)

lemma record_usage_keeps:
  assumes "usage_free P" and "P st" and "\<And>k s. P s \<Longrightarrow> P (others k s)"
  shows "P (snd (record_usage others now i d st))"
proof (cases "bump_usage i (period_key now) d st")
  case (Pair hit st1)
  then have "P st1" using bump_usage_keeps [OF assms(1,2), of i "period_key now" d] by simp
  moreover have "P (others 0 st)" by (rule assms(3) [OF assms(2)])
  then have "P (snd (ensure_row (others 0) i (period_key now) st))"
    by (rule ensure_row_keeps [OF assms(1,2)])
  then have "P (snd (bindr (ensure_row (others 0) i (period_key now) st)
      (\<lambda>_ st1. (Inr (), snd (bump_usage i (period_key now) d st1)))))"
    by (rule bindr_keeps) (simp add: bump_usage_keeps [OF assms(1)])
  ultimately show ?thesis using Pair assms(2) by (cases hit) (simp_all add: record_usage_def Let_def)
qed

lemma settled_usage_keeps:
  assumes "usage_free P" and "P st" and "\<And>k s. P s \<Longrightarrow> P (others k s)"
  shows "P (snd (settled_usage others i p st))"
proof -
  have "P (others 0 st)" by (rule assms(3) [OF assms(2)])
  then have "P (snd (ensure_row (others 0) i p st))" by (rule ensure_row_keeps [OF assms(1,2)])
  then have ensured: "P (snd (bindr (ensure_row (others 0) i p st)
      (\<lambda>_ st1. guardr (usage i p st1) st1 (\<lambda>row1. (Inr row1, st1)))))"
    by (rule bindr_keeps) (rule guardr_keeps, simp_all)
  show ?thesis
    unfolding settled_usage_def by (rule guardr_keeps) (use assms(2) ensured in simp_all)
qed

lemma claim_case_keeps:
  assumes "usage_free P" and "P s"
  shows "P (snd (case claim_units i p mt l n (t_usage s) of
      (False, _) \<Rightarrow> (Inl e, s) | (True, t) \<Rightarrow> (Inr (), s\<lparr>t_usage := t\<rparr>)))"
proof (cases "claim_units i p mt l n (t_usage s)")
  case (Pair hit t)
  then show ?thesis using assms(2) usage_freeD [OF assms] by (cases hit) simp_all
qed

lemma consume_keeps:
  assumes "usage_free P" and "P st" and "\<And>k s. P s \<Longrightarrow> P (others k s)"
  shows "P (snd (consume c others now org mt n st))"
proof (cases "n \<le> 0")
  case True
  then show ?thesis using assms(2) by (simp add: consume_def)
next
  case False
  show ?thesis
    unfolding consume_def Let_def if_not_P [OF False]
  proof (rule guardr_keeps [of P])
    fix i
    show "P (snd (bindr (settled_usage others i (period_key now) st) (\<lambda>row st1.
         if \<not> c_billing_enforced c
         then record_usage others now i (metric_delta mt n (min n (max 0 (u_count mt row + n - allowance org mt row)))) st1
         else case claim_units i (period_key now) mt (allowance org mt row) n (t_usage (others 1 st1)) of
                 (True, t) \<Rightarrow> (Inr (), (others 1 st1)\<lparr>t_usage := t\<rparr>)
               | (False, _) \<Rightarrow> (Inl (quota_error org (Monthly mt) (Some (allowance org mt row))), others 1 st1))))"
    proof (rule bindr_keeps [of P], rule settled_usage_keeps [OF assms])
      fix row s assume "P s"
      from record_usage_keeps [OF assms(1) this assms(3)] claim_case_keeps [OF assms(1) assms(3) [OF this]]
      show "P (snd (if \<not> c_billing_enforced c
         then record_usage others now i (metric_delta mt n (min n (max 0 (u_count mt row + n - allowance org mt row)))) s
         else case claim_units i (period_key now) mt (allowance org mt row) n (t_usage (others 1 s)) of
                 (True, t) \<Rightarrow> (Inr (), (others 1 s)\<lparr>t_usage := t\<rparr>)
               | (False, _) \<Rightarrow> (Inl (quota_error org (Monthly mt) (Some (allowance org mt row))), others 1 s)))"
        by (cases "c_billing_enforced c") (simp_all only: if_True if_False not_True_eq_False not_False_eq_True)
    qed
  qed (rule assms(2))
qed

lemma release_keeps:
  assumes "usage_free P" and "P st" and "\<And>k s. P s \<Longrightarrow> P (others k s)"
  shows "P (snd (release others now i mt n st))"
proof -
  have "P (others 0 st)" by (rule assms(3) [OF assms(2)])
  note written = usage_freeD [OF assms(1) this]
  show ?thesis
  proof (cases "usage i (period_key now) st")
    case (Inr row)
    then show ?thesis using assms(2) written by (cases "u_id row = None") (simp_all add: release_def Let_def)
  qed (simp add: release_def assms(2))
qed

end
