(* ===== verification/Access.thy ===== *)
theory Access
  imports PyTime Settings
begin

section \<open>Access: loading rows inside the caller's organisation\<close>

text \<open>
  The guards of \<open>api.py\<close> that load a row for an interviewer and refuse one of another
  organisation, and the small checks the candidate routes share. A membership is the caller.
\<close>

definition normalize_email :: "string \<Rightarrow> string" where
  "normalize_email email = py_lower (py_strip email)"

definition is_expired :: "instant \<Rightarrow> instant option \<Rightarrow> bool" where
  "is_expired now expires_at = (case expires_at of None \<Rightarrow> False | Some e \<Rightarrow> now > e)"

definition organization_row :: "int \<Rightarrow> store \<Rightarrow> exn + organization" where
  "organization_row i st = (case get_org i st of
     None \<Rightarrow> Inl (HTTPException 500 ''organisation row is missing.'') | Some g \<Rightarrow> Inr g)"

definition owned_question :: "string \<Rightarrow> membership \<Rightarrow> store \<Rightarrow> exn + question" where
  "owned_question i org st = (case get_question i st of
     None \<Rightarrow> Inl (HTTPException 404 (''no question with id '' @ py_repr i @ ''.''))
   | Some q \<Rightarrow> if q_org_id q \<noteq> m_org_id org
               then Inl (HTTPException 403 ''not your organisation's question.'') else Inr q)"

definition owned_submission :: "string \<Rightarrow> membership \<Rightarrow> store \<Rightarrow> exn + submission" where
  "owned_submission i org st = (case get_submission i st of
     None \<Rightarrow> Inl (HTTPException 404 (''no submission with id '' @ py_repr i @ ''.''))
   | Some s \<Rightarrow> sbind (owned_question (s_question_id s) org st) (\<lambda>_. Inr s))"

definition owned_assessment :: "string \<Rightarrow> membership \<Rightarrow> store \<Rightarrow> exn + assessment" where
  "owned_assessment i org st = (case get_assessment i st of
     None \<Rightarrow> Inl (HTTPException 404 (''no assessment with id '' @ py_repr i @ ''.''))
   | Some a \<Rightarrow> if a_org_id a \<noteq> m_org_id org
               then Inl (HTTPException 403 ''not your organisation's assessment.'') else Inr a)"

definition secret_matches :: "string option \<Rightarrow> string \<Rightarrow> bool" where
  "secret_matches provided expected = (case provided of None \<Rightarrow> False | Some p \<Rightarrow> p = expected)"

lemma owned_question_InrD:
  "owned_question i org st = Inr q \<Longrightarrow> get_question i st = Some q \<and> q_org_id q = m_org_id org"
  by (auto simp: owned_question_def split: option.splits if_splits)

lemma owned_submission_InrD:
  "owned_submission i org st = Inr s \<Longrightarrow> get_submission i st = Some s \<and>
     (\<exists>q. get_question (s_question_id s) st = Some q \<and> q_org_id q = m_org_id org)"
  by (auto simp: owned_submission_def split: option.splits elim!: sbind_InrE dest!: owned_question_InrD)

lemma normalize_email_idem [simp]: "normalize_email (normalize_email e) = normalize_email e"
  by (simp add: normalize_email_def py_strip_lower)

end
