(* ===== verification/Contact.thy ===== *)
theory Contact
  imports Access
begin

section \<open>Contact: the support address and its routing tag\<close>

text \<open>
  \<open>support.py\<close>: the tag of an organisation, the address a candidate is told to write to and
  the one resolution of an invite to its organisation.
\<close>

definition slug_char :: "char \<Rightarrow> bool" where
  "slug_char c = (let n = code c in (97 \<le> n \<and> n \<le> 122) \<or> (48 \<le> n \<and> n \<le> 57))"

text \<open>\<open>re.sub("[^a-z0-9]+", "-", s)\<close>; the flag says that the current run was replaced already.\<close>

fun not_slug_sub :: "bool \<Rightarrow> string \<Rightarrow> string" where
  "not_slug_sub in_run [] = []"
| "not_slug_sub in_run (c # s) =
     (if slug_char c then c # not_slug_sub False s
      else if in_run then not_slug_sub True s
      else CHR ''-'' # not_slug_sub True s)"

definition MAX_SLUG :: nat where
  "MAX_SLUG = 32"

definition strip_dashes :: "string \<Rightarrow> string" where
  "strip_dashes s = py_strip_on (\<lambda>c. c = CHR ''-'') s"

definition name_slug :: "string \<Rightarrow> string" where
  "name_slug name = strip_dashes (take MAX_SLUG (strip_dashes (not_slug_sub False (py_lower name))))"

definition org_slug :: "organization \<Rightarrow> string option" where
  "org_slug org = (case o_id org of
     None \<Rightarrow> None
   | Some i \<Rightarrow> (let slug = name_slug (o_name org) in
       Some (if slug \<noteq> [] then slug @ ''-'' @ show_int i else ''org'' @ show_int i)))"

definition contact_email :: "settings \<Rightarrow> organization option \<Rightarrow> string option" where
  "contact_email c org =
    (let base = c_support_email c in
     if base = [] then None
     else if \<not> c_support_email_org_tag c \<or> org = None then Some base
     else (case py_partition (CHR ''@'') base of (local, sep, domain) \<Rightarrow>
       if \<not> sep \<or> local = [] \<or> CHR ''+'' \<in> set local then Some base
       else (case (case org of None \<Rightarrow> None | Some g \<Rightarrow> org_slug g) of
               None \<Rightarrow> Some base
             | Some slug \<Rightarrow> Some (local @ ''+'' @ slug @ ''@'' @ domain))))"

definition generic_contact_email :: "settings \<Rightarrow> string option" where
  "generic_contact_email c = contact_email c None"

definition invite_org :: "invite \<Rightarrow> store \<Rightarrow> organization option" where
  "invite_org invite st =
    (let by_assessment = (case inv_assessment_id invite of None \<Rightarrow> None
           | Some a \<Rightarrow> map_option a_org_id (get_assessment a st));
         org_id = (case by_assessment of
             Some i \<Rightarrow> Some i
           | None \<Rightarrow> (case inv_question_id invite of None \<Rightarrow> None
               | Some q \<Rightarrow> map_option q_org_id (get_question q st)))
     in case org_id of None \<Rightarrow> None | Some i \<Rightarrow> get_org i st)"

definition invite_contact_email :: "settings \<Rightarrow> invite \<Rightarrow> store \<Rightarrow> string option" where
  "invite_contact_email c invite st =
    (if c_support_email c = [] then None else contact_email c (invite_org invite st))"

subsection \<open>The shape of a tag\<close>

lemma not_slug_sub_chars: "c \<in> set (not_slug_sub b s) \<Longrightarrow> slug_char c \<or> c = CHR ''-''"
  by (induction b s rule: not_slug_sub.induct) (auto split: if_splits)

lemma strip_dashes_subset: "set (strip_dashes s) \<subseteq> set s"
  unfolding strip_dashes_def py_strip_on_def by (auto dest!: set_dropWhileD)

lemma name_slug_chars: "c \<in> set (name_slug n) \<Longrightarrow> slug_char c \<or> c = CHR ''-''"
  unfolding name_slug_def
  by (meson in_set_takeD not_slug_sub_chars strip_dashes_subset subsetD)

lemma digit_slug_char: "is_digit c \<Longrightarrow> slug_char c"
  by (simp add: is_digit_def slug_char_def Let_def)

lemma dash_not_digit: "\<not> is_digit (CHR ''-'')"
  by (simp add: is_digit_def code_def)

lemma show_nat_no_dash: "CHR ''-'' \<notin> set (show_nat n)"
  using show_nat_digits dash_not_digit by blast

lemma show_nat_inj: "show_nat a = show_nat b \<Longrightarrow> a = b"
  using show_int_inj [of "int a" "int b"] by (simp add: show_int_def)

lemma after_last_dash:
  assumes "u @ CHR ''-'' # show_nat a = v @ CHR ''-'' # show_nat b"
  shows "a = b"
proof -
  have tw: "takeWhile (\<lambda>c. c \<noteq> CHR ''-'') (rev (u @ CHR ''-'' # show_nat a)) = rev (show_nat a)" for u a
    using show_nat_no_dash [of a] by (simp add: takeWhile_append2 takeWhile_append)
  show ?thesis using tw [of u a] tw [of v b] assms show_nat_inj by (metis rev_is_rev_conv)
qed

text \<open>
  The tag of an organisation is its own: two organisations with different ids never have the
  same tag, whatever their admins name them, and a tag holds only characters allowed in the local
  part of an address.
\<close>

theorem org_slug_is_theirs:
  assumes "o_id g = Some i" and "o_id h = Some j" and "0 \<le> i" and "0 \<le> j"
  shows "(org_slug g = org_slug h \<longrightarrow> i = j) \<and>
    (\<exists>s. org_slug g = Some s \<and> list_all (\<lambda>c. slug_char c \<or> c = CHR ''-'') s)"
proof -
  have dash: "CHR ''-'' \<in> set (u @ ''-'' @ show_int k)" for u k by simp
  have nodash: "CHR ''-'' \<notin> set (''org'' @ show_int k)" if "0 \<le> k" for k
    using that show_nat_no_dash by (simp add: show_int_def)
  have orgs: "i = j" if "''org'' @ show_int i = ''org'' @ show_int j"
    using that show_int_inj by simp
  have slugs: "i = j" if "u @ ''-'' @ show_int i = v @ ''-'' @ show_int j" for u v
    using that after_last_dash [of u "nat i" v "nat j"] assms(3,4) by (simp add: show_int_def)
  have inj: "org_slug g = org_slug h \<longrightarrow> i = j"
  proof
    assume eq: "org_slug g = org_slug h"
    let ?u = "name_slug (o_name g)" and ?v = "name_slug (o_name h)"
    have mixed: "u @ ''-'' @ show_int k \<noteq> ''org'' @ show_int l" if "0 \<le> l" for u k l
      using dash [of u k] nodash [OF that] by metis
    show "i = j"
    proof (cases "?u = []"; cases "?v = []")
      assume "?u = []" "?v = []"
      then show ?thesis using eq assms(1,2) orgs by (simp add: org_slug_def)
    next
      assume "?u = []" "?v \<noteq> []"
      then show ?thesis using eq assms(1,2) mixed [OF assms(3), of ?v j] by (simp add: org_slug_def)
    next
      assume "?u \<noteq> []" "?v = []"
      then show ?thesis using eq assms(1,2) mixed [OF assms(4), of ?u i] by (simp add: org_slug_def)
    next
      assume "?u \<noteq> []" "?v \<noteq> []"
      then show ?thesis using eq assms(1,2) slugs [of ?u ?v] by (simp add: org_slug_def)
    qed
  qed
  have chars: "slug_char c" if "c \<in> set (show_int i)" for c
    using that assms(3) show_nat_digits digit_slug_char by (auto simp: show_int_def)
  have letters: "slug_char (CHR ''o'')" "slug_char (CHR ''r'')" "slug_char (CHR ''g'')"
    by (simp_all add: slug_char_def code_def)
  have "\<exists>s. org_slug g = Some s \<and> list_all (\<lambda>c. slug_char c \<or> c = CHR ''-'') s"
    using assms(1) chars letters name_slug_chars
    by (auto simp: org_slug_def Let_def list_all_iff)
  with inj show ?thesis by blast
qed

definition example_named_org :: organization where
  "example_named_org = \<lparr>o_id = None, o_name = [], o_logo_sha = None, o_plan = ''free'',
     o_plan_status = ''active'', o_stripe_customer_id = None, o_stripe_subscription_id = None,
     o_current_period_end = None, o_retention_days = None, o_results_webhook_url = None,
     o_results_webhook_secret = None\<rparr>"

lemma org_slug_is_theirs_witness:
  "org_slug (example_named_org\<lparr>o_id := Some 12, o_name := ''Acme''\<rparr>) \<noteq> org_slug (example_named_org\<lparr>o_id := Some 2, o_name := ''Acme-1''\<rparr>)"
  using org_slug_is_theirs [of "example_named_org\<lparr>o_id := Some 12, o_name := ''Acme''\<rparr>" 12
      "example_named_org\<lparr>o_id := Some 2, o_name := ''Acme-1''\<rparr>" 2] by auto

end
