(* ===== verification/Agent.thy ===== *)
theory Agent
  imports Settings
begin

section \<open>Agent: the calls to the grading agent\<close>

text \<open>
  \<open>agent_client.py\<close> and \<open>api._agent_detail\<close>. The agent itself is a parameter: a function from the
  number of the attempt to what that HTTP call does. The model fixes what the platform sends and
  how it retries; a run returns what it raised or received together with the calls and pauses
  it made, in order.
\<close>

subsection \<open>Replies and failures\<close>

record response =
  rs_status_code :: int
  rs_text :: string
  rs_json :: "json option"  \<comment> \<open>\<open>None\<close>: the body is not JSON\<close>

datatype failure =
    HTTPStatusError response
  | ConnectError
  | ConnectTimeout
  | ReadTimeout
  | OtherFailure

text \<open>\<open>response.raise_for_status()\<close>: a status below 200 or above 299 raises.\<close>

definition raise_for_status :: "response \<Rightarrow> failure + response" where
  "raise_for_status r =
     (if 200 \<le> rs_status_code r \<and> rs_status_code r \<le> 299 then Inr r else Inl (HTTPStatusError r))"

definition DRAFT_RETRY_STATUSES :: "int list" where
  "DRAFT_RETRY_STATUSES = [429, 500, 502, 504]"

definition draft_is_retryable :: "failure \<Rightarrow> bool" where
  "draft_is_retryable e = (case e of
     HTTPStatusError r \<Rightarrow> rs_status_code r \<in> set DRAFT_RETRY_STATUSES
   | ConnectError \<Rightarrow> True | ConnectTimeout \<Rightarrow> True | _ \<Rightarrow> False)"

definition TRIGGER_RETRY_STATUSES :: "int list" where
  "TRIGGER_RETRY_STATUSES = [429, 500, 502, 503, 504]"

definition TRIGGER_TERMINAL_STATUSES :: "int list" where
  "TRIGGER_TERMINAL_STATUSES = [400]"

definition trigger_is_retryable :: "failure \<Rightarrow> bool" where
  "trigger_is_retryable e = (case e of
     HTTPStatusError r \<Rightarrow> rs_status_code r \<in> set TRIGGER_RETRY_STATUSES
   | ConnectError \<Rightarrow> True | ConnectTimeout \<Rightarrow> True | ReadTimeout \<Rightarrow> True | OtherFailure \<Rightarrow> False)"

definition trigger_refusal :: "failure \<Rightarrow> response option" where
  "trigger_refusal e = (case e of
     HTTPStatusError r \<Rightarrow> if rs_status_code r \<in> set TRIGGER_TERMINAL_STATUSES then Some r else None
   | _ \<Rightarrow> None)"

text \<open>What a \<open>for\<close> loop over a JSON value visits; the scalars cannot be iterated.\<close>

definition py_iter :: "json \<Rightarrow> exn + json list" where
  "py_iter j = (case j of
     JList xs \<Rightarrow> Inr xs
   | JStr s \<Rightarrow> Inr (map (\<lambda>c. JStr [c]) s)
   | JObj d \<Rightarrow> Inr (map (\<lambda>e. JStr (fst e)) d)
   | _ \<Rightarrow> Inl TypeError)"

definition agent_detail :: "externals \<Rightarrow> response \<Rightarrow> exn + string" where
  "agent_detail x r = (case rs_json r of
     None \<Rightarrow> Inr (rs_text r)
   | Some body \<Rightarrow>
       (let det = (case body of
                     JObj d \<Rightarrow> (case map_of d ''detail'' of None \<Rightarrow> JStr (rs_text r) | Some v \<Rightarrow> v)
                   | _ \<Rightarrow> body)
        in case det of
             JObj d \<Rightarrow>
               (if truthy (dict_get d ''warnings'')
                then sbind (py_iter (dict_get d ''warnings'')) (\<lambda>ws. Inr (py_join ''; '' (map (py_str x) ws)))
                else Inr (py_str x det))
           | _ \<Rightarrow> Inr (py_str x det)))"

subsection \<open>Posting with retries\<close>

datatype net = Post nat | Sleep rat

type_synonym agent = "nat \<Rightarrow> failure + response"

text \<open>
  The loop of \<open>_post_with_retry\<close>: \<open>attempt\<close> is the number of the next call and \<open>left\<close> the
  number of iterations the range still has. The last case is the unreachable \<open>raise last\<close>.
\<close>

fun post_loop :: "agent \<Rightarrow> int \<Rightarrow> rat \<Rightarrow> (failure \<Rightarrow> bool) \<Rightarrow> failure \<Rightarrow> nat \<Rightarrow> nat \<Rightarrow>
    (failure + response) \<times> net list" where
  "post_loop agent attempts backoff retryable last_failure attempt 0 = (Inl last_failure, [])"
| "post_loop agent attempts backoff retryable last_failure attempt (Suc left) =
    (case (case agent attempt of Inl e \<Rightarrow> Inl e | Inr r \<Rightarrow> raise_for_status r) of
       Inr r \<Rightarrow> (Inr r, [Post attempt])
     | Inl e \<Rightarrow>
         if int attempt \<ge> attempts \<or> \<not> retryable e then (Inl e, [Post attempt])
         else (case post_loop agent attempts backoff retryable e (Suc attempt) left of
                 (res, trace) \<Rightarrow> (res, Post attempt # Sleep (backoff * of_nat attempt) # trace)))"

definition post_with_retry :: "agent \<Rightarrow> int \<Rightarrow> rat \<Rightarrow> (failure \<Rightarrow> bool) \<Rightarrow> (failure + response) \<times> net list" where
  "post_with_retry agent attempts backoff retryable =
     post_loop agent attempts backoff retryable OtherFailure 1 (nat (max 1 attempts))"

definition posts :: "net list \<Rightarrow> nat list" where
  "posts tr = concat (map (\<lambda>e. case e of Post n \<Rightarrow> [n] | Sleep _ \<Rightarrow> []) tr)"

definition slept :: "net list \<Rightarrow> rat" where
  "slept tr = sum_list (map (\<lambda>e. case e of Post _ \<Rightarrow> 0 | Sleep r \<Rightarrow> r) tr)"

subsection \<open>The payloads\<close>

definition jopt :: "string option \<Rightarrow> json" where
  "jopt s = (case s of None \<Rightarrow> JNull | Some t \<Rightarrow> JStr t)"

definition or_empty :: "string option \<Rightarrow> string" where
  "or_empty s = (case s of None \<Rightarrow> [] | Some t \<Rightarrow> t)"

definition question_cases :: "question \<Rightarrow> store \<Rightarrow> test_case list" where
  "question_cases q st = filter (\<lambda>tc. tc_question_id tc = q_id q) (t_test_cases st)"

definition build_question_payload :: "question \<Rightarrow> store \<Rightarrow> json" where
  "build_question_payload q st =
    (let example = (if q_example_input q \<noteq> None \<or> q_example_output q \<noteq> None
                    then JObj [(''input'', JStr (or_empty (q_example_input q))),
                               (''output'', JStr (or_empty (q_example_output q)))]
                    else JNull)
     in JObj
      [(''id'', JStr (q_id q)), (''title'', JStr (q_title q)), (''prompt'', JStr (q_prompt q)),
       (''constraints'', JStr (q_constraints q)),
       (''test_cases'', JList (map (\<lambda>tc. JObj
          [(''name'', JStr (tc_name tc)), (''stdin'', JStr (tc_stdin tc)),
           (''expected'', JStr (tc_expected tc)), (''category'', JStr (tc_category tc)),
           (''weight'', JFloat (tc_weight tc))]) (question_cases q st))),
       (''time_limit_s'', JFloat (q_time_limit_s q)),
       (''pass_threshold'', JFloat (q_pass_threshold q)),
       (''example'', example),
       (''required_complexity'', jopt (q_required_complexity q))])"

definition trigger_body :: "question \<Rightarrow> submission \<Rightarrow> string \<Rightarrow> store \<Rightarrow> json" where
  "trigger_body q s callback_url st = JObj
    [(''question'', build_question_payload q st), (''code'', JStr (s_code s)),
     (''language'', JStr (s_language s)), (''candidate'', JStr (s_candidate s)),
     (''callback_url'', JStr callback_url), (''email_to'', JNull),
     (''job_id'', jopt (s_agent_job_id s))]"

text \<open>
  The defaults of two settings of the environment. What is proved of the retry loop and of the callers of the trigger holds
  for any number of attempts and any backoff.
\<close>

definition TRIGGER_TRANSPORT_ATTEMPTS :: int where
  "TRIGGER_TRANSPORT_ATTEMPTS = 3"

definition TRIGGER_RETRY_BACKOFF_S :: rat where
  "TRIGGER_RETRY_BACKOFF_S = 1"

text \<open>
  \<open>trigger_assessment\<close>: the agent answers each post of the body. \<open>resp.json()["job_id"]\<close> fails
  on a body that is not an object with a job id; the agent's job ids are strings.
\<close>

definition reply_job_id :: "response \<Rightarrow> failure + string" where
  "reply_job_id r = (case rs_json r of
     Some (JObj d) \<Rightarrow> (case map_of d ''job_id'' of Some (JStr s) \<Rightarrow> Inr s | _ \<Rightarrow> Inl OtherFailure)
   | _ \<Rightarrow> Inl OtherFailure)"

definition trigger_assessment :: "(json \<Rightarrow> agent) \<Rightarrow> question \<Rightarrow> submission \<Rightarrow> string \<Rightarrow> store \<Rightarrow> failure + string" where
  "trigger_assessment agent q s callback_url st =
    (case fst (post_with_retry (agent (trigger_body q s callback_url st))
                 TRIGGER_TRANSPORT_ATTEMPTS TRIGGER_RETRY_BACKOFF_S trigger_is_retryable) of
       Inl e \<Rightarrow> Inl e
     | Inr r \<Rightarrow> reply_job_id r)"

text \<open>The draft and run calls: the body, and the single call or the retried one.\<close>

definition draft_body :: "string \<Rightarrow> string \<Rightarrow> string option \<Rightarrow> string option \<Rightarrow> json" where
  "draft_body brief language difficulty target = JObj
    [(''brief'', JStr brief), (''language'', JStr language), (''difficulty'', jopt difficulty),
     (''target_complexity'', jopt target)]"

definition draft_question :: "(json \<Rightarrow> agent) \<Rightarrow> string \<Rightarrow> string \<Rightarrow> string option \<Rightarrow> string option \<Rightarrow> failure + response" where
  "draft_question agent brief language difficulty target =
     fst (post_with_retry (agent (draft_body brief language difficulty target)) 3 1 draft_is_retryable)"

definition run_code :: "(json \<Rightarrow> agent) \<Rightarrow> string \<Rightarrow> string \<Rightarrow> string \<Rightarrow> failure + response" where
  "run_code agent cd language stdin =
    (case agent (JObj [(''code'', JStr cd), (''language'', JStr language), (''stdin'', JStr stdin)]) 1 of
       Inl e \<Rightarrow> Inl e | Inr r \<Rightarrow> raise_for_status r)"

definition run_tests :: "(json \<Rightarrow> agent) \<Rightarrow> question \<Rightarrow> string \<Rightarrow> string \<Rightarrow> store \<Rightarrow> failure + response" where
  "run_tests agent q cd language st =
    (case agent (JObj [(''question'', build_question_payload q st), (''code'', JStr cd),
                       (''language'', JStr language)]) 1 of
       Inl e \<Rightarrow> Inl e | Inr r \<Rightarrow> raise_for_status r)"

text \<open>The headers of a signed post; \<open>content\<close> is the serialized body.\<close>

definition signed_post_headers :: "settings \<Rightarrow> (string \<Rightarrow> string \<Rightarrow> string) \<Rightarrow> string \<Rightarrow> string \<Rightarrow> (string \<times> string) list" where
  "signed_post_headers c sign request_id content =
     [(''Content-Type'', ''application/json'')] @
     (case c_assess_api_token c of None \<Rightarrow> [] | Some t \<Rightarrow> [(''X-Assess-Token'', t)]) @
     (if request_id \<noteq> ''-'' then [(''X-Request-Id'', request_id)] else []) @
     (case c_assess_signing_secret c of None \<Rightarrow> []
      | Some k \<Rightarrow> [(''X-Assess-Signature'', sign k content)])"

subsection \<open>Properties\<close>

text \<open>The number of the call that decides: the first that succeeds, cannot be retried, or is the last.\<close>

definition outcome_of :: "agent \<Rightarrow> nat \<Rightarrow> failure + response" where
  "outcome_of agent n = (case agent n of Inl e \<Rightarrow> Inl e | Inr r \<Rightarrow> raise_for_status r)"

definition settles :: "agent \<Rightarrow> int \<Rightarrow> (failure \<Rightarrow> bool) \<Rightarrow> nat \<Rightarrow> bool" where
  "settles agent attempts retryable n =
     (case outcome_of agent n of Inr _ \<Rightarrow> True | Inl e \<Rightarrow> int n \<ge> attempts \<or> \<not> retryable e)"

lemma post_loop_step:
  "post_loop agent attempts b rt e0 n (Suc left) =
    (if settles agent attempts rt n then (outcome_of agent n, [Post n])
     else case post_loop agent attempts b rt (projl (outcome_of agent n)) (Suc n) left of
            (res, trace) \<Rightarrow> (res, Post n # Sleep (b * of_nat n) # trace))"
  by (auto simp: settles_def outcome_of_def split: sum.splits)

lemma posts_simps [simp]:
  "posts [] = []" "posts (Post n # tr) = n # posts tr" "posts (Sleep r # tr) = posts tr"
  by (simp_all add: posts_def)

lemma slept_simps [simp]:
  "slept [] = 0" "slept (Post n # tr) = slept tr" "slept (Sleep r # tr) = r + slept tr"
  by (simp_all add: slept_def)

lemma post_loop_settles:
  assumes "n \<le> k" and "settles agent attempts rt k" and "\<forall>j. n \<le> j \<and> j < k \<longrightarrow> \<not> settles agent attempts rt j"
    and "k - n < left"
  shows "fst (post_loop agent attempts b rt e0 n left) = outcome_of agent k \<and>
    posts (snd (post_loop agent attempts b rt e0 n left)) = [n..<Suc k] \<and>
    slept (snd (post_loop agent attempts b rt e0 n left)) = b * (\<Sum>j\<leftarrow>[n..<k]. of_nat j)"
  using assms
proof (induction "k - n" arbitrary: n left e0)
  case 0
  then obtain l where "left = Suc l" "n = k" by (cases left) auto
  with 0 show ?case by (simp add: post_loop_step del: post_loop.simps)
next
  case (Suc d)
  then obtain l where l: "left = Suc l" by (cases left) auto
  have nk: "n < k" "\<not> settles agent attempts rt n" using Suc.hyps(2) Suc.prems(3) by auto
  obtain res tr where rt: "post_loop agent attempts b rt (projl (outcome_of agent n)) (Suc n) l = (res, tr)"
    by fastforce
  have "fst (post_loop agent attempts b rt (projl (outcome_of agent n)) (Suc n) l) = outcome_of agent k \<and>
    posts (snd (post_loop agent attempts b rt (projl (outcome_of agent n)) (Suc n) l)) = [Suc n..<Suc k] \<and>
    slept (snd (post_loop agent attempts b rt (projl (outcome_of agent n)) (Suc n) l)) =
      b * (\<Sum>j\<leftarrow>[Suc n..<k]. of_nat j)"
    using Suc.hyps Suc.prems nk l by (intro Suc.hyps(1)) auto
  then show ?case
    using nk rt by (simp add: l post_loop_step upt_conv_Cons distrib_left del: post_loop.simps)
qed

lemma post_loop_reply:
  "\<exists>k. fst (post_loop agent attempts b rt OtherFailure 1 (nat (max 1 attempts))) = outcome_of agent k"
proof -
  have "\<exists>k. fst (post_loop agent attempts b rt e n (Suc left)) = outcome_of agent k" if "nat (max 1 attempts) \<le> n + left" for e n left
    using that
  proof (induction left arbitrary: e n)
    case 0
    then have "settles agent attempts rt n" by (auto simp: settles_def split: sum.splits)
    then show ?case by (auto simp: post_loop_step simp del: post_loop.simps)
  next
    case (Suc l)
    from Suc.IH [of "Suc n" "projl (outcome_of agent n)"] Suc.prems
    obtain k where k: "fst (post_loop agent attempts b rt (projl (outcome_of agent n)) (Suc n) (Suc l)) = outcome_of agent k"
      by auto
    obtain res tr where "post_loop agent attempts b rt (projl (outcome_of agent n)) (Suc n) (Suc l) = (res, tr)"
      by fastforce
    with k show ?case by (auto simp: post_loop_step [of _ _ _ _ _ n "Suc l"] simp del: post_loop.simps)
  qed
  from this [of 1 "nat (max 1 attempts) - 1"] show ?thesis by simp
qed

text \<open>
  C40. Whatever the agent answers, a retried call makes consecutive attempts from 1 up to the
  first that succeeds or fails for good, at most \<open>max 1 attempts\<close> of them, pauses \<open>backoff * k\<close>
  after the \<open>k\<close>-th failure, and returns that attempt's reply or failure unchanged.
\<close>

theorem post_with_retry_outcome:
  "\<exists>k. 1 \<le> k \<and> int k \<le> max 1 attempts \<and>
     fst (post_with_retry agent attempts backoff retryable) = outcome_of agent k \<and>
     posts (snd (post_with_retry agent attempts backoff retryable)) = [1..<Suc k] \<and>
     slept (snd (post_with_retry agent attempts backoff retryable)) = backoff * of_nat (k * (k - 1) div 2) \<and>
     settles agent attempts retryable k \<and> (\<forall>j\<in>{1..<k}. \<not> settles agent attempts retryable j)"
proof -
  let ?m = "nat (max 1 attempts)"
  let ?P = "\<lambda>k. 1 \<le> k \<and> settles agent attempts retryable k"
  have m: "?P ?m" by (auto simp: settles_def split: sum.splits)
  define k where "k = (LEAST k. ?P k)"
  have k: "?P k" "k \<le> ?m" unfolding k_def using LeastI [of ?P ?m] Least_le [of ?P ?m] m by auto
  have least: "\<not> settles agent attempts retryable j" if "1 \<le> j" "j < k" for j
    using that not_less_Least [of j ?P] by (auto simp: k_def)
  have gauss: "(\<Sum>j\<leftarrow>[1..<k]. (of_nat j :: rat)) = of_nat (k * (k - 1) div 2)"
  proof -
    have "(\<Sum>j\<leftarrow>[1..<k]. (of_nat j :: rat)) = of_nat (\<Sum>j = 1..<k. j)"
      by (simp add: sum_list_distinct_conv_sum_set)
    also have "(\<Sum>j = 1..<k. j) = (\<Sum>j = 0..<k. j)"
      by (cases k) (simp_all add: sum.atLeast_Suc_lessThan)
    also have "\<dots> = k * (k - 1) div 2"
      by (simp add: Sum_Ico_nat)
    finally show ?thesis .
  qed
  show ?thesis
    using post_loop_settles [of 1 k agent attempts retryable ?m backoff OtherFailure] k least gauss
    by (intro exI [of _ k]) (auto simp: post_with_retry_def)
qed

lemma post_with_retry_outcome_witness:
  "\<exists>k. 1 \<le> k \<and> k \<le> (3::int) \<and>
     posts (snd (post_with_retry (\<lambda>_. Inl ConnectError) 3 1 trigger_is_retryable)) = [1..<Suc (nat k)]"
  using post_with_retry_outcome [of 3 "\<lambda>_. Inl ConnectError" 1 trigger_is_retryable]
  by (metis nat_int of_nat_1 of_nat_mono max_def one_le_numeral)

text \<open>
  A job the agent refuses as sent (status 400) is posted once and reported as refused;
  everything the trigger retries is not a refusal.
\<close>

theorem refusal_not_retried:
  "(trigger_refusal e \<noteq> None \<longleftrightarrow> (\<exists>r. e = HTTPStatusError r \<and> rs_status_code r = 400)) \<and>
   \<not> (trigger_refusal e \<noteq> None \<and> trigger_is_retryable e)"
  by (auto simp: trigger_refusal_def trigger_is_retryable_def TRIGGER_TERMINAL_STATUSES_def
      TRIGGER_RETRY_STATUSES_def split: failure.splits if_splits)

end
