(* ===== verification/Swap.thy ===== *)
theory Swap
  imports Prelude
begin

section \<open>Swap: the contract of a compare-and-swap on a row\<close>

text \<open>
  The platform decides every race on a row with one conditional UPDATE: it names the state the
  caller saw (the token) and changes the row only if it is still in that state. The submission
  row, whose token is its status and its attempt count, and the notified stamp of a sitting,
  whose token is the empty stamp, both give this contract.
\<close>

fun run_swaps :: "('u \<Rightarrow> 'tok \<Rightarrow> 's \<Rightarrow> bool \<times> 's) \<Rightarrow> 'tok \<Rightarrow> 'u list \<Rightarrow> 's \<Rightarrow> bool list \<times> 's" where
  "run_swaps swap e [] s = ([], s)"
| "run_swaps swap e (u # us) s =
     (let r = swap u e s; rest = run_swaps swap e us (snd r) in (fst r # fst rest, snd rest))"

definition winners :: "bool list \<Rightarrow> nat" where
  "winners bs = length (filter id bs)"

locale swap_cell =
  fixes swap :: "'u \<Rightarrow> 'tok \<Rightarrow> 's \<Rightarrow> bool \<times> 's"
    and token :: "'s \<Rightarrow> 'tok option"
    and ok :: "'s \<Rightarrow> bool"
    and moves :: "'u \<Rightarrow> 'tok \<Rightarrow> bool"
  assumes keeps: "ok s \<Longrightarrow> moves u e \<Longrightarrow> ok (snd (swap u e s))"
    and wins: "ok s \<Longrightarrow> moves u e \<Longrightarrow> fst (swap u e s) \<longleftrightarrow> token s = Some e"
    and loses: "ok s \<Longrightarrow> moves u e \<Longrightarrow> token s \<noteq> Some e \<Longrightarrow> snd (swap u e s) = s"
    and advances: "ok s \<Longrightarrow> moves u e \<Longrightarrow> token s = Some e \<Longrightarrow> token (snd (swap u e s)) \<noteq> Some e"
begin

lemma stale_lose:
  "\<lbrakk>ok s; \<forall>u\<in>set us. moves u e; token s \<noteq> Some e\<rbrakk> \<Longrightarrow>
   winners (fst (run_swaps swap e us s)) = 0 \<and> snd (run_swaps swap e us s) = s"
  by (induction us) (auto simp: Let_def wins loses winners_def)

theorem one_winner:
  assumes "ok s" and "\<forall>u\<in>set us. moves u e"
  shows "winners (fst (run_swaps swap e us s)) = (if token s = Some e \<and> us \<noteq> [] then 1 else 0)"
proof (cases us)
  case Nil
  then show ?thesis by (simp add: winners_def)
next
  case (Cons u us')
  show ?thesis
  proof (cases "token s = Some e")
    case False
    then show ?thesis using stale_lose assms by simp
  next
    case True
    have m: "moves u e" "\<forall>u\<in>set us'. moves u e" using assms(2) Cons by auto
    have "winners (fst (run_swaps swap e us' (snd (swap u e s)))) = 0"
      using stale_lose [of "snd (swap u e s)" us' e] m keeps advances assms(1) True by blast
    then show ?thesis using True m assms(1) Cons by (simp add: Let_def wins winners_def)
  qed
qed

text \<open>
  Two callers that saw the same token cannot both win, whatever others do in between, unless
  they put the row back.
\<close>

lemma no_double_win:
  assumes "ok s" and "moves u e" and "moves v e"
    and "fst (swap u e s)" and "ok s'" and "token s' \<noteq> Some e"
  shows "\<not> fst (swap v e s')"
  using assms wins by blast

end

end
