(* ===== verification/Notify.thy ===== *)
theory Notify
  imports Agent PyTime Swap
begin

section \<open>Notify: telling the interviewer a sitting finished\<close>

text \<open>
  \<open>notify.py\<close>. \<open>claim_sitting\<close> runs inside the callback: it decides whether the sitting is
  complete and wins the notified stamp of the attempt with a compare-and-swap; \<open>deliver\<close> is the
  background half, whose two channels are returned as the messages it sends. Parsing a URL,
  resolving a name - once for the check, and again by \<open>httpx\<close> for the connection - telling public from private addresses and serializing JSON are parameters.
\<close>

definition TERMINAL :: "string list" where
  "TERMINAL = [''done'', ''error'']"

subsection \<open>The webhook address\<close>

record 'addr network =
  n_urlsplit :: "string \<Rightarrow> (string \<times> string option) option"
    \<comment> \<open>scheme and hostname; \<open>None\<close>: ValueError\<close>
  n_getaddrinfo :: "string \<Rightarrow> 'addr list option"  \<comment> \<open>the lookup of the gate; \<open>None\<close>: OSError\<close>
  n_connect :: "string \<Rightarrow> 'addr list option"
    \<comment> \<open>the addresses \<open>httpx\<close> finds by itself for the URL it posts to; \<open>None\<close>: it raises\<close>
  n_is_global :: "'addr \<Rightarrow> bool"
  n_is_multicast :: "'addr \<Rightarrow> bool"

definition not_public_message :: "string \<Rightarrow> string" where
  "not_public_message h = h @ '' isn't reachable on the public internet. Use an '' @
     ''address that someone outside your own network could open.''"

definition webhook_url_error :: "settings \<Rightarrow> 'addr network \<Rightarrow> string \<Rightarrow> string option" where
  "webhook_url_error c net url =
    (case n_urlsplit net url of
       None \<Rightarrow> Some ''That doesn't look like a valid address.''
     | Some (scheme, hostname) \<Rightarrow>
         if scheme \<notin> set (if c_allow_private_webhooks c then [''https'', ''http''] else [''https''])
         then Some ''The address must start with https://.''
         else (case hostname of
             None \<Rightarrow> Some ''That address is missing a domain name.''
           | Some h \<Rightarrow>
               if h = [] then Some ''That address is missing a domain name.''
               else if c_allow_private_webhooks c then None
               else (case n_getaddrinfo net h of
                   None \<Rightarrow> Some (h @ '' doesn't resolve - check the address for a typo.'')
                 | Some addrs \<Rightarrow>
                     if list_ex (\<lambda>a. \<not> n_is_global net a \<or> n_is_multicast net a) addrs
                     then Some (not_public_message h) else None)))"

subsection \<open>Deciding that a sitting is over\<close>

definition slot_count :: "invite \<Rightarrow> store \<Rightarrow> nat" where
  "slot_count invite st = (case inv_assessment_id invite of
     None \<Rightarrow> 1
   | Some a \<Rightarrow> (let n = count_where (\<lambda>aq. aq_assessment_id aq = a) (t_assessment_questions st)
                in if n = 0 then 1 else n))"

definition graded_submissions :: "invite \<Rightarrow> string \<Rightarrow> store \<Rightarrow> submission list" where
  "graded_submissions invite email st =
     filter (\<lambda>s. s_invite_id s = Some (inv_id invite) \<and> s_candidate_email s = Some email \<and>
                 s_status s \<in> set TERMINAL) (t_submissions st)"

text \<open>\<open>_claim\<close>: the conditional UPDATE on the attempt, as a swap of its stamp.\<close>

definition claim_stamp :: "int \<Rightarrow> instant \<Rightarrow> candidate_attempt list \<Rightarrow> bool \<times> candidate_attempt list" where
  "claim_stamp attempt_id now t =
    (let hit = (\<lambda>r. at_id r = attempt_id \<and> at_results_notified_at r = None) in
     (0 < count_where hit t, upd_where hit (\<lambda>r. r\<lparr>at_results_notified_at := Some now\<rparr>) t))"

definition graded_question :: "submission \<Rightarrow> store \<Rightarrow> graded_question" where
  "graded_question sub st =
    (let q = get_question (s_question_id sub) st;
         r = first_where (\<lambda>r. r_submission_id r = s_id sub) (t_results st)
     in \<lparr>gq_submission_id = s_id sub,
         gq_question_id = s_question_id sub,
         gq_title = (case q of Some q \<Rightarrow> q_title q | None \<Rightarrow> s_question_id sub),
         gq_verdict = (case r of Some r \<Rightarrow> r_verdict r | None \<Rightarrow> ''ERROR''),
         gq_score_pct = (case r of Some r \<Rightarrow> r_score_pct r | None \<Rightarrow> 0)\<rparr>)"

definition payload :: "settings \<Rightarrow> invite \<Rightarrow> submission \<Rightarrow> submission list \<Rightarrow> store \<Rightarrow> results_ready" where
  "payload c invite sub graded st =
    (let q = get_question (s_question_id sub) st;
         org_id = (case q of Some q \<Rightarrow> q_org_id q | None \<Rightarrow> 0);
         org = (if org_id \<noteq> 0 then get_org org_id st else None);
         recipient = (case inv_created_by invite of None \<Rightarrow> None
                      | Some i \<Rightarrow> map_option iv_email (get_interviewer i st));
         asm = (case inv_assessment_id invite of None \<Rightarrow> None | Some a \<Rightarrow> get_assessment a st);
         title = (case asm of Some a \<Rightarrow> a_title a
                  | None \<Rightarrow> (case q of Some q \<Rightarrow> q_title q | None \<Rightarrow> ''Coding assessment''))
     in \<lparr>rr_org_id = org_id,
         rr_invite_id = inv_id invite,
         rr_candidate = s_candidate sub,
         rr_candidate_email = s_candidate_email sub,
         rr_title = title,
         rr_results_url = c_frontend_base_url c @ ''/submissions/'' @ s_id sub,
         rr_recipient = recipient,
         rr_webhook_url = (case org of Some g \<Rightarrow> o_results_webhook_url g | None \<Rightarrow> None),
         rr_webhook_secret = (case org of Some g \<Rightarrow> o_results_webhook_secret g | None \<Rightarrow> None),
         rr_questions = map (\<lambda>s. graded_question s st) graded\<rparr>)"

definition candidate_email_of :: "submission \<Rightarrow> (int \<times> string) option" where
  "candidate_email_of sub = (case (s_invite_id sub, s_candidate_email sub) of
     (Some i, Some e) \<Rightarrow> if e = [] then None else Some (i, e) | _ \<Rightarrow> None)"

definition attempt_for :: "int \<Rightarrow> string \<Rightarrow> store \<Rightarrow> candidate_attempt option" where
  "attempt_for i email st =
     first_where (\<lambda>r. at_invite_id r = i \<and> at_candidate_email r = email) (t_attempts st)"

text \<open>
  \<open>claim_sitting\<close>; \<open>sibling\<close> is what other workers commit between its reads and the
  compare-and-swap.
\<close>

definition claim_sitting :: "settings \<Rightarrow> (store \<Rightarrow> store) \<Rightarrow> instant \<Rightarrow> submission \<Rightarrow> store \<Rightarrow>
    results_ready option \<times> store" where
  "claim_sitting c sibling now sub st =
    (case candidate_email_of sub of
       None \<Rightarrow> (None, st)
     | Some (i, email) \<Rightarrow>
       (case get_invite i st of
          None \<Rightarrow> (None, st)
        | Some invite \<Rightarrow>
            let graded = graded_submissions invite email st in
            if length graded < slot_count invite st then (None, st)
            else (case attempt_for i email st of
                None \<Rightarrow> (None, st)
              | Some attempt \<Rightarrow>
                  let st1 = sibling st in
                  (case claim_stamp (at_id attempt) now (t_attempts st1) of
                     (False, _) \<Rightarrow> (None, st1)
                   | (True, t) \<Rightarrow>
                       let st2 = st1\<lparr>t_attempts := t\<rparr> in
                       (Some (payload c invite sub graded st2), st2)))))"

definition reopen_sitting :: "submission \<Rightarrow> store \<Rightarrow> store" where
  "reopen_sitting sub st =
    (case candidate_email_of sub of
       None \<Rightarrow> st
     | Some (i, email) \<Rightarrow>
         st\<lparr>t_attempts := upd_where (\<lambda>r. at_invite_id r = i \<and> at_candidate_email r = email)
              (\<lambda>r. r\<lparr>at_results_notified_at := None\<rparr>) (t_attempts st)\<rparr>)"

subsection \<open>Delivery\<close>

text \<open>A POST goes to one of the addresses of the second lookup.\<close>

datatype 'addr sent =
    Mailed string results_ready
  | Posted (posted_url: string) (posted_to: "'addr list") (posted_headers: "(string \<times> string) list") (posted_body: string)

definition send_email :: "results_ready \<Rightarrow> 'addr sent list" where
  "send_email p = (case rr_recipient p of
     None \<Rightarrow> [] | Some r \<Rightarrow> if r = [] then [] else [Mailed r p])"

definition webhook_document :: "string \<Rightarrow> results_ready \<Rightarrow> json" where
  "webhook_document sent_at p = JObj
    [(''event'', JStr ''results.ready''), (''sent_at'', JStr sent_at),
     (''organization_id'', JInt (rr_org_id p)), (''invite_id'', JInt (rr_invite_id p)),
     (''title'', JStr (rr_title p)),
     (''candidate'', JObj [(''name'', JStr (rr_candidate p)), (''email'', jopt (rr_candidate_email p))]),
     (''results_url'', JStr (rr_results_url p)),
     (''results'', JList (map (\<lambda>q. JObj
        [(''submission_id'', JStr (gq_submission_id q)), (''question_id'', JStr (gq_question_id q)),
         (''title'', JStr (gq_title q)), (''verdict'', JStr (gq_verdict q)),
         (''score_pct'', JFloat (gq_score_pct q))]) (rr_questions p)))]"

definition send_webhook :: "settings \<Rightarrow> 'addr network \<Rightarrow> (json \<Rightarrow> string) \<Rightarrow> (string \<Rightarrow> string \<Rightarrow> string) \<Rightarrow>
    string \<Rightarrow> results_ready \<Rightarrow> 'addr sent list" where
  "send_webhook c net dumps sign sent_at p =
    (case (rr_webhook_url p, rr_webhook_secret p) of
       (Some url, Some secret) \<Rightarrow>
         if url = [] \<or> secret = [] then []
         else (case webhook_url_error c net url of
             Some _ \<Rightarrow> []
           | None \<Rightarrow>
               let body = dumps (webhook_document sent_at p) in
               (case n_connect net url of
                  None \<Rightarrow> []
                | Some addrs \<Rightarrow> [Posted url addrs [(''Content-Type'', ''application/json''),
                            (''X-Assess-Signature'', sign secret body)] body]))
     | _ \<Rightarrow> [])"

definition deliver :: "settings \<Rightarrow> 'addr network \<Rightarrow> (json \<Rightarrow> string) \<Rightarrow> (string \<Rightarrow> string \<Rightarrow> string) \<Rightarrow>
    string \<Rightarrow> results_ready \<Rightarrow> 'addr sent list" where
  "deliver c net dumps sign sent_at p =
     send_email p @ send_webhook c net dumps sign sent_at p"

subsection \<open>The stamp is a compare-and-swap\<close>

definition stamp_token :: "int \<Rightarrow> candidate_attempt list \<Rightarrow> unit option" where
  "stamp_token i t = (case first_where (\<lambda>r. at_id r = i) t of
     Some r \<Rightarrow> (if at_results_notified_at r = None then Some () else None) | None \<Rightarrow> None)"

lemma claim_stamp_hit:
  assumes "unique_key at_id t"
  shows "fst (claim_stamp i now t) \<longleftrightarrow> stamp_token i t = Some ()"
proof (cases "first_where (\<lambda>r. at_id r = i) t")
  case None
  then have "\<not> fst (claim_stamp i now t)"
    by (auto simp: claim_stamp_def Let_def count_where_pos find_None_iff')
  with None show ?thesis by (simp add: stamp_token_def)
next
  case (Some r)
  then show ?thesis using ex_unique_key [OF assms Some]
    by (simp add: claim_stamp_def Let_def count_where_pos stamp_token_def)
qed

lemma claim_stamp_find:
  "first_where (\<lambda>r. at_id r = j) (snd (claim_stamp i now t)) =
   map_option (\<lambda>r. if at_id r = i \<and> at_results_notified_at r = None
                   then r\<lparr>at_results_notified_at := Some now\<rparr> else r) (first_where (\<lambda>r. at_id r = j) t)"
  unfolding claim_stamp_def Let_def snd_conv by (rule find_upd_where) simp

lemma claim_stamp_unique:
  "unique_key at_id t \<Longrightarrow> unique_key at_id (snd (claim_stamp i now t))"
  by (simp add: claim_stamp_def Let_def unique_key_upd)

lemma claim_stamp_lost:
  assumes "\<not> fst (claim_stamp i now t)"
  shows "snd (claim_stamp i now t) = t"
proof -
  have "\<forall>r\<in>set t. \<not> (at_id r = i \<and> at_results_notified_at r = None)"
    using assms by (auto simp: claim_stamp_def Let_def count_where_pos)
  then show ?thesis unfolding claim_stamp_def Let_def snd_conv by (intro upd_where_none) blast
qed

interpretation stamp: swap_cell "\<lambda>now (_ :: unit) t. claim_stamp i now t" "stamp_token i" "unique_key at_id"
    "\<lambda>_ _. True" for i
proof (unfold_locales, goal_cases)
  case (1 s u e)
  then show ?case by (simp add: claim_stamp_unique)
next
  case (2 s u e)
  then show ?case by (simp add: claim_stamp_hit)
next
  case (3 s u e)
  then show ?case by (simp add: claim_stamp_hit claim_stamp_lost)
next
  case (4 s u e)
  then show ?case
    by (auto simp: stamp_token_def claim_stamp_find split: option.splits if_splits dest!: find_SomeD)
qed

subsection \<open>Properties\<close>

lemma claim_sitting_cases:
  assumes "claim_sitting c alone_w now sub st = (Some p, st')"
  obtains i email invite attempt where
    "candidate_email_of sub = Some (i, email)" "get_invite i st = Some invite"
    "slot_count invite st \<le> length (graded_submissions invite email st)"
    "attempt_for i email st = Some attempt"
    "fst (claim_stamp (at_id attempt) now (t_attempts (alone_w st)))"
    "st' = (alone_w st)\<lparr>t_attempts := snd (claim_stamp (at_id attempt) now (t_attempts (alone_w st)))\<rparr>"
    "p = payload c invite sub (graded_submissions invite email st) st'"
  using assms unfolding claim_sitting_def Let_def
  by (auto split: option.splits prod.splits bool.splits if_splits simp: not_less)

text \<open>
  However many callbacks complete the same sitting at once, exactly one of them wins the
  notification if nobody has been told yet, and none does if somebody has.
\<close>

theorem notify_once_under_race:
  assumes "unique_key at_id t" and "nows \<noteq> []"
  shows "winners (fst (run_swaps (\<lambda>now (_ :: unit) t. claim_stamp i now t) () nows t)) =
    (if stamp_token i t = Some () then 1 else 0)"
  using stamp.one_winner [where s = t and us = nows and e = "()" and i = i] assms by simp

definition example_attempt :: candidate_attempt where
  "example_attempt = \<lparr>at_id = 7, at_invite_id = 3, at_candidate_email = ''ada@x.org'',
     at_candidate_name = Some ''Ada'', at_started_at = 0, at_consent_at = Some 0,
     at_consent_version = Some ''v1'', at_results_notified_at = None, at_erased_at = None\<rparr>"

lemma notify_once_under_race_witness:
  "winners (fst (run_swaps (\<lambda>now (_ :: unit) t. claim_stamp 7 now t) () [10, 11, 12] [example_attempt])) = 1"
  using notify_once_under_race [of "[example_attempt]" "[10, 11, 12]" 7]
  by (simp add: unique_key_def stamp_token_def example_attempt_def)

text \<open>A sitting that has been claimed, or has nothing to claim, gives nothing a second time.\<close>

lemma claim_sitting_again:
  assumes "unique_key at_id (t_attempts st)" and "claim_sitting c id now sub st = (Some p, st')"
    and "candidate_email_of sub2 = candidate_email_of sub"
  shows "fst (claim_sitting c id later sub2 st') = None"
  using assms(2)
proof (rule claim_sitting_cases)
  fix i email invite attempt
  assume e: "candidate_email_of sub = Some (i, email)"
    and att: "attempt_for i email st = Some attempt"
    and won: "fst (claim_stamp (at_id attempt) now (t_attempts (id st)))"
    and st': "st' = (id st)\<lparr>t_attempts := snd (claim_stamp (at_id attempt) now (t_attempts (id st)))\<rparr>"
  have attin: "attempt \<in> set (t_attempts st)"
    using att unfolding attempt_for_def by (auto dest!: find_SomeD)
  have fid: "first_where (\<lambda>r. at_id r = at_id attempt) (t_attempts st) = Some attempt"
    by (rule find_unique [OF assms(1) attin])
  have again: "attempt_for i email st' = Some (attempt\<lparr>at_results_notified_at := Some now\<rparr>)"
  proof -
    have "attempt_for i email st' = map_option (\<lambda>r. if at_id r = at_id attempt \<and> at_results_notified_at r = None
        then r\<lparr>at_results_notified_at := Some now\<rparr> else r) (attempt_for i email st)"
      unfolding attempt_for_def st' claim_stamp_def Let_def
      by (simp add: find_upd_where)
    moreover have "at_results_notified_at attempt = None"
      using won fid by (simp add: claim_stamp_hit [OF assms(1)] stamp_token_def split: if_splits)
    ultimately show ?thesis using att by simp
  qed
  have "stamp_token (at_id attempt) (t_attempts st') \<noteq> Some ()"
    using stamp.advances [where s = "t_attempts st" and u = now and e = "()" and i = "at_id attempt"] assms(1) won
    by (simp add: st' claim_stamp_hit)
  moreover have "unique_key at_id (t_attempts st')"
    by (simp add: st' claim_stamp_unique assms(1))
  ultimately have lost: "\<not> fst (claim_stamp (at_id attempt) later (t_attempts st'))"
    by (simp add: claim_stamp_hit)
  show "fst (claim_sitting c id later sub2 st') = None"
  proof (rule ccontr)
    assume "fst (claim_sitting c id later sub2 st') \<noteq> None"
    then obtain p2 st2 where "claim_sitting c id later sub2 st' = (Some p2, st2)"
      by (cases "claim_sitting c id later sub2 st'") auto
    then show False
      using lost again e assms(3) by (elim claim_sitting_cases) auto
  qed
qed

lemma claim_sitting_None_state:
  "fst (claim_sitting c id now sub st) = None \<Longrightarrow> snd (claim_sitting c id now sub st) = st"
proof (cases "candidate_email_of sub")
  case None
  then show ?thesis by (simp add: claim_sitting_def)
next
  case (Some ie)
  obtain i e where ie: "ie = (i, e)" by fastforce
  assume none: "fst (claim_sitting c id now sub st) = None"
  show ?thesis
  proof (cases "get_invite i st")
    case None
    then show ?thesis using Some ie by (simp add: claim_sitting_def)
  next
    case (Some v)
    note inv = this
    show ?thesis
    proof (cases "attempt_for i e st")
      case None
      then show ?thesis using \<open>candidate_email_of sub = Some ie\<close> ie inv by (simp add: claim_sitting_def Let_def)
    next
      case (Some a)
      obtain b t where "claim_stamp (at_id a) now (t_attempts st) = (b, t)" by fastforce
      then show ?thesis
        using none Some \<open>candidate_email_of sub = Some ie\<close> ie inv
        by (cases b) (simp_all add: claim_sitting_def Let_def split: if_splits)
    qed
  qed
qed

lemma claim_stamp_fst_now: "fst (claim_stamp i now t) = fst (claim_stamp i later t)"
  by (simp add: claim_stamp_def Let_def)

lemma claim_sitting_None_cong:
  assumes "fst (claim_sitting c id now sub st) = None"
    and "candidate_email_of sub2 = candidate_email_of sub"
    and "t_attempts st2 = t_attempts st" "t_invites st2 = t_invites st"
      "t_assessment_questions st2 = t_assessment_questions st" "t_submissions st2 = t_submissions st"
  shows "fst (claim_sitting c id later sub2 st2) = None"
proof (rule ccontr)
  assume "fst (claim_sitting c id later sub2 st2) \<noteq> None"
  then obtain p2 st3 where "claim_sitting c id later sub2 st2 = (Some p2, st3)"
    by (cases "claim_sitting c id later sub2 st2") auto
  then show False
  proof (rule claim_sitting_cases)
    fix i email invite attempt
    assume h: "candidate_email_of sub2 = Some (i, email)" "get_invite i st2 = Some invite"
      "slot_count invite st2 \<le> length (graded_submissions invite email st2)"
      "attempt_for i email st2 = Some attempt"
      "fst (claim_stamp (at_id attempt) later (t_attempts (id st2)))"
    have eqs: "get_invite i st2 = get_invite i st" "slot_count invite st2 = slot_count invite st"
      "graded_submissions invite email st2 = graded_submissions invite email st"
      "attempt_for i email st2 = attempt_for i email st"
      by (simp_all only: get_invite_def slot_count_def graded_submissions_def attempt_for_def assms(3-6))
    have won: "fst (claim_stamp (at_id attempt) now (t_attempts st))"
      using h(5) unfolding id_apply assms(3) claim_stamp_fst_now [of "at_id attempt" later _ now] .
    show False
      using assms(1) h won unfolding eqs assms(2) claim_sitting_def
      by (auto simp: Let_def split: prod.splits bool.splits)
  qed
qed

text \<open>
  A notification goes out only when every slot of the sitting is graded, its payload lists
  exactly the graded submissions of that candidate on that invite, and the attempt is stamped:
  until a retry reopens the sitting, no later callback of any of its submissions notifies again.
\<close>

theorem claim_sitting_sound:
  assumes "unique_key at_id (t_attempts st)"
    and "claim_sitting c id now sub st = (Some p, st')"
    and "candidate_email_of sub2 = candidate_email_of sub"
  shows "(\<exists>i email invite. candidate_email_of sub = Some (i, email) \<and> get_invite i st = Some invite \<and>
            slot_count invite st \<le> length (graded_submissions invite email st) \<and>
            map gq_submission_id (rr_questions p) = map s_id (graded_submissions invite email st)) \<and>
         fst (claim_sitting c id later sub2 st') = None"
proof -
  have "map gq_submission_id (rr_questions (payload c invite sub g st')) = map s_id g" for invite g
    unfolding payload_def Let_def by (simp add: graded_question_def Let_def comp_def)
  with assms(2) have "\<exists>i email invite. candidate_email_of sub = Some (i, email) \<and> get_invite i st = Some invite \<and>
            slot_count invite st \<le> length (graded_submissions invite email st) \<and>
            map gq_submission_id (rr_questions p) = map s_id (graded_submissions invite email st)"
    by (elim claim_sitting_cases) blast
  with claim_sitting_again [OF assms] show ?thesis by blast
qed

definition example_invite :: invite where
  "example_invite = \<lparr>inv_id = 3, inv_token = ''tok'', inv_question_id = Some ''q1'',
     inv_assessment_id = None, inv_variant_set_id = None, inv_created_by = None,
     inv_recipients = [''ada@x.org''], inv_deliveries = [], inv_expires_at = None,
     inv_proctored = True, inv_duration_minutes = Some 60, inv_status = ''active'', inv_created_at = 0\<rparr>"

definition example_graded :: submission where
  "example_graded = \<lparr>s_id = ''s1'', s_question_id = ''q1'', s_invite_id = Some 3, s_candidate = ''Ada'',
     s_candidate_email = Some ''ada@x.org'', s_language = ''python'', s_code = ''print(1)'',
     s_status = ''done'', s_late = False, s_agent_job_id = Some ''s1'', s_attempts = 1,
     s_error_reason = None, s_judge_cost_usd = None, s_created_at = 0, s_updated_at = 0\<rparr>"

definition graded_store :: store where
  "graded_store = empty_store\<lparr>t_invites := [example_invite], t_attempts := [example_attempt],
     t_submissions := [example_graded]\<rparr>"

lemma claim_sitting_sound_witness:
  "fst (claim_sitting default_settings id 5 example_graded graded_store) \<noteq> None \<and>
   fst (claim_sitting default_settings id 6 example_graded
     (snd (claim_sitting default_settings id 5 example_graded graded_store))) = None"
proof -
  have some: "fst (claim_sitting default_settings id 5 example_graded graded_store) \<noteq> None"
    by (simp add: claim_sitting_def candidate_email_of_def example_graded_def graded_store_def get_invite_def
        example_invite_def graded_submissions_def slot_count_def attempt_for_def example_attempt_def
        claim_stamp_def TERMINAL_def Let_def)
  then obtain p st' where run: "claim_sitting default_settings id 5 example_graded graded_store = (Some p, st')"
    by (cases "claim_sitting default_settings id 5 example_graded graded_store") auto
  have "unique_key at_id (t_attempts graded_store)" by (simp add: graded_store_def unique_key_def)
  from claim_sitting_sound [OF this run refl, of 6] some run show ?thesis by simp
qed

definition public_addresses :: "'addr network \<Rightarrow> 'addr list \<Rightarrow> bool" where
  "public_addresses net addrs = list_all (\<lambda>a. n_is_global net a \<and> \<not> n_is_multicast net a) addrs"

text \<open>
  C38. With private webhooks off, whatever a customer configured, a webhook is posted only when the check made just
  before it found an https address with a host all of whose addresses, as the check resolved them, are globally routable
  and not multicast; it carries the signature of the bytes sent. The connection is made to the addresses of a
  lookup of its own: they are public if that lookup answers as the check's did, and nothing holds them to it.
\<close>

theorem webhook_checked_before_post:
  assumes "\<not> c_allow_private_webhooks c" and "Posted url addrs headers body \<in> set (deliver c net dumps sign sent_at p)"
  shows "(\<exists>h checked. n_urlsplit net url = Some (''https'', Some h) \<and> h \<noteq> [] \<and>
            n_getaddrinfo net h = Some checked \<and> public_addresses net checked \<and>
            n_connect net url = Some addrs \<and> (set addrs \<subseteq> set checked \<longrightarrow> public_addresses net addrs)) \<and>
         (\<exists>secret. rr_webhook_secret p = Some secret \<and> secret \<noteq> [] \<and>
            map_of headers ''X-Assess-Signature'' = Some (sign secret body))"
proof -
  have post: "Posted url addrs headers body \<in> set (send_webhook c net dumps sign sent_at p)"
    using assms(2) unfolding deliver_def send_email_def by (auto split: option.splits if_splits)
  then obtain secret where k: "rr_webhook_url p \<noteq> None" "rr_webhook_secret p = Some secret"
    unfolding send_webhook_def by (cases "rr_webhook_url p"; cases "rr_webhook_secret p") auto
  with post have w: "rr_webhook_secret p = Some secret" "secret \<noteq> []"
      "webhook_url_error c net url = None" "n_connect net url = Some addrs"
      "headers = [(''Content-Type'', ''application/json''), (''X-Assess-Signature'', sign secret body)]"
    unfolding send_webhook_def Let_def by (auto split: option.splits if_splits)
  have "\<exists>h checked. n_urlsplit net url = Some (''https'', Some h) \<and> h \<noteq> [] \<and>
      n_getaddrinfo net h = Some checked \<and> public_addresses net checked"
    using w(3) assms(1) unfolding webhook_url_error_def
    by (auto split: option.splits prod.splits if_splits simp: list_all_iff list_ex_iff public_addresses_def)
  moreover have "public_addresses net checked \<Longrightarrow> set addrs \<subseteq> set checked \<Longrightarrow> public_addresses net addrs" for checked
    by (auto simp: public_addresses_def list_all_iff)
  ultimately show ?thesis using w by auto
qed

definition example_ready :: results_ready where
  "example_ready = \<lparr>rr_org_id = 1, rr_invite_id = 3, rr_candidate = ''Ada'',
     rr_candidate_email = Some ''ada@x.org'', rr_title = ''Screen'', rr_results_url = ''u'',
     rr_recipient = None, rr_webhook_url = Some ''https://ats.example'', rr_webhook_secret = Some ''k'',
     rr_questions = []\<rparr>"

definition example_network :: "nat \<Rightarrow> nat network" where
  "example_network reached = \<lparr>n_urlsplit = (\<lambda>u. Some (''https'', Some ''ats.example'')),
     n_getaddrinfo = (\<lambda>h. Some [8]), n_connect = (\<lambda>u. Some [reached]), n_is_global = (\<lambda>a. a = 8), n_is_multicast = (\<lambda>_. False)\<rparr>"

lemma example_delivery:
  "deliver default_settings (example_network a) (\<lambda>_. ''{}'') (\<lambda>_ _. ''sig'') ''now'' example_ready =
     [Posted ''https://ats.example'' [a] [(''Content-Type'', ''application/json''), (''X-Assess-Signature'', ''sig'')] ''{}'']"
  by (simp add: deliver_def send_email_def send_webhook_def example_ready_def webhook_url_error_def
      example_network_def default_settings_def Let_def)

lemma webhook_checked_before_post_witness:
  "\<exists>h checked. n_urlsplit (example_network 8) ''https://ats.example'' = Some (''https'', Some h) \<and>
     n_getaddrinfo (example_network 8) h = Some checked \<and> public_addresses (example_network 8) checked"
proof -
  have p: "\<not> c_allow_private_webhooks default_settings" by (simp add: default_settings_def)
  have "Posted ''https://ats.example'' [8] [(''Content-Type'', ''application/json''), (''X-Assess-Signature'', ''sig'')] ''{}''
      \<in> set (deliver default_settings (example_network 8) (\<lambda>_. ''{}'') (\<lambda>_ _. ''sig'') ''now'' example_ready)"
    by (simp add: example_delivery)
  from webhook_checked_before_post [OF p this] show ?thesis by blast
qed

text \<open>
  The check runs again at send time because the name may have moved, and so may it between the check and the connection: a
  name that answers publicly first and privately then takes the POST to the private address.
\<close>

lemma rebinding_reaches_private:
  "map posted_to (deliver default_settings (example_network 10) (\<lambda>_. ''{}'') (\<lambda>_ _. ''sig'') ''now'' example_ready) = [[10]] \<and>
   \<not> public_addresses (example_network 10) [10]"
  unfolding example_delivery by (simp add: public_addresses_def) (simp add: example_network_def)

end
