(* ===== verification/Sitting.thy ===== *)
theory Sitting
  imports Billing Access Contact Notify "HOL-Library.List_Lexorder" "HOL-Library.Option_ord"
begin

section \<open>Sitting: what an invite presents to a candidate, and the attempt that times it\<close>

text \<open>
  The helpers of the candidate routes of \<open>api.py\<close> (\<open>_has_attempt\<close> to \<open>_submit_is_late\<close>): who may
  use a link, which questions it presents (a variant-set slot resolves to one variant per
  candidate), the attempt row that starts the clock and claims one sitting of the
  organisation's month, and whether a submission is late.

  An operation that reads and then writes takes \<open>others\<close>, what sibling workers commit in between.
  \<open>get_or_start_attempt\<close> uses the points 0 and 1 inside the quota claim (0 also before the
  backfill of a name), 2 before the INSERT of the attempt and 3 inside the release; the \<open>k\<close>-th
  slot of an assessment uses point \<open>k\<close> before its INSERT.
\<close>

subsection \<open>The gates of a link\<close>

definition invite_by_token :: "string \<Rightarrow> store \<Rightarrow> invite option" where
  "invite_by_token token st = first_where (\<lambda>v. inv_token v = token) (t_invites st)"

definition find_attempt :: "int \<Rightarrow> string \<Rightarrow> store \<Rightarrow> candidate_attempt option" where
  "find_attempt i email st = first_where (\<lambda>r. at_key r = (i, email)) (t_attempts st)"

definition has_attempt :: "invite \<Rightarrow> string option \<Rightarrow> store \<Rightarrow> bool" where
  "has_attempt v email st =
    (case email of None \<Rightarrow> False | Some e \<Rightarrow> find_attempt (inv_id v) e st \<noteq> None)"

definition invite_duration :: "invite \<Rightarrow> int option" where
  "invite_duration v = inv_duration_minutes v"

definition load_invite_or_error :: "instant \<Rightarrow> string \<Rightarrow> string option \<Rightarrow> bool \<Rightarrow> store \<Rightarrow> exn + invite" where
  "load_invite_or_error now token email allow_expired st =
    (case invite_by_token token st of
       None \<Rightarrow> Inl (HTTPException 404 ''invalid invite token.'')
     | Some v \<Rightarrow>
         if inv_status v \<noteq> ''active''
         then Inl (HTTPException 410 ''this invite is no longer active.'')
         else if \<not> allow_expired \<and> is_expired now (inv_expires_at v) \<and>
                 \<not> (invite_duration v \<noteq> None \<and> has_attempt v email st)
         then Inl (HTTPException 410 ''this invite has expired.'')
         else Inr v)"

definition check_invited :: "invite \<Rightarrow> string \<Rightarrow> exn + unit" where
  "check_invited v email =
    require (email \<in> set (map normalize_email (inv_recipients v)))
      (HTTPException 403 ''this assessment was not sent to that email address.'')"

definition ALREADY_SUBMITTED_DETAIL :: string where
  "ALREADY_SUBMITTED_DETAIL = ''your assessment has already been recorded for this email address.''"

definition already_submitted :: exn where
  "already_submitted = HTTPException 409 ALREADY_SUBMITTED_DETAIL"

definition submitted_by :: "invite \<Rightarrow> string \<Rightarrow> string \<Rightarrow> store \<Rightarrow> bool" where
  "submitted_by v email qid st =
     exists_where (\<lambda>s. sub_key s = Some (inv_id v, email, qid)) (t_submissions st)"

definition check_not_already_submitted :: "invite \<Rightarrow> string \<Rightarrow> string \<Rightarrow> store \<Rightarrow> exn + unit" where
  "check_not_already_submitted v email qid st =
     require (\<not> submitted_by v email qid st) already_submitted"

subsection \<open>The questions of a sitting\<close>

text \<open>\<open>order_by(variant_label)\<close>: the labels in code point order, a missing label first.\<close>

definition label_key :: "question \<Rightarrow> nat list option" where
  "label_key q = map_option (map code) (q_variant_label q)"

definition set_variants :: "string \<Rightarrow> store \<Rightarrow> question list" where
  "set_variants set_id st =
     sort_key label_key (filter (\<lambda>q. q_variant_set_id q = Some set_id) (t_questions st))"

definition assessment_slots :: "assessment \<Rightarrow> store \<Rightarrow> assessment_question list" where
  "assessment_slots a st =
     sort_key aq_position (filter (\<lambda>s. aq_assessment_id s = a_id a) (t_assessment_questions st))"

definition slot_row :: "invite \<Rightarrow> string \<Rightarrow> int \<Rightarrow> store \<Rightarrow> slot_variant option" where
  "slot_row v email slot st =
     first_where (\<lambda>r. sv_key r = (inv_id v, email, slot)) (t_slot_variants st)"

text \<open>
  The variant of one slot. The INSERT fails when a row with the same key exists by then, be it a
  sibling's or the candidate's own whose variant has been deleted; the row found decides.
\<close>

definition resolve_slot_variant :: "(store \<Rightarrow> store) \<Rightarrow> invite \<Rightarrow> assessment_question \<Rightarrow> string \<Rightarrow> store \<Rightarrow>
    (question, store) outcome" where
  "resolve_slot_variant others v aq email st =
    (case Option.bind (slot_row v email (aq_id aq) st) (\<lambda>r. get_question (sv_question_id r) st) of
       Some q \<Rightarrow> (Inr q, st)
     | None \<Rightarrow> (case aq_variant_set_id aq of
         None \<Rightarrow> (Inl AssertionError, st)
       | Some set_id \<Rightarrow>
           let variants = set_variants set_id st in
           if variants = []
           then (Inl (HTTPException 404 ''a variant set in this assessment has no variants.''), st)
           else
             let cursor = count_where (\<lambda>r. sv_assessment_question_id r = aq_id aq) (t_slot_variants st);
                 chosen = variants ! (cursor mod length variants);
                 st1 = others st
             in (case slot_row v email (aq_id aq) st1 of
                   Some raced \<Rightarrow> (case get_question (sv_question_id raced) st1 of
                       None \<Rightarrow> (Inl AssertionError, st1) | Some q \<Rightarrow> (Inr q, st1))
                 | None \<Rightarrow> (Inr chosen, st1\<lparr>t_slot_variants := t_slot_variants st1 @
                     [\<lparr>sv_id = fresh_id sv_id (t_slot_variants st1), sv_invite_id = inv_id v,
                       sv_candidate_email = email, sv_assessment_question_id = aq_id aq,
                       sv_question_id = q_id chosen\<rparr>]\<rparr>))))"

definition slot_question :: "(store \<Rightarrow> store) \<Rightarrow> invite \<Rightarrow> string option \<Rightarrow> assessment_question \<Rightarrow> store \<Rightarrow>
    (question list, store) outcome" where
  "slot_question others v email aq st =
    (case aq_variant_set_id aq of
       Some set_id \<Rightarrow> (case email of
           Some e \<Rightarrow> bindr (resolve_slot_variant others v aq e st) (\<lambda>q st1. (Inr [q], st1))
         | None \<Rightarrow> (Inr (take 1 (set_variants set_id st)), st))
     | None \<Rightarrow> (Inr (case Option.bind (aq_question_id aq) (\<lambda>i. get_question i st) of
                     None \<Rightarrow> [] | Some q \<Rightarrow> [q]), st))"

fun slot_questions :: "interference \<Rightarrow> invite \<Rightarrow> string option \<Rightarrow> nat \<Rightarrow> assessment_question list \<Rightarrow> store \<Rightarrow>
    (question list, store) outcome" where
  "slot_questions others v email k [] st = (Inr [], st)"
| "slot_questions others v email k (aq # aqs) st =
     bindr (slot_question (others k) v email aq st) (\<lambda>qs st1.
     bindr (slot_questions others v email (Suc k) aqs st1) (\<lambda>rest st2. (Inr (qs @ rest), st2)))"

definition invite_questions :: "interference \<Rightarrow> invite \<Rightarrow> string option \<Rightarrow> store \<Rightarrow> (question list, store) outcome" where
  "invite_questions others v email st =
    (case inv_assessment_id v of
       Some i \<Rightarrow> (case get_assessment i st of
           None \<Rightarrow> (Inl (HTTPException 404 ''this assessment no longer exists.''), st)
         | Some a \<Rightarrow> bindr (slot_questions others v email 0 (assessment_slots a st) st) (\<lambda>qs st1.
             if qs = [] then (Inl (HTTPException 404 ''this assessment has no questions.''), st1)
             else (Inr qs, st1)))
     | None \<Rightarrow> (case Option.bind (inv_question_id v) (\<lambda>i. if i = [] then None else get_question i st) of
           None \<Rightarrow> (Inl (HTTPException 404 ''the question for this invite no longer exists.''), st)
         | Some q \<Rightarrow> (Inr [q], st)))"

definition resolve_question :: "interference \<Rightarrow> invite \<Rightarrow> string option \<Rightarrow> string \<Rightarrow> store \<Rightarrow> (question, store) outcome" where
  "resolve_question others v qid email st =
    bindr (invite_questions others v (Some email) st) (\<lambda>qs st1.
      case qid of
        None \<Rightarrow> (if length qs = 1 then (Inr (hd qs), st1)
                 else (Inl (HTTPException 400 ''question_id is required for a multi-question assessment.''), st1))
      | Some i \<Rightarrow> (case first_where (\<lambda>q. q_id q = i) qs of
            None \<Rightarrow> (Inl (HTTPException 404 ''that question is not part of this invite.''), st1)
          | Some q \<Rightarrow> (Inr q, st1)))"

subsection \<open>The attempt\<close>

definition deadline_for :: "instant \<Rightarrow> int option \<Rightarrow> instant option" where
  "deadline_for started duration = map_option (\<lambda>d. started + minutes d) duration"

definition invite_org_id :: "invite \<Rightarrow> store \<Rightarrow> exn + int" where
  "invite_org_id v st =
    (case Option.bind (invite_org v st) o_id of
       Some i \<Rightarrow> Inr i
     | None \<Rightarrow> Inl (HTTPException 500 ''invite belongs to no organisation.''))"

definition link_unavailable :: exn where
  "link_unavailable = HTTPException 503
     ''this assessment link is not available right now; please contact whoever invited you.''"

definition hide_quota :: "exn \<Rightarrow> exn" where
  "hide_quota e = (case e of
     HTTPException s d \<Rightarrow> if s \<noteq> 402 then e else link_unavailable | _ \<Rightarrow> e)"

text \<open>\<open>_claim_sitting\<close>.\<close>

definition claim_one_sitting :: "settings \<Rightarrow> interference \<Rightarrow> instant \<Rightarrow> int \<Rightarrow> store \<Rightarrow> (unit, store) outcome" where
  "claim_one_sitting c others now org_id st =
    guardr (organization_row org_id st) st (\<lambda>org.
      case consume c others now org Sittings 1 st of
        (Inl e, st1) \<Rightarrow> (Inl (hide_quota e), st1)
      | (Inr u, st1) \<Rightarrow> (Inr u, st1))"

definition no_consent :: exn where
  "no_consent = HTTPException 422 ''you must agree to the privacy notice and terms before starting.''"

definition new_attempt :: "settings \<Rightarrow> instant \<Rightarrow> invite \<Rightarrow> string \<Rightarrow> string option \<Rightarrow> store \<Rightarrow> candidate_attempt" where
  "new_attempt c now v email name st =
     \<lparr>at_id = fresh_id at_id (t_attempts st), at_invite_id = inv_id v, at_candidate_email = email,
      at_candidate_name = name, at_started_at = now, at_consent_at = Some now,
      at_consent_version = Some (c_privacy_policy_version c), at_results_notified_at = None,
      at_erased_at = None\<rparr>"

definition refresh_attempt :: "int \<Rightarrow> store \<Rightarrow> exn + candidate_attempt" where
  "refresh_attempt i st = (case first_where (\<lambda>r. at_id r = i) (t_attempts st) of
     None \<Rightarrow> Inl (RuntimeError ''could not refresh instance'') | Some a \<Rightarrow> Inr a)"

definition backfill_name :: "int \<Rightarrow> string option \<Rightarrow> store \<Rightarrow> store" where
  "backfill_name i name st =
     st\<lparr>t_attempts := upd_where (\<lambda>r. at_id r = i) (\<lambda>r. r\<lparr>at_candidate_name := name\<rparr>) (t_attempts st)\<rparr>"

definition get_or_start_attempt :: "settings \<Rightarrow> interference \<Rightarrow> instant \<Rightarrow> invite \<Rightarrow> string \<Rightarrow> string option \<Rightarrow> bool \<Rightarrow>
    store \<Rightarrow> (candidate_attempt, store) outcome" where
  "get_or_start_attempt c others now v email name consent st =
    (case find_attempt (inv_id v) email st of
       Some a \<Rightarrow>
         if at_candidate_name a = None \<and> name \<noteq> None
         then let st1 = backfill_name (at_id a) name (others 0 st) in
              guardr (refresh_attempt (at_id a) st1) st1 (\<lambda>a1. (Inr a1, st1))
         else (Inr a, st)
     | None \<Rightarrow>
         if \<not> consent then (Inl no_consent, st)
         else guardr (invite_org_id v st) st (\<lambda>org_id.
           bindr (claim_one_sitting c others now org_id st) (\<lambda>_ st1.
             let st2 = others 2 st1 in
             case find_attempt (inv_id v) email st2 of
               Some raced \<Rightarrow>
                 bindr (release (\<lambda>_. others 3) now org_id Sittings 1 st2) (\<lambda>_ st3. (Inr raced, st3))
             | None \<Rightarrow>
                 let a = new_attempt c now v email name st2 in
                 (Inr a, st2\<lparr>t_attempts := t_attempts st2 @ [a]\<rparr>))))"

definition submit_is_late :: "settings \<Rightarrow> instant \<Rightarrow> invite \<Rightarrow> candidate_attempt \<Rightarrow> bool" where
  "submit_is_late c now v a =
    (case deadline_for (at_started_at a) (invite_duration v) of
       None \<Rightarrow> False
     | Some deadline \<Rightarrow> now > deadline + seconds (c_submit_grace_seconds c))"

subsection \<open>A slot's variant is frozen\<close>

lemma set_variants_in: "q \<in> set (set_variants i st) \<Longrightarrow> q \<in> set (t_questions st) \<and> q_variant_set_id q = Some i"
  by (simp add: set_variants_def)

lemma get_question_unique:
  "unique_key q_id (t_questions st) \<Longrightarrow> q \<in> set (t_questions st) \<Longrightarrow> get_question (q_id q) st = Some q"
  unfolding get_question_def by (rule find_unique)

lemma slot_row_snoc:
  assumes "slot_row v e k st = None" and "sv_key r = (inv_id v, e, k)"
  shows "slot_row v e k (st\<lparr>t_slot_variants := t_slot_variants st @ [r]\<rparr>) = Some r"
  using assms by (simp add: slot_row_def find_append)

text \<open>What a successful resolution leaves: the row of the slot, and the variant it names.\<close>

lemma resolve_slot_variant_row:
  assumes "resolve_slot_variant others v aq e st = (Inr q, st')"
    and "unique_key q_id (t_questions (others st))" and "set (t_questions st) \<subseteq> set (t_questions (others st))"
  shows "\<exists>r. slot_row v e (aq_id aq) st' = Some r \<and> get_question (sv_question_id r) st' = Some q"
proof (cases "Option.bind (slot_row v e (aq_id aq) st) (\<lambda>r. get_question (sv_question_id r) st)")
  case (Some q0)
  then have "st' = st" "q = q0" using assms(1) by (simp_all add: resolve_slot_variant_def)
  with Some show ?thesis by (cases "slot_row v e (aq_id aq) st") auto
next
  case None
  then obtain i where i: "aq_variant_set_id aq = Some i"
    using assms(1) by (cases "aq_variant_set_id aq") (simp_all add: resolve_slot_variant_def)
  let ?vs = "set_variants i st"
  let ?n = "count_where (\<lambda>r. sv_assessment_question_id r = aq_id aq) (t_slot_variants st)"
  have ne: "?vs \<noteq> []" using assms(1) None i by (auto simp: resolve_slot_variant_def)
  show ?thesis
  proof (cases "slot_row v e (aq_id aq) (others st)")
    case (Some raced)
    then show ?thesis
      using assms(1) None i ne by (auto simp: resolve_slot_variant_def Let_def split: option.splits)
  next
    case fresh: None
    let ?q = "?vs ! (?n mod length ?vs)"
    have q: "q = ?q" and st': "st' = (others st)\<lparr>t_slot_variants := t_slot_variants (others st) @
        [\<lparr>sv_id = fresh_id sv_id (t_slot_variants (others st)), sv_invite_id = inv_id v,
          sv_candidate_email = e, sv_assessment_question_id = aq_id aq, sv_question_id = q_id ?q\<rparr>]\<rparr>"
      using assms(1) None i ne fresh by (auto simp: resolve_slot_variant_def Let_def)
    have "?q \<in> set ?vs" using ne by simp
    then have "?q \<in> set (t_questions (others st))" using set_variants_in assms(3) by blast
    then have "get_question (q_id ?q) (others st) = Some ?q" using get_question_unique assms(2) by blast
    then show ?thesis
      using slot_row_snoc [OF fresh] by (simp add: st' q sv_key_def get_question_def)
  qed
qed

lemma resolve_slot_variant_again:
  assumes "slot_row v e (aq_id aq) st = Some r" and "get_question (sv_question_id r) st = Some q"
  shows "resolve_slot_variant others v aq e st = (Inr q, st)"
  using assms by (simp add: resolve_slot_variant_def)

text \<open>
  Once a candidate has been given a variant of a slot, every later resolution gives the same
  one and writes nothing, whatever siblings commit meanwhile, as long as they keep the candidate's
  row and the variant itself: a reload or another device never changes the question.
\<close>

theorem variant_frozen:
  assumes "resolve_slot_variant others v aq e st = (Inr q, st')"
    and "unique_key q_id (t_questions (others st))" and "set (t_questions st) \<subseteq> set (t_questions (others st))"
    and "slot_row v e (aq_id aq) later = slot_row v e (aq_id aq) st'"
    and "get_question (q_id q) later = get_question (q_id q) st'"
  shows "resolve_slot_variant others' v aq e later = (Inr q, later)"
proof -
  obtain r where r: "slot_row v e (aq_id aq) st' = Some r" "get_question (sv_question_id r) st' = Some q"
    using resolve_slot_variant_row [OF assms(1-3)] by blast
  have "q_id q = sv_question_id r" using get_question_SomeD [OF r(2)] by simp
  then show ?thesis using r assms(4,5) by (intro resolve_slot_variant_again) simp_all
qed

definition slot_count_of :: "assessment_question \<Rightarrow> store \<Rightarrow> nat" where
  "slot_count_of aq st = count_where (\<lambda>r. sv_assessment_question_id r = aq_id aq) (t_slot_variants st)"

definition variant_of :: "string \<Rightarrow> string \<Rightarrow> question" where
  "variant_of i label = example_question\<lparr>q_id := i, q_variant_set_id := Some ''set'', q_variant_label := Some label\<rparr>"

definition example_slot :: assessment_question where
  "example_slot = \<lparr>aq_id = 7, aq_assessment_id = ''a1'', aq_question_id = None,
     aq_variant_set_id = Some ''set'', aq_position = 0\<rparr>"

definition variants_store :: store where
  "variants_store = empty_store\<lparr>t_questions := [variant_of ''qb'' ''B'', variant_of ''qa'' ''A'']\<rparr>"

lemma variants_store_facts:
  "set_variants ''set'' variants_store = [variant_of ''qa'' ''A'', variant_of ''qb'' ''B'']"
  "unique_key q_id (t_questions variants_store)"
  "aq_variant_set_id example_slot = Some ''set''"
  "slot_row v e k variants_store = None"
  "slot_count_of aq variants_store = 0"
  by (simp_all add: variants_store_def set_variants_def variant_of_def example_slot_def label_key_def code_def
      unique_key_def slot_row_def slot_count_of_def empty_store_def)

lemma variant_frozen_witness:
  "fst (resolve_slot_variant id example_invite example_slot ''ada@x.org''
     (snd (resolve_slot_variant id example_invite example_slot ''ada@x.org'' variants_store))) =
   Inr (variant_of ''qa'' ''A'')"
proof -
  let ?r = "resolve_slot_variant id example_invite example_slot ''ada@x.org'' variants_store"
  have "fst ?r = Inr (variant_of ''qa'' ''A'')"
    by (simp add: resolve_slot_variant_def variants_store_facts Let_def count_where_def)
       (simp add: variants_store_def empty_store_def)
  then have "?r = (Inr (variant_of ''qa'' ''A''), snd ?r)" by (metis prod.collapse)
  from variant_frozen [OF this _ _ refl refl] show ?thesis by (simp add: variants_store_facts)
qed

subsection \<open>The pool of variants is used evenly\<close>

text \<open>The candidates of one slot, resolved one after the other.\<close>

fun serve :: "invite \<Rightarrow> assessment_question \<Rightarrow> string list \<Rightarrow> store \<Rightarrow> (exn + question) list" where
  "serve v aq [] st = []"
| "serve v aq (e # es) st =
     (case resolve_slot_variant id v aq e st of (r, st') \<Rightarrow> r # serve v aq es st')"

lemma serve_round_robin:
  assumes "aq_variant_set_id aq = Some i" and "set_variants i st \<noteq> []" and "distinct es"
    and "\<And>e. e \<in> set es \<Longrightarrow> slot_row v e (aq_id aq) st = None"
  shows "serve v aq es st = map (\<lambda>k. Inr (set_variants i st ! ((slot_count_of aq st + k) mod length (set_variants i st))))
                              [0..<length es]"
  using assms
proof (induction es arbitrary: st)
  case Nil
  then show ?case by simp
next
  case (Cons e es)
  let ?vs = "set_variants i st" and ?n = "slot_count_of aq st"
  let ?row = "\<lparr>sv_id = fresh_id sv_id (t_slot_variants st), sv_invite_id = inv_id v, sv_candidate_email = e,
    sv_assessment_question_id = aq_id aq, sv_question_id = q_id (?vs ! (?n mod length ?vs))\<rparr>"
  let ?st = "st\<lparr>t_slot_variants := t_slot_variants st @ [?row]\<rparr>"
  have none: "slot_row v e (aq_id aq) st = None" using Cons.prems(4) by simp
  then have first: "resolve_slot_variant id v aq e st = (Inr (?vs ! (?n mod length ?vs)), ?st)"
    using Cons.prems(1,2) by (simp add: resolve_slot_variant_def Let_def slot_count_of_def)
  have vs: "set_variants i ?st = ?vs" by (simp add: set_variants_def)
  have n: "slot_count_of aq ?st = Suc ?n" by (simp add: slot_count_of_def)
  have rest: "slot_row v f (aq_id aq) ?st = None" if "f \<in> set es" for f
  proof -
    have "f \<noteq> e" using Cons.prems(3) that by auto
    then show ?thesis using Cons.prems(4) [of f] that by (simp add: slot_row_def find_append sv_key_def)
  qed
  have "serve v aq es ?st = map (\<lambda>k. Inr (?vs ! ((Suc ?n + k) mod length ?vs))) [0..<length es]"
    using Cons.IH [of ?st] Cons.prems rest unfolding vs n by simp
  moreover have "[0..<length (e # es)] = 0 # map Suc [0..<length es]"
    by (simp only: list.size(4) add_Suc_right add_0_right upt_conv_Cons map_Suc_upt zero_less_Suc if_True)
  ultimately show ?case using first by simp
qed

lemma count_mod:
  assumes "j < n"
  shows "count_where (\<lambda>k. k mod n = j) [0..<m] = m div n + (if j < m mod n then 1 else 0)"
proof (induction m)
  case 0
  then show ?case by simp
next
  case (Suc m)
  have n: "0 < n" using assms by simp
  show ?case
  proof (cases "Suc (m mod n) = n")
    case True
    then have "Suc m mod n = 0" "Suc m div n = Suc (m div n)" by (simp_all add: mod_Suc div_Suc)
    moreover have "j < m mod n \<or> m mod n = j" using True assms by linarith
    ultimately show ?thesis using Suc by auto
  next
    case False
    then have "Suc m mod n = Suc (m mod n)" "Suc m div n = m div n" by (simp_all add: mod_Suc div_Suc)
    then show ?thesis using Suc by (auto simp: less_Suc_eq)
  qed
qed

text \<open>
  The candidates of a slot are dealt its variants in turn: after \<open>m\<close> of them each of the \<open>n\<close>
  variants has been given out \<open>m div n\<close> times or once more, so no variant is over-exposed.
\<close>

theorem variants_dealt_evenly:
  assumes "aq_variant_set_id aq = Some i" and "set_variants i st \<noteq> []" and "distinct es"
    and "\<And>e. e \<in> set es \<Longrightarrow> slot_row v e (aq_id aq) st = None" and "slot_count_of aq st = 0"
    and "distinct (set_variants i st)" and "q \<in> set (set_variants i st)"
  shows "count_where (\<lambda>r. r = Inr q) (serve v aq es st) \<in>
    {length es div length (set_variants i st), length es div length (set_variants i st) + 1}"
proof -
  let ?vs = "set_variants i st" and ?m = "length es"
  obtain j where j: "j < length ?vs" "?vs ! j = q" using assms(7) by (auto simp: in_set_conv_nth)
  have eq: "?vs ! (k mod length ?vs) = q \<longleftrightarrow> k mod length ?vs = j" for k
    using j assms(2,6) nth_eq_iff_index_eq [of ?vs "k mod length ?vs" j] by simp
  have "serve v aq es st = map (\<lambda>k. Inr (?vs ! (k mod length ?vs))) [0..<?m]"
    using serve_round_robin [OF assms(1-4)] assms(5) by simp
  then have "count_where (\<lambda>r. r = Inr q) (serve v aq es st) = count_where (\<lambda>k. k mod length ?vs = j) [0..<?m]"
    by (simp add: count_where_def filter_map comp_def eq)
  then show ?thesis using count_mod [OF j(1), of ?m] by simp
qed

lemma variants_dealt_evenly_witness:
  "count_where (\<lambda>r. r = Inr (variant_of ''qb'' ''B''))
     (serve example_invite example_slot [''a@x'', ''b@x'', ''c@x''] variants_store) \<in> {1, 2}"
proof -
  let ?es = "[''a@x'', ''b@x'', ''c@x'']"
  have d: "distinct (set_variants ''set'' variants_store)"
    "variant_of ''qb'' ''B'' \<in> set (set_variants ''set'' variants_store)"
    by (simp_all add: variants_store_facts) (simp add: variant_of_def example_question_def)
  have n: "length ?es = 3" "length (set_variants ''set'' variants_store) = 2"
    by (simp_all add: variants_store_facts)
  have q: "(3 :: nat) div 2 = 1" by simp
  have "set_variants ''set'' variants_store \<noteq> []" "distinct ?es" by (simp_all add: variants_store_facts)
  from variants_dealt_evenly [OF variants_store_facts(3) this variants_store_facts(4,5) d, where v = example_invite]
  show ?thesis unfolding n q by (simp only: one_add_one)
qed

subsection \<open>A sitting is billed once\<close>

lemma current_usage_cong:
  assumes "t_usage s = t_usage s'"
  shows "current_usage i now s = current_usage i now s'"
  unfolding current_usage_def usage_def find_usage_def carried_from_previous_def assms ..

lemma consume_cong:
  assumes "others 0 = others' 0" and "others 1 = others' 1"
  shows "consume c others now org mt n st = consume c others' now org mt n st"
  unfolding consume_def settled_usage_def record_usage_def assms ..

lemma invite_org_id_InrD:
  assumes "invite_org_id v st = Inr i"
  shows "\<exists>org. get_org i st = Some org \<and> o_id org = Some i"
proof -
  obtain org where org: "invite_org v st = Some org" "o_id org = Some i"
    using assms by (cases "invite_org v st") (auto simp: invite_org_id_def split: option.splits)
  then obtain k where "get_org k st = Some org" by (auto simp: invite_org_def Let_def split: option.splits)
  with org show ?thesis using get_org_SomeD by fastforce
qed

text \<open>The first call of a candidate, in terms of the claim.\<close>

lemma start_unfold:
  assumes "find_attempt (inv_id v) e st = None" and "invite_org_id v st = Inr i" and "get_org i st = Some org"
  shows "get_or_start_attempt c others now v e name True st =
    (case consume c others now org Sittings 1 st of
       (Inl x, s) \<Rightarrow> (Inl (hide_quota x), s)
     | (Inr _, s) \<Rightarrow> let s2 = others 2 s in
         (case find_attempt (inv_id v) e s2 of
            Some raced \<Rightarrow> bindr (release (\<lambda>_. others 3) now i Sittings 1 s2) (\<lambda>_ s3. (Inr raced, s3))
          | None \<Rightarrow> let a = new_attempt c now v e name s2 in (Inr a, s2\<lparr>t_attempts := t_attempts s2 @ [a]\<rparr>)))"
  using assms
  by (simp add: get_or_start_attempt_def claim_one_sitting_def organization_row_def split: prod.splits sum.splits)

lemma consume_keeps_attempts: "t_attempts (snd (consume c alone now org mt n st)) = t_attempts st"
  by (rule consume_keeps [where P = "\<lambda>s. t_attempts s = t_attempts st"]) (simp_all add: usage_free_def alone_simp)

lemma hide_quota_402: "hide_quota (quota_error org mt l) = link_unavailable"
proof -
  have "\<exists>d. quota_error org mt l = HTTPException 402 d" unfolding quota_error_def Let_def by blast
  then show ?thesis by (auto simp: hide_quota_def)
qed

text \<open>
  Beginning a sitting counts exactly one unit of the organisation's month and creates exactly
  one attempt, whose clock starts now; with the allowance used up the candidate gets the 503 and
  neither moves. Coming back - later, with another name, with or without consent - returns the same
  attempt with the same clock and counts nothing.
\<close>

theorem sitting_billed_once:
  fixes name :: "string option"
  assumes "c_billing_enforced c" and "usage_ok st" and "0 \<le> now" and "invite_org_id v st = Inr i"
    and "get_org i st = Some org" and "find_attempt (inv_id v) e st = None" and "unique_key at_id (t_attempts st)"
  defines "r \<equiv> get_or_start_attempt c alone now v e name True st"
    and "used \<equiv> \<lambda>s. u_sittings (current_usage i now s)" and "a \<equiv> new_attempt c now v e name st"
  shows "if used st + 1 \<le> allowance org Sittings (current_usage i now st)
    then fst r = Inr a \<and> t_attempts (snd r) = t_attempts st @ [a] \<and> used (snd r) = used st + 1 \<and>
      (\<exists>b. fst (get_or_start_attempt c alone later v e name' consent' (snd r)) = Inr b \<and>
         at_id b = at_id a \<and> at_started_at b = now \<and>
         used (snd (get_or_start_attempt c alone later v e name' consent' (snd r))) = used st + 1)
    else fst r = Inl link_unavailable \<and> t_attempts (snd r) = t_attempts st \<and> used (snd r) = used st"
proof -
  let ?cl = "consume c alone now org Sittings 1 st"
  have oi: "o_id org = Some i" using invite_org_id_InrD [OF assms(4)] assms(5) by simp
  note claim = consume_outcome [OF assms(1) _ oi assms(2,3), of 1 Sittings, simplified]
  have same: "t_attempts (snd ?cl) = t_attempts st" by (rule consume_keeps_attempts)
  then have new: "new_attempt c now v e name (snd ?cl) = a" "find_attempt (inv_id v) e (snd ?cl) = None"
    using assms(6) by (simp_all add: a_def new_attempt_def find_attempt_def)
  note start = start_unfold [OF assms(6,4,5), of c alone now name, folded r_def]
  show ?thesis
  proof (cases "used st + 1 \<le> allowance org Sittings (current_usage i now st)")
    case False
    then have "fst ?cl = Inl (quota_error org (Monthly Sittings) (Some (allowance org Sittings (current_usage i now st))))"
      using claim by (simp add: used_def)
    then have "r = (Inl link_unavailable, snd ?cl)"
      using start by (cases ?cl) (simp add: hide_quota_402)
    then show ?thesis using False claim same by (simp add: used_def)
  next
    case True
    then have "fst ?cl = Inr ()" using claim by (simp add: used_def)
    then have r: "r = (Inr a, (snd ?cl)\<lparr>t_attempts := t_attempts st @ [a]\<rparr>)"
      using start new same by (cases ?cl) (simp add: alone_simp Let_def)
    have u: "used (snd r) = used st + 1"
      using claim True current_usage_cong [of "snd r" "snd ?cl"] by (simp add: used_def r)
    have a: "find_attempt (inv_id v) e (snd r) = Some a"
      using assms(6) by (simp add: r find_attempt_def find_append a_def new_attempt_def at_key_def)
    have fresh: "at_id b \<noteq> at_id a" if "b \<in> set (t_attempts st)" for b
      using fresh_id_notin [of at_id "t_attempts st"] that by (auto simp: a_def new_attempt_def image_iff)
    have refresh: "refresh_attempt (at_id a) (backfill_name (at_id a) m (snd r)) = Inr (a\<lparr>at_candidate_name := m\<rparr>)" for m
      using fresh by (simp add: r refresh_attempt_def backfill_name_def find_append find_None_iff' [THEN iffD2] in_upd_where)
    have "u_sittings (current_usage i now (backfill_name k m (snd r))) = used st + 1" for k m
      using u current_usage_cong [of "backfill_name k m (snd r)" "snd r"] by (simp add: used_def backfill_name_def)
    then have "\<exists>b. fst (get_or_start_attempt c alone later v e name' consent' (snd r)) = Inr b \<and>
         at_id b = at_id a \<and> at_started_at b = now \<and>
         used (snd (get_or_start_attempt c alone later v e name' consent' (snd r))) = used st + 1"
      using a refresh u by (simp add: get_or_start_attempt_def alone_simp used_def) (simp add: a_def new_attempt_def)
    then show ?thesis using True r u by simp
  qed
qed

definition start_store :: store where
  "start_store = empty_store\<lparr>t_orgs := [example_org], t_questions := [example_question],
     t_invites := [example_invite]\<rparr>"

lemma start_store_facts:
  "usage_ok start_store"
  "invite_org_id example_invite start_store = Inr 1"
  "get_org 1 start_store = Some example_org"
  "find_attempt (inv_id example_invite) e start_store = None"
  "unique_key at_id (t_attempts start_store)"
  "c_billing_enforced default_settings"
  "current_usage 1 0 start_store = usage_row None 1 (period_key 0) (0, 0)"
  by (simp_all add: start_store_def usage_ok_def empty_store_def invite_org_id_def invite_org_def example_invite_def
      get_question_def example_question_def get_org_def example_org_def find_attempt_def default_settings_def
      current_usage_fresh find_usage_def)

lemma sitting_billed_once_witness:
  "fst (get_or_start_attempt default_settings alone 0 example_invite ''ada@x.org'' None True start_store) =
   Inr (new_attempt default_settings 0 example_invite ''ada@x.org'' None start_store)"
  using sitting_billed_once [OF start_store_facts(6,1) _ start_store_facts(2-4,5), of 0 "''ada@x.org''" None]
  by (simp add: start_store_facts allowance_def usage_row_def)

text \<open>
  When a sibling's request (a double click) creates the attempt between this request's look and
  its INSERT, this request returns the sibling's attempt and hands its claim back: the organisation
  is charged for one sitting.
\<close>

theorem race_loser_hands_back:
  fixes name :: "string option"
  assumes "c_billing_enforced c" and "usage_ok st" and "0 \<le> now" and "invite_org_id v st = Inr i"
    and "get_org i st = Some org" and "find_attempt (inv_id v) e st = None"
    and "others 0 = id" and "others 1 = id" and "others 3 = id" and "\<And>s. t_usage (others 2 s) = t_usage s"
    and "\<And>s. find_attempt (inv_id v) e (others 2 s) = Some a"
    and "u_sittings (current_usage i now st) + 1 \<le> allowance org Sittings (current_usage i now st)"
    and "0 \<le> u_sittings (current_usage i now st)"
  defines "r \<equiv> get_or_start_attempt c others now v e name True st"
  shows "fst r = Inr a \<and> u_sittings (current_usage i now (snd r)) = u_sittings (current_usage i now st)"
proof -
  let ?cl = "consume c alone now org Sittings 1 st" and ?u = "u_sittings (current_usage i now st)"
  let ?s2 = "others 2 (snd ?cl)"
  have oi: "o_id org = Some i" using invite_org_id_InrD [OF assms(4)] assms(5) by simp
  note claim = consume_outcome [OF assms(1) _ oi assms(2,3), of 1 Sittings, simplified]
  have "consume c others now org Sittings 1 st = ?cl"
    by (rule consume_cong) (simp_all only: assms(7,8) alone_id)
  moreover have one: "fst ?cl = Inr ()" "u_sittings (current_usage i now (snd ?cl)) = ?u + 1" "usage_ok (snd ?cl)"
    using claim assms(12) by simp_all
  moreover have "(\<lambda>_ :: nat. others 3) = alone" by (simp add: assms(9) fun_eq_iff alone_simp)
  ultimately have r: "r = bindr (release alone now i Sittings 1 ?s2) (\<lambda>_ s3. (Inr a, s3))"
    using start_unfold [OF assms(6,4,5), of c others now name, folded r_def] assms(11)
    by (cases ?cl) (simp add: Let_def)
  have ok: "usage_ok ?s2" using one(3) assms(10) by (simp add: usage_ok_def)
  have u2: "u_sittings (current_usage i now ?s2) = ?u + 1"
    using one(2) current_usage_cong [OF assms(10)] by simp
  note handed = release_outcome [OF ok assms(3), of i Sittings 1]
  have "fst (release alone now i Sittings 1 ?s2) = Inr ()" using handed by simp
  then have r': "r = (Inr a, snd (release alone now i Sittings 1 ?s2))"
    by (simp add: r) (metis bindr.simps(2) prod.collapse)
  obtain row where row: "find_usage i (period_key now) ?s2 = Some row"
    using u2 assms(13) by (cases "find_usage i (period_key now) ?s2")
       (use current_usage_fresh [OF assms(3)] in \<open>auto simp: usage_row_def\<close>)
  then have "find_usage i (period_key now) (snd r) = Some (set_count Sittings (max 0 (u_sittings row - 1)) row)"
    using handed by (simp add: r')
  then show ?thesis
    using row u2 assms(13) current_usage_found by (simp add: r')
qed

definition double_click :: interference where
  "double_click k st = (if k = 2 then st\<lparr>t_attempts := example_attempt # t_attempts st\<rparr> else st)"

lemma race_loser_hands_back_witness:
  "u_sittings (current_usage 1 0 (snd (get_or_start_attempt default_settings double_click 0 example_invite
     ''ada@x.org'' None True start_store))) = 0"
proof -
  have o: "double_click 0 = id" "double_click 1 = id" "double_click 3 = id"
    "\<And>s. t_usage (double_click 2 s) = t_usage s"
    "\<And>s. find_attempt (inv_id example_invite) ''ada@x.org'' (double_click 2 s) = Some example_attempt"
    by (simp_all add: double_click_def fun_eq_iff find_attempt_def at_key_def example_attempt_def example_invite_def)
  show ?thesis
    using race_loser_hands_back [OF start_store_facts(6,1) _ start_store_facts(2-4) o, of 0 None]
    by (simp add: start_store_facts allowance_def usage_row_def)
qed

end
