(* ===== verification/Grading.thy ===== *)
theory Grading
  imports Billing Notify Access
begin

section \<open>Grading: from a submission to its result\<close>

text \<open>
  The durable grading path of \<open>api.py\<close>: \<open>cas\<close> is the compare-and-swap on a submission row,
  \<open>trigger_agent\<close> asks the agent to grade, \<open>reap_tick\<close> picks up what was stranded,
  \<open>assessments_callback\<close> stores what the agent reports and \<open>retry_submission\<close> starts over. A
  row is \<open>pending\<close>, \<open>running\<close>, \<open>done\<close> or \<open>error\<close>; its version token is the pair of its status and its
  number of attempts.

  The agent is a parameter. While a handler waits for it, other handlers commit: that is the
  argument \<open>others\<close>. One \<open>now\<close> stands for the clock during a handler.
\<close>

subsection \<open>The compare-and-swap\<close>

type_synonym token = "string \<times> int"

definition cas :: "string \<Rightarrow> instant \<Rightarrow> (submission \<Rightarrow> submission) \<Rightarrow> token \<Rightarrow> submission list \<Rightarrow>
    bool \<times> submission list" where
  "cas i now values expect t =
    (let hit = (\<lambda>r. s_id r = i \<and> s_status r = fst expect \<and> s_attempts r = snd expect) in
     (0 < count_where hit t, upd_where hit (\<lambda>r. (values r)\<lparr>s_updated_at := now\<rparr>) t))"

text \<open>\<open>session.refresh(sub)\<close>: the row as the database has it.\<close>

definition refresh :: "string \<Rightarrow> store \<Rightarrow> exn + submission" where
  "refresh i st = (case get_submission i st of
     None \<Rightarrow> Inl (RuntimeError ''could not refresh instance'') | Some s \<Rightarrow> Inr s)"

text \<open>\<open>_cas\<close>: swap, commit, refresh; the result is whether it won, with the refreshed row.\<close>

definition cas_row :: "string \<Rightarrow> instant \<Rightarrow> (submission \<Rightarrow> submission) \<Rightarrow> token \<Rightarrow> store \<Rightarrow>
    (bool \<times> submission, store) outcome" where
  "cas_row i now values expect st =
    (case cas i now values expect (t_submissions st) of
       (won, t) \<Rightarrow> let st1 = st\<lparr>t_submissions := t\<rparr> in
                    guardr (refresh i st1) st1 (\<lambda>s. (Inr (won, s), st1)))"

definition MAX_ERROR_REASON_CHARS :: nat where
  "MAX_ERROR_REASON_CHARS = 500"

definition end_sitting_if_complete :: "settings \<Rightarrow> (store \<Rightarrow> store) \<Rightarrow> instant \<Rightarrow> submission \<Rightarrow> store \<Rightarrow> store" where
  "end_sitting_if_complete c sibling now sub st =
    (case claim_sitting c sibling now sub st of
       (None, st1) \<Rightarrow> st1
     | (Some ready, st1) \<Rightarrow> st1\<lparr>outbox := outbox st1 @ [Deliver ready]\<rparr>)"

subsection \<open>Triggering the agent\<close>

definition claim_values :: "string \<Rightarrow> int \<Rightarrow> submission \<Rightarrow> submission" where
  "claim_values i attempt r = r\<lparr>s_status := ''pending'', s_agent_job_id := Some i,
     s_attempts := attempt, s_error_reason := None\<rparr>"

definition error_values :: "string \<Rightarrow> submission \<Rightarrow> submission" where
  "error_values reason r = r\<lparr>s_status := ''error'', s_error_reason := Some reason\<rparr>"

definition running_values :: "string \<Rightarrow> submission \<Rightarrow> submission" where
  "running_values job r = r\<lparr>s_status := ''running'', s_agent_job_id := Some job\<rparr>"

definition refusal_reason :: "string \<Rightarrow> string" where
  "refusal_reason det = take MAX_ERROR_REASON_CHARS (''the grader refused this submission: '' @ det)"

definition callback_url :: "settings \<Rightarrow> string" where
  "callback_url c = c_platform_base_url c @ ''/assessments/callback''"

text \<open>
  \<open>others 0\<close> is what commits while the agent is called, \<open>others 1\<close> what commits while the end of
  the sitting is decided.
\<close>

definition trigger_agent :: "settings \<Rightarrow> externals \<Rightarrow> (json \<Rightarrow> agent) \<Rightarrow> interference \<Rightarrow> instant \<Rightarrow>
    question \<Rightarrow> submission \<Rightarrow> store \<Rightarrow> (submission, store) outcome" where
  "trigger_agent c x agent others now q sub st =
    (let i = s_id sub; attempt = s_attempts sub + 1 in
     bindr (cas_row i now (claim_values i attempt) (s_status sub, s_attempts sub) st) (\<lambda>(claimed, sub1) st1.
       if \<not> claimed then (Inr sub1, st1)
       else
         let reply = trigger_assessment agent q sub1 (callback_url c) st1;
             st2 = others 0 st1
         in case reply of
              Inl e \<Rightarrow>
                (case trigger_refusal e of
                   None \<Rightarrow> (Inr sub1, st2)
                 | Some resp \<Rightarrow>
                     guardr (agent_detail x resp) st2 (\<lambda>det.
                     bindr (cas_row i now (error_values (refusal_reason det)) (''pending'', attempt) st2)
                       (\<lambda>(won, sub2) st3.
                         (Inr sub2, if won then end_sitting_if_complete c (others 1) now sub2 st3 else st3))))
            | Inr job \<Rightarrow>
                bindr (cas_row i now (running_values job) (''pending'', attempt) st2)
                  (\<lambda>(_, sub2) st3. (Inr sub2, st3))))"

subsection \<open>The reaper\<close>

definition gave_up_reason :: "int \<Rightarrow> string" where
  "gave_up_reason n = ''the grader never answered after '' @ show_int n @
     '' attempt(s); the submission was not graded.''"

definition grace_of :: "settings \<Rightarrow> submission \<Rightarrow> int" where
  "grace_of c sub = (if s_status sub = ''pending'' then c_trigger_retry_after_s c else c_reap_running_after_s c)"

text \<open>
  One stranded row. Every commit expires the loaded rows, so the row is read again when its turn
  comes.
\<close>

definition reap_one :: "settings \<Rightarrow> externals \<Rightarrow> (json \<Rightarrow> agent) \<Rightarrow> interference \<Rightarrow> instant \<Rightarrow>
    string \<Rightarrow> store \<Rightarrow> (string list, store) outcome" where
  "reap_one c x agent others now i st =
    guardr (refresh i st) st (\<lambda>sub.
      let grace = grace_of c sub in
      if grace \<le> 0 \<or> s_updated_at sub \<ge> now - seconds grace then (Inr [], st)
      else
        case (if s_attempts sub < c_max_trigger_attempts c then get_question (s_question_id sub) st else None) of
          Some q \<Rightarrow> bindr (trigger_agent c x agent others now q sub st) (\<lambda>_ st1. (Inr [i], st1))
        | None \<Rightarrow>
            bindr (cas_row i now (error_values (gave_up_reason (s_attempts sub)))
                     (s_status sub, s_attempts sub) st) (\<lambda>(won, sub1) st1.
              if won then (Inr [i], end_sitting_if_complete c (others 1) now sub1 st1)
              else (Inr [], st1)))"

fun reap_rows :: "settings \<Rightarrow> externals \<Rightarrow> (json \<Rightarrow> agent) \<Rightarrow> interference \<Rightarrow> instant \<Rightarrow>
    string list \<Rightarrow> store \<Rightarrow> (string list, store) outcome" where
  "reap_rows c x agent others now [] st = (Inr [], st)"
| "reap_rows c x agent others now (i # is) st =
     bindr (reap_one c x agent others now i st) (\<lambda>acted st1.
     bindr (reap_rows c x agent others now is st1) (\<lambda>rest st2. (Inr (acted @ rest), st2)))"

definition stranded :: "store \<Rightarrow> string list" where
  "stranded st = map s_id (filter (\<lambda>s. s_status s \<in> {''pending'', ''running''}) (t_submissions st))"

definition reap_tick :: "settings \<Rightarrow> externals \<Rightarrow> (json \<Rightarrow> agent) \<Rightarrow> interference \<Rightarrow> instant \<Rightarrow> store \<Rightarrow>
    (string list, store) outcome" where
  "reap_tick c x agent others now st = reap_rows c x agent others now (stranded st) st"

subsection \<open>The interviewer's routes\<close>

definition new_submission :: "string \<Rightarrow> string \<Rightarrow> int option \<Rightarrow> string \<Rightarrow> string option \<Rightarrow> string \<Rightarrow> string \<Rightarrow>
    bool \<Rightarrow> instant \<Rightarrow> submission" where
  "new_submission i qid invite_id candidate email language cd is_late now =
     \<lparr>s_id = i, s_question_id = qid, s_invite_id = invite_id, s_candidate = candidate,
      s_candidate_email = email, s_language = language, s_code = cd, s_status = ''pending'',
      s_late = is_late, s_agent_job_id = None, s_attempts = 0, s_error_reason = None,
      s_judge_cost_usd = None, s_created_at = now, s_updated_at = now\<rparr>"

text \<open>\<open>new_id\<close> is \<open>uuid.uuid4().hex\<close>.\<close>

definition create_submission :: "settings \<Rightarrow> externals \<Rightarrow> (json \<Rightarrow> agent) \<Rightarrow> interference \<Rightarrow> instant \<Rightarrow>
    string \<Rightarrow> membership \<Rightarrow> string \<Rightarrow> string \<Rightarrow> string \<Rightarrow> string \<Rightarrow> store \<Rightarrow> (submission, store) outcome" where
  "create_submission c x agent others now new_id org qid candidate language cd st =
    guardr (owned_question qid org st) st (\<lambda>q.
      let sub = new_submission new_id qid None candidate None language cd False now;
          st1 = st\<lparr>t_submissions := t_submissions st @ [sub]\<rparr>
      in trigger_agent c x agent others now q sub st1)"

definition retry_submission :: "settings \<Rightarrow> externals \<Rightarrow> (json \<Rightarrow> agent) \<Rightarrow> interference \<Rightarrow> instant \<Rightarrow>
    string \<Rightarrow> membership \<Rightarrow> store \<Rightarrow> (submission, store) outcome" where
  "retry_submission c x agent others now i org st =
    guardr (owned_submission i org st) st (\<lambda>sub.
      if s_status sub \<noteq> ''error''
      then (Inl (HTTPException 409 (''retry only allowed for submissions in status 'error'; this one is ''
                   @ py_repr (s_status sub) @ ''.'')), st)
      else (case get_question (s_question_id sub) st of
              None \<Rightarrow> (Inl (HTTPException 404 (''no question with id '' @ py_repr (s_question_id sub) @ ''.'')), st)
            | Some q \<Rightarrow> trigger_agent c x agent others now q sub (reopen_sitting sub st)))"

subsection \<open>The callback\<close>

type_synonym payload_dict = "(string \<times> json) list"

definition require_callback_token :: "settings \<Rightarrow> string option \<Rightarrow> exn + unit" where
  "require_callback_token c header = (case c_callback_token c of
     None \<Rightarrow> Inr ()
   | Some expected \<Rightarrow> require (secret_matches header expected)
       (HTTPException 401 ''invalid or missing X-Assess-Token.''))"

definition is_error_payload :: "payload_dict \<Rightarrow> string \<Rightarrow> bool" where
  "is_error_payload p verdict =
     (verdict = ''ERROR'' \<or> truthy (dict_get p ''error'') \<or> truthy (dict_get p ''infra_error''))"

text \<open>\<open>payload.get(k) or d\<close>.\<close>

definition get_or :: "payload_dict \<Rightarrow> string \<Rightarrow> json \<Rightarrow> json" where
  "get_or p k d = (if truthy (dict_get p k) then dict_get p k else d)"

datatype cb_reply = Ignored string | Requeued string | Accepted string

text \<open>
  The write of an ORM row: only the attributes whose value differs from the loaded one are
  set, and a row with none is not updated at all.
\<close>

definition orm_write :: "instant \<Rightarrow> submission \<Rightarrow> submission \<Rightarrow> submission \<Rightarrow> submission" where
  "orm_write now loaded new r =
    (if s_status new = s_status loaded \<and> s_judge_cost_usd new = s_judge_cost_usd loaded then r
     else r\<lparr>s_status := if s_status new = s_status loaded then s_status r else s_status new,
            s_judge_cost_usd := if s_judge_cost_usd new = s_judge_cost_usd loaded
                                then s_judge_cost_usd r else s_judge_cost_usd new,
            s_updated_at := now\<rparr>)"

definition write_submission :: "instant \<Rightarrow> submission \<Rightarrow> submission \<Rightarrow> store \<Rightarrow> store" where
  "write_submission now loaded new st =
     st\<lparr>t_submissions := upd_where (\<lambda>r. s_id r = s_id loaded) (orm_write now loaded new) (t_submissions st)\<rparr>"

definition write_result :: "instant \<Rightarrow> assessment_result option \<Rightarrow> string \<Rightarrow> string \<Rightarrow> rat \<Rightarrow> string \<Rightarrow>
    payload_dict \<Rightarrow> store \<Rightarrow> exn + store" where
  "write_result now existing sub_id verdict score reason p st =
    (case existing of
       Some e \<Rightarrow> Inr (st\<lparr>t_results := upd_where (\<lambda>r. r_id r = r_id e)
           (\<lambda>r. r\<lparr>r_verdict := verdict, r_score_pct := score, r_reason := reason, r_full_result := p\<rparr>)
           (t_results st)\<rparr>)
     | None \<Rightarrow>
         if exists_where (\<lambda>r. r_submission_id r = sub_id) (t_results st) then Inl IntegrityError
         else Inr (st\<lparr>t_results := t_results st @
             [\<lparr>r_id = fresh_id r_id (t_results st), r_submission_id = sub_id, r_verdict = verdict,
               r_score_pct = score, r_reason = reason, r_full_result = p, r_received_at = now\<rparr>]\<rparr>))"

text \<open>The reported cost: \<open>isinstance(v, (int, float))\<close>, of which a bool is one.\<close>

definition reported_cost :: "payload_dict \<Rightarrow> rat option" where
  "reported_cost p = (case dict_get p ''judge_cost_usd'' of
     JInt i \<Rightarrow> Some (of_int i) | JFloat r \<Rightarrow> Some r
   | JBool b \<Rightarrow> Some (if b then 1 else 0) | _ \<Rightarrow> None)"

text \<open>
  The last part of the handler: what follows once the payload is known to be a result.
  \<open>others 0\<close> commits between the reads and the commit, \<open>others 1\<close> and \<open>others 2\<close> while the cost
  and the end of the sitting are recorded.
\<close>

definition store_result :: "settings \<Rightarrow> externals \<Rightarrow> interference \<Rightarrow> instant \<Rightarrow> submission \<Rightarrow> string \<Rightarrow> bool \<Rightarrow>
    payload_dict \<Rightarrow> store \<Rightarrow> (cb_reply, store) outcome" where
  "store_result c x others now sub verdict is_error p st =
    (let reason = py_str x (get_or p ''reason'' (get_or p ''error'' (JStr []))) in
     guardr (py_float x (get_or p ''score_pct'' (JFloat 0))) st (\<lambda>score.
     let existing = first_where (\<lambda>r. r_submission_id r = s_id sub) (t_results st);
         old_cost = (case s_judge_cost_usd sub of None \<Rightarrow> 0 | Some v \<Rightarrow> v);
         delta = (case reported_cost p of None \<Rightarrow> 0 | Some v \<Rightarrow> v - old_cost);
         cost = (case reported_cost p of None \<Rightarrow> s_judge_cost_usd sub | Some v \<Rightarrow> Some v);
         new = sub\<lparr>s_status := if is_error then ''error'' else ''done'', s_judge_cost_usd := cost\<rparr>;
         st0 = others 0 st
     in guardr (write_result now existing (s_id sub) verdict score reason p st0) st0 (\<lambda>st1.
        let st2 = write_submission now sub new st1 in
        bindr (if delta = 0 then (Inr (), st2)
               else (case get_question (s_question_id sub) st2 of
                       None \<Rightarrow> (Inr (), st2)
                     | Some q \<Rightarrow> record_usage (\<lambda>_. others 1) now (q_org_id q)
                                   (no_delta\<lparr>dl_judge_cost_usd := delta\<rparr>) st2))
          (\<lambda>_ st3. guardr (refresh (s_id sub) st3) st3 (\<lambda>fresh.
             (Inr (Accepted (s_id sub)), end_sitting_if_complete c (others 2) now fresh st3))))))"

definition assessments_callback :: "settings \<Rightarrow> externals \<Rightarrow> interference \<Rightarrow> instant \<Rightarrow> payload_dict \<Rightarrow>
    store \<Rightarrow> (cb_reply, store) outcome" where
  "assessments_callback c x others now p st =
    (let job = dict_get p ''job_id'' in
     if \<not> truthy job then (Inl (HTTPException 400 ''callback payload missing job_id.''), st)
     else (case first_where (\<lambda>s. s_agent_job_id s \<noteq> None \<and> jopt (s_agent_job_id s) = job) (t_submissions st) of
         None \<Rightarrow> (Inr (Ignored ''no submission for job_id''), st)
       | Some sub \<Rightarrow>
           let verdict = py_str x (get_or p ''verdict'' (JStr ''ERROR''));
               is_error = is_error_payload p verdict
           in if is_error \<and> dict_get p ''verdict'' = JNull \<and> s_status sub = ''done''
              then (Inr (Ignored ''already graded''), st)
              else if is_error \<and> dict_get p ''verdict'' = JNull \<and> s_status sub \<in> {''pending'', ''running''} \<and>
                      s_attempts sub < c_max_trigger_attempts c
              then (Inr (Requeued (s_id sub)),
                    write_submission now sub (sub\<lparr>s_status := ''pending''\<rparr>) (others 0 st))
              else store_result c x others now sub verdict is_error p st))"

subsection \<open>The submission row is a compare-and-swap cell\<close>

definition row_token :: "string \<Rightarrow> submission list \<Rightarrow> token option" where
  "row_token i t = map_option (\<lambda>r. (s_status r, s_attempts r)) (first_where (\<lambda>r. s_id r = i) t)"

text \<open>An update that keeps the id and leaves the token it was made for.\<close>

definition moves_on :: "(submission \<Rightarrow> submission) \<Rightarrow> token \<Rightarrow> bool" where
  "moves_on f e = (\<forall>r. s_id (f r) = s_id r \<and>
     ((s_status r, s_attempts r) = e \<longrightarrow> (s_status (f r), s_attempts (f r)) \<noteq> e))"

lemma cas_find:
  assumes "\<And>r. s_id (f r) = s_id r"
  shows "first_where (\<lambda>r. s_id r = j) (snd (cas i now f e t)) =
    map_option (\<lambda>r. if s_id r = i \<and> (s_status r, s_attempts r) = e then (f r)\<lparr>s_updated_at := now\<rparr> else r)
      (first_where (\<lambda>r. s_id r = j) t)"
proof -
  have "first_where (\<lambda>r. s_id r = j) (snd (cas i now f e t)) =
    map_option (\<lambda>r. if s_id r = i \<and> s_status r = fst e \<and> s_attempts r = snd e
                    then (f r)\<lparr>s_updated_at := now\<rparr> else r) (first_where (\<lambda>r. s_id r = j) t)"
    unfolding cas_def Let_def snd_conv by (rule find_upd_where) (simp add: assms)
  then show ?thesis by (cases e) simp
qed

lemma cas_hit:
  assumes "unique_key s_id t"
  shows "fst (cas i now f e t) \<longleftrightarrow> row_token i t = Some e"
proof (cases "first_where (\<lambda>r. s_id r = i) t")
  case None
  then have "\<not> fst (cas i now f e t)"
    by (auto simp: cas_def Let_def count_where_pos find_None_iff')
  with None show ?thesis by (simp add: row_token_def)
next
  case (Some r)
  have "fst (cas i now f e t) \<longleftrightarrow> (\<exists>x\<in>set t. s_id x = i \<and> (s_status x, s_attempts x) = e)"
    by (cases e) (simp add: cas_def Let_def count_where_pos)
  also have "\<dots> \<longleftrightarrow> (s_status r, s_attempts r) = e" by (rule ex_unique_key [OF assms Some])
  finally show ?thesis using Some by (simp add: row_token_def)
qed

lemma cas_lost:
  assumes "\<not> fst (cas i now f e t)"
  shows "snd (cas i now f e t) = t"
proof -
  have "\<forall>r\<in>set t. \<not> (s_id r = i \<and> s_status r = fst e \<and> s_attempts r = snd e)"
    using assms by (auto simp: cas_def Let_def count_where_pos)
  then show ?thesis unfolding cas_def Let_def snd_conv by (intro upd_where_none) blast
qed

lemma cas_unique:
  "unique_key s_id t \<Longrightarrow> (\<And>r. s_id (f r) = s_id r) \<Longrightarrow> unique_key s_id (snd (cas i now f e t))"
  by (simp add: cas_def Let_def unique_key_upd)

interpretation row: swap_cell "\<lambda>(now, f) e t. cas i now f e t" "row_token i" "unique_key s_id"
    "\<lambda>u e. moves_on (snd u) e" for i
proof (unfold_locales, goal_cases)
  case (1 s u e)
  then show ?case by (cases u) (simp add: cas_unique moves_on_def)
next
  case (2 s u e)
  then show ?case by (cases u) (simp add: cas_hit)
next
  case (3 s u e)
  then show ?case by (cases u) (simp add: cas_hit cas_lost)
next
  case (4 s u e)
  then show ?case
    by (cases u) (auto simp: row_token_def cas_find moves_on_def dest!: find_SomeD)
qed

lemma claim_values_moves: "moves_on (claim_values i (n + 1)) (st, n)"
  by (simp add: moves_on_def claim_values_def)

text \<open>
  The swap on the store: what it returns and what it leaves, for the row and for every other.
\<close>

definition subs_ok :: "store \<Rightarrow> bool" where
  "subs_ok st = unique_key s_id (t_submissions st)"

definition swapped :: "string \<Rightarrow> instant \<Rightarrow> (submission \<Rightarrow> submission) \<Rightarrow> token \<Rightarrow> store \<Rightarrow> store" where
  "swapped i now f e st = st\<lparr>t_submissions := snd (cas i now f e (t_submissions st))\<rparr>"

lemma get_swapped:
  "(\<And>r. s_id (f r) = s_id r) \<Longrightarrow> get_submission j (swapped i now f e st) =
     map_option (\<lambda>r. if s_id r = i \<and> (s_status r, s_attempts r) = e then (f r)\<lparr>s_updated_at := now\<rparr> else r)
       (get_submission j st)"
  by (simp add: swapped_def get_submission_def cas_find)

lemma swapped_ok: "subs_ok st \<Longrightarrow> (\<And>r. s_id (f r) = s_id r) \<Longrightarrow> subs_ok (swapped i now f e st)"
  by (simp add: swapped_def subs_ok_def cas_unique)

lemma swapped_other:
  "(\<And>r. s_id (f r) = s_id r) \<Longrightarrow> j \<noteq> i \<Longrightarrow> get_submission j (swapped i now f e st) = get_submission j st"
  by (cases "get_submission j st") (auto simp: get_swapped dest: get_submission_SomeD)

lemma cas_row_eq:
  assumes "subs_ok st" and "get_submission i st = Some r" and "\<And>r. s_id (f r) = s_id r"
  shows "cas_row i now f e st =
    (if (s_status r, s_attempts r) = e then (Inr (True, (f r)\<lparr>s_updated_at := now\<rparr>), swapped i now f e st)
     else (Inr (False, r), st))"
proof -
  have tok: "row_token i (t_submissions st) = Some (s_status r, s_attempts r)"
    using assms(2) by (simp add: row_token_def get_submission_def)
  have hit: "fst (cas i now f e (t_submissions st)) \<longleftrightarrow> (s_status r, s_attempts r) = e"
    using cas_hit [of "t_submissions st" i now f e] assms(1) tok by (simp add: subs_ok_def)
  have new: "get_submission i (swapped i now f e st) =
      Some (if (s_status r, s_attempts r) = e then (f r)\<lparr>s_updated_at := now\<rparr> else r)"
    using assms(2) get_submission_SomeD [OF assms(2)] by (simp add: get_swapped assms(3))
  have same: "swapped i now f e st = st" if "(s_status r, s_attempts r) \<noteq> e"
    using cas_lost [of i now f e "t_submissions st"] hit that by (simp add: swapped_def)
  show ?thesis
    using hit new same unfolding cas_row_def Let_def
    by (simp add: refresh_def case_prod_beta flip: swapped_def)
qed

lemma values_keep_id [simp]:
  "s_id (claim_values i n r) = s_id r" "s_id (error_values m r) = s_id r" "s_id (running_values j r) = s_id r"
  by (simp_all add: claim_values_def error_values_def running_values_def)

lemma end_sitting_submissions [simp]:
  "t_submissions (end_sitting_if_complete c id now sub st) = t_submissions st"
  "t_questions (end_sitting_if_complete c id now sub st) = t_questions st"
  "t_usage (end_sitting_if_complete c id now sub st) = t_usage st"
  "t_results (end_sitting_if_complete c id now sub st) = t_results st"
  by (auto simp: end_sitting_if_complete_def claim_sitting_def Let_def split: option.splits prod.splits bool.splits)

lemma get_submission_cong: "t_submissions st = t_submissions st' \<Longrightarrow> get_submission i st = get_submission i st'"
  by (simp add: get_submission_def)

lemma get_question_cong: "t_questions st = t_questions st' \<Longrightarrow> get_question i st = get_question i st'"
  by (simp add: get_question_def)

lemma swapped_questions [simp]: "t_questions (swapped i now f e st) = t_questions st"
  by (simp add: swapped_def)

subsection \<open>What a trigger does to its row\<close>

definition claimed_row :: "instant \<Rightarrow> submission \<Rightarrow> submission" where
  "claimed_row now r = (claim_values (s_id r) (s_attempts r + 1) r)\<lparr>s_updated_at := now\<rparr>"

definition claimed_store :: "instant \<Rightarrow> submission \<Rightarrow> store \<Rightarrow> store" where
  "claimed_store now r st =
     swapped (s_id r) now (claim_values (s_id r) (s_attempts r + 1)) (s_status r, s_attempts r) st"

lemma claimed_store_get:
  assumes "get_submission (s_id r) st = Some r"
  shows "get_submission (s_id r) (claimed_store now r st) = Some (claimed_row now r)"
  using assms by (simp add: claimed_store_def get_swapped claimed_row_def)

lemma claimed_store_ok: "subs_ok st \<Longrightarrow> subs_ok (claimed_store now r st)"
  by (simp add: claimed_store_def swapped_ok)

text \<open>A trigger from the row the database holds, up to the agent's answer.\<close>

lemma trigger_agent_claimed:
  assumes "subs_ok st" and "get_submission (s_id r) st = Some r"
  shows "trigger_agent c x agent others now q r st =
    (let i = s_id r; attempt = s_attempts r + 1; st1 = claimed_store now r st; st2 = others 0 st1 in
     case trigger_assessment agent q (claimed_row now r) (callback_url c) st1 of
       Inl e \<Rightarrow>
         (case trigger_refusal e of
            None \<Rightarrow> (Inr (claimed_row now r), st2)
          | Some resp \<Rightarrow>
              guardr (agent_detail x resp) st2 (\<lambda>det.
              bindr (cas_row i now (error_values (refusal_reason det)) (''pending'', attempt) st2)
                (\<lambda>(won, sub2) st3.
                  (Inr sub2, if won then end_sitting_if_complete c (others 1) now sub2 st3 else st3))))
     | Inr job \<Rightarrow>
         bindr (cas_row i now (running_values job) (''pending'', attempt) st2)
           (\<lambda>(_, sub2) st3. (Inr sub2, st3)))"
proof -
  have cas: "cas_row (s_id r) now (claim_values (s_id r) (s_attempts r + 1)) (s_status r, s_attempts r) st =
      (Inr (True, claimed_row now r), claimed_store now r st)"
    using cas_row_eq [OF assms, of "claim_values (s_id r) (s_attempts r + 1)" now "(s_status r, s_attempts r)"]
    by (simp add: claimed_row_def claimed_store_def)
  show ?thesis unfolding trigger_agent_def Let_def cas by simp
qed

text \<open>The row after a trigger, given the row the others left when the agent had answered.\<close>

lemma trigger_agent_row:
  assumes "subs_ok st" and "get_submission (s_id r) st = Some r"
    and "subs_ok (others 0 (claimed_store now r st))"
    and "get_submission (s_id r) (others 0 (claimed_store now r st)) = Some r2"
    and "others 1 = id"
  shows "get_submission (s_id r) (snd (trigger_agent c x agent others now q r st)) =
    (case trigger_assessment agent q (claimed_row now r) (callback_url c) (claimed_store now r st) of
       Inl e \<Rightarrow>
         (case trigger_refusal e of
            None \<Rightarrow> Some r2
          | Some resp \<Rightarrow>
              (case agent_detail x resp of
                 Inl _ \<Rightarrow> Some r2
               | Inr det \<Rightarrow> Some (if (s_status r2, s_attempts r2) = (''pending'', s_attempts r + 1)
                   then (error_values (refusal_reason det) r2)\<lparr>s_updated_at := now\<rparr> else r2)))
     | Inr job \<Rightarrow> Some (if (s_status r2, s_attempts r2) = (''pending'', s_attempts r + 1)
                   then (running_values job r2)\<lparr>s_updated_at := now\<rparr> else r2))"
proof -
  let ?st2 = "others 0 (claimed_store now r st)" and ?e = "(''pending'', s_attempts r + 1)"
  have row: "cas_row (s_id r) now f ?e ?st2 = (if (s_status r2, s_attempts r2) = ?e
      then (Inr (True, (f r2)\<lparr>s_updated_at := now\<rparr>), swapped (s_id r) now f ?e ?st2) else (Inr (False, r2), ?st2))"
    if "\<And>r. s_id (f r) = s_id r" for f
    by (rule cas_row_eq [OF assms(3,4) that])
  have id2: "s_id r2 = s_id r" using get_submission_SomeD [OF assms(4)] by simp
  have get: "get_submission (s_id r) (swapped (s_id r) now f ?e ?st2) = Some ((f r2)\<lparr>s_updated_at := now\<rparr>)"
    if "\<And>r. s_id (f r) = s_id r" "(s_status r2, s_attempts r2) = ?e" for f
    using that assms(4) id2 by (simp add: get_swapped)
  have keep: "get_submission i (end_sitting_if_complete c id now s st') = get_submission i st'" for i s st'
    by (rule get_submission_cong) simp
  show ?thesis
  proof (cases "(s_status r2, s_attempts r2) = ?e")
    case True
    show ?thesis
      unfolding trigger_agent_claimed [OF assms(1,2)] Let_def assms(5)
      using True row get by (auto simp: keep assms(4) split: sum.split option.split)
  next
    case False
    then have "cas_row (s_id r) now f ?e ?st2 = (Inr (False, r2), ?st2)"
      if "\<And>r. s_id (f r) = s_id r" for f
      using row that by auto
    with False show ?thesis
      unfolding trigger_agent_claimed [OF assms(1,2)] Let_def assms(5)
      by (simp add: assms(4) del: prod.inject split: sum.split option.split)
  qed
qed

lemma trigger_agent_other:
  assumes "subs_ok st" and "get_submission (s_id r) st = Some r" and "j \<noteq> s_id r"
  shows "get_submission j (snd (trigger_agent c x agent alone now q r st)) = get_submission j st"
proof -
  let ?st1 = "claimed_store now r st"
  have ok: "subs_ok ?st1" by (rule claimed_store_ok [OF assms(1)])
  have one: "get_submission j ?st1 = get_submission j st"
    using assms(3) by (simp add: claimed_store_def swapped_other)
  have row: "cas_row (s_id r) now f (''pending'', s_attempts r + 1) ?st1 =
      (Inr (True, (f (claimed_row now r))\<lparr>s_updated_at := now\<rparr>),
       swapped (s_id r) now f (''pending'', s_attempts r + 1) ?st1)"
    if "\<And>r. s_id (f r) = s_id r" for f
    using cas_row_eq [OF ok claimed_store_get [OF assms(2)] that, of now "(''pending'', s_attempts r + 1)"]
    by (simp add: claimed_row_def claim_values_def)
  have keep: "get_submission i (end_sitting_if_complete c id now s st') = get_submission i st'" for i s st'
    by (rule get_submission_cong) simp
  show ?thesis
    unfolding trigger_agent_claimed [OF assms(1,2)] Let_def alone_id
    using one assms(3) by (simp add: row keep swapped_other snd_guardr split: sum.split option.split)
qed

subsection \<open>Properties of the trigger\<close>

text \<open>
  Of all the workers, requests and reaper ticks that saw a submission in the same state and
  try to claim it, exactly one wins; a caller that saw an older state never does.
\<close>

theorem one_trigger_claim_wins:
  assumes "unique_key s_id t" and "claims \<noteq> []"
  shows "winners (fst (run_swaps (\<lambda>(now, f) e t. cas i now f e t) (status, n)
           (map (\<lambda>now. (now, claim_values i (n + 1))) claims) t)) =
         (if row_token i t = Some (status, n) then 1 else 0)"
  using row.one_winner [where s = t and e = "(status, n)" and i = i
      and us = "map (\<lambda>now. (now, claim_values i (n + 1))) claims"] assms claim_values_moves
  by auto

definition example_submission :: submission where
  "example_submission = new_submission ''s1'' ''q1'' (Some 3) ''Ada'' (Some ''ada@x.org'') ''python''
     ''print(1)'' False 0"

lemma one_trigger_claim_wins_witness:
  "winners (fst (run_swaps (\<lambda>(now, f) e t. cas ''s1'' now f e t) (''pending'', 0)
     (map (\<lambda>now. (now, claim_values ''s1'' (0 + 1))) [5, 6]) [example_submission])) = 1"
  using one_trigger_claim_wins [of "[example_submission]" "[5, 6]" "''s1''" "''pending''" 0]
  by (simp add: unique_key_def row_token_def example_submission_def new_submission_def)

text \<open>
  C34. Whatever happens while the agent is called, a trigger never undoes it: if the row is no
  longer the pending one this trigger claimed (the callback landed first, or another worker took
  over), the trigger leaves it exactly as it is, whatever the agent answered.
\<close>

theorem trigger_never_regresses:
  assumes "subs_ok st" and "get_submission (s_id r) st = Some r"
    and "subs_ok (others 0 (claimed_store now r st))"
    and "get_submission (s_id r) (others 0 (claimed_store now r st)) = Some r2"
    and "others 1 = id"
    and "s_status r2 \<noteq> ''pending'' \<or> s_attempts r2 \<noteq> s_attempts r + 1"
  shows "get_submission (s_id r) (snd (trigger_agent c x agent others now q r st)) = Some r2"
  using trigger_agent_row [OF assms(1-5)] assms(6) by (auto split: sum.split option.split)

definition landed_meanwhile :: interference where
  "landed_meanwhile k st = (if k = 0
     then st\<lparr>t_submissions := map (\<lambda>r. r\<lparr>s_status := ''done''\<rparr>) (t_submissions st)\<rparr> else st)"

lemma trigger_never_regresses_witness:
  "\<exists>r2. s_status r2 = ''done'' \<and>
     get_submission ''s1'' (snd (trigger_agent default_settings example_externals (\<lambda>_ _. Inl ReadTimeout) landed_meanwhile 9 example_question
       example_submission (empty_store\<lparr>t_submissions := [example_submission]\<rparr>))) = Some r2"
proof -
  let ?st = "empty_store\<lparr>t_submissions := [example_submission]\<rparr>"
  have i: "s_id example_submission = ''s1''" by (simp add: example_submission_def new_submission_def)
  have a: "subs_ok ?st" by (simp add: subs_ok_def unique_key_def)
  have b: "get_submission (s_id example_submission) ?st = Some example_submission"
    by (simp add: get_submission_def)
  have d: "subs_ok (landed_meanwhile 0 (claimed_store 9 example_submission ?st))"
    using claimed_store_ok [OF a] by (simp add: landed_meanwhile_def subs_ok_def unique_key_def comp_def)
  have e: "get_submission (s_id example_submission) (landed_meanwhile 0 (claimed_store 9 example_submission ?st)) =
      Some ((claimed_row 9 example_submission)\<lparr>s_status := ''done''\<rparr>)"
    by (simp add: landed_meanwhile_def get_submission_def claimed_store_def swapped_def cas_def Let_def
        claimed_row_def claim_values_def)
  have f: "landed_meanwhile 1 = id" by (rule ext) (simp add: landed_meanwhile_def)
  show ?thesis
    using trigger_never_regresses [OF a b d e f, of default_settings example_externals "\<lambda>_ _. Inl ReadTimeout" example_question] i by auto
qed

subsection \<open>The reaper gives up\<close>

definition never_accepts :: "(json \<Rightarrow> agent) \<Rightarrow> bool" where
  "never_accepts agent = (\<forall>b k. case outcome_of (agent b) k of
     Inl e \<Rightarrow> trigger_refusal e = None | Inr _ \<Rightarrow> False)"

lemma never_accepts_trigger:
  assumes "never_accepts agent"
  shows "\<exists>e. trigger_assessment agent q s u st = Inl e \<and> trigger_refusal e = None"
proof -
  let ?r = "post_with_retry (agent (trigger_body q s u st)) TRIGGER_TRANSPORT_ATTEMPTS
              TRIGGER_RETRY_BACKOFF_S trigger_is_retryable"
  obtain k where "fst ?r = outcome_of (agent (trigger_body q s u st)) k"
    using post_loop_reply [of "agent (trigger_body q s u st)"] by (metis post_with_retry_def)
  then show ?thesis
    using assms unfolding never_accepts_def trigger_assessment_def
    by (auto split: sum.splits)
qed

definition is_stale :: "settings \<Rightarrow> instant \<Rightarrow> submission \<Rightarrow> bool" where
  "is_stale c now r = (0 < grace_of c r \<and> s_updated_at r < now - seconds (grace_of c r))"

definition gave_up_row :: "instant \<Rightarrow> submission \<Rightarrow> submission" where
  "gave_up_row now r = (error_values (gave_up_reason (s_attempts r)) r)\<lparr>s_updated_at := now\<rparr>"

definition reaped_row :: "settings \<Rightarrow> instant \<Rightarrow> bool \<Rightarrow> submission \<Rightarrow> submission" where
  "reaped_row c now has_question r =
    (if is_stale c now r
     then if s_attempts r < c_max_trigger_attempts c \<and> has_question then claimed_row now r else gave_up_row now r
     else r)"

lemma reap_one_down:
  fixes c :: settings and x :: externals and now :: instant
  assumes "never_accepts agent" and "subs_ok st" and "get_submission i st = Some r"
  defines "st' \<equiv> snd (reap_one c x agent alone now i st)"
  shows "get_submission i st' = Some (reaped_row c now (get_question (s_question_id r) st \<noteq> None) r) \<and>
    subs_ok st' \<and> is_ok (reap_one c x agent alone now i st) \<and>
    fst (reap_one c x agent alone now i st) = Inr (if is_stale c now r then [i] else []) \<and>
    (\<forall>j. j \<noteq> i \<longrightarrow> get_submission j st' = get_submission j st)"
proof -
  have i: "s_id r = i" using get_submission_SomeD [OF assms(3)] by simp
  have keep: "get_submission j (end_sitting_if_complete c (alone k) now s st1) = get_submission j st1"
    "subs_ok (end_sitting_if_complete c (alone k) now s st1) = subs_ok st1" for j k s st1
    unfolding alone_id by (rule get_submission_cong, simp, simp add: subs_ok_def)
  show ?thesis
  proof (cases "is_stale c now r")
    case False
    then have "reap_one c x agent alone now i st = (Inr [], st)"
      using assms(3) by (auto simp: reap_one_def refresh_def is_stale_def Let_def not_less)
    then show ?thesis using False assms(2,3) by (simp add: st'_def reaped_row_def)
  next
    case True
    then have unf: "reap_one c x agent alone now i st =
        (case (if s_attempts r < c_max_trigger_attempts c then get_question (s_question_id r) st else None) of
          Some q \<Rightarrow> bindr (trigger_agent c x agent alone now q r st) (\<lambda>_ st1. (Inr [i], st1))
        | None \<Rightarrow>
            bindr (cas_row i now (error_values (gave_up_reason (s_attempts r)))
                     (s_status r, s_attempts r) st) (\<lambda>(won, sub1) st1.
              if won then (Inr [i], end_sitting_if_complete c (alone 1) now sub1 st1) else (Inr [], st1)))"
      using assms(3) by (simp add: reap_one_def refresh_def is_stale_def Let_def)
    show ?thesis
    proof (cases "if s_attempts r < c_max_trigger_attempts c then get_question (s_question_id r) st else None")
      case (Some q)
      have get: "get_submission (s_id r) st = Some r" using assms(3) i by simp
      obtain e where "trigger_assessment agent q (claimed_row now r) (callback_url c) (claimed_store now r st) = Inl e"
        "trigger_refusal e = None" using never_accepts_trigger [OF assms(1)] by blast
      then have "trigger_agent c x agent alone now q r st = (Inr (claimed_row now r), claimed_store now r st)"
        unfolding trigger_agent_claimed [OF assms(2) get] Let_def by (simp add: alone_simp)
      then have "reap_one c x agent alone now i st = (Inr [i], claimed_store now r st)"
        using unf Some by simp
      then show ?thesis
        using True Some claimed_store_get [OF get, of now] claimed_store_ok [OF assms(2)] i
        by (auto simp: st'_def reaped_row_def claimed_store_def swapped_other split: if_splits)
    next
      case None
      have "reap_one c x agent alone now i st = (Inr [i], end_sitting_if_complete c (alone 1) now (gave_up_row now r)
          (swapped i now (error_values (gave_up_reason (s_attempts r))) (s_status r, s_attempts r) st))"
        using unf None cas_row_eq [OF assms(2,3), of "error_values (gave_up_reason (s_attempts r))" now
            "(s_status r, s_attempts r)"] by (simp add: gave_up_row_def)
      moreover have "get_submission i (swapped i now (error_values (gave_up_reason (s_attempts r)))
          (s_status r, s_attempts r) st) = Some (gave_up_row now r)"
        using assms(3) i by (simp add: get_swapped gave_up_row_def)
      ultimately show ?thesis
        using True None assms(2,3) i
        by (auto simp: st'_def reaped_row_def keep swapped_ok swapped_other split: if_splits)
    qed
  qed
qed

text \<open>A whole pass, and passes one after the other.\<close>

lemma reap_rows_down:
  "\<lbrakk>never_accepts agent; subs_ok st; distinct is; \<forall>j\<in>set is. get_submission j st \<noteq> None;
    get_submission i st = Some r\<rbrakk> \<Longrightarrow>
   subs_ok (snd (reap_rows c x agent alone now is st)) \<and>
   (\<exists>b. get_submission i (snd (reap_rows c x agent alone now is st)) =
      Some (if i \<in> set is then reaped_row c now b r else r))"
proof (induction "is" arbitrary: st r)
  case Nil
  then show ?case by simp
next
  case (Cons j js)
  obtain rj where rj: "get_submission j st = Some rj" using Cons.prems(4) by auto
  let ?st1 = "snd (reap_one c x agent alone now j st)"
  note one = reap_one_down [OF Cons.prems(1,2) rj, of c x now]
  have run: "snd (reap_rows c x agent alone now (j # js) st) = snd (reap_rows c x agent alone now js ?st1)"
    using one by (cases "reap_one c x agent alone now j st"; cases "reap_rows c x agent alone now js ?st1";
        cases "fst (reap_one c x agent alone now j st)"; cases "fst (reap_rows c x agent alone now js ?st1)") auto
  have rest: "\<forall>k\<in>set js. get_submission k ?st1 \<noteq> None"
    using one Cons.prems(3,4) by auto
  show ?case
  proof (cases "i = j")
    case True
    with Cons.prems rj have r: "r = rj" by simp
    obtain b where "get_submission i ?st1 = Some (reaped_row c now b r)" using one True r by auto
    moreover have "i \<notin> set js" using Cons.prems(3) True by simp
    ultimately show ?thesis
      using Cons.IH [of ?st1] Cons.prems(1,3) one rest run True by (auto simp del: reap_rows.simps)
  next
    case False
    then have "get_submission i ?st1 = Some r" using one Cons.prems(5) by simp
    then show ?thesis
      using Cons.IH [of ?st1] Cons.prems(1,3) one rest run False by (auto simp del: reap_rows.simps)
  qed
qed

lemma stranded_iff:
  assumes "subs_ok st" and "get_submission i st = Some r"
  shows "i \<in> set (stranded st) \<longleftrightarrow> s_status r \<in> {''pending'', ''running''}"
proof -
  have r: "r \<in> set (t_submissions st)" "s_id r = i" using get_submission_SomeD [OF assms(2)] by auto
  have get: "first_where (\<lambda>r. s_id r = i) (t_submissions st) = Some r"
    using assms(2) by (simp add: get_submission_def)
  have "unique_key s_id (t_submissions st)" using assms(1) by (simp add: subs_ok_def)
  then have "(\<exists>s\<in>set (t_submissions st). s_id s = i \<and> s_status s \<in> {''pending'', ''running''}) \<longleftrightarrow>
      s_status r \<in> {''pending'', ''running''}"
    by (rule ex_unique_key [OF _ get])
  then show ?thesis by (auto simp: stranded_def)
qed

lemma get_submission_in: "s \<in> set (t_submissions st) \<Longrightarrow> get_submission (s_id s) st \<noteq> None"
  by (auto simp: get_submission_def find_None_iff')

lemma reap_tick_down:
  assumes "never_accepts agent" and "subs_ok st" and "get_submission i st = Some r"
  shows "subs_ok (snd (reap_tick c x agent alone now st)) \<and>
   (\<exists>b. get_submission i (snd (reap_tick c x agent alone now st)) =
      Some (if s_status r \<in> {''pending'', ''running''} then reaped_row c now b r else r))"
proof -
  have "distinct (stranded st)"
    using assms(2) unfolding subs_ok_def unique_key_def stranded_def by (rule distinct_map_filter)
  moreover have "\<forall>j\<in>set (stranded st). get_submission j st \<noteq> None"
    using get_submission_in by (auto simp: stranded_def)
  ultimately show ?thesis
    using reap_rows_down [OF assms(1,2), of "stranded st" i r c x now] assms
    by (simp add: reap_tick_def stranded_iff)
qed

fun run_ticks :: "settings \<Rightarrow> externals \<Rightarrow> (json \<Rightarrow> agent) \<Rightarrow> instant list \<Rightarrow> store \<Rightarrow> store" where
  "run_ticks c x agent [] st = st"
| "run_ticks c x agent (now # nows) st = run_ticks c x agent nows (snd (reap_tick c x agent alone now st))"

text \<open>Passes at any instants, none more than \<open>d\<close> after the one before.\<close>

fun ticking :: "int \<Rightarrow> instant \<Rightarrow> instant list \<Rightarrow> bool" where
  "ticking d t [] = True"
| "ticking d t (now # nows) = (t \<le> now \<and> now \<le> t + d \<and> ticking d now nows)"

definition longest_grace :: "settings \<Rightarrow> int" where
  "longest_grace c = seconds (max (c_trigger_retry_after_s c) (c_reap_running_after_s c))"

lemma run_ticks_terminal:
  "\<lbrakk>never_accepts agent; subs_ok st; get_submission i st = Some r; s_status r \<notin> {''pending'', ''running''}\<rbrakk> \<Longrightarrow>
   get_submission i (run_ticks c x agent nows st) = Some r"
proof (induction nows arbitrary: st)
  case Nil
  then show ?case by simp
next
  case (Cons now nows)
  then show ?case using reap_tick_down [OF Cons.prems(1-3), of c x now] by auto
qed

lemma not_stale_recent:
  assumes "0 < c_trigger_retry_after_s c" and "0 < c_reap_running_after_s c" and "\<not> is_stale c now r"
  shows "now \<le> s_updated_at r + longest_grace c"
  using assms by (auto simp: is_stale_def grace_of_def seconds_def longest_grace_def max_def split: if_splits)

text \<open>The row is acted on at the latest at the first pass after its grace period, which is at most \<open>d\<close> after it.\<close>

lemma gives_up_by:
  assumes "never_accepts agent" and "0 < c_trigger_retry_after_s c" and "0 < c_reap_running_after_s c" and "0 \<le> d"
  shows "\<lbrakk>subs_ok st; get_submission i st = Some r; s_status r \<in> {''pending'', ''running''};
     s_updated_at r \<le> t; t \<le> s_updated_at r + longest_grace c; ticking d t nows;
     s_updated_at r + int (Suc (nat (c_max_trigger_attempts c - s_attempts r))) * (longest_grace c + d) < last (t # nows)\<rbrakk> \<Longrightarrow>
   \<exists>r'. get_submission i (run_ticks c x agent nows st) = Some r' \<and> s_status r' = ''error'' \<and>
    s_attempts r' \<le> max (s_attempts r) (c_max_trigger_attempts c) \<and>
    s_error_reason r' = Some (gave_up_reason (s_attempts r'))"
proof (induction nows arbitrary: st r t)
  case Nil
  have "0 \<le> longest_grace c" using assms(2,3) by (simp add: longest_grace_def seconds_def)
  then have "longest_grace c + d \<le> int (Suc (nat (c_max_trigger_attempts c - s_attempts r))) * (longest_grace c + d)"
    using assms(4) by (simp add: distrib_right)
  then show ?case using Nil assms(4) by simp
next
  case (Cons now nows)
  let ?st1 = "snd (reap_tick c x agent alone now st)" and ?g = "longest_grace c + d"
  obtain b where ok: "subs_ok ?st1" and get: "get_submission i ?st1 = Some (reaped_row c now b r)"
    using reap_tick_down [OF assms(1) Cons.prems(1,2), of c x now] Cons.prems(3) by auto
  have now: "t \<le> now" "now \<le> t + d" "ticking d now nows" using Cons.prems(6) by simp_all
  show ?case
  proof (cases "is_stale c now r")
    case False
    then have "get_submission i ?st1 = Some r" using get by (simp add: reaped_row_def)
    then show ?thesis
      using Cons.IH [OF ok _ Cons.prems(3), of now] now Cons.prems(4,7) not_stale_recent [OF assms(2,3) False] by simp
  next
    case stale: True
    show ?thesis
    proof (cases "s_attempts r < c_max_trigger_attempts c \<and> b")
      case True
      let ?r = "claimed_row now r"
      have r: "reaped_row c now b r = ?r" using stale True by (simp add: reaped_row_def)
      have c: "s_status ?r \<in> {''pending'', ''running''}" "s_updated_at ?r = now" "s_attempts ?r = s_attempts r + 1"
        by (simp_all add: claimed_row_def claim_values_def)
      have "nat (c_max_trigger_attempts c - s_attempts r) = Suc (nat (c_max_trigger_attempts c - s_attempts ?r))"
        unfolding c(3) using True by (subst Suc_nat_eq_nat_zadd1) simp_all
      then have "now + int (Suc (nat (c_max_trigger_attempts c - s_attempts ?r))) * ?g < last (now # nows)"
        using Cons.prems(5,7) now(2) by (simp add: distrib_right)
      moreover have "0 \<le> longest_grace c" using assms(2,3) by (simp add: longest_grace_def seconds_def)
      ultimately show ?thesis
        using Cons.IH [OF ok, of ?r now] now(3) get r c True by (auto simp: max_def split: if_splits)
    next
      case False
      let ?r = "gave_up_row now r"
      have r: "reaped_row c now b r = ?r" using stale False by (auto simp: reaped_row_def)
      have "s_status ?r = ''error''" by (simp add: gave_up_row_def error_values_def)
      then have "get_submission i (run_ticks c x agent nows ?st1) = Some ?r"
        using run_ticks_terminal [OF assms(1) ok, of i ?r c x nows] get r by simp
      then show ?thesis by (auto simp: gave_up_row_def error_values_def)
    qed
  qed
qed

text \<open>
  C37. A submission the agent never accepts does not stay stranded. The reaper runs at any instants no more than
  \<open>d\<close> apart (its interval and the length of a pass), the agent is down for good and nothing else writes the row:
  then, for each attempt the submission has left and once more, it waits at most the longer grace period and \<open>d\<close>,
  and after that it is in \<open>error\<close>, with at most \<open>MAX_TRIGGER_ATTEMPTS\<close> attempts spent and the reason recorded.
\<close>

theorem reaper_gives_up:
  assumes "never_accepts agent" and "subs_ok st" and "get_submission i st = Some r"
    and "s_status r \<in> {''pending'', ''running''}"
    and "0 < c_trigger_retry_after_s c" and "0 < c_reap_running_after_s c"
    and "0 \<le> d" and "ticking d (s_updated_at r) nows"
    and "s_updated_at r + int (Suc (nat (c_max_trigger_attempts c - s_attempts r))) *
        (seconds (max (c_trigger_retry_after_s c) (c_reap_running_after_s c)) + d) < last (s_updated_at r # nows)"
  shows "\<exists>r'. get_submission i (run_ticks c x agent nows st) = Some r' \<and> s_status r' = ''error'' \<and>
    s_attempts r' \<le> max (s_attempts r) (c_max_trigger_attempts c) \<and>
    s_error_reason r' = Some (gave_up_reason (s_attempts r'))"
proof (rule gives_up_by [OF assms(1,5-7) assms(2-4) order_refl _ assms(8)])
  show "s_updated_at r \<le> s_updated_at r + longest_grace c" using assms(5,6) by (simp add: longest_grace_def seconds_def)
  show "s_updated_at r + int (Suc (nat (c_max_trigger_attempts c - s_attempts r))) * (longest_grace c + d) < last (s_updated_at r # nows)"
    using assms(9) by (simp only: longest_grace_def)
qed

text \<open>The real schedule: a pass every minute.\<close>

definition each_minute :: "nat \<Rightarrow> instant list" where
  "each_minute n = map (\<lambda>k. seconds 60 * int k) [1..<n]"

lemma reaper_gives_up_witness:
  "\<exists>r'. get_submission ''s1'' (run_ticks default_settings example_externals (\<lambda>_ _. Inl ConnectError) (each_minute 66)
      (empty_store\<lparr>t_submissions := [example_submission]\<rparr>)) = Some r' \<and> s_status r' = ''error''"
proof -
  have a: "never_accepts (\<lambda>_ _. Inl ConnectError)"
    by (simp add: never_accepts_def outcome_of_def trigger_refusal_def)
  have b: "subs_ok (empty_store\<lparr>t_submissions := [example_submission]\<rparr>)"
    by (simp add: subs_ok_def unique_key_def)
  have d: "get_submission ''s1'' (empty_store\<lparr>t_submissions := [example_submission]\<rparr>) = Some example_submission"
    by (simp add: get_submission_def example_submission_def new_submission_def)
  have e: "c_trigger_retry_after_s default_settings = 120" "c_reap_running_after_s default_settings = 900"
    "c_max_trigger_attempts default_settings = 3" by (simp_all add: default_settings_def)
  have t: "ticking (seconds 60) 0 (each_minute 66)" "last (0 # each_minute 66) = seconds 60 * 65" by code_simp+
  have s: "s_updated_at example_submission = 0" "s_attempts example_submission = 0" "s_status example_submission = ''pending''"
    by (simp_all add: example_submission_def new_submission_def)
  show ?thesis
    using reaper_gives_up [OF a b d, of default_settings "seconds 60" "each_minute 66" example_externals] e t s
    by (auto simp: seconds_def)
qed

subsection \<open>What a callback does\<close>

lemma record_usage_only_usage:
  assumes "usage_ok st" and "0 \<le> now"
  shows "\<exists>u. record_usage alone now i d st = (Inr (), st\<lparr>t_usage := u\<rparr>)"
proof (cases "d = no_delta")
  case True
  then have "record_usage alone now i d st = (Inr (), st\<lparr>t_usage := t_usage st\<rparr>)"
    by (simp add: record_usage_def)
  then show ?thesis by blast
next
  case False
  show ?thesis
    unfolding record_usage_alone [OF assms False] by (auto simp: opened_def bump_usage_def Let_def)
qed

text \<open>The rows a result callback writes, and the cost it bills.\<close>

definition callback_verdict :: "externals \<Rightarrow> payload_dict \<Rightarrow> string" where
  "callback_verdict x p = py_str x (get_or p ''verdict'' (JStr ''ERROR''))"

definition callback_reason :: "externals \<Rightarrow> payload_dict \<Rightarrow> string" where
  "callback_reason x p = py_str x (get_or p ''reason'' (get_or p ''error'' (JStr [])))"

definition graded_row :: "externals \<Rightarrow> payload_dict \<Rightarrow> submission \<Rightarrow> submission" where
  "graded_row x p sub = sub\<lparr>s_status := if is_error_payload p (callback_verdict x p) then ''error'' else ''done'',
     s_judge_cost_usd := (case reported_cost p of None \<Rightarrow> s_judge_cost_usd sub | Some v \<Rightarrow> Some v)\<rparr>"

definition cost_delta :: "payload_dict \<Rightarrow> submission \<Rightarrow> rat" where
  "cost_delta p sub = (case reported_cost p of None \<Rightarrow> 0
     | Some v \<Rightarrow> v - (case s_judge_cost_usd sub of None \<Rightarrow> 0 | Some w \<Rightarrow> w))"

definition job_submission :: "payload_dict \<Rightarrow> store \<Rightarrow> submission option" where
  "job_submission p st = first_where
     (\<lambda>s. s_agent_job_id s \<noteq> None \<and> jopt (s_agent_job_id s) = dict_get p ''job_id'') (t_submissions st)"

definition written :: "externals \<Rightarrow> instant \<Rightarrow> rat \<Rightarrow> payload_dict \<Rightarrow> submission \<Rightarrow> store \<Rightarrow> store" where
  "written x now score p sub st = write_submission now sub (graded_row x p sub)
     (st\<lparr>t_results := (case first_where (\<lambda>r. r_submission_id r = s_id sub) (t_results st) of
        Some e \<Rightarrow> upd_where (\<lambda>r. r_id r = r_id e)
           (\<lambda>r. r\<lparr>r_verdict := callback_verdict x p, r_score_pct := score,
                  r_reason := callback_reason x p, r_full_result := p\<rparr>) (t_results st)
      | None \<Rightarrow> t_results st @
             [\<lparr>r_id = fresh_id r_id (t_results st), r_submission_id = s_id sub,
               r_verdict = callback_verdict x p, r_score_pct = score, r_reason = callback_reason x p,
               r_full_result = p, r_received_at = now\<rparr>])\<rparr>)"

definition billed :: "instant \<Rightarrow> payload_dict \<Rightarrow> submission \<Rightarrow> store \<Rightarrow> store" where
  "billed now p sub st = (if cost_delta p sub = 0 then st
     else case get_question (s_question_id sub) st of None \<Rightarrow> st
     | Some q \<Rightarrow> snd (record_usage alone now (q_org_id q) (no_delta\<lparr>dl_judge_cost_usd := cost_delta p sub\<rparr>) st))"

lemma billed_only_usage:
  "usage_ok st \<Longrightarrow> 0 \<le> now \<Longrightarrow> \<exists>u. billed now p sub st = st\<lparr>t_usage := u\<rparr>"
proof -
  assume a: "usage_ok st" "0 \<le> now"
  have same: "\<exists>u. st = st\<lparr>t_usage := u\<rparr>" by (rule exI [of _ "t_usage st"]) simp
  show ?thesis
  proof (cases "get_question (s_question_id sub) st")
    case None
    then show ?thesis using same by (simp add: billed_def)
  next
    case (Some q)
    then show ?thesis
      using same record_usage_only_usage [OF a, of "q_org_id q" "no_delta\<lparr>dl_judge_cost_usd := cost_delta p sub\<rparr>"]
      by (auto simp: billed_def)
  qed
qed

lemma written_keeps [simp]:
  "t_usage (written x now score p sub st) = t_usage st"
  "t_questions (written x now score p sub st) = t_questions st"
  "t_attempts (written x now score p sub st) = t_attempts st"
  "outbox (written x now score p sub st) = outbox st"
  by (simp_all add: written_def write_submission_def)

lemma usage_ok_cong: "t_usage st = t_usage st' \<Longrightarrow> usage_ok st = usage_ok st'"
  by (simp add: usage_ok_def)

definition notified :: "settings \<Rightarrow> instant \<Rightarrow> string \<Rightarrow> store \<Rightarrow> store" where
  "notified c now i st = (case get_submission i st of None \<Rightarrow> st
     | Some fresh \<Rightarrow> end_sitting_if_complete c id now fresh st)"

lemma callback_result_unfold:
  assumes "job_submission p st = Some sub" and "dict_get p ''verdict'' \<noteq> JNull"
    and "py_float x (get_or p ''score_pct'' (JFloat 0)) = Inr score"
    and "usage_ok st" and "0 \<le> now" and "subs_ok st" and "truthy (dict_get p ''job_id'')"
  shows "assessments_callback c x alone now p st =
    (Inr (Accepted (s_id sub)), notified c now (s_id sub) (billed now p sub (written x now score p sub st)))"
proof -
  let ?w = "written x now score p sub st"
  have sub: "sub \<in> set (t_submissions st)" "dict_get p ''job_id'' = jopt (s_agent_job_id sub)" "s_agent_job_id sub \<noteq> None"
    using find_SomeD [OF assms(1) [unfolded job_submission_def]] by auto
  have getsub: "get_submission (s_id sub) st = Some sub"
    using find_unique [of s_id "t_submissions st" sub] sub(1) assms(6) by (simp add: get_submission_def subs_ok_def)
  have uok: "usage_ok ?w" using usage_ok_cong [of ?w st] assms(4) by simp
  obtain u where u: "billed now p sub ?w = ?w\<lparr>t_usage := u\<rparr>" using billed_only_usage [OF uok assms(5)] by blast
  have bill: "(if cost_delta p sub = 0 then (Inr (), ?w)
      else case get_question (s_question_id sub) ?w of None \<Rightarrow> (Inr (), ?w)
      | Some q \<Rightarrow> record_usage alone now (q_org_id q) (no_delta\<lparr>dl_judge_cost_usd := cost_delta p sub\<rparr>) ?w) =
     (Inr (), billed now p sub ?w)"
  proof (cases "get_question (s_question_id sub) ?w")
    case None
    then show ?thesis by (simp add: billed_def)
  next
    case (Some q)
    then show ?thesis
      using record_usage_only_usage [OF uok assms(5), of "q_org_id q" "no_delta\<lparr>dl_judge_cost_usd := cost_delta p sub\<rparr>"]
      by (auto simp: billed_def)
  qed
  have "get_submission (s_id sub) ?w = Some (orm_write now sub (graded_row x p sub) sub)"
  proof -
    have "get_submission (s_id sub) ?w = map_option (\<lambda>r. if s_id r = s_id sub then orm_write now sub (graded_row x p sub) r else r)
        (get_submission (s_id sub) st)"
      unfolding written_def write_submission_def get_submission_def
      by (simp add: find_upd_where orm_write_def)
    then show ?thesis using getsub by simp
  qed
  then have fresh: "get_submission (s_id sub) (billed now p sub ?w) \<noteq> None"
    unfolding u by (simp add: get_submission_def)
  have nores: "\<not> exists_where (\<lambda>r. r_submission_id r = s_id sub) (t_results st)"
    if "first_where (\<lambda>r. r_submission_id r = s_id sub) (t_results st) = None"
    using that by (simp add: exists_where_find)
  have res: "write_result now (first_where (\<lambda>r. r_submission_id r = s_id sub) (t_results st)) (s_id sub)
      (callback_verdict x p) score (callback_reason x p) p st = Inr st1 \<and>
      write_submission now sub (graded_row x p sub) st1 = ?w"
    if "st1 = st\<lparr>t_results := (case first_where (\<lambda>r. r_submission_id r = s_id sub) (t_results st) of
        Some e \<Rightarrow> upd_where (\<lambda>r. r_id r = r_id e)
           (\<lambda>r. r\<lparr>r_verdict := callback_verdict x p, r_score_pct := score,
                  r_reason := callback_reason x p, r_full_result := p\<rparr>) (t_results st)
      | None \<Rightarrow> t_results st @
             [\<lparr>r_id = fresh_id r_id (t_results st), r_submission_id = s_id sub,
               r_verdict = callback_verdict x p, r_score_pct = score, r_reason = callback_reason x p,
               r_full_result = p, r_received_at = now\<rparr>])\<rparr>" for st1
    using nores by (auto simp: that write_result_def written_def split: option.split)
  have store: "store_result c x alone now sub (callback_verdict x p) (is_error_payload p (callback_verdict x p)) p st =
      (Inr (Accepted (s_id sub)), notified c now (s_id sub) (billed now p sub ?w))"
    using res [OF refl] bill [unfolded alone_fun] fresh
    unfolding store_result_def Let_def alone_fun callback_reason_def [symmetric]
      graded_row_def [symmetric] cost_delta_def [symmetric] assms(3)
    by (auto simp: notified_def refresh_def split: option.splits)
  show ?thesis
    using store assms(1,2,7) unfolding assessments_callback_def Let_def job_submission_def [symmetric]
      callback_verdict_def [symmetric]
    by simp
qed

definition results_ok :: "store \<Rightarrow> bool" where
  "results_ok st = (unique_key r_id (t_results st) \<and> unique_key r_submission_id (t_results st))"

definition result_for :: "string \<Rightarrow> store \<Rightarrow> assessment_result option" where
  "result_for i st = first_where (\<lambda>r. r_submission_id r = i) (t_results st)"

lemma notified_keeps [simp]:
  "t_results (notified c now i st) = t_results st"
  "t_submissions (notified c now i st) = t_submissions st"
  "t_usage (notified c now i st) = t_usage st"
  "t_questions (notified c now i st) = t_questions st"
  by (auto simp: notified_def split: option.splits)

lemma written_results:
  assumes "results_ok st"
  shows "result_for j (written x now score p sub st) =
    (if j = s_id sub
     then Some (case result_for j st of
        Some e \<Rightarrow> e\<lparr>r_verdict := callback_verdict x p, r_score_pct := score,
                     r_reason := callback_reason x p, r_full_result := p\<rparr>
      | None \<Rightarrow> \<lparr>r_id = fresh_id r_id (t_results st), r_submission_id = s_id sub,
               r_verdict = callback_verdict x p, r_score_pct = score, r_reason = callback_reason x p,
               r_full_result = p, r_received_at = now\<rparr>)
     else result_for j st)"
proof (cases "first_where (\<lambda>r. r_submission_id r = s_id sub) (t_results st)")
  case None
  then show ?thesis
    by (auto simp: result_for_def written_def write_submission_def find_append split: option.split)
next
  case (Some e)
  let ?g = "\<lambda>r. r\<lparr>r_verdict := callback_verdict x p, r_score_pct := score,
                  r_reason := callback_reason x p, r_full_result := p\<rparr>"
  have e: "e \<in> set (t_results st)" "r_submission_id e = s_id sub" using find_SomeD [OF Some] by auto
  have same: "r_id r = r_id e \<longleftrightarrow> r_submission_id r = s_id sub" if "r \<in> set (t_results st)" for r
    using that e assms unique_keyD [of r_id "t_results st" r e] unique_keyD [of r_submission_id "t_results st" r e]
    by (auto simp: results_ok_def)
  have "result_for j (written x now score p sub st) =
      map_option (\<lambda>r. if r_id r = r_id e then ?g r else r) (result_for j st)"
    using Some by (simp add: result_for_def written_def write_submission_def find_upd_where)
  note step = this
  show ?thesis
  proof (cases "j = s_id sub")
    case True
    then have "result_for j st = Some e" using Some by (simp add: result_for_def)
    then show ?thesis unfolding step using True by simp
  next
    case False
    have "r_id r \<noteq> r_id e" if "result_for j st = Some r" for r
    proof -
      have "r \<in> set (t_results st)" "r_submission_id r = j"
        using find_SomeD [OF that [unfolded result_for_def]] by auto
      then show ?thesis using same False by blast
    qed
    then show ?thesis unfolding step using False by (cases "result_for j st") simp_all
  qed
qed

lemma get_written:
  "get_submission j (written x now score p sub st) =
    map_option (\<lambda>r. if s_id r = s_id sub then orm_write now sub (graded_row x p sub) r else r) (get_submission j st)"
  unfolding written_def write_submission_def get_submission_def
  by (simp add: find_upd_where orm_write_def)

lemma billed_keeps:
  assumes "usage_ok st" and "0 \<le> now"
  shows "t_results (billed now p sub st) = t_results st"
    and "t_submissions (billed now p sub st) = t_submissions st"
    and "t_attempts (billed now p sub st) = t_attempts st"
    and "t_questions (billed now p sub st) = t_questions st"
  using billed_only_usage [OF assms, of p sub] by auto

subsection \<open>Properties of the callback\<close>

text \<open>
  A result for a known job is accepted and stored as the agent sent it: the result row of
  that submission holds the verdict, the score, the reason and the whole payload, the submission is
  \<open>error\<close> exactly when the payload says it could not be graded and \<open>done\<close> otherwise, and no other
  submission's row or result moves.
\<close>

theorem callback_stores_result:
  fixes c :: settings
  assumes "job_submission p st = Some sub" and "truthy (dict_get p ''job_id'')"
    and "dict_get p ''verdict'' \<noteq> JNull"
    and "py_float x (get_or p ''score_pct'' (JFloat 0)) = Inr score"
    and "subs_ok st" and "results_ok st" and "usage_ok st" and "0 \<le> now"
  defines "r \<equiv> assessments_callback c x alone now p st"
  shows "fst r = Inr (Accepted (s_id sub)) \<and>
    (\<exists>res. result_for (s_id sub) (snd r) = Some res \<and> r_full_result res = p \<and> r_score_pct res = score \<and>
       r_verdict res = callback_verdict x p \<and> r_reason res = callback_reason x p) \<and>
    (\<exists>row. get_submission (s_id sub) (snd r) = Some row \<and>
       s_status row = (if is_error_payload p (callback_verdict x p) then ''error'' else ''done'') \<and>
       s_attempts row = s_attempts sub \<and> s_code row = s_code sub) \<and>
    (\<forall>j. j \<noteq> s_id sub \<longrightarrow> get_submission j (snd r) = get_submission j st \<and> result_for j (snd r) = result_for j st)"
proof -
  let ?w = "written x now score p sub st"
  have uok: "usage_ok ?w" using usage_ok_cong [of ?w st] assms(7) by simp
  have r: "r = (Inr (Accepted (s_id sub)), notified c now (s_id sub) (billed now p sub ?w))"
    unfolding r_def by (rule callback_result_unfold [OF assms(1,3,4,7,8,5,2)])
  have sub: "get_submission (s_id sub) st = Some sub"
    using find_SomeD [OF assms(1) [unfolded job_submission_def]] find_unique [of s_id "t_submissions st" sub]
      assms(5) by (simp add: get_submission_def subs_ok_def)
  have res: "result_for j (snd r) = result_for j ?w" and get: "get_submission j (snd r) = get_submission j ?w" for j
    using billed_keeps [OF uok assms(8)] by (simp_all add: r result_for_def get_submission_def)
  have other: "get_submission j ?w = get_submission j st" if "j \<noteq> s_id sub" for j
    using that by (cases "get_submission j st") (auto simp: get_written dest: get_submission_SomeD)
  have row: "get_submission (s_id sub) ?w = Some (orm_write now sub (graded_row x p sub) sub)"
    using sub by (simp add: get_written)
  have fstr: "fst r = Inr (Accepted (s_id sub))" by (simp add: r)
  have result: "\<exists>res. result_for (s_id sub) ?w = Some res \<and> r_full_result res = p \<and> r_score_pct res = score \<and>
      r_verdict res = callback_verdict x p \<and> r_reason res = callback_reason x p"
    by (simp add: written_results [OF assms(6)] split: option.split)
  have status: "s_status (orm_write now sub (graded_row x p sub) sub) =
      (if is_error_payload p (callback_verdict x p) then ''error'' else ''done'') \<and>
      s_attempts (orm_write now sub (graded_row x p sub) sub) = s_attempts sub \<and>
      s_code (orm_write now sub (graded_row x p sub) sub) = s_code sub"
    by (simp add: orm_write_def graded_row_def)
  have others: "\<forall>j. j \<noteq> s_id sub \<longrightarrow> get_submission j ?w = get_submission j st \<and> result_for j ?w = result_for j st"
    using other by (simp add: written_results [OF assms(6)])
  show ?thesis
    unfolding res get row using fstr result status others by blast
qed

definition example_payload :: payload_dict where
  "example_payload = [(''job_id'', JStr ''s1''), (''verdict'', JStr ''PASS''), (''score_pct'', JInt 90),
     (''reason'', JStr ''ok''), (''judge_cost_usd'', JFloat (1/4))]"

lemma example_payload_facts:
  "dict_get example_payload ''job_id'' = JStr ''s1''"
  "dict_get example_payload ''verdict'' = JStr ''PASS''"
  "py_float x (get_or example_payload ''score_pct'' (JFloat 0)) = Inr 90"
  "job_submission example_payload graded_store = Some example_graded"
  "subs_ok graded_store" "results_ok graded_store" "usage_ok graded_store"
  by (simp_all add: example_payload_def dict_get_def get_or_def py_float_def job_submission_def
      graded_store_def example_graded_def jopt_def subs_ok_def results_ok_def usage_ok_def unique_key_def
      empty_store_def)

lemma callback_stores_result_witness:
  "fst (assessments_callback default_settings example_externals alone 9 example_payload graded_store) = Inr (Accepted ''s1'')"
  using callback_stores_result [OF example_payload_facts(4) _ _ example_payload_facts(3,5,6,7), of 9 default_settings]
  by (simp add: example_payload_facts) (simp add: example_graded_def)

lemma upd_where_same: "(\<And>r. r \<in> set t \<Longrightarrow> p r \<Longrightarrow> f r = r) \<Longrightarrow> upd_where p f t = t"
  by (induction t) auto

lemma written_again:
  assumes "subs_ok st" and "results_ok st" and "get_submission (s_id sub) st = Some sub"
    and "result_for (s_id sub) st = Some res"
    and "r_verdict res = callback_verdict x p" "r_score_pct res = score" "r_reason res = callback_reason x p"
      "r_full_result res = p"
    and "graded_row x p sub = sub"
  shows "written x now score p sub st = st"
proof -
  have f: "first_where (\<lambda>r. r_submission_id r = s_id sub) (t_results st) = Some res"
    using assms(4) by (simp add: result_for_def)
  have res: "res \<in> set (t_results st)" using find_SomeD [OF f] by simp
  have "upd_where (\<lambda>r. r_id r = r_id res) (\<lambda>r. r\<lparr>r_verdict := callback_verdict x p, r_score_pct := score,
      r_reason := callback_reason x p, r_full_result := p\<rparr>) (t_results st) = t_results st"
  proof (rule upd_where_same)
    fix r
    assume "r \<in> set (t_results st)" and "r_id r = r_id res"
    then have "r = res" using res assms(2) unique_keyD [of r_id "t_results st" r res] by (simp add: results_ok_def)
    then show "r\<lparr>r_verdict := callback_verdict x p, r_score_pct := score, r_reason := callback_reason x p,
        r_full_result := p\<rparr> = r"
      using assms(5-8) by simp
  qed
  moreover have "upd_where (\<lambda>r. s_id r = s_id sub) (orm_write now sub sub) (t_submissions st) = t_submissions st"
    by (rule upd_where_same) (simp add: orm_write_def)
  ultimately show ?thesis
    by (simp add: written_def write_submission_def f assms(9))
qed

lemma billed_usage_ok:
  assumes "usage_ok st" and "0 \<le> now"
  shows "usage_ok (billed now p sub st)"
proof -
  have "usage_ok (snd (record_usage alone now i d st))" for i d
  proof (cases "d = no_delta")
    case True
    then show ?thesis using assms(1) by (simp add: record_usage_def)
  next
    case False
    then show ?thesis
      unfolding record_usage_alone [OF assms False]
      using bump_usage_ok [OF opened_usage_ok [OF assms]] by simp
  qed
  then show ?thesis using assms by (simp add: billed_def split: option.split)
qed

lemma written_subs_ok: "subs_ok st \<Longrightarrow> subs_ok (written x now score p sub st)"
  by (simp add: subs_ok_def written_def write_submission_def unique_key_upd orm_write_def)

lemma written_results_ok:
  assumes "results_ok st"
  shows "results_ok (written x now score p sub st)"
proof (cases "first_where (\<lambda>r. r_submission_id r = s_id sub) (t_results st)")
  case None
  then have "s_id sub \<notin> r_submission_id ` set (t_results st)" by (auto simp: find_None_iff')
  with None show ?thesis
    using assms fresh_id_notin [of r_id "t_results st"]
    by (simp add: results_ok_def written_def write_submission_def unique_key_append)
next
  case (Some e)
  then show ?thesis
    using assms by (simp add: results_ok_def written_def write_submission_def unique_key_upd)
qed

lemma notified_idem:
  assumes "unique_key at_id (t_attempts st)"
  shows "notified c later i (notified c now i st) = notified c now i st"
proof (cases "get_submission i st")
  case None
  then show ?thesis by (simp add: notified_def)
next
  case (Some fresh)
  let ?st1 = "end_sitting_if_complete c id now fresh st"
  have again: "fst (claim_sitting c id later fresh ?st1) = None"
  proof (cases "claim_sitting c id now fresh st")
    case (Pair r st')
    show ?thesis
    proof (cases r)
      case None
      then have e: "?st1 = st"
        using Pair claim_sitting_None_state [of c now fresh st] by (simp add: end_sitting_if_complete_def)
      have n: "fst (claim_sitting c id now fresh st) = None" using Pair None by simp
      show ?thesis unfolding e by (rule claim_sitting_None_cong [OF n]) simp_all
    next
      case (Some ready)
      then have "?st1 = st'\<lparr>outbox := outbox st' @ [Deliver ready]\<rparr>"
        using Pair by (simp add: end_sitting_if_complete_def)
      moreover have "fst (claim_sitting c id later fresh st') = None"
        using claim_sitting_again [OF assms _ refl, of c now fresh ready st'] Pair Some by simp
      ultimately show ?thesis using claim_sitting_None_cong [of c later fresh st' fresh ?st1 later] by simp
    qed
  qed
  then have "end_sitting_if_complete c id later fresh ?st1 = ?st1"
    using claim_sitting_None_state [OF again]
    by (cases "claim_sitting c id later fresh ?st1") (simp add: end_sitting_if_complete_def)
  moreover have "get_submission i ?st1 = Some fresh"
    using Some end_sitting_submissions(1) [of c now fresh st] by (simp add: get_submission_def)
  ultimately show ?thesis using Some by (simp add: notified_def)
qed

text \<open>
  A result delivered again changes nothing at all: the grade is not billed twice, the
  interviewer is not told twice and no row moves.
\<close>

theorem callback_redelivered:
  fixes c :: settings
  assumes "job_submission p st = Some sub" and "truthy (dict_get p ''job_id'')"
    and "dict_get p ''verdict'' \<noteq> JNull"
    and "py_float x (get_or p ''score_pct'' (JFloat 0)) = Inr score"
    and "subs_ok st" and "results_ok st" and "usage_ok st" and "unique_key at_id (t_attempts st)"
    and "0 \<le> now" and "0 \<le> later"
  defines "st1 \<equiv> snd (assessments_callback c x alone now p st)"
  shows "snd (assessments_callback c x alone later p st1) = st1"
proof -
  let ?w = "written x now score p sub st"
  let ?b = "billed now p sub ?w"
  let ?sub1 = "orm_write now sub (graded_row x p sub) sub"
  have uok: "usage_ok ?w" using usage_ok_cong [of ?w st] assms(7) by simp
  note keeps = billed_keeps [OF uok assms(9)]
  have st1: "st1 = notified c now (s_id sub) ?b"
    unfolding st1_def by (simp add: callback_result_unfold [OF assms(1,3,4,7,9,5,2)])
  have rows: "t_submissions st1 = t_submissions ?w" "t_results st1 = t_results ?w" "t_usage st1 = t_usage ?b"
    using keeps by (simp_all add: st1)
  have sub: "get_submission (s_id sub) st = Some sub"
    using find_SomeD [OF assms(1) [unfolded job_submission_def]] find_unique [of s_id "t_submissions st" sub]
      assms(5) by (simp add: get_submission_def subs_ok_def)
  have job: "job_submission p st1 = Some ?sub1"
  proof -
    have "job_submission p st1 = map_option (\<lambda>r. if s_id r = s_id sub then orm_write now sub (graded_row x p sub) r else r)
        (job_submission p st)"
      unfolding job_submission_def rows(1) by (simp add: written_def write_submission_def find_upd_where orm_write_def)
    then show ?thesis using assms(1) by simp
  qed
  have id1: "s_id ?sub1 = s_id sub" by (simp add: orm_write_def)
  have g1: "graded_row x p ?sub1 = ?sub1"
    by (auto simp: orm_write_def graded_row_def split: option.splits)
  have cost: "cost_delta p ?sub1 = 0"
    by (auto simp: cost_delta_def orm_write_def graded_row_def split: option.splits)
  have ok1: "subs_ok st1" "results_ok st1" "usage_ok st1"
    using written_subs_ok [OF assms(5), of x now score p sub] written_results_ok [OF assms(6), of x now score p sub]
      billed_usage_ok [OF uok assms(9), of p sub] rows usage_ok_cong [of st1 ?b]
    by (simp_all add: subs_ok_def results_ok_def)
  have get1: "get_submission (s_id ?sub1) st1 = Some ?sub1"
    using sub by (simp add: id1 get_submission_def rows(1)) (simp add: get_written [unfolded get_submission_def])
  obtain res where res: "result_for (s_id sub) st1 = Some res"
    "r_verdict res = callback_verdict x p" "r_score_pct res = score" "r_reason res = callback_reason x p"
    "r_full_result res = p"
    using written_results [OF assms(6), of "s_id sub" x now score p sub]
    by (simp add: result_for_def rows(2) split: option.splits)
  have same: "written x later score p ?sub1 st1 = st1"
    using written_again [OF ok1(1,2) get1, of res x p score later] res g1 id1 by simp
  have "snd (assessments_callback c x alone later p st1) =
      notified c later (s_id sub) (billed later p ?sub1 (written x later score p ?sub1 st1))"
    using callback_result_unfold [OF job assms(3,4) ok1(3) assms(10) ok1(1) assms(2), of c] id1 by simp
  also have "\<dots> = notified c later (s_id sub) st1"
    unfolding same by (simp add: billed_def cost)
  also have "\<dots> = st1"
    unfolding st1 using keeps(3) assms(8) by (intro notified_idem) simp
  finally show ?thesis .
qed

lemma callback_redelivered_witness:
  "let st1 = snd (assessments_callback default_settings example_externals alone 9 example_payload graded_store)
   in snd (assessments_callback default_settings example_externals alone 11 example_payload st1) = st1"
  using callback_redelivered [OF example_payload_facts(4) _ _ example_payload_facts(3,5,6,7),
      of 9 11 default_settings]
  by (simp add: example_payload_facts Let_def) (simp add: graded_store_def unique_key_def)

text \<open>
  C36. A worker error is not a grade, whatever siblings commit while the callback runs. A submission that is \<open>done\<close>
  when the callback reads it is answered as graded and nothing changes. One that is pending or running with attempts left is
  answered as requeued: no result, cost, notification or other row comes of it, everything is as the siblings left
  it, and of the submission's own row only the status moves - to \<open>pending\<close>, when it was read as running, with attempts, job
  and a grade stored meanwhile kept. (A status \<open>done\<close> that lands between the read and the write is overwritten with it.)
\<close>

theorem worker_error_keeps_grade:
  fixes c :: settings and x :: externals and now :: instant and others :: interference
  assumes "job_submission p st = Some sub" and "truthy (dict_get p ''job_id'')"
    and "dict_get p ''verdict'' = JNull"
  defines "r \<equiv> assessments_callback c x others now p st"
  shows "(s_status sub = ''done'' \<longrightarrow> r = (Inr (Ignored ''already graded''), st)) \<and>
    (s_status sub \<in> {''pending'', ''running''} \<and> s_attempts sub < c_max_trigger_attempts c \<longrightarrow>
       fst r = Inr (Requeued (s_id sub)) \<and> (\<exists>subs. snd r = (others 0 st)\<lparr>t_submissions := subs\<rparr>) \<and>
       (\<forall>i. get_submission i (snd r) = map_option
          (\<lambda>row. if i = s_id sub \<and> s_status sub = ''running'' then row\<lparr>s_status := ''pending'', s_updated_at := now\<rparr> else row)
          (get_submission i (others 0 st))))"
proof -
  have err: "is_error_payload p (callback_verdict x p)"
    using assms(3) by (simp add: is_error_payload_def callback_verdict_def get_or_def py_str_def)
  have w: "get_submission i (write_submission now sub (sub\<lparr>s_status := ''pending''\<rparr>) s) = map_option
      (\<lambda>row. if i = s_id sub \<and> s_status sub = ''running'' then row\<lparr>s_status := ''pending'', s_updated_at := now\<rparr> else row)
      (get_submission i s)" if "s_status sub \<in> {''pending'', ''running''}" for i s
  proof -
    have "get_submission i (write_submission now sub (sub\<lparr>s_status := ''pending''\<rparr>) s) =
      map_option (\<lambda>r. if s_id r = s_id sub then orm_write now sub (sub\<lparr>s_status := ''pending''\<rparr>) r else r) (get_submission i s)"
      unfolding write_submission_def get_submission_def by (simp add: find_upd_where orm_write_def)
    also have "\<dots> = map_option
      (\<lambda>row. if i = s_id sub \<and> s_status sub = ''running'' then row\<lparr>s_status := ''pending'', s_updated_at := now\<rparr> else row)
      (get_submission i s)"
      using that by (cases "get_submission i s") (auto simp: orm_write_def dest!: get_submission_SomeD)
    finally show ?thesis .
  qed
  have "r = (if s_status sub = ''done'' then (Inr (Ignored ''already graded''), st)
      else (Inr (Requeued (s_id sub)), write_submission now sub (sub\<lparr>s_status := ''pending''\<rparr>) (others 0 st)))"
    if "s_status sub = ''done'' \<or> s_status sub \<in> {''pending'', ''running''} \<and> s_attempts sub < c_max_trigger_attempts c"
    using assms(1,2,3) err that
    unfolding r_def assessments_callback_def Let_def job_submission_def [symmetric]
      callback_verdict_def [symmetric]
    by auto
  then show ?thesis using w by (auto simp: write_submission_def)
qed

definition worker_error :: payload_dict where
  "worker_error = [(''job_id'', JStr ''s1''), (''status'', JStr ''error''), (''error'', JStr ''shutdown'')]"

lemma worker_error_keeps_grade_witness:
  "assessments_callback default_settings example_externals alone 9 worker_error graded_store =
    (Inr (Ignored ''already graded''), graded_store)"
proof -
  have a: "job_submission worker_error graded_store = Some example_graded"
    "dict_get worker_error ''verdict'' = JNull" "truthy (dict_get worker_error ''job_id'')"
    by (simp_all add: worker_error_def dict_get_def job_submission_def graded_store_def example_graded_def jopt_def)
  have "s_status example_graded = ''done''" by (simp add: example_graded_def)
  then show ?thesis
    using worker_error_keeps_grade [OF a(1,3,2), of default_settings example_externals alone 9] by simp
qed

text \<open>
  The write of the worker-error branch is not conditional: when the grade lands between the
  handler's read and its commit, the handler still puts the row back to \<open>pending\<close>, and the stored
  grade waits for a second trigger.
\<close>

lemma worker_error_race_regresses:
  "let running = example_graded\<lparr>s_status := ''running''\<rparr>;
       st = graded_store\<lparr>t_submissions := [running]\<rparr>;
       grade = (\<lambda>k s. if k = 0 then snd (assessments_callback default_settings x alone 8 example_payload s) else s);
       r = assessments_callback default_settings x grade 9 worker_error st
   in map s_status (t_submissions (grade 0 st)) = [''done''] \<and> length (t_results (snd r)) = 1 \<and>
      map s_status (t_submissions (snd r)) = [''pending'']"
  by (simp add: Let_def assessments_callback_def worker_error_def example_payload_def dict_get_def get_or_def
      py_str_def is_error_payload_def graded_store_def example_graded_def jopt_def default_settings_def
      write_submission_def orm_write_def store_result_def py_float_def alone_simp write_result_def
      exists_where_def reported_cost_def get_question_def empty_store_def refresh_def get_submission_def
      end_sitting_if_complete_def claim_sitting_def candidate_email_of_def get_invite_def example_invite_def
      graded_submissions_def slot_count_def attempt_for_def example_attempt_def claim_stamp_def TERMINAL_def
      payload_def fresh_id_def)

lemma reopen_keeps [simp]:
  "t_submissions (reopen_sitting sub st) = t_submissions st"
  "t_questions (reopen_sitting sub st) = t_questions st"
  by (simp_all add: reopen_sitting_def split: option.splits prod.splits)

text \<open>
  An interviewer can retry only a submission in \<open>error\<close> (anything else is a 409 that changes
  nothing); the retry counts one more attempt on the same row, clears the old reason and reopens
  the sitting, so that the result it brings is reported again.
\<close>

theorem retry_only_from_error:
  fixes c :: settings and x :: externals and now :: instant
  assumes "owned_submission i org st = Inr sub" and "subs_ok st"
    and "get_question (s_question_id sub) st = Some q"
    and "trigger_assessment agent q (claimed_row now sub) (callback_url c)
           (claimed_store now sub (reopen_sitting sub st)) = Inr job"
  defines "r \<equiv> retry_submission c x agent alone now i org st"
  shows "(s_status sub \<noteq> ''error'' \<longrightarrow> (\<exists>d. fst r = Inl (HTTPException 409 d)) \<and> snd r = st) \<and>
    (s_status sub = ''error'' \<longrightarrow>
       (\<exists>row. get_submission i (snd r) = Some row \<and> s_status row = ''running'' \<and>
          s_attempts row = s_attempts sub + 1 \<and> s_error_reason row = None \<and> s_agent_job_id row = Some job) \<and>
       (\<forall>inv email a. candidate_email_of sub = Some (inv, email) \<longrightarrow> attempt_for inv email (snd r) = Some a \<longrightarrow>
          at_results_notified_at a = None))"
proof -
  let ?st0 = "reopen_sitting sub st"
  let ?st1 = "claimed_store now sub ?st0"
  let ?e = "(''pending'', s_attempts sub + 1)"
  have get: "get_submission i st = Some sub" using owned_submission_InrD [OF assms(1)] by blast
  then have i: "s_id sub = i" by (auto dest: get_submission_SomeD)
  have get0: "get_submission (s_id sub) ?st0 = Some sub" using get i by (simp add: get_submission_def)
  have ok0: "subs_ok ?st0" using assms(2) by (simp add: subs_ok_def)
  have cas: "cas_row i now (running_values job) ?e ?st1 =
      (Inr (True, (running_values job (claimed_row now sub))\<lparr>s_updated_at := now\<rparr>),
       swapped i now (running_values job) ?e ?st1)"
    using cas_row_eq [OF claimed_store_ok [OF ok0] claimed_store_get [OF get0], of "running_values job" now ?e] i
    by (simp add: claimed_row_def claim_values_def)
  have trig: "trigger_agent c x agent alone now q sub ?st0 =
      (Inr ((running_values job (claimed_row now sub))\<lparr>s_updated_at := now\<rparr>), swapped i now (running_values job) ?e ?st1)"
    unfolding trigger_agent_claimed [OF ok0 get0] Let_def using assms(4) cas i by (simp add: alone_simp)
  have row: "get_submission i (swapped i now (running_values job) ?e ?st1) =
      Some ((running_values job (claimed_row now sub))\<lparr>s_updated_at := now\<rparr>)"
    using claimed_store_get [OF get0, of now] i
    by (simp add: get_swapped claimed_row_def claim_values_def)
  have atts: "t_attempts (swapped i now (running_values job) ?e ?st1) = t_attempts ?st0"
    by (simp add: swapped_def claimed_store_def)
  have clear: "at_results_notified_at a = None"
    if "candidate_email_of sub = Some (inv, email)" and "attempt_for inv email (snd (Inr s, swapped i now (running_values job) ?e ?st1)) = Some a"
    for inv email a and s :: submission
  proof -
    have ina: "a \<in> set (t_attempts ?st0)" and key: "at_invite_id a = inv" "at_candidate_email a = email"
      using that(2) atts by (auto simp: attempt_for_def dest!: find_SomeD)
    from ina that(1) obtain r0 where "a = (if at_invite_id r0 = inv \<and> at_candidate_email r0 = email
        then r0\<lparr>at_results_notified_at := None\<rparr> else r0)"
      by (simp add: reopen_sitting_def in_upd_where) blast
    then show ?thesis using key by (cases "at_invite_id r0 = inv \<and> at_candidate_email r0 = email") auto
  qed
  have r: "s_status sub = ''error'' \<Longrightarrow> r = trigger_agent c x agent alone now q sub ?st0"
    using assms(1,3) by (simp add: r_def retry_submission_def)
  show ?thesis
  proof (cases "s_status sub = ''error''")
    case False
    then show ?thesis using assms(1) by (simp add: r_def retry_submission_def)
  next
    case True
    have "\<exists>row. get_submission i (snd r) = Some row \<and> s_status row = ''running'' \<and>
          s_attempts row = s_attempts sub + 1 \<and> s_error_reason row = None \<and> s_agent_job_id row = Some job"
      unfolding r [OF True] trig snd_conv row by (simp add: running_values_def claimed_row_def claim_values_def)
    moreover have "\<forall>inv email a. candidate_email_of sub = Some (inv, email) \<longrightarrow> attempt_for inv email (snd r) = Some a \<longrightarrow>
          at_results_notified_at a = None"
      unfolding r [OF True] trig using clear by blast
    ultimately show ?thesis using True by simp
  qed
qed

definition accepting_agent :: "json \<Rightarrow> agent" where
  "accepting_agent b n = Inr \<lparr>rs_status_code = 202, rs_text = [], rs_json = Some (JObj [(''job_id'', JStr ''s1'')])\<rparr>"

lemma accepting_trigger: "trigger_assessment accepting_agent q s u st = Inr ''s1''"
  by (simp add: trigger_assessment_def post_with_retry_def TRIGGER_TRANSPORT_ATTEMPTS_def accepting_agent_def
      raise_for_status_def reply_job_id_def numeral_3_eq_3)

lemma retry_only_from_error_witness:
  "let st = graded_store\<lparr>t_questions := [example_question],
              t_submissions := [example_graded\<lparr>s_status := ''error''\<rparr>]\<rparr>;
       r = retry_submission default_settings example_externals accepting_agent alone 9 ''s1'' example_admin st
   in \<exists>row. get_submission ''s1'' (snd r) = Some row \<and> s_status row = ''running'' \<and> s_attempts row = 2"
proof -
  let ?sub = "example_graded\<lparr>s_status := ''error''\<rparr>"
  let ?st = "graded_store\<lparr>t_questions := [example_question], t_submissions := [?sub]\<rparr>"
  have a: "owned_submission ''s1'' example_admin ?st = Inr ?sub"
    by (simp add: owned_submission_def owned_question_def get_submission_def get_question_def example_graded_def
        example_question_def example_admin_def)
  have b: "subs_ok ?st" by (simp add: subs_ok_def unique_key_def)
  have attempts: "s_attempts example_graded = 1" by (simp add: example_graded_def)
  have q: "get_question (s_question_id ?sub) ?st = Some example_question"
    by (simp add: get_question_def example_question_def example_graded_def)
  show ?thesis
    using retry_only_from_error [OF a b q accepting_trigger, where c = default_settings and now = 9 and x = example_externals]
    by (auto simp: Let_def attempts)
qed

end
