(* ===== verification/Candidate.thy ===== *)
theory Candidate
  imports Sitting Grading RateLimit
begin

section \<open>Candidate: the public routes of a sitting\<close>

text \<open>
  The candidate routes of \<open>api.py\<close>: the probe, start, run, run-tests, submit, integrity events,
  feedback and drafts. A body is a record of the fields the request schemas have validated. A
  request carries the proxy header, the peer's address and the two clocks; one request reads one
  wall-clock time. Interference points: 0 to 3 as in \<open>Sitting\<close>, 4 before the route's own INSERT,
  5 onwards inside the trigger, and \<open>10 + k\<close> before the INSERT of the \<open>k\<close>-th slot's variant.
  \<open>shown\<close> is \<open>str\<close> of an HTTP client error.
\<close>

record request =
  rq_forwarded :: "string option"
  rq_peer :: "string option"
  rq_tick :: instant
  rq_now :: instant

definition limit_route :: "settings \<Rightarrow> string \<Rightarrow> int \<Rightarrow> request \<Rightarrow> store \<Rightarrow> (unit, store) outcome" where
  "limit_route c bucket cap rq st =
     limiter_check c bucket (client_ip c (rq_forwarded rq) (rq_peer rq)) cap (c_rate_limit_window_s c)
       (rq_tick rq) (rq_now rq) st"

definition slot_points :: "interference \<Rightarrow> interference" where
  "slot_points others k = others (10 + k)"

definition trigger_points :: "interference \<Rightarrow> interference" where
  "trigger_points others k = others (5 + k)"

subsection \<open>The probe\<close>

definition SUPPORTED_LANGUAGES :: "string list" where
  "SUPPORTED_LANGUAGES = [''python'', ''javascript'', ''java'', ''cpp'', ''c'', ''go'', ''ruby'', ''rust'']"

definition invite_assessment :: "invite \<Rightarrow> store \<Rightarrow> assessment option" where
  "invite_assessment v st = Option.bind (inv_assessment_id v) (\<lambda>i. get_assessment i st)"

record invite_status =
  is_status :: string
  is_expires_at :: "instant option"
  is_proctored :: bool
  is_assessment_title :: "string option"
  is_org_name :: "string option"
  is_logo_sha :: "string option"
  is_question_count :: nat
  is_duration_minutes :: "int option"
  is_languages :: "string list"
  is_support_email :: "string option"

definition get_invite_status :: "settings \<Rightarrow> instant \<Rightarrow> string \<Rightarrow> store \<Rightarrow> exn + invite_status" where
  "get_invite_status c now token st =
    sbind (load_invite_or_error now token None True st) (\<lambda>v.
      let a = invite_assessment v st in
      Inr \<lparr>is_status = (if is_expired now (inv_expires_at v) then ''expired'' else ''active''),
        is_expires_at = inv_expires_at v, is_proctored = inv_proctored v,
        is_assessment_title = map_option a_title a,
        is_org_name = Option.bind a a_org_name, is_logo_sha = Option.bind a a_logo_sha,
        is_question_count = (case a of None \<Rightarrow> 1 | Some a \<Rightarrow> length (assessment_slots a st)),
        is_duration_minutes = invite_duration v, is_languages = SUPPORTED_LANGUAGES,
        is_support_email = generic_contact_email c\<rparr>)"

subsection \<open>Starting\<close>

record question_view =
  qv_title :: string
  qv_prompt :: string
  qv_constraints :: string
  qv_example_input :: "string option"
  qv_example_output :: "string option"
  qv_time_limit_s :: rat

record question_public = question_view +
  qp_id :: string
  qp_submitted :: bool

record invite_public =
  ip_question :: question_view
  ip_questions :: "question_public list"
  ip_languages :: "string list"
  ip_deadline :: "instant option"
  ip_started_at :: "instant option"
  ip_server_now :: "instant option"
  ip_assessment_title :: "string option"
  ip_org_name :: "string option"
  ip_logo_sha :: "string option"
  ip_proctored :: bool
  ip_support_email :: "string option"
  ip_feedback_enabled :: bool

definition feedback_accepted :: "invite \<Rightarrow> bool" where
  "feedback_accepted v = (inv_assessment_id v \<noteq> None)"

definition view_of :: "question \<Rightarrow> question_view" where
  "view_of q = \<lparr>qv_title = q_title q, qv_prompt = q_prompt q, qv_constraints = q_constraints q,
     qv_example_input = q_example_input q, qv_example_output = q_example_output q,
     qv_time_limit_s = q_time_limit_s q\<rparr>"

definition public_of :: "string set \<Rightarrow> question \<Rightarrow> question_public" where
  "public_of submitted q = \<lparr>qv_title = q_title q, qv_prompt = q_prompt q, qv_constraints = q_constraints q,
     qv_example_input = q_example_input q, qv_example_output = q_example_output q,
     qv_time_limit_s = q_time_limit_s q, qp_id = q_id q, qp_submitted = (q_id q \<in> submitted)\<rparr>"

definition submitted_ids :: "invite \<Rightarrow> string \<Rightarrow> store \<Rightarrow> string set" where
  "submitted_ids v email st = set (map s_question_id
     (filter (\<lambda>s. s_invite_id s = Some (inv_id v) \<and> s_candidate_email s = Some email) (t_submissions st)))"

definition candidate_question_view :: "settings \<Rightarrow> interference \<Rightarrow> instant \<Rightarrow> invite \<Rightarrow> candidate_attempt option \<Rightarrow>
    store \<Rightarrow> (invite_public, store) outcome" where
  "candidate_question_view c others now v attempt st =
    (let email = map_option at_candidate_email attempt;
         a = invite_assessment v st;
         organization = (if a = None then invite_org v st else None)
     in bindr (invite_questions others v email st) (\<lambda>qs st1.
       let deadline = Option.bind attempt (\<lambda>t. deadline_for (at_started_at t) (invite_duration v));
           submitted = (case attempt of None \<Rightarrow> {} | Some t \<Rightarrow> submitted_ids v (at_candidate_email t) st1)
       in (Inr \<lparr>ip_question = view_of (hd qs), ip_questions = map (public_of submitted) qs,
            ip_languages = SUPPORTED_LANGUAGES, ip_deadline = deadline,
            ip_started_at = map_option at_started_at attempt,
            ip_server_now = map_option (\<lambda>_. now) attempt,
            ip_assessment_title = map_option a_title a,
            ip_org_name = (case a of Some a \<Rightarrow> a_org_name a | None \<Rightarrow> map_option o_name organization),
            ip_logo_sha = (case a of Some a \<Rightarrow> a_logo_sha a | None \<Rightarrow> Option.bind organization o_logo_sha),
            ip_proctored = inv_proctored v,
            ip_support_email = invite_contact_email c v st1,
            ip_feedback_enabled = feedback_accepted v\<rparr>, st1)))"

record start_in =
  st_email :: string
  st_consent :: bool
  st_name :: "string option"

definition start_invite :: "settings \<Rightarrow> interference \<Rightarrow> request \<Rightarrow> string \<Rightarrow> start_in \<Rightarrow> store \<Rightarrow>
    (invite_public, store) outcome" where
  "start_invite c others rq token body st =
    bindr (limit_route c ''start'' (c_submit_rate_limit_max c) rq st) (\<lambda>_ st0.
      let now = rq_now rq; email = normalize_email (st_email body) in
      guardr (load_invite_or_error now token (Some email) False st0) st0 (\<lambda>v.
      guardr (check_invited v email) st0 (\<lambda>_.
      guardr (case inv_question_id v of
                Some q \<Rightarrow> if inv_assessment_id v = None then check_not_already_submitted v email q st0 else Inr ()
              | None \<Rightarrow> Inr ()) st0 (\<lambda>_.
      bindr (get_or_start_attempt c others now v email (st_name body) (st_consent body) st0) (\<lambda>a st1.
        candidate_question_view c (slot_points others) now v (Some a) st1)))))"

subsection \<open>Running code\<close>

text \<open>The gates of run and run-tests; resolving the question may deal a variant.\<close>

definition load_invite_for_candidate :: "interference \<Rightarrow> instant \<Rightarrow> string \<Rightarrow> string \<Rightarrow> string option \<Rightarrow> store \<Rightarrow>
    (invite \<times> question, store) outcome" where
  "load_invite_for_candidate others now token email qid st =
    guardr (load_invite_or_error now token (Some email) False st) st (\<lambda>v.
    guardr (check_invited v email) st (\<lambda>_.
    bindr (resolve_question others v qid email st) (\<lambda>q st1.
    guardr (check_not_already_submitted v email (q_id q) st1) st1 (\<lambda>_. (Inr (v, q), st1)))))"

definition agent_run_call :: "externals \<Rightarrow> (failure \<Rightarrow> string) \<Rightarrow> string \<Rightarrow> failure + response \<Rightarrow> exn + json" where
  "agent_run_call x shown what reply =
    (let failed = (\<lambda>e. Inl (HTTPException 502 (what @ '' failed: '' @ shown e))) in
     case reply of
       Inr r \<Rightarrow> (case rs_json r of None \<Rightarrow> failed OtherFailure | Some j \<Rightarrow> Inr j)
     | Inl e \<Rightarrow> (case e of
         HTTPStatusError r \<Rightarrow>
           if rs_status_code r = 400 then sbind (agent_detail x r) (\<lambda>d. Inl (HTTPException 400 d))
           else failed e
       | _ \<Rightarrow> failed e))"

definition as_dict :: "json \<Rightarrow> exn + (string \<times> json) list" where
  "as_dict j = (case j of JObj d \<Rightarrow> Inr d | _ \<Rightarrow> Inl AttributeError)"

definition invalid :: exn where
  "invalid = ValueError ''validation error''"

definition want_str :: "json \<Rightarrow> exn + string" where
  "want_str j = (case j of JStr s \<Rightarrow> Inr s | _ \<Rightarrow> Inl invalid)"

definition want_opt_str :: "json \<Rightarrow> exn + string option" where
  "want_opt_str j = (case j of JNull \<Rightarrow> Inr None | JStr s \<Rightarrow> Inr (Some s) | _ \<Rightarrow> Inl invalid)"

definition want_category :: "json \<Rightarrow> exn + string" where
  "want_category j = sbind (want_str j) (\<lambda>s.
     if s \<in> {''correctness'', ''performance''} then Inr s else Inl invalid)"

text \<open>\<open>d.get(k, default)\<close>: the default stands in for a missing key only.\<close>

definition get_default :: "(string \<times> json) list \<Rightarrow> string \<Rightarrow> json \<Rightarrow> json" where
  "get_default d k v = (case map_of d k of None \<Rightarrow> v | Some w \<Rightarrow> w)"

definition infra_check :: "externals \<Rightarrow> string \<Rightarrow> (string \<times> json) list \<Rightarrow> exn + unit" where
  "infra_check x what d = require (\<not> truthy (dict_get d ''infra_error''))
     (HTTPException 502 (what @ '' failed: '' @ py_str x (dict_get d ''infra_error'')))"

record run_in =
  ru_email :: string
  ru_language :: string
  ru_code :: string
  ru_stdin :: string
  ru_question_id :: "string option"

record run_out =
  ro_stdout :: string
  ro_stderr :: "string option"
  ro_duration_s :: rat
  ro_timed_out :: bool
  ro_compile_error :: "string option"

definition run_reply :: "externals \<Rightarrow> (failure \<Rightarrow> string) \<Rightarrow> failure + response \<Rightarrow> exn + run_out" where
  "run_reply x shown reply =
    sbind (agent_run_call x shown ''run'' reply) (\<lambda>j.
    sbind (as_dict j) (\<lambda>d.
    sbind (infra_check x ''run'' d) (\<lambda>_.
    sbind (want_str (get_default d ''stdout'' (JStr []))) (\<lambda>out.
    sbind (want_opt_str (dict_get d ''stderr'')) (\<lambda>err.
    sbind (py_float x (get_default d ''duration_s'' (JFloat 0))) (\<lambda>dur.
    sbind (want_opt_str (dict_get d ''compile_error'')) (\<lambda>comp.
      Inr \<lparr>ro_stdout = out, ro_stderr = err, ro_duration_s = dur,
           ro_timed_out = truthy (dict_get d ''timed_out''), ro_compile_error = comp\<rparr>)))))))"

definition candidate_run :: "settings \<Rightarrow> externals \<Rightarrow> (failure \<Rightarrow> string) \<Rightarrow> (json \<Rightarrow> agent) \<Rightarrow> interference \<Rightarrow> request \<Rightarrow>
    string \<Rightarrow> run_in \<Rightarrow> store \<Rightarrow> (run_out, store) outcome" where
  "candidate_run c x shown agent others rq token body st =
    bindr (limit_route c ''run'' (c_run_rate_limit_max c) rq st) (\<lambda>_ st0.
    bindr (load_invite_for_candidate (slot_points others) (rq_now rq) token (normalize_email (ru_email body))
             (ru_question_id body) st0) (\<lambda>_ st1.
      (run_reply x shown (run_code agent (ru_code body) (ru_language body) (ru_stdin body)), st1)))"

record test_outcome =
  to_index :: nat
  to_category :: string
  to_status :: string
  to_duration_s :: rat

record run_tests_out =
  rt_total :: nat
  rt_passed :: nat
  rt_compile_error :: "string option"
  rt_test_cases :: "test_outcome list"

definition test_outcome_of :: "externals \<Rightarrow> nat \<Rightarrow> json \<Rightarrow> exn + test_outcome" where
  "test_outcome_of x i j =
    sbind (as_dict j) (\<lambda>d.
    sbind (want_category (get_default d ''category'' (JStr ''correctness''))) (\<lambda>cat.
    sbind (want_str (get_default d ''status'' (JStr ''FAIL''))) (\<lambda>status.
    sbind (py_float x (get_default d ''duration_s'' (JFloat 0))) (\<lambda>dur.
      Inr \<lparr>to_index = i, to_category = cat, to_status = status, to_duration_s = dur\<rparr>))))"

fun test_outcomes :: "externals \<Rightarrow> nat \<Rightarrow> json list \<Rightarrow> exn + test_outcome list" where
  "test_outcomes x i [] = Inr []"
| "test_outcomes x i (j # js) =
     sbind (test_outcome_of x i j) (\<lambda>t. sbind (test_outcomes x (Suc i) js) (\<lambda>ts. Inr (t # ts)))"

definition run_tests_reply :: "externals \<Rightarrow> (failure \<Rightarrow> string) \<Rightarrow> failure + response \<Rightarrow> exn + run_tests_out" where
  "run_tests_reply x shown reply =
    sbind (agent_run_call x shown ''run-tests'' reply) (\<lambda>j.
    sbind (as_dict j) (\<lambda>d.
    sbind (infra_check x ''run-tests'' d) (\<lambda>_.
    sbind (py_iter (get_default d ''test_cases'' (JList []))) (\<lambda>js.
    sbind (test_outcomes x 1 js) (\<lambda>cases.
    sbind (want_opt_str (dict_get d ''compile_error'')) (\<lambda>comp.
      Inr \<lparr>rt_total = length cases, rt_passed = count_where (\<lambda>t. to_status t = ''PASS'') cases,
           rt_compile_error = comp, rt_test_cases = cases\<rparr>))))))"

record run_tests_in =
  te_email :: string
  te_language :: string
  te_code :: string
  te_question_id :: "string option"

definition candidate_run_tests :: "settings \<Rightarrow> externals \<Rightarrow> (failure \<Rightarrow> string) \<Rightarrow> (json \<Rightarrow> agent) \<Rightarrow> interference \<Rightarrow> request \<Rightarrow>
    string \<Rightarrow> run_tests_in \<Rightarrow> store \<Rightarrow> (run_tests_out, store) outcome" where
  "candidate_run_tests c x shown agent others rq token body st =
    bindr (limit_route c ''run'' (c_run_rate_limit_max c) rq st) (\<lambda>_ st0.
    bindr (load_invite_for_candidate (slot_points others) (rq_now rq) token (normalize_email (te_email body))
             (te_question_id body) st0) (\<lambda>(_, q) st1.
      (run_tests_reply x shown (run_tests agent q (te_code body) (te_language body) st1), st1)))"

subsection \<open>Submitting\<close>

record submit_in =
  su_name :: string
  su_email :: string
  su_language :: string
  su_code :: string
  su_question_id :: "string option"
  su_consent :: bool

definition candidate_label :: "candidate_attempt \<Rightarrow> string \<Rightarrow> string" where
  "candidate_label a typed = (case at_candidate_name a of
     Some n \<Rightarrow> if n \<noteq> [] then n else typed | None \<Rightarrow> typed)"

definition candidate_submission :: "settings \<Rightarrow> instant \<Rightarrow> string \<Rightarrow> invite \<Rightarrow> string \<Rightarrow> submit_in \<Rightarrow> question \<Rightarrow>
    candidate_attempt \<Rightarrow> submission" where
  "candidate_submission c now new_id v email body q a =
     new_submission new_id (q_id q) (Some (inv_id v)) (candidate_label a (su_name body)) (Some email)
       (su_language body) (su_code body) (submit_is_late c now v a) now"

text \<open>The INSERT: the primary key and the (invite, candidate, question) constraint.\<close>

definition insert_submission :: "submission \<Rightarrow> store \<Rightarrow> (unit, store) outcome" where
  "insert_submission sub st =
    (if exists_where (\<lambda>s. s_id s = s_id sub \<or> sub_key s \<noteq> None \<and> sub_key s = sub_key sub) (t_submissions st)
     then (Inl already_submitted, st)
     else (Inr (), st\<lparr>t_submissions := t_submissions st @ [sub]\<rparr>))"

definition candidate_submit :: "settings \<Rightarrow> externals \<Rightarrow> (json \<Rightarrow> agent) \<Rightarrow> interference \<Rightarrow> request \<Rightarrow> string \<Rightarrow>
    string \<Rightarrow> submit_in \<Rightarrow> store \<Rightarrow> (string \<times> string, store) outcome" where
  "candidate_submit c x agent others rq new_id token body st =
    bindr (limit_route c ''submit'' (c_submit_rate_limit_max c) rq st) (\<lambda>_ st0.
      let now = rq_now rq; email = normalize_email (su_email body) in
      guardr (load_invite_or_error now token (Some email) False st0) st0 (\<lambda>v.
      guardr (check_invited v email) st0 (\<lambda>_.
      bindr (resolve_question (slot_points others) v (su_question_id body) email st0) (\<lambda>q st1.
      guardr (check_not_already_submitted v email (q_id q) st1) st1 (\<lambda>_.
      bindr (get_or_start_attempt c others now v email (Some (su_name body)) (su_consent body) st1) (\<lambda>a st2.
        let sub = candidate_submission c now new_id v email body q a
        in bindr (insert_submission sub (others 4 st2)) (\<lambda>_ st3.
           bindr (trigger_agent c x agent (trigger_points others) now q sub st3) (\<lambda>s st4.
             (Inr (s_id s, s_status s), st4)))))))))"

subsection \<open>Integrity events\<close>

record event_in =
  ei_kind :: string
  ei_offset_ms :: int
  ei_duration_ms :: "int option"
  ei_size :: "int option"
  ei_blocked :: bool

record events_in =
  es_email :: string
  es_question_id :: "string option"
  es_events :: "event_in list"

text \<open>
  Milliseconds since the sitting began. (The float arithmetic of the code can truncate one
  millisecond lower; the model computes exactly.)
\<close>

definition elapsed_ms :: "instant \<Rightarrow> candidate_attempt option \<Rightarrow> int" where
  "elapsed_ms now attempt = (case attempt of None \<Rightarrow> 0 | Some a \<Rightarrow> max 0 ((now - at_started_at a) div 1000))"

definition add_event :: "instant \<Rightarrow> int \<Rightarrow> string \<Rightarrow> string option \<Rightarrow> int \<Rightarrow> event_in \<Rightarrow> integrity_event list \<Rightarrow>
    integrity_event list" where
  "add_event now i email qid elapsed e t = t @
     [\<lparr>ev_id = fresh_id ev_id t, ev_invite_id = i, ev_candidate_email = email, ev_question_id = qid,
       ev_kind = ei_kind e, ev_offset_ms = min (ei_offset_ms e) elapsed, ev_duration_ms = ei_duration_ms e,
       ev_size = ei_size e, ev_blocked = ei_blocked e, ev_created_at = now\<rparr>]"

text \<open>The foreign key: whatever question the browser names is stored, and the commit fails when there is none.\<close>

definition named_question_exists :: "string option \<Rightarrow> event_in list \<Rightarrow> store \<Rightarrow> exn + unit" where
  "named_question_exists qid evs st = require (evs = [] \<or> pred_option (\<lambda>i. get_question i st \<noteq> None) qid) IntegrityError"

definition candidate_integrity_events :: "settings \<Rightarrow> request \<Rightarrow> string \<Rightarrow> events_in \<Rightarrow> store \<Rightarrow> (unit, store) outcome" where
  "candidate_integrity_events c rq token body st =
    bindr (limit_route c ''events'' (c_submit_rate_limit_max c) rq st) (\<lambda>_ st0.
      let now = rq_now rq; email = normalize_email (es_email body) in
      guardr (load_invite_or_error now token (Some email) False st0) st0 (\<lambda>v.
      guardr (check_invited v email) st0 (\<lambda>_.
        let elapsed = elapsed_ms now (find_attempt (inv_id v) email st0) in
        guardr (named_question_exists (es_question_id body) (es_events body) st0) st0 (\<lambda>_.
        (Inr (), st0\<lparr>t_events := fold (add_event now (inv_id v) email (es_question_id body) elapsed)
                        (es_events body) (t_events st0)\<rparr>)))))"

subsection \<open>Feedback\<close>

record feedback_in =
  fi_email :: string
  fi_rating :: int
  fi_difficulty_fair :: string
  fi_comment :: string

definition nothing_to_comment :: exn where
  "nothing_to_comment = HTTPException 404 ''No completed assessment to give feedback on''"

definition candidate_feedback :: "settings \<Rightarrow> (store \<Rightarrow> store) \<Rightarrow> request \<Rightarrow> string \<Rightarrow> feedback_in \<Rightarrow> store \<Rightarrow>
    (unit, store) outcome" where
  "candidate_feedback c others rq token body st =
    bindr (limit_route c ''submit'' (c_submit_rate_limit_max c) rq st) (\<lambda>_ st0.
      let now = rq_now rq; email = normalize_email (fi_email body) in
      guardr (load_invite_or_error now token (Some email) False st0) st0 (\<lambda>v.
      guardr (check_invited v email) st0 (\<lambda>_.
      (case find_attempt (inv_id v) email st0 of
         None \<Rightarrow> (Inl nothing_to_comment, st0)
       | Some a \<Rightarrow>
           if submitted_ids v email st0 = {} \<or> \<not> feedback_accepted v then (Inl nothing_to_comment, st0)
           else guardr (invite_org_id v st0) st0 (\<lambda>org_id.
             let st1 = others st0 in
             if exists_where (\<lambda>f. fb_attempt_id f = at_id a) (t_feedback st1)
             then (Inl (HTTPException 409 ''Feedback for this assessment has already been recorded''), st1)
             else (Inr (), st1\<lparr>t_feedback := t_feedback st1 @
               [\<lparr>fb_id = fresh_id fb_id (t_feedback st1), fb_org_id = org_id, fb_attempt_id = at_id a,
                 fb_rating = fi_rating body, fb_difficulty_fair = fi_difficulty_fair body,
                 fb_comment = py_strip (fi_comment body), fb_created_at = now\<rparr>]\<rparr>))))))"

subsection \<open>Drafts\<close>

record draft_in =
  di_email :: string
  di_question_id :: "string option"
  di_code :: string
  di_language :: string

text \<open>
  The INSERT of a first draft has no handler for a sibling that got there first: it is a 500.
\<close>

definition write_draft :: "(store \<Rightarrow> store) \<Rightarrow> instant \<Rightarrow> int \<times> string \<times> string \<Rightarrow> string \<Rightarrow> string \<Rightarrow> store \<Rightarrow>
    (unit, store) outcome" where
  "write_draft others now key cd language st =
    (case first_where (\<lambda>d. dr_key d = key) (t_drafts st) of
       Some d \<Rightarrow> (let st1 = others st in
           (Inr (), st1\<lparr>t_drafts := upd_where (\<lambda>r. dr_id r = dr_id d)
              (\<lambda>r. r\<lparr>dr_code := cd, dr_language := language, dr_updated_at := now\<rparr>) (t_drafts st1)\<rparr>))
     | None \<Rightarrow> (let st1 = others st in
           if exists_where (\<lambda>d. dr_key d = key) (t_drafts st1) then (Inl IntegrityError, st1)
           else (Inr (), st1\<lparr>t_drafts := t_drafts st1 @
             [\<lparr>dr_id = fresh_id dr_id (t_drafts st1), dr_invite_id = fst key,
               dr_candidate_email = fst (snd key), dr_question_id = snd (snd key),
               dr_code = cd, dr_language = language, dr_updated_at = now\<rparr>]\<rparr>)))"

definition candidate_save_draft :: "settings \<Rightarrow> interference \<Rightarrow> request \<Rightarrow> string \<Rightarrow> draft_in \<Rightarrow> store \<Rightarrow> (unit, store) outcome" where
  "candidate_save_draft c others rq token body st =
    bindr (limit_route c ''draft_save'' (c_draft_save_rate_limit_max c) rq st) (\<lambda>_ st0.
      let now = rq_now rq; email = normalize_email (di_email body) in
      guardr (load_invite_or_error now token (Some email) False st0) st0 (\<lambda>v.
      guardr (check_invited v email) st0 (\<lambda>_.
      bindr (resolve_question (slot_points others) v (di_question_id body) email st0) (\<lambda>q st1.
        write_draft (others 4) now (inv_id v, email, q_id q) (di_code body) (di_language body) st1))))"

record draft_out =
  do_question_id :: string
  do_code :: string
  do_language :: string
  do_updated_at :: instant

definition candidate_get_drafts :: "instant \<Rightarrow> string \<Rightarrow> string \<Rightarrow> store \<Rightarrow> exn + draft_out list" where
  "candidate_get_drafts now token candidate_email st =
    (let email = normalize_email candidate_email in
     sbind (load_invite_or_error now token (Some email) False st) (\<lambda>v.
     sbind (check_invited v email) (\<lambda>_.
       Inr (map (\<lambda>d. \<lparr>do_question_id = dr_question_id d, do_code = dr_code d, do_language = dr_language d,
                     do_updated_at = dr_updated_at d\<rparr>)
              (filter (\<lambda>d. dr_invite_id d = inv_id v \<and> dr_candidate_email d = email) (t_drafts st))))))"

end
