(* ===== verification/CandidateSafety.thy ===== *)
theory CandidateSafety
  imports Candidate
begin

section \<open>CandidateSafety: what no sequence of candidate requests can break\<close>

text \<open>
  Every write a candidate route makes is one of the shapes below. \<open>candidate_writes\<close> is the contract
  of a fact that all of them keep; inside it, every route of \<open>Candidate\<close> and every sequence of
  requests is shown to keep the fact, whatever sibling workers (who keep it too) commit in between.
  It is interpreted on the unique constraints, on the clock of an attempt and on a recorded
  submission.
\<close>

subsection \<open>The requests as operations\<close>

datatype candidate_op =
    Start request string start_in
  | Run request string run_in
  | RunTests request string run_tests_in
  | Submit request string string submit_in
  | Events request string events_in
  | Feedback request string feedback_in
  | SaveDraft request string draft_in

definition finished :: "('a, store) outcome \<Rightarrow> (unit, store) outcome" where
  "finished r = bindr r (\<lambda>_ s. (Inr (), s))"

lemma snd_finished [simp]: "snd (finished r) = snd r"
  by (cases r; cases "fst r") (auto simp: finished_def)

lemma finished_InrE: "finished r = (Inr u, s) \<Longrightarrow> \<exists>x. r = (Inr x, s)"
  unfolding finished_def by (erule bindr_InrE) auto

fun perform :: "settings \<Rightarrow> externals \<Rightarrow> (failure \<Rightarrow> string) \<Rightarrow> (json \<Rightarrow> agent) \<Rightarrow> interference \<Rightarrow> candidate_op \<Rightarrow>
    store \<Rightarrow> (unit, store) outcome" where
  "perform c x shown agent others (Start rq token b) st = finished (start_invite c others rq token b st)"
| "perform c x shown agent others (Run rq token b) st = finished (candidate_run c x shown agent others rq token b st)"
| "perform c x shown agent others (RunTests rq token b) st =
     finished (candidate_run_tests c x shown agent others rq token b st)"
| "perform c x shown agent others (Submit rq new_id token b) st =
     finished (candidate_submit c x agent others rq new_id token b st)"
| "perform c x shown agent others (Events rq token b) st = candidate_integrity_events c rq token b st"
| "perform c x shown agent others (Feedback rq token b) st = candidate_feedback c (others 4) rq token b st"
| "perform c x shown agent others (SaveDraft rq token b) st = candidate_save_draft c others rq token b st"

text \<open>A run: each request with the sibling commits it sees.\<close>

fun perform_all :: "settings \<Rightarrow> externals \<Rightarrow> (failure \<Rightarrow> string) \<Rightarrow> (json \<Rightarrow> agent) \<Rightarrow>
    (interference \<times> candidate_op) list \<Rightarrow> store \<Rightarrow> store" where
  "perform_all c x shown agent [] st = st"
| "perform_all c x shown agent ((others, op) # ops) st =
     perform_all c x shown agent ops (snd (perform c x shown agent others op st))"

subsection \<open>The contract\<close>

text \<open>What no update of a submission row by the trigger touches.\<close>

definition static_part :: "submission \<Rightarrow> string \<times> (int \<times> string \<times> string) option \<times> string \<times> string \<times> string \<times> bool" where
  "static_part s = (s_id s, sub_key s, s_candidate s, s_language s, s_code s, s_late s)"

lemma static_stamp: "static_part (r\<lparr>s_updated_at := t\<rparr>) = static_part r"
  by (simp add: static_part_def sub_key_def split: option.splits)

text \<open>Sibling workers that keep a fact.\<close>

definition kept_by :: "(store \<Rightarrow> bool) \<Rightarrow> interference \<Rightarrow> bool" where
  "kept_by P others = (\<forall>k s. P s \<longrightarrow> P (others k s))"

lemma kept_byD: "kept_by P others \<Longrightarrow> P s \<Longrightarrow> P (others k s)"
  by (simp add: kept_by_def)

locale candidate_writes =
  fixes P :: "store \<Rightarrow> bool"
  assumes usage: "P s \<Longrightarrow> P (s\<lparr>t_usage := u\<rparr>)"
    and counters: "P s \<Longrightarrow> P (s\<lparr>t_counters := ct\<rparr>)"
    and hits: "P s \<Longrightarrow> P (s\<lparr>mem_hits := h\<rparr>)"
    and queued: "P s \<Longrightarrow> P (s\<lparr>outbox := ob\<rparr>)"
    and slot: "P s \<Longrightarrow> sv_key sv \<notin> sv_key ` set (t_slot_variants s) \<Longrightarrow>
      P (s\<lparr>t_slot_variants := t_slot_variants s @ [sv]\<rparr>)"
    and name: "P s \<Longrightarrow> P (backfill_name i n s)"
    and attempt: "P s \<Longrightarrow> at_key a \<notin> at_key ` set (t_attempts s) \<Longrightarrow> at_id a \<notin> at_id ` set (t_attempts s) \<Longrightarrow>
      P (s\<lparr>t_attempts := t_attempts s @ [a]\<rparr>)"
    and stamped: "P s \<Longrightarrow> P (s\<lparr>t_attempts := snd (claim_stamp j now (t_attempts s))\<rparr>)"
    and submitted: "P s \<Longrightarrow> s_id sub \<notin> s_id ` set (t_submissions s) \<Longrightarrow>
      (\<And>r. r \<in> set (t_submissions s) \<Longrightarrow> sub_key r \<noteq> None \<Longrightarrow> sub_key r \<noteq> sub_key sub) \<Longrightarrow>
      P (s\<lparr>t_submissions := t_submissions s @ [sub]\<rparr>)"
    and moved: "P s \<Longrightarrow> (\<And>r. static_part (f r) = static_part r) \<Longrightarrow>
      P (s\<lparr>t_submissions := upd_where p f (t_submissions s)\<rparr>)"
    and event: "P s \<Longrightarrow> P (s\<lparr>t_events := ev\<rparr>)"
    and feedback: "P s \<Longrightarrow> fb_attempt_id fb \<notin> fb_attempt_id ` set (t_feedback s) \<Longrightarrow>
      P (s\<lparr>t_feedback := t_feedback s @ [fb]\<rparr>)"
    and drafted: "P s \<Longrightarrow> dr_key d \<notin> dr_key ` set (t_drafts s) \<Longrightarrow> P (s\<lparr>t_drafts := t_drafts s @ [d]\<rparr>)"
    and redrafted: "P s \<Longrightarrow> (\<And>r. dr_key (g r) = dr_key r) \<Longrightarrow>
      P (s\<lparr>t_drafts := upd_where q g (t_drafts s)\<rparr>)"
begin

lemma usage_free_P: "usage_free P"
  by (simp add: usage_free_def usage)

lemma limit: "P s \<Longrightarrow> P (snd (limit_route c b m rq s))"
  unfolding limit_route_def limiter_check_def
  by (auto split: prod.splits intro: counters hits)

lemma resolve_slot:
  assumes "P s" and "P (f s)"
  shows "P (snd (resolve_slot_variant f v aq e s))"
proof -
  have inserted: "P ((f s)\<lparr>t_slot_variants := t_slot_variants (f s) @ [sv]\<rparr>)"
    if "slot_row v e (aq_id aq) (f s) = None" and "sv_key sv = (inv_id v, e, aq_id aq)" for sv
    using that by (intro slot assms(2)) (auto simp: slot_row_def find_None_iff')
  show ?thesis
    using assms inserted [of "\<lparr>sv_id = _, sv_invite_id = inv_id v, sv_candidate_email = e,
        sv_assessment_question_id = aq_id aq, sv_question_id = _\<rparr>"]
    by (auto simp: resolve_slot_variant_def Let_def sv_key_def split: option.splits)
qed

lemma slot_questions:
  assumes "kept_by P others"
  shows "P s \<Longrightarrow> P (snd (slot_questions others v e k aqs s))"
proof (induction aqs arbitrary: k s)
  case Nil
  then show ?case by simp
next
  case (Cons aq aqs)
  have one: "P (snd (slot_question (others k) v e aq s))"
    using Cons.prems resolve_slot [of s "others k", OF Cons.prems kept_byD [OF assms Cons.prems]]
    by (auto simp: slot_question_def snd_bindr split: option.splits sum.splits)
  show ?case
    by (simp, rule bindr_keeps [of P, OF one], rule bindr_keeps [of P]) (auto intro: Cons.IH)
qed

lemma questions:
  assumes "kept_by P others" and "P s"
  shows "P (snd (invite_questions others v e s))"
proof (cases "Option.bind (inv_assessment_id v) (\<lambda>i. get_assessment i s)")
  case None
  then show ?thesis using assms(2)
    by (auto simp: invite_questions_def split: option.splits)
next
  case (Some a)
  then obtain i where "inv_assessment_id v = Some i" "get_assessment i s = Some a"
    by (cases "inv_assessment_id v") auto
  moreover have "P (snd (bindr (slot_questions others v e 0 (assessment_slots a s) s) (\<lambda>qs st1.
      if qs = [] then (Inl (HTTPException 404 ''this assessment has no questions.''), st1) else (Inr qs, st1))))"
    by (rule bindr_keeps, rule slot_questions [OF assms]) auto
  ultimately show ?thesis by (simp add: invite_questions_def)
qed

lemma resolve:
  assumes "kept_by P others" and "P s"
  shows "P (snd (resolve_question others v qid e s))"
  unfolding resolve_question_def
  by (rule bindr_keeps, rule questions [OF assms]) (auto split: option.splits)

lemma start_attempt:
  assumes "kept_by P others" and "P s"
  shows "P (snd (get_or_start_attempt c others now v e n b s))"
proof (cases "find_attempt (inv_id v) e s")
  case (Some a)
  then show ?thesis
    using assms name [OF kept_byD [OF assms(1,2)]] by (simp add: get_or_start_attempt_def Let_def snd_guardr split: sum.splits)
next
  case None
  have claimed: "P (snd (claim_one_sitting c others now i s))" for i
  proof (cases "organization_row i s")
    case (Inr org)
    have "P (snd (consume c others now org Sittings 1 s))"
      by (rule consume_keeps [OF usage_free_P assms(2) kept_byD [OF assms(1)]])
    then show ?thesis
      using Inr by (cases "consume c others now org Sittings 1 s"; cases "fst (consume c others now org Sittings 1 s)")
        (simp_all add: claim_one_sitting_def)
  qed (simp add: claim_one_sitting_def assms(2))
  have begun: "P (snd (case find_attempt (inv_id v) e (others 2 t) of
      Some raced \<Rightarrow> bindr (release (\<lambda>_. others 3) now i Sittings 1 (others 2 t)) (\<lambda>_ st3. (Inr raced, st3))
    | None \<Rightarrow> (Inr (new_attempt c now v e n (others 2 t)),
         (others 2 t)\<lparr>t_attempts := t_attempts (others 2 t) @ [new_attempt c now v e n (others 2 t)]\<rparr>)))"
    if "P t" for i t
  proof (cases "find_attempt (inv_id v) e (others 2 t)")
    case None
    then have "at_key (new_attempt c now v e n (others 2 t)) \<notin> at_key ` set (t_attempts (others 2 t))"
      by (auto simp: find_attempt_def find_None_iff' new_attempt_def at_key_def)
    moreover have "at_id (new_attempt c now v e n (others 2 t)) \<notin> at_id ` set (t_attempts (others 2 t))"
      using fresh_id_notin by (simp add: new_attempt_def)
    ultimately show ?thesis using None attempt [OF kept_byD [OF assms(1) that]] by simp
  next
    case (Some raced)
    then show ?thesis
      using release_keeps [OF usage_free_P kept_byD [OF assms(1) that], of "\<lambda>_. others 3"] kept_byD [OF assms(1)]
      by (auto simp: snd_bindr split: sum.splits)
  qed
  show ?thesis
  proof (cases b)
    case True
    then have nb: "\<not> \<not> b" by simp
    show ?thesis
      unfolding get_or_start_attempt_def Let_def None option.case if_not_P [OF nb]
      by (rule guardr_keeps [of P, OF assms(2)], rule bindr_keeps [of P, OF claimed begun])
  qed (simp add: get_or_start_attempt_def None assms(2))
qed

lemma swapped:
  assumes "P s" and "\<And>r. static_part (f r) = static_part r"
  shows "P (snd (cas_row i now f e s))"
proof -
  have "static_part ((f r)\<lparr>s_updated_at := now\<rparr>) = static_part r" for r
    using assms(2) [of r] by (simp only: static_stamp)
  from moved [OF assms(1) this] show ?thesis
    by (simp add: cas_row_def cas_def Let_def snd_guardr split: sum.splits)
qed

lemma sitting_ended:
  assumes "P s" and "P (g s)"
  shows "P (end_sitting_if_complete c g now sub s)"
proof -
  have "P (snd (claim_sitting c g now sub s))"
    using assms stamped [OF assms(2)]
    by (auto simp: claim_sitting_def Let_def split: option.splits prod.splits bool.splits) (metis snd_conv)
  then show ?thesis
    by (cases "claim_sitting c g now sub s"; cases "fst (claim_sitting c g now sub s)")
       (auto simp: end_sitting_if_complete_def intro: queued)
qed

lemma statics:
  "static_part (claim_values i n r) = static_part r"
  "static_part (error_values m r) = static_part r"
  "static_part (running_values j r) = static_part r"
  by (simp_all add: claim_values_def error_values_def running_values_def static_part_def sub_key_def split: option.splits)

lemma trigger:
  assumes "kept_by P others" and "P s"
  shows "P (snd (trigger_agent c x agent others now q sub s))"
proof -
  have refused: "P (snd (guardr (agent_detail x resp) t (\<lambda>det.
      bindr (cas_row i now (error_values (refusal_reason det)) e t) (\<lambda>(won, sub2) st3.
        (Inr sub2, if won then end_sitting_if_complete c (others 1) now sub2 st3 else st3)))))"
    if "P t" for resp t i e
  proof (rule guardr_keeps [of P, OF that], rule bindr_keeps [of P, OF swapped [OF that statics(2)]])
    fix det and r :: "bool \<times> submission" and u assume "P u"
    from this sitting_ended [of u "others 1", OF this kept_byD [OF assms(1) this]]
    show "P (snd ((case r of (won, sub2) \<Rightarrow> \<lambda>st3.
        (Inr sub2, if won then end_sitting_if_complete c (others 1) now sub2 st3 else st3)) u))"
      by (cases r) simp
  qed
  have running: "P (snd (bindr (cas_row i now (running_values job) e t) (\<lambda>(_, sub2) st3. (Inr sub2, st3))))"
    if "P t" for t i job e
    by (rule bindr_keeps [of P, OF swapped [OF that statics(3)]]) auto
  show ?thesis
    unfolding trigger_agent_def Let_def
  proof (rule bindr_keeps [of P, OF swapped [OF assms(2) statics(1)]])
    fix r :: "bool \<times> submission" and t assume "P t"
    note next_t = kept_byD [OF assms(1) this, of 0]
    show "P (snd ((case r of (claimed, sub1) \<Rightarrow> \<lambda>st1. if \<not> claimed then (Inr sub1, st1)
      else (case trigger_assessment agent q sub1 (callback_url c) st1 of
          Inl e \<Rightarrow> (case trigger_refusal e of None \<Rightarrow> (Inr sub1, others 0 st1)
            | Some resp \<Rightarrow> guardr (agent_detail x resp) (others 0 st1) (\<lambda>det.
                bindr (cas_row (s_id sub) now (error_values (refusal_reason det)) (''pending'', s_attempts sub + 1) (others 0 st1))
                  (\<lambda>(won, sub2) st3. (Inr sub2, if won then end_sitting_if_complete c (others 1) now sub2 st3 else st3))))
        | Inr job \<Rightarrow> bindr (cas_row (s_id sub) now (running_values job) (''pending'', s_attempts sub + 1) (others 0 st1))
            (\<lambda>(_, sub2) st3. (Inr sub2, st3)))) t))"
      using \<open>P t\<close> next_t refused [OF next_t] running [OF next_t]
      by (cases r; cases "fst r") (auto split: sum.splits option.splits)
  qed
qed

lemma gated:
  assumes "P s" and "\<And>v. P (snd (k v))"
  shows "P (snd (guardr (load_invite_or_error now tk em ex s) s (\<lambda>v.
    guardr (check_invited v e) s (\<lambda>_. k v))))"
  by (rule guardr_keeps [of P, OF assms(1)], rule guardr_keeps [of P, OF assms(1)], rule assms(2))

lemma view:
  assumes "kept_by P others" and "P s"
  shows "P (snd (candidate_question_view c others now v a s))"
  unfolding candidate_question_view_def Let_def
  by (rule bindr_keeps [of P, OF questions [OF assms]]) (simp only: snd_conv)

lemma points:
  assumes "kept_by P others"
  shows "kept_by P (slot_points others)" and "kept_by P (trigger_points others)"
  using kept_byD [OF assms] by (simp_all add: kept_by_def slot_points_def trigger_points_def)

lemma start_route:
  assumes "kept_by P others" and "P s"
  shows "P (snd (start_invite c others rq tk b s))"
  unfolding start_invite_def Let_def
proof (rule bindr_keeps [of P, OF limit [OF assms(2)]], rule gated, assumption)
  fix t v assume t: "P t"
  show "P (snd (guardr g t (\<lambda>_. bindr (get_or_start_attempt c others n v e m k t) (\<lambda>a st1.
      candidate_question_view c (slot_points others) n v (Some a) st1))))" for g :: "exn + unit" and e m k n
    by (rule guardr_keeps [of P, OF t], rule bindr_keeps [of P, OF start_attempt [OF assms(1) t]],
        rule view [OF points(1) [OF assms(1)]])
qed

lemma run_gate:
  assumes "kept_by P others" and "P s"
  shows "P (snd (load_invite_for_candidate others now tk e q s))"
  unfolding load_invite_for_candidate_def
  by (rule gated [OF assms(2)], rule bindr_keeps [of P, OF resolve [OF assms]]) (simp add: snd_guardr split: sum.splits)

lemma run_route:
  assumes "kept_by P others" and "P s"
  shows "P (snd (candidate_run c x shown agent others rq tk b s))"
  unfolding candidate_run_def
  by (rule bindr_keeps [of P, OF limit [OF assms(2)]],
      rule bindr_keeps [of P, OF run_gate [OF points(1) [OF assms(1)]]]) simp_all

lemma run_tests_route:
  assumes "kept_by P others" and "P s"
  shows "P (snd (candidate_run_tests c x shown agent others rq tk b s))"
  unfolding candidate_run_tests_def
  by (rule bindr_keeps [of P, OF limit [OF assms(2)]],
      rule bindr_keeps [of P, OF run_gate [OF points(1) [OF assms(1)]]]) (simp_all split: prod.splits)

lemma insert_sub: "P s \<Longrightarrow> P (snd (insert_submission sub s))"
  by (auto simp: insert_submission_def exists_where_iff intro!: submitted)

lemma submit_route:
  assumes "kept_by P others" and "P s"
  shows "P (snd (candidate_submit c x agent others rq i tk b s))"
  unfolding candidate_submit_def Let_def
proof (rule bindr_keeps [of P, OF limit [OF assms(2)]], rule gated, assumption)
  fix t v assume t: "P t"
  have trig: "P (snd (bindr (insert_submission sub (others 4 u)) (\<lambda>_ st3.
      bindr (trigger_agent c x agent (trigger_points others) n q sub st3) (\<lambda>r st4. (Inr (s_id r, s_status r), st4)))))"
    if "P u" for u sub n q
    by (rule bindr_keeps [of P, OF insert_sub [OF kept_byD [OF assms(1) that]]],
        rule bindr_keeps [of P, OF trigger [OF points(2) [OF assms(1)]]]) simp_all
  show "P (snd (bindr (resolve_question (slot_points others) v qid e t) (\<lambda>q st1.
      guardr (check_not_already_submitted v e (q_id q) st1) st1 (\<lambda>_.
      bindr (get_or_start_attempt c others n v e m k st1) (\<lambda>a st2.
        bindr (insert_submission (new q a) (others 4 st2)) (\<lambda>_ st3.
        bindr (trigger_agent c x agent (trigger_points others) n q (new q a) st3) (\<lambda>r st4. (Inr (s_id r, s_status r), st4))))))))"
    for qid e n m k and new :: "question \<Rightarrow> candidate_attempt \<Rightarrow> submission"
  proof (rule bindr_keeps [of P, OF resolve [OF points(1) [OF assms(1)] t]])
    fix q u assume u: "P u"
    show "P (snd (guardr (check_not_already_submitted v e (q_id q) u) u (\<lambda>_.
      bindr (get_or_start_attempt c others n v e m k u) (\<lambda>a st2.
        bindr (insert_submission (new q a) (others 4 st2)) (\<lambda>_ st3.
        bindr (trigger_agent c x agent (trigger_points others) n q (new q a) st3) (\<lambda>r st4. (Inr (s_id r, s_status r), st4)))))))"
      by (rule guardr_keeps [of P, OF u], rule bindr_keeps [of P, OF start_attempt [OF assms(1) u]], rule trig)
  qed
qed

lemma events_route: "P s \<Longrightarrow> P (snd (candidate_integrity_events c rq tk b s))"
  unfolding candidate_integrity_events_def Let_def
  by (rule bindr_keeps [of P, OF limit], assumption, rule gated, assumption) (rule guardr_keeps [of P], assumption, simp add: event)

lemma feedback_route:
  assumes "kept_by P others" and "P s"
  shows "P (snd (candidate_feedback c (others k) rq tk b s))"
  unfolding candidate_feedback_def Let_def
proof (rule bindr_keeps [of P, OF limit [OF assms(2)]], rule gated, assumption)
  fix t v assume t: "P t"
  note ok = kept_byD [OF assms(1) t, of k]
  have stored: "P ((others k t)\<lparr>t_feedback := t_feedback (others k t) @ [fb]\<rparr>)"
    if "\<not> exists_where (\<lambda>f. fb_attempt_id f = fb_attempt_id fb) (t_feedback (others k t))" for fb
    using ok that by (auto simp: exists_where_iff intro!: feedback)
  show "P (snd (case find_attempt i e t of None \<Rightarrow> (Inl err, t)
      | Some a \<Rightarrow> if no then (Inl err, t)
          else guardr (invite_org_id v t) t (\<lambda>org_id.
             if exists_where (\<lambda>f. fb_attempt_id f = at_id a) (t_feedback (others k t))
             then (Inl err', others k t)
             else (Inr (), (others k t)\<lparr>t_feedback := t_feedback (others k t) @
               [\<lparr>fb_id = fi, fb_org_id = org_id, fb_attempt_id = at_id a, fb_rating = ra,
                 fb_difficulty_fair = di, fb_comment = co, fb_created_at = cr\<rparr>]\<rparr>))))"
    for i e err err' no fi ra di co cr
    using t ok by (auto split: option.splits intro!: guardr_keeps [of P] stored)
qed

lemma write_draft_keeps:
  assumes "P (f s)"
  shows "P (snd (write_draft f now k cd l s))"
proof (cases "first_where (\<lambda>d. dr_key d = k) (t_drafts s)")
  case None
  have "P ((f s)\<lparr>t_drafts := t_drafts (f s) @ [d]\<rparr>)"
    if "\<not> exists_where (\<lambda>d. dr_key d = k) (t_drafts (f s))" and "dr_key d = k" for d
    using that by (auto simp: exists_where_iff intro!: drafted assms)
  then show ?thesis using None assms by (simp add: write_draft_def Let_def dr_key_def)
next
  case (Some d)
  then show ?thesis by (simp add: write_draft_def Let_def dr_key_def redrafted assms)
qed

lemma draft_route:
  assumes "kept_by P others" and "P s"
  shows "P (snd (candidate_save_draft c others rq tk b s))"
  unfolding candidate_save_draft_def Let_def
  by (rule bindr_keeps [of P, OF limit [OF assms(2)]], rule gated, assumption,
      rule bindr_keeps [of P, OF resolve [OF points(1) [OF assms(1)]]], assumption)
     (rule write_draft_keeps, erule kept_byD [OF assms(1)])

lemma perform_keeps:
  assumes "kept_by P others" and "P s"
  shows "P (snd (perform c x shown agent others op s))"
  using start_route [OF assms] run_route [OF assms] run_tests_route [OF assms] submit_route [OF assms]
    events_route [OF assms(2)] feedback_route [OF assms] draft_route [OF assms]
  by (cases op) simp_all

lemma perform_all_keeps:
  assumes "\<And>others op. (others, op) \<in> set ops \<Longrightarrow> kept_by P others" and "P s"
  shows "P (perform_all c x shown agent ops s)"
  using assms
proof (induction ops arbitrary: s)
  case Nil
  then show ?case by simp
next
  case (Cons p ops)
  obtain others op where p: "p = (others, op)" by (cases p)
  have "P (snd (perform c x shown agent others op s))"
    using Cons.prems(1) [of others op] Cons.prems(2) p by (intro perform_keeps) auto
  then show ?case using Cons.IH Cons.prems(1) p by auto
qed

end

subsection \<open>The unique constraints\<close>

definition candidate_schema :: "store \<Rightarrow> bool" where
  "candidate_schema st = (submissions_unique st \<and> attempts_unique st \<and> unique_key sv_key (t_slot_variants st) \<and>
     unique_key dr_key (t_drafts st) \<and> unique_key fb_attempt_id (t_feedback st))"

lemma static_keys:
  assumes "\<And>r. static_part (f r) = static_part r"
  shows "s_id (f r) = s_id r" "sub_key (f r) = sub_key r"
  using assms [of r] by (simp_all add: static_part_def)

lemma submissions_unique_moved:
  assumes "\<And>r. static_part (f r) = static_part r" and "submissions_unique st"
  shows "submissions_unique (st\<lparr>t_submissions := upd_where p f (t_submissions st)\<rparr>)"
  using assms(2) static_keys [of f, OF assms(1)]
  by (simp add: submissions_unique_def unique_key_upd filter_upd_where map_upd_where)

lemma stamp_keys: "map at_key (snd (claim_stamp j now t)) = map at_key t" "map at_id (snd (claim_stamp j now t)) = map at_id t"
  by (simp_all add: claim_stamp_def Let_def map_upd_where at_key_def)

interpretation constraints: candidate_writes candidate_schema
proof unfold_locales
  fix s sub
  assume "candidate_schema s" and "s_id sub \<notin> s_id ` set (t_submissions s)"
    and "\<And>r. r \<in> set (t_submissions s) \<Longrightarrow> sub_key r \<noteq> None \<Longrightarrow> sub_key r \<noteq> sub_key sub"
  then have "sub_key sub \<notin> set (map sub_key (filter (\<lambda>s. sub_key s \<noteq> None) (t_submissions s)))"
    and "s_id sub \<notin> s_id ` set (t_submissions s)" and "candidate_schema s"
    by (auto simp del: not_None_eq) (metis option.distinct(1))
  then show "candidate_schema (s\<lparr>t_submissions := t_submissions s @ [sub]\<rparr>)"
    by (cases "sub_key sub = None")
       (simp_all add: candidate_schema_def submissions_unique_def attempts_unique_def unique_key_append del: not_None_eq)
next
  fix s p and f :: "submission \<Rightarrow> submission"
  assume "candidate_schema s" and "\<And>r. static_part (f r) = static_part r"
  then show "candidate_schema (s\<lparr>t_submissions := upd_where p f (t_submissions s)\<rparr>)"
    using submissions_unique_moved [of f s p] by (simp add: candidate_schema_def attempts_unique_def)
qed (auto simp: candidate_schema_def submissions_unique_def attempts_unique_def unique_key_append unique_key_upd
       backfill_name_def at_key_def unique_key_def [of at_id] unique_key_def [of at_key] stamp_keys map_upd_where
       unique_key_def [of dr_key])

text \<open>
  C3. Whatever candidates request, in any order and with any interleaving of sibling workers that
  keep the constraints, no state ever holds two attempts of one candidate on one invite, two
  submissions of one question, two variants of one slot, two drafts of one question or two
  feedbacks on one sitting.
\<close>

theorem candidates_keep_constraints:
  assumes "candidate_schema st" and "\<And>others op. (others, op) \<in> set ops \<Longrightarrow> kept_by candidate_schema others"
  shows "candidate_schema (perform_all c x shown agent ops st)"
  using assms(2,1) by (rule constraints.perform_all_keeps)

lemma kept_by_alone: "kept_by P alone"
  by (simp add: kept_by_def alone_simp)

definition example_request :: request where
  "example_request = \<lparr>rq_forwarded = None, rq_peer = Some ''1.2.3.4'', rq_tick = 0, rq_now = 1000\<rparr>"

definition example_ops :: "(interference \<times> candidate_op) list" where
  "example_ops =
    [(alone, Start example_request ''tok'' \<lparr>st_email = ''Ada@x.org'', st_consent = True, st_name = Some ''Eve''\<rparr>),
     (alone, Submit example_request ''s2'' ''tok'' \<lparr>su_name = ''Ada'', su_email = ''ada@x.org'',
        su_language = ''go'', su_code = ''x'', su_question_id = None, su_consent = True\<rparr>)]"

lemma example_ops_alone: "(others, op) \<in> set example_ops \<Longrightarrow> kept_by P others"
  by (auto simp: example_ops_def kept_by_alone)

lemma graded_store_schema: "candidate_schema graded_store"
  by (simp add: candidate_schema_def submissions_unique_def attempts_unique_def graded_store_def empty_store_def
      example_graded_def unique_key_def)

lemma candidates_keep_constraints_witness:
  "candidate_schema (perform_all default_settings example_externals (\<lambda>_. []) accepting_agent example_ops graded_store)"
  by (rule candidates_keep_constraints [OF graded_store_schema example_ops_alone])

subsection \<open>The clock\<close>

definition clock_is :: "candidate_attempt \<Rightarrow> store \<Rightarrow> bool" where
  "clock_is a st = (\<exists>r\<in>set (t_attempts st). at_id r = at_id a \<and> at_key r = at_key a \<and>
     at_started_at r = at_started_at a \<and> at_consent_at r = at_consent_at a \<and>
     at_consent_version r = at_consent_version a)"

lemma clock_is_upd:
  assumes "clock_is a st"
    and "\<And>r. at_id (f r) = at_id r \<and> at_key (f r) = at_key r \<and> at_started_at (f r) = at_started_at r \<and>
           at_consent_at (f r) = at_consent_at r \<and> at_consent_version (f r) = at_consent_version r"
  shows "clock_is a (st\<lparr>t_attempts := upd_where p f (t_attempts st)\<rparr>)"
proof -
  obtain r where r: "r \<in> set (t_attempts st)" "at_id r = at_id a" "at_key r = at_key a"
    "at_started_at r = at_started_at a" "at_consent_at r = at_consent_at a" "at_consent_version r = at_consent_version a"
    using assms(1) by (auto simp: clock_is_def)
  then have "(if p r then f r else r) \<in> set (upd_where p f (t_attempts st))" by (auto simp: in_upd_where)
  then show ?thesis unfolding clock_is_def
    by (intro bexI [of _ "if p r then f r else r"]) (simp_all add: r assms(2))
qed

interpretation clock: candidate_writes "clock_is a" for a
proof unfold_locales
  fix s i n assume "clock_is a s"
  then show "clock_is a (backfill_name i n s)"
    unfolding backfill_name_def by (rule clock_is_upd) (simp add: at_key_def)
next
  fix s j now assume "clock_is a s"
  then show "clock_is a (s\<lparr>t_attempts := snd (claim_stamp j now (t_attempts s))\<rparr>)"
    unfolding claim_stamp_def Let_def snd_conv by (rule clock_is_upd) (simp add: at_key_def)
qed (auto simp: clock_is_def)

text \<open>
  C2. Once an attempt exists its clock never moves and its consent stays as recorded: no sequence of
  starts, reloads, runs, submissions or anything else a candidate can send changes when a sitting
  began, so a deadline cannot be reset.
\<close>

theorem clock_never_moves:
  assumes "a \<in> set (t_attempts st)" and "\<And>others op. (others, op) \<in> set ops \<Longrightarrow> kept_by (clock_is a) others"
  shows "\<exists>r\<in>set (t_attempts (perform_all c x shown agent ops st)). at_id r = at_id a \<and> at_key r = at_key a \<and>
     at_started_at r = at_started_at a \<and> at_consent_at r = at_consent_at a"
proof -
  have "clock_is a st" using assms(1) by (auto simp: clock_is_def)
  with assms(2) have "clock_is a (perform_all c x shown agent ops st)" by (rule clock.perform_all_keeps)
  then show ?thesis by (auto simp: clock_is_def)
qed

lemma clock_never_moves_witness:
  "\<exists>r\<in>set (t_attempts (perform_all default_settings example_externals (\<lambda>_. []) accepting_agent example_ops graded_store)).
     at_id r = at_id example_attempt \<and> at_started_at r = at_started_at example_attempt"
proof -
  have "example_attempt \<in> set (t_attempts graded_store)" by (simp add: graded_store_def)
  with clock_never_moves [of example_attempt graded_store example_ops] example_ops_alone show ?thesis by blast
qed

subsection \<open>A submission stands\<close>

definition recorded :: "submission \<Rightarrow> store \<Rightarrow> bool" where
  "recorded sub st = (\<exists>r\<in>set (t_submissions st). static_part r = static_part sub)"

interpretation standing: candidate_writes "recorded sub" for sub
proof unfold_locales
  fix s p and f :: "submission \<Rightarrow> submission"
  assume "recorded sub s" and "\<And>r. static_part (f r) = static_part r"
  moreover from this obtain r where "r \<in> set (t_submissions s)" "static_part r = static_part sub"
    by (auto simp: recorded_def)
  ultimately show "recorded sub (s\<lparr>t_submissions := upd_where p f (t_submissions s)\<rparr>)"
    unfolding recorded_def
    by (intro bexI [of _ "if p r then f r else r"]) (auto simp: in_upd_where)
qed (auto simp: recorded_def backfill_name_def)

lemma unique_sub_key:
  assumes "submissions_unique st" and "r \<in> set (t_submissions st)" and "r' \<in> set (t_submissions st)"
    and "sub_key r = Some k" and "sub_key r' = Some k"
  shows "r = r'"
proof -
  have "distinct (map sub_key (filter (\<lambda>s. sub_key s \<noteq> None) (t_submissions st)))"
    using assms(1) by (simp add: submissions_unique_def)
  then have "inj_on sub_key {s \<in> set (t_submissions st). sub_key s \<noteq> None}"
    unfolding distinct_map set_filter by simp
  then show ?thesis by (rule inj_onD) (cases k, simp_all add: assms(2-5))+
qed

lemma filter_singleton:
  assumes "distinct xs" and "x \<in> set xs" and "\<And>y. y \<in> set xs \<Longrightarrow> p y \<longleftrightarrow> y = x"
  shows "filter p xs = [x]"
proof -
  have "filter p xs = filter (\<lambda>y. y = x) xs" using assms(3) by (intro filter_cong) auto
  moreover have "filter (\<lambda>y. y = x) xs = [x]" using assms(1,2)
    by (induction xs) (auto simp: filter_empty_conv)
  ultimately show ?thesis by simp
qed

text \<open>
  C1. A submission, once stored, stands: its code, language, name and late flag are never altered or
  removed by anything candidates request afterwards, and no other submission of the same candidate
  for the same question of the invite ever appears beside it.
\<close>

theorem first_submission_stands:
  fixes c :: settings and x :: externals and shown :: "failure \<Rightarrow> string" and agent :: "json \<Rightarrow> agent"
  assumes "candidate_schema st" and "r \<in> set (t_submissions st)" and "sub_key r = Some k"
    and "\<And>others op. (others, op) \<in> set ops \<Longrightarrow> kept_by candidate_schema others \<and> kept_by (recorded r) others"
  defines "st' \<equiv> perform_all c x shown agent ops st"
  shows "\<exists>r'. filter (\<lambda>s. sub_key s = Some k) (t_submissions st') = [r'] \<and> s_id r' = s_id r \<and> s_code r' = s_code r \<and>
     s_language r' = s_language r \<and> s_candidate r' = s_candidate r \<and> s_late r' = s_late r"
proof -
  have "recorded r st" using assms(2) by (auto simp: recorded_def)
  then have "recorded r st'" unfolding st'_def using assms(4) by (intro standing.perform_all_keeps) auto
  then obtain r' where r': "r' \<in> set (t_submissions st')" "static_part r' = static_part r"
    by (auto simp: recorded_def)
  have ok: "submissions_unique st'"
    using constraints.perform_all_keeps [of ops st c x shown agent] assms(1,4) by (auto simp: st'_def candidate_schema_def)
  have k: "sub_key r' = Some k" using r'(2) assms(3) by (simp add: static_part_def)
  have "distinct (t_submissions st')" using ok by (auto simp: submissions_unique_def unique_key_def distinct_map)
  then have "filter (\<lambda>s. sub_key s = Some k) (t_submissions st') = [r']"
    by (rule filter_singleton) (use r'(1) k unique_sub_key [OF ok] in metis)+
  then show ?thesis using r'(2) by (auto simp: static_part_def)
qed

lemma first_submission_stands_witness:
  "\<exists>r'. filter (\<lambda>s. sub_key s = Some (3, ''ada@x.org'', ''q1''))
      (t_submissions (perform_all default_settings example_externals (\<lambda>_. []) accepting_agent example_ops graded_store)) = [r'] \<and>
    s_code r' = ''print(1)''"
proof -
  have a: "example_graded \<in> set (t_submissions graded_store)" by (simp add: graded_store_def)
  have b: "sub_key example_graded = Some (3, ''ada@x.org'', ''q1'')" "s_code example_graded = ''print(1)''"
    by (simp_all add: sub_key_def example_graded_def)
  have c: "kept_by candidate_schema others \<and> kept_by (recorded example_graded) others"
    if "(others, op) \<in> set example_ops" for others op
    using example_ops_alone [OF that] by simp
  show ?thesis
    using first_submission_stands [OF graded_store_schema a b(1), of example_ops default_settings example_externals "\<lambda>_. []" accepting_agent] c
    unfolding b(2) by blast
qed

end
