(* ===== verification/CandidateRoutes.thy ===== *)
theory CandidateRoutes
  imports CandidateSafety
begin

section \<open>CandidateRoutes: what single candidate requests guarantee\<close>

text \<open>
  The gates of a link, the record a submission leaves, the clamped integrity events, the round trip
  of a draft and the secrecy of the answer key.
\<close>

subsection \<open>A closed link\<close>

fun op_request :: "candidate_op \<Rightarrow> request" where
  "op_request (Start rq _ _) = rq" | "op_request (Run rq _ _) = rq" | "op_request (RunTests rq _ _) = rq"
| "op_request (Submit rq _ _ _) = rq" | "op_request (Events rq _ _) = rq" | "op_request (Feedback rq _ _) = rq"
| "op_request (SaveDraft rq _ _) = rq"

fun op_token :: "candidate_op \<Rightarrow> string" where
  "op_token (Start _ t _) = t" | "op_token (Run _ t _) = t" | "op_token (RunTests _ t _) = t"
| "op_token (Submit _ _ t _) = t" | "op_token (Events _ t _) = t" | "op_token (Feedback _ t _) = t"
| "op_token (SaveDraft _ t _) = t"

fun op_email :: "candidate_op \<Rightarrow> string" where
  "op_email (Start _ _ b) = st_email b" | "op_email (Run _ _ b) = ru_email b" | "op_email (RunTests _ _ b) = te_email b"
| "op_email (Submit _ _ _ b) = su_email b" | "op_email (Events _ _ b) = es_email b" | "op_email (Feedback _ _ b) = fi_email b"
| "op_email (SaveDraft _ _ b) = di_email b"

text \<open>
  Who may use a link: it exists and is active, the address is one it was sent to, and it has not
  expired unless this candidate's timed sitting is under way.
\<close>

definition admitted :: "instant \<Rightarrow> string \<Rightarrow> string \<Rightarrow> store \<Rightarrow> bool" where
  "admitted now token email st =
    (case invite_by_token token st of
       None \<Rightarrow> False
     | Some v \<Rightarrow> inv_status v = ''active'' \<and>
         list_ex (\<lambda>r. normalize_email r = normalize_email email) (inv_recipients v) \<and>
         (is_expired now (inv_expires_at v) \<longrightarrow>
            inv_duration_minutes v \<noteq> None \<and>
            list_ex (\<lambda>a. at_key a = (inv_id v, normalize_email email)) (t_attempts st)))"

lemma limit_frame: "\<exists>ct h. snd (limit_route c b m rq s) = s\<lparr>t_counters := ct, mem_hits := h\<rparr>"
proof (cases "c_rate_limit_backend c = ''db''")
  case True
  then have "snd (limit_route c b m rq s) = s\<lparr>t_counters := snd (db_check id b (client_ip c (rq_forwarded rq)
      (rq_peer rq)) m (c_rate_limit_window_s c) (rq_now rq) (t_counters s)), mem_hits := mem_hits s\<rparr>"
    by (simp add: limit_route_def limiter_check_def split: prod.splits)
  then show ?thesis by blast
next
  case False
  then have "snd (limit_route c b m rq s) = s\<lparr>t_counters := t_counters s, mem_hits := snd (mem_check b
      (client_ip c (rq_forwarded rq) (rq_peer rq)) m (c_rate_limit_window_s c) (rq_tick rq) (mem_hits s))\<rparr>"
    by (simp add: limit_route_def limiter_check_def split: prod.splits)
  then show ?thesis by blast
qed

lemma gate_blocked:
  assumes "\<not> admitted now tk e s"
  shows "\<exists>err. guardr (load_invite_or_error now tk (Some (normalize_email e)) False s) s (\<lambda>v.
    guardr (check_invited v (normalize_email e)) s (\<lambda>_. k v)) = (Inl err, s)"
proof (cases "invite_by_token tk s")
  case None
  then show ?thesis by (simp add: load_invite_or_error_def)
next
  case (Some v)
  have mem: "list_ex (\<lambda>r. normalize_email r = normalize_email e) (inv_recipients v) \<longleftrightarrow>
      normalize_email e \<in> set (map normalize_email (inv_recipients v))"
    unfolding list_ex_iff set_map by (metis imageE image_eqI)
  consider "inv_status v \<noteq> ''active''" | "is_expired now (inv_expires_at v)"
      "\<not> (invite_duration v \<noteq> None \<and> has_attempt v (Some (normalize_email e)) s)"
    | "normalize_email e \<notin> set (map normalize_email (inv_recipients v))"
    using assms Some by (auto simp: admitted_def mem [unfolded set_map] list_ex_iff [of "\<lambda>a. at_key a = _"]
        invite_duration_def has_attempt_def find_attempt_def find_None_iff')
  then show ?thesis
    using Some by cases (auto simp: load_invite_or_error_def check_invited_def require_def)
qed

lemma admitted_cong:
  assumes "t_invites s = t_invites s'" and "t_attempts s = t_attempts s'"
  shows "admitted now tk e s = admitted now tk e s'"
  unfolding admitted_def invite_by_token_def assms ..

lemma blocked_route:
  assumes "\<not> admitted (rq_now rq) tk e st"
  shows "\<exists>err ct h. bindr (limit_route c b m rq st) (\<lambda>_ st0.
      guardr (load_invite_or_error (rq_now rq) tk (Some (normalize_email e)) False st0) st0 (\<lambda>v.
      guardr (check_invited v (normalize_email e)) st0 (\<lambda>_. k v st0))) =
    (Inl err, st\<lparr>t_counters := ct, mem_hits := h\<rparr>)"
proof -
  obtain ct h where st0: "snd (limit_route c b m rq st) = st\<lparr>t_counters := ct, mem_hits := h\<rparr>"
    using limit_frame by blast
  have "\<not> admitted (rq_now rq) tk e (snd (limit_route c b m rq st))"
    using assms admitted_cong [of "snd (limit_route c b m rq st)" st] by (simp add: st0)
  from gate_blocked [OF this, of "\<lambda>v. k v (snd (limit_route c b m rq st))"] obtain err where gate: "guardr (load_invite_or_error (rq_now rq) tk (Some (normalize_email e)) False
        (snd (limit_route c b m rq st))) (snd (limit_route c b m rq st)) (\<lambda>v.
      guardr (check_invited v (normalize_email e)) (snd (limit_route c b m rq st)) (\<lambda>_. k v (snd (limit_route c b m rq st)))) =
    (Inl err, snd (limit_route c b m rq st))" by blast
  show ?thesis
  proof (cases "fst (limit_route c b m rq st)")
    case (Inl err')
    then have "limit_route c b m rq st = (Inl err', st\<lparr>t_counters := ct, mem_hits := h\<rparr>)"
      using st0 by (metis prod.collapse)
    then show ?thesis by auto
  next
    case (Inr u)
    then have "limit_route c b m rq st = (Inr u, st\<lparr>t_counters := ct, mem_hits := h\<rparr>)"
      using st0 by (metis prod.collapse)
    then show ?thesis using gate unfolding st0 by auto
  qed
qed

lemma bindr_guardr: "bindr (guardr c s k) h = guardr c s (\<lambda>x. bindr (k x) h)"
  by (cases c) simp_all

text \<open>
  C4. A link that is unknown, revoked, sent to somebody else, or expired with no timed sitting of
  this candidate under way does nothing: every route refuses, and except for the rate limiter's
  own counters no table changes - no clock starts, no unit is billed, no code is run or stored.
\<close>

theorem closed_link_does_nothing:
  assumes "\<not> admitted (rq_now (op_request op)) (op_token op) (op_email op) st"
  shows "\<exists>err ct h. perform c x shown agent others op st = (Inl err, st\<lparr>t_counters := ct, mem_hits := h\<rparr>)"
proof -
  have fin: "\<exists>err ct h. finished r = (Inl err, st\<lparr>t_counters := ct, mem_hits := h\<rparr>)"
    if "\<exists>err ct h. r = (Inl err, st\<lparr>t_counters := ct, mem_hits := h\<rparr>)" for r :: "('z, store) outcome"
  proof -
    from that obtain err ct h where "r = (Inl err, st\<lparr>t_counters := ct, mem_hits := h\<rparr>)" by blast
    then have "finished r = (Inl err, st\<lparr>t_counters := ct, mem_hits := h\<rparr>)" by (simp add: finished_def)
    then show ?thesis by blast
  qed
  note gates = op_request.simps op_token.simps op_email.simps perform.simps Let_def bindr_guardr
  show ?thesis
  proof (cases op)
    case (Start rq tk b)
    show ?thesis using assms unfolding Start gates start_invite_def by (intro fin blocked_route)
  next
    case (Run rq tk b)
    show ?thesis using assms unfolding Run gates candidate_run_def load_invite_for_candidate_def by (intro fin blocked_route)
  next
    case (RunTests rq tk b)
    show ?thesis using assms unfolding RunTests gates candidate_run_tests_def load_invite_for_candidate_def
      by (intro fin blocked_route)
  next
    case (Submit rq i tk b)
    show ?thesis using assms unfolding Submit gates candidate_submit_def by (intro fin blocked_route)
  next
    case (Events rq tk b)
    show ?thesis using assms unfolding Events gates candidate_integrity_events_def by (intro blocked_route)
  next
    case (Feedback rq tk b)
    show ?thesis using assms unfolding Feedback gates candidate_feedback_def by (intro blocked_route)
  next
    case (SaveDraft rq tk b)
    show ?thesis using assms unfolding SaveDraft gates candidate_save_draft_def by (intro blocked_route)
  qed
qed

definition example_probe :: candidate_op where
  "example_probe = Submit example_request ''s2'' ''tok'' \<lparr>su_name = ''Eve'', su_email = ''eve@x.org'',
     su_language = ''go'', su_code = ''x'', su_question_id = None, su_consent = True\<rparr>"

lemma closed_link_does_nothing_witness:
  "t_submissions (snd (perform default_settings example_externals (\<lambda>_. []) accepting_agent alone example_probe graded_store)) =
   t_submissions graded_store"
proof -
  have "\<not> admitted (rq_now (op_request example_probe)) (op_token example_probe) (op_email example_probe) graded_store"
    by (simp add: admitted_def example_probe_def graded_store_def invite_by_token_def example_invite_def
        normalize_email_def py_lower_def lower_char_def code_def py_strip_def py_strip_on_def py_lstrip_def is_space_def)
  from closed_link_does_nothing [OF this, of default_settings example_externals "\<lambda>_. []" accepting_agent alone]
  show ?thesis by auto
qed

subsection \<open>What a submission records\<close>

lemma gate_InrE:
  assumes "bindr (limit_route c b m rq st) (\<lambda>_ st0.
      guardr (load_invite_or_error (rq_now rq) tk (Some e) False st0) st0 (\<lambda>v.
      guardr (check_invited v e) st0 (\<lambda>_. k v st0))) = (Inr u, st')"
  obtains v ct h where "invite_by_token tk st = Some v"
    and "k v (st\<lparr>t_counters := ct, mem_hits := h\<rparr>) = (Inr u, st')"
proof -
  obtain ct h where st0: "snd (limit_route c b m rq st) = st\<lparr>t_counters := ct, mem_hits := h\<rparr>"
    using limit_frame by blast
  let ?s = "st\<lparr>t_counters := ct, mem_hits := h\<rparr>"
  obtain v where v: "load_invite_or_error (rq_now rq) tk (Some e) False ?s = Inr v" "k v ?s = (Inr u, st')"
    using assms st0 by (elim bindr_InrE guardr_InrE) auto
  then have "invite_by_token tk st = Some v"
    by (auto simp: load_invite_or_error_def invite_by_token_def split: option.splits if_splits)
  with v(2) that show thesis by blast
qed

lemma resolve_question_named:
  assumes "resolve_question others v (Some i) e s = (Inr q, s')"
  shows "q_id q = i"
  using assms unfolding resolve_question_def
  by (elim bindr_InrE) (auto split: option.splits dest: find_SomeD)

lemma in_clock: "a \<in> set (t_attempts s) \<Longrightarrow> clock_is a s"
  by (auto simp: clock_is_def)

lemma find_attempt_SomeD: "find_attempt i e s = Some a \<Longrightarrow> a \<in> set (t_attempts s) \<and> at_key a = (i, e)"
  unfolding find_attempt_def by (rule find_SomeD)

lemma get_or_start_clock:
  assumes "get_or_start_attempt c others now v e n k s = (Inr a, s')" and "candidate_schema s"
    and "\<And>a. kept_by (clock_is a) others" and "kept_by candidate_schema others"
  shows "clock_is a s' \<and> at_key a = (inv_id v, e)"
proof (cases "find_attempt (inv_id v) e s")
  case (Some a0)
  note a0 = find_attempt_SomeD [OF Some]
  show ?thesis
  proof (cases "at_candidate_name a0 = None \<and> n \<noteq> None")
    case False
    then have "a = a0" "s' = s" using assms(1) Some by (auto simp: get_or_start_attempt_def)
    with a0 show ?thesis by (simp add: in_clock)
  next
    case True
    let ?s1 = "backfill_name (at_id a0) n (others 0 s)"
    have a: "refresh_attempt (at_id a0) ?s1 = Inr a" "s' = ?s1"
      using assms(1) Some True by (auto simp: get_or_start_attempt_def Let_def elim: guardr_InrE)
    then have at: "a \<in> set (t_attempts ?s1)" "at_id a = at_id a0"
      by (auto simp: refresh_attempt_def split: option.splits dest: find_SomeD)
    have "clock_is a0 (others 0 s)" by (rule kept_byD [OF assms(3) in_clock]) (simp add: a0)
    then have "clock_is a0 ?s1" by (rule clock.name)
    then obtain r where r: "r \<in> set (t_attempts ?s1)" "at_id r = at_id a0" "at_key r = at_key a0"
      by (auto simp: clock_is_def)
    have "candidate_schema ?s1" by (rule constraints.name [OF kept_byD [OF assms(4,2)]])
    then have "unique_key at_id (t_attempts ?s1)" by (simp add: candidate_schema_def attempts_unique_def)
    then have "a = r" using at r by (intro unique_keyD [of at_id "t_attempts ?s1"]) simp_all
    then show ?thesis using a0 r in_clock [OF at(1)] a(2) by simp
  qed
next
  case None
  then obtain i s1 where i: "invite_org_id v s = Inr i" "claim_one_sitting c others now i s = (Inr (), s1)"
    and s1: "(let st2 = others 2 s1 in case find_attempt (inv_id v) e st2 of
        Some raced \<Rightarrow> bindr (release (\<lambda>_. others 3) now i Sittings 1 st2) (\<lambda>_ st3. (Inr raced, st3))
      | None \<Rightarrow> let a = new_attempt c now v e n st2 in (Inr a, st2\<lparr>t_attempts := t_attempts st2 @ [a]\<rparr>)) = (Inr a, s')"
    using assms(1) unfolding get_or_start_attempt_def
    by (cases k) (auto elim!: guardr_InrE bindr_InrE)
  show ?thesis
  proof (cases "find_attempt (inv_id v) e (others 2 s1)")
    case None
    then have "s' = (others 2 s1)\<lparr>t_attempts := t_attempts (others 2 s1) @ [a]\<rparr>" "at_key a = (inv_id v, e)"
      using s1 by (auto simp: Let_def new_attempt_def at_key_def)
    then show ?thesis by (simp add: clock_is_def)
  next
    case (Some raced)
    then have a: "a = raced" "s' = snd (release (\<lambda>_. others 3) now i Sittings 1 (others 2 s1))"
      using s1 by (auto simp: Let_def elim!: bindr_InrE)
    have "clock_is raced s'" unfolding a(2)
      by (rule release_keeps [OF clock.usage_free_P in_clock kept_byD [OF assms(3)]]) (simp add: find_attempt_SomeD [OF Some])
    then show ?thesis using a(1) find_attempt_SomeD [OF Some] by simp
  qed
qed

text \<open>The stages an accepted submit went through.\<close>

lemma submit_stages:
  assumes "candidate_submit c x agent others rq i tk b st = (Inr out, st')"
  obtains v ct h q s1 a s2 s3 s4 where "invite_by_token tk st = Some v"
    and "resolve_question (slot_points others) v (su_question_id b) (normalize_email (su_email b))
           (st\<lparr>t_counters := ct, mem_hits := h\<rparr>) = (Inr q, s1)"
    and "get_or_start_attempt c others (rq_now rq) v (normalize_email (su_email b)) (Some (su_name b)) (su_consent b) s1 =
           (Inr a, s2)"
    and "insert_submission (candidate_submission c (rq_now rq) i v (normalize_email (su_email b)) b q a) (others 4 s2) = (Inr (), s3)"
    and "trigger_agent c x agent (trigger_points others) (rq_now rq) q
           (candidate_submission c (rq_now rq) i v (normalize_email (su_email b)) b q a) s3 = (Inr s4, st')"
  using assms unfolding candidate_submit_def Let_def
  by (elim gate_InrE bindr_InrE guardr_InrE) (auto intro: that)

text \<open>
  C5. A submit that is accepted has stored the candidate's code under this invite, address and
  question, and the row is marked late exactly when the request arrived after the attempt's start plus
  the sitting's length plus the grace period, never for an untimed sitting: work is kept, not
  rejected, and lateness is measured from the clock stored with the attempt.
\<close>

theorem submission_recorded:
  fixes c :: settings
  assumes "candidate_submit c x agent others rq i tk b st = (Inr out, st')" and "candidate_schema st"
    and "\<And>a. kept_by (clock_is a) others" and "\<And>r. kept_by (recorded r) others" and "kept_by candidate_schema others"
  shows "\<exists>v q a r. invite_by_token tk st = Some v \<and> a \<in> set (t_attempts st') \<and> r \<in> set (t_submissions st') \<and>
    at_key a = (inv_id v, normalize_email (su_email b)) \<and> s_id r = i \<and> s_code r = su_code b \<and>
    s_language r = su_language b \<and> sub_key r = Some (inv_id v, normalize_email (su_email b), q) \<and>
    (su_question_id b = None \<or> su_question_id b = Some q) \<and>
    s_late r = (case inv_duration_minutes v of None \<Rightarrow> False
      | Some d \<Rightarrow> rq_now rq > at_started_at a + (d * 60 + c_submit_grace_seconds c) * 1000000)"
proof -
  let ?e = "normalize_email (su_email b)" and ?now = "rq_now rq"
  obtain v ct h q s1 a s2 s3 s4 where v: "invite_by_token tk st = Some v"
    and q: "resolve_question (slot_points others) v (su_question_id b) ?e (st\<lparr>t_counters := ct, mem_hits := h\<rparr>) = (Inr q, s1)"
    and a: "get_or_start_attempt c others ?now v ?e (Some (su_name b)) (su_consent b) s1 = (Inr a, s2)"
    and s3: "insert_submission (candidate_submission c ?now i v ?e b q a) (others 4 s2) = (Inr (), s3)"
    and tr: "trigger_agent c x agent (trigger_points others) ?now q (candidate_submission c ?now i v ?e b q a) s3 = (Inr s4, st')"
    using assms(1) by (rule submit_stages)
  let ?s0 = "st\<lparr>t_counters := ct, mem_hits := h\<rparr>"
  let ?sub = "candidate_submission c ?now i v ?e b q a"
  have r3: "snd (trigger_agent c x agent (trigger_points others) ?now q ?sub s3) = st'" using tr by simp
  have "candidate_schema s1"
    using constraints.resolve [OF constraints.points(1) [OF assms(5)], of ?s0 v "su_question_id b" ?e] q
      constraints.hits [OF constraints.counters [OF assms(2)]] by simp
  from get_or_start_clock [OF a this assms(3,5)] have ca: "clock_is a s2" "at_key a = (inv_id v, ?e)" by simp_all
  have "clock_is a s3" using clock.insert_sub [OF kept_byD [OF assms(3) ca(1), of 4], of ?sub] s3 by simp
  then have "clock_is a st'" using clock.trigger [OF clock.points(2) [OF assms(3)]] r3 by metis
  then obtain a' where a': "a' \<in> set (t_attempts st')" "at_key a' = at_key a" "at_started_at a' = at_started_at a"
    by (auto simp: clock_is_def)
  have "recorded ?sub s3" using s3 by (auto simp: insert_submission_def recorded_def split: if_splits)
  then have "recorded ?sub st'" using standing.trigger [OF standing.points(2) [OF assms(4)]] r3 by metis
  then obtain r where r: "r \<in> set (t_submissions st')" "static_part r = static_part ?sub" by (auto simp: recorded_def)
  have late: "submit_is_late c ?now v a = (case inv_duration_minutes v of None \<Rightarrow> False
      | Some d \<Rightarrow> ?now > at_started_at a' + (d * 60 + c_submit_grace_seconds c) * 1000000)"
    by (simp add: submit_is_late_def deadline_for_def invite_duration_def minutes_def seconds_def a'(3) algebra_simps
        split: option.splits)
  have named: "su_question_id b = None \<or> su_question_id b = Some (q_id q)"
    using q resolve_question_named by (cases "su_question_id b") auto
  have fields: "s_id r = i" "s_code r = su_code b" "s_language r = su_language b" "s_late r = submit_is_late c ?now v a"
    "sub_key r = Some (inv_id v, ?e, q_id q)"
    using r(2) by (simp_all add: static_part_def candidate_submission_def new_submission_def sub_key_def)
  show ?thesis
    by (rule exI [of _ v], rule exI [of _ "q_id q"], rule exI [of _ a'], rule exI [of _ r])
       (use v a' r(1) fields named late ca(2) in simp)
qed

text \<open>The gates of the concrete examples, evaluated once.\<close>

lemma ada_normal: "normalize_email ''ada@x.org'' = ''ada@x.org''"
  by (simp add: normalize_email_def py_lower_def lower_char_def code_def py_strip_def py_strip_on_def py_lstrip_def is_space_def)

lemma example_limit:
  assumes "mem_hits s = []" and "0 < m"
  shows "limit_route default_settings b m example_request s = (Inr (), s\<lparr>mem_hits := [((b, ''1.2.3.4''), [0])]\<rparr>)"
  using assms by (simp add: limit_route_def limiter_check_def default_settings_def client_ip_def example_request_def
      mem_check_def hits_of_def Let_def)

lemma example_gate:
  assumes "t_invites s = [example_invite]"
  shows "load_invite_or_error n ''tok'' (Some ''ada@x.org'') False s = Inr example_invite"
    "check_invited example_invite ''ada@x.org'' = Inr ()"
  using assms ada_normal
  by (simp_all add: load_invite_or_error_def invite_by_token_def example_invite_def is_expired_def check_invited_def)

definition asked_store :: store where
  "asked_store = graded_store\<lparr>t_questions := [example_question]\<rparr>"

lemma no_hits: "mem_hits graded_store = []" "mem_hits asked_store = []"
  by (simp_all add: asked_store_def graded_store_def empty_store_def)

definition sat_store :: store where
  "sat_store = asked_store\<lparr>t_submissions := []\<rparr>"

definition example_submit :: submit_in where
  "example_submit = \<lparr>su_name = ''Ada'', su_email = ''ada@x.org'', su_language = ''go'', su_code = ''x'',
     su_question_id = None, su_consent = True\<rparr>"

lemma sat_store_rows:
  "t_submissions sat_store = []" "t_attempts sat_store = [example_attempt]" "t_invites sat_store = [example_invite]"
  "mem_hits sat_store = []" "t_questions sat_store = [example_question]" "candidate_schema sat_store"
  using graded_store_schema
  by (simp_all add: sat_store_def asked_store_def graded_store_def empty_store_def candidate_schema_def
      submissions_unique_def attempts_unique_def)

lemma example_submit_runs:
  "\<exists>out. fst (candidate_submit default_settings example_externals accepting_agent alone example_request ''s9'' ''tok''
     example_submit sat_store) = Inr out"
proof -
  let ?s = "sat_store\<lparr>mem_hits := [((''submit'', ''1.2.3.4''), [0])]\<rparr>"
  have e: "su_email example_submit = ''ada@x.org''" "su_question_id example_submit = None" by (simp_all add: example_submit_def)
  have c: "0 < c_submit_rate_limit_max default_settings" by (simp add: default_settings_def)
  note lim = example_limit [OF sat_store_rows(4) c, of "''submit''"]
  have g: "t_invites ?s = [example_invite]" by (simp add: sat_store_rows)
  have q: "resolve_question (slot_points alone) example_invite None ''ada@x.org'' ?s = (Inr example_question, ?s)"
    by (simp add: resolve_question_def invite_questions_def example_invite_def get_question_def sat_store_rows example_question_def)
  have n: "check_not_already_submitted example_invite ''ada@x.org'' i ?s = Inr ()" for i
    by (simp add: check_not_already_submitted_def submitted_by_def sat_store_rows exists_where_def)
  have at: "get_or_start_attempt default_settings alone t example_invite ''ada@x.org'' (Some m) True ?s =
      (Inr (example_attempt), ?s)" for t m
    by (simp add: get_or_start_attempt_def find_attempt_def sat_store_rows example_attempt_def example_invite_def at_key_def)
  have ins: "insert_submission sub ?s = (Inr (), ?s\<lparr>t_submissions := [sub]\<rparr>)" for sub
    by (simp add: insert_submission_def exists_where_def sat_store_rows)
  have trig: "\<exists>r u. trigger_agent default_settings example_externals accepting_agent (trigger_points alone) t example_question
      (candidate_submission default_settings t ''s9'' example_invite e b example_question a)
      (?s\<lparr>t_submissions := [candidate_submission default_settings t ''s9'' example_invite e b example_question a]\<rparr>) = (Inr r, u)"
    for t e b a
    by (simp add: trigger_agent_def cas_row_def cas_def candidate_submission_def new_submission_def refresh_def
        get_submission_def claim_values_def running_values_def accepting_trigger trigger_points_def alone_simp Let_def)
  obtain r u where tr: "trigger_agent default_settings example_externals accepting_agent (trigger_points alone) (rq_now example_request)
      example_question
      (candidate_submission default_settings (rq_now example_request) ''s9'' example_invite ''ada@x.org'' example_submit example_question example_attempt)
      (?s\<lparr>t_submissions := [candidate_submission default_settings (rq_now example_request) ''s9'' example_invite ''ada@x.org''
        example_submit example_question example_attempt]\<rparr>) = (Inr r, u)"
    using trig by blast
  show ?thesis
    unfolding candidate_submit_def Let_def lim bindr.simps e ada_normal example_gate [OF g] guardr_simps q n
    using at ins tr by (simp add: alone_simp example_submit_def)
qed

lemma submission_recorded_witness:
  "\<exists>r\<in>set (t_submissions (snd (candidate_submit default_settings example_externals accepting_agent alone example_request
     ''s9'' ''tok'' example_submit sat_store))). s_id r = ''s9'' \<and> s_code r = ''x''"
proof -
  let ?r = "candidate_submit default_settings example_externals accepting_agent alone example_request ''s9'' ''tok''
     example_submit sat_store"
  obtain out where "?r = (Inr out, snd ?r)" using example_submit_runs by (metis prod.collapse)
  from submission_recorded [OF this sat_store_rows(6) kept_by_alone kept_by_alone kept_by_alone]
  obtain r where "r \<in> set (t_submissions (snd ?r))" "s_id r = ''s9''" "s_code r = su_code example_submit" by blast
  then show ?thesis by (auto simp: example_submit_def)
qed

subsection \<open>Integrity events\<close>

lemma fold_add_event:
  "\<exists>new. fold (add_event now i email qid el) es t = t @ new \<and> map ev_kind new = map ei_kind es \<and>
     map ev_offset_ms new = map (\<lambda>e. min (ei_offset_ms e) el) es \<and>
     (\<forall>n\<in>set new. ev_invite_id n = i \<and> ev_candidate_email n = email \<and> ev_id n \<notin> ev_id ` set t)"
proof (induction es arbitrary: t)
  case Nil
  then show ?case by simp
next
  case (Cons e es)
  let ?n = "\<lparr>ev_id = fresh_id ev_id t, ev_invite_id = i, ev_candidate_email = email, ev_question_id = qid,
       ev_kind = ei_kind e, ev_offset_ms = min (ei_offset_ms e) el, ev_duration_ms = ei_duration_ms e,
       ev_size = ei_size e, ev_blocked = ei_blocked e, ev_created_at = now\<rparr>"
  obtain new where new: "fold (add_event now i email qid el) es (t @ [?n]) = (t @ [?n]) @ new"
    "map ev_kind new = map ei_kind es" "map ev_offset_ms new = map (\<lambda>e. min (ei_offset_ms e) el) es"
    "\<forall>n\<in>set new. ev_invite_id n = i \<and> ev_candidate_email n = email \<and> ev_id n \<notin> ev_id ` set (t @ [?n])"
    using Cons.IH [of "t @ [?n]"] by blast
  moreover have "add_event now i email qid el e t = t @ [?n]" by (simp add: add_event_def)
  ultimately show ?case
    using fresh_id_notin [of ev_id t] by (intro exI [of _ "?n # new"]) auto
qed

text \<open>
  Integrity events are appended in order and placed inside the sitting: however the browser
  reports them, no event lies before the start or later than the time the server has seen the sitting
  run (at zero when the candidate never started), and recording them starts no clock and changes no
  earlier event.
\<close>

theorem events_clamped:
  assumes "candidate_integrity_events c rq tk b st = (Inr (), st')"
    and "list_all (\<lambda>e. 0 \<le> ei_offset_ms e) (es_events b)"
  shows "\<exists>v new. invite_by_token tk st = Some v \<and> t_events st' = t_events st @ new \<and> t_attempts st' = t_attempts st \<and>
    map ev_kind new = map ei_kind (es_events b) \<and>
    list_all (\<lambda>n. 0 \<le> ev_offset_ms n \<and>
      (case find_attempt (inv_id v) (normalize_email (es_email b)) st of
         None \<Rightarrow> ev_offset_ms n = 0
       | Some a \<Rightarrow> 1000 * ev_offset_ms n \<le> max 0 (rq_now rq - at_started_at a))) new"
proof -
  obtain v ct h where v: "invite_by_token tk st = Some v"
    and st': "st' = (st\<lparr>t_counters := ct, mem_hits := h\<rparr>)\<lparr>t_events := fold (add_event (rq_now rq) (inv_id v)
      (normalize_email (es_email b)) (es_question_id b)
      (elapsed_ms (rq_now rq) (find_attempt (inv_id v) (normalize_email (es_email b)) (st\<lparr>t_counters := ct, mem_hits := h\<rparr>))))
      (es_events b) (t_events st)\<rparr>"
    using assms(1) unfolding candidate_integrity_events_def Let_def by (elim gate_InrE guardr_InrE) auto
  let ?at = "find_attempt (inv_id v) (normalize_email (es_email b)) st"
  let ?el = "elapsed_ms (rq_now rq) ?at"
  have at: "find_attempt (inv_id v) (normalize_email (es_email b)) (st\<lparr>t_counters := ct, mem_hits := h\<rparr>) = ?at"
    by (simp add: find_attempt_def)
  obtain new where new: "t_events st' = t_events st @ new" "map ev_kind new = map ei_kind (es_events b)"
    "map ev_offset_ms new = map (\<lambda>e. min (ei_offset_ms e) ?el) (es_events b)"
    using fold_add_event [of "rq_now rq" "inv_id v" "normalize_email (es_email b)" "es_question_id b" ?el "es_events b" "t_events st"]
    unfolding st' at by auto
  have el: "0 \<le> ?el" by (simp add: elapsed_ms_def split: option.splits)
  have bound: "case ?at of None \<Rightarrow> m = 0 | Some a \<Rightarrow> 1000 * m \<le> max 0 (rq_now rq - at_started_at a)"
    if "0 \<le> m" "m \<le> ?el" for m
  proof (cases ?at)
    case (Some a)
    have "1000 * ((rq_now rq - at_started_at a) div 1000) \<le> rq_now rq - at_started_at a" by linarith
    then show ?thesis using that Some by (auto simp: elapsed_ms_def max_def split: if_splits)
  qed (use that in \<open>simp add: elapsed_ms_def\<close>)
  have "0 \<le> ev_offset_ms n \<and> ev_offset_ms n \<le> ?el" if "n \<in> set new" for n
  proof -
    have "ev_offset_ms n \<in> set (map ev_offset_ms new)" using that by simp
    then obtain e where "e \<in> set (es_events b)" "ev_offset_ms n = min (ei_offset_ms e) ?el"
      unfolding new(3) by auto
    then show ?thesis using assms(2) el by (auto simp: list_all_iff)
  qed
  then show ?thesis using v new(1,2) bound by (auto simp: list_all_iff st')
qed

definition example_events :: events_in where
  "example_events = \<lparr>es_email = ''ada@x.org'', es_question_id = None,
     es_events = [\<lparr>ei_kind = ''focus_loss'', ei_offset_ms = 999999, ei_duration_ms = None, ei_size = None, ei_blocked = False\<rparr>]\<rparr>"

lemma events_clamped_witness:
  "\<exists>new. t_events (snd (candidate_integrity_events default_settings example_request ''tok'' example_events graded_store)) = new \<and>
     map ev_kind new = [''focus_loss''] \<and> list_all (\<lambda>n. 0 \<le> ev_offset_ms n) new"
proof -
  let ?r = "candidate_integrity_events default_settings example_request ''tok'' example_events graded_store"
  have c: "0 < c_submit_rate_limit_max default_settings" by (simp add: default_settings_def)
  have e: "es_email example_events = ''ada@x.org''" "t_events graded_store = []"
    by (simp_all add: example_events_def graded_store_def empty_store_def)
  obtain h where h: "limit_route default_settings ''events'' (c_submit_rate_limit_max default_settings) example_request
      graded_store = (Inr (), graded_store\<lparr>mem_hits := h\<rparr>)"
    using example_limit [OF no_hits(1) c] by blast
  have g: "t_invites (graded_store\<lparr>mem_hits := h\<rparr>) = [example_invite]" by (simp add: graded_store_def)
  have "fst ?r = Inr ()"
    unfolding candidate_integrity_events_def Let_def h bindr.simps e ada_normal example_gate [OF g] guardr_simps
    by (simp add: named_question_exists_def example_events_def)
  then have "?r = (Inr (), snd ?r)" by (metis prod.collapse)
  moreover have "list_all (\<lambda>e. 0 \<le> ei_offset_ms e) (es_events example_events)" by (simp add: example_events_def)
  ultimately obtain new where "t_events (snd ?r) = t_events graded_store @ new" "map ev_kind new = map ei_kind (es_events example_events)"
    "list_all (\<lambda>n. 0 \<le> ev_offset_ms n) new"
    using events_clamped [of default_settings example_request "''tok''" example_events graded_store "snd ?r"]
    by (auto simp: list_all_iff)
  then show ?thesis by (simp add: e example_events_def)
qed

subsection \<open>Drafts\<close>

lemma same_slots: "\<exists>sv. s = s\<lparr>t_slot_variants := sv\<rparr>"
  by (rule exI [of _ "t_slot_variants s"]) simp

lemma resolve_frame:
  "\<exists>sv. snd (resolve_slot_variant id v aq e s) = s\<lparr>t_slot_variants := sv\<rparr>"
proof (cases "Option.bind (slot_row v e (aq_id aq) s) (\<lambda>r. get_question (sv_question_id r) s)")
  case (Some q)
  then have "snd (resolve_slot_variant id v aq e s) = s" by (simp add: resolve_slot_variant_def)
  then show ?thesis using same_slots by simp
next
  case None
  show ?thesis
  proof (cases "slot_row v e (aq_id aq) s = None \<and> (\<exists>i. aq_variant_set_id aq = Some i \<and> set_variants i s \<noteq> [])")
    case True
    then obtain i where "aq_variant_set_id aq = Some i" "set_variants i s \<noteq> []" by blast
    with True None have "snd (resolve_slot_variant id v aq e s) = s\<lparr>t_slot_variants := t_slot_variants s @
        [\<lparr>sv_id = fresh_id sv_id (t_slot_variants s), sv_invite_id = inv_id v, sv_candidate_email = e,
          sv_assessment_question_id = aq_id aq, sv_question_id = q_id (set_variants i s !
            (count_where (\<lambda>r. sv_assessment_question_id r = aq_id aq) (t_slot_variants s) mod length (set_variants i s)))\<rparr>]\<rparr>"
      by (simp add: resolve_slot_variant_def Let_def)
    then show ?thesis by (rule exI)
  next
    case False
    then have "snd (resolve_slot_variant id v aq e s) = s"
      using None by (auto simp: resolve_slot_variant_def Let_def split: option.splits)
    then show ?thesis using same_slots by simp
  qed
qed

lemma slot_questions_frame:
  "\<exists>sv. snd (slot_questions (slot_points alone) v e k aqs s) = s\<lparr>t_slot_variants := sv\<rparr>"
proof (induction aqs arbitrary: k s)
  case Nil
  show ?case using same_slots by simp
next
  case (Cons aq aqs)
  have alone_slot: "slot_points alone k = id" by (simp only: slot_points_def alone_id)
  obtain sv where one: "snd (slot_question (slot_points alone k) v e aq s) = s\<lparr>t_slot_variants := sv\<rparr>"
  proof (cases "aq_variant_set_id aq = None \<or> e = None")
    case True
    then have "snd (slot_question (slot_points alone k) v e aq s) = s\<lparr>t_slot_variants := t_slot_variants s\<rparr>"
      by (auto simp: slot_question_def split: option.splits)
    then show thesis by (rule that)
  next
    case False
    then obtain i em where "aq_variant_set_id aq = Some i" "e = Some em" by auto
    moreover obtain sv where "snd (resolve_slot_variant id v aq em s) = s\<lparr>t_slot_variants := sv\<rparr>"
      using resolve_frame by blast
    ultimately have "snd (slot_question (slot_points alone k) v e aq s) = s\<lparr>t_slot_variants := sv\<rparr>"
      by (simp add: slot_question_def alone_slot snd_bindr split: sum.splits)
    then show thesis by (rule that)
  qed
  show ?case
  proof (cases "slot_question (slot_points alone k) v e aq s")
    case (Pair r s1)
    then have s1: "s1 = s\<lparr>t_slot_variants := sv\<rparr>" using one by simp
    obtain sv2 where "snd (slot_questions (slot_points alone) v e (Suc k) aqs s1) = s1\<lparr>t_slot_variants := sv2\<rparr>"
      using Cons.IH by blast
    then have "snd (slot_questions (slot_points alone) v e k (aq # aqs) s) \<in>
        {s\<lparr>t_slot_variants := sv\<rparr>, s\<lparr>t_slot_variants := sv2\<rparr>}"
      using Pair s1 by (cases r) (simp_all add: snd_bindr split: sum.splits)
    then show ?thesis by blast
  qed
qed

lemma resolve_question_frame:
  "\<exists>sv. snd (resolve_question (slot_points alone) v q e s) = s\<lparr>t_slot_variants := sv\<rparr>"
proof -
  have "\<exists>sv. snd (invite_questions (slot_points alone) v e' s) = s\<lparr>t_slot_variants := sv\<rparr>" for e'
  proof (cases "Option.bind (inv_assessment_id v) (\<lambda>i. get_assessment i s)")
    case None
    then have "snd (invite_questions (slot_points alone) v e' s) = s"
      by (auto simp: invite_questions_def split: option.splits)
    then show ?thesis using same_slots by simp
  next
    case (Some a)
    then show ?thesis
      using slot_questions_frame [of v e' 0 "assessment_slots a s" s]
      by (cases "inv_assessment_id v") (auto simp: invite_questions_def snd_bindr split: sum.splits)
  qed
  from this [of "Some e"] show ?thesis
    by (auto simp: resolve_question_def snd_bindr split: sum.splits option.splits)
qed

lemma drafts_of_key:
  assumes "unique_key dr_key t" and "d \<in> set t"
  shows "filter (\<lambda>r. dr_key r = dr_key d) t = [d]"
  using assms unique_keyD [OF assms(1)]
  by (intro filter_singleton) (auto simp: unique_key_def distinct_map)

text \<open>
  A draft that was saved is what a restore gives back: reading the drafts of that candidate
  returns exactly one entry for the question, with the code, the language and the time of the save.
\<close>

theorem draft_round_trip:
  assumes "candidate_save_draft c alone rq tk b st = (Inr (), st')" and "di_question_id b = Some i"
    and "unique_key dr_key (t_drafts st)" and "unique_key dr_id (t_drafts st)"
    and "candidate_get_drafts now tk (di_email b) st' = Inr ds"
  shows "filter (\<lambda>d. do_question_id d = i) ds =
    [\<lparr>do_question_id = i, do_code = di_code b, do_language = di_language b, do_updated_at = rq_now rq\<rparr>]"
proof -
  let ?e = "normalize_email (di_email b)"
  obtain v ct h where v: "invite_by_token tk st = Some v" and
    k: "bindr (resolve_question (slot_points alone) v (Some i) ?e (st\<lparr>t_counters := ct, mem_hits := h\<rparr>)) (\<lambda>q st1.
        write_draft (alone 4) (rq_now rq) (inv_id v, ?e, q_id q) (di_code b) (di_language b) st1) = (Inr (), st')"
    using assms(1,2) unfolding candidate_save_draft_def Let_def by (elim gate_InrE) auto
  let ?s = "st\<lparr>t_counters := ct, mem_hits := h\<rparr>"
  from k obtain q s1 where q: "resolve_question (slot_points alone) v (Some i) ?e ?s = (Inr q, s1)"
    and w: "write_draft (alone 4) (rq_now rq) (inv_id v, ?e, q_id q) (di_code b) (di_language b) s1 = (Inr (), st')"
    by (elim bindr_InrE)
  have i: "q_id q = i" by (rule resolve_question_named [OF q])
  have s1: "t_drafts s1 = t_drafts st" "t_invites s1 = t_invites st"
    using resolve_question_frame [of v "Some i" ?e ?s] q by auto
  let ?k = "(inv_id v, ?e, i)"
  obtain d where d: "d \<in> set (t_drafts st')" "dr_key d = ?k" "dr_code d = di_code b" "dr_language d = di_language b"
    "dr_updated_at d = rq_now rq" and u: "unique_key dr_key (t_drafts st')" and inv: "t_invites st' = t_invites st"
  proof (cases "first_where (\<lambda>d. dr_key d = ?k) (t_drafts s1)")
    case None
    let ?d = "\<lparr>dr_id = fresh_id dr_id (t_drafts s1), dr_invite_id = inv_id v, dr_candidate_email = ?e, dr_question_id = i,
      dr_code = di_code b, dr_language = di_language b, dr_updated_at = rq_now rq\<rparr>"
    have "st' = s1\<lparr>t_drafts := t_drafts s1 @ [?d]\<rparr>"
      using w None by (auto simp: write_draft_def i alone_simp split: if_splits)
    moreover have "?k \<notin> dr_key ` set (t_drafts st)" using None s1 by (auto simp: find_None_iff')
    moreover have "dr_key ?d = ?k" by (simp add: dr_key_def)
    ultimately show thesis using that [of ?d] assms(3) s1 by (simp add: unique_key_append)
  next
    case (Some d0)
    let ?f = "\<lambda>r. r\<lparr>dr_code := di_code b, dr_language := di_language b, dr_updated_at := rq_now rq\<rparr>"
    have d0: "d0 \<in> set (t_drafts st)" "dr_key d0 = ?k" using Some s1 find_SomeD by fastforce+
    have st': "st' = s1\<lparr>t_drafts := upd_where (\<lambda>r. dr_id r = dr_id d0) ?f (t_drafts s1)\<rparr>"
      using w Some by (simp add: write_draft_def i alone_simp Let_def)
    have "?f d0 \<in> set (t_drafts st')" using d0(1) s1 by (auto simp: st' in_upd_where)
    moreover have "unique_key dr_key (t_drafts st')"
      using assms(3) s1 by (simp add: st' unique_key_upd dr_key_def)
    ultimately show thesis using that [of "?f d0"] d0 s1 by (simp add: st' dr_key_def)
  qed
  have "invite_by_token tk st' = Some v" using v inv by (simp add: invite_by_token_def)
  then have ds: "ds = map (\<lambda>d. \<lparr>do_question_id = dr_question_id d, do_code = dr_code d, do_language = dr_language d,
        do_updated_at = dr_updated_at d\<rparr>)
      (filter (\<lambda>d. dr_invite_id d = inv_id v \<and> dr_candidate_email d = ?e) (t_drafts st'))"
    using assms(5) by (auto simp: candidate_get_drafts_def load_invite_or_error_def Let_def check_invited_def require_def
        split: if_splits)
  have "filter (\<lambda>r. dr_key r = ?k) (t_drafts st') = [d]" using drafts_of_key [OF u d(1)] d(2) by simp
  then have "filter (\<lambda>d. dr_question_id d = i) (filter (\<lambda>d. dr_invite_id d = inv_id v \<and> dr_candidate_email d = ?e) (t_drafts st')) = [d]"
    by (simp add: dr_key_def conj_ac)
  then show ?thesis using d by (simp add: ds filter_map comp_def dr_key_def)
qed

definition example_draft :: draft_in where
  "example_draft = \<lparr>di_email = ''ada@x.org'', di_question_id = Some ''q1'', di_code = ''wip'', di_language = ''go''\<rparr>"

lemma draft_round_trip_witness:
  "\<exists>ds. candidate_get_drafts 2000 ''tok'' ''ada@x.org''
       (snd (candidate_save_draft default_settings alone example_request ''tok'' example_draft asked_store)) = Inr ds \<and>
     map do_code (filter (\<lambda>d. do_question_id d = ''q1'') ds) = [''wip'']"
proof -
  let ?r = "candidate_save_draft default_settings alone example_request ''tok'' example_draft asked_store"
  have c: "0 < c_draft_save_rate_limit_max default_settings" by (simp add: default_settings_def)
  have e: "di_email example_draft = ''ada@x.org''" "di_question_id example_draft = Some ''q1''" "di_code example_draft = ''wip''"
    by (simp_all add: example_draft_def)
  obtain h where h: "limit_route default_settings ''draft_save'' (c_draft_save_rate_limit_max default_settings) example_request
      asked_store = (Inr (), asked_store\<lparr>mem_hits := h\<rparr>)"
    using example_limit [OF no_hits(2) c] by blast
  have g: "t_invites (asked_store\<lparr>mem_hits := h\<rparr>) = [example_invite]" by (simp add: asked_store_def graded_store_def)
  let ?s = "asked_store\<lparr>mem_hits := h\<rparr>"
  have q: "resolve_question (slot_points alone) example_invite (Some ''q1'') ''ada@x.org'' ?s = (Inr example_question, ?s)"
    by (simp add: resolve_question_def invite_questions_def example_invite_def asked_store_def get_question_def example_question_def)
  have nodrafts: "t_drafts asked_store = []" by (simp add: asked_store_def graded_store_def empty_store_def)
  have r: "fst ?r = Inr ()" "t_invites (snd ?r) = [example_invite]"
    unfolding candidate_save_draft_def Let_def h bindr.simps e ada_normal example_gate [OF g] guardr_simps q
    using g nodrafts by (simp_all add: write_draft_def alone_simp exists_where_def)
  then have run: "?r = (Inr (), snd ?r)" by (metis prod.collapse)
  obtain ds where ds: "candidate_get_drafts 2000 ''tok'' ''ada@x.org'' (snd ?r) = Inr ds"
    using example_gate [OF r(2)] by (simp add: candidate_get_drafts_def ada_normal)
  have u: "unique_key dr_key (t_drafts asked_store)" "unique_key dr_id (t_drafts asked_store)" by (simp_all add: nodrafts)
  show ?thesis
    using draft_round_trip [OF run e(2) u, of 2000 ds] ds e by simp
qed

subsection \<open>The answer key\<close>

text \<open>
  Another store with the same questions but any test cases and any reference solutions in place of
  the real ones.
\<close>

definition rekeyed :: "(string \<Rightarrow> string option \<times> string option) \<Rightarrow> question \<Rightarrow> question" where
  "rekeyed f q = q\<lparr>q_reference_solution := fst (f (q_id q)), q_reference_language := snd (f (q_id q))\<rparr>"

definition other_key :: "test_case list \<Rightarrow> (string \<Rightarrow> string option \<times> string option) \<Rightarrow> store \<Rightarrow> store" where
  "other_key tcs f st = st\<lparr>t_test_cases := tcs, t_questions := map (rekeyed f) (t_questions st)\<rparr>"

lemma rekeyed_simps [simp]:
  "q_id (rekeyed f q) = q_id q" "q_variant_set_id (rekeyed f q) = q_variant_set_id q"
  "label_key (rekeyed f q) = label_key q" "q_org_id (rekeyed f q) = q_org_id q"
  "view_of (rekeyed f q) = view_of q" "public_of ids (rekeyed f q) = public_of ids q"
  by (simp_all add: rekeyed_def label_key_def view_of_def public_of_def)

lemma find_map: "(\<And>x. p (h x) = p x) \<Longrightarrow> first_where p (map h xs) = map_option h (first_where p xs)"
  by (induction xs) auto

lemma insort_key_map: "(\<And>x. k (h x) = k x) \<Longrightarrow> insort_key k (h x) (map h xs) = map h (insort_key k x xs)"
  by (induction xs) auto

lemma sort_key_map: "(\<And>x. k (h x) = k x) \<Longrightarrow> sort_key k (map h xs) = map h (sort_key k xs)"
  by (induction xs) (auto simp: insort_key_map)

lemma other_key_lookups:
  "get_question i (other_key tcs f st) = map_option (rekeyed f) (get_question i st)"
  "set_variants i (other_key tcs f st) = map (rekeyed f) (set_variants i st)"
  "slot_row v e k (other_key tcs f st) = slot_row v e k st"
  "get_assessment i (other_key tcs f st) = get_assessment i st"
  "assessment_slots a (other_key tcs f st) = assessment_slots a st"
  "t_slot_variants (other_key tcs f st) = t_slot_variants st"
  "submitted_ids v e (other_key tcs f st) = submitted_ids v e st"
  "get_org oi (other_key tcs f st) = get_org oi st"
  by (simp_all add: other_key_def get_question_def set_variants_def find_map sort_key_map filter_map comp_def
      slot_row_def get_assessment_def assessment_slots_def submitted_ids_def get_org_def)

lemma invite_org_other_key: "invite_org v (other_key tcs f st) = invite_org v st"
proof -
  have org: "map_option q_org_id (get_question q (other_key tcs f st)) = map_option q_org_id (get_question q st)" for q
    by (simp add: other_key_lookups option.map_comp comp_def)
  show ?thesis unfolding invite_org_def org other_key_lookups(4,8) ..
qed

lemma resolve_other_key:
  "resolve_slot_variant id v aq e (other_key tcs f st) =
     map_prod (map_sum id (rekeyed f)) (other_key tcs f) (resolve_slot_variant id v aq e st)"
proof (cases "Option.bind (slot_row v e (aq_id aq) st) (\<lambda>r. get_question (sv_question_id r) st)")
  case (Some q)
  then have "Option.bind (slot_row v e (aq_id aq) st) (\<lambda>r. get_question (sv_question_id r) (other_key tcs f st)) = Some (rekeyed f q)"
    by (cases "slot_row v e (aq_id aq) st") (simp_all add: other_key_lookups)
  with Some show ?thesis by (simp add: resolve_slot_variant_def other_key_lookups)
next
  case missing: None
  then have none: "Option.bind (slot_row v e (aq_id aq) st) (\<lambda>r. get_question (sv_question_id r) (other_key tcs f st)) = None"
    by (cases "slot_row v e (aq_id aq) st") (simp_all add: other_key_lookups)
  show ?thesis
  proof (cases "aq_variant_set_id aq")
    case None
    then show ?thesis using none missing by (simp add: resolve_slot_variant_def other_key_lookups)
  next
    case (Some i)
    show ?thesis
    proof (cases "set_variants i st = []")
      case True
      then show ?thesis using none missing Some
        by (simp add: resolve_slot_variant_def other_key_lookups)
    next
      case False
      then have nth: "map (rekeyed f) (set_variants i st) ! (k mod length (set_variants i st)) =
          rekeyed f (set_variants i st ! (k mod length (set_variants i st)))" for k by simp
      show ?thesis
      proof (cases "slot_row v e (aq_id aq) st")
        case None
        then show ?thesis using none missing Some False nth
          by (simp add: resolve_slot_variant_def other_key_lookups Let_def) (simp add: other_key_def)
      next
        case row: (Some r)
        then have "get_question (sv_question_id r) st = None" using missing by simp
        then show ?thesis using none missing Some False nth row
          by (simp add: resolve_slot_variant_def other_key_lookups Let_def)
      qed
    qed
  qed
qed

lemma slot_question_other_key:
  "slot_question id v e aq (other_key tcs f st) =
     map_prod (map_sum id (map (rekeyed f))) (other_key tcs f) (slot_question id v e aq st)"
proof (cases "aq_variant_set_id aq")
  case None
  then show ?thesis
    by (cases "aq_question_id aq") (auto simp: slot_question_def other_key_lookups split: option.splits)
next
  case (Some i)
  then show ?thesis
  proof (cases e)
    case None
    then show ?thesis using Some by (simp add: slot_question_def other_key_lookups take_map)
  next
    case em: (Some em)
    then show ?thesis using Some resolve_other_key [of v aq em tcs f st]
      by (cases "resolve_slot_variant id v aq em st"; cases "fst (resolve_slot_variant id v aq em st)")
         (simp_all add: slot_question_def)
  qed
qed

lemma slot_questions_other_key:
  "slot_questions (\<lambda>_. id) v e k aqs (other_key tcs f st) =
     map_prod (map_sum id (map (rekeyed f))) (other_key tcs f) (slot_questions (\<lambda>_. id) v e k aqs st)"
proof (induction aqs arbitrary: k st)
  case Nil
  then show ?case by simp
next
  case (Cons aq aqs)
  obtain r s1 where one: "slot_question id v e aq st = (r, s1)" by (cases "slot_question id v e aq st")
  obtain r2 s2 where two: "slot_questions (\<lambda>_. id) v e (Suc k) aqs s1 = (r2, s2)"
    by (cases "slot_questions (\<lambda>_. id) v e (Suc k) aqs s1")
  have one': "slot_question id v e aq (other_key tcs f st) = map_prod (map_sum id (map (rekeyed f))) (other_key tcs f) (r, s1)"
    unfolding one [symmetric] by (rule slot_question_other_key)
  have two': "slot_questions (\<lambda>_. id) v e (Suc k) aqs (other_key tcs f s1) =
      map_prod (map_sum id (map (rekeyed f))) (other_key tcs f) (r2, s2)"
    unfolding two [symmetric] by (rule Cons.IH)
  show ?case
  proof (cases r)
    case (Inl x)
    then show ?thesis using one one' by (simp add: id_def)
  next
    case (Inr qs)
    then show ?thesis using one one' two two' by (cases r2) (simp_all add: id_def)
  qed
qed

lemma invite_questions_other_key:
  "invite_questions (\<lambda>_. id) v e (other_key tcs f st) =
     map_prod (map_sum id (map (rekeyed f))) (other_key tcs f) (invite_questions (\<lambda>_. id) v e st)"
proof (cases "inv_assessment_id v")
  case None
  show ?thesis
  proof (cases "Option.bind (inv_question_id v) (\<lambda>i. if i = [] then None else get_question i st)")
    case (Some q)
    then have "Option.bind (inv_question_id v) (\<lambda>i. if i = [] then None else get_question i (other_key tcs f st)) = Some (rekeyed f q)"
      by (cases "inv_question_id v") (auto simp: other_key_lookups split: if_splits)
    then show ?thesis using None Some by (simp add: invite_questions_def)
  next
    case none: None
    then have "Option.bind (inv_question_id v) (\<lambda>i. if i = [] then None else get_question i (other_key tcs f st)) = None"
      by (cases "inv_question_id v") (auto simp: other_key_lookups split: if_splits)
    then show ?thesis using None none by (simp add: invite_questions_def)
  qed
next
  case (Some i)
  show ?thesis
  proof (cases "get_assessment i st")
    case None
    then show ?thesis using Some by (simp add: invite_questions_def other_key_lookups)
  next
    case a: (Some a)
    obtain r s1 where one: "slot_questions (\<lambda>_. id) v e 0 (assessment_slots a st) st = (r, s1)"
      by (cases "slot_questions (\<lambda>_. id) v e 0 (assessment_slots a st) st")
    then show ?thesis
      using Some a slot_questions_other_key [of v e 0 "assessment_slots a st" tcs f st]
      by (cases r) (simp_all add: invite_questions_def other_key_lookups)
  qed
qed

text \<open>
  C6. What a candidate is shown does not depend on the answer key: with any other test cases and
  any other reference solutions in the database the page is the same, field for field.
\<close>

theorem answer_key_never_shown:
  "fst (candidate_question_view c (\<lambda>_. id) now v attempt (other_key tcs f st)) =
   fst (candidate_question_view c (\<lambda>_. id) now v attempt st)"
proof -
  let ?e = "map_option at_candidate_email attempt"
  obtain r s1 where one: "invite_questions (\<lambda>_. id) v ?e st = (r, s1)" by (cases "invite_questions (\<lambda>_. id) v ?e st")
  then have two: "invite_questions (\<lambda>_. id) v ?e (other_key tcs f st) = (map_sum id (map (rekeyed f)) r, other_key tcs f s1)"
    using invite_questions_other_key [of v ?e tcs f st] by simp
  have a: "invite_assessment v (other_key tcs f st) = invite_assessment v st"
    by (simp add: invite_assessment_def other_key_lookups)
  have support: "invite_contact_email c v (other_key tcs f s) = invite_contact_email c v s" for s
    by (simp add: invite_contact_email_def invite_org_other_key)
  show ?thesis
  proof (cases r)
    case (Inl err)
    then show ?thesis using one two by (simp add: candidate_question_view_def Let_def)
  next
    case (Inr qs)
    have "qs \<noteq> []" using one Inr by (auto simp: invite_questions_def elim!: bindr_InrE split: option.splits if_splits)
    then have "view_of (hd (map (rekeyed f) qs)) = view_of (hd qs)" by (cases qs) simp_all
    moreover have "map (public_of ids) (map (rekeyed f) qs) = map (public_of ids) qs" for ids by simp
    ultimately show ?thesis
      using one two Inr by (simp add: candidate_question_view_def Let_def a support invite_org_other_key
          other_key_lookups split: option.splits del: map_map)
  qed
qed

end
