(* ===== verification/Privacy.thy ===== *)
theory Privacy
  imports Sitting
begin

section \<open>Privacy: erasing a candidate and applying a retention window\<close>

text \<open>
  \<open>privacy.py\<close> and its route: anonymising one candidate on a set of invites, an organisation-wide
  erasure, and the retention sweep. A tombstone is minted from \<open>uuid4().hex\<close>, which is an argument;
  the \<open>n\<close>-th sitting a sweep erases takes the \<open>n\<close>-th value of a stream. A tenant whose commit fails is
  rolled back: \<open>commits\<close> says for which organisations it succeeds.
\<close>

definition ERASED_NAME :: string where
  "ERASED_NAME = ''[erased]''"

definition ERASED_RESULT :: "(string \<times> json) list" where
  "ERASED_RESULT = [(''erased'', JBool True)]"

definition ERASED_REASON :: string where
  "ERASED_REASON = ''[erased]''"

definition TOMBSTONE_DOMAIN :: string where
  "TOMBSTONE_DOMAIN = ''erased.invalid''"

definition is_erased :: "string option \<Rightarrow> bool" where
  "is_erased email = (case email of None \<Rightarrow> False | Some e \<Rightarrow> endswith e (''@'' @ TOMBSTONE_DOMAIN))"

definition tombstone :: "string \<Rightarrow> string" where
  "tombstone hex = ''erased-'' @ take 16 hex @ ''@'' @ TOMBSTONE_DOMAIN"

record erasure_counts =
  ec_submissions :: nat
  ec_results :: nat
  ec_attempts :: nat
  ec_slot_variants :: nat
  ec_integrity_events :: nat
  ec_drafts_deleted :: nat
  ec_invites_amended :: nat
  ec_feedback_deleted :: nat

definition no_counts :: erasure_counts where
  "no_counts = \<lparr>ec_submissions = 0, ec_results = 0, ec_attempts = 0, ec_slot_variants = 0,
     ec_integrity_events = 0, ec_drafts_deleted = 0, ec_invites_amended = 0, ec_feedback_deleted = 0\<rparr>"

definition touched_anything :: "erasure_counts \<Rightarrow> bool" where
  "touched_anything c = (0 < ec_submissions c \<or> 0 < ec_results c \<or> 0 < ec_attempts c \<or> 0 < ec_slot_variants c \<or>
     0 < ec_integrity_events c \<or> 0 < ec_drafts_deleted c \<or> 0 < ec_invites_amended c \<or> 0 < ec_feedback_deleted c)"

definition of_org :: "int \<Rightarrow> store \<Rightarrow> invite \<Rightarrow> bool" where
  "of_org org_id st v =
    ((case inv_question_id v of None \<Rightarrow> False
      | Some q \<Rightarrow> exists_where (\<lambda>r. q_id r = q \<and> q_org_id r = org_id) (t_questions st)) \<or>
     (case inv_assessment_id v of None \<Rightarrow> False
      | Some a \<Rightarrow> exists_where (\<lambda>r. a_id r = a \<and> a_org_id r = org_id) (t_assessments st)))"

definition org_invite_ids :: "int \<Rightarrow> store \<Rightarrow> int list" where
  "org_invite_ids org_id st = map inv_id (filter (of_org org_id st) (t_invites st))"

text \<open>\<open>_scrub_invite_recipients\<close>: the invite without the address; it counts as amended when it changed.\<close>

definition scrubbed :: "string \<Rightarrow> invite \<Rightarrow> invite" where
  "scrubbed email v = v\<lparr>inv_recipients := filter (\<lambda>r. r \<noteq> email) (inv_recipients v),
     inv_deliveries := filter (\<lambda>d. d_recipient d \<noteq> email) (inv_deliveries v)\<rparr>"

definition scrub_changes :: "string \<Rightarrow> invite \<Rightarrow> bool" where
  "scrub_changes email v = (email \<in> set (inv_recipients v) \<or> email \<in> d_recipient ` set (inv_deliveries v))"

definition anonymous_submission :: "string \<Rightarrow> instant \<Rightarrow> submission \<Rightarrow> submission" where
  "anonymous_submission tomb now s = s\<lparr>s_candidate := ERASED_NAME, s_candidate_email := Some tomb, s_code := [],
     s_updated_at := now\<rparr>"

definition anonymous_result :: "assessment_result \<Rightarrow> assessment_result" where
  "anonymous_result r = r\<lparr>r_full_result := ERASED_RESULT, r_reason := ERASED_REASON\<rparr>"

definition anonymous_attempt :: "string \<Rightarrow> instant \<Rightarrow> candidate_attempt \<Rightarrow> candidate_attempt" where
  "anonymous_attempt tomb now a = a\<lparr>at_candidate_email := tomb, at_candidate_name := None, at_erased_at := Some now\<rparr>"

text \<open>\<open>_erase\<close>, with the tombstone it minted.\<close>

definition erase :: "string \<Rightarrow> string \<Rightarrow> int list \<Rightarrow> string list \<Rightarrow> instant \<Rightarrow> store \<Rightarrow> erasure_counts \<times> store" where
  "erase tomb email ids subs now st =
    (if ids = [] \<and> subs = [] then (no_counts, st)
     else
       let sub_hit = (\<lambda>s. s_id s \<in> set subs);
           res_hit = (\<lambda>r. r_submission_id r \<in> set subs);
           at_hit = (\<lambda>a. at_invite_id a \<in> set ids \<and> at_candidate_email a = email);
           fb_hit = (\<lambda>f. fb_attempt_id f \<in> set (map at_id (filter at_hit (t_attempts st))));
           sv_hit = (\<lambda>r. sv_invite_id r \<in> set ids \<and> sv_candidate_email r = email);
           ev_hit = (\<lambda>r. ev_invite_id r \<in> set ids \<and> ev_candidate_email r = email);
           dr_hit = (\<lambda>r. dr_invite_id r \<in> set ids \<and> dr_candidate_email r = email);
           inv_hit = (\<lambda>v. inv_id v \<in> set ids \<and> scrub_changes email v)
       in (\<lparr>ec_submissions = count_where sub_hit (t_submissions st),
            ec_results = count_where res_hit (t_results st),
            ec_attempts = count_where at_hit (t_attempts st),
            ec_slot_variants = count_where sv_hit (t_slot_variants st),
            ec_integrity_events = count_where ev_hit (t_events st),
            ec_drafts_deleted = count_where dr_hit (t_drafts st),
            ec_invites_amended = count_where inv_hit (t_invites st),
            ec_feedback_deleted = count_where fb_hit (t_feedback st)\<rparr>,
           st\<lparr>t_results := upd_where res_hit anonymous_result (t_results st),
              t_submissions := upd_where sub_hit (anonymous_submission tomb now) (t_submissions st),
              t_feedback := del_where fb_hit (t_feedback st),
              t_attempts := upd_where at_hit (anonymous_attempt tomb now) (t_attempts st),
              t_slot_variants := upd_where sv_hit (\<lambda>r. r\<lparr>sv_candidate_email := tomb\<rparr>) (t_slot_variants st),
              t_events := upd_where ev_hit (\<lambda>r. r\<lparr>ev_candidate_email := tomb\<rparr>) (t_events st),
              t_drafts := del_where dr_hit (t_drafts st),
              t_invites := upd_where inv_hit (scrubbed email) (t_invites st)\<rparr>))"

definition submissions_to_erase :: "int \<Rightarrow> string \<Rightarrow> store \<Rightarrow> string list" where
  "submissions_to_erase org_id email st =
     map s_id (filter (\<lambda>s. s_candidate_email s = Some email \<and>
       (exists_where (\<lambda>q. q_id q = s_question_id s \<and> q_org_id q = org_id) (t_questions st) \<or>
        (case s_invite_id s of None \<Rightarrow> False | Some i \<Rightarrow> i \<in> set (org_invite_ids org_id st)))) (t_submissions st))"

definition erase_candidate :: "string \<Rightarrow> instant \<Rightarrow> int \<Rightarrow> string \<Rightarrow> store \<Rightarrow> erasure_counts \<times> store" where
  "erase_candidate hex now org_id email st =
     erase (tombstone hex) email (org_invite_ids org_id st) (submissions_to_erase org_id email st) now st"

definition erase_sitting :: "string \<Rightarrow> instant \<Rightarrow> int \<Rightarrow> string \<Rightarrow> store \<Rightarrow> erasure_counts \<times> store" where
  "erase_sitting hex now invite_id email st =
     erase (tombstone hex) email [invite_id]
       (map s_id (filter (\<lambda>s. s_invite_id s = Some invite_id \<and> s_candidate_email s = Some email) (t_submissions st))) now st"

subsection \<open>The route\<close>

definition require_admin :: "membership \<Rightarrow> exn + unit" where
  "require_admin org = require (m_role org = ''admin'')
     (HTTPException 403 ''only an organisation admin can manage the team.'')"

record erasure_out =
  eo_candidate_email :: string
  eo_erased :: bool
  eo_counts :: erasure_counts

definition erase_candidate_data :: "string \<Rightarrow> instant \<Rightarrow> string \<Rightarrow> membership \<Rightarrow> store \<Rightarrow> (erasure_out, store) outcome" where
  "erase_candidate_data hex now email org st =
    guardr (require_admin org) st (\<lambda>_.
      let normalized = normalize_email email in
      case erase_candidate hex now (m_org_id org) normalized st of
        (counts, st1) \<Rightarrow> (Inr \<lparr>eo_candidate_email = normalized, eo_erased = touched_anything counts,
                              eo_counts = counts\<rparr>, st1))"

subsection \<open>Retention\<close>

definition expired_sittings :: "instant \<Rightarrow> int \<Rightarrow> int \<Rightarrow> store \<Rightarrow> (int \<times> string) list" where
  "expired_sittings now org_id days st =
     map at_key (filter (\<lambda>a. at_invite_id a \<in> set (org_invite_ids org_id st) \<and>
       at_started_at a < now - days_us days \<and> at_erased_at a = None) (t_attempts st))"

definition live_addresses :: "int \<Rightarrow> store \<Rightarrow> string set" where
  "live_addresses i st = (\<lambda>a. normalize_email (at_candidate_email a)) `
     set (filter (\<lambda>a. at_invite_id a = i \<and> at_erased_at a = None) (t_attempts st))"

definition shed :: "string set \<Rightarrow> invite \<Rightarrow> invite" where
  "shed live v = v\<lparr>inv_recipients := filter (\<lambda>r. normalize_email r \<in> live) (inv_recipients v),
     inv_deliveries := filter (\<lambda>d. normalize_email (d_recipient d) \<in> live) (inv_deliveries v)\<rparr>"

definition expire_invite_recipients :: "int \<Rightarrow> instant \<Rightarrow> int \<Rightarrow> store \<Rightarrow> store" where
  "expire_invite_recipients org_id now days st =
     st\<lparr>t_invites := map (\<lambda>v. if inv_id v \<in> set (org_invite_ids org_id st) \<and> inv_created_at v < now - days_us days
                               then shed (live_addresses (inv_id v) st) v else v) (t_invites st)\<rparr>"

fun erase_sittings :: "(nat \<Rightarrow> string) \<Rightarrow> nat \<Rightarrow> instant \<Rightarrow> (int \<times> string) list \<Rightarrow> store \<Rightarrow> store" where
  "erase_sittings hexes n now [] st = st"
| "erase_sittings hexes n now ((i, email) # rest) st =
     erase_sittings hexes (Suc n) now rest (snd (erase_sitting (hexes n) now i email st))"

text \<open>
  One organisation of the sweep: the sittings counted and the store it leaves. The count is taken
  as the sittings are erased, so it stands even when the commit fails.
\<close>

definition purge_org :: "(int \<Rightarrow> bool) \<Rightarrow> (nat \<Rightarrow> string) \<Rightarrow> instant \<Rightarrow> organization \<Rightarrow> nat \<Rightarrow> store \<Rightarrow> nat \<times> store" where
  "purge_org commits hexes now org erased st =
    (case (o_retention_days org, o_id org) of
       (Some days, Some org_id) \<Rightarrow>
         if days \<le> 0 then (erased, st)
         else
           let sittings = expired_sittings now org_id days st;
               st1 = expire_invite_recipients org_id now days (erase_sittings hexes erased now sittings st)
           in (erased + length sittings, if commits org_id then st1 else st)
     | _ \<Rightarrow> (erased, st))"

fun purge_orgs :: "(int \<Rightarrow> bool) \<Rightarrow> (nat \<Rightarrow> string) \<Rightarrow> instant \<Rightarrow> organization list \<Rightarrow> nat \<Rightarrow> store \<Rightarrow> nat \<times> store" where
  "purge_orgs commits hexes now [] erased st = (erased, st)"
| "purge_orgs commits hexes now (org # orgs) erased st =
     (case purge_org commits hexes now org erased st of (n, st1) \<Rightarrow> purge_orgs commits hexes now orgs n st1)"

definition purge_expired :: "(int \<Rightarrow> bool) \<Rightarrow> (nat \<Rightarrow> string) \<Rightarrow> instant \<Rightarrow> store \<Rightarrow> nat \<times> store" where
  "purge_expired commits hexes now st =
     purge_orgs commits hexes now (filter (\<lambda>g. o_retention_days g \<noteq> None) (t_orgs st)) 0 st"

subsection \<open>What an erasure leaves\<close>

text \<open>
  The abstract reading of an erasure: \<open>theirs\<close> says which submissions are a candidate's in an
  organisation, \<open>holds_about\<close> whether the organisation holds anything under an address.
\<close>

definition theirs :: "int \<Rightarrow> string \<Rightarrow> store \<Rightarrow> submission \<Rightarrow> bool" where
  "theirs org_id email st s = (s_candidate_email s = Some email \<and>
     (exists_where (\<lambda>q. q_id q = s_question_id s \<and> q_org_id q = org_id) (t_questions st) \<or>
      (case s_invite_id s of None \<Rightarrow> False | Some i \<Rightarrow> i \<in> set (org_invite_ids org_id st))))"

definition holds_about :: "int \<Rightarrow> string \<Rightarrow> store \<Rightarrow> bool" where
  "holds_about org_id email st =
    (let ids = set (org_invite_ids org_id st) in
     exists_where (theirs org_id email st) (t_submissions st) \<or>
     exists_where (\<lambda>a. at_invite_id a \<in> ids \<and> at_candidate_email a = email) (t_attempts st) \<or>
     exists_where (\<lambda>r. sv_invite_id r \<in> ids \<and> sv_candidate_email r = email) (t_slot_variants st) \<or>
     exists_where (\<lambda>r. ev_invite_id r \<in> ids \<and> ev_candidate_email r = email) (t_events st) \<or>
     exists_where (\<lambda>r. dr_invite_id r \<in> ids \<and> dr_candidate_email r = email) (t_drafts st) \<or>
     exists_where (\<lambda>v. inv_id v \<in> ids \<and> scrub_changes email v) (t_invites st))"

definition grades :: "store \<Rightarrow> (string \<times> string \<times> rat) list" where
  "grades st = map (\<lambda>r. (r_submission_id r, r_verdict r, r_score_pct r)) (t_results st)"

lemma scrubbed_simps [simp]:
  "inv_id (scrubbed e v) = inv_id v"
  "inv_question_id (scrubbed e v) = inv_question_id v"
  "inv_assessment_id (scrubbed e v) = inv_assessment_id v"
  "inv_recipients (scrubbed e v) = filter (\<lambda>r. r \<noteq> e) (inv_recipients v)"
  "\<not> scrub_changes e (scrubbed e v)"
  by (auto simp: scrubbed_def scrub_changes_def)

lemma scrubbed_same: "\<not> scrub_changes e v \<Longrightarrow> scrubbed e v = v"
  by (auto simp: scrubbed_def scrub_changes_def intro!: invite.equality filter_True)

lemma scrub_hit: "upd_where (\<lambda>v. inv_id v \<in> ids \<and> scrub_changes e v) (scrubbed e) t =
    upd_where (\<lambda>v. inv_id v \<in> ids) (scrubbed e) t"
  by (auto simp: upd_where_def scrubbed_same)

text \<open>With nothing in scope an erasure is the identity, so the guard of \<open>_erase\<close> needs no case.\<close>

lemma erase_store:
  "snd (erase tomb e ids subs now st) =
    st\<lparr>t_results := upd_where (\<lambda>r. r_submission_id r \<in> set subs) anonymous_result (t_results st),
       t_submissions := upd_where (\<lambda>s. s_id s \<in> set subs) (anonymous_submission tomb now) (t_submissions st),
       t_feedback := del_where (\<lambda>f. fb_attempt_id f \<in> set (map at_id (filter
          (\<lambda>a. at_invite_id a \<in> set ids \<and> at_candidate_email a = e) (t_attempts st)))) (t_feedback st),
       t_attempts := upd_where (\<lambda>a. at_invite_id a \<in> set ids \<and> at_candidate_email a = e)
          (anonymous_attempt tomb now) (t_attempts st),
       t_slot_variants := upd_where (\<lambda>r. sv_invite_id r \<in> set ids \<and> sv_candidate_email r = e)
          (\<lambda>r. r\<lparr>sv_candidate_email := tomb\<rparr>) (t_slot_variants st),
       t_events := upd_where (\<lambda>r. ev_invite_id r \<in> set ids \<and> ev_candidate_email r = e)
          (\<lambda>r. r\<lparr>ev_candidate_email := tomb\<rparr>) (t_events st),
       t_drafts := del_where (\<lambda>r. dr_invite_id r \<in> set ids \<and> dr_candidate_email r = e) (t_drafts st),
       t_invites := upd_where (\<lambda>v. inv_id v \<in> set ids) (scrubbed e) (t_invites st)\<rparr>"
proof (cases "ids = [] \<and> subs = []")
  case True
  then show ?thesis by (simp add: erase_def upd_where_none del_where_none)
next
  case False
  then show ?thesis unfolding erase_def Let_def scrub_hit by (simp only: if_False snd_conv)
qed

lemma org_invite_ids_cong:
  assumes "t_questions st' = t_questions st" and "t_assessments st' = t_assessments st"
    and "map (\<lambda>v. (inv_id v, inv_question_id v, inv_assessment_id v)) (t_invites st') =
         map (\<lambda>v. (inv_id v, inv_question_id v, inv_assessment_id v)) (t_invites st)"
  shows "org_invite_ids i st' = org_invite_ids i st"
proof -
  have g: "map inv_id (filter (of_org i s) t) = map fst (filter
      (\<lambda>(_, q, a). (case q of None \<Rightarrow> False | Some q \<Rightarrow> exists_where (\<lambda>r. q_id r = q \<and> q_org_id r = i) (t_questions s)) \<or>
        (case a of None \<Rightarrow> False | Some a \<Rightarrow> exists_where (\<lambda>r. a_id r = a \<and> a_org_id r = i) (t_assessments s)))
      (map (\<lambda>v. (inv_id v, inv_question_id v, inv_assessment_id v)) t))" for s t
    by (simp add: filter_map comp_def of_org_def [abs_def])
  show ?thesis unfolding org_invite_ids_def g assms ..
qed

lemma erase_keeps_scope [simp]:
  "t_questions (snd (erase tomb e ids subs now st)) = t_questions st"
  "t_assessments (snd (erase tomb e ids subs now st)) = t_assessments st"
  "t_orgs (snd (erase tomb e ids subs now st)) = t_orgs st"
  "org_invite_ids i (snd (erase tomb e ids subs now st)) = org_invite_ids i st"
proof -
  show q: "t_questions (snd (erase tomb e ids subs now st)) = t_questions st"
    and a: "t_assessments (snd (erase tomb e ids subs now st)) = t_assessments st"
    and "t_orgs (snd (erase tomb e ids subs now st)) = t_orgs st"
    by (simp_all add: erase_store)
  show "org_invite_ids i (snd (erase tomb e ids subs now st)) = org_invite_ids i st"
    by (rule org_invite_ids_cong [OF q a]) (simp add: erase_store map_upd_where)
qed

lemma submissions_to_erase_theirs:
  "submissions_to_erase o' e st = map s_id (filter (theirs o' e st) (t_submissions st))"
  unfolding submissions_to_erase_def theirs_def ..

lemma theirs_hit:
  assumes "unique_key s_id (t_submissions st)" and "s \<in> set (t_submissions st)"
  shows "s_id s \<in> set (submissions_to_erase o' e st) \<longleftrightarrow> theirs o' e st s"
  using assms by (auto simp: submissions_to_erase_theirs dest: unique_keyD)

lemma touched_iff:
  "touched_anything (fst (erase_candidate hex now o' e st)) \<longleftrightarrow> holds_about o' e st"
proof (cases "org_invite_ids o' st = [] \<and> submissions_to_erase o' e st = []")
  case True
  then have "\<not> holds_about o' e st"
    by (auto simp: holds_about_def table_simps submissions_to_erase_theirs filter_empty_conv)
  with True show ?thesis by (simp add: erase_candidate_def erase_def touched_anything_def no_counts_def)
next
  case False
  have "(\<exists>s\<in>set (t_submissions st). s_id s \<in> set (submissions_to_erase o' e st)) \<longleftrightarrow>
      (\<exists>s\<in>set (t_submissions st). theirs o' e st s)"
    by (auto simp: submissions_to_erase_theirs)
  moreover have "(\<exists>r\<in>set (t_results st). r_submission_id r \<in> set (submissions_to_erase o' e st)) \<longrightarrow>
      (\<exists>s\<in>set (t_submissions st). theirs o' e st s)"
    by (auto simp: submissions_to_erase_theirs)
  ultimately show ?thesis
    using False
    by (auto simp: erase_candidate_def erase_def Let_def touched_anything_def holds_about_def table_simps
        count_where_pos)
qed

lemma theirs_erased [simp]:
  "theirs o' e (snd (erase tomb e' ids subs now st)) = theirs o' e st"
  by (intro ext) (simp add: theirs_def split: option.split)

lemma none_left:
  assumes "t' = upd_where p f t" and "\<And>r. r \<in> set t \<Longrightarrow> P r \<Longrightarrow> p r" and "\<And>r. \<not> P (f r)"
  shows "\<not> exists_where P t'"
proof -
  have "\<not> P r" if "r \<in> set t'" for r
    by (rule all_upd_where [OF that [unfolded assms(1)]]) (use assms(2,3) in blast)+
  then show ?thesis by (auto simp: table_simps)
qed

lemma nothing_held_after:
  assumes "tombstone hex \<noteq> e"
  shows "\<not> holds_about o' e (snd (erase_candidate hex now o' e st))"
proof -
  let ?st = "snd (erase_candidate hex now o' e st)" and ?ids = "set (org_invite_ids o' st)"
  note ec = erase_candidate_def erase_store
  have ids: "set (org_invite_ids o' ?st) = ?ids" by (simp add: erase_candidate_def)
  have s: "theirs o' e ?st = theirs o' e st" by (simp add: erase_candidate_def)
  have "\<not> exists_where (theirs o' e ?st) (t_submissions ?st)"
    unfolding s by (rule none_left [where t = "t_submissions st"], simp add: ec)
      (use assms in \<open>auto simp: submissions_to_erase_theirs theirs_def anonymous_submission_def\<close>)
  moreover have "\<not> exists_where (\<lambda>a. at_invite_id a \<in> ?ids \<and> at_candidate_email a = e) (t_attempts ?st)"
    by (rule none_left [where t = "t_attempts st"], simp add: ec) (use assms in \<open>auto simp: anonymous_attempt_def\<close>)
  moreover have "\<not> exists_where (\<lambda>r. sv_invite_id r \<in> ?ids \<and> sv_candidate_email r = e) (t_slot_variants ?st)"
    by (rule none_left [where t = "t_slot_variants st"], simp add: ec) (use assms in auto)
  moreover have "\<not> exists_where (\<lambda>r. ev_invite_id r \<in> ?ids \<and> ev_candidate_email r = e) (t_events ?st)"
    by (rule none_left [where t = "t_events st"], simp add: ec) (use assms in auto)
  moreover have "\<not> exists_where (\<lambda>r. dr_invite_id r \<in> ?ids \<and> dr_candidate_email r = e) (t_drafts ?st)"
    by (simp add: ec table_simps)
  moreover have "\<not> exists_where (\<lambda>v. inv_id v \<in> ?ids \<and> scrub_changes e v) (t_invites ?st)"
    by (rule none_left [where t = "t_invites st"], simp add: ec) auto
  ultimately show ?thesis unfolding holds_about_def Let_def ids by blast
qed

lemma erase_nothing:
  assumes "\<not> holds_about o' e st"
  shows "erase_candidate hex now o' e st = (no_counts, st)"
proof -
  have subs: "submissions_to_erase o' e st = []"
    using assms by (auto simp: holds_about_def Let_def table_simps submissions_to_erase_theirs filter_empty_conv)
  have att: "filter (\<lambda>a. at_invite_id a \<in> set (org_invite_ids o' st) \<and> at_candidate_email a = e) (t_attempts st) = []"
    using assms by (auto simp: holds_about_def Let_def table_simps filter_empty_conv)
  have "snd (erase_candidate hex now o' e st) = st"
    using assms unfolding erase_candidate_def erase_store subs att
    by (simp add: holds_about_def Let_def table_simps upd_where_none del_where_none scrub_hit [symmetric])
  moreover have "fst (erase_candidate hex now o' e st) = no_counts"
    using assms unfolding erase_candidate_def subs erase_def Let_def att
    by (auto simp: no_counts_def holds_about_def Let_def table_simps count_where_zero)
  ultimately show ?thesis by (metis prod.collapse)
qed

lemma erase_candidate_data_ok:
  assumes "m_role org = ''admin''"
  shows "erase_candidate_data hex now email org st =
    (Inr \<lparr>eo_candidate_email = normalize_email email,
         eo_erased = touched_anything (fst (erase_candidate hex now (m_org_id org) (normalize_email email) st)),
         eo_counts = fst (erase_candidate hex now (m_org_id org) (normalize_email email) st)\<rparr>,
     snd (erase_candidate hex now (m_org_id org) (normalize_email email) st))"
  using assms by (simp add: erase_candidate_data_def require_admin_def Let_def split: prod.splits)

lemma erased_invite:
  assumes "v \<in> set (t_invites (snd (erase tomb e ids subs now st)))" and "inv_id v \<in> set ids"
  shows "e \<notin> set (inv_recipients v)"
proof -
  have "inv_id v \<in> set ids \<longrightarrow> e \<notin> set (inv_recipients v)"
    by (rule all_upd_where [OF assms(1) [unfolded erase_store, simplified]]) auto
  with assms(2) show ?thesis by simp
qed

text \<open>
  C7. After an admin's erasure the organisation holds nothing under that address: no submission,
  attempt, variant assignment, integrity event or draft carries it, and no invite of the
  organisation lists it, so that a link whose recipients are stored normalised (as every handler
  that creates one stores them) refuses the candidate with 403. The reply says \<open>erased\<close>
  exactly when something was held, and asking again touches nothing. The premise on the tombstone
  is its freshness.
\<close>

theorem erasure_leaves_nothing:
  assumes "m_role org = ''admin''" and "tombstone hex \<noteq> normalize_email email"
  shows "case erase_candidate_data hex now email org st of (r, st') \<Rightarrow>
     (\<exists>out. r = Inr out \<and> eo_candidate_email out = normalize_email email \<and>
        (eo_erased out \<longleftrightarrow> holds_about (m_org_id org) (normalize_email email) st)) \<and>
     \<not> holds_about (m_org_id org) (normalize_email email) st' \<and>
     (\<forall>v\<in>set (t_invites st'). of_org (m_org_id org) st' v \<longrightarrow>
        (\<forall>r\<in>set (inv_recipients v). normalize_email r = r) \<longrightarrow>
        check_invited v (normalize_email email) =
          Inl (HTTPException 403 ''this assessment was not sent to that email address.'')) \<and>
     (\<forall>hex2 now2. erase_candidate hex2 now2 (m_org_id org) (normalize_email email) st' = (no_counts, st'))"
proof -
  let ?e = "normalize_email email" and ?o = "m_org_id org"
  let ?st = "snd (erase_candidate hex now ?o ?e st)"
  have none: "\<not> holds_about ?o ?e ?st" using assms(2) by (rule nothing_held_after)
  have inv: "?e \<notin> set (inv_recipients v)"
    if "v \<in> set (t_invites ?st)" "of_org ?o ?st v" for v
  proof -
    have "inv_id v \<in> set (org_invite_ids ?o ?st)" using that by (auto simp: org_invite_ids_def)
    then have "inv_id v \<in> set (org_invite_ids ?o st)" by (simp add: erase_candidate_def)
    with that(1) show ?thesis unfolding erase_candidate_def by (rule erased_invite)
  qed
  have "?e \<notin> set (map normalize_email (inv_recipients v))"
    if "v \<in> set (t_invites ?st)" "of_org ?o ?st v" "\<forall>r\<in>set (inv_recipients v). normalize_email r = r" for v
    using inv [OF that(1,2)] that(3) by auto
  then show ?thesis
    using none unfolding erase_candidate_data_ok [OF assms(1)] prod.case
    by (simp add: touched_iff erase_nothing check_invited_def require_def del: set_map)
qed

definition sat_store :: store where
  "sat_store = graded_store\<lparr>t_questions := [example_question]\<rparr>"

lemma sat_ids: "org_invite_ids 1 sat_store = [3]" "org_invite_ids 2 sat_store = []"
  by (simp_all add: org_invite_ids_def of_org_def sat_store_def graded_store_def example_invite_def
      example_question_def exists_where_def)

lemma ada_is_normal: "normalize_email ''ada@x.org'' = ''ada@x.org''" "normalize_email '' Ada@x.org'' = ''ada@x.org''"
  by code_simp+

lemma erasure_leaves_nothing_witness:
  "holds_about 1 ''ada@x.org'' sat_store \<and>
   \<not> holds_about 1 ''ada@x.org'' (snd (erase_candidate_data ''0123456789abcdef0'' 9 '' Ada@x.org'' example_admin sat_store))"
proof -
  have "holds_about 1 ''ada@x.org'' sat_store"
    by (simp add: holds_about_def Let_def sat_ids exists_where_def)
      (simp add: sat_store_def graded_store_def example_attempt_def)
  moreover have "tombstone ''0123456789abcdef0'' \<noteq> normalize_email '' Ada@x.org''"
    by (simp add: ada_is_normal tombstone_def TOMBSTONE_DOMAIN_def)
  moreover have "m_role example_admin = ''admin''" "m_org_id example_admin = 1" by (simp_all add: example_admin_def)
  ultimately show ?thesis
    using erasure_leaves_nothing [where org = example_admin and hex = "''0123456789abcdef0''" and email = "'' Ada@x.org''"
        and now = 9 and st = sat_store]
    by (auto simp: ada_is_normal split: prod.splits)
qed

subsection \<open>What an erasure keeps\<close>

lemma upd_where_others:
  assumes "\<And>r. r \<in> set t \<Longrightarrow> p r \<Longrightarrow> \<not> q r \<and> \<not> q (f r)"
  shows "filter q (upd_where p f t) = filter q t"
  using assms by (induction t) auto

lemma del_where_others:
  "(\<And>r. r \<in> set t \<Longrightarrow> p r \<Longrightarrow> \<not> q r) \<Longrightarrow> filter q (del_where p t) = filter q t"
  by (induction t) auto

lemma grades_erased [simp]: "grades (snd (erase tomb e ids subs now st)) = grades st"
  by (simp add: grades_def erase_store map_upd_where anonymous_result_def)

lemma invites_outside:
  assumes "\<And>v. v \<in> set (t_invites st) \<Longrightarrow> q v \<Longrightarrow> inv_id v \<notin> set ids" and "\<And>v. q (scrubbed e v) = q v"
  shows "filter q (t_invites (snd (erase tomb e ids subs now st))) = filter q (t_invites st)"
  using assms by (auto simp: erase_store intro!: upd_where_others)

text \<open>What is stored under one address, and what hangs on one invite.\<close>

definition candidate_rows :: "string \<Rightarrow> store \<Rightarrow>
    candidate_attempt list \<times> slot_variant list \<times> integrity_event list \<times> candidate_draft list \<times> submission list" where
  "candidate_rows e st =
    (filter (\<lambda>a. at_candidate_email a = e) (t_attempts st),
     filter (\<lambda>r. sv_candidate_email r = e) (t_slot_variants st),
     filter (\<lambda>r. ev_candidate_email r = e) (t_events st),
     filter (\<lambda>r. dr_candidate_email r = e) (t_drafts st),
     filter (\<lambda>s. s_candidate_email s = Some e) (t_submissions st))"

definition invite_rows :: "int \<Rightarrow> store \<Rightarrow>
    invite list \<times> candidate_attempt list \<times> slot_variant list \<times> integrity_event list \<times> candidate_draft list" where
  "invite_rows i st =
    (filter (\<lambda>v. inv_id v = i) (t_invites st),
     filter (\<lambda>a. at_invite_id a = i) (t_attempts st),
     filter (\<lambda>r. sv_invite_id r = i) (t_slot_variants st),
     filter (\<lambda>r. ev_invite_id r = i) (t_events st),
     filter (\<lambda>r. dr_invite_id r = i) (t_drafts st))"

lemma candidate_rows_erase:
  assumes "other \<noteq> e" and "other \<noteq> tomb"
    and "\<And>s. s \<in> set (t_submissions st) \<Longrightarrow> s_id s \<in> set subs \<Longrightarrow> s_candidate_email s = Some e"
  shows "candidate_rows other (snd (erase tomb e ids subs now st)) = candidate_rows other st"
  using assms unfolding candidate_rows_def prod.inject
  by (intro conjI)
    (auto simp: erase_store anonymous_attempt_def anonymous_submission_def
      intro!: upd_where_others del_where_others)

lemma invite_rows_erase:
  assumes "i \<notin> set ids"
  shows "invite_rows i (snd (erase tomb e ids subs now st)) = invite_rows i st"
  using assms unfolding invite_rows_def prod.inject
  by (intro conjI)
    (auto simp: erase_store anonymous_attempt_def intro!: upd_where_others del_where_others)

lemma recipients_erase:
  "map (\<lambda>v. filter (\<lambda>r. r \<noteq> e) (inv_recipients v)) (t_invites (snd (erase tomb e ids subs now st))) =
   map (\<lambda>v. filter (\<lambda>r. r \<noteq> e) (inv_recipients v)) (t_invites st)"
  by (simp add: erase_store map_upd_where)

text \<open>The other tables of an erasure: which rows stay as they are.\<close>

lemma submissions_erased:
  assumes "unique_key s_id (t_submissions st)"
  shows "t_submissions (snd (erase_candidate hex now o' e st)) =
    map (\<lambda>s. if theirs o' e st s then anonymous_submission (tombstone hex) now s else s) (t_submissions st)"
  unfolding erase_candidate_def
  by (simp add: erase_store upd_where_def theirs_hit [OF assms])

lemma results_erased:
  assumes "unique_key s_id (t_submissions st)"
    and "\<And>s. s \<in> set (t_submissions st) \<Longrightarrow> theirs o' e st s \<Longrightarrow> s_id s \<noteq> r_submission_id r"
    and "r \<in> set (t_results st)"
  shows "r \<in> set (t_results (snd (erase_candidate hex now o' e st)))"
proof -
  have "r_submission_id r \<notin> set (submissions_to_erase o' e st)"
    using assms(2) by (auto simp: submissions_to_erase_theirs) metis
  then show ?thesis
    using assms(3) by (simp add: erase_candidate_def erase_store set_upd_where)
qed

lemma feedback_erased:
  assumes "\<And>a. a \<in> set (t_attempts st) \<Longrightarrow> at_id a = fb_attempt_id f \<Longrightarrow>
      at_invite_id a \<notin> set (org_invite_ids o' st) \<or> at_candidate_email a \<noteq> e"
    and "f \<in> set (t_feedback st)"
  shows "f \<in> set (t_feedback (snd (erase_candidate hex now o' e st)))"
  using assms by (force simp: erase_candidate_def erase_store del_where_def)

text \<open>
  C8. An erasure touches one person in one organisation. The verdict and score of every stored
  result stay (the pass-rate history does not change), and so do the usage rows; every attempt, variant
  assignment, event, draft and submission of another candidate stays as it is, whatever the invite;
  an invite outside the organisation and everything on it stay as they are, the erased
  candidate's own rows there included; and an invite of the organisation loses the one address
  only, so every other recipient is still admitted. The submissions are exactly the old ones with those
  of the candidate anonymised that answer a question of the organisation or came by a link of it: what
  the same address submitted to another organisation keeps its name, address and code, and so do the
  result rows and the feedback that belong to none of the candidate's rows here.
\<close>

theorem erasure_scoped:
  assumes "other \<noteq> email" and "other \<noteq> tombstone hex" and "unique_key s_id (t_submissions st)"
  shows "case snd (erase_candidate hex now org_id email st) of st' \<Rightarrow>
     grades st' = grades st \<and> t_usage st' = t_usage st \<and>
     candidate_rows other st' = candidate_rows other st \<and>
     (\<forall>i. i \<notin> set (org_invite_ids org_id st) \<longrightarrow> invite_rows i st' = invite_rows i st) \<and>
     map (\<lambda>v. filter (\<lambda>r. r \<noteq> email) (inv_recipients v)) (t_invites st') =
       map (\<lambda>v. filter (\<lambda>r. r \<noteq> email) (inv_recipients v)) (t_invites st) \<and>
     t_submissions st' = map (\<lambda>s. if s_candidate_email s = Some email \<and>
          ((\<exists>q \<in> set (t_questions st). q_id q = s_question_id s \<and> q_org_id q = org_id) \<or>
           (\<exists>i \<in> set (org_invite_ids org_id st). s_invite_id s = Some i))
        then anonymous_submission (tombstone hex) now s else s) (t_submissions st) \<and>
     (\<forall>r \<in> set (t_results st). (\<forall>s \<in> set (t_submissions st). theirs org_id email st s \<longrightarrow> s_id s \<noteq> r_submission_id r) \<longrightarrow>
        r \<in> set (t_results st')) \<and>
     (\<forall>f \<in> set (t_feedback st). (\<forall>a \<in> set (t_attempts st). at_id a = fb_attempt_id f \<longrightarrow>
          at_invite_id a \<notin> set (org_invite_ids org_id st) \<or> at_candidate_email a \<noteq> email) \<longrightarrow>
        f \<in> set (t_feedback st'))"
proof -
  let ?st = "snd (erase_candidate hex now org_id email st)"
  have rows: "candidate_rows other ?st = candidate_rows other st"
    unfolding erase_candidate_def using assms(1,2)
    by (rule candidate_rows_erase) (auto simp: theirs_hit [OF assms(3)] theirs_def)
  have "theirs org_id email st s \<longleftrightarrow> s_candidate_email s = Some email \<and>
          ((\<exists>q \<in> set (t_questions st). q_id q = s_question_id s \<and> q_org_id q = org_id) \<or>
           (\<exists>i \<in> set (org_invite_ids org_id st). s_invite_id s = Some i))" for s
    by (auto simp: theirs_def exists_where_iff split: option.splits)
  then have subs: "t_submissions ?st = map (\<lambda>s. if s_candidate_email s = Some email \<and>
          ((\<exists>q \<in> set (t_questions st). q_id q = s_question_id s \<and> q_org_id q = org_id) \<or>
           (\<exists>i \<in> set (org_invite_ids org_id st). s_invite_id s = Some i))
        then anonymous_submission (tombstone hex) now s else s) (t_submissions st)"
    by (simp only: submissions_erased [OF assms(3)])
  have "grades ?st = grades st \<and> t_usage ?st = t_usage st \<and>
     (\<forall>i. i \<notin> set (org_invite_ids org_id st) \<longrightarrow> invite_rows i ?st = invite_rows i st) \<and>
     map (\<lambda>v. filter (\<lambda>r. r \<noteq> email) (inv_recipients v)) (t_invites ?st) =
       map (\<lambda>v. filter (\<lambda>r. r \<noteq> email) (inv_recipients v)) (t_invites st)"
    by (simp add: erase_candidate_def invite_rows_erase recipients_erase) (simp add: erase_store)
  then show ?thesis
    using rows subs results_erased [OF assms(3)] feedback_erased by simp
qed

lemma erasure_scoped_witness:
  "candidate_rows ''bob@x.org'' (snd (erase_candidate ''0123456789abcdef0'' 9 1 ''ada@x.org'' sat_store)) =
     candidate_rows ''bob@x.org'' sat_store \<and>
   invite_rows 4 (snd (erase_candidate ''0123456789abcdef0'' 9 1 ''ada@x.org'' sat_store)) = invite_rows 4 sat_store"
proof -
  have "''bob@x.org'' \<noteq> ''ada@x.org''" "''bob@x.org'' \<noteq> tombstone ''0123456789abcdef0''"
    by (simp_all add: tombstone_def TOMBSTONE_DOMAIN_def)
  moreover have "unique_key s_id (t_submissions sat_store)"
    by (simp add: sat_store_def graded_store_def unique_key_def)
  ultimately show ?thesis
    using erasure_scoped [where other = "''bob@x.org''" and email = "''ada@x.org''" and hex = "''0123456789abcdef0''"
        and st = sat_store and now = 9 and org_id = 1]
    by (simp add: sat_ids)
qed

subsection \<open>The retention sweep\<close>

definition live_attempts :: "store \<Rightarrow> candidate_attempt list" where
  "live_attempts st = filter (\<lambda>a. at_erased_at a = None) (t_attempts st)"

definition admits :: "store \<Rightarrow> candidate_attempt \<Rightarrow> invite \<Rightarrow> bool" where
  "admits st a v \<longleftrightarrow> v \<in> set (t_invites st) \<and> inv_id v = at_invite_id a \<and>
     is_ok (check_invited v (at_candidate_email a), st)"

lemma live_attempts_erase:
  "live_attempts (snd (erase tomb e ids subs now st)) =
     filter (\<lambda>a. \<not> (at_invite_id a \<in> set ids \<and> at_candidate_email a = e)) (live_attempts st)"
proof -
  have "filter (\<lambda>a. at_erased_at a = None) (upd_where p (anonymous_attempt tomb now) t) =
      filter (\<lambda>a. \<not> p a) (filter (\<lambda>a. at_erased_at a = None) t)" for p t
    by (induction t) (auto simp: anonymous_attempt_def)
  then show ?thesis by (simp add: live_attempts_def erase_store)
qed

lemma live_attempts_expire [simp]:
  "live_attempts (expire_invite_recipients o' now days st) = live_attempts st"
  by (simp add: live_attempts_def expire_invite_recipients_def)

text \<open>
  What one step of the sweep keeps: it lets sittings end, never begins one, and every sitting that is
  still live is admitted by its invite if it was before.
\<close>

definition sweeps :: "store \<Rightarrow> store \<Rightarrow> bool" where
  "sweeps st st' \<longleftrightarrow> set (live_attempts st') \<subseteq> set (live_attempts st) \<and>
     t_orgs st' = t_orgs st \<and> (\<forall>i. org_invite_ids i st' = org_invite_ids i st) \<and> grades st' = grades st \<and>
     (\<forall>a\<in>set (live_attempts st'). \<forall>v. admits st a v \<longrightarrow> (\<exists>v'. admits st' a v'))"

lemma sweeps_refl [simp]: "sweeps st st"
  by (auto simp: sweeps_def)

lemma sweeps_trans: "sweeps st st1 \<Longrightarrow> sweeps st1 st2 \<Longrightarrow> sweeps st st2"
  unfolding sweeps_def by (metis subset_iff)

definition emails_normalised :: "store \<Rightarrow> bool" where
  "emails_normalised st = list_all (\<lambda>a. normalize_email (at_candidate_email a) = at_candidate_email a) (live_attempts st)"

lemma sweeps_normalised: "sweeps st st' \<Longrightarrow> emails_normalised st \<Longrightarrow> emails_normalised st'"
  by (auto simp: sweeps_def emails_normalised_def list_all_iff)

lemma admits_iff:
  "admits st a v \<longleftrightarrow> v \<in> set (t_invites st) \<and> inv_id v = at_invite_id a \<and>
     (\<exists>r\<in>set (inv_recipients v). normalize_email r = at_candidate_email a)"
  by (auto simp: admits_def check_invited_def require_def intro: rev_image_eqI)

lemma erase_sitting_sweeps:
  assumes "normalize_email e = e"
  shows "sweeps st (snd (erase_sitting hex now i e st))"
proof -
  let ?st = "snd (erase_sitting hex now i e st)"
  have live: "live_attempts ?st =
      filter (\<lambda>a. \<not> (at_invite_id a = i \<and> at_candidate_email a = e)) (live_attempts st)"
    by (simp add: erase_sitting_def live_attempts_erase)
  have "\<exists>v'. admits ?st a v'" if a: "a \<in> set (live_attempts ?st)" and v: "admits st a v" for a v
  proof -
    let ?v = "if inv_id v = i then scrubbed e v else v"
    have "?v \<in> set (t_invites ?st)"
      using v by (auto simp: admits_iff erase_sitting_def erase_store upd_where_def)
    moreover have "\<exists>r\<in>set (inv_recipients ?v). normalize_email r = at_candidate_email a"
      using v a assms by (fastforce simp: admits_iff live)
    ultimately have "admits ?st a ?v" using v by (simp add: admits_iff)
    then show ?thesis ..
  qed
  then show ?thesis
    unfolding sweeps_def live by (auto simp: live erase_sitting_def)
qed

lemma expire_sweeps: "sweeps st (expire_invite_recipients o' now days st)"
proof -
  let ?st = "expire_invite_recipients o' now days st"
  let ?f = "\<lambda>v. if inv_id v \<in> set (org_invite_ids o' st) \<and> inv_created_at v < now - days_us days
               then shed (live_addresses (inv_id v) st) v else v"
  have "\<exists>v'. admits ?st a v'" if a: "a \<in> set (live_attempts st)" and v: "admits st a v" for a v
  proof -
    obtain r where r: "r \<in> set (inv_recipients v)" "normalize_email r = at_candidate_email a"
      using v by (auto simp: admits_iff)
    have "normalize_email r \<in> live_addresses (inv_id v) st"
      using a v r(2) [symmetric] unfolding live_addresses_def
      by (auto simp: admits_iff live_attempts_def intro!: image_eqI [where x = a])
    note in_live = this
    have "?f v \<in> ?f ` set (t_invites st)" using v by (intro imageI) (simp add: admits_iff)
    moreover have "t_invites ?st = map ?f (t_invites st)" by (simp add: expire_invite_recipients_def)
    ultimately have "?f v \<in> set (t_invites ?st)" by (simp only: set_map)
    then have "admits ?st a (?f v)"
      using v r in_live by (auto simp: admits_iff shed_def)
    then show ?thesis ..
  qed
  moreover have "org_invite_ids i ?st = org_invite_ids i st" for i
    by (rule org_invite_ids_cong) (simp_all add: expire_invite_recipients_def shed_def)
  ultimately show ?thesis
    by (simp add: sweeps_def) (simp add: expire_invite_recipients_def grades_def)
qed

lemma erase_sittings_sweeps:
  "list_all (\<lambda>k. normalize_email (snd k) = snd k) ks \<Longrightarrow> sweeps st (erase_sittings hexes n now ks st)"
proof (induction ks arbitrary: n st)
  case (Cons k ks)
  obtain i e where k: "k = (i, e)" by fastforce
  show ?case
    using Cons erase_sitting_sweeps [of e st "hexes n" now i] by (auto simp: k intro: sweeps_trans)
qed simp

lemma erase_sittings_live:
  "live_attempts (erase_sittings hexes n now ks st) = filter (\<lambda>a. at_key a \<notin> set ks) (live_attempts st)"
proof (induction ks arbitrary: n st)
  case (Cons k ks)
  obtain i e where k: "k = (i, e)" by fastforce
  have "live_attempts (snd (erase_sitting hex now i e st)) = filter (\<lambda>a. at_key a \<noteq> (i, e)) (live_attempts st)" for hex
    by (auto simp: erase_sitting_def live_attempts_erase at_key_def intro: filter_cong)
  then show ?case by (simp add: k Cons.IH conj_commute)
qed simp

lemma in_expired:
  "k \<in> set (expired_sittings now o' days st) \<longleftrightarrow>
     (\<exists>a\<in>set (live_attempts st). k = at_key a \<and> at_invite_id a \<in> set (org_invite_ids o' st) \<and>
        at_started_at a < now - days_us days)"
  by (auto simp: expired_sittings_def live_attempts_def)

lemma expired_normalised:
  "emails_normalised st \<Longrightarrow>
     list_all (\<lambda>k. normalize_email (snd k) = snd k) (expired_sittings now o' days st)"
  by (auto simp: list_all_iff in_expired emails_normalised_def at_key_def)

lemma expired_shrinks:
  "sweeps st st' \<Longrightarrow> set (expired_sittings now o' days st') \<subseteq> set (expired_sittings now o' days st)"
  unfolding in_expired subset_iff sweeps_def by metis

text \<open>\<open>configured\<close>: the organisations the sweep works for.\<close>

definition configured :: "organization list \<Rightarrow> (int \<times> int) set" where
  "configured orgs = {(i, d). \<exists>g\<in>set orgs. o_id g = Some i \<and> o_retention_days g = Some d \<and> 0 < d}"

lemma purge_org_unconfigured:
  "configured [g] = {} \<Longrightarrow> purge_org commits hexes now g n st = (n, st)"
  by (auto simp: configured_def purge_org_def split: option.splits)

text \<open>
  What a sweep leaves of the sittings \<open>E\<close>: every row under one of their keys is anonymised or gone,
  every other row is the one it was. \<open>sub_in\<close> says that a submission came from such a sitting.
\<close>

definition sub_in :: "(int \<times> string) set \<Rightarrow> submission \<Rightarrow> bool" where
  "sub_in E s \<longleftrightarrow> (\<exists>i e. s_invite_id s = Some i \<and> s_candidate_email s = Some e \<and> (i, e) \<in> E)"

definition wiped :: "(int \<times> string) set \<Rightarrow> instant \<Rightarrow> store \<Rightarrow> store \<Rightarrow> bool" where
  "wiped E now st st' \<longleftrightarrow>
     list_all2 (\<lambda>s s'. if sub_in E s then s' = s\<lparr>s_candidate := ERASED_NAME, s_candidate_email := s_candidate_email s',
                                 s_code := [], s_updated_at := now\<rparr> \<and> is_erased (s_candidate_email s')
                     else s' = s) (t_submissions st) (t_submissions st') \<and>
     t_results st' = upd_where (\<lambda>r. r_submission_id r \<in> s_id ` {s \<in> set (t_submissions st). sub_in E s})
       anonymous_result (t_results st) \<and>
     list_all2 (\<lambda>a a'. if at_key a \<in> E then a' = a\<lparr>at_candidate_email := at_candidate_email a', at_candidate_name := None,
                                 at_erased_at := Some now\<rparr> \<and> is_erased (Some (at_candidate_email a'))
                     else a' = a) (t_attempts st) (t_attempts st') \<and>
     t_feedback st' = filter (\<lambda>f. fb_attempt_id f \<notin> at_id ` {a \<in> set (t_attempts st). at_key a \<in> E}) (t_feedback st) \<and>
     t_drafts st' = filter (\<lambda>r. (dr_invite_id r, dr_candidate_email r) \<notin> E) (t_drafts st) \<and>
     list_all2 (\<lambda>r r'. if (ev_invite_id r, ev_candidate_email r) \<in> E
                     then r' = r\<lparr>ev_candidate_email := ev_candidate_email r'\<rparr> \<and> is_erased (Some (ev_candidate_email r'))
                     else r' = r) (t_events st) (t_events st') \<and>
     list_all2 (\<lambda>r r'. if (sv_invite_id r, sv_candidate_email r) \<in> E
                     then r' = r\<lparr>sv_candidate_email := sv_candidate_email r'\<rparr> \<and> is_erased (Some (sv_candidate_email r'))
                     else r' = r) (t_slot_variants st) (t_slot_variants st')"

lemma is_erased_tombstone [simp]: "is_erased (Some (tombstone hex))"
  using endswith_append [of "''erased-'' @ take 16 hex" "''@'' @ TOMBSTONE_DOMAIN"] by (simp add: is_erased_def tombstone_def)

lemma list_all2_upd_where:
  "(\<And>r. r \<in> set t \<Longrightarrow> R r (if p r then f r else r)) \<Longrightarrow> list_all2 R t (upd_where p f t)"
  by (induction t) auto

lemma wiped_erase_sitting:
  assumes "unique_key s_id (t_submissions st)"
  shows "wiped {(i, e)} now st (snd (erase_sitting hex now i e st))"
proof -
  define subs where "subs = map s_id (filter (\<lambda>s. s_invite_id s = Some i \<and> s_candidate_email s = Some e) (t_submissions st))"
  have hit: "s_id s \<in> set subs \<longleftrightarrow> sub_in {(i, e)} s" if "s \<in> set (t_submissions st)" for s
    using that assms by (auto simp: subs_def sub_in_def dest: unique_keyD)
  have hits: "set subs = s_id ` {s \<in> set (t_submissions st). sub_in {(i, e)} s}"
    by (auto simp: subs_def sub_in_def)
  have st': "snd (erase_sitting hex now i e st) = snd (erase (tombstone hex) e [i] subs now st)"
    by (simp add: erase_sitting_def subs_def)
  show ?thesis
    unfolding wiped_def st' erase_store hits [symmetric]
    by (auto simp: hit anonymous_submission_def anonymous_attempt_def at_key_def del_where_def image_iff
        intro!: list_all2_upd_where filter_cong)
qed

lemma wiped_none: "t_submissions st' = t_submissions st \<Longrightarrow> t_results st' = t_results st \<Longrightarrow>
    t_attempts st' = t_attempts st \<Longrightarrow> t_feedback st' = t_feedback st \<Longrightarrow> t_drafts st' = t_drafts st \<Longrightarrow>
    t_events st' = t_events st \<Longrightarrow> t_slot_variants st' = t_slot_variants st \<Longrightarrow> wiped {} now st st'"
  by (simp add: wiped_def sub_in_def list_all2_refl upd_where_none)

text \<open>Sweeps compose as long as the later one is for no address of the erased domain.\<close>

definition clean_keys :: "(int \<times> string) set \<Rightarrow> bool" where
  "clean_keys E \<longleftrightarrow> (\<forall>(i, e) \<in> E. \<not> is_erased (Some e))"

lemma clean_not_in: "clean_keys F \<Longrightarrow> is_erased (s_candidate_email s) \<Longrightarrow> \<not> sub_in F s"
  by (auto simp: clean_keys_def sub_in_def)

lemma list_all2_member1: "list_all2 R xs ys \<Longrightarrow> x \<in> set xs \<Longrightarrow> \<exists>y \<in> set ys. R x y"
  by (induction rule: list_all2_induct) auto

lemma list_all2_member2: "list_all2 R xs ys \<Longrightarrow> y \<in> set ys \<Longrightarrow> \<exists>x \<in> set xs. R x y"
  by (induction rule: list_all2_induct) auto

lemma anonymised_id:
  "s' = s\<lparr>s_candidate := a, s_candidate_email := b, s_code := k, s_updated_at := t\<rparr> \<Longrightarrow> s_id s' = s_id s"
  "u' = u\<lparr>at_candidate_email := b', at_candidate_name := k', at_erased_at := t'\<rparr> \<Longrightarrow> at_id u' = at_id u"
  by simp_all

lemma hits_union:
  assumes rel: "list_all2 (\<lambda>x y. if P x then g y = g x \<and> \<not> Q y else y = x) xs ys"
  shows "g ` {x \<in> set xs. P x} \<union> g ` {y \<in> set ys. Q y} = g ` {x \<in> set xs. P x \<or> Q x}"
proof (intro equalityI subsetI)
  fix k assume "k \<in> g ` {x \<in> set xs. P x} \<union> g ` {y \<in> set ys. Q y}"
  then consider "k \<in> g ` {x \<in> set xs. P x}" | y where "y \<in> set ys" "Q y" "k = g y" by blast
  then show "k \<in> g ` {x \<in> set xs. P x \<or> Q x}"
  proof cases
    case 2
    with list_all2_member2 [OF rel 2(1)] show ?thesis by (auto split: if_splits)
  qed auto
next
  fix k assume "k \<in> g ` {x \<in> set xs. P x \<or> Q x}"
  then obtain x where x: "x \<in> set xs" "P x \<or> Q x" "k = g x" by blast
  then show "k \<in> g ` {x \<in> set xs. P x} \<union> g ` {y \<in> set ys. Q y}"
    using list_all2_member1 [OF rel x(1)] by (auto split: if_splits)
qed

lemma sub_in_union: "sub_in (E \<union> F) s \<longleftrightarrow> sub_in E s \<or> sub_in F s"
  by (auto simp: sub_in_def)

lemma upd_anonymous_twice:
  "upd_where (\<lambda>r. r_submission_id r \<in> B) anonymous_result (upd_where (\<lambda>r. r_submission_id r \<in> A) anonymous_result t) =
   upd_where (\<lambda>r. r_submission_id r \<in> A \<union> B) anonymous_result t"
  by (induction t) (auto simp: anonymous_result_def)

lemma list_all2_wipe:
  assumes "list_all2 (\<lambda>r r'. if k r \<in> E then P r r' \<and> is_erased (Some (snd (k r'))) else r' = r) xs ys"
    and "list_all2 (\<lambda>r r'. if k r \<in> F then P r r' \<and> is_erased (Some (snd (k r'))) else r' = r) ys zs"
    and "clean_keys F"
  shows "list_all2 (\<lambda>r r'. if k r \<in> E \<union> F then P r r' \<and> is_erased (Some (snd (k r'))) else r' = r) xs zs"
  by (rule list_all2_trans [OF _ assms(1,2)]) (use assms(3) in \<open>auto simp: clean_keys_def split: if_splits\<close>)

lemma wiped_both:
  assumes 1: "wiped E now st st1" and 2: "wiped F now st1 st2" and F: "clean_keys F"
  shows "wiped (E \<union> F) now st st2"
proof -
  note w1 = 1 [unfolded wiped_def] and w2 = 2 [unfolded wiped_def]
  have subs: "list_all2 (\<lambda>s s'. if sub_in E s then s_id s' = s_id s \<and> \<not> sub_in F s' else s' = s) (t_submissions st) (t_submissions st1)"
    using w1 [THEN conjunct1]
    by (rule list_all2_mono) (auto split: if_splits dest: clean_not_in [OF F] anonymised_id(1) intro: sym)
  have atts: "list_all2 (\<lambda>a a'. if at_key a \<in> E then at_id a' = at_id a \<and> at_key a' \<notin> F else a' = a) (t_attempts st) (t_attempts st1)"
    using w1 [THEN conjunct2, THEN conjunct2, THEN conjunct1]
    by (rule list_all2_mono) (use F in \<open>auto simp: clean_keys_def at_key_def split: if_splits dest: anonymised_id(2)\<close>)
  have sub_hits: "s_id ` {s \<in> set (t_submissions st). sub_in E s} \<union> s_id ` {s \<in> set (t_submissions st1). sub_in F s} =
      s_id ` {s \<in> set (t_submissions st). sub_in (E \<union> F) s}"
    unfolding sub_in_union by (rule hits_union [OF subs])
  have at_hits: "at_id ` {a \<in> set (t_attempts st). at_key a \<in> E} \<union> at_id ` {a \<in> set (t_attempts st1). at_key a \<in> F} =
      at_id ` {a \<in> set (t_attempts st). at_key a \<in> E \<union> F}"
    unfolding Un_iff by (rule hits_union [OF atts])
  show ?thesis
    unfolding wiped_def
  proof (intro conjI)
    show "list_all2 (\<lambda>s s'. if sub_in (E \<union> F) s then s' = s\<lparr>s_candidate := ERASED_NAME, s_candidate_email := s_candidate_email s',
             s_code := [], s_updated_at := now\<rparr> \<and> is_erased (s_candidate_email s') else s' = s) (t_submissions st) (t_submissions st2)"
      by (rule list_all2_trans [OF _ w1 [THEN conjunct1] w2 [THEN conjunct1]])
        (auto simp: sub_in_union split: if_splits dest: clean_not_in [OF F])
    show "t_results st2 = upd_where (\<lambda>r. r_submission_id r \<in> s_id ` {s \<in> set (t_submissions st). sub_in (E \<union> F) s})
        anonymous_result (t_results st)"
      using w1 w2 by (simp add: upd_anonymous_twice sub_hits del: Un_iff)
    show "t_feedback st2 = filter (\<lambda>f. fb_attempt_id f \<notin> at_id ` {a \<in> set (t_attempts st). at_key a \<in> E \<union> F}) (t_feedback st)"
      unfolding at_hits [symmetric] using w1 w2 by (auto intro: filter_cong)
    show "t_drafts st2 = filter (\<lambda>r. (dr_invite_id r, dr_candidate_email r) \<notin> E \<union> F) (t_drafts st)"
      using w1 w2 by (auto intro: filter_cong)
show "list_all2 (\<lambda>a a'. if at_key a \<in> E \<union> F then a' = a\<lparr>at_candidate_email := at_candidate_email a', at_candidate_name := None,
             at_erased_at := Some now\<rparr> \<and> is_erased (Some (at_candidate_email a')) else a' = a) (t_attempts st) (t_attempts st2)"
      using w1 w2 list_all2_wipe [where k = at_key and E = E and F = F and xs = "t_attempts st" and ys = "t_attempts st1"
        and zs = "t_attempts st2" and P = "\<lambda>a a'. a' = a\<lparr>at_candidate_email := at_candidate_email a', at_candidate_name := None,
             at_erased_at := Some now\<rparr>", OF _ _ F]
      unfolding at_key_def snd_conv by blast
    show "list_all2 (\<lambda>r r'. if (ev_invite_id r, ev_candidate_email r) \<in> E \<union> F
        then r' = r\<lparr>ev_candidate_email := ev_candidate_email r'\<rparr> \<and> is_erased (Some (ev_candidate_email r')) else r' = r) (t_events st) (t_events st2)"
      using w1 w2 list_all2_wipe [where k = "\<lambda>r. (ev_invite_id r, ev_candidate_email r)" and E = E and F = F and xs = "t_events st"
        and ys = "t_events st1" and zs = "t_events st2" and P = "\<lambda>r r'. r' = r\<lparr>ev_candidate_email := ev_candidate_email r'\<rparr>", OF _ _ F]
      unfolding snd_conv by blast
    show "list_all2 (\<lambda>r r'. if (sv_invite_id r, sv_candidate_email r) \<in> E \<union> F
        then r' = r\<lparr>sv_candidate_email := sv_candidate_email r'\<rparr> \<and> is_erased (Some (sv_candidate_email r')) else r' = r) (t_slot_variants st) (t_slot_variants st2)"
      using w1 w2 list_all2_wipe [where k = "\<lambda>r. (sv_invite_id r, sv_candidate_email r)" and E = E and F = F and xs = "t_slot_variants st"
        and ys = "t_slot_variants st1" and zs = "t_slot_variants st2" and P = "\<lambda>r r'. r' = r\<lparr>sv_candidate_email := sv_candidate_email r'\<rparr>", OF _ _ F]
      unfolding snd_conv by blast
  qed
qed

text \<open>What the sweep of a set of windows achieves; two sweeps compose.\<close>

definition sweep_keys :: "(int \<Rightarrow> bool) \<Rightarrow> instant \<Rightarrow> (int \<times> int) set \<Rightarrow> store \<Rightarrow> (int \<times> string) set" where
  "sweep_keys commits now W st = {k. \<exists>i d. (i, d) \<in> W \<and> commits i \<and> k \<in> set (expired_sittings now i d st)}"

definition swept :: "(int \<Rightarrow> bool) \<Rightarrow> instant \<Rightarrow> (int \<times> int) set \<Rightarrow> store \<Rightarrow> store \<Rightarrow> bool" where
  "swept commits now W st st' \<longleftrightarrow> sweeps st st' \<and>
     live_attempts st' = filter (\<lambda>a. at_key a \<notin> sweep_keys commits now W st) (live_attempts st) \<and>
     wiped (sweep_keys commits now W st) now st st'"

text \<open>What the sweep starts from: the routes store addresses normalised, tombstones are given to nobody,
  and the database keeps the ids of submissions apart.\<close>

definition sweepable :: "store \<Rightarrow> bool" where
  "sweepable st \<longleftrightarrow> emails_normalised st \<and> unique_key s_id (t_submissions st) \<and>
     list_all (\<lambda>a. \<not> is_erased (Some (at_candidate_email a))) (live_attempts st)"

lemma wiped_ids:
  assumes "wiped E now st st'"
  shows "map s_id (t_submissions st') = map s_id (t_submissions st)"
proof -
  have "list_all2 (\<lambda>s s'. s_id s' = s_id s) (t_submissions st) (t_submissions st')"
    using assms [unfolded wiped_def, THEN conjunct1]
    by (rule list_all2_mono) (auto split: if_splits dest: anonymised_id(1))
  then show ?thesis by (induction rule: list_all2_induct) auto
qed

lemma sweepable_later:
  "sweeps st st' \<Longrightarrow> wiped E now st st' \<Longrightarrow> sweepable st \<Longrightarrow> sweepable st'"
  using wiped_ids [of E now st st']
  by (auto simp: sweepable_def unique_key_def sweeps_normalised list_all_iff) (auto simp: sweeps_def)

lemma expired_clean: "sweepable st \<Longrightarrow> clean_keys (set (expired_sittings now i d st))"
  by (auto simp: clean_keys_def in_expired sweepable_def list_all_iff at_key_def)

lemma sweep_keys_clean: "sweepable st \<Longrightarrow> clean_keys (sweep_keys commits now W st)"
  using expired_clean [of st now] by (fastforce simp: clean_keys_def sweep_keys_def)

lemma swept_none: "swept commits now {} st st"
  by (simp add: swept_def sweep_keys_def wiped_none)

lemma sweep_keys_both:
  assumes "swept commits now V st st1"
  shows "sweep_keys commits now V st \<union> sweep_keys commits now W st1 = sweep_keys commits now (V \<union> W) st"
proof -
  have "k \<in> set (expired_sittings now i d st1) \<longleftrightarrow>
      k \<in> set (expired_sittings now i d st) \<and> k \<notin> sweep_keys commits now V st" for k i d
    using assms by (auto simp: swept_def in_expired sweeps_def)
  then have "k \<in> sweep_keys commits now W st1 \<longleftrightarrow> k \<in> sweep_keys commits now W st \<and> k \<notin> sweep_keys commits now V st" for k
    unfolding sweep_keys_def [of commits now W] by blast
  moreover have "sweep_keys commits now (V \<union> W) st = sweep_keys commits now V st \<union> sweep_keys commits now W st"
    by (auto simp: sweep_keys_def)
  ultimately show ?thesis by blast
qed

lemma swept_both:
  assumes V: "swept commits now V st st1" and W: "swept commits now W st1 st2" and "sweepable st"
  shows "swept commits now (V \<union> W) st st2"
proof -
  have s1: "sweeps st st1" and s2: "sweeps st1 st2" using V W by (auto simp: swept_def)
  have "clean_keys (sweep_keys commits now W st1)"
    using sweepable_later [OF s1 _ assms(3)] V by (intro sweep_keys_clean) (auto simp: swept_def)
  then have "wiped (sweep_keys commits now (V \<union> W) st) now st st2"
    using V W wiped_both sweep_keys_both [OF V, of W] by (metis swept_def)
  moreover have "live_attempts st2 = filter (\<lambda>a. at_key a \<notin> sweep_keys commits now (V \<union> W) st) (live_attempts st)"
    using V W unfolding sweep_keys_both [OF V, symmetric] by (auto simp: swept_def intro: filter_cong)
  ultimately show ?thesis using sweeps_trans [OF s1 s2] by (simp add: swept_def)
qed

lemma wiped_sittings:
  "sweepable st \<Longrightarrow> clean_keys (set ks) \<Longrightarrow> list_all (\<lambda>k. normalize_email (snd k) = snd k) ks \<Longrightarrow>
     wiped (set ks) now st (erase_sittings hexes n now ks st)"
proof (induction ks arbitrary: n st)
  case Nil
  then show ?case by (simp add: wiped_none)
next
  case (Cons k ks)
  obtain i e where k: "k = (i, e)" by fastforce
  let ?st1 = "snd (erase_sitting (hexes n) now i e st)"
  have w: "wiped {(i, e)} now st ?st1"
    using Cons.prems(1) by (intro wiped_erase_sitting) (simp add: sweepable_def)
  have "sweeps st ?st1" using Cons.prems(3) by (intro erase_sitting_sweeps) (simp add: k)
  then have "sweepable ?st1" using sweepable_later w Cons.prems(1) by blast
  moreover have rest: "clean_keys (set ks)" using Cons.prems(2) by (auto simp: clean_keys_def)
  ultimately have "wiped (set ks) now ?st1 (erase_sittings hexes (Suc n) now ks ?st1)"
    using Cons.IH Cons.prems(3) by simp
  then have "wiped ({(i, e)} \<union> set ks) now st (erase_sittings hexes (Suc n) now ks ?st1)"
    using wiped_both [OF w _ rest] by blast
  then show ?case by (simp add: k)
qed

lemma purge_org_configured:
  assumes "o_id g = Some i" and "o_retention_days g = Some d" and "0 < d" and "sweepable st"
  shows "swept commits now {(i, d)} st (snd (purge_org commits hexes now g n st))"
proof -
  let ?L = "expired_sittings now i d st"
  let ?st0 = "erase_sittings hexes n now ?L st"
  let ?st1 = "expire_invite_recipients i now d ?st0"
  have res: "snd (purge_org commits hexes now g n st) = (if commits i then ?st1 else st)"
    using assms(1-3) by (simp add: purge_org_def Let_def)
  have norm: "list_all (\<lambda>k. normalize_email (snd k) = snd k) ?L"
    using assms(4) by (intro expired_normalised) (simp add: sweepable_def)
  have s1: "sweeps st ?st1"
    using erase_sittings_sweeps [OF norm] expire_sweeps by (rule sweeps_trans)
  have live: "live_attempts ?st1 = filter (\<lambda>a. at_key a \<notin> set ?L) (live_attempts st)"
    by (simp add: erase_sittings_live)
  have "wiped (set ?L) now st ?st0"
    using assms(4) expired_clean [OF assms(4)] norm by (rule wiped_sittings)
  moreover have "wiped {} now ?st0 ?st1"
    by (rule wiped_none) (simp_all add: expire_invite_recipients_def)
  ultimately have "wiped (set ?L \<union> {}) now st ?st1"
    by (rule wiped_both) (simp add: clean_keys_def)
  then have w: "wiped (set ?L) now st ?st1" by simp
  have keys: "sweep_keys commits now {(i, d)} st = (if commits i then set ?L else {})"
    by (auto simp: sweep_keys_def)
  show ?thesis
    using s1 live w by (simp add: res swept_def keys wiped_none)
qed

lemma purge_org_swept:
  assumes "sweepable st"
  shows "swept commits now (configured [g]) st (snd (purge_org commits hexes now g n st))"
proof (cases "configured [g] = {}")
  case True
  then show ?thesis by (simp add: purge_org_unconfigured swept_none)
next
  case False
  then obtain i d where g: "o_id g = Some i" "o_retention_days g = Some d" "0 < d"
    by (auto simp: configured_def)
  then have "configured [g] = {(i, d)}" by (auto simp: configured_def)
  then show ?thesis using purge_org_configured [OF g assms] by simp
qed

lemma purge_orgs_swept:
  "sweepable st \<Longrightarrow> swept commits now (configured orgs) st (snd (purge_orgs commits hexes now orgs n st))"
proof (induction orgs arbitrary: n st)
  case Nil
  then show ?case by (simp add: configured_def swept_none)
next
  case (Cons g orgs)
  obtain m st1 where s1: "purge_org commits hexes now g n st = (m, st1)" by fastforce
  have 1: "swept commits now (configured [g]) st st1"
    using purge_org_swept [OF Cons.prems, of commits now g hexes n] by (simp add: s1)
  then have "sweepable st1" using Cons.prems sweepable_later by (auto simp: swept_def)
  with 1 have "swept commits now (configured [g] \<union> configured orgs) st (snd (purge_orgs commits hexes now orgs m st1))"
    using swept_both [OF 1 Cons.IH [of st1 m] Cons.prems] by simp
  moreover have "configured (g # orgs) = configured [g] \<union> configured orgs" by (auto simp: configured_def)
  ultimately show ?case by (simp add: s1)
qed

text \<open>
  C9. One pass of the retention sweep, whatever organisations are configured and whichever commits
  fail. The sittings it erases are exactly those older than a window of an organisation whose commit
  succeeds, no others end; of each of them every submission is left without name, address and code,
  with the full result and reason of its grade replaced, the attempt is anonymised and stamped, the
  drafts and the feedback are deleted, and the signals and variant assignments lose the address, while
  every row of any other sitting stays exactly as it was. An organisation with a window whose commit
  succeeds holds no sitting older than it; and nobody is stranded: every sitting still live whose
  candidate its invite admitted is still admitted, even on an invite that shed its other addresses. Grades
  stay. The premise says that the addresses of live attempts are stored as \<open>_normalize_email\<close> gives them,
  as every route stores them, that none of them is a tombstone, and that submission ids are unique.
\<close>

theorem retention_sweep:
  assumes "sweepable st"
  shows "case (snd (purge_expired commits hexes now st),
      {k. \<exists>(i, d) \<in> configured (t_orgs st). commits i \<and> k \<in> set (expired_sittings now i d st)}) of (st', E) \<Rightarrow>
     live_attempts st' = filter (\<lambda>a. at_key a \<notin> E) (live_attempts st) \<and>
     wiped E now st st' \<and>
     (\<forall>(i, d)\<in>configured (t_orgs st). commits i \<longrightarrow> expired_sittings now i d st' = []) \<and>
     (\<forall>a\<in>set (live_attempts st'). \<forall>v. admits st a v \<longrightarrow> (\<exists>v'. admits st' a v')) \<and>
     grades st' = grades st"
proof -
  let ?orgs = "filter (\<lambda>g. o_retention_days g \<noteq> None) (t_orgs st)"
  let ?st' = "snd (purge_expired commits hexes now st)"
  let ?E = "{k. \<exists>(i, d) \<in> configured (t_orgs st). commits i \<and> k \<in> set (expired_sittings now i d st)}"
  have "configured ?orgs = configured (t_orgs st)"
    by (auto simp: configured_def)
  then have sw: "swept commits now (configured (t_orgs st)) st ?st'"
    using purge_orgs_swept [OF assms, of commits now ?orgs hexes 0] by (simp add: purge_expired_def)
  have E: "sweep_keys commits now (configured (t_orgs st)) st = ?E"
    by (auto simp: sweep_keys_def)
  have "expired_sittings now i d ?st' = []" if "(i, d) \<in> configured (t_orgs st)" "commits i" for i d
  proof -
    have "k \<notin> set (expired_sittings now i d ?st')" for k
      using sw that by (auto simp: swept_def in_expired sweep_keys_def sweeps_def)
    then show ?thesis by (metis list.set_intros(1) neq_Nil_conv)
  qed
  then show ?thesis
    using sw unfolding swept_def E by (auto simp: sweeps_def)
qed

definition keeping_org :: organization where
  "keeping_org = example_org\<lparr>o_retention_days := Some 30\<rparr>"

lemma retention_sweep_witness:
  "expired_sittings (days_us 31) 1 30 (sat_store\<lparr>t_orgs := [keeping_org]\<rparr>) = [(3, ''ada@x.org'')] \<and>
   expired_sittings (days_us 31) 1 30
     (snd (purge_expired (\<lambda>_. True) (\<lambda>_. ''0123456789abcdef0'') (days_us 31) (sat_store\<lparr>t_orgs := [keeping_org]\<rparr>))) = []"
proof -
  let ?st = "sat_store\<lparr>t_orgs := [keeping_org]\<rparr>"
  have "org_invite_ids 1 ?st = [3]" using sat_ids(1) org_invite_ids_cong [of ?st sat_store 1] by simp
  then have "expired_sittings (days_us 31) 1 30 ?st = [(3, ''ada@x.org'')]"
    by (simp add: expired_sittings_def days_us_def at_key_def sat_store_def graded_store_def example_attempt_def)
  moreover have "sweepable ?st"
    by (simp add: sweepable_def unique_key_def is_erased_def endswith_def startswith_def TOMBSTONE_DOMAIN_def
        emails_normalised_def live_attempts_def sat_store_def graded_store_def example_attempt_def ada_is_normal)
  moreover have "(1, 30) \<in> configured (t_orgs ?st)" by (simp add: configured_def keeping_org_def example_org_def)
  ultimately show ?thesis
    using retention_sweep [where st = ?st and commits = "\<lambda>_. True" and hexes = "\<lambda>_. ''0123456789abcdef0''" and now = "days_us 31"] by auto
qed

text \<open>A tenant whose commit fails is rolled back, and its sittings are counted as erased all the same.\<close>

lemma purge_counts_rolled_back:
  assumes "o_id g = Some i" and "o_retention_days g = Some d" and "0 < d" and "\<not> commits i"
  shows "purge_org commits hexes now g n st = (n + length (expired_sittings now i d st), st)"
  using assms by (simp add: purge_org_def Let_def)

end
