(* ===== verification/Auth.thy ===== *)
theory Auth
  imports Candidate "HOL-Library.Countable"
begin

section \<open>Auth: passwords, tokens and the account routes\<close>

text \<open>
  \<open>auth.py\<close> and the \<open>/auth\<close> routes of \<open>api.py\<close> that concern one account. PyJWT, bcrypt,
  the two digests and the breach service are parameters (\<open>crypto\<close>); \<open>crypto_lawful\<close> states what is relied
  on: PyJWT decodes what it encoded with the same secret until \<open>exp\<close>, and nothing of an expired token.
  Claims are JSON objects; PyJWT turns the datetimes of \<open>iat\<close> and \<open>exp\<close> into whole seconds. A route
  that depends on the signed-in account takes its row as it was loaded, beside the store at the
  time it writes, so a sibling's commit in between is a store in which the row has moved.
\<close>

type_synonym claims = "(string \<times> json) list"

record crypto =
  x_jwt_encode :: "string \<Rightarrow> claims \<Rightarrow> string"
  x_jwt_decode :: "instant \<Rightarrow> string \<Rightarrow> string \<Rightarrow> claims option"
  x_bcrypt_hashpw :: "string \<Rightarrow> string \<Rightarrow> string"
  x_bcrypt_checkpw :: "string \<Rightarrow> string \<Rightarrow> bool option"
  x_sha1 :: "string \<Rightarrow> string"
  x_sha256 :: "string \<Rightarrow> string"
  x_pwned_range :: "string \<Rightarrow> string option"

subsection \<open>Passwords\<close>

definition PASSWORD_MIN_LENGTH :: nat where
  "PASSWORD_MIN_LENGTH = 12"

definition PASSWORD_MAX_BYTES :: nat where
  "PASSWORD_MAX_BYTES = 72"

definition utf8_length :: "string \<Rightarrow> nat" where
  "utf8_length s = sum_list (map (\<lambda>ch. if code ch < 128 then 1 else 2) s)"

definition check_password_policy :: "string \<Rightarrow> exn + string" where
  "check_password_policy password =
    (if length password < PASSWORD_MIN_LENGTH
     then Inl (ValueError (''password must be at least '' @ show_nat PASSWORD_MIN_LENGTH @ '' characters.''))
     else if PASSWORD_MAX_BYTES < utf8_length password
     then Inl (ValueError (''password must be at most '' @ show_nat PASSWORD_MAX_BYTES @ '' bytes.''))
     else Inr password)"

definition hex_upper :: "string \<Rightarrow> string" where
  "hex_upper s = map (\<lambda>ch. if 97 \<le> code ch \<and> code ch \<le> 122 then char_of (code ch - 32) else ch) s"

text \<open>\<open>str.splitlines\<close>: every line boundary ends a line, a carriage return and line feed together one.\<close>

definition is_line_break :: "char \<Rightarrow> bool" where
  "is_line_break ch = (code ch \<in> {10, 11, 12, 13, 28, 29, 30, 133})"

fun splitlines_from :: "string \<Rightarrow> string \<Rightarrow> string list" where
  "splitlines_from line [] = (if line = [] then [] else [line])"
| "splitlines_from line [ch] = (if is_line_break ch then [line] else [line @ [ch]])"
| "splitlines_from line (ch # d # s) =
     (if code ch = 13 \<and> code d = 10 then line # splitlines_from [] s
      else if is_line_break ch then line # splitlines_from [] (d # s)
      else splitlines_from (line @ [ch]) (d # s))"

definition is_breached_password :: "settings \<Rightarrow> crypto \<Rightarrow> string \<Rightarrow> bool" where
  "is_breached_password c x password =
    (if \<not> c_password_breach_check c then False
     else
       let digest = hex_upper (x_sha1 x password); prefix = take 5 digest; suffix = drop 5 digest in
       (case x_pwned_range x prefix of
          None \<Rightarrow> False
        | Some text \<Rightarrow> list_ex (\<lambda>line. case py_partition (CHR '':'') line of (hash_suffix, _, count) \<Rightarrow>
            py_strip hash_suffix = suffix \<and> py_strip count \<noteq> ''0'') (splitlines_from [] text)))"

definition hash_password :: "crypto \<Rightarrow> string \<Rightarrow> string \<Rightarrow> string" where
  "hash_password x salt password = x_bcrypt_hashpw x salt password"

definition verify_password :: "crypto \<Rightarrow> string \<Rightarrow> string \<Rightarrow> bool" where
  "verify_password x password password_hash =
    (case x_bcrypt_checkpw x password password_hash of None \<Rightarrow> False | Some b \<Rightarrow> b)"

subsection \<open>Tokens\<close>

definition VERIFY_TOKEN_TTL :: int where
  "VERIFY_TOKEN_TTL = days_us 3"

definition RESET_TOKEN_TTL :: int where
  "RESET_TOKEN_TTL = minutes 60"

definition whole_seconds :: "instant \<Rightarrow> int" where
  "whole_seconds t = t div 1000000"

definition encode :: "settings \<Rightarrow> crypto \<Rightarrow> instant \<Rightarrow> claims \<Rightarrow> int \<Rightarrow> string" where
  "encode c x now claims ttl = x_jwt_encode x (c_jwt_secret c)
     (claims @ [(''iat'', JInt (whole_seconds now)), (''exp'', JInt (whole_seconds (now + ttl)))])"

definition decode :: "settings \<Rightarrow> crypto \<Rightarrow> instant \<Rightarrow> string \<Rightarrow> string \<Rightarrow> claims option" where
  "decode c x now token token_use =
    (case x_jwt_decode x now (c_jwt_secret c) token of
       None \<Rightarrow> None
     | Some cl \<Rightarrow> if dict_get cl ''use'' = JStr token_use then Some cl else None)"

text \<open>\<open>int(v)\<close> of a claim, \<open>None\<close> where it raises; and \<open>v == n\<close>, in which \<open>True == 1 == 1.0\<close>.\<close>

definition claim_int :: "json \<Rightarrow> int option" where
  "claim_int j = (case j of
     JStr s \<Rightarrow> py_int s
   | JInt i \<Rightarrow> Some i
   | JBool b \<Rightarrow> Some (if b then 1 else 0)
   | JFloat r \<Rightarrow> Some (if r < 0 then \<lceil>r\<rceil> else \<lfloor>r\<rfloor>)
   | _ \<Rightarrow> None)"

definition claim_is_int :: "json \<Rightarrow> int \<Rightarrow> bool" where
  "claim_is_int j n = (case j of
     JInt i \<Rightarrow> i = n
   | JBool b \<Rightarrow> (if b then 1 else 0) = n
   | JFloat r \<Rightarrow> r = of_int n
   | _ \<Rightarrow> False)"

definition subject_of :: "claims \<Rightarrow> store \<Rightarrow> interviewer option" where
  "subject_of cl st = Option.bind (claim_int (dict_get cl ''sub'')) (\<lambda>i. get_interviewer i st)"

definition session_claims :: "interviewer \<Rightarrow> claims" where
  "session_claims i = [(''sub'', JStr (show_int (iv_id i))), (''ver'', JInt (iv_token_version i))]"

definition create_access_token :: "settings \<Rightarrow> crypto \<Rightarrow> instant \<Rightarrow> interviewer \<Rightarrow> string" where
  "create_access_token c x now i =
     encode c x now ((''use'', JStr ''access'') # session_claims i) (minutes (c_jwt_expire_min c))"

definition create_refresh_token :: "settings \<Rightarrow> crypto \<Rightarrow> instant \<Rightarrow> interviewer \<Rightarrow> string" where
  "create_refresh_token c x now i =
     encode c x now ((''use'', JStr ''refresh'') # session_claims i) (days_us (c_refresh_expire_days c))"

definition session_interviewer :: "settings \<Rightarrow> crypto \<Rightarrow> instant \<Rightarrow> string \<Rightarrow> string \<Rightarrow> store \<Rightarrow> interviewer option" where
  "session_interviewer c x now token token_use st =
     Option.bind (decode c x now token token_use) (\<lambda>cl.
     Option.bind (subject_of cl st) (\<lambda>i.
       if claim_is_int (dict_get cl ''ver'') (iv_token_version i) then Some i else None))"

definition get_current_interviewer :: "settings \<Rightarrow> crypto \<Rightarrow> instant \<Rightarrow> string option \<Rightarrow> store \<Rightarrow> exn + interviewer" where
  "get_current_interviewer c x now creds st = (case creds of
     None \<Rightarrow> Inl (HTTPException 401 ''missing bearer token.'')
   | Some token \<Rightarrow> (case session_interviewer c x now token ''access'' st of
       None \<Rightarrow> Inl (HTTPException 401 ''invalid or expired token.'') | Some i \<Rightarrow> Inr i))"

definition membership_for :: "interviewer \<Rightarrow> store \<Rightarrow> membership option" where
  "membership_for i st = first_where (\<lambda>m. m_interviewer_id m = iv_id i) (t_memberships st)"

definition get_current_membership :: "interviewer \<Rightarrow> store \<Rightarrow> exn + membership" where
  "get_current_membership current st = (case membership_for current st of
     None \<Rightarrow> Inl (HTTPException 403 ''account belongs to no organisation.'') | Some m \<Rightarrow> Inr m)"

definition interviewer_from_refresh :: "settings \<Rightarrow> crypto \<Rightarrow> instant \<Rightarrow> string option \<Rightarrow> store \<Rightarrow> interviewer option" where
  "interviewer_from_refresh c x now token st =
     Option.bind token (\<lambda>tk. session_interviewer c x now tk ''refresh'' st)"

definition hash_fingerprint :: "crypto \<Rightarrow> string \<Rightarrow> string" where
  "hash_fingerprint x password_hash = take 16 (x_sha256 x password_hash)"

definition create_verify_token :: "settings \<Rightarrow> crypto \<Rightarrow> instant \<Rightarrow> interviewer \<Rightarrow> string" where
  "create_verify_token c x now i = encode c x now
     [(''use'', JStr ''verify''), (''sub'', JStr (show_int (iv_id i))), (''email'', JStr (iv_email i))] VERIFY_TOKEN_TTL"

definition create_change_email_token :: "settings \<Rightarrow> crypto \<Rightarrow> instant \<Rightarrow> interviewer \<Rightarrow> string \<Rightarrow> string" where
  "create_change_email_token c x now i new_email = encode c x now
     [(''use'', JStr ''change_email''), (''sub'', JStr (show_int (iv_id i))), (''email'', JStr (iv_email i)),
      (''new'', JStr new_email)] VERIFY_TOKEN_TTL"

definition create_reset_token :: "settings \<Rightarrow> crypto \<Rightarrow> instant \<Rightarrow> interviewer \<Rightarrow> string" where
  "create_reset_token c x now i = encode c x now
     [(''use'', JStr ''reset''), (''sub'', JStr (show_int (iv_id i))), (''email'', JStr (iv_email i)),
      (''pwd'', JStr (hash_fingerprint x (iv_password_hash i)))] RESET_TOKEN_TTL"

definition interviewer_from_action_token :: "settings \<Rightarrow> crypto \<Rightarrow> instant \<Rightarrow> string \<Rightarrow> string \<Rightarrow> store \<Rightarrow> interviewer option" where
  "interviewer_from_action_token c x now token token_use st =
     Option.bind (decode c x now token token_use) (\<lambda>cl.
     Option.bind (subject_of cl st) (\<lambda>i.
       if token_use \<in> {''verify'', ''change_email''} \<and> dict_get cl ''email'' \<noteq> JStr (iv_email i) then None
       else if token_use = ''reset'' \<and> dict_get cl ''pwd'' \<noteq> JStr (hash_fingerprint x (iv_password_hash i)) then None
       else Some i))"

definition change_email_from_token :: "settings \<Rightarrow> crypto \<Rightarrow> instant \<Rightarrow> string \<Rightarrow> store \<Rightarrow> (interviewer \<times> string) option" where
  "change_email_from_token c x now token st =
     Option.bind (interviewer_from_action_token c x now token ''change_email'' st) (\<lambda>i.
       case dict_get (case decode c x now token ''change_email'' of None \<Rightarrow> [] | Some p \<Rightarrow> p) ''new'' of
         JStr new_email \<Rightarrow> if new_email = [] then None else Some (i, new_email)
       | _ \<Rightarrow> None)"

subsection \<open>The refresh cookie\<close>

record cookie =
  ck_key :: string
  ck_value :: string
  ck_max_age :: int
  ck_path :: string
  ck_httponly :: bool
  ck_secure :: bool
  ck_samesite :: string

definition REFRESH_COOKIE :: string where
  "REFRESH_COOKIE = ''refresh_token''"

definition REFRESH_COOKIE_PATH :: string where
  "REFRESH_COOKIE_PATH = ''/auth''"

definition set_refresh_cookie :: "settings \<Rightarrow> string \<Rightarrow> cookie" where
  "set_refresh_cookie c token = \<lparr>ck_key = REFRESH_COOKIE, ck_value = token,
     ck_max_age = c_refresh_expire_days c * 86400, ck_path = REFRESH_COOKIE_PATH, ck_httponly = True,
     ck_secure = c_cookie_secure c, ck_samesite = c_cookie_samesite c\<rparr>"

text \<open>\<open>delete_cookie\<close> is an empty value that expires at once.\<close>

definition clear_refresh_cookie :: "settings \<Rightarrow> cookie" where
  "clear_refresh_cookie c = \<lparr>ck_key = REFRESH_COOKIE, ck_value = [], ck_max_age = 0, ck_path = REFRESH_COOKIE_PATH,
     ck_httponly = True, ck_secure = c_cookie_secure c, ck_samesite = c_cookie_samesite c\<rparr>"

subsection \<open>The account routes\<close>

definition interviewer_by_email :: "string \<Rightarrow> store \<Rightarrow> interviewer option" where
  "interviewer_by_email email st = first_where (\<lambda>i. iv_email i = email) (t_interviewers st)"

definition write_interviewer :: "int \<Rightarrow> (interviewer \<Rightarrow> interviewer) \<Rightarrow> store \<Rightarrow> store" where
  "write_interviewer i f st = st\<lparr>t_interviewers := upd_where (\<lambda>r. iv_id r = i) f (t_interviewers st)\<rparr>"

record interviewer_out =
  io_id :: int
  io_email :: string
  io_name :: string
  io_email_verified :: bool

definition interviewer_out_of :: "interviewer \<Rightarrow> interviewer_out" where
  "interviewer_out_of i = \<lparr>io_id = iv_id i, io_email = iv_email i, io_name = iv_name i,
     io_email_verified = (iv_email_verified_at i \<noteq> None)\<rparr>"

record issued =
  is_access_token :: string
  is_cookie :: cookie

definition issue_session :: "settings \<Rightarrow> crypto \<Rightarrow> instant \<Rightarrow> interviewer \<Rightarrow> issued" where
  "issue_session c x now i = \<lparr>is_access_token = create_access_token c x now i,
     is_cookie = set_refresh_cookie c (create_refresh_token c x now i)\<rparr>"

definition reject_breached :: "settings \<Rightarrow> crypto \<Rightarrow> string \<Rightarrow> exn + unit" where
  "reject_breached c x password = require (\<not> is_breached_password c x password)
     (HTTPException 422 ''that password appears in a known data breach; please choose another.'')"

text \<open>The new hash and the version one past the one that was loaded: absolute values, as the ORM writes them.\<close>

definition set_password :: "crypto \<Rightarrow> string \<Rightarrow> string \<Rightarrow> interviewer \<Rightarrow> interviewer \<Rightarrow> interviewer" where
  "set_password x salt new_password loaded r = r\<lparr>iv_password_hash := hash_password x salt new_password,
     iv_token_version := iv_token_version loaded + 1\<rparr>"

definition send_account_mail :: "string \<Rightarrow> account_mail \<Rightarrow> string \<Rightarrow> store \<Rightarrow> store" where
  "send_account_mail to template link st = st\<lparr>outbox := outbox st @ [AccountMail to template link]\<rparr>"

definition send_verification :: "settings \<Rightarrow> crypto \<Rightarrow> instant \<Rightarrow> interviewer \<Rightarrow> store \<Rightarrow> store" where
  "send_verification c x now i st = send_account_mail (iv_email i) (ConfirmAddress (iv_name i))
     (c_frontend_base_url c @ ''/verify-email?token='' @ create_verify_token c x now i) st"

definition login :: "settings \<Rightarrow> crypto \<Rightarrow> request \<Rightarrow> string \<Rightarrow> string \<Rightarrow> store \<Rightarrow> (issued, store) outcome" where
  "login c x rq email password st =
    bindr (limit_route c ''login'' (c_login_rate_limit_max c) rq st) (\<lambda>_ st0.
      case interviewer_by_email (normalize_email email) st0 of
        None \<Rightarrow> (Inl (HTTPException 401 ''invalid email or password.''), st0)
      | Some i \<Rightarrow>
          if verify_password x password (iv_password_hash i) then (Inr (issue_session c x (rq_now rq) i), st0)
          else (Inl (HTTPException 401 ''invalid email or password.''), st0))"

definition refresh_session :: "settings \<Rightarrow> crypto \<Rightarrow> instant \<Rightarrow> string option \<Rightarrow> store \<Rightarrow> exn + issued" where
  "refresh_session c x now refresh_cookie st = (case interviewer_from_refresh c x now refresh_cookie st of
     None \<Rightarrow> Inl (HTTPException 401 ''not signed in.'')
   | Some i \<Rightarrow> Inr (issue_session c x now i))"

definition logout :: "settings \<Rightarrow> cookie" where
  "logout c = clear_refresh_cookie c"

definition FORGOT_DETAIL :: string where
  "FORGOT_DETAIL = ''if that address has an account, a reset link has been emailed.''"

definition forgot_password :: "settings \<Rightarrow> crypto \<Rightarrow> request \<Rightarrow> string \<Rightarrow> store \<Rightarrow> (string, store) outcome" where
  "forgot_password c x rq email st =
    bindr (limit_route c ''forgot'' (c_login_rate_limit_max c) rq st) (\<lambda>_ st0.
      (Inr FORGOT_DETAIL,
       case interviewer_by_email (normalize_email email) st0 of
         None \<Rightarrow> st0
       | Some i \<Rightarrow> send_account_mail (iv_email i) (ResetPassword (iv_name i))
           (c_frontend_base_url c @ ''/reset-password?token='' @ create_reset_token c x (rq_now rq) i) st0))"

definition verified_by :: "instant \<Rightarrow> interviewer \<Rightarrow> interviewer" where
  "verified_by now i = i\<lparr>iv_email_verified_at := Some (case iv_email_verified_at i of None \<Rightarrow> now | Some t \<Rightarrow> t)\<rparr>"

definition reset_password :: "settings \<Rightarrow> crypto \<Rightarrow> string \<Rightarrow> instant \<Rightarrow> string \<Rightarrow> string \<Rightarrow> store \<Rightarrow> (unit, store) outcome" where
  "reset_password c x salt now token new_password st =
    (case interviewer_from_action_token c x now token ''reset'' st of
       None \<Rightarrow> (Inl (HTTPException 400 ''invalid or expired reset link.''), st)
     | Some i \<Rightarrow>
         guardr (reject_breached c x new_password) st (\<lambda>_.
           (Inr (), write_interviewer (iv_id i) (\<lambda>r. verified_by now (set_password x salt new_password i r)) st)))"

text \<open>After the commit the row is reloaded, so the session is issued for what the database holds.\<close>

definition change_password :: "settings \<Rightarrow> crypto \<Rightarrow> string \<Rightarrow> instant \<Rightarrow> string \<Rightarrow> string \<Rightarrow> interviewer \<Rightarrow> store \<Rightarrow>
    (issued, store) outcome" where
  "change_password c x salt now current_password new_password current st =
    guardr (require (verify_password x current_password (iv_password_hash current))
              (HTTPException 403 ''current password is incorrect.'')) st (\<lambda>_.
    guardr (reject_breached c x new_password) st (\<lambda>_.
      let st1 = write_interviewer (iv_id current) (set_password x salt new_password current) st in
      case get_interviewer (iv_id current) st1 of
        None \<Rightarrow> (Inl (RuntimeError ''Could not refresh instance''), st1)
      | Some i \<Rightarrow> (Inr (issue_session c x now i), st1)))"

definition verify_email :: "settings \<Rightarrow> crypto \<Rightarrow> instant \<Rightarrow> string \<Rightarrow> store \<Rightarrow> (unit, store) outcome" where
  "verify_email c x now token st =
    (case interviewer_from_action_token c x now token ''verify'' st of
       None \<Rightarrow> (Inl (HTTPException 400 ''invalid or expired verification link.''), st)
     | Some i \<Rightarrow>
         (Inr (), if iv_email_verified_at i = None
                  then write_interviewer (iv_id i) (\<lambda>r. r\<lparr>iv_email_verified_at := Some now\<rparr>) st else st))"

definition resend_verification :: "settings \<Rightarrow> crypto \<Rightarrow> request \<Rightarrow> interviewer \<Rightarrow> store \<Rightarrow> (string, store) outcome" where
  "resend_verification c x rq current st =
    bindr (limit_route c ''forgot'' (c_login_rate_limit_max c) rq st) (\<lambda>_ st0.
      if iv_email_verified_at current \<noteq> None then (Inr ''email already verified.'', st0)
      else (Inr ''verification email sent.'', send_verification c x (rq_now rq) current st0))"

record update_me_in =
  um_name :: "string option"
  um_email :: "string option"
  um_password :: "string option"

text \<open>The address asked for, when the body moves it; \<open>None\<close> when it does not.\<close>

definition new_address :: "update_me_in \<Rightarrow> interviewer \<Rightarrow> string option" where
  "new_address body current = (case um_email body of
     None \<Rightarrow> None
   | Some e \<Rightarrow> if normalize_email e = iv_email current then None else Some (normalize_email e))"

definition email_taken :: "string \<Rightarrow> exn" where
  "email_taken email = HTTPException 409 (''email '' @ py_repr email @ '' already registered.'')"

definition update_me :: "settings \<Rightarrow> crypto \<Rightarrow> request \<Rightarrow> update_me_in \<Rightarrow> interviewer \<Rightarrow> store \<Rightarrow> (interviewer_out, store) outcome" where
  "update_me c x rq body current st =
    guardr (case um_name body of
              None \<Rightarrow> Inr current
            | Some n \<Rightarrow> if py_strip n = [] then Inl (HTTPException 422 ''name cannot be empty.'')
                        else Inr (current\<lparr>iv_name := py_strip n\<rparr>)) st (\<lambda>named.
    let commit = (\<lambda>s. (Inr (interviewer_out_of named),
          write_interviewer (iv_id current) (\<lambda>r. r\<lparr>iv_name := (case um_name body of None \<Rightarrow> iv_name r | Some n \<Rightarrow> py_strip n)\<rparr>) s))
    in case new_address body current of
         None \<Rightarrow> commit st
       | Some email \<Rightarrow>
           guardr (require (case um_password body of None \<Rightarrow> False
                            | Some p \<Rightarrow> p \<noteq> [] \<and> verify_password x p (iv_password_hash current))
                     (HTTPException 403 ''password is incorrect.'')) st (\<lambda>_.
           bindr (limit_route c ''forgot'' (c_login_rate_limit_max c) rq st) (\<lambda>_ st0.
             if interviewer_by_email email st0 \<noteq> None then (Inl (email_taken email), st0)
             else commit (send_account_mail email (ChangeEmail (iv_name named) (iv_email current))
               (c_frontend_base_url c @ ''/confirm-email?token='' @ create_change_email_token c x (rq_now rq) current email) st0))))"

text \<open>
  The address has a unique index: a sibling that registers it after the check makes the commit fail.
  \<open>others 0\<close> stands between the check and the commit.
\<close>

definition confirm_email_change :: "settings \<Rightarrow> crypto \<Rightarrow> interference \<Rightarrow> instant \<Rightarrow> string \<Rightarrow> store \<Rightarrow> (unit, store) outcome" where
  "confirm_email_change c x others now token st =
    (case change_email_from_token c x now token st of
       None \<Rightarrow> (Inl (HTTPException 400 ''this link is invalid or has expired.''), st)
     | Some (i, new_email) \<Rightarrow>
         if (case interviewer_by_email new_email st of None \<Rightarrow> False | Some taken \<Rightarrow> iv_id taken \<noteq> iv_id i)
         then (Inl (email_taken new_email), st)
         else
           let st0 = others 0 st in
           if exists_where (\<lambda>r. iv_email r = new_email \<and> iv_id r \<noteq> iv_id i) (t_interviewers st0)
           then (Inl IntegrityError, st0)
           else (Inr (), write_interviewer (iv_id i)
                   (\<lambda>r. r\<lparr>iv_email := new_email, iv_email_verified_at := Some now\<rparr>) st0))"

end
