(* ===== verification/AccountSafety.thy ===== *)
theory AccountSafety
  imports Auth CandidateRoutes
begin

section \<open>AccountSafety: what a token opens, and what a password change closes\<close>

text \<open>
  The laws of the libraries behind a token, one lemma that says what every token the platform mints
  decodes to, and on top of it the properties of sessions and links. \<open>account_op\<close> lists the
  account routes, so that a property can be stated for whatever requests come afterwards.
\<close>

subsection \<open>Tokens\<close>

text \<open>
  PyJWT: a token encoded with a secret decodes with it to the same claims while \<open>iat\<close> is not in the
  future and \<open>exp\<close> is; otherwise it raises.
\<close>

definition timely :: "claims \<Rightarrow> instant \<Rightarrow> bool" where
  "timely cl now = ((case dict_get cl ''exp'' of JInt e \<Rightarrow> now < e * 1000000 | _ \<Rightarrow> True) \<and>
     (case dict_get cl ''iat'' of JInt i \<Rightarrow> i * 1000000 \<le> now | _ \<Rightarrow> True))"

definition crypto_lawful :: "crypto \<Rightarrow> bool" where
  "crypto_lawful x \<longleftrightarrow> (\<forall>secret cl now.
     x_jwt_decode x now secret (x_jwt_encode x secret cl) = (if timely cl now then Some cl else None))"

definition fresh_at :: "instant \<Rightarrow> int \<Rightarrow> instant \<Rightarrow> bool" where
  "fresh_at t0 ttl now = (whole_seconds t0 * 1000000 \<le> now \<and> now < whole_seconds (t0 + ttl) * 1000000)"

lemma fresh_now: "1000000 \<le> ttl \<Longrightarrow> fresh_at now ttl now"
proof -
  assume ttl: "1000000 \<le> ttl"
  have w: "t div 1000000 * 1000000 = t - t mod 1000000" for t :: int by (simp add: minus_mod_eq_div_mult)
  have m: "0 \<le> t mod 1000000" "t mod 1000000 < 1000000" for t :: int by simp_all
  have "now - now mod 1000000 \<le> now" using m(1) [of now] by linarith
  moreover have "now < now + ttl - (now + ttl) mod 1000000" using m(2) [of "now + ttl"] ttl by linarith
  ultimately show ?thesis unfolding fresh_at_def whole_seconds_def w by blast
qed

definition stamped :: "claims \<Rightarrow> instant \<Rightarrow> int \<Rightarrow> claims" where
  "stamped cl t0 ttl = cl @ [(''iat'', JInt (whole_seconds t0)), (''exp'', JInt (whole_seconds (t0 + ttl)))]"

lemma dict_get_stamped:
  "k \<noteq> ''iat'' \<Longrightarrow> k \<noteq> ''exp'' \<Longrightarrow> dict_get (stamped cl t0 ttl) k = dict_get cl k"
  by (simp add: dict_get_def stamped_def map_add_def split: option.splits)

lemma decode_encode:
  assumes "crypto_lawful x" and "map_of cl ''iat'' = None" and "map_of cl ''exp'' = None"
  shows "decode c x now (encode c x t0 cl ttl) u =
    (if fresh_at t0 ttl now \<and> dict_get cl ''use'' = JStr u then Some (stamped cl t0 ttl) else None)"
proof -
  have "timely (stamped cl t0 ttl) now = fresh_at t0 ttl now"
    using assms(2,3) by (auto simp: timely_def fresh_at_def stamped_def dict_get_def map_add_def)
  then show ?thesis
    using assms(1) dict_get_stamped [of "''use''" cl t0 ttl]
    by (simp add: decode_def encode_def crypto_lawful_def flip: stamped_def)
qed

lemma session_lookups:
  "map_of ((''use'', v) # session_claims i) ''iat'' = None"
  "map_of ((''use'', v) # session_claims i) ''exp'' = None"
  "dict_get ((''use'', v) # session_claims i) ''use'' = v"
  "dict_get ((''use'', v) # session_claims i) ''sub'' = JStr (show_int (iv_id i))"
  "dict_get ((''use'', v) # session_claims i) ''ver'' = JInt (iv_token_version i)"
  by (simp_all add: dict_get_def session_claims_def)

lemma session_of_claims:
  assumes "crypto_lawful x"
  shows "session_interviewer c x now (encode c x t0 ((''use'', JStr v) # session_claims i) ttl) u st =
    (if fresh_at t0 ttl now \<and> u = v then
       (case get_interviewer (iv_id i) st of None \<Rightarrow> None
        | Some r \<Rightarrow> if iv_token_version i = iv_token_version r then Some r else None) else None)"
proof -
  have d: "decode c x now (encode c x t0 ((''use'', JStr v) # session_claims i) ttl) u =
      (if fresh_at t0 ttl now \<and> u = v then Some (stamped ((''use'', JStr v) # session_claims i) t0 ttl) else None)"
    using decode_encode [OF assms session_lookups(1,2)] by (auto simp: session_lookups(3))
  have "subject_of (stamped ((''use'', JStr v) # session_claims i) t0 ttl) st = get_interviewer (iv_id i) st"
    by (simp add: subject_of_def dict_get_stamped session_lookups(4) claim_int_def py_int_show_int)
  moreover have "claim_is_int (dict_get (stamped ((''use'', JStr v) # session_claims i) t0 ttl) ''ver'') n \<longleftrightarrow>
      iv_token_version i = n" for n
    by (simp add: dict_get_stamped session_lookups(5) claim_is_int_def)
  ultimately show ?thesis
    unfolding session_interviewer_def d by (cases "get_interviewer (iv_id i) st") simp_all
qed

lemma session_of_access:
  assumes "crypto_lawful x"
  shows "session_interviewer c x now (create_access_token c x t0 i) u st =
    (if fresh_at t0 (minutes (c_jwt_expire_min c)) now \<and> u = ''access'' then
       (case get_interviewer (iv_id i) st of None \<Rightarrow> None
        | Some r \<Rightarrow> if iv_token_version i = iv_token_version r then Some r else None) else None)"
  unfolding create_access_token_def using assms by (rule session_of_claims)

lemma session_of_refresh:
  assumes "crypto_lawful x"
  shows "session_interviewer c x now (create_refresh_token c x t0 i) u st =
    (if fresh_at t0 (days_us (c_refresh_expire_days c)) now \<and> u = ''refresh'' then
       (case get_interviewer (iv_id i) st of None \<Rightarrow> None
        | Some r \<Rightarrow> if iv_token_version i = iv_token_version r then Some r else None) else None)"
  unfolding create_refresh_token_def using assms by (rule session_of_claims)

lemma session_of_other_use:
  assumes "crypto_lawful x" and "map_of cl ''iat'' = None" and "map_of cl ''exp'' = None"
    and "dict_get cl ''use'' \<noteq> JStr u"
  shows "session_interviewer c x now (encode c x t0 cl ttl) u st = None"
  using assms(4) by (simp add: session_interviewer_def decode_encode [OF assms(1-3)])

lemma session_of_link:
  assumes "crypto_lawful x" and "u \<in> {''access'', ''refresh''}"
  shows "session_interviewer c x now (create_verify_token c x t0 i) u st = None"
    and "session_interviewer c x now (create_reset_token c x t0 i) u st = None"
    and "session_interviewer c x now (create_change_email_token c x t0 i e) u st = None"
  unfolding create_verify_token_def create_reset_token_def create_change_email_token_def
  using assms(2) by (intro session_of_other_use [OF assms(1)]; auto simp: dict_get_def)+

text \<open>
  C13. A bearer round trip: the access token minted for an account is accepted as that account from
  the second it was issued until its \<open>exp\<close> and at no other time, and the kinds of token are kept apart:
  neither a refresh token nor any emailed link is accepted as a bearer, and neither an access
  token nor a link as a refresh cookie.
\<close>

theorem bearer_round_trip:
  assumes "crypto_lawful x" and "get_interviewer (iv_id i) st = Some i"
  shows "get_current_interviewer c x now (Some (create_access_token c x t0 i)) st =
     (if fresh_at t0 (minutes (c_jwt_expire_min c)) now then Inr i
      else Inl (HTTPException 401 ''invalid or expired token.'')) \<and>
   (\<forall>link \<in> {create_refresh_token c x t0 i, create_verify_token c x t0 i, create_reset_token c x t0 i,
       create_change_email_token c x t0 i e}.
      get_current_interviewer c x now (Some link) st = Inl (HTTPException 401 ''invalid or expired token.'')) \<and>
   (\<forall>link \<in> {create_access_token c x t0 i, create_verify_token c x t0 i, create_reset_token c x t0 i,
       create_change_email_token c x t0 i e}.
      refresh_session c x now (Some link) st = Inl (HTTPException 401 ''not signed in.''))"
  using assms
  by (simp add: get_current_interviewer_def refresh_session_def interviewer_from_refresh_def session_of_access
      session_of_refresh session_of_link)


text \<open>A concrete library that satisfies the laws: claims are written as a number.\<close>

instance json :: countable by countable_datatype

definition example_crypto :: crypto where
  "example_crypto = \<lparr>x_jwt_encode = (\<lambda>s cl. show_nat (to_nat (s, cl))),
     x_jwt_decode = (\<lambda>now s tk. case py_int tk of None \<Rightarrow> None
       | Some n \<Rightarrow> (case from_nat (nat n) of (s', cl) \<Rightarrow> if s' = s \<and> timely cl now then Some cl else None)),
     x_bcrypt_hashpw = (\<lambda>salt p. salt @ p), x_bcrypt_checkpw = (\<lambda>p h. Some (endswith h p)),
     x_sha1 = (\<lambda>s. s), x_sha256 = (\<lambda>s. s), x_pwned_range = (\<lambda>_. None)\<rparr>"

lemma example_crypto_lawful: "crypto_lawful example_crypto"
  by (simp add: crypto_lawful_def example_crypto_def py_int_show_nat)

definition example_account :: interviewer where
  "example_account = \<lparr>iv_id = 1, iv_email = ''eve@x.org'', iv_password_hash = ''salt old password'', iv_name = ''Eve'',
     iv_token_version = 0, iv_email_verified_at = None\<rparr>"

definition account_store :: store where
  "account_store = empty_store\<lparr>t_interviewers := [example_account]\<rparr>"

lemma account_store_get: "get_interviewer 1 account_store = Some example_account" "iv_id example_account = 1"
  by (simp_all add: get_interviewer_def account_store_def example_account_def)

lemma bearer_round_trip_witness:
  "get_current_interviewer default_settings example_crypto 60000000
     (Some (create_access_token default_settings example_crypto 0 example_account)) account_store = Inr example_account"
  using bearer_round_trip [OF example_crypto_lawful, of example_account account_store default_settings 60000000 0]
  by (simp add: account_store_get fresh_at_def whole_seconds_def minutes_def default_settings_def)

subsection \<open>Versions only grow\<close>

text \<open>
  Requests to the account routes, each with the secrets and clock it draws. A route that needs a
  signed-in account loads the row of that id first, as its dependency does.
\<close>

datatype account_op =
    ALogin request string string
  | AForgot request string
  | AReset string instant string string
  | AChange string instant string string int
  | AVerify instant string
  | AResend request int
  | AUpdate request update_me_in int
  | AConfirm instant string

definition signed_in :: "int \<Rightarrow> (interviewer \<Rightarrow> store \<Rightarrow> store) \<Rightarrow> store \<Rightarrow> store" where
  "signed_in i k st = (case get_interviewer i st of None \<Rightarrow> st | Some r \<Rightarrow> k r st)"

fun perform_account :: "settings \<Rightarrow> crypto \<Rightarrow> account_op \<Rightarrow> store \<Rightarrow> store" where
  "perform_account c x (ALogin rq e p) st = snd (login c x rq e p st)"
| "perform_account c x (AForgot rq e) st = snd (forgot_password c x rq e st)"
| "perform_account c x (AReset salt now tk p) st = snd (reset_password c x salt now tk p st)"
| "perform_account c x (AChange salt now old p i) st =
     signed_in i (\<lambda>r s. snd (change_password c x salt now old p r s)) st"
| "perform_account c x (AVerify now tk) st = snd (verify_email c x now tk st)"
| "perform_account c x (AResend rq i) st = signed_in i (\<lambda>r s. snd (resend_verification c x rq r s)) st"
| "perform_account c x (AUpdate rq body i) st = signed_in i (\<lambda>r s. snd (update_me c x rq body r s)) st"
| "perform_account c x (AConfirm now tk) st = snd (confirm_email_change c x alone now tk st)"

definition perform_accounts :: "settings \<Rightarrow> crypto \<Rightarrow> account_op list \<Rightarrow> store \<Rightarrow> store" where
  "perform_accounts c x ops st = fold (perform_account c x) ops st"

text \<open>Every account is still there and its version has not gone down.\<close>

definition versions_grow :: "store \<Rightarrow> store \<Rightarrow> bool" where
  "versions_grow st st' \<longleftrightarrow> map iv_id (t_interviewers st') = map iv_id (t_interviewers st) \<and>
     (\<forall>i r. get_interviewer i st = Some r \<longrightarrow>
        (\<exists>r'. get_interviewer i st' = Some r' \<and> iv_token_version r \<le> iv_token_version r'))"

lemma versions_grow_same: "t_interviewers st' = t_interviewers st \<Longrightarrow> versions_grow st st'"
  by (auto simp: versions_grow_def get_interviewer_def)

lemma versions_grow_refl [simp]: "versions_grow st st"
  by (simp add: versions_grow_same)

lemma versions_grow_trans: "versions_grow st st1 \<Longrightarrow> versions_grow st1 st2 \<Longrightarrow> versions_grow st st2"
  unfolding versions_grow_def by (metis order_trans)

lemma get_written_account:
  assumes "\<And>r. iv_id (f r) = iv_id r"
  shows "get_interviewer j (write_interviewer i f st) =
    map_option (\<lambda>r. if iv_id r = i then f r else r) (get_interviewer j st)"
  unfolding get_interviewer_def write_interviewer_def using assms by (simp add: find_upd_where)

lemma versions_grow_write:
  assumes "\<And>r. iv_id (f r) = iv_id r"
    and "\<And>r. get_interviewer i st = Some r \<Longrightarrow> iv_token_version r \<le> iv_token_version (f r)"
  shows "versions_grow st (write_interviewer i f st)"
proof -
  have "iv_id r = j" if "get_interviewer j st = Some r" for j r
    using that unfolding get_interviewer_def by (auto dest: find_SomeD)
  then show ?thesis
    using assms unfolding versions_grow_def
    by (auto simp: get_written_account) (auto simp: write_interviewer_def map_upd_where)
qed

lemma limit_versions: "t_interviewers (snd (limit_route c b m rq s)) = t_interviewers s"
  using limit_frame [of c b m rq s] by auto

lemma limit_get: "get_interviewer i (snd (limit_route c b m rq s)) = get_interviewer i s"
  by (simp add: get_interviewer_def limit_versions)

lemma limited_grows:
  assumes "\<And>s. limit_route c b m rq st = (Inr (), s) \<Longrightarrow> versions_grow s (snd (k () s))"
  shows "versions_grow st (snd (bindr (limit_route c b m rq st) k))"
proof -
  have "versions_grow st (snd (limit_route c b m rq st))" by (simp add: versions_grow_same limit_versions)
  with assms show ?thesis
    unfolding snd_bindr by (cases "limit_route c b m rq st") (auto split: sum.split intro: versions_grow_trans)
qed

lemma action_token_get:
  assumes "interviewer_from_action_token c x now tk u st = Some i"
  shows "get_interviewer (iv_id i) st = Some i"
proof -
  have "get_interviewer n st = Some i \<Longrightarrow> iv_id i = n" for n
    unfolding get_interviewer_def by (auto dest: find_SomeD)
  then show ?thesis
    using assms by (auto simp: interviewer_from_action_token_def subject_of_def bind_eq_Some_conv split: if_splits)
qed

lemma get_interviewer_id: "get_interviewer n st = Some i \<Longrightarrow> iv_id i = n"
  unfolding get_interviewer_def by (auto dest: find_SomeD)

lemma loaded_row: "get_interviewer i st = Some r \<Longrightarrow> get_interviewer (iv_id r) st = Some r' \<Longrightarrow> r' = r"
  using get_interviewer_id by fastforce

lemma mail_same [simp]: "t_interviewers (send_account_mail a m l st) = t_interviewers st"
  by (simp add: send_account_mail_def)

lemma kept_grows:
  assumes "\<And>r. iv_id (f r) = iv_id r" and "\<And>r. iv_token_version (f r) = iv_token_version r"
  shows "versions_grow s (write_interviewer j f s)"
    and "versions_grow s (write_interviewer j f (send_account_mail a m l s))"
proof -
  show w: "versions_grow s (write_interviewer j f s)" for s by (rule versions_grow_write) (simp_all add: assms)
  show "versions_grow s (write_interviewer j f (send_account_mail a m l s))"
    using versions_grow_same [OF mail_same] w by (rule versions_grow_trans)
qed

lemma perform_account_grows: "versions_grow st (perform_account c x a st)"
proof (cases a)
  case (ALogin rq e p)
  show ?thesis unfolding ALogin perform_account.simps login_def
    by (rule limited_grows) (auto intro: versions_grow_same split: option.split)
next
  case (AForgot rq e)
  show ?thesis unfolding AForgot perform_account.simps forgot_password_def
    by (rule limited_grows) (auto intro: versions_grow_same split: option.split)
next
  case (AReset salt now tk p)
  show ?thesis unfolding AReset perform_account.simps reset_password_def
    by (auto simp: guardr_def verified_by_def set_password_def dest: action_token_get
        intro!: versions_grow_write split: option.split sum.split)
next
  case (AChange salt now old p i)
  show ?thesis unfolding AChange perform_account.simps change_password_def signed_in_def Let_def
    by (auto simp: guardr_def set_password_def dest: loaded_row
        intro!: versions_grow_write split: option.split sum.split)
next
  case (AVerify now tk)
  show ?thesis unfolding AVerify perform_account.simps verify_email_def
    by (auto intro!: versions_grow_write split: option.split)
next
  case (AResend rq i)
  show ?thesis unfolding AResend perform_account.simps resend_verification_def signed_in_def
    by (cases "get_interviewer i st")
      (auto intro!: limited_grows intro: versions_grow_same simp: send_verification_def)
next
  case (AUpdate rq body i)
  show ?thesis
  proof (cases "get_interviewer i st")
    case None
    then show ?thesis by (simp add: AUpdate signed_in_def versions_grow_same)
  next
    case (Some r)
    show ?thesis
      unfolding AUpdate perform_account.simps signed_in_def Some option.case update_me_def Let_def
      by (auto simp: guardr_def split: option.split sum.split intro!: limited_grows kept_grows)
  qed
next
  case (AConfirm now tk)
  show ?thesis unfolding AConfirm perform_account.simps confirm_email_change_def alone_simp Let_def
    by (auto intro!: versions_grow_write split: option.split)
qed

lemma perform_accounts_grow: "versions_grow st (perform_accounts c x ops st)"
  unfolding perform_accounts_def
  by (induction ops arbitrary: st)
    (auto intro: versions_grow_same versions_grow_trans [OF perform_account_grows])


text \<open>A token minted for an earlier version of an account opens nothing from then on.\<close>

lemma old_tokens_closed:
  assumes "crypto_lawful x" and "versions_grow st st2" and "get_interviewer (iv_id old) st = Some r"
    and "iv_token_version old < iv_token_version r"
  shows "get_current_interviewer c x t1 (Some (create_access_token c x t0 old)) st2 =
      Inl (HTTPException 401 ''invalid or expired token.'')"
    and "refresh_session c x t1 (Some (create_refresh_token c x t0 old)) st2 = Inl (HTTPException 401 ''not signed in.'')"
proof -
  obtain r2 where "get_interviewer (iv_id old) st2 = Some r2" "iv_token_version r \<le> iv_token_version r2"
    using assms(2,3) unfolding versions_grow_def by blast
  with assms(1,4)
  show "get_current_interviewer c x t1 (Some (create_access_token c x t0 old)) st2 =
      Inl (HTTPException 401 ''invalid or expired token.'')"
    and "refresh_session c x t1 (Some (create_refresh_token c x t0 old)) st2 = Inl (HTTPException 401 ''not signed in.'')"
    by (simp_all add: get_current_interviewer_def refresh_session_def interviewer_from_refresh_def
        session_of_access session_of_refresh)
qed

lemma password_written:
  assumes "get_interviewer i st = Some cur"
  shows "get_interviewer i (write_interviewer (iv_id cur) (set_password x salt p cur) st) =
      Some (set_password x salt p cur cur)"
  using assms get_interviewer_id [OF assms]
  by (subst get_written_account) (simp_all add: set_password_def)

text \<open>
  C11. A password change signs every other device out: once \<open>change_password\<close> has answered, no access
  token and no refresh cookie minted for the account at that version or an earlier one is
  accepted again, at any time and after any further requests to the account routes; the session
  it answers with does work. (The current password is asked for: without it nothing changes.)
\<close>

theorem password_change_signs_out:
  assumes "crypto_lawful x" and "0 < c_jwt_expire_min c" and "get_interviewer i st = Some cur"
    and "iv_id old = i" and "iv_token_version old \<le> iv_token_version cur"
  shows "case change_password c x salt now current_password new_password cur st of
      (Inl e, st') \<Rightarrow> st' = st
    | (Inr session, st') \<Rightarrow>
        (\<forall>ops t0 t1. get_current_interviewer c x t1 (Some (create_access_token c x t0 old)) (perform_accounts c x ops st') =
             Inl (HTTPException 401 ''invalid or expired token.'') \<and>
           refresh_session c x t1 (Some (create_refresh_token c x t0 old)) (perform_accounts c x ops st') =
             Inl (HTTPException 401 ''not signed in.'')) \<and>
        (\<exists>r. get_current_interviewer c x now (Some (is_access_token session)) st' = Inr r \<and> iv_id r = i \<and>
           iv_password_hash r = hash_password x salt new_password)"
proof -
  let ?st1 = "write_interviewer (iv_id cur) (set_password x salt new_password cur) st"
  let ?new = "set_password x salt new_password cur cur"
  have id: "iv_id cur = i" using assms(3) by (rule get_interviewer_id)
  have got: "get_interviewer i ?st1 = Some ?new" using assms(3) by (rule password_written)
  have v: "iv_token_version ?new = iv_token_version cur + 1" "iv_id ?new = i" "iv_password_hash ?new = hash_password x salt new_password"
    by (simp_all add: set_password_def id)
  have "get_current_interviewer c x t1 (Some (create_access_token c x t0 old)) (perform_accounts c x ops ?st1) =
        Inl (HTTPException 401 ''invalid or expired token.'')"
      "refresh_session c x t1 (Some (create_refresh_token c x t0 old)) (perform_accounts c x ops ?st1) =
        Inl (HTTPException 401 ''not signed in.'')" for ops t0 t1
    using old_tokens_closed [OF assms(1) perform_accounts_grow [of ?st1 c x ops], of old ?new] got v assms(4,5) by auto
  moreover have "get_current_interviewer c x now (Some (create_access_token c x now ?new)) ?st1 = Inr ?new"
    using assms(1,2) got v by (simp add: get_current_interviewer_def session_of_access fresh_now minutes_def)
  moreover have "change_password c x salt now current_password new_password cur st =
      (Inr (issue_session c x now ?new), ?st1) \<or>
      (\<exists>e. change_password c x salt now current_password new_password cur st = (Inl e, st))"
    using got by (auto simp: change_password_def guardr_def Let_def id split: sum.split)
  ultimately show ?thesis using v by (auto simp: issue_session_def)
qed

lemma password_change_signs_out_witness:
  "get_current_interviewer default_settings example_crypto 5
     (Some (create_access_token default_settings example_crypto 0 example_account))
     (snd (change_password default_settings example_crypto ''s'' 4 ''old password'' ''a new password'' example_account account_store)) =
   Inl (HTTPException 401 ''invalid or expired token.'')"
proof -
  let ?r = "change_password default_settings example_crypto ''s'' 4 ''old password'' ''a new password'' example_account account_store"
  have "\<exists>s. ?r = (Inr s, snd ?r)"
    by (simp add: change_password_def verify_password_def example_crypto_def example_account_def reject_breached_def
        is_breached_password_def Let_def endswith_def startswith_def get_interviewer_def write_interviewer_def
        account_store_def set_password_def)
  then obtain s where "?r = (Inr s, snd ?r)" ..
  moreover have "0 < c_jwt_expire_min default_settings" by (simp add: default_settings_def)
  ultimately show ?thesis
    using password_change_signs_out [OF example_crypto_lawful _ account_store_get(1) account_store_get(2) order_refl,
        where c = default_settings and salt = "''s''" and now = 4 and current_password = "''old password''"
          and new_password = "''a new password''"]
    by (auto simp: perform_accounts_def split: prod.splits sum.splits dest!: spec [of _ "[]"])
qed

subsection \<open>Emailed links\<close>

lemma link_subject:
  assumes "dict_get cl ''sub'' = JStr (show_int n)"
  shows "subject_of (stamped cl t0 ttl) st = get_interviewer n st"
  using assms by (simp add: subject_of_def dict_get_stamped claim_int_def py_int_show_int)

lemma reset_link:
  assumes "crypto_lawful x"
  shows "interviewer_from_action_token c x now (create_reset_token c x t0 i) ''reset'' st =
    (if fresh_at t0 RESET_TOKEN_TTL now then
       (case get_interviewer (iv_id i) st of None \<Rightarrow> None
        | Some r \<Rightarrow> if hash_fingerprint x (iv_password_hash i) = hash_fingerprint x (iv_password_hash r) then Some r else None)
     else None)"
proof -
  let ?cl = "[(''use'', JStr ''reset''), (''sub'', JStr (show_int (iv_id i))), (''email'', JStr (iv_email i)),
      (''pwd'', JStr (hash_fingerprint x (iv_password_hash i)))]"
  have d: "decode c x now (create_reset_token c x t0 i) ''reset'' =
      (if fresh_at t0 RESET_TOKEN_TTL now then Some (stamped ?cl t0 RESET_TOKEN_TTL) else None)"
    unfolding create_reset_token_def by (subst decode_encode [OF assms]) (simp_all add: dict_get_def)
  have "subject_of (stamped ?cl t0 RESET_TOKEN_TTL) st = get_interviewer (iv_id i) st"
    by (rule link_subject) (simp add: dict_get_def)
  moreover have "dict_get (stamped ?cl t0 RESET_TOKEN_TTL) ''pwd'' = JStr (hash_fingerprint x (iv_password_hash i))"
    by (subst dict_get_stamped) (simp_all add: dict_get_def)
  ultimately show ?thesis
    unfolding interviewer_from_action_token_def d by (cases "get_interviewer (iv_id i) st") simp_all
qed

lemma change_email_link:
  assumes "crypto_lawful x" and "fresh_at t0 VERIFY_TOKEN_TTL now" and "get_interviewer (iv_id i) st = Some r"
    and "iv_email i = iv_email r" and "new_email \<noteq> []"
  shows "change_email_from_token c x now (create_change_email_token c x t0 i new_email) st = Some (r, new_email)"
proof -
  let ?cl = "[(''use'', JStr ''change_email''), (''sub'', JStr (show_int (iv_id i))), (''email'', JStr (iv_email i)),
      (''new'', JStr new_email)]"
  have d: "decode c x now (create_change_email_token c x t0 i new_email) ''change_email'' =
      Some (stamped ?cl t0 VERIFY_TOKEN_TTL)"
    unfolding create_change_email_token_def
    by (subst decode_encode [OF assms(1)]) (simp_all add: dict_get_def assms(2))
  have "subject_of (stamped ?cl t0 VERIFY_TOKEN_TTL) st = get_interviewer (iv_id i) st"
    by (rule link_subject) (simp add: dict_get_def)
  moreover have "dict_get (stamped ?cl t0 VERIFY_TOKEN_TTL) ''email'' = JStr (iv_email i)"
      "dict_get (stamped ?cl t0 VERIFY_TOKEN_TTL) ''new'' = JStr new_email"
    by (subst dict_get_stamped; simp add: dict_get_def)+
  ultimately show ?thesis
    unfolding change_email_from_token_def interviewer_from_action_token_def d using assms(3-5) by simp
qed

text \<open>
  C12. A reset link works once. Within its hour it sets the password and confirms the address, and
  signs every device out: no access token and no refresh cookie minted for the account at its version
  then or an earlier one is accepted again, at any time and after any further requests to the account
  routes. After it neither the link nor any other reset link minted for the old password
  is accepted, whatever its age. (The premise is that the new hash has another
  fingerprint than the old one: bcrypt salts every hash.)
\<close>

theorem reset_link_single_use:
  assumes "crypto_lawful x" and "get_interviewer (iv_id i) st = Some i" and "fresh_at minted RESET_TOKEN_TTL now"
    and "\<not> is_breached_password c x p"
    and "hash_fingerprint x (hash_password x salt p) \<noteq> hash_fingerprint x (iv_password_hash i)"
  shows "case reset_password c x salt now (create_reset_token c x minted i) p st of (r, st') \<Rightarrow>
     r = Inr () \<and>
     (\<exists>new. get_interviewer (iv_id i) st' = Some new \<and> iv_password_hash new = hash_password x salt p \<and>
        iv_email_verified_at new \<noteq> None) \<and>
     (\<forall>t1 salt2 now2 p2. reset_password c x salt2 now2 (create_reset_token c x t1 i) p2 st' =
        (Inl (HTTPException 400 ''invalid or expired reset link.''), st')) \<and>
     (\<forall>old ops t1 t2. iv_id old = iv_id i \<and> iv_token_version old \<le> iv_token_version i \<longrightarrow>
        get_current_interviewer c x t2 (Some (create_access_token c x t1 old)) (perform_accounts c x ops st') =
          Inl (HTTPException 401 ''invalid or expired token.'') \<and>
        refresh_session c x t2 (Some (create_refresh_token c x t1 old)) (perform_accounts c x ops st') =
          Inl (HTTPException 401 ''not signed in.''))"
proof -
  let ?new = "verified_by now (set_password x salt p i i)"
  let ?st1 = "write_interviewer (iv_id i) (\<lambda>r. verified_by now (set_password x salt p i r)) st"
  have run: "reset_password c x salt now (create_reset_token c x minted i) p st = (Inr (), ?st1)"
    using assms(2-4) by (simp add: reset_password_def reset_link [OF assms(1)] reject_breached_def require_def)
  have got: "get_interviewer (iv_id i) ?st1 = Some ?new"
    using assms(2) by (subst get_written_account) (simp_all add: set_password_def verified_by_def)
  have new: "iv_password_hash ?new = hash_password x salt p" "iv_email_verified_at ?new \<noteq> None"
      "iv_token_version i < iv_token_version ?new" "iv_id ?new = iv_id i"
    by (simp_all add: set_password_def verified_by_def)
  have "reset_password c x salt2 now2 (create_reset_token c x t1 i) p2 ?st1 =
      (Inl (HTTPException 400 ''invalid or expired reset link.''), ?st1)" for t1 salt2 now2 p2
    using assms(5) got new(1) by (simp add: reset_password_def reset_link [OF assms(1)])
  moreover have "get_current_interviewer c x t2 (Some (create_access_token c x t1 old)) (perform_accounts c x ops ?st1) =
        Inl (HTTPException 401 ''invalid or expired token.'')"
      "refresh_session c x t2 (Some (create_refresh_token c x t1 old)) (perform_accounts c x ops ?st1) =
        Inl (HTTPException 401 ''not signed in.'')"
    if "iv_id old = iv_id i \<and> iv_token_version old \<le> iv_token_version i" for old ops t1 t2
    using old_tokens_closed [OF assms(1) perform_accounts_grow [of ?st1 c x ops], of old ?new] got new(3,4) that by auto
  ultimately show ?thesis unfolding run prod.case using got new(1,2) by blast
qed

lemma reset_link_single_use_witness:
  "fst (reset_password default_settings example_crypto ''x'' 50
     (create_reset_token default_settings example_crypto 0 example_account) ''second password''
     (snd (reset_password default_settings example_crypto ''s'' 40
       (create_reset_token default_settings example_crypto 0 example_account) ''new password one'' account_store))) =
   Inl (HTTPException 400 ''invalid or expired reset link.'')"
proof -
  have "get_interviewer (iv_id example_account) account_store = Some example_account" by (simp add: account_store_get)
  moreover have "fresh_at 0 RESET_TOKEN_TTL 40"
    by (simp add: fresh_at_def whole_seconds_def RESET_TOKEN_TTL_def minutes_def)
  moreover have "\<not> is_breached_password default_settings example_crypto ''new password one''"
    by (simp add: is_breached_password_def example_crypto_def Let_def)
  moreover have "hash_fingerprint example_crypto (hash_password example_crypto ''s'' ''new password one'') \<noteq>
      hash_fingerprint example_crypto (iv_password_hash example_account)"
    by (simp add: hash_fingerprint_def hash_password_def example_crypto_def example_account_def)
  ultimately show ?thesis
    using reset_link_single_use [OF example_crypto_lawful, where i = example_account and st = account_store and minted = 0
        and now = 40 and c = default_settings and p = "''new password one''" and salt = "''s''"]
    by (simp add: case_prod_beta)
qed

text \<open>
  The other links are bound to the address alone, so a password change does not void them: a
  change-of-address link asked for before the owner changed the password still moves the account.
\<close>

lemma change_email_link_survives:
  assumes "crypto_lawful x" and "fresh_at t0 VERIFY_TOKEN_TTL later" and "get_interviewer i st = Some cur"
    and "new_email \<noteq> []" and "change_password c x salt now current_password p cur st = (Inr s, st')"
  shows "change_email_from_token c x later (create_change_email_token c x t0 cur new_email) st' =
    Some (set_password x salt p cur cur, new_email)"
proof -
  have st': "st' = write_interviewer (iv_id cur) (set_password x salt p cur) st"
    using assms(5) by (auto simp: change_password_def guardr_def Let_def split: sum.splits option.splits)
  have "get_interviewer (iv_id cur) st' = Some (set_password x salt p cur cur)"
    using password_written [OF assms(3)] get_interviewer_id [OF assms(3)] by (simp add: st')
  then show ?thesis using assms(1,2,4) by (intro change_email_link) (simp_all add: set_password_def)
qed

text \<open>
  The version is written as an absolute value, so of two password changes that loaded the same row the
  second does not void the session the first one issued.
\<close>

lemma concurrent_change_keeps_session:
  assumes "crypto_lawful x" and "0 < c_jwt_expire_min c" and "get_interviewer i st = Some cur"
    and "change_password c x salt now pw p cur st = (Inr s, st1)"
    and "change_password c x salt2 now pw p2 cur st1 = (Inr s2, st2)"
  shows "\<exists>r. get_current_interviewer c x now (Some (is_access_token s)) st2 = Inr r \<and>
    iv_password_hash r = hash_password x salt2 p2"
proof -
  let ?f = "set_password x salt p cur" and ?g = "set_password x salt2 p2 cur"
  have id: "iv_id cur = i" using assms(3) by (rule get_interviewer_id)
  have got: "get_interviewer i (write_interviewer (iv_id cur) ?f st) = Some (?f cur)"
    using assms(3) by (rule password_written)
  with assms(4) have s: "st1 = write_interviewer (iv_id cur) ?f st" "s = issue_session c x now (?f cur)"
    by (auto simp: change_password_def guardr_def Let_def id split: sum.splits option.splits)
  have "get_interviewer i (write_interviewer (iv_id cur) ?g st1) = Some (?g (?f cur))"
    unfolding s(1) using got id by (subst get_written_account) (simp_all add: set_password_def)
  moreover have "st2 = write_interviewer (iv_id cur) ?g st1"
    using assms(5) by (auto simp: change_password_def guardr_def Let_def split: sum.splits option.splits)
  ultimately show ?thesis
    using assms(1,2) id
    by (simp add: s(2) issue_session_def get_current_interviewer_def session_of_access fresh_now minutes_def set_password_def)
qed

end
