(* ===== verification/Team.thy ===== *)
theory Team
  imports AccountSafety Privacy
begin

section \<open>Team: organisations, their rosters and the invitations that fill them\<close>

text \<open>
  The organisation routes of \<open>api.py\<close>: founding, joining and leaving an organisation, roles, seats
  and invitations, and the deletion of an account. A transaction that raises before its commit
  leaves the store as it was. \<open>others 0\<close> stands between the checks of a handler and its writes, where
  siblings can commit. Stripe's cancellation in \<open>_purge_org\<close> leaves the store alone whatever it
  answers; what is cancelled is in the theory of payments. The secrets of tokens are arguments.
\<close>

subsection \<open>Deleting an organisation and an account\<close>

definition purge_org_rows :: "int \<Rightarrow> store \<Rightarrow> store" where
  "purge_org_rows org_id st =
    (let ids = set (org_invite_ids org_id st);
         is_question = (\<lambda>i. exists_where (\<lambda>q. q_id q = i \<and> q_org_id q = org_id) (t_questions st));
         is_assessment = (\<lambda>i. exists_where (\<lambda>a. a_id a = i \<and> a_org_id a = org_id) (t_assessments st));
         is_sub = (\<lambda>s. is_question (s_question_id s) \<or>
            (case s_invite_id s of None \<Rightarrow> False | Some i \<Rightarrow> i \<in> ids));
         sub_ids = map s_id (filter is_sub (t_submissions st))
     in st\<lparr>t_results := del_where (\<lambda>r. r_submission_id r \<in> set sub_ids) (t_results st),
           t_submissions := del_where (\<lambda>s. s_id s \<in> set sub_ids) (t_submissions st),
           t_feedback := del_where (\<lambda>f. fb_org_id f = org_id) (t_feedback st),
           t_attempts := del_where (\<lambda>a. at_invite_id a \<in> ids) (t_attempts st),
           t_slot_variants := del_where (\<lambda>r. sv_invite_id r \<in> ids) (t_slot_variants st),
           t_events := del_where (\<lambda>r. ev_invite_id r \<in> ids) (t_events st),
           t_drafts := del_where (\<lambda>r. dr_invite_id r \<in> ids) (t_drafts st),
           t_invites := del_where (\<lambda>v. inv_id v \<in> ids) (t_invites st),
           t_assessment_questions := del_where (\<lambda>r. is_assessment (aq_assessment_id r)) (t_assessment_questions st),
           t_assessments := del_where (\<lambda>a. a_org_id a = org_id) (t_assessments st),
           t_test_cases := del_where (\<lambda>r. is_question (tc_question_id r)) (t_test_cases st),
           t_questions := del_where (\<lambda>q. q_org_id q = org_id) (t_questions st),
           t_variant_sets := del_where (\<lambda>v. vs_org_id v = org_id) (t_variant_sets st),
           t_org_invites := del_where (\<lambda>i. oi_org_id i = org_id) (t_org_invites st),
           t_usage := del_where (\<lambda>u. u_org_id u = org_id) (t_usage st),
           t_assets := del_where (\<lambda>a. as_org_id a = org_id) (t_assets st),
           t_memberships := del_where (\<lambda>m. m_org_id m = org_id) (t_memberships st),
           t_orgs := del_where (\<lambda>g. o_id g = Some org_id) (t_orgs st)\<rparr>)"

definition disown :: "int \<Rightarrow> store \<Rightarrow> store" where
  "disown i st = st\<lparr>
     t_questions := upd_where (\<lambda>r. q_owner_id r = Some i) (\<lambda>r. r\<lparr>q_owner_id := None\<rparr>) (t_questions st),
     t_variant_sets := upd_where (\<lambda>r. vs_owner_id r = Some i) (\<lambda>r. r\<lparr>vs_owner_id := None\<rparr>) (t_variant_sets st),
     t_assessments := upd_where (\<lambda>r. a_owner_id r = Some i) (\<lambda>r. r\<lparr>a_owner_id := None\<rparr>) (t_assessments st),
     t_invites := upd_where (\<lambda>r. inv_created_by r = Some i) (\<lambda>r. r\<lparr>inv_created_by := None\<rparr>) (t_invites st),
     t_org_invites := upd_where (\<lambda>r. oi_invited_by r = Some i) (\<lambda>r. r\<lparr>oi_invited_by := None\<rparr>) (t_org_invites st),
     t_memberships := upd_where (\<lambda>r. m_invited_by r = Some i) (\<lambda>r. r\<lparr>m_invited_by := None\<rparr>) (t_memberships st)\<rparr>"

definition member_count :: "int \<Rightarrow> store \<Rightarrow> nat" where
  "member_count org_id st = count_where (\<lambda>m. m_org_id m = org_id) (t_memberships st)"

definition admin_count :: "int \<Rightarrow> store \<Rightarrow> nat" where
  "admin_count org_id st = count_where (\<lambda>m. m_org_id m = org_id \<and> m_role m = ''admin'') (t_memberships st)"

definition member_of :: "int \<Rightarrow> int \<Rightarrow> store \<Rightarrow> membership option" where
  "member_of org_id i st = first_where (\<lambda>m. m_org_id m = org_id \<and> m_interviewer_id m = i) (t_memberships st)"

definition last_admin_guard :: "int \<Rightarrow> int \<Rightarrow> store \<Rightarrow> exn + unit" where
  "last_admin_guard org_id i st = require
     (\<not> ((case member_of org_id i st of None \<Rightarrow> False | Some m \<Rightarrow> m_role m = ''admin'') \<and> admin_count org_id st \<le> 1))
     (HTTPException 409 ''this is the organisation's only admin; promote someone else first.'')"

definition purge_account :: "int \<Rightarrow> store \<Rightarrow> (unit, store) outcome" where
  "purge_account i st =
    (let gone = (\<lambda>s. (disown i s)\<lparr>t_interviewers := del_where (\<lambda>r. iv_id r = i) (t_interviewers s)\<rparr>);
         leave = (\<lambda>s. s\<lparr>t_memberships := del_where (\<lambda>m. m_interviewer_id m = i) (t_memberships s)\<rparr>)
     in case first_where (\<lambda>m. m_interviewer_id m = i) (t_memberships st) of
          None \<Rightarrow> (Inr (), gone (leave st))
        | Some m \<Rightarrow>
            if exists_where (\<lambda>r. m_org_id r = m_org_id m \<and> m_interviewer_id r \<noteq> i) (t_memberships st)
            then guardr (last_admin_guard (m_org_id m) i st) st (\<lambda>_. (Inr (), gone (leave st)))
            else (Inr (), gone (purge_org_rows (m_org_id m) st)))"

definition delete_me :: "settings \<Rightarrow> crypto \<Rightarrow> string \<Rightarrow> interviewer \<Rightarrow> store \<Rightarrow> (cookie, store) outcome" where
  "delete_me c x password current st =
    guardr (require (verify_password x password (iv_password_hash current))
              (HTTPException 403 ''password is incorrect.'')) st (\<lambda>_.
    bindr (purge_account (iv_id current) st) (\<lambda>_ st1. (Inr (clear_refresh_cookie c), st1)))"

subsection \<open>Founding, joining and leaving\<close>

definition org_key :: "organization \<Rightarrow> int" where
  "org_key g = (case o_id g of None \<Rightarrow> 0 | Some i \<Rightarrow> i)"

text \<open>INSERT of a membership: the database has a unique index on the account.\<close>

definition insert_membership :: "instant \<Rightarrow> int \<Rightarrow> int \<Rightarrow> string \<Rightarrow> int option \<Rightarrow> store \<Rightarrow> exn + (membership \<times> store)" where
  "insert_membership now org_id i role invited_by st =
    (if exists_where (\<lambda>m. m_interviewer_id m = i) (t_memberships st) then Inl IntegrityError
     else let m = \<lparr>m_id = fresh_id m_id (t_memberships st), m_org_id = org_id, m_interviewer_id = i, m_role = role,
                   m_invited_by = invited_by, m_created_at = now\<rparr>
          in Inr (m, st\<lparr>t_memberships := t_memberships st @ [m]\<rparr>))"

definition open_org_invite :: "instant \<Rightarrow> string \<Rightarrow> store \<Rightarrow> exn + org_invite" where
  "open_org_invite now token st =
    (case first_where (\<lambda>r. oi_token r = token) (t_org_invites st) of
       None \<Rightarrow> Inl (HTTPException 404 ''this invitation link is no longer valid.'')
     | Some r \<Rightarrow>
         if oi_accepted_at r \<noteq> None \<or> (case oi_expires_at r of None \<Rightarrow> False | Some e \<Rightarrow> e \<le> now)
         then Inl (HTTPException 404 ''this invitation link is no longer valid.'') else Inr r)"

definition join_org :: "instant \<Rightarrow> int \<Rightarrow> org_invite \<Rightarrow> store \<Rightarrow> exn + (membership \<times> store)" where
  "join_org now i invite st =
    sbind (insert_membership now (oi_org_id invite) i (oi_role invite) (oi_invited_by invite) st) (\<lambda>(m, st1).
      Inr (m, st1\<lparr>t_org_invites := upd_where (\<lambda>r. oi_id r = oi_id invite) (\<lambda>r. r\<lparr>oi_accepted_at := Some now\<rparr>)
                     (t_org_invites st1)\<rparr>))"

definition org_named :: "int \<Rightarrow> string \<Rightarrow> organization" where
  "org_named i name = \<lparr>o_id = Some i, o_name = name, o_logo_sha = None, o_plan = ''free'', o_plan_status = ''active'',
     o_stripe_customer_id = None, o_stripe_subscription_id = None, o_current_period_end = None,
     o_retention_days = None, o_results_webhook_url = None, o_results_webhook_secret = None\<rparr>"

definition found_org :: "instant \<Rightarrow> interviewer \<Rightarrow> string option \<Rightarrow> store \<Rightarrow> exn + (membership \<times> store)" where
  "found_org now i name st =
    (let chosen = py_strip (case name of None \<Rightarrow> [] | Some n \<Rightarrow> n); who = py_strip (iv_name i);
         org_id = fresh_id org_key (t_orgs st);
         org_name = (if chosen \<noteq> [] then chosen
                     else if who \<noteq> [] then who @ [char_of (39 :: nat)] @ ''s organisation'' else ''My organisation'')
     in insert_membership now org_id (iv_id i) ''admin'' None
          (st\<lparr>t_orgs := t_orgs st @ [org_named org_id org_name]\<rparr>))"

text \<open>An organisation may be walked away from when nobody else is in it and nothing was authored in it.\<close>

definition may_leave :: "int \<Rightarrow> store \<Rightarrow> exn + unit" where
  "may_leave org_id st =
    (if 1 < member_count org_id st
     then Inl (HTTPException 409 ''you belong to an organisation with other members; ask one of its admins to remove you first.'')
     else if exists_where (\<lambda>q. q_org_id q = org_id) (t_questions st) \<or>
             exists_where (\<lambda>a. a_org_id a = org_id) (t_assessments st) \<or>
             exists_where (\<lambda>v. vs_org_id v = org_id) (t_variant_sets st)
     then Inl (HTTPException 409
       ''your current organisation still has questions or assessments; they cannot be moved between organisations.'')
     else Inr ())"

record organization_out =
  oo_id :: int
  oo_name :: string
  oo_role :: string
  oo_member_count :: nat
  oo_logo_sha :: "string option"
  oo_retention_days :: "int option"
  oo_results_webhook_url :: "string option"
  oo_results_webhook_secret :: "string option"

definition organization_out_of :: "membership \<Rightarrow> string option \<Rightarrow> store \<Rightarrow> exn + organization_out" where
  "organization_out_of org reveal_secret st =
    sbind (organization_row (m_org_id org) st) (\<lambda>g.
      Inr \<lparr>oo_id = m_org_id org, oo_name = o_name g, oo_role = m_role org, oo_member_count = member_count (m_org_id org) st,
           oo_logo_sha = o_logo_sha g, oo_retention_days = o_retention_days g,
           oo_results_webhook_url = o_results_webhook_url g, oo_results_webhook_secret = reveal_secret\<rparr>)"

record register_in =
  re_email :: string
  re_password :: string
  re_name :: string
  re_registration_code :: "string option"
  re_org_invite_token :: "string option"

text \<open>The truth value of an optional string: the empty string counts as absent.\<close>

definition given :: "string option \<Rightarrow> string option" where
  "given s = (if s = Some [] then None else s)"

definition admission :: "settings \<Rightarrow> instant \<Rightarrow> register_in \<Rightarrow> string \<Rightarrow> store \<Rightarrow> exn + org_invite option" where
  "admission c now body email st =
    (case given (re_org_invite_token body) of
       Some tk \<Rightarrow>
         sbind (open_org_invite now tk st) (\<lambda>invite.
           if oi_email invite \<noteq> email
           then Inl (HTTPException 403 (''this invitation was sent to '' @ py_repr (oi_email invite) @ ''.''))
           else Inr (Some invite))
     | None \<Rightarrow>
         (case c_registration_code c of
            None \<Rightarrow> Inr None
          | Some expected \<Rightarrow> if secret_matches (re_registration_code body) expected then Inr None
              else Inl (HTTPException 403 ''invalid or missing registration code.'')))"

text \<open>The writes of a sign-up: the account, then its seat in the inviting organisation or in one of its own.\<close>

definition enrol :: "crypto \<Rightarrow> string \<Rightarrow> instant \<Rightarrow> register_in \<Rightarrow> string \<Rightarrow> org_invite option \<Rightarrow> store \<Rightarrow>
    exn + (interviewer \<times> store)" where
  "enrol x salt now body email org_invite st =
    (let i = \<lparr>iv_id = fresh_id iv_id (t_interviewers st), iv_email = email,
            iv_password_hash = hash_password x salt (re_password body), iv_name = re_name body,
            iv_token_version = 0, iv_email_verified_at = None\<rparr>;
         st1 = st\<lparr>t_interviewers := t_interviewers st @ [i]\<rparr>
     in if interviewer_by_email email st \<noteq> None then Inl IntegrityError
        else sbind (case org_invite of Some invite \<Rightarrow> join_org now (iv_id i) invite st1
                    | None \<Rightarrow> found_org now i None st1) (\<lambda>(_, st2). Inr (i, st2)))"

definition register :: "settings \<Rightarrow> crypto \<Rightarrow> interference \<Rightarrow> string \<Rightarrow> request \<Rightarrow> register_in \<Rightarrow> store \<Rightarrow>
    (interviewer_out, store) outcome" where
  "register c x others salt rq body st =
    bindr (limit_route c ''register'' (c_register_rate_limit_max c) rq st) (\<lambda>_ st0.
      let email = normalize_email (re_email body) in
      guardr (admission c (rq_now rq) body email st0) st0 (\<lambda>org_invite.
      guardr (require (interviewer_by_email email st0 = None) (email_taken email)) st0 (\<lambda>_.
      guardr (reject_breached c x (re_password body)) st0 (\<lambda>_.
        let st1 = others 0 st0 in
        guardr (enrol x salt (rq_now rq) body email org_invite st1) st1 (\<lambda>(i, st2).
          (Inr (interviewer_out_of i), send_verification c x (rq_now rq) i st2))))))"

definition create_org :: "instant \<Rightarrow> string \<Rightarrow> interviewer \<Rightarrow> store \<Rightarrow> (organization_out, store) outcome" where
  "create_org now name current st =
    guardr (require (membership_for current st = None)
              (HTTPException 409 ''this account already belongs to an organisation.'')) st (\<lambda>_.
    guardr (found_org now current (Some name) st) st (\<lambda>(m, st1).
    guardr (organization_out_of m None st1) st1 (\<lambda>out. (Inr out, st1))))"

text \<open>\<open>update_org\<close>: a field that was not sent is \<open>None\<close>; a nullable one that was sent is \<open>Some\<close> of its value.\<close>

record organization_update =
  ou_name :: "string option"
  ou_retention_days :: "int option option"
  ou_results_webhook_url :: "string option option"

definition set_results_webhook :: "settings \<Rightarrow> 'addr network \<Rightarrow> string \<Rightarrow> organization \<Rightarrow> string option \<Rightarrow>
    exn + (string option \<times> organization)" where
  "set_results_webhook c net new_secret g url =
    (case url of
       None \<Rightarrow> Inr (None, g\<lparr>o_results_webhook_url := None, o_results_webhook_secret := None\<rparr>)
     | Some u \<Rightarrow>
         if o_results_webhook_url g = Some u \<and> given (o_results_webhook_secret g) \<noteq> None then Inr (None, g)
         else (case webhook_url_error c net u of
             Some e \<Rightarrow> Inl (HTTPException 422 e)
           | None \<Rightarrow> Inr (Some new_secret,
               g\<lparr>o_results_webhook_url := Some u, o_results_webhook_secret := Some new_secret\<rparr>)))"

definition write_org :: "int \<Rightarrow> organization \<Rightarrow> store \<Rightarrow> store" where
  "write_org org_id g st = st\<lparr>t_orgs := upd_where (\<lambda>r. o_id r = Some org_id) (\<lambda>_. g) (t_orgs st)\<rparr>"

definition update_org :: "settings \<Rightarrow> 'addr network \<Rightarrow> string \<Rightarrow> organization_update \<Rightarrow> membership \<Rightarrow> store \<Rightarrow>
    (organization_out, store) outcome" where
  "update_org c net new_secret body org st =
    guardr (require_admin org) st (\<lambda>_.
    guardr (organization_row (m_org_id org) st) st (\<lambda>g.
      let g1 = (case ou_name body of None \<Rightarrow> g | Some n \<Rightarrow> g\<lparr>o_name := py_strip n\<rparr>);
          g2 = (case ou_retention_days body of None \<Rightarrow> g1 | Some d \<Rightarrow> g1\<lparr>o_retention_days := d\<rparr>)
      in guardr (case ou_results_webhook_url body of None \<Rightarrow> Inr (None, g2)
                 | Some u \<Rightarrow> set_results_webhook c net new_secret g2 u) st (\<lambda>(minted, g3).
           let st1 = write_org (m_org_id org) g3 st in
           guardr (organization_out_of org minted st1) st1 (\<lambda>out. (Inr out, st1)))))"

subsection \<open>The roster\<close>

datatype org_role = Admin | Member

fun role_text :: "org_role \<Rightarrow> string" where
  "role_text Admin = ''admin''"
| "role_text Member = ''member''"

record member_out =
  mo_interviewer_id :: int
  mo_email :: string
  mo_name :: string
  mo_role :: string
  mo_joined_at :: instant

definition member_out_of :: "membership \<Rightarrow> interviewer \<Rightarrow> member_out" where
  "member_out_of m i = \<lparr>mo_interviewer_id = iv_id i, mo_email = iv_email i, mo_name = iv_name i, mo_role = m_role m,
     mo_joined_at = m_created_at m\<rparr>"

definition list_members :: "membership \<Rightarrow> store \<Rightarrow> member_out list" where
  "list_members org st = concat (map (\<lambda>m. case get_interviewer (m_interviewer_id m) st of
       None \<Rightarrow> [] | Some i \<Rightarrow> [member_out_of m i])
     (sort_key m_created_at (filter (\<lambda>m. m_org_id m = m_org_id org) (t_memberships st))))"

definition no_such_member :: exn where
  "no_such_member = HTTPException 404 ''no such member of this organisation.''"

text \<open>An ORM UPDATE or DELETE whose row has gone raises.\<close>

definition stale_row :: exn where
  "stale_row = RuntimeError ''StaleDataError''"

definition update_member_role :: "interference \<Rightarrow> int \<Rightarrow> org_role \<Rightarrow> membership \<Rightarrow> store \<Rightarrow> (member_out, store) outcome" where
  "update_member_role others i role org st =
    guardr (require_admin org) st (\<lambda>_.
    case member_of (m_org_id org) i st of
      None \<Rightarrow> (Inl no_such_member, st)
    | Some m \<Rightarrow>
        guardr (if role = Admin then Inr () else last_admin_guard (m_org_id org) i st) st (\<lambda>_.
          let st1 = others 0 st;
              st2 = st1\<lparr>t_memberships := upd_where (\<lambda>r. m_id r = m_id m) (\<lambda>r. r\<lparr>m_role := role_text role\<rparr>) (t_memberships st1)\<rparr>
          in if \<not> exists_where (\<lambda>r. m_id r = m_id m) (t_memberships st1) then (Inl stale_row, st1)
             else (case get_interviewer i st2 of
                 None \<Rightarrow> (Inl (HTTPException 500 ''member row is missing.''), st2)
               | Some iv \<Rightarrow> (Inr ((member_out_of m iv)\<lparr>mo_interviewer_id := i, mo_role := role_text role\<rparr>), st2))))"

definition remove_member :: "interference \<Rightarrow> int \<Rightarrow> membership \<Rightarrow> store \<Rightarrow> (unit, store) outcome" where
  "remove_member others i org st =
    guardr (require_admin org) st (\<lambda>_.
    case member_of (m_org_id org) i st of
      None \<Rightarrow> (Inl no_such_member, st)
    | Some m \<Rightarrow>
        guardr (last_admin_guard (m_org_id org) i st) st (\<lambda>_.
          let st1 = others 0 st
          in if \<not> exists_where (\<lambda>r. m_id r = m_id m) (t_memberships st1) then (Inl stale_row, st1)
             else (Inr (), st1\<lparr>t_memberships := del_where (\<lambda>r. m_id r = m_id m) (t_memberships st1)\<rparr>)))"

subsection \<open>Invitations\<close>

definition ORG_INVITE_TTL :: int where
  "ORG_INVITE_TTL = days_us 7"

definition pending_invites :: "instant \<Rightarrow> int \<Rightarrow> store \<Rightarrow> org_invite list" where
  "pending_invites now org_id st = filter (\<lambda>r. oi_org_id r = org_id \<and> oi_accepted_at r = None \<and>
     (case oi_expires_at r of None \<Rightarrow> True | Some e \<Rightarrow> e > now)) (t_org_invites st)"

definition seats_used :: "instant \<Rightarrow> int \<Rightarrow> store \<Rightarrow> nat" where
  "seats_used now org_id st = member_count org_id st + length (pending_invites now org_id st)"

definition check_seat_capacity :: "settings \<Rightarrow> instant \<Rightarrow> membership \<Rightarrow> store \<Rightarrow> exn + unit" where
  "check_seat_capacity c now org st =
    (if \<not> c_billing_enforced c then Inr ()
     else sbind (organization_row (m_org_id org) st) (\<lambda>g.
          sbind (remaining now g Seats (Some (int (seats_used now (m_org_id org) st))) st) (\<lambda>left.
            require (0 < left) (quota_error g Seats None))))"

record org_invite_out =
  oio_id :: int
  oio_email :: string
  oio_role :: string
  oio_url :: string
  oio_expires_at :: "instant option"
  oio_accepted_at :: "instant option"
  oio_sent :: bool
  oio_error :: "string option"

definition org_invite_url :: "settings \<Rightarrow> string \<Rightarrow> string" where
  "org_invite_url c token = c_frontend_base_url c @ ''/join?token='' @ token"

definition org_invite_out_of :: "settings \<Rightarrow> org_invite \<Rightarrow> org_invite_out" where
  "org_invite_out_of c r = \<lparr>oio_id = oi_id r, oio_email = oi_email r, oio_role = oi_role r,
     oio_url = org_invite_url c (oi_token r), oio_expires_at = oi_expires_at r, oio_accepted_at = oi_accepted_at r,
     oio_sent = oi_sent r, oio_error = oi_send_error r\<rparr>"

text \<open>Sorted by age, newest first.\<close>

definition list_org_invites :: "settings \<Rightarrow> membership \<Rightarrow> store \<Rightarrow> exn + org_invite_out list" where
  "list_org_invites c org st = sbind (require_admin org) (\<lambda>_.
     Inr (map (org_invite_out_of c) (sort_key (\<lambda>r. - oi_created_at r)
       (filter (\<lambda>r. oi_org_id r = m_org_id org \<and> oi_accepted_at r = None) (t_org_invites st)))))"

text \<open>
  The invitation is committed, then mailed; the outcome of the mail (\<open>mailer\<close>: sent, error) is
  committed after it.
\<close>

definition create_org_invite :: "settings \<Rightarrow> (string \<Rightarrow> string \<Rightarrow> bool \<times> string option) \<Rightarrow> instant \<Rightarrow> string \<Rightarrow> string \<Rightarrow> org_role \<Rightarrow>
    interviewer \<Rightarrow> membership \<Rightarrow> store \<Rightarrow> (org_invite_out, store) outcome" where
  "create_org_invite c mailer now token body_email role current org st =
    guardr (require_admin org) st (\<lambda>_.
    let email = normalize_email body_email; org_id = m_org_id org in
    guardr (require (\<not> exists_where (\<lambda>m. m_org_id m = org_id \<and>
               (case get_interviewer (m_interviewer_id m) st of None \<Rightarrow> False | Some i \<Rightarrow> iv_email i = email)) (t_memberships st))
              (HTTPException 409 (py_repr email @ '' is already a member of this organisation.''))) st (\<lambda>_.
    let st1 = st\<lparr>t_org_invites := del_where (\<lambda>r. oi_org_id r = org_id \<and> oi_email r = email \<and> oi_accepted_at r = None)
                    (t_org_invites st)\<rparr> in
    guardr (check_seat_capacity c now org st1) st (\<lambda>_.
    guardr (organization_row org_id st1) st (\<lambda>_.
    if exists_where (\<lambda>r. oi_token r = token) (t_org_invites st1) then (Inl IntegrityError, st)
    else
      let row = \<lparr>oi_id = fresh_id oi_id (t_org_invites st1), oi_org_id = org_id, oi_token = token, oi_email = email,
            oi_role = role_text role, oi_invited_by = Some (iv_id current), oi_expires_at = Some (now + ORG_INVITE_TTL),
            oi_accepted_at = None, oi_sent = True, oi_send_error = None, oi_created_at = now\<rparr>;
          delivery = mailer email (org_invite_url c token);
          sent_row = row\<lparr>oi_sent := fst delivery, oi_send_error := snd delivery\<rparr>
      in (Inr (org_invite_out_of c sent_row),
          st1\<lparr>t_org_invites := t_org_invites st1 @ [sent_row]\<rparr>)))))"

definition revoke_org_invite :: "int \<Rightarrow> membership \<Rightarrow> store \<Rightarrow> (unit, store) outcome" where
  "revoke_org_invite i org st =
    guardr (require_admin org) st (\<lambda>_.
    case first_where (\<lambda>r. oi_id r = i) (t_org_invites st) of
      None \<Rightarrow> (Inl (HTTPException 404 ''no pending invitation with that id.''), st)
    | Some r \<Rightarrow>
        if oi_org_id r \<noteq> m_org_id org \<or> oi_accepted_at r \<noteq> None
        then (Inl (HTTPException 404 ''no pending invitation with that id.''), st)
        else (Inr (), st\<lparr>t_org_invites := del_where (\<lambda>r. oi_id r = i) (t_org_invites st)\<rparr>))"

record org_invite_public_out =
  op_org_name :: string
  op_email :: string
  op_role :: string

definition read_org_invite :: "settings \<Rightarrow> request \<Rightarrow> string \<Rightarrow> store \<Rightarrow> (org_invite_public_out, store) outcome" where
  "read_org_invite c rq token st =
    bindr (limit_route c ''org-invite'' (c_login_rate_limit_max c) rq st) (\<lambda>_ st0.
    guardr (open_org_invite (rq_now rq) token st0) st0 (\<lambda>r.
      (Inr \<lparr>op_org_name = (case get_org (oi_org_id r) st0 of None \<Rightarrow> ''an organisation'' | Some g \<Rightarrow> o_name g),
            op_email = oi_email r, op_role = oi_role r\<rparr>, st0)))"

definition accept_org_invite :: "settings \<Rightarrow> interference \<Rightarrow> instant \<Rightarrow> string \<Rightarrow> interviewer \<Rightarrow> store \<Rightarrow>
    (organization_out, store) outcome" where
  "accept_org_invite c others now token current st =
    guardr (open_org_invite now token st) st (\<lambda>invite.
    guardr (require (normalize_email (iv_email current) = oi_email invite) (HTTPException 403
              (''this invitation was sent to '' @ py_repr (oi_email invite) @ ''; sign in as that address.''))) st (\<lambda>_.
    let existing = membership_for current st; org_id = oi_org_id invite in
    guardr (require (\<not> (case existing of None \<Rightarrow> False | Some m \<Rightarrow> m_org_id m = org_id))
              (HTTPException 409 ''you are already a member of this organisation.'')) st (\<lambda>_.
    guardr (organization_row org_id st) st (\<lambda>g.
    guardr (if \<not> c_billing_enforced c then Inr ()
            else sbind (remaining now g Seats (Some (int (member_count org_id st))) st) (\<lambda>left.
              require (0 < left) (HTTPException 409
                ''this organisation has no seat available; ask an admin to upgrade its plan and invite you again.''))) st (\<lambda>_.
    guardr (case existing of None \<Rightarrow> Inr () | Some m \<Rightarrow> may_leave (m_org_id m) st) st (\<lambda>_.
      let st1 = others 0 st;
          st2 = (case existing of None \<Rightarrow> st1 | Some m \<Rightarrow> purge_org_rows (m_org_id m) st1)
      in guardr (join_org now (iv_id current) invite st2) st1 (\<lambda>(m, st3).
         guardr (organization_out_of m None st3) st3 (\<lambda>out. (Inr out, st3)))))))))"

end
