(* ===== verification/TeamSafety.thy ===== *)
theory TeamSafety
  imports Team
begin

section \<open>TeamSafety: nobody is stranded, and no seat is handed out twice\<close>

text \<open>
  The roster as a state machine: \<open>roster_op\<close> lists the requests that move it, \<open>perform_roster\<close> runs one
  as its handler does, with the caller's account and membership loaded from the store. The invariant
  \<open>roster_ok\<close> is kept by every request; the bound on seats likewise. Both are about requests that do not
  overlap: the guard of the last admin is a read before a write, and two overlapping requests do get past it.
\<close>

subsection \<open>The invariant\<close>

definition governed :: "int \<Rightarrow> store \<Rightarrow> bool" where
  "governed org_id st = exists_where (\<lambda>m. m_org_id m = org_id \<and> m_role m = ''admin'') (t_memberships st)"

definition role_ok :: "string \<Rightarrow> bool" where
  "role_ok r = (r \<in> {''admin'', ''member''})"

definition member_ok :: "store \<Rightarrow> membership \<Rightarrow> bool" where
  "member_ok st m = (governed (m_org_id m) st \<and> get_org (m_org_id m) st \<noteq> None \<and>
     get_interviewer (m_interviewer_id m) st \<noteq> None \<and> role_ok (m_role m))"

definition invitation_ok :: "store \<Rightarrow> org_invite \<Rightarrow> bool" where
  "invitation_ok st r = (governed (oi_org_id r) st \<and> role_ok (oi_role r))"

definition roster_ok :: "store \<Rightarrow> bool" where
  "roster_ok st = (unique_key m_id (t_memberships st) \<and> unique_key m_interviewer_id (t_memberships st) \<and>
     list_all (member_ok st) (t_memberships st) \<and> list_all (invitation_ok st) (t_org_invites st))"

lemma role_ok_simps [simp]: "role_ok ''admin''" "role_ok ''member''" "role_ok (role_text r)"
  by (simp_all add: role_ok_def) (cases r; simp)

lemma governed_iff: "governed org_id st \<longleftrightarrow> (\<exists>m\<in>set (t_memberships st). m_org_id m = org_id \<and> m_role m = ''admin'')"
  by (simp add: governed_def table_simps)

lemma governed_count: "governed org_id st \<longleftrightarrow> 0 < admin_count org_id st"
  by (simp add: governed_iff admin_count_def count_where_pos)

lemma roster_memberD: "roster_ok st \<Longrightarrow> m \<in> set (t_memberships st) \<Longrightarrow> member_ok st m"
  by (simp add: roster_ok_def list_all_iff)

lemma roster_invitationD: "roster_ok st \<Longrightarrow> r \<in> set (t_org_invites st) \<Longrightarrow> invitation_ok st r"
  by (simp add: roster_ok_def list_all_iff)

lemma roster_cong:
  assumes "t_memberships st' = t_memberships st" and "t_org_invites st' = t_org_invites st"
    and "\<And>i. get_org i st \<noteq> None \<Longrightarrow> get_org i st' \<noteq> None"
    and "\<And>i. get_interviewer i st \<noteq> None \<Longrightarrow> get_interviewer i st' \<noteq> None" and "roster_ok st"
  shows "roster_ok st'"
  using assms unfolding roster_ok_def list_all_iff member_ok_def invitation_ok_def governed_def by auto

text \<open>A request that only removes keeps the invariant when what stays is still governed.\<close>

lemma roster_shrinks:
  assumes "roster_ok st" and "t_memberships st' = del_where p (t_memberships st)"
    and "set (t_org_invites st') \<subseteq> set (t_org_invites st)"
    and "\<And>m. m \<in> set (t_memberships st) \<Longrightarrow> \<not> p m \<Longrightarrow> governed (m_org_id m) st' \<and>
       get_org (m_org_id m) st' \<noteq> None \<and> get_interviewer (m_interviewer_id m) st' \<noteq> None"
    and "\<And>r. r \<in> set (t_org_invites st') \<Longrightarrow> governed (oi_org_id r) st'"
  shows "roster_ok st'"
proof -
  have "member_ok st' m" if "m \<in> set (t_memberships st')" for m
    using that assms(4) [of m] roster_memberD [OF assms(1), of m] by (simp add: assms(2) member_ok_def)
  moreover have "invitation_ok st' r" if "r \<in> set (t_org_invites st')" for r
    using that assms(3,5) roster_invitationD [OF assms(1), of r] by (auto simp: invitation_ok_def)
  ultimately show ?thesis
    using assms(1) by (simp add: roster_ok_def list_all_iff assms(2) unique_key_del)
qed

text \<open>One more member, of an organisation that is governed or whose admin they become.\<close>

lemma roster_grows:
  assumes "roster_ok st" and "insert_membership now org_id i role invited_by st = Inr (m, st')"
    and "governed org_id st \<or> role = ''admin''" and "get_org org_id st \<noteq> None" and "get_interviewer i st \<noteq> None"
    and "role_ok role"
  shows "roster_ok st'"
proof -
  have new: "\<not> exists_where (\<lambda>m. m_interviewer_id m = i) (t_memberships st)"
    and m: "m = \<lparr>m_id = fresh_id m_id (t_memberships st), m_org_id = org_id, m_interviewer_id = i, m_role = role,
         m_invited_by = invited_by, m_created_at = now\<rparr>"
    and st': "st' = st\<lparr>t_memberships := t_memberships st @ [m]\<rparr>"
    using assms(2) by (auto simp: insert_membership_def Let_def split: if_splits)
  have g: "governed o' st'" if "governed o' st \<or> o' = org_id \<and> role = ''admin''" for o'
    using that by (auto simp: governed_iff st' m)
  have keep: "member_ok st' r" if "member_ok st r" for r
    using that g by (auto simp: member_ok_def st' get_org_def get_interviewer_def)
  have "member_ok st' m"
    using assms(3-6) g by (auto simp: member_ok_def st' m get_org_def get_interviewer_def)
  moreover have "invitation_ok st' r" if "invitation_ok st r" for r
    using that g by (auto simp: invitation_ok_def)
  moreover have "unique_key m_id (t_memberships st')" "unique_key m_interviewer_id (t_memberships st')"
    using assms(1) new fresh_id_notin [of m_id "t_memberships st"]
    by (auto simp: roster_ok_def st' m unique_key_append table_simps)
  ultimately show ?thesis
    using assms(1) keep by (auto simp: roster_ok_def st' list_all_iff)
qed

subsection \<open>The requests\<close>

datatype roster_op =
    RRegister string request register_in
  | RDelete string int
  | RCreateOrg instant string int
  | RRole int int org_role
  | RRemove int int
  | RInvite instant string string org_role int
  | RRevoke int int
  | RAccept instant string int

text \<open>\<open>get_current_membership\<close> on the account \<open>i\<close>: without one the request is refused.\<close>

definition as_member :: "int \<Rightarrow> (interviewer \<Rightarrow> membership \<Rightarrow> store \<Rightarrow> store) \<Rightarrow> store \<Rightarrow> store" where
  "as_member i k = signed_in i (\<lambda>r st. case get_current_membership r st of Inl _ \<Rightarrow> st | Inr m \<Rightarrow> k r m st)"

fun perform_roster :: "settings \<Rightarrow> crypto \<Rightarrow> (string \<Rightarrow> string \<Rightarrow> bool \<times> string option) \<Rightarrow> roster_op \<Rightarrow> store \<Rightarrow> store" where
  "perform_roster c x mailer (RRegister salt rq body) st = snd (register c x alone salt rq body st)"
| "perform_roster c x mailer (RDelete password i) st = signed_in i (\<lambda>r s. snd (delete_me c x password r s)) st"
| "perform_roster c x mailer (RCreateOrg now name i) st = signed_in i (\<lambda>r s. snd (create_org now name r s)) st"
| "perform_roster c x mailer (RRole caller i role) st =
     as_member caller (\<lambda>_ org s. snd (update_member_role alone i role org s)) st"
| "perform_roster c x mailer (RRemove caller i) st = as_member caller (\<lambda>_ org s. snd (remove_member alone i org s)) st"
| "perform_roster c x mailer (RInvite now token email role caller) st =
     as_member caller (\<lambda>r org s. snd (create_org_invite c mailer now token email role r org s)) st"
| "perform_roster c x mailer (RRevoke i caller) st = as_member caller (\<lambda>_ org s. snd (revoke_org_invite i org s)) st"
| "perform_roster c x mailer (RAccept now token i) st =
     signed_in i (\<lambda>r s. snd (accept_org_invite c alone now token r s)) st"

definition perform_rosters :: "settings \<Rightarrow> crypto \<Rightarrow> (string \<Rightarrow> string \<Rightarrow> bool \<times> string option) \<Rightarrow> roster_op list \<Rightarrow> store \<Rightarrow> store" where
  "perform_rosters c x mailer ops st = fold (perform_roster c x mailer) ops st"

subsection \<open>Every request keeps the invariant\<close>

lemma member_ofD:
  "member_of org_id i st = Some m \<Longrightarrow> m \<in> set (t_memberships st) \<and> m_org_id m = org_id \<and> m_interviewer_id m = i"
  unfolding member_of_def by (auto dest: find_SomeD)

lemma membership_forD:
  "membership_for r st = Some m \<Longrightarrow> m \<in> set (t_memberships st) \<and> m_interviewer_id m = iv_id r"
  unfolding membership_for_def by (auto dest: find_SomeD)

lemma signed_in_keeps:
  assumes "P st" and "\<And>r. get_interviewer i st = Some r \<Longrightarrow> P (k r st)"
  shows "P (signed_in i k st)"
  using assms by (auto simp: signed_in_def split: option.split)

lemma as_member_keeps:
  assumes "P st" and "\<And>r m. get_interviewer i st = Some r \<Longrightarrow> m \<in> set (t_memberships st) \<Longrightarrow> P (k r m st)"
  shows "P (as_member i k st)"
  unfolding as_member_def
  by (rule signed_in_keeps [where P = P])
    (use assms in \<open>auto simp: get_current_membership_def dest: membership_forD split: option.split\<close>)

lemma another_admin:
  assumes "roster_ok st" and "member_of org_id i st = Some m" and "last_admin_guard org_id i st = Inr ()"
  shows "\<exists>a\<in>set (t_memberships st). m_org_id a = org_id \<and> m_role a = ''admin'' \<and> m_id a \<noteq> m_id m"
proof (cases "m_role m = ''admin''")
  case True
  then have "1 < admin_count org_id st" using assms(2,3) by (simp add: last_admin_guard_def)
  then show ?thesis
    using count_two_keys [of m_id "t_memberships st" _ "m_id m"] assms(1)
    by (auto simp: roster_ok_def admin_count_def)
next
  case False
  have m: "m \<in> set (t_memberships st)" "m_org_id m = org_id" using member_ofD [OF assms(2)] by auto
  then have "governed org_id st" using roster_memberD [OF assms(1)] by (auto simp: member_ok_def)
  then obtain a where a: "a \<in> set (t_memberships st)" "m_org_id a = org_id" "m_role a = ''admin''"
    by (auto simp: governed_iff)
  moreover have "m_id a \<noteq> m_id m"
    using unique_keyD [of m_id "t_memberships st" a m] assms(1) a m False by (auto simp: roster_ok_def)
  ultimately show ?thesis by blast
qed

lemma role_keeps:
  assumes "roster_ok st"
  shows "roster_ok (snd (update_member_role alone i role org st))"
proof (cases "m_role org = ''admin'' \<and> (\<exists>m. member_of (m_org_id org) i st = Some m) \<and>
    (role = Admin \<or> last_admin_guard (m_org_id org) i st = Inr ())")
  case False
  then have "snd (update_member_role alone i role org st) = st"
    by (auto simp: update_member_role_def require_admin_def guardr_def require_def last_admin_guard_def split: option.split)
  with assms show ?thesis by simp
next
  case True
  then obtain m where m: "member_of (m_org_id org) i st = Some m" by blast
  have in_m: "m \<in> set (t_memberships st)" "m_org_id m = m_org_id org" using member_ofD [OF m] by auto
  let ?f = "\<lambda>r. r\<lparr>m_role := role_text role\<rparr>" and ?p = "\<lambda>r. m_id r = m_id m"
  let ?st = "st\<lparr>t_memberships := upd_where ?p ?f (t_memberships st)\<rparr>"
  have res: "snd (update_member_role alone i role org st) = ?st"
    using True m in_m by (auto simp: update_member_role_def require_admin_def Let_def alone_simp table_simps split: option.split)
  have gov: "governed o' ?st" if "governed o' st" for o'
  proof (cases "o' = m_org_id org")
    case False
    then show ?thesis
      using that in_m unique_keyD [of m_id "t_memberships st" _ m] assms
      by (fastforce simp: governed_iff in_upd_where roster_ok_def)
  next
    case o: True
    show ?thesis
    proof (cases "role = Admin")
      case True
      then have "?f m \<in> set (t_memberships ?st)" using in_m by (auto simp: in_upd_where)
      with True o in_m show ?thesis unfolding governed_iff by (intro bexI [of _ "?f m"]) simp_all
    next
      case False
      then obtain a where "a \<in> set (t_memberships st)" "m_org_id a = o'" "m_role a = ''admin''" "m_id a \<noteq> m_id m"
        using another_admin [OF assms m] True o by auto
      then show ?thesis unfolding governed_iff by (intro bexI [of _ a]) (auto simp: in_upd_where)
    qed
  qed
  have "member_ok ?st r" if r: "r \<in> set (t_memberships ?st)" for r
  proof -
    obtain r0 where r0: "r0 \<in> set (t_memberships st)" "r = (if ?p r0 then ?f r0 else r0)"
      using r by (auto simp: in_upd_where)
    then have "member_ok st r0" using roster_memberD [OF assms] by blast
    with r0(2) gov show ?thesis by (auto simp: member_ok_def get_org_def get_interviewer_def)
  qed
  moreover have "unique_key m_id (t_memberships ?st)" "unique_key m_interviewer_id (t_memberships ?st)"
    using assms by (simp_all add: roster_ok_def unique_key_upd)
  moreover have "invitation_ok ?st r" if "r \<in> set (t_org_invites ?st)" for r
    using that roster_invitationD [OF assms, of r] gov by (auto simp: invitation_ok_def)
  ultimately show ?thesis unfolding res by (simp add: roster_ok_def list_all_iff)
qed

lemma remove_keeps:
  assumes "roster_ok st"
  shows "roster_ok (snd (remove_member alone i org st))"
proof (cases "m_role org = ''admin'' \<and> (\<exists>m. member_of (m_org_id org) i st = Some m) \<and>
    last_admin_guard (m_org_id org) i st = Inr ()")
  case False
  then have "snd (remove_member alone i org st) = st"
    by (auto simp: remove_member_def require_admin_def guardr_def require_def last_admin_guard_def split: option.split)
  with assms show ?thesis by simp
next
  case True
  then obtain m where m: "member_of (m_org_id org) i st = Some m" by blast
  have in_m: "m \<in> set (t_memberships st)" "m_org_id m = m_org_id org" using member_ofD [OF m] by auto
  let ?p = "\<lambda>r. m_id r = m_id m"
  let ?st = "st\<lparr>t_memberships := del_where ?p (t_memberships st)\<rparr>"
  have res: "snd (remove_member alone i org st) = ?st"
    using True m in_m by (auto simp: remove_member_def require_admin_def Let_def alone_simp table_simps)
  obtain a where a: "a \<in> set (t_memberships st)" "m_org_id a = m_org_id org" "m_role a = ''admin''" "m_id a \<noteq> m_id m"
    using another_admin [OF assms m] True by blast
  have gov: "governed o' ?st" if "governed o' st" for o'
  proof (cases "o' = m_org_id org")
    case True
    with a show ?thesis by (auto simp: governed_iff)
  next
    case False
    then show ?thesis
      using that in_m unique_keyD [of m_id "t_memberships st" _ m] assms
      by (fastforce simp: governed_iff roster_ok_def)
  qed
  show ?thesis
    unfolding res
    by (rule roster_shrinks [OF assms, where p = ?p])
      (use gov roster_memberD [OF assms] roster_invitationD [OF assms] in
        \<open>auto simp: member_ok_def invitation_ok_def get_org_def get_interviewer_def\<close>)
qed

text \<open>Deleting rows.\<close>

lemma purge_org_rows_simps [simp]:
  "t_memberships (purge_org_rows org_id st) = del_where (\<lambda>m. m_org_id m = org_id) (t_memberships st)"
  "t_org_invites (purge_org_rows org_id st) = del_where (\<lambda>r. oi_org_id r = org_id) (t_org_invites st)"
  "t_interviewers (purge_org_rows org_id st) = t_interviewers st"
  "t_orgs (purge_org_rows org_id st) = del_where (\<lambda>g. o_id g = Some org_id) (t_orgs st)"
  by (simp_all add: purge_org_rows_def Let_def)

lemma purge_org_gets [simp]:
  "get_interviewer i (purge_org_rows org_id st) = get_interviewer i st"
  "o' \<noteq> org_id \<Longrightarrow> get_org o' (purge_org_rows org_id st) = get_org o' st"
proof -
  show "get_interviewer i (purge_org_rows org_id st) = get_interviewer i st" by (simp add: get_interviewer_def)
  show "get_org o' (purge_org_rows org_id st) = get_org o' st" if "o' \<noteq> org_id"
    unfolding get_org_def purge_org_rows_simps by (rule find_del_where) (use that in auto)
qed

lemma governed_purged: "o' \<noteq> org_id \<Longrightarrow> governed o' (purge_org_rows org_id st) = governed o' st"
  by (auto simp: governed_iff)

lemma purge_org_keeps:
  assumes "roster_ok st"
  shows "roster_ok (purge_org_rows org_id st)"
  by (rule roster_shrinks [OF assms, where p = "\<lambda>m. m_org_id m = org_id"])
    (use roster_memberD [OF assms] roster_invitationD [OF assms] in
      \<open>auto simp: governed_purged member_ok_def invitation_ok_def\<close>)

lemma disown_keeps:
  assumes "roster_ok st"
  shows "roster_ok (disown i st)"
proof -
  have mem: "t_memberships (disown i st) = upd_where (\<lambda>r. m_invited_by r = Some i) (\<lambda>r. r\<lparr>m_invited_by := None\<rparr>) (t_memberships st)"
    and inv: "t_org_invites (disown i st) = upd_where (\<lambda>r. oi_invited_by r = Some i) (\<lambda>r. r\<lparr>oi_invited_by := None\<rparr>) (t_org_invites st)"
    by (simp_all add: disown_def)
  have gov: "governed o' (disown i st)" if "governed o' st" for o'
    using that unfolding governed_iff mem
    by (elim bexE) (rename_tac m, rule_tac x = "if m_invited_by m = Some i then m\<lparr>m_invited_by := None\<rparr> else m" in bexI,
        auto simp: in_upd_where)
  have gets: "get_org o' (disown i st) = get_org o' st" "get_interviewer j (disown i st) = get_interviewer j st" for o' j
    by (simp_all add: get_org_def get_interviewer_def disown_def)
  have "member_ok (disown i st) m" if "m \<in> set (t_memberships (disown i st))" for m
  proof -
    obtain m0 where "m0 \<in> set (t_memberships st)" "m = (if m_invited_by m0 = Some i then m0\<lparr>m_invited_by := None\<rparr> else m0)"
      using \<open>m \<in> set (t_memberships (disown i st))\<close> by (auto simp: mem in_upd_where)
    with roster_memberD [OF assms] gov show ?thesis by (auto simp: member_ok_def gets)
  qed
  moreover have "invitation_ok (disown i st) r" if "r \<in> set (t_org_invites (disown i st))" for r
  proof -
    obtain r0 where "r0 \<in> set (t_org_invites st)" "r = (if oi_invited_by r0 = Some i then r0\<lparr>oi_invited_by := None\<rparr> else r0)"
      using \<open>r \<in> set (t_org_invites (disown i st))\<close> by (auto simp: inv in_upd_where)
    with roster_invitationD [OF assms] gov show ?thesis by (auto simp: invitation_ok_def)
  qed
  ultimately show ?thesis
    using assms by (simp add: roster_ok_def list_all_iff mem unique_key_upd)
qed

lemma disown_members: "m_interviewer_id ` set (t_memberships (disown i st)) = m_interviewer_id ` set (t_memberships st)"
proof -
  have "map m_interviewer_id (t_memberships (disown i st)) = map m_interviewer_id (t_memberships st)"
    by (simp add: disown_def map_upd_where)
  then show ?thesis by (metis set_map)
qed

lemma gone_keeps:
  assumes "roster_ok st" and "i \<notin> m_interviewer_id ` set (t_memberships st)"
  shows "roster_ok ((disown i st)\<lparr>t_interviewers := del_where (\<lambda>r. iv_id r = i) (t_interviewers st)\<rparr>)"
proof -
  let ?s = "disown i st"
  have ok: "roster_ok ?s" using assms(1) by (rule disown_keeps)
  have "get_interviewer j (?s\<lparr>t_interviewers := del_where (\<lambda>r. iv_id r = i) (t_interviewers st)\<rparr>) = get_interviewer j ?s"
    if "j \<noteq> i" for j
  proof -
    have "first_where (\<lambda>r. iv_id r = j) (del_where (\<lambda>r. iv_id r = i) (t_interviewers st)) =
        first_where (\<lambda>r. iv_id r = j) (t_interviewers st)"
      by (rule find_del_where) (use that in auto)
    then show ?thesis by (simp add: get_interviewer_def disown_def)
  qed
  moreover have "m_interviewer_id m \<noteq> i" if "m \<in> set (t_memberships ?s)" for m
    using that assms(2) disown_members [of i st] by blast
  ultimately show ?thesis
    by (intro roster_shrinks [OF ok, where p = "\<lambda>_. False"])
      (use roster_memberD [OF ok] roster_invitationD [OF ok] in
        \<open>auto simp: del_where_none governed_def member_ok_def invitation_ok_def get_org_def\<close>)
qed

lemma purge_account_keeps:
  assumes ok: "roster_ok st"
  shows "roster_ok (snd (purge_account i st))"
proof -
  let ?gone = "\<lambda>s. (disown i s)\<lparr>t_interviewers := del_where (\<lambda>r. iv_id r = i) (t_interviewers s)\<rparr>"
  let ?leave = "st\<lparr>t_memberships := del_where (\<lambda>m. m_interviewer_id m = i) (t_memberships st)\<rparr>"
  have left: "i \<notin> m_interviewer_id ` set (t_memberships ?leave)" by auto
  show ?thesis
  proof (cases "first_where (\<lambda>m. m_interviewer_id m = i) (t_memberships st)")
    case None
    then have "?leave = st" by (simp add: find_None_iff' del_where_none)
    then show ?thesis using gone_keeps [OF ok] left None by (simp add: purge_account_def Let_def)
  next
    case (Some m)
    have m: "m \<in> set (t_memberships st)" "m_interviewer_id m = i" using Some by (auto dest: find_SomeD)
    have uk: "unique_key m_interviewer_id (t_memberships st)" using ok by (simp add: roster_ok_def)
    show ?thesis
    proof (cases "exists_where (\<lambda>r. m_org_id r = m_org_id m \<and> m_interviewer_id r \<noteq> i) (t_memberships st)")
      case False
      have "m_interviewer_id r \<noteq> i" if "r \<in> set (t_memberships st)" "m_org_id r \<noteq> m_org_id m" for r
        using unique_keyD [OF uk that(1) m(1)] that(2) m(2) by metis
      then have "i \<notin> m_interviewer_id ` set (t_memberships (purge_org_rows (m_org_id m) st))" by auto
      then show ?thesis
        using gone_keeps [OF purge_org_keeps [OF ok]] Some False by (simp add: purge_account_def Let_def)
    next
      case True
      show ?thesis
      proof (cases "last_admin_guard (m_org_id m) i st")
        case (Inl e)
        then show ?thesis using Some True ok by (simp add: purge_account_def Let_def)
      next
        case (Inr u)
        obtain m' where m': "member_of (m_org_id m) i st = Some m'"
          using m by (cases "member_of (m_org_id m) i st") (auto simp: member_of_def find_None_iff')
        have "m' \<in> set (t_memberships st)" "m_interviewer_id m' = m_interviewer_id m" using member_ofD [OF m'] m by auto
        then have "m' = m" using unique_keyD [OF uk] m(1) by blast
        then obtain a where a: "a \<in> set (t_memberships st)" "m_org_id a = m_org_id m" "m_role a = ''admin''" "m_id a \<noteq> m_id m"
          using another_admin [OF ok m'] Inr by auto
        then have "m_interviewer_id a \<noteq> i" using a(4) m(2) unique_keyD [OF uk a(1) m(1)] by metis
        with a have "governed (m_org_id m) ?leave" unfolding governed_iff by (intro bexI [of _ a]) auto
        moreover have "governed o' ?leave" if g: "governed o' st" and o': "o' \<noteq> m_org_id m" for o'
        proof -
          obtain b where b: "b \<in> set (t_memberships st)" "m_org_id b = o'" "m_role b = ''admin''"
            using g by (auto simp: governed_iff)
          then have "m_interviewer_id b \<noteq> i" using m(2) unique_keyD [OF uk b(1) m(1)] o' by metis
          with b show ?thesis unfolding governed_iff by (intro bexI [of _ b]) auto
        qed
        ultimately have gov: "governed o' ?leave" if "governed o' st" for o' using that by blast
        have "roster_ok ?leave"
          by (rule roster_shrinks [OF ok, where p = "\<lambda>m. m_interviewer_id m = i"])
            (use gov roster_memberD [OF ok] roster_invitationD [OF ok] in
              \<open>auto simp: member_ok_def invitation_ok_def get_org_def get_interviewer_def\<close>)
        from gone_keeps [OF this left] show ?thesis
          using Some True Inr by (simp add: purge_account_def Let_def)
      qed
    qed
  qed
qed


text \<open>Adding a member.\<close>

lemma governed_org:
  assumes "roster_ok st" and "governed org_id st"
  shows "get_org org_id st \<noteq> None"
  using assms roster_memberD [OF assms(1)] by (fastforce simp: governed_iff member_ok_def)

lemma invites_touched:
  assumes "roster_ok st"
  shows "roster_ok (st\<lparr>t_org_invites := upd_where p (\<lambda>r. r\<lparr>oi_accepted_at := t\<rparr>) (t_org_invites st)\<rparr>)"
proof -
  let ?st = "st\<lparr>t_org_invites := upd_where p (\<lambda>r. r\<lparr>oi_accepted_at := t\<rparr>) (t_org_invites st)\<rparr>"
  have gov: "governed o' ?st = governed o' st" for o' by (simp add: governed_def)
  have "invitation_ok ?st r" if "r \<in> set (t_org_invites ?st)" for r
    using that roster_invitationD [OF assms] by (auto simp: in_upd_where invitation_ok_def gov)
  moreover have "member_ok ?st m = member_ok st m" for m
    by (simp add: member_ok_def gov get_org_def get_interviewer_def)
  ultimately show ?thesis using assms by (simp add: roster_ok_def list_all_iff)
qed

lemma join_org_keeps:
  assumes "roster_ok st" and "join_org now i invite st = Inr (m, st')" and "invite \<in> set (t_org_invites st)"
    and "get_interviewer i st \<noteq> None"
  shows "roster_ok st'"
proof -
  obtain st1 where ins: "insert_membership now (oi_org_id invite) i (oi_role invite) (oi_invited_by invite) st = Inr (m, st1)"
    and st': "st' = st1\<lparr>t_org_invites := upd_where (\<lambda>r. oi_id r = oi_id invite) (\<lambda>r. r\<lparr>oi_accepted_at := Some now\<rparr>)
                     (t_org_invites st1)\<rparr>"
    using assms(2) by (auto simp: join_org_def elim!: sbind_InrE)
  have inv: "governed (oi_org_id invite) st" "role_ok (oi_role invite)"
    using roster_invitationD [OF assms(1,3)] by (simp_all add: invitation_ok_def)
  have "roster_ok st1"
    using assms(1) ins disjI1 [OF inv(1)] governed_org [OF assms(1) inv(1)] assms(4) inv(2) by (rule roster_grows)
  then show ?thesis unfolding st' by (rule invites_touched)
qed

lemma found_org_keeps:
  assumes "roster_ok st" and "found_org now r name st = Inr (m, st')" and "get_interviewer (iv_id r) st \<noteq> None"
  shows "roster_ok st'"
proof -
  obtain i n where ins: "insert_membership now i (iv_id r) ''admin'' None (st\<lparr>t_orgs := t_orgs st @ [org_named i n]\<rparr>) = Inr (m, st')"
    using assms(2) unfolding found_org_def Let_def by blast
  let ?st = "st\<lparr>t_orgs := t_orgs st @ [org_named i n]\<rparr>"
  have "roster_ok ?st"
    by (rule roster_cong [OF _ _ _ _ assms(1)])
      (auto simp: get_org_def get_interviewer_def find_append split: option.splits)
  moreover have "get_org i ?st \<noteq> None"
    by (simp add: get_org_def find_append org_named_def split: option.split)
  moreover have "get_interviewer (iv_id r) ?st \<noteq> None" using assms(3) by (simp add: get_interviewer_def)
  ultimately show ?thesis using ins by (rule_tac roster_grows [where role = "''admin''"]) simp_all
qed

lemma open_org_inviteD: "open_org_invite now tk st = Inr r \<Longrightarrow> r \<in> set (t_org_invites st) \<and> oi_accepted_at r = None"
  by (auto simp: open_org_invite_def split: option.splits if_splits dest: find_SomeD)

lemma limit_roster: "roster_ok (snd (limit_route c b m rq s)) = roster_ok s"
proof -
  obtain ct h where "snd (limit_route c b m rq s) = s\<lparr>t_counters := ct, mem_hits := h\<rparr>" using limit_frame by blast
  then show ?thesis
    by (simp add: roster_ok_def member_ok_def [abs_def] invitation_ok_def [abs_def] governed_def get_org_def get_interviewer_def)
qed

lemma mailed_keeps: "roster_ok s \<Longrightarrow> roster_ok (send_verification c x now i s)"
  by (rule roster_cong) (simp_all add: send_verification_def send_account_mail_def get_org_def get_interviewer_def)

lemma admission_invite:
  "admission c now body email st = Inr (Some invite) \<Longrightarrow> invite \<in> set (t_org_invites st) \<and> oi_accepted_at invite = None"
  by (auto simp: admission_def split: option.splits if_splits elim!: sbind_InrE dest: open_org_inviteD)

lemma enrolE:
  assumes "enrol x salt now body email org_invite st = Inr (i, st')"
  obtains m where "(case org_invite of Some invite \<Rightarrow> join_org now (iv_id i) invite (st\<lparr>t_interviewers := t_interviewers st @ [i]\<rparr>)
        | None \<Rightarrow> found_org now i None (st\<lparr>t_interviewers := t_interviewers st @ [i]\<rparr>)) = Inr (m, st')"
    and "iv_id i = fresh_id iv_id (t_interviewers st)" and "iv_token_version i = 0"
  using assms unfolding enrol_def Let_def by (auto split: if_splits elim!: sbind_InrE)

lemma enrol_keeps:
  assumes "roster_ok st" and "enrol x salt now body email org_invite st = Inr (i, st')"
    and "\<And>invite. org_invite = Some invite \<Longrightarrow> invite \<in> set (t_org_invites st)"
  shows "roster_ok st'"
proof -
  obtain m where run: "(case org_invite of Some invite \<Rightarrow> join_org now (iv_id i) invite (st\<lparr>t_interviewers := t_interviewers st @ [i]\<rparr>)
        | None \<Rightarrow> found_org now i None (st\<lparr>t_interviewers := t_interviewers st @ [i]\<rparr>)) = Inr (m, st')"
    using assms(2) by (rule enrolE)
  let ?st = "st\<lparr>t_interviewers := t_interviewers st @ [i]\<rparr>"
  have ok: "roster_ok ?st"
    by (rule roster_cong [OF _ _ _ _ assms(1)]) (auto simp: get_org_def get_interviewer_def find_append split: option.splits)
  have got: "get_interviewer (iv_id i) ?st \<noteq> None"
    by (simp add: get_interviewer_def find_append split: option.split)
  show ?thesis
  proof (cases org_invite)
    case None
    then show ?thesis using run found_org_keeps [OF ok _ got] by simp
  next
    case (Some invite)
    then show ?thesis using run join_org_keeps [OF ok _ _ got] assms(3) by simp
  qed
qed

lemma register_keeps:
  assumes "roster_ok st"
  shows "roster_ok (snd (register c x alone salt rq body st))"
  unfolding register_def Let_def alone_simp
proof (intro bindr_keeps [where P = roster_ok] guardr_keeps [where P = roster_ok])
  show "roster_ok (snd (limit_route c ''register'' (c_register_rate_limit_max c) rq st))" using assms by (simp add: limit_roster)
next
  fix st0 org_invite p
  assume ok: "roster_ok st0"
    and adm: "admission c (rq_now rq) body (normalize_email (re_email body)) st0 = Inr org_invite"
    and run: "enrol x salt (rq_now rq) body (normalize_email (re_email body)) org_invite st0 = Inr p"
  obtain i st2 where p: "p = (i, st2)" by fastforce
  have "roster_ok st2" using ok run [unfolded p] by (rule enrol_keeps) (use adm admission_invite in blast)
  then show "roster_ok (snd (case p of (i, st2) \<Rightarrow> (Inr (interviewer_out_of i), send_verification c x (rq_now rq) i st2)))"
    by (simp add: p mailed_keeps)
qed

lemma create_org_keeps:
  assumes "roster_ok st" and "get_interviewer (iv_id r) st \<noteq> None"
  shows "roster_ok (snd (create_org now name r st))"
  unfolding create_org_def
proof (intro guardr_keeps [where P = roster_ok] assms(1))
  fix p
  assume run: "found_org now r (Some name) st = Inr p"
  obtain m st1 where p: "p = (m, st1)" by fastforce
  have "roster_ok st1" using assms(1) run [unfolded p] assms(2) by (rule found_org_keeps)
  then show "roster_ok (snd (case p of (m, st1) \<Rightarrow> guardr (organization_out_of m None st1) st1 (\<lambda>out. (Inr out, st1))))"
    by (simp add: p snd_guardr split: sum.split)
qed

lemma revoke_keeps:
  assumes "roster_ok st"
  shows "roster_ok (snd (revoke_org_invite i org st))"
proof -
  let ?st = "st\<lparr>t_org_invites := del_where (\<lambda>r. oi_id r = i) (t_org_invites st)\<rparr>"
  have "roster_ok ?st"
    by (rule roster_shrinks [OF assms, where p = "\<lambda>_. False"])
      (use roster_memberD [OF assms] roster_invitationD [OF assms] in
        \<open>auto simp: del_where_none governed_def member_ok_def invitation_ok_def get_org_def get_interviewer_def\<close>)
  with assms show ?thesis
    by (auto simp: revoke_org_invite_def guardr_def split: sum.split option.split)
qed

lemma invite_keeps:
  assumes "roster_ok st" and "org \<in> set (t_memberships st)"
  shows "roster_ok (snd (create_org_invite c mailer now token email role current org st))"
proof -
  have "roster_ok (st\<lparr>t_org_invites := del_where p (t_org_invites st) @ [row]\<rparr>)"
    if row: "oi_org_id row = m_org_id org" "oi_role row = role_text role" for p row
  proof -
    let ?st = "st\<lparr>t_org_invites := del_where p (t_org_invites st) @ [row]\<rparr>"
    have same: "governed o' ?st = governed o' st" "member_ok ?st = member_ok st" for o'
      by (simp_all add: governed_def member_ok_def [abs_def] get_org_def get_interviewer_def)
    have "governed (m_org_id org) st" using roster_memberD [OF assms] by (simp add: member_ok_def)
    then show ?thesis
      using assms(1) row by (auto simp: roster_ok_def list_all_iff invitation_ok_def same)
  qed
  then show ?thesis
    using assms(1)
    by (auto simp: create_org_invite_def guardr_def Let_def split: sum.split)
qed

lemma accept_keeps:
  assumes "roster_ok st" and "get_interviewer (iv_id r) st \<noteq> None"
  shows "roster_ok (snd (accept_org_invite c alone now token r st))"
  unfolding accept_org_invite_def Let_def alone_simp
proof (intro guardr_keeps [where P = roster_ok] assms(1))
  fix invite u p
  let ?st2 = "case membership_for r st of None \<Rightarrow> st | Some m \<Rightarrow> purge_org_rows (m_org_id m) st"
  assume inv: "open_org_invite now token st = Inr invite"
    and other: "require (\<not> (case membership_for r st of None \<Rightarrow> False | Some m \<Rightarrow> m_org_id m = oi_org_id invite))
              (HTTPException 409 ''you are already a member of this organisation.'') = Inr u"
    and run: "join_org now (iv_id r) invite ?st2 = Inr p"
  obtain m st3 where p: "p = (m, st3)" by fastforce
  have "roster_ok ?st2" using assms(1) purge_org_keeps by (auto split: option.split)
  moreover have "invite \<in> set (t_org_invites ?st2)"
    using open_org_inviteD [OF inv] other by (auto split: option.splits)
  moreover have "get_interviewer (iv_id r) ?st2 \<noteq> None" using assms(2) by (auto split: option.split)
  ultimately have "roster_ok st3" using join_org_keeps [OF _ run [unfolded p]] by blast
  then show "roster_ok (snd (case p of (m, st3) \<Rightarrow> guardr (organization_out_of m None st3) st3 (\<lambda>out. (Inr out, st3))))"
    by (simp add: p snd_guardr split: sum.split)
qed

lemma delete_keeps: "roster_ok st \<Longrightarrow> roster_ok (snd (delete_me c x password r st))"
  unfolding delete_me_def
  by (intro guardr_keeps [where P = roster_ok] bindr_keeps [where P = roster_ok]) (auto intro: purge_account_keeps)

lemma perform_roster_keeps:
  assumes "roster_ok st"
  shows "roster_ok (perform_roster c x mailer a st)"
  using assms
  by (cases a)
    (auto intro!: signed_in_keeps [where P = roster_ok] as_member_keeps [where P = roster_ok] register_keeps delete_keeps
      create_org_keeps role_keeps remove_keeps invite_keeps revoke_keeps accept_keeps dest: get_interviewer_id)


lemma perform_rosters_keep: "roster_ok st \<Longrightarrow> roster_ok (perform_rosters c x mailer ops st)"
  unfolding perform_rosters_def by (induction ops arbitrary: st) (auto intro: perform_roster_keeps)

text \<open>
  C10. Nobody is ever left in an organisation that nobody can manage. Under any sequence of requests to
  the roster (signing up by invitation or not, founding, accepting, promoting and demoting, removing,
  inviting, revoking, and deleting one's account) every organisation with a member keeps an admin, so
  does every organisation an invitation leads into, an account keeps at most one membership, every
  membership is of an account and an organisation that exist, and roles stay \<open>admin\<close> or \<open>member\<close>.
\<close>

theorem roster_keeps_admin:
  assumes "roster_ok st"
  shows "case perform_rosters c x mailer ops st of st' \<Rightarrow>
     (\<forall>m\<in>set (t_memberships st'). 0 < admin_count (m_org_id m) st' \<and> get_org (m_org_id m) st' \<noteq> None \<and>
        get_interviewer (m_interviewer_id m) st' \<noteq> None \<and> m_role m \<in> {''admin'', ''member''} \<and>
        member_of (m_org_id m) (m_interviewer_id m) st' = Some m) \<and>
     (\<forall>r\<in>set (t_org_invites st'). 0 < admin_count (oi_org_id r) st')"
proof -
  let ?st = "perform_rosters c x mailer ops st"
  have ok: "roster_ok ?st" using assms by (rule perform_rosters_keep)
  have "member_of (m_org_id m) (m_interviewer_id m) ?st = Some m" if m: "m \<in> set (t_memberships ?st)" for m
  proof -
    obtain m' where m': "member_of (m_org_id m) (m_interviewer_id m) ?st = Some m'"
      using m by (cases "member_of (m_org_id m) (m_interviewer_id m) ?st") (auto simp: member_of_def find_None_iff')
    have "unique_key m_interviewer_id (t_memberships ?st)" using ok by (simp add: roster_ok_def)
    then have "m' = m" using member_ofD [OF m'] m by (blast dest: unique_keyD)
    with m' show ?thesis by simp
  qed
  then show ?thesis
    using roster_memberD [OF ok] roster_invitationD [OF ok]
    unfolding Let_def by (auto simp: member_ok_def invitation_ok_def governed_count role_ok_def)
qed

definition seat :: "int \<Rightarrow> int \<Rightarrow> string \<Rightarrow> membership" where
  "seat i account role = example_admin\<lparr>m_id := i, m_interviewer_id := account, m_role := role\<rparr>"

definition team_store :: store where
  "team_store = empty_store\<lparr>t_orgs := [example_org], t_memberships := [seat 1 1 ''admin'', seat 2 2 ''admin''],
     t_interviewers := [example_account, example_account\<lparr>iv_id := 2, iv_email := ''bob@x.org''\<rparr>]\<rparr>"

lemmas team_rows = team_store_def seat_def example_admin_def example_org_def example_account_def empty_store_def

lemma team_store_ok: "roster_ok team_store"
  by (simp add: roster_ok_def unique_key_def member_ok_def governed_def exists_where_def get_org_def
      get_interviewer_def team_rows)

lemma roster_keeps_admin_witness:
  "list_all (\<lambda>m. 0 < admin_count (m_org_id m) (perform_rosters default_settings example_crypto (\<lambda>_ _. (True, None))
       [RRole 1 2 Member, RRole 1 1 Member, RRemove 1 1] team_store))
     (t_memberships (perform_rosters default_settings example_crypto (\<lambda>_ _. (True, None))
       [RRole 1 2 Member, RRole 1 1 Member, RRemove 1 1] team_store))"
  using roster_keeps_admin [OF team_store_ok, of default_settings example_crypto "\<lambda>_ _. (True, None)"
      "[RRole 1 2 Member, RRole 1 1 Member, RRemove 1 1]"] by (simp add: list_all_iff)

text \<open>
  The guard reads the number of admins before the role is written, and nothing holds the rows in between:
  two admins who demote each other at the same time both pass it, and nobody is left to manage the organisation.
\<close>

lemma demote_race_strands:
  "case update_member_role (\<lambda>_. perform_roster default_settings example_crypto (\<lambda>_ _. (True, None)) (RRole 2 1 Member))
       2 Member (seat 1 1 ''admin'') team_store of (r, st') \<Rightarrow>
     is_ok (r, st') \<and> member_count 1 st' = 2 \<and> admin_count 1 st' = 0"
  by (simp add: update_member_role_def require_admin_def member_of_def last_admin_guard_def admin_count_def member_count_def
      as_member_def signed_in_def get_current_membership_def membership_for_def get_interviewer_def exists_where_def
      alone_simp team_rows Let_def)


text \<open>
  Accounts are told apart by an integer that the database picks as one past the largest, so on SQLite the
  number of a deleted account is given to the next sign-up, whose version starts at 0 again: a session of
  the deleted account that was never revoked signs in as the new one.
\<close>

lemma found_org_interviewers: "found_org now i n st = Inr (m, st') \<Longrightarrow> t_interviewers st' = t_interviewers st"
  by (auto simp: found_org_def insert_membership_def Let_def split: if_splits)

lemma reused_id_inherits_session:
  assumes "crypto_lawful x" and "fresh_at t0 (minutes (c_jwt_expire_min c)) later"
    and "enrol x salt now body email None st = Inr (i, st')"
    and "iv_id old = fresh_id iv_id (t_interviewers st)" and "iv_token_version old = 0"
  shows "get_current_interviewer c x later (Some (create_access_token c x t0 old)) st' = Inr i"
proof -
  obtain m where m: "found_org now i None (st\<lparr>t_interviewers := t_interviewers st @ [i]\<rparr>) = Inr (m, st')"
    and i: "iv_id i = fresh_id iv_id (t_interviewers st)" "iv_token_version i = 0"
    using assms(3) by (rule enrolE) simp
  have "iv_id r \<noteq> iv_id i" if "r \<in> set (t_interviewers st)" for r
    using fresh_id_gt [OF that, of iv_id] i(1) by simp
  then have "first_where (\<lambda>r. iv_id r = iv_id i) (t_interviewers st) = None" by (simp add: find_None_iff')
  then have "get_interviewer (iv_id i) st' = Some i"
    using found_org_interviewers [OF m] by (simp add: get_interviewer_def find_append)
  then show ?thesis
    using assms(1,2,4,5) i by (simp add: get_current_interviewer_def session_of_access)
qed

end
