(* ===== verification/Seats.thy ===== *)
theory Seats
  imports TeamSafety
begin

section \<open>Seats: the roster never outgrows the plan\<close>

text \<open>
  With billing enforced, requests to the roster that arrive in the order of their clocks never take the seats
  an organisation uses (its members and its open invitations) past its plan, or past what it used
  already: inviting checks the capacity, joining turns an open invitation into a member, and time only
  closes invitations. \<open>cap\<close> is what each organisation may use whatever its plan says.
\<close>

definition seats_ok :: "(int \<Rightarrow> int) \<Rightarrow> instant \<Rightarrow> store \<Rightarrow> bool" where
  "seats_ok cap now st =
     list_all (\<lambda>g. pred_option (\<lambda>i. int (seats_used now i st) \<le> max (p_seats (plan_for g)) (cap i)) (o_id g)) (t_orgs st)"

lemma seats_ok_iff: "seats_ok cap now st \<longleftrightarrow>
    (\<forall>g\<in>set (t_orgs st). \<forall>i. o_id g = Some i \<longrightarrow> int (seats_used now i st) \<le> max (p_seats (plan_for g)) (cap i))"
  by (auto simp: seats_ok_def list_all_iff pred_option_def)

definition is_open :: "instant \<Rightarrow> org_invite \<Rightarrow> bool" where
  "is_open now r = (oi_accepted_at r = None \<and> (case oi_expires_at r of None \<Rightarrow> True | Some e \<Rightarrow> e > now))"

lemma seats_used_count:
  "seats_used now i st = count_where (\<lambda>m. m_org_id m = i) (t_memberships st) +
     count_where (\<lambda>r. oi_org_id r = i \<and> is_open now r) (t_org_invites st)"
  by (simp add: seats_used_def member_count_def pending_invites_def count_where_def is_open_def)

lemma p_seats_pos: "1 \<le> p_seats (plan_for g)"
  by (auto simp: plan_for_def FREE_def PLANS_def split: option.split)

lemma count_del: "count_where q (del_where p t) \<le> count_where q t"
  by (induction t) auto

lemma count_later: "now \<le> later \<Longrightarrow> count_where (\<lambda>r. oi_org_id r = i \<and> is_open later r) t
    \<le> count_where (\<lambda>r. oi_org_id r = i \<and> is_open now r) t"
  by (rule count_where_mono) (auto simp: is_open_def split: option.splits)

lemma seats_later: "now \<le> later \<Longrightarrow> seats_used later i st \<le> seats_used now i st"
  unfolding seats_used_count by (simp add: count_later)

lemma seats_ok_later: "now \<le> later \<Longrightarrow> seats_ok cap now st \<Longrightarrow> seats_ok cap later st"
  unfolding seats_ok_iff by (metis of_nat_le_iff order_trans seats_later)

text \<open>A request keeps the bound when no organisation that stays uses more seats than before.\<close>

lemma seats_shrink:
  assumes "seats_ok cap now st" and "set (t_orgs st') \<subseteq> set (t_orgs st)"
    and "\<And>g i. g \<in> set (t_orgs st') \<Longrightarrow> o_id g = Some i \<Longrightarrow> seats_used now i st' \<le> seats_used now i st"
  shows "seats_ok cap now st'"
  using assms unfolding seats_ok_iff by (meson of_nat_le_iff order_trans subset_iff)

lemma seats_same:
  "\<lbrakk>t_memberships st' = t_memberships st; t_org_invites st' = t_org_invites st; t_orgs st' = t_orgs st\<rbrakk> \<Longrightarrow>
   seats_ok cap now st' = seats_ok cap now st"
  by (simp add: seats_ok_iff seats_used_count)

subsection \<open>Joining and founding\<close>

lemma insert_membershipD:
  "insert_membership now org_id i role invited_by st = Inr (m, st') \<Longrightarrow>
     st' = st\<lparr>t_memberships := t_memberships st @ [m]\<rparr> \<and> m_org_id m = org_id"
  by (auto simp: insert_membership_def Let_def split: if_splits)

lemma count_accepted:
  assumes "invite \<in> set t" and "is_open now invite"
  shows "count_where (\<lambda>r. oi_org_id r = oi_org_id invite \<and> is_open now r)
      (upd_where (\<lambda>r. oi_id r = oi_id invite) (\<lambda>r. r\<lparr>oi_accepted_at := Some s\<rparr>) t) <
    count_where (\<lambda>r. oi_org_id r = oi_org_id invite \<and> is_open now r) t"
proof -
  have le: "count_where (\<lambda>r. oi_org_id r = k \<and> is_open now r) (upd_where p (\<lambda>r. r\<lparr>oi_accepted_at := Some s\<rparr>) u) \<le>
      count_where (\<lambda>r. oi_org_id r = k \<and> is_open now r) u" for k p u
    by (induction u) (auto simp: is_open_def le_SucI)
  show ?thesis
    using assms
  proof (induction t)
    case (Cons r t)
    show ?case
    proof (cases "r = invite")
      case True
      have "\<not> is_open now (r\<lparr>oi_accepted_at := Some s\<rparr>)" by (simp add: is_open_def)
      then show ?thesis using Cons.prems(2) True le [of "oi_org_id invite" _ t] by (simp add: less_Suc_eq_le)
    next
      case False
      with Cons show ?thesis by (auto simp: is_open_def less_Suc_eq)
    qed
  qed simp
qed

lemma count_accepted_le:
  "count_where (\<lambda>r. oi_org_id r = k \<and> is_open now r) (upd_where p (\<lambda>r. r\<lparr>oi_accepted_at := Some s\<rparr>) u) \<le>
     count_where (\<lambda>r. oi_org_id r = k \<and> is_open now r) u"
  by (induction u) (auto simp: is_open_def le_SucI)

lemma join_org_seats:
  assumes "seats_ok cap now st" and "join_org now i invite st = Inr (m, st')" and "invite \<in> set (t_org_invites st)"
    and "is_open now invite"
  shows "seats_ok cap now st'"
proof -
  let ?up = "upd_where (\<lambda>r. oi_id r = oi_id invite) (\<lambda>r. r\<lparr>oi_accepted_at := Some now\<rparr>) (t_org_invites st)"
  have st': "st' = st\<lparr>t_memberships := t_memberships st @ [m], t_org_invites := ?up\<rparr>" and m: "m_org_id m = oi_org_id invite"
    using assms(2) by (auto simp: join_org_def elim!: sbind_InrE dest!: insert_membershipD)
  have "seats_used now k st' \<le> seats_used now k st" for k
    using count_accepted [OF assms(3,4), of now] count_accepted_le [of k now _ now "t_org_invites st"]
    by (cases "k = oi_org_id invite") (auto simp: seats_used_count st' m)
  then show ?thesis using assms(1) by (rule_tac seats_shrink) (auto simp: st')
qed

text \<open>A fresh organisation: nobody is in it and nothing leads into it.\<close>

lemma fresh_org_unused:
  assumes "roster_ok st"
  shows "seats_used now (fresh_id org_key (t_orgs st)) st = 0"
proof -
  let ?i = "fresh_id org_key (t_orgs st)"
  have "get_org ?i st = None"
    using fresh_id_gt [of _ "t_orgs st" org_key] by (force simp: get_org_def find_None_iff' org_key_def)
  then have "m_org_id m \<noteq> ?i" if "m \<in> set (t_memberships st)" for m
    using roster_memberD [OF assms that] by (auto simp: member_ok_def)
  moreover have "oi_org_id r \<noteq> ?i" if "r \<in> set (t_org_invites st)" for r
    using roster_invitationD [OF assms that] governed_org [OF assms] \<open>get_org ?i st = None\<close> by (metis invitation_ok_def)
  ultimately show ?thesis by (simp add: seats_used_count count_where_zero)
qed

lemma found_org_seats:
  assumes "roster_ok st" and "seats_ok cap now st" and "found_org now r name st = Inr (m, st')"
  shows "seats_ok cap now st'"
proof -
  let ?i = "fresh_id org_key (t_orgs st)"
  obtain n where "insert_membership now ?i (iv_id r) ''admin'' None (st\<lparr>t_orgs := t_orgs st @ [org_named ?i n]\<rparr>) = Inr (m, st')"
    using assms(3) unfolding found_org_def Let_def by blast
  then have st': "st' = st\<lparr>t_orgs := t_orgs st @ [org_named ?i n], t_memberships := t_memberships st @ [m]\<rparr>" "m_org_id m = ?i"
    by (auto dest!: insert_membershipD)
  have one: "seats_used now ?i st' = 1"
    using fresh_org_unused [OF assms(1), of now] st'(2) by (simp add: seats_used_count st'(1))
  have same: "seats_used now k st' = seats_used now k st" if "k \<noteq> ?i" for k
    using that st'(2) by (simp add: seats_used_count st'(1))
  have "int (seats_used now k st') \<le> max (p_seats (plan_for g)) (cap k)" if g: "g \<in> set (t_orgs st')" "o_id g = Some k" for g k
  proof (cases "k = ?i")
    case True
    then show ?thesis using one p_seats_pos [of g] by simp
  next
    case False
    then have "g \<in> set (t_orgs st)" using g by (auto simp: st'(1) org_named_def)
    then show ?thesis using assms(2) same [OF False] g(2) by (simp add: seats_ok_iff)
  qed
  then show ?thesis by (simp add: seats_ok_iff)
qed

subsection \<open>Leaving\<close>

lemma purge_org_seats:
  assumes "seats_ok cap now st"
  shows "seats_ok cap now (purge_org_rows org_id st)"
proof (rule seats_shrink [OF assms])
  show "set (t_orgs (purge_org_rows org_id st)) \<subseteq> set (t_orgs st)" by auto
  show "seats_used now i (purge_org_rows org_id st) \<le> seats_used now i st" for i
    unfolding seats_used_count purge_org_rows_simps by (intro add_mono count_del)
qed

lemma disown_seats: "seats_used now i (disown j st) = seats_used now i st"
proof -
  have "count_where (\<lambda>m. m_org_id m = i) (upd_where p (\<lambda>r. r\<lparr>m_invited_by := None\<rparr>) t) = count_where (\<lambda>m. m_org_id m = i) t" for p t
    by (induction t) auto
  moreover have "count_where (\<lambda>r. oi_org_id r = i \<and> is_open now r) (upd_where p (\<lambda>r. r\<lparr>oi_invited_by := None\<rparr>) t) =
      count_where (\<lambda>r. oi_org_id r = i \<and> is_open now r) t" for p t
    by (induction t) (auto simp: is_open_def)
  ultimately show ?thesis by (simp add: seats_used_count disown_def)
qed

lemma gone_seats:
  assumes "seats_ok cap now st"
  shows "seats_ok cap now ((disown i st)\<lparr>t_interviewers := t\<rparr>)"
proof -
  have "seats_used now k ((disown i st)\<lparr>t_interviewers := t\<rparr>) = seats_used now k st" for k
    using disown_seats [of now k i st] by (simp add: seats_used_count)
  then show ?thesis using assms by (simp add: seats_ok_iff) (simp add: disown_def)
qed

lemma member_rows_seats:
  assumes "seats_ok cap now st"
  shows "seats_ok cap now (st\<lparr>t_memberships := del_where p (t_memberships st)\<rparr>)"
  by (rule seats_shrink [OF assms]) (simp_all add: seats_used_count count_del)

lemma purge_account_seats: "seats_ok cap now st \<Longrightarrow> seats_ok cap now (snd (purge_account i st))"
  by (auto simp: purge_account_def Let_def snd_guardr gone_seats purge_org_seats member_rows_seats split: option.split sum.split
      intro!: gone_seats [where st = "st\<lparr>t_memberships := del_where (\<lambda>m. m_interviewer_id m = i) (t_memberships st)\<rparr>", simplified])

subsection \<open>The requests\<close>

lemma count_roles:
  "count_where (\<lambda>m. m_org_id m = k) (upd_where p (\<lambda>r. r\<lparr>m_role := t\<rparr>) ms) = count_where (\<lambda>m. m_org_id m = k) ms"
  by (induction ms) auto

lemma role_seats:
  assumes "seats_ok cap now st"
  shows "seats_ok cap now (snd (update_member_role alone i role org st))"
proof -
  have "seats_ok cap now (st\<lparr>t_memberships := upd_where p (\<lambda>r. r\<lparr>m_role := t\<rparr>) (t_memberships st)\<rparr>)" for p t
    using assms by (simp add: seats_ok_iff seats_used_count count_roles)
  with assms show ?thesis
    by (auto simp: update_member_role_def guardr_def Let_def alone_simp split: sum.split option.split)
qed

lemma remove_seats: "seats_ok cap now st \<Longrightarrow> seats_ok cap now (snd (remove_member alone i org st))"
  by (auto simp: remove_member_def guardr_def Let_def alone_simp member_rows_seats split: sum.split option.split)

lemma invite_rows_seats:
  assumes "seats_ok cap now st"
  shows "seats_ok cap now (st\<lparr>t_org_invites := del_where p (t_org_invites st)\<rparr>)"
  by (rule seats_shrink [OF assms]) (simp_all add: seats_used_count count_del)

lemma revoke_seats: "seats_ok cap now st \<Longrightarrow> seats_ok cap now (snd (revoke_org_invite i org st))"
  by (auto simp: revoke_org_invite_def guardr_def invite_rows_seats split: sum.split option.split)

lemma capacity_left:
  assumes "c_billing_enforced c" and "check_seat_capacity c now org st = Inr u" and "get_org (m_org_id org) st = Some g"
  shows "int (seats_used now (m_org_id org) st) < p_seats (plan_for g)"
  using assms by (auto simp: check_seat_capacity_def organization_row_def remaining_def elim!: sbind_InrE)

definition orgs_unique :: "store \<Rightarrow> bool" where
  "orgs_unique st = unique_key o_id (t_orgs st)"

lemma invited_seats:
  assumes "seats_ok cap now st" and "orgs_unique st" and "get_org k st = Some g"
    and "int (seats_used now k st) < p_seats (plan_for g)" and "oi_org_id row = k"
  shows "seats_ok cap now (st\<lparr>t_org_invites := t_org_invites st @ [row]\<rparr>)"
proof -
  have used: "seats_used now j (st\<lparr>t_org_invites := t_org_invites st @ [row]\<rparr>) \<le> seats_used now j st + (if j = k then 1 else 0)" for j
    using assms(5) by (simp add: seats_used_count)
  have "int (seats_used now j (st\<lparr>t_org_invites := t_org_invites st @ [row]\<rparr>)) \<le> max (p_seats (plan_for h)) (cap j)"
    if h: "h \<in> set (t_orgs st)" "o_id h = Some j" for h j
  proof (cases "j = k")
    case True
    have "g \<in> set (t_orgs st)" "o_id g = Some k" using get_org_SomeD [OF assms(3)] by simp_all
    then have "h = g" using assms(2) h True unique_keyD [of o_id "t_orgs st" h g] by (simp add: orgs_unique_def)
    then show ?thesis using assms(4) used [of j] True by simp
  next
    case False
    have "int (seats_used now j st) \<le> max (p_seats (plan_for h)) (cap j)" using assms(1) h by (simp add: seats_ok_iff)
    then show ?thesis using used [of j] False by (simp add: order_trans [OF of_nat_mono])
  qed
  then show ?thesis by (simp add: seats_ok_iff)
qed

lemma invite_seats:
  assumes "c_billing_enforced c" and "seats_ok cap now st" and "orgs_unique st"
  shows "seats_ok cap now (snd (create_org_invite c mailer now token email role current org st))"
proof -
  have "seats_ok cap now (st\<lparr>t_org_invites := del_where p (t_org_invites st) @ [row]\<rparr>)"
    if cap: "check_seat_capacity c now org (st\<lparr>t_org_invites := del_where p (t_org_invites st)\<rparr>) = Inr u"
      and row: "oi_org_id row = m_org_id org"
      and g: "organization_row (m_org_id org) (st\<lparr>t_org_invites := del_where p (t_org_invites st)\<rparr>) = Inr g" for p row u g
  proof -
    let ?s = "st\<lparr>t_org_invites := del_where p (t_org_invites st)\<rparr>"
    have g': "get_org (m_org_id org) ?s = Some g" using g by (simp add: organization_row_def split: option.splits)
    have "seats_ok cap now (?s\<lparr>t_org_invites := t_org_invites ?s @ [row]\<rparr>)"
      using invite_rows_seats [OF assms(2)] _ g' capacity_left [OF assms(1) cap g'] row
      by (rule invited_seats) (use assms(3) in \<open>simp add: orgs_unique_def\<close>)
    then show ?thesis by simp
  qed
  then show ?thesis
    using assms(2) by (auto simp: create_org_invite_def guardr_def Let_def split: sum.split)
qed

lemma open_org_invite_open: "open_org_invite now tk st = Inr r \<Longrightarrow> is_open now r"
  by (auto simp: open_org_invite_def is_open_def split: option.splits if_splits)

lemma admission_open: "admission c now body email st = Inr (Some invite) \<Longrightarrow> is_open now invite"
  by (auto simp: admission_def split: option.splits if_splits elim!: sbind_InrE dest: open_org_invite_open)

lemma limit_seats: "seats_ok cap now (snd (limit_route c b m rq s)) = seats_ok cap now s"
  using limit_frame [of c b m rq s] by (auto simp: seats_ok_iff seats_used_count)

lemma enrol_seats:
  assumes "roster_ok st" and "seats_ok cap now st" and "enrol x salt now body email org_invite st = Inr (i, st')"
    and "\<And>invite. org_invite = Some invite \<Longrightarrow> invite \<in> set (t_org_invites st) \<and> is_open now invite"
  shows "seats_ok cap now st'"
proof -
  obtain m where run: "(case org_invite of Some invite \<Rightarrow> join_org now (iv_id i) invite (st\<lparr>t_interviewers := t_interviewers st @ [i]\<rparr>)
        | None \<Rightarrow> found_org now i None (st\<lparr>t_interviewers := t_interviewers st @ [i]\<rparr>)) = Inr (m, st')"
    using assms(3) by (rule enrolE)
  let ?st = "st\<lparr>t_interviewers := t_interviewers st @ [i]\<rparr>"
  have ok: "roster_ok ?st"
    by (rule roster_cong [OF _ _ _ _ assms(1)]) (auto simp: get_org_def get_interviewer_def find_append split: option.splits)
  have s: "seats_ok cap now ?st" using assms(2) by (simp add: seats_same [of ?st st])
  show ?thesis
  proof (cases org_invite)
    case None
    then show ?thesis using run found_org_seats [OF ok s] by simp
  next
    case (Some invite)
    then show ?thesis using run join_org_seats [OF s] assms(4) by simp
  qed
qed

lemma mailed_seats: "seats_ok cap now (send_verification c x t i s) = seats_ok cap now s"
  by (rule seats_same) (simp_all add: send_verification_def send_account_mail_def)

lemma register_seats:
  assumes "roster_ok st" and "seats_ok cap (rq_now rq) st"
  shows "seats_ok cap (rq_now rq) (snd (register c x alone salt rq body st))"
proof -
  let ?P = "\<lambda>s. roster_ok s \<and> seats_ok cap (rq_now rq) s"
  have "?P (snd (register c x alone salt rq body st))"
    unfolding register_def Let_def alone_simp
  proof (intro bindr_keeps [where P = ?P] guardr_keeps [where P = ?P])
    show "?P (snd (limit_route c ''register'' (c_register_rate_limit_max c) rq st))"
      using assms by (simp add: limit_roster limit_seats)
  next
    fix st0 org_invite p
    assume ok: "?P st0"
      and adm: "admission c (rq_now rq) body (normalize_email (re_email body)) st0 = Inr org_invite"
      and run: "enrol x salt (rq_now rq) body (normalize_email (re_email body)) org_invite st0 = Inr p"
    obtain i st2 where p: "p = (i, st2)" by fastforce
    have "roster_ok st2" using ok [THEN conjunct1] run [unfolded p] by (rule enrol_keeps) (use adm admission_invite in blast)
    moreover have "seats_ok cap (rq_now rq) st2"
      using ok [THEN conjunct1] ok [THEN conjunct2] run [unfolded p] by (rule enrol_seats) (use adm admission_invite admission_open in blast)
    ultimately show "?P (snd (case p of (i, st2) \<Rightarrow> (Inr (interviewer_out_of i), send_verification c x (rq_now rq) i st2)))"
      by (simp add: p mailed_keeps mailed_seats)
  qed
  then show ?thesis ..
qed

lemma create_org_seats:
  assumes "roster_ok st" and "seats_ok cap now st"
  shows "seats_ok cap now (snd (create_org now name r st))"
  using assms found_org_seats [OF assms, of r "Some name"]
  by (auto simp: create_org_def guardr_def split: sum.split prod.split)

lemma accept_seats:
  assumes "seats_ok cap now st"
  shows "seats_ok cap now (snd (accept_org_invite c alone now token r st))"
  unfolding accept_org_invite_def Let_def alone_simp
proof (intro guardr_keeps [where P = "seats_ok cap now"] assms)
  fix invite u p
  let ?st2 = "case membership_for r st of None \<Rightarrow> st | Some m \<Rightarrow> purge_org_rows (m_org_id m) st"
  assume inv: "open_org_invite now token st = Inr invite"
    and other: "require (\<not> (case membership_for r st of None \<Rightarrow> False | Some m \<Rightarrow> m_org_id m = oi_org_id invite))
              (HTTPException 409 ''you are already a member of this organisation.'') = Inr u"
    and run: "join_org now (iv_id r) invite ?st2 = Inr p"
  obtain m st3 where p: "p = (m, st3)" by fastforce
  have "seats_ok cap now ?st2" using assms purge_org_seats by (auto split: option.split)
  moreover have "invite \<in> set (t_org_invites ?st2)"
    using open_org_inviteD [OF inv] other by (auto split: option.splits)
  ultimately have "seats_ok cap now st3" using join_org_seats [OF _ run [unfolded p]] open_org_invite_open [OF inv] by blast
  then show "seats_ok cap now (snd (case p of (m, st3) \<Rightarrow> guardr (organization_out_of m None st3) st3 (\<lambda>out. (Inr out, st3))))"
    by (simp add: p snd_guardr split: sum.split)
qed

lemma delete_seats: "seats_ok cap now st \<Longrightarrow> seats_ok cap now (snd (delete_me c x password r st))"
  unfolding delete_me_def
  by (intro guardr_keeps [where P = "seats_ok cap now"] bindr_keeps [where P = "seats_ok cap now"]) (auto intro: purge_account_seats)


text \<open>Organisations keep their numbers apart.\<close>

lemma orgs_unique_subset:
  "orgs_unique st \<Longrightarrow> t_orgs st' = del_where p (t_orgs st) \<Longrightarrow> orgs_unique st'"
  by (simp add: orgs_unique_def unique_key_del)

lemma orgs_unique_same: "t_orgs st' = t_orgs st \<Longrightarrow> orgs_unique st' = orgs_unique st"
  by (simp add: orgs_unique_def)

lemma found_org_orgs:
  assumes "orgs_unique st" and "found_org now r name st = Inr (m, st')"
  shows "orgs_unique st'"
proof -
  let ?i = "fresh_id org_key (t_orgs st)"
  obtain n where "t_orgs st' = t_orgs st @ [org_named ?i n]"
    using assms(2) unfolding found_org_def Let_def by (auto dest!: insert_membershipD)
  moreover have "Some ?i \<notin> o_id ` set (t_orgs st)"
  proof
    assume "Some ?i \<in> o_id ` set (t_orgs st)"
    then obtain g where "g \<in> set (t_orgs st)" "o_id g = Some ?i" by force
    then show False using fresh_id_gt [of g "t_orgs st" org_key] by (simp add: org_key_def)
  qed
  ultimately show ?thesis
    using assms(1) by (simp add: orgs_unique_def unique_key_append) (simp add: org_named_def)
qed

lemma join_org_orgs: "join_org now i invite st = Inr (m, st') \<Longrightarrow> t_orgs st' = t_orgs st"
  by (auto simp: join_org_def elim!: sbind_InrE dest!: insert_membershipD)

lemma enrol_orgs:
  assumes "orgs_unique st" and "enrol x salt now body email org_invite st = Inr (i, st')"
  shows "orgs_unique st'"
proof -
  obtain m where run: "(case org_invite of Some invite \<Rightarrow> join_org now (iv_id i) invite (st\<lparr>t_interviewers := t_interviewers st @ [i]\<rparr>)
        | None \<Rightarrow> found_org now i None (st\<lparr>t_interviewers := t_interviewers st @ [i]\<rparr>)) = Inr (m, st')"
    using assms(2) by (rule enrolE)
  have "orgs_unique (st\<lparr>t_interviewers := t_interviewers st @ [i]\<rparr>)" using assms(1) by (simp add: orgs_unique_def)
  note u = this
  show ?thesis
  proof (cases org_invite)
    case None
    then show ?thesis using run found_org_orgs [OF u] by simp
  next
    case (Some invite)
    then have "t_orgs st' = t_orgs st" using run join_org_orgs by fastforce
    then show ?thesis using assms(1) by (simp add: orgs_unique_def)
  qed
qed

lemma limit_orgs: "t_orgs (snd (limit_route c b m rq s)) = t_orgs s"
  using limit_frame [of c b m rq s] by auto

lemma mailed_orgs: "t_orgs (send_verification c x t i s) = t_orgs s"
  by (simp add: send_verification_def send_account_mail_def)

lemma register_orgs:
  assumes "orgs_unique st"
  shows "orgs_unique (snd (register c x alone salt rq body st))"
  unfolding register_def Let_def alone_simp
  by (intro bindr_keeps [where P = orgs_unique] guardr_keeps [where P = orgs_unique])
    (use assms in \<open>auto simp: orgs_unique_same [OF limit_orgs] orgs_unique_same [OF mailed_orgs]
      dest: enrol_orgs split: prod.split\<close>)


lemma create_org_orgs: "orgs_unique st \<Longrightarrow> orgs_unique (snd (create_org now name r st))"
  by (auto simp: create_org_def guardr_def dest: found_org_orgs split: sum.split prod.split)

lemma purge_orgs_unique: "orgs_unique st \<Longrightarrow> orgs_unique (purge_org_rows i st)"
  by (erule orgs_unique_subset) simp

lemma delete_orgs: "orgs_unique st \<Longrightarrow> orgs_unique (snd (delete_me c x password r st))"
proof -
  assume u: "orgs_unique st"
  have "orgs_unique (snd (purge_account i st))" for i
    using u purge_orgs_unique [OF u]
    by (auto simp: purge_account_def Let_def snd_guardr orgs_unique_def disown_def split: option.split sum.split)
  then show ?thesis
    unfolding delete_me_def
    by (intro guardr_keeps [where P = orgs_unique] bindr_keeps [where P = orgs_unique] u) simp_all
qed

lemma roster_rows_orgs:
  "t_orgs (snd (update_member_role alone i role org st)) = t_orgs st"
  "t_orgs (snd (remove_member alone i org st)) = t_orgs st"
  "t_orgs (snd (revoke_org_invite i org st)) = t_orgs st"
  "t_orgs (snd (create_org_invite c mailer now token email role current org st)) = t_orgs st"
  by (auto simp: update_member_role_def remove_member_def revoke_org_invite_def create_org_invite_def guardr_def Let_def
      alone_simp split: sum.split option.split)

lemma accept_orgs:
  assumes "orgs_unique st"
  shows "orgs_unique (snd (accept_org_invite c alone now token r st))"
  unfolding accept_org_invite_def Let_def alone_simp
proof (intro guardr_keeps [where P = orgs_unique] assms)
  fix invite p
  let ?st2 = "case membership_for r st of None \<Rightarrow> st | Some m \<Rightarrow> purge_org_rows (m_org_id m) st"
  assume run: "join_org now (iv_id r) invite ?st2 = Inr p"
  obtain m st3 where p: "p = (m, st3)" by fastforce
  have "orgs_unique ?st2" using assms purge_orgs_unique by (auto split: option.split)
  then have "orgs_unique st3" using join_org_orgs [OF run [unfolded p]] by (simp add: orgs_unique_def)
  then show "orgs_unique (snd (case p of (m, st3) \<Rightarrow> guardr (organization_out_of m None st3) st3 (\<lambda>out. (Inr out, st3))))"
    by (simp add: p snd_guardr split: sum.split)
qed

text \<open>The clock of a request, and sequences in which clocks do not run backwards.\<close>

fun roster_time :: "roster_op \<Rightarrow> instant option" where
  "roster_time (RRegister salt rq body) = Some (rq_now rq)"
| "roster_time (RCreateOrg now name i) = Some now"
| "roster_time (RInvite now token email role caller) = Some now"
| "roster_time (RAccept now token i) = Some now"
| "roster_time _ = None"

fun in_order :: "instant \<Rightarrow> roster_op list \<Rightarrow> instant \<Rightarrow> bool" where
  "in_order t [] u = (t \<le> u)"
| "in_order t (a # ops) u = (case roster_time a of None \<Rightarrow> in_order t ops u | Some s \<Rightarrow> t \<le> s \<and> in_order s ops u)"

definition within_plans :: "(int \<Rightarrow> int) \<Rightarrow> instant \<Rightarrow> store \<Rightarrow> bool" where
  "within_plans cap now st = (roster_ok st \<and> orgs_unique st \<and> seats_ok cap now st)"

lemma perform_roster_within:
  assumes "c_billing_enforced c" and "within_plans cap now st" and "roster_time a \<in> {None, Some now}"
  shows "within_plans cap now (perform_roster c x mailer a st)"
proof -
  have ok: "roster_ok st" "orgs_unique st" "seats_ok cap now st" using assms(2) by (simp_all add: within_plans_def)
  have "roster_ok (perform_roster c x mailer a st)" using ok(1) by (rule perform_roster_keeps)
  moreover have "orgs_unique (perform_roster c x mailer a st)"
    using ok(2) by (cases a)
      (auto intro!: signed_in_keeps [where P = orgs_unique] as_member_keeps [where P = orgs_unique]
        intro: register_orgs delete_orgs create_org_orgs accept_orgs simp: orgs_unique_same [OF roster_rows_orgs(1)]
        orgs_unique_same [OF roster_rows_orgs(2)] orgs_unique_same [OF roster_rows_orgs(3)] orgs_unique_same [OF roster_rows_orgs(4)])
  moreover have "seats_ok cap now (perform_roster c x mailer a st)"
    using ok assms(1,3) by (cases a)
      (auto intro!: signed_in_keeps [where P = "seats_ok cap now"] as_member_keeps [where P = "seats_ok cap now"]
        intro: register_seats delete_seats create_org_seats accept_seats role_seats remove_seats invite_seats revoke_seats)
  ultimately show ?thesis by (simp add: within_plans_def)
qed

lemma within_later: "t \<le> u \<Longrightarrow> within_plans cap t st \<Longrightarrow> within_plans cap u st"
  by (simp add: within_plans_def seats_ok_later)

lemma perform_rosters_within:
  "c_billing_enforced c \<Longrightarrow> within_plans cap t st \<Longrightarrow> in_order t ops u \<Longrightarrow> within_plans cap u (perform_rosters c x mailer ops st)"
  unfolding perform_rosters_def
proof (induction ops arbitrary: t st)
  case Nil
  then show ?case by (simp add: within_later)
next
  case (Cons a ops)
  show ?case
  proof (cases "roster_time a")
    case None
    then have "within_plans cap t (perform_roster c x mailer a st)"
      using Cons.prems(1,2) by (intro perform_roster_within) simp_all
    then show ?thesis using Cons None by simp
  next
    case (Some s)
    then have "within_plans cap s st" using Cons.prems by (auto intro: within_later)
    then have "within_plans cap s (perform_roster c x mailer a st)"
      using Cons.prems(1) Some by (intro perform_roster_within) simp_all
    then show ?thesis using Cons Some by simp
  qed
qed

text \<open>
  C14. With billing enforced, requests to the roster never take an organisation past its seats: from any store and
  after any requests in the order of their clocks, whatever invitations were sent, accepted, signed up with,
  replaced, revoked or left to expire, the members and open invitations of an organisation are within its
  plan, or no more than they were at the start. The plan itself moves by Stripe's events only (a payment, not the
  roster), so the statement is for a stretch between two such events: one that a downgrade left over its
  limit cannot grow, a sign-up with an invitation that outlived the downgrade included, for that
  invitation was counted already.
\<close>

theorem seats_within_plan:
  assumes "c_billing_enforced c" and "roster_ok st" and "orgs_unique st" and "in_order t ops u"
    and "get_org i (perform_rosters c x mailer ops st) = Some g"
  shows "int (member_count i (perform_rosters c x mailer ops st) +
      length (pending_invites u i (perform_rosters c x mailer ops st))) \<le>
    max (p_seats (plan_for g)) (int (member_count i st + length (pending_invites t i st)))"
proof -
  let ?cap = "\<lambda>i. int (seats_used t i st)"
  have "seats_ok ?cap t st" by (simp add: seats_ok_iff)
  then have "seats_ok ?cap u (perform_rosters c x mailer ops st)"
    using perform_rosters_within [of c ?cap t st ops u] assms(1-4) by (simp add: within_plans_def)
  then show ?thesis using get_org_SomeD [OF assms(5)] unfolding seats_ok_iff seats_used_def by blast
qed

text \<open>A team of two on the free plan, which has two seats: inviting a third person is refused.\<close>

lemma seats_within_plan_witness:
  "int (member_count 1 (perform_rosters default_settings example_crypto (\<lambda>_ _. (True, None)) [RInvite 5 ''tk'' ''cy@x.org'' Member 1] team_store) +
     length (pending_invites 6 1 (perform_rosters default_settings example_crypto (\<lambda>_ _. (True, None))
       [RInvite 5 ''tk'' ''cy@x.org'' Member 1] team_store))) \<le> 2"
proof -
  let ?st = "perform_rosters default_settings example_crypto (\<lambda>_ _. (True, None)) [RInvite 5 ''tk'' ''cy@x.org'' Member 1] team_store"
  have "c_billing_enforced default_settings" by (simp add: default_settings_def)
  moreover have "orgs_unique team_store" by (simp add: orgs_unique_def team_store_def unique_key_def)
  moreover have "max (p_seats (plan_for example_org)) (int (member_count 1 team_store + length (pending_invites 0 1 team_store))) = 2"
    by (simp add: member_count_def pending_invites_def team_rows plan_for_def ENTITLED_STATUSES_def PLANS_def count_where_def)
  moreover have "in_order 0 [RInvite 5 ''tk'' ''cy@x.org'' Member 1] 6" by simp
  moreover have "get_org 1 ?st = Some example_org"
  proof -
    have "t_orgs ?st = t_orgs team_store"
      using roster_rows_orgs(4) by (auto simp: perform_rosters_def as_member_def signed_in_def split: option.split sum.split)
    then show ?thesis by (simp add: get_org_def team_store_def example_org_def)
  qed
  ultimately show ?thesis using team_store_ok seats_within_plan [of default_settings team_store 0 "[RInvite 5 ''tk'' ''cy@x.org'' Member 1]" 6 1
      example_crypto "\<lambda>_ _. (True, None)" example_org] by simp
qed

text \<open>
  After a downgrade the two ways to use an invitation differ: accepting it with an account is refused for want of a
  seat, signing up with it is not, for sign-up does not look at the plan.
\<close>

definition downgraded_store :: store where
  "downgraded_store = team_store\<lparr>t_org_invites := [\<lparr>oi_id = 1, oi_org_id = 1, oi_token = ''tk'', oi_email = ''cy@x.org'',
     oi_role = ''member'', oi_invited_by = None, oi_expires_at = None, oi_accepted_at = None, oi_sent = True,
     oi_send_error = None, oi_created_at = 0\<rparr>]\<rparr>"

lemma sign_up_takes_no_seat_check:
  "\<exists>invite. open_org_invite 0 ''tk'' downgraded_store = Inr invite \<and>
     member_count 1 downgraded_store = 2 \<and> p_seats (plan_for example_org) = 2 \<and>
     (case enrol example_crypto ''s'' 0 body ''cy@x.org'' (Some invite) downgraded_store of
        Inl _ \<Rightarrow> False | Inr (i, st') \<Rightarrow> member_count 1 st' = 3)"
  by (simp add: open_org_invite_def downgraded_store_def member_count_def enrol_def join_org_def insert_membership_def
      interviewer_by_email_def exists_where_def fresh_id_def Let_def team_rows plan_for_def ENTITLED_STATUSES_def PLANS_def)

end
