(* ===== verification/Signing.thy ===== *)
theory Signing
  imports Grading
begin

section \<open>Signing: the signature on the bodies the platform and the agent exchange\<close>

text \<open>
  \<open>signing.py\<close> and the guard of the callback route that uses it. A body is a list of bytes, here
  characters; HMAC-SHA256 is the parameter \<open>x_hmac\<close>, a hexadecimal digest (\<open>hex_digests\<close>). Clocks are in
  microseconds and \<open>time.time()\<close> is read as whole seconds. \<open>hmac.compare_digest\<close> takes text only when it
  is ASCII and raises otherwise.
\<close>

definition DEFAULT_TOLERANCE_S :: int where
  "DEFAULT_TOLERANCE_S = 300"

definition signed_message :: "int \<Rightarrow> string \<Rightarrow> string" where
  "signed_message ts body = show_int ts @ ''.'' @ body"

definition sign_at :: "externals \<Rightarrow> string \<Rightarrow> string \<Rightarrow> int \<Rightarrow> string" where
  "sign_at x secret body ts = ''t='' @ show_int ts @ '',v1='' @ x_hmac x secret (signed_message ts body)"

definition sign :: "externals \<Rightarrow> instant \<Rightarrow> string \<Rightarrow> string \<Rightarrow> int option \<Rightarrow> string" where
  "sign x now secret body timestamp =
     sign_at x secret body (case timestamp of None \<Rightarrow> now div 1000000 | Some ts \<Rightarrow> ts)"

text \<open>One pass over the parts of the header; a timestamp that is no integer ends it with nothing.\<close>

fun parse_parts :: "string list \<Rightarrow> int option \<Rightarrow> string option \<Rightarrow> int option \<times> string option" where
  "parse_parts [] ts sig = (ts, sig)"
| "parse_parts (part # parts) ts sig =
     (case py_partition (CHR ''='') (py_strip part) of (key, sep, v) \<Rightarrow>
        if \<not> sep then parse_parts parts ts sig
        else if key = ''t'' then
          (case py_int v of None \<Rightarrow> (None, None) | Some n \<Rightarrow> parse_parts parts (Some n) sig)
        else if key = ''v1'' then parse_parts parts ts (Some v)
        else parse_parts parts ts sig)"

definition parse :: "string \<Rightarrow> int option \<times> string option" where
  "parse header = parse_parts (py_split (CHR '','') header) None None"

definition is_ascii :: "string \<Rightarrow> bool" where
  "is_ascii s = list_all (\<lambda>ch. code ch < 128) s"

definition compare_digest :: "string \<Rightarrow> string \<Rightarrow> exn + bool" where
  "compare_digest a b = (if is_ascii a \<and> is_ascii b then Inr (a = b) else Inl TypeError)"

definition verify :: "externals \<Rightarrow> instant \<Rightarrow> string \<Rightarrow> string \<Rightarrow> string option \<Rightarrow> int \<Rightarrow> exn + bool" where
  "verify x now secret body header tolerance_s =
    (case header of
       None \<Rightarrow> Inr False
     | Some h \<Rightarrow>
         if h = [] then Inr False
         else (case parse h of
             (Some ts, Some provided) \<Rightarrow>
               if \<bar>now div 1000000 - ts\<bar> > tolerance_s then Inr False
               else compare_digest (x_hmac x secret (signed_message ts body)) provided
           | _ \<Rightarrow> Inr False))"

definition require_callback_signature :: "settings \<Rightarrow> externals \<Rightarrow> instant \<Rightarrow> string \<Rightarrow> string option \<Rightarrow> exn + unit" where
  "require_callback_signature c x now body header =
    (case c_callback_signing_secret c of
       None \<Rightarrow> Inr ()
     | Some secret \<Rightarrow>
         if secret = [] then Inr ()
         else sbind (verify x now secret body header DEFAULT_TOLERANCE_S) (\<lambda>ok.
           require ok (HTTPException 401 ''invalid or missing callback signature.'')))"

subsection \<open>What a header says\<close>

definition is_hex :: "char \<Rightarrow> bool" where
  "is_hex ch = (ch \<in> set ''0123456789abcdef'')"

definition hex_digests :: "externals \<Rightarrow> bool" where
  "hex_digests x \<longleftrightarrow> (\<forall>secret msg. list_all is_hex (x_hmac x secret msg) \<and>
     x_hmac x secret msg \<noteq> [])"

lemma hex_charD:
  "is_hex ch \<Longrightarrow> \<not> is_space ch \<and> ch \<noteq> CHR '','' \<and> code ch < 128"
  by (auto simp: is_hex_def is_space_def code_def)

lemma split_none: "sep \<notin> set s \<Longrightarrow> py_split sep s = [s]"
  by (induction s) auto

lemma split_once: "sep \<notin> set a \<Longrightarrow> py_split sep (a @ sep # b) = a # py_split sep b"
  by (induction a) auto

lemma partition_at: "sep \<notin> set a \<Longrightarrow> py_partition sep (a @ sep # b) = (a, True, b)"
  by (induction a) auto

lemma show_int_chars: "ch \<in> set (show_int i) \<Longrightarrow> is_digit ch \<or> ch = CHR ''-''"
  by (auto simp: show_int_def split: if_splits dest: show_nat_digits)

lemma show_int_clean: "ch \<in> set (show_int i) \<Longrightarrow> \<not> is_space ch \<and> ch \<noteq> CHR '',''"
  using show_int_chars [of ch i] digit_not_space [of ch] digit_not_comma [of ch]
  by (auto simp: is_space_def code_def)

lemma parse_signature:
  assumes "hex_digests x"
  shows "parse (sign_at x secret body ts) = (Some ts, Some (x_hmac x secret (signed_message ts body)))"
proof -
  let ?d = "x_hmac x secret (signed_message ts body)"
  have d: "ch \<in> set ?d \<Longrightarrow> \<not> is_space ch \<and> ch \<noteq> CHR '',''" for ch
    using assms by (auto simp: hex_digests_def list_all_iff dest!: hex_charD)
  have t: "CHR '','' \<notin> set (''t='' @ show_int ts)" by (auto dest: show_int_clean)
  have v: "CHR '','' \<notin> set (''v1='' @ ?d)" by (auto dest: d)
  have "sign_at x secret body ts = (''t='' @ show_int ts) @ CHR '','' # (''v1='' @ ?d)"
    by (simp add: sign_at_def)
  then have parts: "py_split (CHR '','') (sign_at x secret body ts) = [''t='' @ show_int ts, ''v1='' @ ?d]"
    using split_once [OF t] split_none [OF v] by simp
  have st: "py_strip (''t='' @ show_int ts) = ''t'' @ CHR ''='' # show_int ts"
    by (subst py_strip_no_space) (auto dest: show_int_clean simp: is_space_def code_def)
  have sv: "py_strip (''v1='' @ ?d) = ''v1'' @ CHR ''='' # ?d"
    by (subst py_strip_no_space) (auto dest: d simp: is_space_def code_def)
  show ?thesis
    unfolding parse_def parts parse_parts.simps st sv
    by (subst partition_at, simp, subst partition_at, simp) (simp add: py_int_show_int)
qed

lemma signature_nonempty: "sign_at x secret body ts \<noteq> []"
  by (simp add: sign_at_def)

lemma digest_ascii:
  assumes "hex_digests x"
  shows "is_ascii (x_hmac x secret msg)"
  using assms by (auto simp: hex_digests_def is_ascii_def list_all_iff dest: hex_charD)

text \<open>
  A signature is accepted exactly when it is fresh and of this body: the header made for one body verifies
  against another if and only if the timestamp is within the tolerance of the clock, either way, and the digests of
  the two bodies under that timestamp agree; in particular a fresh signature of the body itself is accepted,
  and what is accepted is never more than the digest of exactly this body under the timestamp the header shows.
\<close>

theorem signature_round_trip:
  assumes "hex_digests x"
  shows "verify x now secret body' (Some (sign x now secret body (Some ts))) tolerance =
     Inr (\<bar>now div 1000000 - ts\<bar> \<le> tolerance \<and>
       x_hmac x secret (signed_message ts body') = x_hmac x secret (signed_message ts body)) \<and>
   (0 \<le> tolerance \<longrightarrow> verify x now secret body (Some (sign x now secret body None)) tolerance = Inr True) \<and>
   (verify x now secret body (Some header) tolerance = Inr True \<longrightarrow>
      (\<exists>n. parse header = (Some n, Some (x_hmac x secret (signed_message n body))) \<and> \<bar>now div 1000000 - n\<bar> \<le> tolerance))"
proof (intro conjI impI)
  have v: "verify x now secret b' (Some (sign_at x secret b n)) tolerance =
     Inr (\<bar>now div 1000000 - n\<bar> \<le> tolerance \<and>
       x_hmac x secret (signed_message n b') = x_hmac x secret (signed_message n b))" for b b' n
    unfolding verify_def option.case parse_signature [OF assms] prod.case
    using signature_nonempty [of x secret b n] by (simp add: compare_digest_def digest_ascii [OF assms])
  show "verify x now secret body' (Some (sign x now secret body (Some ts))) tolerance =
     Inr (\<bar>now div 1000000 - ts\<bar> \<le> tolerance \<and>
       x_hmac x secret (signed_message ts body') = x_hmac x secret (signed_message ts body))"
    unfolding sign_def option.case by (rule v)
  show "verify x now secret body (Some (sign x now secret body None)) tolerance = Inr True" if "0 \<le> tolerance"
    unfolding sign_def option.case v using that by simp
  show "\<exists>n. parse header = (Some n, Some (x_hmac x secret (signed_message n body))) \<and> \<bar>now div 1000000 - n\<bar> \<le> tolerance"
    if "verify x now secret body (Some header) tolerance = Inr True"
    using that by (auto simp: verify_def compare_digest_def split: if_splits prod.splits option.splits)
qed

definition hex_externals :: externals where
  "hex_externals = example_externals\<lparr>x_hmac := (\<lambda>k m. if length m = 3 then ''0a'' else ''0b'')\<rparr>"

lemma signature_round_trip_witness:
  "verify hex_externals 5000000 ''k'' ''b'' (Some (sign hex_externals 5000000 ''k'' ''b'' (Some 2))) 300 = Inr True"
proof -
  have "hex_digests hex_externals" by (simp add: hex_digests_def hex_externals_def is_hex_def)
  then show ?thesis
    using signature_round_trip [where x = hex_externals and now = 5000000 and secret = "''k''" and body' = "''b''"
        and body = "''b''" and ts = 2 and tolerance = 300] by simp
qed

text \<open>
  The verifier means to fail closed on anything off, but text that is not ASCII makes the comparison raise: a header
  with such a byte in the digest is answered 500 rather than 401.
\<close>

lemma non_ascii_signature_raises:
  assumes "\<bar>now div 1000000 - 7\<bar> \<le> DEFAULT_TOLERANCE_S" and "c_callback_signing_secret c = Some ''k''"
  shows "require_callback_signature c x now body (Some (''t=7,v1='' @ [char_of (233 :: nat)])) = Inl TypeError"
proof -
  have "parse (''t=7,v1='' @ [char_of (233 :: nat)]) = (Some 7, Some [char_of (233 :: nat)])"
    by code_simp
  then show ?thesis
    using assms by (simp add: require_callback_signature_def verify_def compare_digest_def is_ascii_def code_char_of)
qed

end
