(* ===== verification/Questions.thy ===== *)
theory Questions
  imports Contact Agent "HOL-Library.List_Lexorder"
begin

section \<open>Questions: what may be stored as a question, and the question routes\<close>

text \<open>
  The question bodies of \<open>schemas.py\<close> with their validators, \<open>question_rules.py\<close>, and the question
  routes of \<open>api.py\<close>. A body record holds the fields after parsing; FastAPI runs a route only on a
  body its validators accept. \<open>json.dumps\<close> is spelled out for test cases, except for the decimal form of
  a float (\<open>x_repr\<close>). The random parts of a generated id are arguments (\<open>tokens\<close>). \<open>others 0\<close>
  stands between the checks of a handler and its commit.
\<close>

subsection \<open>The bodies and their caps\<close>

definition MAX_CASE_STDIN_CHARS :: nat where "MAX_CASE_STDIN_CHARS = 524288"
definition MAX_CASE_EXPECTED_CHARS :: nat where "MAX_CASE_EXPECTED_CHARS = 65536"
definition MAX_TEST_CASES :: nat where "MAX_TEST_CASES = 25"
definition MAX_QUESTION_CASES_BYTES :: nat where "MAX_QUESTION_CASES_BYTES = 12582912"
definition MAX_ID_CHARS :: nat where "MAX_ID_CHARS = 120"
definition MAX_TITLE_CHARS :: nat where "MAX_TITLE_CHARS = 200"
definition MAX_PROMPT_CHARS :: nat where "MAX_PROMPT_CHARS = 20000"
definition MAX_CONSTRAINTS_CHARS :: nat where "MAX_CONSTRAINTS_CHARS = 5000"
definition MAX_EXAMPLE_CHARS :: nat where "MAX_EXAMPLE_CHARS = 8000"
definition MAX_COMPLEXITY_CHARS :: nat where "MAX_COMPLEXITY_CHARS = 120"
definition MAX_LANGUAGE_CHARS :: nat where "MAX_LANGUAGE_CHARS = 40"
definition MAX_CASE_NAME_CHARS :: nat where "MAX_CASE_NAME_CHARS = 200"
definition MAX_CASE_WEIGHT :: rat where "MAX_CASE_WEIGHT = 1000"
definition MAX_CODE_CHARS :: nat where "MAX_CODE_CHARS = 200000"
definition MAX_TIME_LIMIT_S :: rat where "MAX_TIME_LIMIT_S = 10"

definition not_blank :: "string \<Rightarrow> bool" where
  "not_blank s = (py_strip s \<noteq> [])"

definition short :: "nat \<Rightarrow> string option \<Rightarrow> bool" where
  "short n s = (case s of None \<Rightarrow> True | Some t \<Rightarrow> length t \<le> n)"

record test_case_in =
  ci_name :: string
  ci_stdin :: string
  ci_expected :: string
  ci_category :: string
  ci_weight :: rat

definition test_case_in_ok :: "test_case_in \<Rightarrow> bool" where
  "test_case_in_ok t = (not_blank (ci_name t) \<and> length (ci_name t) \<le> MAX_CASE_NAME_CHARS \<and>
     length (ci_stdin t) \<le> MAX_CASE_STDIN_CHARS \<and>
     1 \<le> length (ci_expected t) \<and> length (ci_expected t) \<le> MAX_CASE_EXPECTED_CHARS \<and>
     ci_category t \<in> {''correctness'', ''performance''} \<and>
     0 < ci_weight t \<and> ci_weight t \<le> MAX_CASE_WEIGHT)"

record question_fields =
  qf_title :: string
  qf_prompt :: string
  qf_constraints :: string
  qf_time_limit_s :: rat
  qf_pass_threshold :: rat
  qf_required_complexity :: "string option"
  qf_example_input :: "string option"
  qf_example_output :: "string option"
  qf_difficulty :: "string option"
  qf_reference_solution :: "string option"
  qf_reference_language :: "string option"
  qf_duration_minutes :: "int option"
  qf_test_cases :: "test_case_in list"

record question_create = question_fields +
  qc_id :: "string option"

record variant_create = question_create +
  vc_label :: "string option"

text \<open>\<open>json.dumps\<close> of text with the default \<open>ensure_ascii\<close>.\<close>

definition hex_char :: "nat \<Rightarrow> char" where
  "hex_char d = (if d < 10 then char_of (48 + d) else char_of (87 + d))"

definition json_char :: "char \<Rightarrow> string" where
  "json_char ch = (let n = code ch in
     if n = 34 \<or> n = 92 then [CHR 0x5C, ch]
     else if n = 10 then [CHR 0x5C, CHR ''n'']
     else if n = 13 then [CHR 0x5C, CHR ''r'']
     else if n = 9 then [CHR 0x5C, CHR ''t'']
     else if n = 8 then [CHR 0x5C, CHR ''b'']
     else if n = 12 then [CHR 0x5C, CHR ''f'']
     else if n < 32 \<or> 126 < n then [CHR 0x5C, CHR ''u'', CHR ''0'', CHR ''0'', hex_char (n div 16), hex_char (n mod 16)]
     else [ch])"

definition json_string :: "string \<Rightarrow> string" where
  "json_string s = CHR 0x22 # concat (map json_char s) @ [CHR 0x22]"

definition json_case :: "externals \<Rightarrow> test_case_in \<Rightarrow> string" where
  "json_case x t = ''{'' @ py_join '', '' (map (\<lambda>(k, v). json_string k @ '': '' @ v)
     [(''name'', json_string (ci_name t)), (''stdin'', json_string (ci_stdin t)),
      (''expected'', json_string (ci_expected t)), (''category'', json_string (ci_category t)),
      (''weight'', x_repr x (JFloat (ci_weight t)))]) @ ''}''"

definition cases_bytes :: "externals \<Rightarrow> test_case_in list \<Rightarrow> nat" where
  "cases_bytes x ts = length (''['' @ py_join '', '' (map (json_case x) ts) @ '']'')"

definition cases_ok :: "externals \<Rightarrow> test_case_in list \<Rightarrow> bool" where
  "cases_ok x ts = (distinct (map ci_name ts) \<and> cases_bytes x ts \<le> MAX_QUESTION_CASES_BYTES)"

definition question_fields_ok :: "externals \<Rightarrow> 'a question_fields_scheme \<Rightarrow> bool" where
  "question_fields_ok x b =
    (not_blank (qf_title b) \<and> length (qf_title b) \<le> MAX_TITLE_CHARS \<and>
     not_blank (qf_prompt b) \<and> length (qf_prompt b) \<le> MAX_PROMPT_CHARS \<and>
     not_blank (qf_constraints b) \<and> length (qf_constraints b) \<le> MAX_CONSTRAINTS_CHARS \<and>
     0 < qf_time_limit_s b \<and> qf_time_limit_s b \<le> MAX_TIME_LIMIT_S \<and>
     0 < qf_pass_threshold b \<and> qf_pass_threshold b \<le> 1 \<and>
     short MAX_COMPLEXITY_CHARS (qf_required_complexity b) \<and>
     short MAX_EXAMPLE_CHARS (qf_example_input b) \<and> short MAX_EXAMPLE_CHARS (qf_example_output b) \<and>
     qf_difficulty b \<in> {None, Some ''easy'', Some ''medium'', Some ''hard''} \<and>
     short MAX_CODE_CHARS (qf_reference_solution b) \<and> short MAX_LANGUAGE_CHARS (qf_reference_language b) \<and>
     (case qf_duration_minutes b of None \<Rightarrow> True | Some d \<Rightarrow> 0 < d) \<and>
     length (qf_test_cases b) \<le> MAX_TEST_CASES \<and> list_all test_case_in_ok (qf_test_cases b) \<and>
     cases_ok x (qf_test_cases b))"

definition question_create_ok :: "externals \<Rightarrow> 'a question_create_scheme \<Rightarrow> bool" where
  "question_create_ok x b = (question_fields_ok x b \<and> short MAX_ID_CHARS (qc_id b))"

definition variant_create_ok :: "externals \<Rightarrow> variant_create \<Rightarrow> bool" where
  "variant_create_ok x b = (question_create_ok x b \<and> short MAX_CASE_NAME_CHARS (vc_label b))"

subsection \<open>The floor the agent grades by\<close>

definition MIN_CORRECTNESS_CASES :: nat where
  "MIN_CORRECTNESS_CASES = 4"

definition case_floor_violations :: "string list \<Rightarrow> string list" where
  "case_floor_violations categories =
    (let n_correctness = length (filter (\<lambda>k. k = ''correctness'') categories) in
     (if \<not> list_ex (\<lambda>k. k = ''performance'') categories
      then [''needs at least one '' @ py_repr ''performance'' @ '' test case''] else []) @
     (if n_correctness < MIN_CORRECTNESS_CASES
      then [''needs at least '' @ show_nat MIN_CORRECTNESS_CASES @ '' '' @ py_repr ''correctness'' @ '' test cases (has '' @
            show_nat n_correctness @ '')''] else []))"

definition enforce_case_floor :: "test_case_in list \<Rightarrow> exn + unit" where
  "enforce_case_floor ts =
    (let problems = case_floor_violations (map ci_category ts) in
     require (problems = []) (HTTPException 422 (''question '' @ py_join ''; '' problems @ ''.'')))"

subsection \<open>Ids\<close>

definition slugify :: "string \<Rightarrow> string" where
  "slugify text = (let slug = take 48 (strip_dashes (not_slug_sub False (py_lower text))) in
     if slug = [] then ''item'' else slug)"

text \<open>\<open>tokens k\<close> is the \<open>k\<close>-th draw of three random bytes in hexadecimal, \<open>last_token\<close> the eight digits of a UUID.\<close>

definition generate_id :: "(nat \<Rightarrow> string) \<Rightarrow> string \<Rightarrow> string \<Rightarrow> (string \<Rightarrow> bool) \<Rightarrow> string" where
  "generate_id tokens last_token title exists_id =
    (let base = slugify title in
     case first_where (\<lambda>c. \<not> exists_id c) (map (\<lambda>k. base @ ''-'' @ tokens k) [0..<6]) of
       Some c \<Rightarrow> c
     | None \<Rightarrow> base @ ''-'' @ last_token)"

subsection \<open>Rows\<close>

fun case_rows :: "int \<Rightarrow> string \<Rightarrow> test_case_in list \<Rightarrow> test_case list" where
  "case_rows n qid [] = []"
| "case_rows n qid (t # ts) =
     \<lparr>tc_id = n, tc_question_id = qid, tc_name = ci_name t, tc_stdin = ci_stdin t, tc_expected = ci_expected t,
      tc_category = ci_category t, tc_weight = ci_weight t\<rparr> # case_rows (n + 1) qid ts"

definition question_of :: "instant \<Rightarrow> string \<Rightarrow> int \<Rightarrow> int \<Rightarrow> 'a question_fields_scheme \<Rightarrow> question" where
  "question_of now qid owner_id org_id b =
     \<lparr>q_id = qid, q_owner_id = Some owner_id, q_org_id = org_id, q_title = qf_title b, q_prompt = qf_prompt b,
      q_constraints = qf_constraints b, q_time_limit_s = qf_time_limit_s b, q_pass_threshold = qf_pass_threshold b,
      q_required_complexity = qf_required_complexity b, q_example_input = qf_example_input b,
      q_example_output = qf_example_output b, q_difficulty = qf_difficulty b, q_variant_set_id = None,
      q_variant_label = None, q_reference_solution = qf_reference_solution b,
      q_reference_language = qf_reference_language b, q_duration_minutes = qf_duration_minutes b,
      q_status = ''active'', q_created_at = now\<rparr>"

text \<open>INSERT of a question with its cases, the id being the primary key.\<close>

definition insert_question :: "question \<Rightarrow> test_case_in list \<Rightarrow> store \<Rightarrow> exn + store" where
  "insert_question q ts st =
    (if exists_where (\<lambda>r. q_id r = q_id q) (t_questions st) then Inl IntegrityError
     else Inr (st\<lparr>t_questions := t_questions st @ [q],
                  t_test_cases := t_test_cases st @ case_rows (fresh_id tc_id (t_test_cases st)) (q_id q) ts\<rparr>))"

text \<open>\<open>QuestionOut\<close>: the question without its owner, organisation and set, and its cases.\<close>

record question_out =
  qo_id :: string
  qo_title :: string
  qo_prompt :: string
  qo_constraints :: string
  qo_time_limit_s :: rat
  qo_pass_threshold :: rat
  qo_required_complexity :: "string option"
  qo_example_input :: "string option"
  qo_example_output :: "string option"
  qo_difficulty :: "string option"
  qo_reference_solution :: "string option"
  qo_reference_language :: "string option"
  qo_duration_minutes :: "int option"
  qo_status :: string
  qo_created_at :: instant
  qo_test_cases :: "test_case list"

definition question_out_of :: "question \<Rightarrow> store \<Rightarrow> question_out" where
  "question_out_of q st =
     \<lparr>qo_id = q_id q, qo_title = q_title q, qo_prompt = q_prompt q, qo_constraints = q_constraints q,
      qo_time_limit_s = q_time_limit_s q, qo_pass_threshold = q_pass_threshold q,
      qo_required_complexity = q_required_complexity q, qo_example_input = q_example_input q,
      qo_example_output = q_example_output q, qo_difficulty = q_difficulty q,
      qo_reference_solution = q_reference_solution q, qo_reference_language = q_reference_language q,
      qo_duration_minutes = q_duration_minutes q, qo_status = q_status q, qo_created_at = q_created_at q,
      qo_test_cases = question_cases q st\<rparr>"

subsection \<open>Pages\<close>

record 'a page =
  pg_items :: "'a list"
  pg_total :: nat
  pg_limit :: nat
  pg_offset :: nat

definition page_of :: "nat \<Rightarrow> nat \<Rightarrow> ('r \<Rightarrow> 'a) \<Rightarrow> 'r list \<Rightarrow> 'a page" where
  "page_of limit offset shape rows =
     \<lparr>pg_items = map shape (take limit (drop offset rows)), pg_total = length rows, pg_limit = limit, pg_offset = offset\<rparr>"

text \<open>\<open>order_by(created_at.desc(), id)\<close>.\<close>

definition newest_first :: "('r \<Rightarrow> instant) \<Rightarrow> ('r \<Rightarrow> string) \<Rightarrow> 'r list \<Rightarrow> 'r list" where
  "newest_first created key rows = sort_key (\<lambda>r. - created r) (sort_key (\<lambda>r. map code (key r)) rows)"

subsection \<open>The routes\<close>

definition create_question :: "interference \<Rightarrow> instant \<Rightarrow> (nat \<Rightarrow> string) \<Rightarrow> string \<Rightarrow> question_create \<Rightarrow> interviewer \<Rightarrow>
    membership \<Rightarrow> store \<Rightarrow> (question_out, store) outcome" where
  "create_question others now tokens last_token b current org st =
    (let explicit_id = py_strip (or_empty (qc_id b)) in
     guardr (require (\<not> (explicit_id \<noteq> [] \<and> get_question explicit_id st \<noteq> None))
               (HTTPException 409 (''question '' @ py_repr explicit_id @ '' already exists.''))) st (\<lambda>_.
     let qid = (if explicit_id \<noteq> [] then explicit_id
                else generate_id tokens last_token (qf_title b) (\<lambda>c. get_question c st \<noteq> None)) in
     guardr (enforce_case_floor (qf_test_cases b)) st (\<lambda>_.
     let q = question_of now qid (iv_id current) (m_org_id org) b; st1 = others 0 st in
     guardr (insert_question q (qf_test_cases b) st1) st1 (\<lambda>st2. (Inr (question_out_of q st2), st2)))))"

definition list_questions :: "bool \<Rightarrow> bool \<Rightarrow> nat \<Rightarrow> nat \<Rightarrow> membership \<Rightarrow> store \<Rightarrow> question_out page" where
  "list_questions include_archived include_variants limit offset org st =
     page_of limit offset (\<lambda>q. question_out_of q st)
       (newest_first q_created_at q_id (filter (\<lambda>q. q_org_id q = m_org_id org \<and>
          (include_archived \<or> q_status q = ''active'') \<and> (include_variants \<or> q_variant_set_id q = None)) (t_questions st)))"

definition read_question :: "string \<Rightarrow> membership \<Rightarrow> store \<Rightarrow> exn + question_out" where
  "read_question qid org st = sbind (owned_question qid org st) (\<lambda>q. Inr (question_out_of q st))"

definition edited :: "'a question_fields_scheme \<Rightarrow> question \<Rightarrow> question" where
  "edited b q = q\<lparr>q_title := qf_title b, q_prompt := qf_prompt b, q_constraints := qf_constraints b,
     q_time_limit_s := qf_time_limit_s b, q_pass_threshold := qf_pass_threshold b,
     q_required_complexity := qf_required_complexity b, q_example_input := qf_example_input b,
     q_example_output := qf_example_output b, q_difficulty := qf_difficulty b,
     q_reference_solution := qf_reference_solution b, q_reference_language := qf_reference_language b,
     q_duration_minutes := qf_duration_minutes b\<rparr>"

text \<open>The whole set of cases is replaced: the new rows are inserted, the old ones are deleted as orphans.\<close>

definition update_question :: "string \<Rightarrow> question_fields \<Rightarrow> membership \<Rightarrow> store \<Rightarrow> (question_out, store) outcome" where
  "update_question qid b org st =
    guardr (owned_question qid org st) st (\<lambda>q.
    guardr (enforce_case_floor (qf_test_cases b)) st (\<lambda>_.
    let st1 = st\<lparr>t_questions := upd_where (\<lambda>r. q_id r = qid) (edited b) (t_questions st),
          t_test_cases := del_where (\<lambda>r. tc_question_id r = qid) (t_test_cases st) @
            case_rows (fresh_id tc_id (t_test_cases st)) qid (qf_test_cases b)\<rparr>
    in (Inr (question_out_of (edited b q) st1), st1)))"

definition set_question_status :: "string \<Rightarrow> string \<Rightarrow> membership \<Rightarrow> store \<Rightarrow> (question_out, store) outcome" where
  "set_question_status status qid org st =
    guardr (owned_question qid org st) st (\<lambda>q.
    let st1 = st\<lparr>t_questions := upd_where (\<lambda>r. q_id r = qid) (\<lambda>r. r\<lparr>q_status := status\<rparr>) (t_questions st)\<rparr>
    in (Inr (question_out_of (q\<lparr>q_status := status\<rparr>) st1), st1))"

definition archive_question :: "string \<Rightarrow> membership \<Rightarrow> store \<Rightarrow> (question_out, store) outcome" where
  "archive_question = set_question_status ''archived''"

definition unarchive_question :: "string \<Rightarrow> membership \<Rightarrow> store \<Rightarrow> (question_out, store) outcome" where
  "unarchive_question = set_question_status ''active''"

subsection \<open>Deleting a question\<close>

definition question_invites :: "string \<Rightarrow> store \<Rightarrow> int list" where
  "question_invites qid st = map inv_id (filter (\<lambda>v. inv_question_id v = Some qid) (t_invites st))"

definition question_activity :: "string \<Rightarrow> store \<Rightarrow> nat" where
  "question_activity qid st =
    (let ids = set (question_invites qid st) in
     count_where (\<lambda>r. at_invite_id r \<in> ids) (t_attempts st) +
     count_where (\<lambda>r. ev_invite_id r \<in> ids \<or> ev_question_id r = Some qid) (t_events st))"

definition deletable :: "string \<Rightarrow> store \<Rightarrow> exn + unit" where
  "deletable qid st =
    (let submissions = count_where (\<lambda>s. s_question_id s = qid) (t_submissions st);
         slots = map aq_assessment_id (filter (\<lambda>r. aq_question_id r = Some qid) (t_assessment_questions st));
         assigned = count_where (\<lambda>r. sv_question_id r = qid) (t_slot_variants st);
         refused = (\<lambda>why. Inl (HTTPException 409 (''cannot delete question '' @ py_repr qid @ '': '' @ why)))
     in if submissions \<noteq> 0
        then refused (show_nat submissions @ '' submission(s) are recorded against it. Revoke its invites instead.'')
        else if slots \<noteq> []
        then refused (''it is a slot in assessment(s) '' @ py_join '', '' (sort_key (map code) (remdups slots)) @
               ''. Remove it from the assessment first.'')
        else if assigned \<noteq> 0
        then refused (''it is a variant already assigned to '' @ show_nat assigned @ '' candidate sitting(s).'')
        else if question_activity qid st \<noteq> 0
        then refused ''candidate activity is recorded against it. Revoke its invites instead.''
        else Inr ())"

text \<open>The rows that hold a foreign key to the question or to one of its links.\<close>

definition question_referenced :: "string \<Rightarrow> int set \<Rightarrow> store \<Rightarrow> bool" where
  "question_referenced qid ids st =
    (exists_where (\<lambda>s. s_question_id s = qid \<or> (case s_invite_id s of None \<Rightarrow> False | Some i \<Rightarrow> i \<in> ids)) (t_submissions st) \<or>
     exists_where (\<lambda>r. aq_question_id r = Some qid) (t_assessment_questions st) \<or>
     exists_where (\<lambda>r. sv_question_id r = qid \<or> sv_invite_id r \<in> ids) (t_slot_variants st) \<or>
     exists_where (\<lambda>r. ev_question_id r = Some qid \<or> ev_invite_id r \<in> ids) (t_events st) \<or>
     exists_where (\<lambda>r. at_invite_id r \<in> ids) (t_attempts st) \<or>
     exists_where (\<lambda>r. dr_question_id r = qid \<or> dr_invite_id r \<in> ids) (t_drafts st))"

text \<open>The question goes with its drafts, cases and links; the foreign keys are checked as they are deleted.\<close>

definition delete_question :: "interference \<Rightarrow> string \<Rightarrow> membership \<Rightarrow> store \<Rightarrow> (unit, store) outcome" where
  "delete_question others qid org st =
    guardr (owned_question qid org st) st (\<lambda>q.
    guardr (deletable qid st) st (\<lambda>_.
    let st1 = others 0 st;
        ids = set (question_invites qid st1);
        st2 = st1\<lparr>t_drafts := del_where (\<lambda>r. dr_question_id r = qid) (t_drafts st1),
                  t_test_cases := del_where (\<lambda>r. tc_question_id r = qid) (t_test_cases st1),
                  t_invites := del_where (\<lambda>v. inv_question_id v = Some qid) (t_invites st1),
                  t_questions := del_where (\<lambda>r. q_id r = qid) (t_questions st1)\<rparr>
    in if question_referenced qid ids st2 then (Inl IntegrityError, st1) else (Inr (), st2)))"

end
