(* ===== verification/Assessments.thy ===== *)
theory Assessments
  imports Questions Sitting
begin

section \<open>Assessments: variant sets and the ordered slots of an assessment\<close>

text \<open>
  The variant-set and assessment routes of \<open>api.py\<close> with their bodies. A slot is a fixed question or a
  variant set; the body says so by two optional texts, of which an empty one counts as unset for
  the validator but not for the route. \<open>others 0\<close> stands between the checks of a handler and its writes;
  an UPDATE whose row is gone by then raises.
\<close>

subsection \<open>Variant sets\<close>

definition owned_variant_set :: "string \<Rightarrow> membership \<Rightarrow> store \<Rightarrow> exn + variant_set" where
  "owned_variant_set set_id org st =
    (case first_where (\<lambda>v. vs_id v = set_id) (t_variant_sets st) of
       Some v \<Rightarrow> if vs_org_id v = m_org_id org then Inr v
                 else Inl (HTTPException 404 (''no variant set with id '' @ py_repr set_id @ ''.''))
     | None \<Rightarrow> Inl (HTTPException 404 (''no variant set with id '' @ py_repr set_id @ ''.'')))"

record variant_set_create =
  vb_id :: "string option"
  vb_title :: string
  vb_brief :: string
  vb_language :: string
  vb_difficulty :: "string option"
  vb_target_complexity :: "string option"
  vb_variants :: "variant_create list"

definition MAX_BRIEF_CHARS :: nat where "MAX_BRIEF_CHARS = 20000"

definition variant_set_create_ok :: "externals \<Rightarrow> variant_set_create \<Rightarrow> bool" where
  "variant_set_create_ok x b =
    (short MAX_ID_CHARS (vb_id b) \<and> not_blank (vb_title b) \<and> length (vb_title b) \<le> MAX_TITLE_CHARS \<and>
     length (vb_brief b) \<le> MAX_BRIEF_CHARS \<and> length (vb_language b) \<le> MAX_LANGUAGE_CHARS \<and>
     short MAX_COMPLEXITY_CHARS (vb_difficulty b) \<and> short MAX_COMPLEXITY_CHARS (vb_target_complexity b) \<and>
     2 \<le> length (vb_variants b) \<and> length (vb_variants b) \<le> 8 \<and> list_all (variant_create_ok x) (vb_variants b))"

definition VARIANT_LABELS :: string where
  "VARIANT_LABELS = ''ABCDEFGH''"

definition variant_label_of :: "nat \<Rightarrow> string option \<Rightarrow> string" where
  "variant_label_of i label = (if or_empty label \<noteq> [] then or_empty label
     else if i < length VARIANT_LABELS then [VARIANT_LABELS ! i] else show_nat (i + 1))"

text \<open>One pass over the variants: the floor, a fresh id that no sibling of the batch has taken, the row.\<close>

fun variant_questions :: "instant \<Rightarrow> (nat \<Rightarrow> nat \<Rightarrow> string) \<Rightarrow> (nat \<Rightarrow> string) \<Rightarrow> string \<Rightarrow> int \<Rightarrow> int \<Rightarrow> store \<Rightarrow> nat \<Rightarrow>
    string list \<Rightarrow> variant_create list \<Rightarrow> exn + (question \<times> test_case_in list) list" where
  "variant_questions now tokens last_token set_id owner org_id st i taken [] = Inr []"
| "variant_questions now tokens last_token set_id owner org_id st i taken (v # vs) =
     sbind (enforce_case_floor (qf_test_cases v)) (\<lambda>_.
     let qid = generate_id (tokens i) (last_token i) (if qf_title v \<noteq> [] then qf_title v else ''variant'')
                 (\<lambda>c. c \<in> set taken \<or> get_question c st \<noteq> None);
         q = (question_of now qid owner org_id v)\<lparr>q_variant_set_id := Some set_id,
               q_variant_label := Some (variant_label_of i (vc_label v))\<rparr>
     in sbind (variant_questions now tokens last_token set_id owner org_id st (Suc i) (qid # taken) vs) (\<lambda>rest.
        Inr ((q, qf_test_cases v) # rest)))"

fun insert_questions :: "(question \<times> test_case_in list) list \<Rightarrow> store \<Rightarrow> exn + store" where
  "insert_questions [] st = Inr st"
| "insert_questions ((q, ts) # qs) st = sbind (insert_question q ts st) (insert_questions qs)"

record variant_out =
  vo_question :: question_out
  vo_variant_label :: "string option"

record variant_set_out =
  vso_id :: string
  vso_title :: string
  vso_brief :: string
  vso_language :: string
  vso_difficulty :: "string option"
  vso_target_complexity :: "string option"
  vso_status :: string
  vso_created_at :: instant
  vso_variants :: "variant_out list"

definition variant_out_of :: "store \<Rightarrow> question \<Rightarrow> variant_out" where
  "variant_out_of st q = \<lparr>vo_question = question_out_of q st, vo_variant_label = q_variant_label q\<rparr>"

definition variant_set_out_of :: "variant_set \<Rightarrow> question list \<Rightarrow> store \<Rightarrow> variant_set_out" where
  "variant_set_out_of v qs st = 
     \<lparr>vso_id = vs_id v, vso_title = vs_title v, vso_brief = vs_brief v, vso_language = vs_language v,
      vso_difficulty = vs_difficulty v, vso_target_complexity = vs_target_complexity v, vso_status = vs_status v,
      vso_created_at = vs_created_at v, vso_variants = map (variant_out_of st) qs\<rparr>"

definition create_variant_set :: "interference \<Rightarrow> instant \<Rightarrow> (nat \<Rightarrow> string) \<Rightarrow> string \<Rightarrow> (nat \<Rightarrow> nat \<Rightarrow> string) \<Rightarrow> (nat \<Rightarrow> string) \<Rightarrow>
    variant_set_create \<Rightarrow> interviewer \<Rightarrow> membership \<Rightarrow> store \<Rightarrow> (variant_set_out, store) outcome" where
  "create_variant_set others now set_tokens set_last tokens last_token b current org st =
    (let exists_set = (\<lambda>c s. exists_where (\<lambda>v. vs_id v = c) (t_variant_sets s));
         explicit = py_strip (or_empty (vb_id b));
         set_id = (if explicit \<noteq> [] then explicit
                   else generate_id set_tokens set_last (vb_title b) (\<lambda>c. exists_set c st))
     in guardr (require (\<not> exists_set set_id st)
                  (HTTPException 409 (''variant set '' @ py_repr set_id @ '' already exists.''))) st (\<lambda>_.
        guardr (variant_questions now tokens last_token set_id (iv_id current) (m_org_id org) st 0 [] (vb_variants b)) st (\<lambda>qs.
        let v = \<lparr>vs_id = set_id, vs_owner_id = Some (iv_id current), vs_org_id = m_org_id org, vs_title = vb_title b,
                 vs_brief = vb_brief b, vs_language = vb_language b, vs_difficulty = vb_difficulty b,
                 vs_target_complexity = vb_target_complexity b, vs_status = ''active'', vs_created_at = now\<rparr>;
            st1 = others 0 st
        in if exists_set set_id st1 then (Inl IntegrityError, st1)
           else guardr (insert_questions qs (st1\<lparr>t_variant_sets := t_variant_sets st1 @ [v]\<rparr>)) st1 (\<lambda>st2.
             (Inr (variant_set_out_of v (map fst qs) st2), st2)))))"

definition variant_count :: "string \<Rightarrow> store \<Rightarrow> nat" where
  "variant_count set_id st = count_where (\<lambda>q. q_variant_set_id q = Some set_id) (t_questions st)"

record variant_set_summary =
  vsm_id :: string
  vsm_title :: string
  vsm_language :: string
  vsm_difficulty :: "string option"
  vsm_variant_count :: nat
  vsm_status :: string
  vsm_created_at :: instant

definition variant_set_summary_of :: "store \<Rightarrow> variant_set \<Rightarrow> variant_set_summary" where
  "variant_set_summary_of st v = \<lparr>vsm_id = vs_id v, vsm_title = vs_title v, vsm_language = vs_language v,
     vsm_difficulty = vs_difficulty v, vsm_variant_count = variant_count (vs_id v) st, vsm_status = vs_status v,
     vsm_created_at = vs_created_at v\<rparr>"

definition list_variant_sets :: "bool \<Rightarrow> nat \<Rightarrow> nat \<Rightarrow> membership \<Rightarrow> store \<Rightarrow> variant_set_summary page" where
  "list_variant_sets include_archived limit offset org st =
     page_of limit offset (variant_set_summary_of st)
       (newest_first vs_created_at vs_id (filter (\<lambda>v. vs_org_id v = m_org_id org \<and>
          (include_archived \<or> vs_status v = ''active'')) (t_variant_sets st)))"

definition read_variant_set :: "string \<Rightarrow> membership \<Rightarrow> store \<Rightarrow> exn + variant_set_out" where
  "read_variant_set set_id org st =
     sbind (owned_variant_set set_id org st) (\<lambda>v. Inr (variant_set_out_of v (set_variants set_id st) st))"

subsection \<open>The bodies of an assessment\<close>

record slot_in =
  sl_question_id :: "string option"
  sl_variant_set_id :: "string option"

definition slot_in_ok :: "slot_in \<Rightarrow> bool" where
  "slot_in_ok s = (short MAX_ID_CHARS (sl_question_id s) \<and> short MAX_ID_CHARS (sl_variant_set_id s) \<and>
     (or_empty (sl_question_id s) \<noteq> []) \<noteq> (or_empty (sl_variant_set_id s) \<noteq> []))"

definition MAX_ASSESSMENT_SLOTS :: nat where "MAX_ASSESSMENT_SLOTS = 20"

record assessment_body =
  ab_question_ids :: "string list option"
  ab_slots :: "slot_in list option"
  ab_id :: "string option"
  ab_title :: string
  ab_duration_minutes :: "int option"
  ab_org_name :: "string option"
  ab_proctored :: bool

definition ordered_slots :: "assessment_body \<Rightarrow> slot_in list" where
  "ordered_slots b = (case ab_slots b of
     Some ss \<Rightarrow> ss
   | None \<Rightarrow> map (\<lambda>i. \<lparr>sl_question_id = Some i, sl_variant_set_id = None\<rparr>)
       (case ab_question_ids b of None \<Rightarrow> [] | Some ids \<Rightarrow> ids))"

definition assessment_body_ok :: "assessment_body \<Rightarrow> bool" where
  "assessment_body_ok b =
    (\<not> (ab_question_ids b \<noteq> None \<and> ab_slots b \<noteq> None) \<and> ordered_slots b \<noteq> [] \<and>
     length (ordered_slots b) \<le> MAX_ASSESSMENT_SLOTS \<and> list_all slot_in_ok (ordered_slots b) \<and>
     short MAX_ID_CHARS (ab_id b) \<and> not_blank (ab_title b) \<and> length (ab_title b) \<le> MAX_TITLE_CHARS \<and>
     short MAX_TITLE_CHARS (ab_org_name b) \<and> (case ab_duration_minutes b of None \<Rightarrow> True | Some d \<Rightarrow> 0 < d))"

subsection \<open>The slots as rows\<close>

text \<open>What a slot is, apart from its place: the fixed question or the variant set.\<close>

type_synonym signature = "string option \<times> string option"

definition slot_sig :: "slot_in \<Rightarrow> signature" where
  "slot_sig s = (sl_question_id s, sl_variant_set_id s)"

definition row_sig :: "assessment_question \<Rightarrow> signature" where
  "row_sig r = (aq_question_id r, aq_variant_set_id r)"

fun slot_targets :: "membership \<Rightarrow> store \<Rightarrow> slot_in list \<Rightarrow> exn + signature list" where
  "slot_targets org st [] = Inr []"
| "slot_targets org st (s # ss) =
     sbind (case sl_question_id s of
         Some qid \<Rightarrow> sbind (owned_question qid org st) (\<lambda>_. Inr (Some qid, None))
       | None \<Rightarrow> (case sl_variant_set_id s of
           None \<Rightarrow> Inl AssertionError
         | Some set_id \<Rightarrow> sbind (owned_variant_set set_id org st) (\<lambda>_. Inr (None, Some set_id)))) (\<lambda>target.
     sbind (slot_targets org st ss) (\<lambda>rest. Inr (target # rest)))"

definition somes :: "'a option list \<Rightarrow> 'a list" where
  "somes xs = map the (filter (\<lambda>y. y \<noteq> None) xs)"

definition membership_rows :: "slot_in list \<Rightarrow> membership \<Rightarrow> store \<Rightarrow> exn + signature list" where
  "membership_rows slots org st =
    sbind (require (distinct (somes (map sl_question_id slots))) (HTTPException 400 ''a question may appear at most once.'')) (\<lambda>_.
    sbind (require (distinct (somes (map sl_variant_set_id slots))) (HTTPException 400 ''a variant set may appear at most once.'')) (\<lambda>_.
    slot_targets org st slots))"

fun rows_from :: "int \<Rightarrow> int \<Rightarrow> string \<Rightarrow> signature list \<Rightarrow> assessment_question list" where
  "rows_from n pos aid [] = []"
| "rows_from n pos aid ((q, v) # ts) =
     \<lparr>aq_id = n, aq_assessment_id = aid, aq_question_id = q, aq_variant_set_id = v, aq_position = pos\<rparr>
     # rows_from (n + 1) (pos + 1) aid ts"

text \<open>INSERT of the rows: what they point at must still be there.\<close>

definition target_exists :: "store \<Rightarrow> signature \<Rightarrow> bool" where
  "target_exists st t =
    ((case fst t of None \<Rightarrow> True | Some i \<Rightarrow> exists_where (\<lambda>q. q_id q = i) (t_questions st)) \<and>
     (case snd t of None \<Rightarrow> True | Some i \<Rightarrow> exists_where (\<lambda>v. vs_id v = i) (t_variant_sets st)))"

definition add_slots :: "string \<Rightarrow> signature list \<Rightarrow> store \<Rightarrow> exn + store" where
  "add_slots aid ts st =
    (if list_all (target_exists st) ts
     then Inr (st\<lparr>t_assessment_questions := t_assessment_questions st @
            rows_from (fresh_id aq_id (t_assessment_questions st)) 0 aid ts\<rparr>)
     else Inl IntegrityError)"

definition assessment_has_invite :: "string \<Rightarrow> store \<Rightarrow> bool" where
  "assessment_has_invite aid st = exists_where (\<lambda>v. inv_assessment_id v = Some aid) (t_invites st)"

record slot_out =
  so_question_id :: "string option"
  so_variant_set_id :: "string option"
  so_variant_count :: "nat option"
  so_position :: int
  so_title :: string

definition slot_out_of :: "store \<Rightarrow> assessment_question \<Rightarrow> slot_out" where
  "slot_out_of st r =
    (case aq_variant_set_id r of
       Some set_id \<Rightarrow> \<lparr>so_question_id = None, so_variant_set_id = Some set_id,
         so_variant_count = Some (variant_count set_id st), so_position = aq_position r,
         so_title = (case first_where (\<lambda>v. vs_id v = set_id) (t_variant_sets st) of
            None \<Rightarrow> set_id | Some v \<Rightarrow> vs_title v)\<rparr>
     | None \<Rightarrow> \<lparr>so_question_id = aq_question_id r, so_variant_set_id = None, so_variant_count = None,
         so_position = aq_position r,
         so_title = (case Option.bind (aq_question_id r) (\<lambda>i. get_question i st) of
            Some q \<Rightarrow> q_title q | None \<Rightarrow> or_empty (aq_question_id r))\<rparr>)"

record assessment_out =
  ao_id :: string
  ao_title :: string
  ao_duration_minutes :: "int option"
  ao_org_name :: "string option"
  ao_logo_sha :: "string option"
  ao_proctored :: bool
  ao_status :: string
  ao_created_at :: instant
  ao_questions :: "slot_out list"

definition assessment_out_of :: "assessment \<Rightarrow> store \<Rightarrow> assessment_out" where
  "assessment_out_of a st = 
     \<lparr>ao_id = a_id a, ao_title = a_title a, ao_duration_minutes = a_duration_minutes a, ao_org_name = a_org_name a,
      ao_logo_sha = a_logo_sha a, ao_proctored = a_proctored a, ao_status = a_status a, ao_created_at = a_created_at a,
      ao_questions = map (slot_out_of st) (assessment_slots a st)\<rparr>"

subsection \<open>The assessment routes\<close>

definition branding_name :: "assessment_body \<Rightarrow> organization \<Rightarrow> string" where
  "branding_name b g = (if or_empty (ab_org_name b) \<noteq> [] then or_empty (ab_org_name b) else o_name g)"

definition create_assessment :: "interference \<Rightarrow> instant \<Rightarrow> (nat \<Rightarrow> string) \<Rightarrow> string \<Rightarrow> assessment_body \<Rightarrow> interviewer \<Rightarrow>
    membership \<Rightarrow> store \<Rightarrow> (assessment_out, store) outcome" where
  "create_assessment others now tokens last_token b current org st =
    guardr (organization_row (m_org_id org) st) st (\<lambda>g.
    let explicit_id = py_strip (or_empty (ab_id b)) in
    guardr (require (\<not> (explicit_id \<noteq> [] \<and> get_assessment explicit_id st \<noteq> None))
              (HTTPException 409 (''assessment '' @ py_repr explicit_id @ '' already exists.''))) st (\<lambda>_.
    let aid = (if explicit_id \<noteq> [] then explicit_id
               else generate_id tokens last_token (ab_title b) (\<lambda>c. get_assessment c st \<noteq> None)) in
    guardr (membership_rows (ordered_slots b) org st) st (\<lambda>targets.
    let a = \<lparr>a_id = aid, a_owner_id = Some (iv_id current), a_org_id = m_org_id org, a_title = ab_title b,
             a_duration_minutes = ab_duration_minutes b, a_org_name = Some (branding_name b g),
             a_logo_sha = o_logo_sha g, a_proctored = ab_proctored b, a_status = ''active'', a_created_at = now\<rparr>;
        st1 = others 0 st
    in if get_assessment aid st1 \<noteq> None then (Inl IntegrityError, st1)
       else guardr (add_slots aid targets (st1\<lparr>t_assessments := t_assessments st1 @ [a]\<rparr>)) st1 (\<lambda>st2.
              (Inr (assessment_out_of a st2), st2)))))"

definition list_assessments :: "bool \<Rightarrow> nat \<Rightarrow> nat \<Rightarrow> membership \<Rightarrow> store \<Rightarrow> assessment_out page" where
  "list_assessments include_archived limit offset org st =
     page_of limit offset (\<lambda>a. assessment_out_of a st)
       (newest_first a_created_at a_id (filter (\<lambda>a. a_org_id a = m_org_id org \<and>
          (include_archived \<or> a_status a = ''active'')) (t_assessments st)))"

definition read_assessment :: "string \<Rightarrow> membership \<Rightarrow> store \<Rightarrow> exn + assessment_out" where
  "read_assessment aid org st = sbind (owned_assessment aid org st) (\<lambda>a. Inr (assessment_out_of a st))"

definition clear_slots :: "string \<Rightarrow> store \<Rightarrow> exn + store" where
  "clear_slots aid st =
    (let gone = map aq_id (filter (\<lambda>r. aq_assessment_id r = aid) (t_assessment_questions st)) in
     if exists_where (\<lambda>r. sv_assessment_question_id r \<in> set gone) (t_slot_variants st) then Inl IntegrityError
     else Inr (st\<lparr>t_assessment_questions := del_where (\<lambda>r. aq_assessment_id r = aid) (t_assessment_questions st)\<rparr>))"

definition restyled :: "assessment_body \<Rightarrow> string \<Rightarrow> assessment \<Rightarrow> assessment" where
  "restyled b name a = a\<lparr>a_title := ab_title b, a_duration_minutes := ab_duration_minutes b,
     a_org_name := Some name, a_proctored := ab_proctored b\<rparr>"

definition update_assessment :: "interference \<Rightarrow> string \<Rightarrow> assessment_body \<Rightarrow> membership \<Rightarrow> store \<Rightarrow>
    (assessment_out, store) outcome" where
  "update_assessment others aid b org st =
    guardr (owned_assessment aid org st) st (\<lambda>a.
    let new_slots = ordered_slots b;
        changed = (map slot_sig new_slots \<noteq> map row_sig (assessment_slots a st)) in
    guardr (require (\<not> (changed \<and> assessment_has_invite aid st)) (HTTPException 409
              (''this assessment's question set can't change: it has already been sent as an invite. '' @
               ''Create a new assessment instead.''))) st (\<lambda>_.
    guardr (if or_empty (ab_org_name b) \<noteq> [] then Inr (or_empty (ab_org_name b))
            else sbind (organization_row (m_org_id org) st) (\<lambda>g. Inr (o_name g))) st (\<lambda>name.
    let st1 = others 0 st;
        st2 = st1\<lparr>t_assessments := upd_where (\<lambda>r. a_id r = aid) (restyled b name) (t_assessments st1)\<rparr>
    in guardr (if get_assessment aid st1 = None then Inl (RuntimeError ''UPDATE expected to match 1 row'')
               else if \<not> changed then Inr st2
               else sbind (clear_slots aid st2) (\<lambda>st3.
                 sbind (membership_rows new_slots org st3) (\<lambda>targets. add_slots aid targets st3))) st1 (\<lambda>st4.
       (Inr (assessment_out_of (restyled b name a) st4), st4)))))"

definition set_assessment_status :: "string \<Rightarrow> string \<Rightarrow> membership \<Rightarrow> store \<Rightarrow> (assessment_out, store) outcome" where
  "set_assessment_status status aid org st =
    guardr (owned_assessment aid org st) st (\<lambda>a.
    let st1 = st\<lparr>t_assessments := upd_where (\<lambda>r. a_id r = aid) (\<lambda>r. r\<lparr>a_status := status\<rparr>) (t_assessments st)\<rparr>
    in (Inr (assessment_out_of (a\<lparr>a_status := status\<rparr>) st1), st1))"

definition archive_assessment :: "string \<Rightarrow> membership \<Rightarrow> store \<Rightarrow> (assessment_out, store) outcome" where
  "archive_assessment = set_assessment_status ''archived''"

definition unarchive_assessment :: "string \<Rightarrow> membership \<Rightarrow> store \<Rightarrow> (assessment_out, store) outcome" where
  "unarchive_assessment = set_assessment_status ''active''"

text \<open>
  Deleting takes the slot rows with it; a link that appeared after the check is detached from the
  assessment by the ORM.
\<close>

definition delete_assessment :: "interference \<Rightarrow> string \<Rightarrow> membership \<Rightarrow> store \<Rightarrow> (unit, store) outcome" where
  "delete_assessment others aid org st =
    guardr (owned_assessment aid org st) st (\<lambda>a.
    let n = count_where (\<lambda>v. inv_assessment_id v = Some aid) (t_invites st) in
    guardr (require (n = 0) (HTTPException 409 (''cannot delete assessment '' @ py_repr aid @ '': '' @ show_nat n @
              '' invite(s) point at it. Archive it instead.''))) st (\<lambda>_.
    let st1 = others 0 st in
    guardr (clear_slots aid st1) st1 (\<lambda>st2.
      (Inr (), st2\<lparr>t_invites := upd_where (\<lambda>v. inv_assessment_id v = Some aid) (\<lambda>v. v\<lparr>inv_assessment_id := None\<rparr>) (t_invites st2),
                   t_assessments := del_where (\<lambda>r. a_id r = aid) (t_assessments st2)\<rparr>))))"

end
