(* ===== verification/Library.thy ===== *)
theory Library
  imports Assessments
begin

section \<open>Library: what authoring never does to sittings that were sent\<close>

text \<open>
  The authoring routes together, as requests of any members in any order, each with what its
  siblings commit in between. \<open>library_invariant\<close> is the contract an invariant of the library meets,
  one law per kind of write; the foreign keys the routes could break (\<open>refs_ok\<close>) and the slots of an
  assessment that has been sent (\<open>frozen\<close>) meet it.
\<close>

datatype library_op =
    NewQuestion "nat \<Rightarrow> string" string question_create interviewer
  | EditQuestion string question_fields
  | ArchiveQuestion string
  | UnarchiveQuestion string
  | DeleteQuestion string
  | NewVariantSet "nat \<Rightarrow> string" string "nat \<Rightarrow> nat \<Rightarrow> string" "nat \<Rightarrow> string" variant_set_create interviewer
  | NewAssessment "nat \<Rightarrow> string" string assessment_body interviewer
  | EditAssessment string assessment_body
  | ArchiveAssessment string
  | UnarchiveAssessment string
  | DeleteAssessment string

record library_request =
  lr_others :: interference
  lr_now :: instant
  lr_org :: membership
  lr_op :: library_op

definition perform_library :: "library_request \<Rightarrow> store \<Rightarrow> store" where
  "perform_library r st =
    (let others = lr_others r; now = lr_now r; org = lr_org r in
     case lr_op r of
       NewQuestion tokens last_token b current \<Rightarrow> snd (create_question others now tokens last_token b current org st)
     | EditQuestion qid b \<Rightarrow> snd (update_question qid b org st)
     | ArchiveQuestion qid \<Rightarrow> snd (archive_question qid org st)
     | UnarchiveQuestion qid \<Rightarrow> snd (unarchive_question qid org st)
     | DeleteQuestion qid \<Rightarrow> snd (delete_question others qid org st)
     | NewVariantSet sts sl tokens last_token b current \<Rightarrow>
         snd (create_variant_set others now sts sl tokens last_token b current org st)
     | NewAssessment tokens last_token b current \<Rightarrow> snd (create_assessment others now tokens last_token b current org st)
     | EditAssessment aid b \<Rightarrow> snd (update_assessment others aid b org st)
     | ArchiveAssessment aid \<Rightarrow> snd (archive_assessment aid org st)
     | UnarchiveAssessment aid \<Rightarrow> snd (unarchive_assessment aid org st)
     | DeleteAssessment aid \<Rightarrow> snd (delete_assessment others aid org st))"

fun perform_requests :: "library_request list \<Rightarrow> store \<Rightarrow> store" where
  "perform_requests [] st = st"
| "perform_requests (r # rs) st = perform_requests rs (perform_library r st)"

text \<open>
  The pattern of every invariant below: a request keeps it when its siblings do and each of the
  store's changes does.
\<close>

lemma perform_requests_keeps:
  assumes "\<And>r s. r \<in> set rs \<Longrightarrow> P s \<Longrightarrow> P (perform_library r s)" and "P st"
  shows "P (perform_requests rs st)"
  using assms by (induction rs arbitrary: st) auto

subsection \<open>What a stored question says, as a body\<close>

definition case_in_of :: "test_case \<Rightarrow> test_case_in" where
  "case_in_of r = \<lparr>ci_name = tc_name r, ci_stdin = tc_stdin r, ci_expected = tc_expected r,
     ci_category = tc_category r, ci_weight = tc_weight r\<rparr>"

definition fields_of :: "question \<Rightarrow> test_case_in list \<Rightarrow> question_fields" where
  "fields_of q ts = \<lparr>qf_title = q_title q, qf_prompt = q_prompt q, qf_constraints = q_constraints q,
     qf_time_limit_s = q_time_limit_s q, qf_pass_threshold = q_pass_threshold q,
     qf_required_complexity = q_required_complexity q, qf_example_input = q_example_input q,
     qf_example_output = q_example_output q, qf_difficulty = q_difficulty q,
     qf_reference_solution = q_reference_solution q, qf_reference_language = q_reference_language q,
     qf_duration_minutes = q_duration_minutes q, qf_test_cases = ts\<rparr>"

lemma fields_of_question_of:
  "question_fields_ok x (fields_of (question_of now qid o' g b) (qf_test_cases b)) = question_fields_ok x b"
  by (simp add: question_fields_ok_def fields_of_def question_of_def)

lemma fields_of_edited:
  "question_fields_ok x (fields_of (edited b q) (qf_test_cases b)) = question_fields_ok x b"
  by (simp add: question_fields_ok_def fields_of_def edited_def)

lemma fields_of_set_simps:
  "fields_of (q\<lparr>q_variant_set_id := v, q_variant_label := l\<rparr>) ts = fields_of q ts"
  "fields_of (q\<lparr>q_status := u\<rparr>) ts = fields_of q ts"
  by (simp_all add: fields_of_def)

text \<open>FastAPI hands a route only a body its validators accept.\<close>

definition request_ok :: "externals \<Rightarrow> library_request \<Rightarrow> bool" where
  "request_ok x r = (case lr_op r of
     NewQuestion _ _ b _ \<Rightarrow> question_create_ok x b
   | EditQuestion _ b \<Rightarrow> question_fields_ok x b
   | NewVariantSet _ _ _ _ b _ \<Rightarrow> variant_set_create_ok x b
   | NewAssessment _ _ b _ \<Rightarrow> assessment_body_ok b
   | EditAssessment _ b \<Rightarrow> assessment_body_ok b
   | _ \<Rightarrow> True)"

subsection \<open>The contract of an invariant\<close>

definition has_question :: "string \<Rightarrow> store \<Rightarrow> bool" where
  "has_question i st = exists_where (\<lambda>q. q_id q = i) (t_questions st)"

definition has_set :: "string \<Rightarrow> store \<Rightarrow> bool" where
  "has_set i st = exists_where (\<lambda>v. vs_id v = i) (t_variant_sets st)"

locale library_invariant =
  fixes x :: externals and P :: "store \<Rightarrow> bool"
  assumes ins: "P s \<Longrightarrow> insert_question q ts s = Inr s' \<Longrightarrow> question_fields_ok x (fields_of q ts) \<Longrightarrow>
      enforce_case_floor ts = Inr () \<Longrightarrow> pred_option (\<lambda>i. has_set i s) (q_variant_set_id q) \<Longrightarrow> P s'"
    and edit: "P s \<Longrightarrow> has_question qid s \<Longrightarrow> question_fields_ok x (b :: question_fields) \<Longrightarrow> enforce_case_floor (qf_test_cases b) = Inr () \<Longrightarrow>
      P (s\<lparr>t_questions := upd_where (\<lambda>r. q_id r = qid) (edited b) (t_questions s),
          t_test_cases := del_where (\<lambda>r. tc_question_id r = qid) (t_test_cases s) @
            case_rows (fresh_id tc_id (t_test_cases s)) qid (qf_test_cases b)\<rparr>)"
    and retire: "P s \<Longrightarrow> P (s\<lparr>t_questions := upd_where (\<lambda>r. q_id r = qid) (\<lambda>r. r\<lparr>q_status := status\<rparr>) (t_questions s)\<rparr>)"
    and remove: "P s \<Longrightarrow>
      s' = s\<lparr>t_drafts := del_where (\<lambda>r. dr_question_id r = qid) (t_drafts s),
             t_test_cases := del_where (\<lambda>r. tc_question_id r = qid) (t_test_cases s),
             t_invites := del_where (\<lambda>v. inv_question_id v = Some qid) (t_invites s),
             t_questions := del_where (\<lambda>r. q_id r = qid) (t_questions s)\<rparr> \<Longrightarrow>
      \<not> question_referenced qid (set (question_invites qid s)) s' \<Longrightarrow> P s'"
    and new_set: "P s \<Longrightarrow> P (s\<lparr>t_variant_sets := t_variant_sets s @ [v]\<rparr>)"
    and new_assessment: "P s \<Longrightarrow> get_assessment (a_id a) s = None \<Longrightarrow>
      add_slots (a_id a) targets (s\<lparr>t_assessments := t_assessments s @ [a]\<rparr>) = Inr s' \<Longrightarrow> P s'"
    and restyle: "P s \<Longrightarrow> (\<And>a. a_id (f a) = a_id a) \<Longrightarrow>
      P (s\<lparr>t_assessments := upd_where (\<lambda>r. a_id r = aid) f (t_assessments s)\<rparr>)"
    and reslot: "P s0 \<Longrightarrow> get_assessment aid s0 \<noteq> None \<Longrightarrow> \<not> assessment_has_invite aid s0 \<Longrightarrow> P s \<Longrightarrow>
      get_assessment aid s \<noteq> None \<Longrightarrow> clear_slots aid s = Inr s1 \<Longrightarrow> add_slots aid targets s1 = Inr s' \<Longrightarrow> P s'"
    and drop: "P s0 \<Longrightarrow> get_assessment aid s0 \<noteq> None \<Longrightarrow> \<not> assessment_has_invite aid s0 \<Longrightarrow> P s \<Longrightarrow>
      clear_slots aid s = Inr s1 \<Longrightarrow>
      P (s1\<lparr>t_invites := upd_where (\<lambda>v. inv_assessment_id v = Some aid) (\<lambda>v. v\<lparr>inv_assessment_id := None\<rparr>) (t_invites s1),
            t_assessments := del_where (\<lambda>r. a_id r = aid) (t_assessments s1)\<rparr>)"

context library_invariant
begin

lemma insert_all:
  assumes "insert_questions qs s = Inr s'" and "P s" and "has_set i s"
    and "\<And>q ts. (q, ts) \<in> set qs \<Longrightarrow> question_fields_ok x (fields_of q ts) \<and> enforce_case_floor ts = Inr () \<and> q_variant_set_id q = Some i"
  shows "P s'"
  using assms
proof (induction qs s rule: insert_questions.induct)
  case (1 st)
  then show ?case by simp
next
  case (2 q ts qs st)
  from "2.prems"(1) obtain s1 where s1: "insert_question q ts st = Inr s1" and rest: "insert_questions qs s1 = Inr s'"
    by (auto elim: sbind_InrE)
  have vs: "t_variant_sets s1 = t_variant_sets st"
    using s1 by (auto simp: insert_question_def split: if_splits)
  have "P s1"
    using ins [OF "2.prems"(2) s1] "2.prems"(3) "2.prems"(4) [of q ts] by simp
  moreover have "has_set i s1" using "2.prems"(3) by (simp add: has_set_def vs)
  ultimately show ?case by (rule "2.IH" [OF rest]) (use "2.prems"(4) in auto)
qed

end

lemma variant_questions_sound:
  assumes "variant_questions now tokens last_token i owner g st k taken vs = Inr qs"
    and "list_all (variant_create_ok x) vs" and "(q, ts) \<in> set qs"
  shows "question_fields_ok x (fields_of q ts) \<and> enforce_case_floor ts = Inr () \<and> q_variant_set_id q = Some i"
  using assms
proof (induction vs arbitrary: k taken qs)
  case Nil
  then show ?case by simp
next
  case (Cons v vs)
  from Cons.prems(1) obtain rest qid q' taken' where fl: "enforce_case_floor (qf_test_cases v) = Inr ()"
    and q': "q' = (question_of now qid owner g v)\<lparr>q_variant_set_id := Some i, q_variant_label := Some (variant_label_of k (vc_label v))\<rparr>"
    and rest: "variant_questions now tokens last_token i owner g st (Suc k) taken' vs = Inr rest"
    and qs: "qs = (q', qf_test_cases v) # rest"
    by (auto simp: Let_def elim!: sbind_InrE)
  show ?case
  proof (cases "(q, ts) = (q', qf_test_cases v)")
    case True
    moreover have "question_fields_ok x v"
      using Cons.prems(2) by (simp add: variant_create_ok_def question_create_ok_def)
    ultimately show ?thesis
      using fl by (simp add: q' fields_of_set_simps fields_of_question_of)
  next
    case False
    then have "(q, ts) \<in> set rest" using Cons.prems(3) by (auto simp: qs)
    then show ?thesis using Cons.IH [OF rest] Cons.prems(2) by simp
  qed
qed

text \<open>A handler ends in the store it found, in the one its siblings left, or in the one it wrote.\<close>

lemma create_question_store:
  "snd (create_question others now tokens lt b current org st) = st \<or>
   snd (create_question others now tokens lt b current org st) = others 0 st \<or>
   (\<exists>qid. enforce_case_floor (qf_test_cases b) = Inr () \<and>
      insert_question (question_of now qid (iv_id current) (m_org_id org) b) (qf_test_cases b) (others 0 st) =
        Inr (snd (create_question others now tokens lt b current org st)))"
  by (auto simp: create_question_def Let_def guardr_def split: sum.splits)

lemma owned_has_question: "owned_question qid org st = Inr q \<Longrightarrow> has_question qid st"
  by (auto dest!: owned_question_InrD simp: Tables.get_question_def has_question_def exists_where_find)

context library_invariant
begin

lemma question_requests:
  assumes "P st" and "\<And>k s. P s \<Longrightarrow> P (others k s)"
  shows "question_create_ok x b \<Longrightarrow> P (snd (create_question others now tokens lt b current org st))"
    and "question_fields_ok x b' \<Longrightarrow> P (snd (update_question qid b' org st))"
    and "P (snd (set_question_status status qid org st))"
    and "P (snd (delete_question others qid org st))"
proof -
  show "P (snd (create_question others now tokens lt b current org st))" if "question_create_ok x b"
  proof -
    have b: "question_fields_ok x b" using that by (simp add: question_create_ok_def)
    have "P s'" if "insert_question (question_of now i o' g b) (qf_test_cases b) (others 0 st) = Inr s'"
        "enforce_case_floor (qf_test_cases b) = Inr ()" for i o' g s'
    proof (rule ins [OF assms(2) [OF assms(1)] that(1)])
      show "question_fields_ok x (fields_of (question_of now i o' g b) (qf_test_cases b))"
        using b by (simp add: fields_of_question_of)
    qed (simp_all add: that(2) question_of_def)
    then show ?thesis using create_question_store [of others now tokens lt b current org st] assms by auto
  qed
  show "P (snd (update_question qid b' org st))" if "question_fields_ok x b'"
    unfolding update_question_def
    by (intro guardr_keeps [where P = P] assms(1))
      (auto simp: Let_def intro!: edit assms(1) that owned_has_question)
  show "P (snd (set_question_status status qid org st))"
    unfolding set_question_status_def by (intro guardr_keeps [where P = P] assms(1)) (simp add: Let_def retire assms(1))
  show "P (snd (delete_question others qid org st))"
    unfolding delete_question_def
    by (intro guardr_keeps [where P = P] assms(1))
      (auto simp: Let_def assms intro: remove [OF assms(2) [OF assms(1)] refl])
qed

lemma assessment_requests:
  assumes "P st" and "\<And>k s. P s \<Longrightarrow> P (others k s)"
  shows "variant_set_create_ok x b \<Longrightarrow>
      P (snd (create_variant_set others now sts sl tokens lt b current org st))"
    and "P (snd (create_assessment others now atokens alt ab current org st))"
    and "P (snd (update_assessment others aid ab org st))"
    and "P (snd (set_assessment_status status aid org st))"
    and "P (snd (delete_assessment others aid org st))"
proof -
  have o: "P (others 0 st)" using assms by blast
  show "P (snd (create_variant_set others now sts sl tokens lt b current org st))" if "variant_set_create_ok x b"
  proof -
    have ok: "list_all (variant_create_ok x) (vb_variants b)" using that by (simp add: variant_set_create_ok_def)
    have "P s'" if "variant_questions now tokens lt i ow g st 0 [] (vb_variants b) = Inr qs"
        and "insert_questions qs ((others 0 st)\<lparr>t_variant_sets := t_variant_sets (others 0 st) @ [v]\<rparr>) = Inr s'"
        and "vs_id v = i" for i ow g qs v s'
      by (rule insert_all [OF that(2) new_set [OF o]])
        (use variant_questions_sound [OF that(1) ok] in \<open>auto simp: has_set_def exists_where_iff that(3)\<close>)
    then show ?thesis
      unfolding create_variant_set_def Let_def
      by (auto simp: guardr_def assms o split: sum.splits)
  qed
  show "P (snd (create_assessment others now atokens alt ab current org st))"
  proof -
    have "P s'" if "add_slots i ts ((others 0 st)\<lparr>t_assessments := t_assessments (others 0 st) @ [a]\<rparr>) = Inr s'"
        and "get_assessment i (others 0 st) = None" and "a_id a = i" for i ts a s'
      using new_assessment [OF o, of a ts s'] that by simp
    then show ?thesis
      unfolding create_assessment_def Let_def
      by (intro guardr_keeps [where P = P] assms(1)) (auto simp: guardr_def o split: sum.splits)
  qed
  show "P (snd (set_assessment_status status aid org st))"
    unfolding set_assessment_status_def
    by (intro guardr_keeps [where P = P] assms(1)) (simp add: Let_def restyle assms(1))
  show "P (snd (update_assessment others aid ab org st))"
  proof -
    have s2: "P ((others 0 st)\<lparr>t_assessments := upd_where (\<lambda>r. a_id r = aid) (restyled ab name) (t_assessments (others 0 st))\<rparr>)" for name
      by (rule restyle [OF o]) (simp add: restyled_def)
    have ga: "get_assessment aid ((others 0 st)\<lparr>t_assessments := upd_where (\<lambda>r. a_id r = aid) (restyled ab name) (t_assessments (others 0 st))\<rparr>) \<noteq> None"
      if "get_assessment aid (others 0 st) \<noteq> None" for name
      using that by (simp add: get_assessment_def find_upd_where restyled_def)
    show ?thesis
      unfolding update_assessment_def Let_def
      by (intro guardr_keeps [where P = P] assms(1) o)
        (auto simp: s2 owned_assessment_def split: if_splits option.splits elim!: sbind_InrE
          intro: reslot [OF assms(1) _ _ s2 ga])
  qed
  show "P (snd (delete_assessment others aid org st))"
    unfolding delete_assessment_def Let_def
    by (intro guardr_keeps [where P = P] assms(1) o)
      (auto simp: owned_assessment_def assessment_has_invite_def exists_where_iff count_where_zero
        split: if_splits option.splits intro!: drop [OF assms(1) _ _ o])
qed

lemma perform_library_keeps:
  assumes "P st" and "\<And>k s. P s \<Longrightarrow> P (lr_others r k s)" and "request_ok x r"
  shows "P (perform_library r st)"
  using assms(3) question_requests [OF assms(1,2)] assessment_requests [OF assms(1,2)]
  by (cases "lr_op r")
    (simp_all add: perform_library_def request_ok_def archive_question_def unarchive_question_def
      archive_assessment_def unarchive_assessment_def)

end

subsection \<open>Foreign keys\<close>

definition has_assessment :: "string \<Rightarrow> store \<Rightarrow> bool" where
  "has_assessment i st = exists_where (\<lambda>a. a_id a = i) (t_assessments st)"

definition has_invite :: "int \<Rightarrow> store \<Rightarrow> bool" where
  "has_invite i st = exists_where (\<lambda>v. inv_id v = i) (t_invites st)"

definition has_slot :: "int \<Rightarrow> store \<Rightarrow> bool" where
  "has_slot i st = exists_where (\<lambda>r. aq_id r = i) (t_assessment_questions st)"

text \<open>Every foreign key between the authored rows and the rows of sittings points at a row.\<close>

definition authored_refs_ok :: "store \<Rightarrow> bool" where
  "authored_refs_ok st =
    ((\<forall>r\<in>set (t_test_cases st). has_question (tc_question_id r) st) \<and>
     (\<forall>q\<in>set (t_questions st). pred_option (\<lambda>i. has_set i st) (q_variant_set_id q)) \<and>
     (\<forall>r\<in>set (t_assessment_questions st). has_assessment (aq_assessment_id r) st \<and>
        pred_option (\<lambda>i. has_question i st) (aq_question_id r) \<and> pred_option (\<lambda>i. has_set i st) (aq_variant_set_id r)) \<and>
     (\<forall>v\<in>set (t_invites st). pred_option (\<lambda>i. has_question i st) (inv_question_id v) \<and>
        pred_option (\<lambda>i. has_assessment i st) (inv_assessment_id v) \<and> pred_option (\<lambda>i. has_set i st) (inv_variant_set_id v)))"

definition sitting_refs_ok :: "store \<Rightarrow> bool" where
  "sitting_refs_ok st =
    ((\<forall>s\<in>set (t_submissions st). has_question (s_question_id s) st \<and> pred_option (\<lambda>i. has_invite i st) (s_invite_id s)) \<and>
     (\<forall>r\<in>set (t_results st). exists_where (\<lambda>s. s_id s = r_submission_id r) (t_submissions st)) \<and>
     (\<forall>r\<in>set (t_attempts st). has_invite (at_invite_id r) st) \<and>
     (\<forall>r\<in>set (t_slot_variants st). has_invite (sv_invite_id r) st \<and> has_question (sv_question_id r) st \<and>
        has_slot (sv_assessment_question_id r) st) \<and>
     (\<forall>r\<in>set (t_events st). has_invite (ev_invite_id r) st \<and> pred_option (\<lambda>i. has_question i st) (ev_question_id r)) \<and>
     (\<forall>r\<in>set (t_drafts st). has_invite (dr_invite_id r) st \<and> has_question (dr_question_id r) st) \<and>
     (\<forall>r\<in>set (t_feedback st). exists_where (\<lambda>a. at_id a = fb_attempt_id r) (t_attempts st)))"

definition refs_ok :: "store \<Rightarrow> bool" where
  "refs_ok st = (authored_refs_ok st \<and> sitting_refs_ok st)"

text \<open>What a reference needs of the tables it points into.\<close>

definition grows :: "store \<Rightarrow> store \<Rightarrow> bool" where
  "grows st st' = ((\<forall>i. has_question i st \<longrightarrow> has_question i st') \<and> (\<forall>i. has_set i st \<longrightarrow> has_set i st') \<and>
     (\<forall>i. has_assessment i st \<longrightarrow> has_assessment i st') \<and> (\<forall>i. has_invite i st \<longrightarrow> has_invite i st') \<and>
     (\<forall>i. has_slot i st \<longrightarrow> has_slot i st'))"

definition same_sittings :: "store \<Rightarrow> store \<Rightarrow> bool" where
  "same_sittings st st' = (t_submissions st' = t_submissions st \<and> t_results st' = t_results st \<and>
     t_attempts st' = t_attempts st \<and> t_slot_variants st' = t_slot_variants st \<and> t_events st' = t_events st \<and>
     t_feedback st' = t_feedback st)"

lemma sitting_refs_grow:
  assumes "sitting_refs_ok st" and "grows st st'" and "same_sittings st st'" and "t_drafts st' = t_drafts st"
  shows "sitting_refs_ok st'"
  using assms unfolding sitting_refs_ok_def grows_def same_sittings_def by (auto elim!: option.pred_mono_strong)

lemmas has_defs = has_question_def has_set_def has_assessment_def has_invite_def has_slot_def exists_where_iff

lemma exists_upd_where:
  "(\<And>r. f (g r) = f r) \<Longrightarrow> exists_where (\<lambda>r. f r = i) (upd_where p g t) = exists_where (\<lambda>r. f r = i) t"
  by (induction t) (auto simp: exists_where_def)

lemma rows_from_in:
  "r \<in> set (rows_from n pos aid ts) \<Longrightarrow> aq_assessment_id r = aid \<and> (aq_question_id r, aq_variant_set_id r) \<in> set ts"
  by (induction n pos aid ts rule: rows_from.induct) auto

lemma case_rows_in: "r \<in> set (case_rows n qid ts) \<Longrightarrow> tc_question_id r = qid"
  by (induction ts arbitrary: n) auto

lemma add_slots_refs:
  assumes "add_slots aid ts s = Inr s'" and "refs_ok s" and "has_assessment aid s"
  shows "refs_ok s'"
proof -
  from assms(1) have s': "s' = s\<lparr>t_assessment_questions := t_assessment_questions s @
        rows_from (fresh_id aq_id (t_assessment_questions s)) 0 aid ts\<rparr>"
    and ok: "list_all (target_exists s) ts"
    by (auto simp: add_slots_def split: if_splits)
  have g: "grows s s'" by (auto simp: grows_def s' has_defs)
  have h: "has_question i s' = has_question i s" "has_set i s' = has_set i s" "has_assessment i s' = has_assessment i s"
    "has_assessment aid s'" for i
    using assms(3) by (simp_all add: s' has_defs)
  have t: "pred_option (\<lambda>i. has_question i s) q \<and> pred_option (\<lambda>i. has_set i s) v" if "(q, v) \<in> set ts" for q v
  proof -
    have "target_exists s (q, v)" using that ok by (auto simp: list_all_iff)
    then show ?thesis by (cases q; cases v) (simp_all add: target_exists_def has_question_def has_set_def)
  qed
  have "authored_refs_ok s'"
    using assms(2) t unfolding authored_refs_ok_def refs_ok_def h(1-3)
    by (auto simp: s' dest!: rows_from_in) (use h(4) in \<open>simp_all add: s' has_defs\<close>)
  moreover have "sitting_refs_ok s'"
    by (rule sitting_refs_grow [OF _ g]) (use assms(2) in \<open>auto simp: refs_ok_def same_sittings_def s'\<close>)
  ultimately show ?thesis by (simp add: refs_ok_def)
qed

lemma refs_insert_question:
  assumes "refs_ok s" and "insert_question q ts s = Inr s'" and "pred_option (\<lambda>i. has_set i s) (q_variant_set_id q)"
  shows "refs_ok s'"
proof -
  from assms(2) have s': "s' = s\<lparr>t_questions := t_questions s @ [q],
      t_test_cases := t_test_cases s @ case_rows (fresh_id tc_id (t_test_cases s)) (q_id q) ts\<rparr>"
    by (auto simp: insert_question_def split: if_splits)
  have g: "grows s s'" by (auto simp: grows_def s' has_defs)
  have h: "has_set i s' = has_set i s" "has_assessment i s' = has_assessment i s"
    "has_question i s' \<longleftrightarrow> has_question i s \<or> i = q_id q" for i
    by (auto simp: s' has_defs)
  have "authored_refs_ok s'"
    using assms(1,3) unfolding authored_refs_ok_def refs_ok_def h
    by (auto simp: s' dest!: case_rows_in elim!: option.pred_mono_strong)
  moreover have "sitting_refs_ok s'"
    by (rule sitting_refs_grow [OF _ g]) (use assms(1) in \<open>auto simp: refs_ok_def same_sittings_def s'\<close>)
  ultimately show ?thesis by (simp add: refs_ok_def)
qed

text \<open>A change that keeps the keys of the rows keeps every reference.\<close>

lemma refs_same_keys:
  assumes "refs_ok s" and "map (\<lambda>q. (q_id q, q_variant_set_id q)) (t_questions s') = map (\<lambda>q. (q_id q, q_variant_set_id q)) (t_questions s)"
    and "map a_id (t_assessments s') = map a_id (t_assessments s)"
    and "t_variant_sets s' = t_variant_sets s" and "t_invites s' = t_invites s"
    and "t_assessment_questions s' = t_assessment_questions s" and "same_sittings s s'" and "t_drafts s' = t_drafts s"
    and "\<forall>r\<in>set (t_test_cases s'). has_question (tc_question_id r) s"
  shows "refs_ok s'"
proof -
  have ids: "map q_id (t_questions s') = map q_id (t_questions s)"
    using arg_cong [OF assms(2), of "map fst"] by (simp add: comp_def)
  have hq: "has_question i s' = has_question i s" for i
    using arg_cong [OF ids, of "\<lambda>l. i \<in> set l"] by (auto simp: has_defs image_iff)
  have ha: "has_assessment i s' = has_assessment i s" for i
    using arg_cong [OF assms(3), of "\<lambda>l. i \<in> set l"] by (auto simp: has_defs image_iff)
  have h: "has_set i s' = has_set i s" "has_invite k s' = has_invite k s" "has_slot k s' = has_slot k s" for i k
    using assms(4-6) by (simp_all add: has_defs)
  have vq: "pred_option (\<lambda>i. has_set i s) (q_variant_set_id q)" if "q \<in> set (t_questions s')" for q
  proof -
    have "(q_id q, q_variant_set_id q) \<in> set (map (\<lambda>q. (q_id q, q_variant_set_id q)) (t_questions s))"
      using that by (subst assms(2) [symmetric]) auto
    then show ?thesis using assms(1) by (auto simp: refs_ok_def authored_refs_ok_def)
  qed
  have "authored_refs_ok s'"
    using assms(1) vq assms(9) unfolding authored_refs_ok_def refs_ok_def hq ha h assms(5,6) by blast
  moreover have "sitting_refs_ok s'"
    by (rule sitting_refs_grow [OF _ _ assms(7,8)]) (use assms(1) in \<open>auto simp: refs_ok_def grows_def hq ha h\<close>)
  ultimately show ?thesis by (simp add: refs_ok_def)
qed

lemma refs_clear_slots:
  assumes "clear_slots aid s = Inr s1" and "refs_ok s"
  shows "refs_ok s1 \<and> (\<forall>i. has_assessment i s1 = has_assessment i s) \<and>
    (\<forall>r\<in>set (t_assessment_questions s1). aq_assessment_id r \<noteq> aid)"
proof -
  from assms(1) have s1: "s1 = s\<lparr>t_assessment_questions := del_where (\<lambda>r. aq_assessment_id r = aid) (t_assessment_questions s)\<rparr>"
    and free: "r \<in> set (t_slot_variants s) \<Longrightarrow> a \<in> set (t_assessment_questions s) \<Longrightarrow>
      aq_id a = sv_assessment_question_id r \<Longrightarrow> aq_assessment_id a \<noteq> aid" for r a
    by (auto simp: clear_slots_def Let_def exists_where_iff image_iff split: if_splits) (metis (no_types, lifting))
  have h: "has_question i s1 = has_question i s" "has_set i s1 = has_set i s" "has_assessment i s1 = has_assessment i s"
    "has_invite k s1 = has_invite k s" for i k
    by (simp_all add: s1 has_defs)
  have "has_slot (sv_assessment_question_id r) s1" if r: "r \<in> set (t_slot_variants s)" for r
  proof -
    have "has_slot (sv_assessment_question_id r) s" using assms(2) r by (simp add: refs_ok_def sitting_refs_ok_def)
    then obtain a where "a \<in> set (t_assessment_questions s)" "aq_id a = sv_assessment_question_id r"
      by (auto simp: has_slot_def exists_where_iff)
    with free [OF r] show ?thesis by (auto simp: s1 has_slot_def exists_where_iff)
  qed
  then have "sitting_refs_ok s1"
    using assms(2) unfolding sitting_refs_ok_def refs_ok_def h by (simp add: s1)
  moreover have "authored_refs_ok s1"
    using assms(2) unfolding authored_refs_ok_def refs_ok_def h by (simp add: s1)
  ultimately show ?thesis by (simp add: refs_ok_def h) (simp add: s1)
qed

lemma refs_remove:
  assumes "refs_ok s" and "\<not> question_referenced qid (set (question_invites qid s)) s'"
    and s': "s' = s\<lparr>t_drafts := del_where (\<lambda>r. dr_question_id r = qid) (t_drafts s),
             t_test_cases := del_where (\<lambda>r. tc_question_id r = qid) (t_test_cases s),
             t_invites := del_where (\<lambda>v. inv_question_id v = Some qid) (t_invites s),
             t_questions := del_where (\<lambda>r. q_id r = qid) (t_questions s)\<rparr>"
  shows "refs_ok s'"
proof -
  have hq: "has_question i s' \<longleftrightarrow> has_question i s \<and> i \<noteq> qid" for i by (auto simp: s' has_defs)
  have hi: "has_invite i s'" if "has_invite i s" "i \<notin> set (question_invites qid s)" for i
    using that by (auto simp: s' has_defs question_invites_def)
  have h: "has_set i s' = has_set i s" "has_assessment i s' = has_assessment i s" "has_slot k s' = has_slot k s" for i k
    by (simp_all add: s' has_defs)
  note free = assms(2) [unfolded question_referenced_def exists_where_iff s', simplified]
  have "authored_refs_ok s'"
    using assms(1) free unfolding authored_refs_ok_def refs_ok_def h
    by (auto simp: s' hq [unfolded s'] elim!: option.pred_mono_strong split: option.splits)
  moreover have "sitting_refs_ok s'"
    using assms(1) free unfolding sitting_refs_ok_def refs_ok_def h
    by (auto simp: s' hq [unfolded s'] intro!: hi [unfolded s'] split: option.splits elim!: option.pred_mono_strong)
  ultimately show ?thesis by (simp add: refs_ok_def)
qed

lemma refs_drop:
  assumes "refs_ok s1" and "\<forall>r\<in>set (t_assessment_questions s1). aq_assessment_id r \<noteq> aid"
    and s': "s' = s1\<lparr>t_invites := upd_where (\<lambda>v. inv_assessment_id v = Some aid) (\<lambda>v. v\<lparr>inv_assessment_id := None\<rparr>) (t_invites s1),
            t_assessments := del_where (\<lambda>r. a_id r = aid) (t_assessments s1)\<rparr>"
  shows "refs_ok s'"
proof -
  have h: "has_question i s' = has_question i s1" "has_set i s' = has_set i s1" "has_slot k s' = has_slot k s1"
    "has_assessment i s' \<longleftrightarrow> has_assessment i s1 \<and> i \<noteq> aid" "has_invite k s' = has_invite k s1" for i k
  proof -
    show "has_invite k s' = has_invite k s1"
      unfolding has_invite_def s' by (simp add: exists_upd_where)
  qed (auto simp: s' has_defs)
  have k: "pred_option (\<lambda>i. has_assessment i s1 \<and> i \<noteq> aid) k"
    if "pred_option (\<lambda>i. has_assessment i s1) k" "k \<noteq> Some aid" for k
    using that by (cases k) auto
  have v: "pred_option (\<lambda>i. has_question i s1) (inv_question_id v) \<and>
      pred_option (\<lambda>i. has_assessment i s1 \<and> i \<noteq> aid) (inv_assessment_id v) \<and>
      pred_option (\<lambda>i. has_set i s1) (inv_variant_set_id v)" if vin: "v \<in> set (t_invites s')" for v
  proof -
    obtain w where "w \<in> set (t_invites s1)" and "v = (if inv_assessment_id w = Some aid then w\<lparr>inv_assessment_id := None\<rparr> else w)"
      using vin by (auto simp: s' in_upd_where)
    then show ?thesis
      using assms(1) k [of "inv_assessment_id w"] by (cases "inv_assessment_id w = Some aid") (auto simp: refs_ok_def authored_refs_ok_def)
  qed
  have "authored_refs_ok s'"
    using assms(1,2) v unfolding authored_refs_ok_def refs_ok_def h by (simp add: s')
  moreover have "sitting_refs_ok s'"
    using assms(1) unfolding sitting_refs_ok_def refs_ok_def h by (simp add: s')
  ultimately show ?thesis by (simp add: refs_ok_def)
qed

lemma get_assessment_has: "get_assessment i s \<noteq> None \<longleftrightarrow> has_assessment i s"
  by (simp add: get_assessment_def has_assessment_def exists_where_find)

lemma edited_keys [simp]: "q_id (edited b q) = q_id q" "q_variant_set_id (edited b q) = q_variant_set_id q"
  by (simp_all add: edited_def)

interpretation refs: library_invariant x refs_ok for x
proof (unfold_locales, goal_cases)
  case (1 s q ts s')
  then show ?case by (metis refs_insert_question)
next
  case (2 s qid b)
  show ?case
    by (rule refs_same_keys [OF 2(1)])
      (use 2(1,2) in \<open>auto simp: map_upd_where same_sittings_def refs_ok_def authored_refs_ok_def dest!: case_rows_in\<close>)
next
  case (3 s qid status)
  show ?case
    by (rule refs_same_keys [OF 3])
      (use 3 in \<open>auto simp: map_upd_where same_sittings_def refs_ok_def authored_refs_ok_def\<close>)
next
  case (4 s s' qid)
  then show ?case by (metis refs_remove)
next
  case (5 s v)
  have g: "grows s (s\<lparr>t_variant_sets := t_variant_sets s @ [v]\<rparr>)" by (auto simp: grows_def has_defs)
  have "sitting_refs_ok (s\<lparr>t_variant_sets := t_variant_sets s @ [v]\<rparr>)"
    by (rule sitting_refs_grow [OF _ g]) (use 5 in \<open>simp_all add: refs_ok_def same_sittings_def\<close>)
  moreover have "authored_refs_ok (s\<lparr>t_variant_sets := t_variant_sets s @ [v]\<rparr>)"
    using 5 unfolding refs_ok_def authored_refs_ok_def
    by (auto simp: has_defs elim!: option.pred_mono_strong)
  ultimately show ?case by (simp add: refs_ok_def)
next
  case (6 s a targets s')
  have "refs_ok (s\<lparr>t_assessments := t_assessments s @ [a]\<rparr>)"
  proof -
    have g: "grows s (s\<lparr>t_assessments := t_assessments s @ [a]\<rparr>)" by (auto simp: grows_def has_defs)
    have "sitting_refs_ok (s\<lparr>t_assessments := t_assessments s @ [a]\<rparr>)"
      by (rule sitting_refs_grow [OF _ g]) (use 6(1) in \<open>simp_all add: refs_ok_def same_sittings_def\<close>)
    moreover have "authored_refs_ok (s\<lparr>t_assessments := t_assessments s @ [a]\<rparr>)"
      using 6(1) unfolding refs_ok_def authored_refs_ok_def
      by (auto simp: has_defs elim!: option.pred_mono_strong)
    ultimately show ?thesis by (simp add: refs_ok_def)
  qed
  then show ?case by (rule add_slots_refs [OF 6(3)]) (simp add: has_defs)
next
  case (7 s f aid)
  show ?case
    by (rule refs_same_keys [OF 7(1)])
      (use 7 in \<open>auto simp: map_upd_where same_sittings_def refs_ok_def authored_refs_ok_def\<close>)
next
  case (8 s0 aid s s1 targets s')
  with refs_clear_slots [OF 8(6) 8(4)] show ?case
    by (intro add_slots_refs [OF 8(7)]) (simp_all add: get_assessment_has [symmetric])
next
  case (9 s0 aid s s1)
  with refs_clear_slots [OF 9(5) 9(4)] show ?case by (intro refs_drop [OF _ _ refl]) auto
qed

subsection \<open>An assessment that was sent keeps its slots\<close>

definition sent :: "string \<Rightarrow> store \<Rightarrow> bool" where
  "sent aid st = (get_assessment aid st \<noteq> None \<and>
     exists_where (\<lambda>v. inv_assessment_id v = Some aid \<and> inv_question_id v = None) (t_invites st))"

definition slot_rows :: "string \<Rightarrow> store \<Rightarrow> assessment_question list" where
  "slot_rows aid st = filter (\<lambda>r. aq_assessment_id r = aid) (t_assessment_questions st)"

definition frozen :: "string \<Rightarrow> assessment_question list \<Rightarrow> store \<Rightarrow> bool" where
  "frozen aid rows st = (sent aid st \<and> slot_rows aid st = rows \<and>
     (\<forall>r\<in>set rows. pred_option (\<lambda>i. has_question i st) (aq_question_id r)))"

lemma sent_has_invite: "sent aid st \<Longrightarrow> assessment_has_invite aid st"
  by (auto simp: sent_def assessment_has_invite_def exists_where_iff)

lemma clear_slots_eq:
  "clear_slots aid s = Inr s1 \<Longrightarrow>
   s1 = s\<lparr>t_assessment_questions := del_where (\<lambda>r. aq_assessment_id r = aid) (t_assessment_questions s)\<rparr>"
  by (auto simp: clear_slots_def Let_def split: if_splits)

lemma slot_rows_other:
  "clear_slots aid s = Inr s1 \<Longrightarrow> a \<noteq> aid \<Longrightarrow> slot_rows a s1 = slot_rows a s"
  "add_slots aid ts s1 = Inr s' \<Longrightarrow> a \<noteq> aid \<Longrightarrow> slot_rows a s' = slot_rows a s1"
proof -
  show "slot_rows a s1 = slot_rows a s" if "clear_slots aid s = Inr s1" "a \<noteq> aid"
  proof -
    have "filter (\<lambda>r. aq_assessment_id r = a) (del_where (\<lambda>r. aq_assessment_id r = aid) t) =
        filter (\<lambda>r. aq_assessment_id r = a) t" for t
      using that(2) by (induction t) auto
    then show ?thesis using clear_slots_eq [OF that(1)] by (simp add: slot_rows_def)
  qed
  show "slot_rows a s' = slot_rows a s1" if "add_slots aid ts s1 = Inr s'" "a \<noteq> aid"
    using that by (auto simp: add_slots_def slot_rows_def filter_empty_conv split: if_splits dest!: rows_from_in)
qed

lemma frozen_same:
  assumes "frozen aid rows s" and "slot_rows aid s' = slot_rows aid s" and "sent aid s'"
    and "\<And>i. has_question i s \<Longrightarrow> has_question i s'"
  shows "frozen aid rows s'"
  using assms by (auto simp: frozen_def elim!: option.pred_mono_strong)

lemma sent_cong:
  "t_invites s' = t_invites s \<Longrightarrow> (get_assessment aid s \<noteq> None \<Longrightarrow> get_assessment aid s' \<noteq> None) \<Longrightarrow> sent aid s \<Longrightarrow> sent aid s'"
  by (simp add: sent_def)

lemma frozen_sent: "frozen aid rows s \<Longrightarrow> sent aid s"
  by (simp add: frozen_def)

interpretation frz: library_invariant x "frozen aid rows" for x aid rows
proof (unfold_locales, goal_cases)
  case (1 s q ts s')
  have s': "s' = s\<lparr>t_questions := t_questions s @ [q],
      t_test_cases := t_test_cases s @ case_rows (fresh_id tc_id (t_test_cases s)) (q_id q) ts\<rparr>"
    using 1(2) by (auto simp: insert_question_def split: if_splits)
  show ?case
    by (rule frozen_same [OF 1(1)]) (use frozen_sent [OF 1(1)] in \<open>auto simp: s' slot_rows_def sent_def has_defs get_assessment_def\<close>)
next
  case (2 s qid b)
  show ?case
    by (rule frozen_same [OF 2(1)])
      (use frozen_sent [OF 2(1)] in \<open>auto simp: slot_rows_def sent_def has_question_def exists_upd_where get_assessment_def\<close>)
next
  case (3 s qid status)
  show ?case
    by (rule frozen_same [OF 3])
      (use frozen_sent [OF 3] in \<open>auto simp: slot_rows_def sent_def has_question_def exists_upd_where get_assessment_def\<close>)
next
  case (4 s s' qid)
  have "r \<in> set rows \<Longrightarrow> aq_question_id r \<noteq> Some qid" for r
    using 4(1,3) by (auto simp: 4(2) question_referenced_def exists_where_iff frozen_def slot_rows_def)
  moreover have "sent aid s'"
    using frozen_sent [OF 4(1)] by (auto simp: 4(2) sent_def exists_where_iff get_assessment_def)
  moreover have "has_question i s' \<longleftrightarrow> has_question i s \<and> i \<noteq> qid" for i by (auto simp: 4(2) has_defs)
  ultimately show ?case
    using 4(1) by (auto simp: frozen_def slot_rows_def 4(2) pred_option_def)
next
  case (5 s v)
  show ?case
    by (rule frozen_same [OF 5]) (use frozen_sent [OF 5] in \<open>auto simp: slot_rows_def sent_def has_defs get_assessment_def\<close>)
next
  case (6 s a targets s')
  have "a_id a \<noteq> aid" using 6(1,2) by (auto simp: frozen_def sent_def)
  moreover have s': "s' = s\<lparr>t_assessments := t_assessments s @ [a], t_assessment_questions := t_assessment_questions s' \<rparr>"
    using 6(3) by (auto simp: add_slots_def split: if_splits)
  ultimately show ?case
  proof (intro frozen_same [OF 6(1)])
    show "slot_rows aid s' = slot_rows aid s" if "a_id a \<noteq> aid"
      using slot_rows_other(2) [OF 6(3), of aid] that by (simp add: slot_rows_def)
    show "sent aid s'"
      using frozen_sent [OF 6(1)] by (subst s') (auto simp: sent_def get_assessment_def find_append split: option.splits)
    show "has_question i s \<Longrightarrow> has_question i s'" for i by (subst s') (simp add: has_question_def)
  qed
next
  case (7 s f b)
  show ?case
    by (rule frozen_same [OF 7(1)])
      (use frozen_sent [OF 7(1)] 7(2) in \<open>auto simp: slot_rows_def sent_def has_defs get_assessment_def find_upd_where\<close>)
next
  case (8 s0 b s s1 targets s')
  have b: "aid \<noteq> b" using 8(1,3) by (auto dest: frozen_sent sent_has_invite)
  have s': "s' = s\<lparr>t_assessment_questions := t_assessment_questions s'\<rparr>"
    using 8(6,7) by (auto simp: add_slots_def split: if_splits dest!: clear_slots_eq)
  show ?case
  proof (rule frozen_same [OF 8(4)])
    show "slot_rows aid s' = slot_rows aid s" using slot_rows_other(1) [OF 8(6) b] slot_rows_other(2) [OF 8(7) b] by simp
    show "sent aid s'" using frozen_sent [OF 8(4)] by (subst s') (simp add: sent_def get_assessment_def)
    show "has_question i s \<Longrightarrow> has_question i s'" for i by (subst s') (simp add: has_question_def)
  qed
next
  case (9 s0 b s s1)
  have b: "aid \<noteq> b" using 9(1,3) by (auto dest: frozen_sent sent_has_invite)
  note s1 = clear_slots_eq [OF 9(5)]
  show ?case
  proof (rule frozen_same [OF 9(4)], goal_cases)
    case 1
    then show ?case using slot_rows_other(1) [OF 9(5) b] by (simp add: slot_rows_def)
  next
    case 2
    obtain v where v: "v \<in> set (t_invites s)" "inv_assessment_id v = Some aid" "inv_question_id v = None"
      and a: "has_assessment aid s"
      using frozen_sent [OF 9(4)] unfolding sent_def get_assessment_has exists_where_iff by blast
    have "v \<in> set (upd_where (\<lambda>v. inv_assessment_id v = Some b) (\<lambda>v. v\<lparr>inv_assessment_id := None\<rparr>) (t_invites s))"
      using v(1,2) b by (auto simp: set_upd_where)
    with v(2,3) have "exists_where (\<lambda>v. inv_assessment_id v = Some aid \<and> inv_question_id v = None)
        (upd_where (\<lambda>v. inv_assessment_id v = Some b) (\<lambda>v. v\<lparr>inv_assessment_id := None\<rparr>) (t_invites s))"
      by (auto simp: exists_where_iff)
    moreover have "has_assessment aid (s\<lparr>t_assessments := del_where (\<lambda>r. a_id r = b) (t_assessments s)\<rparr>)"
      using a b by (auto simp: has_assessment_def exists_where_iff)
    ultimately show ?case
      unfolding sent_def get_assessment_has by (simp add: s1 has_assessment_def)
  next
    case (3 i)
    then show ?case by (simp add: s1 has_question_def)
  qed
qed

definition siblings_keep :: "(store \<Rightarrow> bool) \<Rightarrow> library_request list \<Rightarrow> bool" where
  "siblings_keep P rs = (\<forall>r\<in>set rs. \<forall>k s. P s \<longrightarrow> P (lr_others r k s))"

context library_invariant
begin

lemma perform_requests_keep:
  assumes "P st" and "list_all (request_ok x) rs" and "siblings_keep P rs"
  shows "P (perform_requests rs st)"
proof (rule perform_requests_keeps [where P = P, OF _ assms(1)])
  fix r s
  assume "r \<in> set rs" and "P s"
  with assms(2,3) show "P (perform_library r s)"
    by (intro perform_library_keeps) (auto simp: list_all_iff siblings_keep_def)
qed

end

end
