(* ===== verification/LibrarySafety.thy ===== *)
theory LibrarySafety
  imports Library
begin

section \<open>LibrarySafety: the properties of authoring\<close>

text \<open>
  Sent assessments stay as they were sent, stored questions are gradeable and can be edited, and a
  deletion is refused exactly while something refers to the question.
\<close>

text \<open>
  C17. What was sent stays what it was: once a link to an assessment exists, no sequence of authoring
  requests by anybody - editing, replacing or archiving it, deleting questions, creating or deleting other
  assessments, in any interleaving with siblings that respect it - changes the rows of its slots (ids, targets and
  positions, which running sittings refer to), removes the assessment or any fixed question of it.
\<close>

theorem sent_assessment_frozen:
  assumes "refs_ok st" and "sent aid st" and "list_all (request_ok x) rs"
    and "siblings_keep (frozen aid (slot_rows aid st)) rs"
  shows "slot_rows aid (perform_requests rs st) = slot_rows aid st \<and> sent aid (perform_requests rs st) \<and>
    list_all (\<lambda>r. pred_option (\<lambda>i. get_question i (perform_requests rs st) \<noteq> None) (aq_question_id r)) (slot_rows aid st)"
proof -
  have "frozen aid (slot_rows aid st) st"
    using assms(1,2) by (auto simp: frozen_def slot_rows_def refs_ok_def authored_refs_ok_def)
  from frz.perform_requests_keep [OF this assms(3,4)] show ?thesis
    by (auto simp: frozen_def list_all_iff has_question_def exists_where_find Tables.get_question_def)
qed

subsection \<open>Every stored question is one the agent grades\<close>

definition cases_in :: "question \<Rightarrow> store \<Rightarrow> test_case_in list" where
  "cases_in q st = map case_in_of (question_cases q st)"

definition sound_question :: "externals \<Rightarrow> store \<Rightarrow> question \<Rightarrow> bool" where
  "sound_question x st q = (question_fields_ok x (fields_of q (cases_in q st)) \<and> enforce_case_floor (cases_in q st) = Inr ())"

text \<open>
  Questions stored by earlier releases may break today's rules. Such a question reads as it did in the store
  \<open>st0\<close> the requests began with.
\<close>

definition as_found :: "store \<Rightarrow> store \<Rightarrow> question \<Rightarrow> bool" where
  "as_found st0 st q = (\<exists>q0\<in>set (t_questions st0). q_id q0 = q_id q \<and> fields_of q (cases_in q st) = fields_of q0 (cases_in q0 st0))"

definition sound_or_found :: "externals \<Rightarrow> store \<Rightarrow> store \<Rightarrow> question \<Rightarrow> bool" where
  "sound_or_found x st0 st q = (sound_question x st q \<or> as_found st0 st q)"

definition library_kept :: "externals \<Rightarrow> store \<Rightarrow> store \<Rightarrow> bool" where
  "library_kept x st0 st = (refs_ok st \<and> (\<forall>q\<in>set (t_questions st). sound_or_found x st0 st q))"

lemma sound_or_found_cong:
  "q_id q' = q_id q \<Longrightarrow> fields_of q' (cases_in q' st') = fields_of q (cases_in q st) \<Longrightarrow> cases_in q' st' = cases_in q st \<Longrightarrow>
   sound_or_found x st0 st' q' = sound_or_found x st0 st q"
  by (simp add: sound_or_found_def sound_question_def as_found_def)

lemma case_in_of_rows: "map case_in_of (case_rows n qid ts) = ts"
  by (induction ts arbitrary: n) (auto simp: case_in_of_def)

lemma cases_of_rows: "filter (\<lambda>r. tc_question_id r = qid) (case_rows n qid ts) = case_rows n qid ts"
  by (rule filter_True) (auto dest: case_rows_in)

lemma cases_of_other_rows: "i \<noteq> qid \<Longrightarrow> filter (\<lambda>r. tc_question_id r = i) (case_rows n qid ts) = []"
  by (auto simp: filter_empty_conv dest: case_rows_in)

lemma filter_replaced:
  "filter (\<lambda>r. tc_question_id r = i) (del_where (\<lambda>r. tc_question_id r = qid) t) =
     (if i = qid then [] else filter (\<lambda>r. tc_question_id r = i) t)"
  by (induction t) auto

lemma kept_same:
  "\<forall>q\<in>set (t_questions s). sound_or_found x st0 s q \<Longrightarrow> t_questions s' = t_questions s \<Longrightarrow> t_test_cases s' = t_test_cases s \<Longrightarrow>
   \<forall>q\<in>set (t_questions s'). sound_or_found x st0 s' q"
  by (simp add: sound_or_found_def as_found_def sound_question_def cases_in_def question_cases_def)

lemma kept_edit:
  fixes b :: question_fields
  assumes "question_fields_ok x b" and "enforce_case_floor (qf_test_cases b) = Inr ()"
    and "\<forall>q\<in>set (t_questions s). sound_or_found x st0 s q"
    and s': "s' = s\<lparr>t_questions := upd_where (\<lambda>r. q_id r = qid) (edited b) (t_questions s),
          t_test_cases := del_where (\<lambda>r. tc_question_id r = qid) (t_test_cases s) @ case_rows n qid (qf_test_cases b)\<rparr>"
  shows "\<forall>q\<in>set (t_questions s'). sound_or_found x st0 s' q"
proof
  fix q
  assume "q \<in> set (t_questions s')"
  then obtain r where r: "r \<in> set (t_questions s)" "q = (if q_id r = qid then edited b r else r)"
    by (auto simp: s' in_upd_where)
  show "sound_or_found x st0 s' q"
  proof (cases "q_id r = qid")
    case True
    then have "cases_in q s' = qf_test_cases b"
      by (simp add: r(2) cases_in_def question_cases_def s' filter_replaced cases_of_rows case_in_of_rows)
    then show ?thesis using assms(1,2) True by (simp add: sound_or_found_def sound_question_def r(2) fields_of_edited)
  next
    case False
    then have "cases_in q s' = cases_in r s"
      by (simp add: r(2) cases_in_def question_cases_def s' filter_replaced cases_of_other_rows)
    then show ?thesis using assms(3) r False sound_or_found_cong [of r r s' s] by simp
  qed
qed

lemma kept_insert:
  assumes "library_kept x st0 s" and "insert_question q ts s = Inr s'" and "question_fields_ok x (fields_of q ts)"
    and "enforce_case_floor ts = Inr ()"
  shows "\<forall>q\<in>set (t_questions s'). sound_or_found x st0 s' q"
proof -
  from assms(2) have s': "s' = s\<lparr>t_questions := t_questions s @ [q],
      t_test_cases := t_test_cases s @ case_rows (fresh_id tc_id (t_test_cases s)) (q_id q) ts\<rparr>"
    and new: "r \<in> set (t_questions s) \<Longrightarrow> q_id r \<noteq> q_id q" for r
    by (auto simp: insert_question_def exists_where_iff split: if_splits)
  have "filter (\<lambda>r. tc_question_id r = q_id q) (t_test_cases s) = []"
    using assms(1) new by (auto simp: filter_empty_conv library_kept_def refs_ok_def authored_refs_ok_def has_defs)
  then have "cases_in q s' = ts"
    by (simp add: cases_in_def question_cases_def s' cases_of_rows case_in_of_rows)
  moreover have "cases_in r s' = cases_in r s" if "r \<in> set (t_questions s)" for r
    using new [OF that] by (simp add: cases_in_def question_cases_def s' cases_of_other_rows)
  ultimately show ?thesis
    using assms by (auto simp: s' sound_or_found_def as_found_def sound_question_def library_kept_def)
qed

interpretation kept: library_invariant x "library_kept x st0" for x st0
proof (unfold_locales, goal_cases)
  case (1 s q ts s')
  then show ?case using refs.ins [of s q ts s' x] kept_insert [OF 1(1-4)] by (simp add: library_kept_def)
next
  case (2 s qid b)
  then show ?case
    using refs.edit [of s qid x b] kept_edit [OF 2(3,4) _ refl, of s] by (simp add: library_kept_def)
next
  case (3 s qid status)
  let ?s = "s\<lparr>t_questions := upd_where (\<lambda>r. q_id r = qid) (\<lambda>r. r\<lparr>q_status := status\<rparr>) (t_questions s)\<rparr>"
  have "sound_or_found x st0 ?s (r\<lparr>q_status := status\<rparr>) = sound_or_found x st0 s r"
    and "sound_or_found x st0 ?s r = sound_or_found x st0 s r" for r
    by (rule sound_or_found_cong; simp add: cases_in_def question_cases_def fields_of_set_simps)+
  then have "\<forall>q\<in>set (t_questions ?s). sound_or_found x st0 ?s q"
    using 3 by (auto simp: in_upd_where library_kept_def)
  then show ?case using 3 refs.retire by (simp add: library_kept_def)
next
  case (4 s s' qid)
  have "sound_or_found x st0 s' q" if "q \<in> set (t_questions s')" for q
  proof -
    from that have q: "q \<in> set (t_questions s)" "q_id q \<noteq> qid" by (auto simp: 4(2))
    then have "cases_in q s' = cases_in q s" by (simp add: 4(2) cases_in_def question_cases_def filter_replaced)
    then show ?thesis using 4(1) q(1) sound_or_found_cong [of q q s' s] by (simp add: library_kept_def)
  qed
  then show ?case using 4 refs_remove by (metis library_kept_def)
next
  case (5 s v)
  then show ?case using refs.new_set [of s v] kept_same [of s x st0] by (simp add: library_kept_def)
next
  case (6 s a targets s')
  have "t_questions s' = t_questions s" "t_test_cases s' = t_test_cases s"
    using 6(3) by (auto simp: add_slots_def split: if_splits)
  then show ?case using refs.new_assessment [of s a targets s'] kept_same [of s x st0 s'] 6 by (simp add: library_kept_def)
next
  case (7 s f aid)
  then show ?case using refs.restyle [of s f aid] kept_same [of s x st0] by (simp add: library_kept_def)
next
  case (8 s0 aid s s1 targets s')
  have "t_questions s' = t_questions s" "t_test_cases s' = t_test_cases s"
    using 8(6,7) by (auto simp: add_slots_def split: if_splits dest!: clear_slots_eq)
  then show ?case using refs.reslot [of s0 aid s s1 targets s'] kept_same [of s x st0 s'] 8 by (simp add: library_kept_def)
next
  case (9 s0 aid s s1)
  then show ?case
    using refs.drop [of s0 aid s s1] kept_same [of s x st0] clear_slots_eq [OF 9(5)] by (simp add: library_kept_def)
qed

lemma cases_of_fields: "qf_test_cases (fields_of q ts) = ts"
  by (simp add: fields_of_def)

lemma floor_met:
  "enforce_case_floor ts = Inr () \<Longrightarrow>
    (\<exists>t\<in>set ts. ci_category t = ''performance'') \<and> 4 \<le> length (filter (\<lambda>t. ci_category t = ''correctness'') ts)"
  by (auto simp: enforce_case_floor_def case_floor_violations_def MIN_CORRECTNESS_CASES_def Let_def filter_map comp_def list_ex_iff
      split: if_splits)

lemma resaved:
  assumes "get_question i st = Some q" and "m_org_id org = q_org_id q" and "sound_question x st q"
  shows "\<exists>out st2. update_question i (fields_of q (cases_in q st)) org st = (Inr out, st2) \<and>
    get_question i st2 = Some q \<and> cases_in q st2 = cases_in q st"
proof (intro exI conjI)
  define b where "b = fields_of q (cases_in q st)"
  have i: "q_id q = i" using get_question_SomeD [OF assms(1)] by simp
  have ts: "qf_test_cases b = cases_in q st" by (simp add: b_def fields_of_def)
  have fl: "enforce_case_floor (cases_in q st) = Inr ()" using assms(3) by (simp add: sound_question_def)
  have same: "edited b q = q" by (simp add: edited_def b_def fields_of_def)
  have own: "owned_question i org st = Inr q" using assms(1,2) by (simp add: owned_question_def)
  show "update_question i (fields_of q (cases_in q st)) org st =
      (Inr (question_out_of (edited b q) (snd (update_question i b org st))), snd (update_question i b org st))"
    unfolding b_def [symmetric] by (simp add: update_question_def own ts fl Let_def)
  have u: "snd (update_question i b org st) = st\<lparr>t_questions := upd_where (\<lambda>r. q_id r = i) (edited b) (t_questions st),
        t_test_cases := del_where (\<lambda>r. tc_question_id r = i) (t_test_cases st) @
          case_rows (fresh_id tc_id (t_test_cases st)) i (qf_test_cases b)\<rparr>"
    by (simp add: update_question_def own ts fl Let_def)
  show "get_question i (snd (update_question i b org st)) = Some q"
    using assms(1) i same unfolding u by (simp add: Tables.get_question_def find_upd_where)
  show "cases_in q (snd (update_question i b org st)) = cases_in q st"
    unfolding u by (simp add: cases_in_def [of q] question_cases_def i filter_replaced cases_of_rows case_in_of_rows)
      (simp add: ts cases_in_def question_cases_def i)
qed

text \<open>
  C19. Whatever valid requests the library has served since the store \<open>st\<close>, which may hold questions
  of earlier releases that break today's rules: a stored question either satisfies every cap and rule of the question bodies
  and the floor the agent grades by (a performance case and four correctness cases), and its owner can send what is stored back as an update, which is accepted and
  changes nothing of it; or it is one that broke the rules in \<open>st\<close> and still reads as it did there. So
  no request creates such a question, and none turns a gradeable question into one.
\<close>

theorem stored_questions_gradeable:
  assumes "refs_ok st" and "list_all (request_ok x) rs" and "siblings_keep (library_kept x st) rs"
    and "get_question i (perform_requests rs st) = Some q" and "m_org_id org = q_org_id q"
  shows "let st' = perform_requests rs st; b = fields_of q (cases_in q st') in
    (question_fields_ok x b \<and>
      (\<exists>t\<in>set (qf_test_cases b). ci_category t = ''performance'') \<and>
      4 \<le> length (filter (\<lambda>t. ci_category t = ''correctness'') (qf_test_cases b)) \<and>
      (\<exists>out st2. update_question i b org st' = (Inr out, st2) \<and> get_question i st2 = Some q \<and> cases_in q st2 = cases_in q st')) \<or>
    (\<exists>q0\<in>set (t_questions st). q_id q0 = i \<and> fields_of q0 (cases_in q0 st) = b \<and> \<not> sound_question x st q0)"
proof -
  define st' where "st' = perform_requests rs st"
  have "library_kept x st st" using assms(1) by (auto simp: library_kept_def sound_or_found_def as_found_def)
  from kept.perform_requests_keep [OF this assms(2,3)] have "sound_or_found x st st' q"
    using get_question_SomeD [OF assms(4)] by (simp add: library_kept_def st'_def)
  moreover have i: "q_id q = i" using get_question_SomeD [OF assms(4)] by simp
  moreover have "(\<exists>t\<in>set (cases_in q st'). ci_category t = ''performance'') \<and>
      4 \<le> length (filter (\<lambda>t. ci_category t = ''correctness'') (cases_in q st'))" if "sound_question x st' q"
    using that floor_met [of "cases_in q st'"] by (simp add: sound_question_def)
  moreover have "sound_question x st' q" if "q0 \<in> set (t_questions st)" "fields_of q (cases_in q st') = fields_of q0 (cases_in q0 st)"
    "sound_question x st q0" for q0
    using that by (simp add: sound_question_def) (simp add: fields_of_def)
  ultimately show ?thesis
    using resaved [OF assms(4,5)]
    by (auto simp: sound_or_found_def as_found_def st'_def Let_def sound_question_def cases_of_fields)
qed

subsection \<open>Deleting a question\<close>

text \<open>The links to a single question carry that question's rows only.\<close>

definition links_match :: "store \<Rightarrow> bool" where
  "links_match st = (\<forall>v\<in>set (t_invites st). \<forall>q. inv_question_id v = Some q \<longrightarrow>
     (\<forall>s\<in>set (t_submissions st). s_invite_id s = Some (inv_id v) \<longrightarrow> s_question_id s = q) \<and>
     (\<forall>r\<in>set (t_slot_variants st). sv_invite_id r \<noteq> inv_id v) \<and>
     (\<forall>r\<in>set (t_drafts st). dr_invite_id r = inv_id v \<longrightarrow> dr_question_id r = q))"

definition question_in_use :: "string \<Rightarrow> store \<Rightarrow> bool" where
  "question_in_use qid st =
    ((\<exists>s\<in>set (t_submissions st). s_question_id s = qid) \<or>
     (\<exists>r\<in>set (t_assessment_questions st). aq_question_id r = Some qid) \<or>
     (\<exists>r\<in>set (t_slot_variants st). sv_question_id r = qid) \<or>
     (\<exists>r\<in>set (t_events st). ev_question_id r = Some qid) \<or>
     (\<exists>v\<in>set (t_invites st). inv_question_id v = Some qid \<and>
        ((\<exists>r\<in>set (t_attempts st). at_invite_id r = inv_id v) \<or> (\<exists>r\<in>set (t_events st). ev_invite_id r = inv_id v))))"

lemma deletable_iff: "(deletable qid st = Inr ()) = (\<not> question_in_use qid st)"
  by (auto simp: deletable_def question_in_use_def question_activity_def question_invites_def Let_def
      count_where_zero count_where_pos filter_empty_conv image_iff)

lemma deletable_409: "deletable qid st = Inl e \<Longrightarrow> \<exists>d. e = HTTPException 409 d"
  by (auto simp: deletable_def Let_def split: if_splits)

lemma unused_unreferenced:
  assumes "\<not> question_in_use qid st" and "links_match st"
    and s': "s' = st\<lparr>t_drafts := del_where (\<lambda>r. dr_question_id r = qid) (t_drafts st),
                  t_test_cases := del_where (\<lambda>r. tc_question_id r = qid) (t_test_cases st),
                  t_invites := del_where (\<lambda>v. inv_question_id v = Some qid) (t_invites st),
                  t_questions := del_where (\<lambda>r. q_id r = qid) (t_questions st)\<rparr>"
  shows "\<not> question_referenced qid (set (question_invites qid st)) s'"
proof -
  have ids: "i \<in> set (question_invites qid st) \<Longrightarrow>
      (\<forall>s\<in>set (t_submissions st). s_invite_id s \<noteq> Some i) \<and> (\<forall>r\<in>set (t_slot_variants st). sv_invite_id r \<noteq> i) \<and>
      (\<forall>r\<in>set (t_events st). ev_invite_id r \<noteq> i) \<and> (\<forall>r\<in>set (t_attempts st). at_invite_id r \<noteq> i) \<and>
      (\<forall>r\<in>set (t_drafts st). dr_invite_id r = i \<longrightarrow> dr_question_id r = qid)" for i
    using assms(1,2) unfolding question_in_use_def links_match_def question_invites_def by auto
  show ?thesis
    using assms(1) ids unfolding question_referenced_def question_in_use_def exists_where_iff s'
    by (auto split: option.splits) blast+
qed

text \<open>
  C18. A question is deleted exactly when nothing depends on it: while a submission, a slot, a candidate's assigned
  variant, a recorded event or an attempt on one of its links refers to it, the deletion is refused with 409 and
  nothing changes; otherwise it goes, every reference of the database still resolves (so the deletion never runs
  into a foreign key), and every submission, result, attempt, assignment, event and feedback is untouched.
\<close>

theorem deletion_guards_complete:
  assumes "refs_ok st" and "links_match st" and "owned_question qid org st = Inr q"
  shows "case delete_question alone qid org st of
      (Inl e, st') \<Rightarrow> question_in_use qid st \<and> st' = st \<and> (\<exists>d. e = HTTPException 409 d)
    | (Inr u, st') \<Rightarrow> \<not> question_in_use qid st \<and> get_question qid st' = None \<and> refs_ok st' \<and> same_sittings st st' \<and>
        t_questions st' = del_where (\<lambda>r. q_id r = qid) (t_questions st)"
proof (cases "question_in_use qid st")
  case True
  then obtain e where e: "deletable qid st = Inl e" using deletable_iff [of qid st] by (cases "deletable qid st") auto
  with deletable_409 [OF e] True assms(3) show ?thesis by (simp add: delete_question_def)
next
  case False
  then have d: "deletable qid st = Inr ()" by (simp add: deletable_iff)
  define s' where "s' = st\<lparr>t_drafts := del_where (\<lambda>r. dr_question_id r = qid) (t_drafts st),
                  t_test_cases := del_where (\<lambda>r. tc_question_id r = qid) (t_test_cases st),
                  t_invites := del_where (\<lambda>v. inv_question_id v = Some qid) (t_invites st),
                  t_questions := del_where (\<lambda>r. q_id r = qid) (t_questions st)\<rparr>"
  note free = unused_unreferenced [OF False assms(2) s'_def]
  have "delete_question alone qid org st = (Inr (), s')"
    using free d assms(3) by (simp add: delete_question_def alone_simp Let_def s'_def)
  moreover have "refs_ok s'" by (rule refs_remove [OF assms(1) free s'_def])
  moreover have "get_question qid s' = None"
    by (auto simp: s'_def Tables.get_question_def find_None_iff')
  ultimately show ?thesis using False by (simp add: same_sittings_def) (simp add: s'_def)
qed

subsection \<open>Concrete runs\<close>

definition example_cases :: "test_case_in list" where
  "example_cases = map (\<lambda>(n, k). \<lparr>ci_name = n, ci_stdin = ''1'', ci_expected = ''2'', ci_category = k, ci_weight = 1\<rparr>)
     [(''a'', ''correctness''), (''b'', ''correctness''), (''c'', ''correctness''), (''d'', ''correctness''), (''e'', ''performance'')]"

definition example_body :: question_create where
  "example_body = \<lparr>qf_title = ''Sum'', qf_prompt = ''p'', qf_constraints = ''c'', qf_time_limit_s = 2,
     qf_pass_threshold = 9/10, qf_required_complexity = None, qf_example_input = None, qf_example_output = None,
     qf_difficulty = Some ''easy'', qf_reference_solution = None, qf_reference_language = None,
     qf_duration_minutes = Some 30, qf_test_cases = example_cases, qc_id = Some ''q1''\<rparr>"

definition example_author :: interviewer where
  "example_author = \<lparr>iv_id = 1, iv_email = ''a@b'', iv_password_hash = ''h'', iv_name = ''A'', iv_token_version = 0,
     iv_email_verified_at = None\<rparr>"

definition example_new :: library_request where
  "example_new = \<lparr>lr_others = alone, lr_now = 5, lr_org = example_admin,
     lr_op = NewQuestion (\<lambda>_. ''0a'') ''z'' example_body example_author\<rparr>"

definition example_sent :: store where
  "example_sent = empty_store\<lparr>t_questions := [example_question],
     t_assessments := [\<lparr>a_id = ''a1'', a_owner_id = None, a_org_id = 1, a_title = ''T'', a_duration_minutes = None,
       a_org_name = None, a_logo_sha = None, a_proctored = True, a_status = ''active'', a_created_at = 0\<rparr>],
     t_assessment_questions := [\<lparr>aq_id = 1, aq_assessment_id = ''a1'', aq_question_id = Some ''q1'', aq_variant_set_id = None, aq_position = 0\<rparr>],
     t_invites := [\<lparr>inv_id = 1, inv_token = ''t'', inv_question_id = None, inv_assessment_id = Some ''a1'',
       inv_variant_set_id = None, inv_created_by = None, inv_recipients = [''c@d''], inv_deliveries = [], inv_expires_at = None,
       inv_proctored = True, inv_duration_minutes = None, inv_status = ''active'', inv_created_at = 0\<rparr>]\<rparr>"

definition example_requests :: "library_request list" where
  "example_requests = map (\<lambda>op. \<lparr>lr_others = alone, lr_now = 5, lr_org = example_admin, lr_op = op\<rparr>)
     [EditAssessment ''a1'' \<lparr>ab_question_ids = Some [''q2''], ab_slots = None, ab_id = None, ab_title = ''U'',
        ab_duration_minutes = None, ab_org_name = Some ''Acme'', ab_proctored = False\<rparr>,
      DeleteQuestion ''q1'', DeleteAssessment ''a1'']"

lemmas cap_defs = MAX_CASE_STDIN_CHARS_def MAX_CASE_EXPECTED_CHARS_def MAX_TEST_CASES_def MAX_QUESTION_CASES_BYTES_def
  MAX_ID_CHARS_def MAX_TITLE_CHARS_def MAX_PROMPT_CHARS_def MAX_CONSTRAINTS_CHARS_def MAX_EXAMPLE_CHARS_def
  MAX_COMPLEXITY_CHARS_def MAX_LANGUAGE_CHARS_def MAX_CASE_NAME_CHARS_def MAX_CASE_WEIGHT_def MAX_CODE_CHARS_def
  MAX_TIME_LIMIT_S_def MAX_ASSESSMENT_SLOTS_def

lemma example_cases_bytes: "cases_bytes example_externals example_cases = 440"
  by code_simp

lemma example_not_blank: "list_all not_blank [''Sum'', ''p'', ''c'', ''a'', ''b'', ''d'', ''e'', ''U'']"
  by code_simp

lemma example_body_ok: "question_create_ok example_externals example_body"
  using example_cases_bytes example_not_blank
  by (simp add: question_create_ok_def question_fields_ok_def cases_ok_def test_case_in_ok_def example_body_def
      short_def cap_defs) (simp add: example_cases_def test_case_in_ok_def cap_defs)

lemma example_requests_ok: "list_all (request_ok example_externals) example_requests"
  using example_not_blank
  by (simp add: example_requests_def request_ok_def assessment_body_ok_def ordered_slots_def slot_in_ok_def short_def
      or_empty_def cap_defs)

lemma siblings_alone: "siblings_keep P (map (\<lambda>op. \<lparr>lr_others = alone, lr_now = n, lr_org = g, lr_op = op\<rparr>) ops)"
  by (simp add: siblings_keep_def alone_simp)

lemma example_sent_refs: "refs_ok example_sent"
  by (simp add: refs_ok_def authored_refs_ok_def sitting_refs_ok_def example_sent_def empty_store_def
      has_question_def has_assessment_def exists_where_def example_question_def)

lemma sent_assessment_frozen_witness:
  "slot_rows ''a1'' (perform_requests example_requests example_sent) = slot_rows ''a1'' example_sent \<and>
   sent ''a1'' (perform_requests example_requests example_sent)"
proof -
  have "sent ''a1'' example_sent" by code_simp
  moreover have "siblings_keep P example_requests" for P
    unfolding example_requests_def by (rule siblings_alone)
  ultimately show ?thesis
    using sent_assessment_frozen [OF example_sent_refs, of "''a1''" example_externals example_requests] example_requests_ok
    by blast
qed

lemma stored_questions_gradeable_witness:
  "4 \<le> length (filter (\<lambda>t. ci_category t = ''correctness'') (cases_in (question_of 5 ''q1'' 1 1 example_body)
     (perform_requests [example_new] empty_store)))"
proof -
  have "refs_ok empty_store"
    by (simp add: refs_ok_def authored_refs_ok_def sitting_refs_ok_def empty_store_def)
  moreover have "list_all (request_ok example_externals) [example_new]"
    by (simp add: request_ok_def example_new_def example_body_ok)
  moreover have "siblings_keep (library_kept example_externals empty_store) [example_new]"
    by (simp add: siblings_keep_def example_new_def alone_simp)
  moreover have "get_question ''q1'' (perform_requests [example_new] empty_store) = Some (question_of 5 ''q1'' 1 1 example_body)"
    by code_simp
  moreover have "m_org_id example_admin = q_org_id (question_of 5 ''q1'' 1 1 example_body)" by code_simp
  moreover have "t_questions empty_store = []" by (simp add: empty_store_def)
  ultimately show ?thesis
    by (drule_tac stored_questions_gradeable) (assumption | simp add: Let_def fields_of_def)+
qed

lemma deletion_guards_complete_witness:
  "fst (delete_question alone ''q1'' example_admin (example_sent\<lparr>t_assessment_questions := []\<rparr>)) = Inr ()"
proof -
  let ?st = "example_sent\<lparr>t_assessment_questions := []\<rparr>"
  have "refs_ok ?st"
    by (simp add: refs_ok_def authored_refs_ok_def sitting_refs_ok_def example_sent_def empty_store_def
        has_assessment_def exists_where_def example_question_def)
  moreover have "links_match ?st" by (simp add: links_match_def example_sent_def empty_store_def)
  moreover have "owned_question ''q1'' example_admin ?st = Inr example_question" by code_simp
  moreover have "\<not> question_in_use ''q1'' ?st" by (simp add: question_in_use_def example_sent_def empty_store_def)
  ultimately show ?thesis
    using deletion_guards_complete [of ?st "''q1''" example_admin example_question]
    by (cases "delete_question alone ''q1'' example_admin ?st"; cases "fst (delete_question alone ''q1'' example_admin ?st)") auto
qed

subsection \<open>Ids\<close>

lemma strip_dashes_chars: "ch \<in> set (strip_dashes s) \<Longrightarrow> ch \<in> set s"
  using strip_dashes_subset by blast

lemma slugify_shape: "slugify t \<noteq> [] \<and> length (slugify t) \<le> 48 \<and> (\<forall>ch\<in>set (slugify t). slug_char ch \<or> ch = CHR ''-'')"
proof -
  have "slug_char ch \<or> ch = CHR ''-''" if "ch \<in> set (take 48 (strip_dashes (not_slug_sub False (py_lower t))))" for ch
    using that by (meson in_set_takeD not_slug_sub_chars strip_dashes_chars)
  moreover have "slug_char ch" if "ch \<in> set ''item''" for ch
    using that by (auto simp: slug_char_def code_def)
  ultimately show ?thesis by (auto simp: slugify_def Let_def)
qed

lemma generate_id_fresh:
  assumes "k < 6" and "\<not> exists_id (slugify title @ ''-'' @ tokens k)"
  shows "\<not> exists_id (generate_id tokens last_token title exists_id)"
proof -
  have "first_where (\<lambda>c. \<not> exists_id c) (map (\<lambda>k. slugify title @ ''-'' @ tokens k) [0..<6]) \<noteq> None"
    using assms unfolding find_None_iff' by fastforce
  then show ?thesis by (auto simp: generate_id_def Let_def dest: find_SomeD split: option.splits)
qed

text \<open>
  \<open>_generate_id\<close> says that its loop makes a collision impossible; after six collisions the id with
  the UUID suffix is returned unchecked.
\<close>

lemma generated_id_may_exist:
  assumes "\<forall>k<6. exists_id (slugify title @ ''-'' @ tokens k)"
  shows "generate_id tokens last_token title exists_id = slugify title @ ''-'' @ last_token"
proof -
  have "first_where (\<lambda>c. \<not> exists_id c) (map (\<lambda>k. slugify title @ ''-'' @ tokens k) [0..<6]) = None"
    using assms unfolding find_None_iff' by auto
  then show ?thesis by (simp add: generate_id_def Let_def)
qed

subsection \<open>Where the guards leave a gap\<close>

text \<open>
  The slot validator asks which of the two texts is non-empty, the route which of them is not null: a slot
  with an empty question id and a variant set passes the one and is looked up as a question by the other.
\<close>

lemma empty_text_slot_mistaken:
  assumes "v \<noteq> []" and "length v \<le> 120" and "get_question [] st = None"
  shows "slot_in_ok \<lparr>sl_question_id = Some [], sl_variant_set_id = Some v\<rparr> \<and>
    membership_rows [\<lparr>sl_question_id = Some [], sl_variant_set_id = Some v\<rparr>] org st =
      Inl (HTTPException 404 (''no question with id '' @ py_repr [] @ ''.''))"
  using assms
  by (simp add: slot_in_ok_def short_def or_empty_def MAX_ID_CHARS_def membership_rows_def somes_def owned_question_def)

text \<open>
  Whether an assessment was sent is read before its slots are replaced, and no lock or condition joins the two: a
  link created in between opens slots that change under it.
\<close>

definition sent_meanwhile :: interference where
  "sent_meanwhile k st = (if k = 0 then st\<lparr>t_invites := t_invites example_sent\<rparr> else st)"

definition unsent_store :: store where
  "unsent_store = example_sent\<lparr>t_invites := [], t_questions := [example_question, example_question\<lparr>q_id := ''q2''\<rparr>]\<rparr>"

lemma update_race_changes_sent:
  "let st' = snd (update_assessment sent_meanwhile ''a1'' \<lparr>ab_question_ids = Some [''q2''], ab_slots = None, ab_id = None,
       ab_title = ''U'', ab_duration_minutes = None, ab_org_name = Some ''Acme'', ab_proctored = False\<rparr> example_admin unsent_store)
   in sent ''a1'' st' \<and> map aq_question_id (slot_rows ''a1'' st') = [Some ''q2'']"
  by code_simp

text \<open>
  A deletion asks for fixed slots only, so every variant that nobody holds yet of a set that a sent assessment
  draws from can be deleted, and the link then has no question left for the next candidate.
\<close>

definition pooled_store :: store where
  "pooled_store = example_sent\<lparr>t_questions := [variant_of ''qa'' ''A''],
     t_assessment_questions := [example_slot\<lparr>aq_assessment_id := ''a1''\<rparr>]\<rparr>"

lemma pool_can_be_emptied:
  "sent ''a1'' pooled_store \<and> fst (delete_question alone ''qa'' example_admin pooled_store) = Inr () \<and>
   fst (invite_questions alone (hd (t_invites pooled_store)) (Some ''c@d'') (snd (delete_question alone ''qa'' example_admin pooled_store))) =
     Inl (HTTPException 404 ''a variant set in this assessment has no variants.'')"
  by code_simp

end
