(* ===== verification/Drafting.thy ===== *)
theory Drafting
  imports Assessments CandidateRoutes
begin

section \<open>Drafting: questions drafted by the agent, and what they cost\<close>

text \<open>
  The two draft routes of \<open>api.py\<close> and \<open>agent_client.draft_set\<close>. Nothing is stored but the use of the
  month's allowance: it is claimed before the agent is called and handed back for what was not
  delivered. pydantic is the parameter \<open>validator\<close>: the question it makes of a set of keyword
  arguments, if it makes one, and whether it accepts a response; its \<open>ValidationError\<close> is a
  \<open>ValueError\<close>. \<open>later\<close> is the time of the release and of the record, after the agent has
  answered. \<open>others\<close> uses the points 0 and 1 in the claim, 2 in a release and 3 in the record.
\<close>

record validator =
  pd_question :: "(string \<times> json) list \<Rightarrow> question_create option"
  pd_response :: "(string \<times> json) list \<Rightarrow> bool"

definition invalid_response :: exn where
  "invalid_response = ValueError ''response validation''"

text \<open>\<open>value.get(..)\<close>: only an object has it.\<close>

definition as_dict :: "json \<Rightarrow> exn + (string \<times> json) list" where
  "as_dict j = (case j of JObj d \<Rightarrow> Inr d | _ \<Rightarrow> Inl AttributeError)"

definition or_dict :: "json \<Rightarrow> json" where
  "or_dict j = (if truthy j then j else JObj [])"

definition not_null :: "json \<Rightarrow> json \<Rightarrow> json" where
  "not_null j v = (if j \<noteq> JNull then j else v)"

definition question_create_from_agent :: "validator \<Rightarrow> json \<Rightarrow> exn + question_create option" where
  "question_create_from_agent pd q =
    sbind (as_dict q) (\<lambda>d.
    sbind (as_dict (or_dict (dict_get d ''example''))) (\<lambda>example.
      Inr (pd_question pd
        [(''id'', get_default d ''id'' (JStr [])), (''title'', get_default d ''title'' (JStr [])),
         (''prompt'', get_default d ''prompt'' (JStr [])), (''constraints'', get_default d ''constraints'' (JStr [])),
         (''time_limit_s'', not_null (dict_get d ''time_limit_s'') (JFloat 2)),
         (''pass_threshold'', not_null (dict_get d ''pass_threshold'') (JFloat (9/10))),
         (''required_complexity'', dict_get d ''required_complexity''),
         (''example_input'', dict_get example ''input''), (''example_output'', dict_get example ''output''),
         (''test_cases'', get_default d ''test_cases'' (JList []))])))"

record draft_request =
  di_brief :: string
  di_language :: string
  di_difficulty :: "string option"
  di_target_complexity :: "string option"

record draft_made =
  do_question :: question_create
  do_rest :: "(string \<times> json) list"

definition cost_delta :: "rat \<Rightarrow> usage_delta" where
  "cost_delta cost = no_delta\<lparr>dl_draft_cost_usd := cost\<rparr>"

text \<open>The answer to a failed call: the agent's own status, or 502.\<close>

definition draft_failure :: "externals \<Rightarrow> (failure \<Rightarrow> string) \<Rightarrow> failure \<Rightarrow> exn" where
  "draft_failure x shown e =
    (case e of
       HTTPStatusError r \<Rightarrow> (case agent_detail x r of Inl err \<Rightarrow> err | Inr d \<Rightarrow> HTTPException (rs_status_code r) d)
     | _ \<Rightarrow> HTTPException 502 (''agent unreachable: '' @ shown e))"

text \<open>\<open>resp.json()\<close> of the reply, an object or not.\<close>

definition reply_json :: "response \<Rightarrow> exn + json" where
  "reply_json r = (case rs_json r of None \<Rightarrow> Inl (ValueError ''not JSON'') | Some j \<Rightarrow> Inr j)"

definition draft_reply :: "externals \<Rightarrow> validator \<Rightarrow> interference \<Rightarrow> instant \<Rightarrow> int \<Rightarrow> json \<Rightarrow> store \<Rightarrow>
    (draft_made, store) outcome" where
  "draft_reply x pd others later org_id body st =
    guardr (as_dict body) st (\<lambda>p.
    let cost = dict_get p ''cost_usd'' in
    guardr (py_float x (if truthy cost then cost else JFloat 0)) st (\<lambda>usd.
    bindr (record_usage (\<lambda>_. others 3) later org_id (cost_delta usd) st) (\<lambda>_ st1.
    guardr (question_create_from_agent pd (or_dict (dict_get p ''question''))) st1 (\<lambda>made.
    case made of
      None \<Rightarrow> bindr (release (\<lambda>_. others 2) later org_id Drafts 1 st1) (\<lambda>_ st2.
        (Inl (HTTPException 502 ''the agent drafted a question this platform cannot store''), st2))
    | Some question \<Rightarrow>
        let rest = [(''warnings'', get_default p ''warnings'' (JList [])),
              (''reference_solution'', dict_get p ''reference_solution''),
              (''reference_language'', dict_get p ''reference_language''),
              (''engine'', get_default p ''engine'' (JStr [])), (''cost_usd'', cost)]
        in if pd_response pd rest then (Inr \<lparr>do_question = question, do_rest = rest\<rparr>, st1)
           else (Inl invalid_response, st1)))))"

definition draft_question_route :: "settings \<Rightarrow> externals \<Rightarrow> validator \<Rightarrow> (failure \<Rightarrow> string) \<Rightarrow> (json \<Rightarrow> agent) \<Rightarrow>
    interference \<Rightarrow> request \<Rightarrow> instant \<Rightarrow> draft_request \<Rightarrow> membership \<Rightarrow> store \<Rightarrow> (draft_made, store) outcome" where
  "draft_question_route c x pd shown agent others rq later b org st =
    bindr (limit_route c ''draft'' (c_draft_rate_limit_max c) rq st) (\<lambda>_ st0.
    guardr (organization_row (m_org_id org) st0) st0 (\<lambda>g.
    bindr (consume c others (rq_now rq) g Drafts 1 st0) (\<lambda>_ st1.
    case draft_question agent (di_brief b) (di_language b) (di_difficulty b) (di_target_complexity b) of
      Inl e \<Rightarrow> bindr (release (\<lambda>_. others 2) later (m_org_id org) Drafts 1 st1) (\<lambda>_ st2. (Inl (draft_failure x shown e), st2))
    | Inr r \<Rightarrow> guardr (reply_json r) st1 (\<lambda>body. draft_reply x pd others later (m_org_id org) body st1))))"

subsection \<open>A set of variants\<close>

definition draft_set :: "(json \<Rightarrow> agent) \<Rightarrow> string \<Rightarrow> string \<Rightarrow> int \<Rightarrow> string option \<Rightarrow> string option \<Rightarrow> failure + response" where
  "draft_set agent brief language n difficulty target =
     fst (post_with_retry (agent (JObj [(''brief'', JStr brief), (''language'', JStr language), (''count'', JInt n),
       (''difficulty'', jopt difficulty), (''target_complexity'', jopt target)])) 3 1 draft_is_retryable)"

record variant_draft =
  vd_label :: "string option"
  vd_question :: question_create
  vd_rest :: "(string \<times> json) list"

text \<open>\<open>spent += cost\<close>.\<close>

definition add_cost :: "rat \<Rightarrow> json \<Rightarrow> exn + rat" where
  "add_cost spent cost = (case cost of
     JInt i \<Rightarrow> Inr (spent + of_int i) | JFloat r \<Rightarrow> Inr (spent + r) | JBool b \<Rightarrow> Inr (spent + (if b then 1 else 0))
   | _ \<Rightarrow> Inl TypeError)"

fun collect_variants :: "validator \<Rightarrow> json list \<Rightarrow> variant_draft list \<Rightarrow> rat \<Rightarrow> bool \<Rightarrow>
    exn + (variant_draft list \<times> rat \<times> bool)" where
  "collect_variants pd [] made_so_far spent have_cost = Inr (made_so_far, spent, have_cost)"
| "collect_variants pd (j # js) made_so_far spent have_cost =
    sbind (as_dict j) (\<lambda>v.
    let cost = dict_get v ''cost_usd''; q = dict_get v ''question''; have' = (have_cost \<or> cost \<noteq> JNull) in
    sbind (if cost \<noteq> JNull then add_cost spent cost else Inr spent) (\<lambda>spent'.
    if \<not> truthy q then collect_variants pd js made_so_far spent' have'
    else sbind (question_create_from_agent pd q) (\<lambda>made.
      case made of
        None \<Rightarrow> collect_variants pd js made_so_far spent' have'
      | Some question \<Rightarrow>
          let rest = [(''reference_solution'', dict_get v ''reference_solution''),
                (''reference_language'', dict_get v ''reference_language''),
                (''warnings'', get_default v ''warnings'' (JList []))];
              label = (if length made_so_far < length VARIANT_LABELS then Some [VARIANT_LABELS ! length made_so_far] else None)
          in if pd_response pd rest
             then collect_variants pd js (made_so_far @ [\<lparr>vd_label = label, vd_question = question, vd_rest = rest\<rparr>]) spent' have'
             else Inl invalid_response)))"

record set_draft_in = draft_request +
  di_count :: int

record set_draft_out =
  sd_variants :: "variant_draft list"
  sd_rest :: "(string \<times> json) list"

definition set_reply :: "validator \<Rightarrow> interference \<Rightarrow> instant \<Rightarrow> int \<Rightarrow> int \<Rightarrow> json \<Rightarrow> store \<Rightarrow> (set_draft_out, store) outcome" where
  "set_reply pd others later org_id n body st =
    guardr (as_dict body) st (\<lambda>p.
    guardr (py_iter (get_default p ''variants'' (JList []))) st (\<lambda>js.
    guardr (collect_variants pd js [] 0 False) st (\<lambda>(variants, spent, have_cost).
    bindr (record_usage (\<lambda>_. others 3) later org_id (cost_delta spent) st) (\<lambda>_ st1.
    let undelivered = n - int (length variants);
        rest = [(''warnings'', get_default p ''warnings'' (JList [])), (''engine'', get_default p ''engine'' (JStr [])),
                (''cost_usd'', if have_cost then JFloat spent else JNull)]
    in bindr (if 0 < undelivered then release (\<lambda>_. others 2) later org_id Drafts undelivered st1 else (Inr (), st1)) (\<lambda>_ st2.
       if pd_response pd rest then (Inr \<lparr>sd_variants = variants, sd_rest = rest\<rparr>, st2) else (Inl invalid_response, st2))))))"

definition draft_set_route :: "settings \<Rightarrow> externals \<Rightarrow> validator \<Rightarrow> (failure \<Rightarrow> string) \<Rightarrow> (json \<Rightarrow> agent) \<Rightarrow>
    interference \<Rightarrow> request \<Rightarrow> instant \<Rightarrow> set_draft_in \<Rightarrow> membership \<Rightarrow> store \<Rightarrow> (set_draft_out, store) outcome" where
  "draft_set_route c x pd shown agent others rq later b org st =
    bindr (limit_route c ''draft'' (c_draft_rate_limit_max c) rq st) (\<lambda>_ st0.
    guardr (organization_row (m_org_id org) st0) st0 (\<lambda>g.
    bindr (consume c others (rq_now rq) g Drafts (di_count b) st0) (\<lambda>_ st1.
    case draft_set agent (di_brief b) (di_language b) (di_count b) (di_difficulty b) (di_target_complexity b) of
      Inl e \<Rightarrow> bindr (release (\<lambda>_. others 2) later (m_org_id org) Drafts (di_count b) st1) (\<lambda>_ st2.
        (Inl (draft_failure x shown e), st2))
    | Inr r \<Rightarrow> guardr (reply_json r) st1 (\<lambda>body. set_reply pd others later (m_org_id org) (di_count b) body st1))))"

subsection \<open>What a draft costs\<close>

text \<open>What of the month's draft allowance is used.\<close>

definition drafts_used :: "int \<Rightarrow> instant \<Rightarrow> store \<Rightarrow> int" where
  "drafts_used i now st = u_count Drafts (current_usage i now st)"

lemma drafts_used_frame: "drafts_used i now (st\<lparr>t_counters := ct, mem_hits := h\<rparr>) = drafts_used i now st"
proof -
  have f: "find_usage j p (st\<lparr>t_counters := ct, mem_hits := h\<rparr>) = find_usage j p st" for j p by (simp add: find_usage_def)
  have c: "carried_from_previous i p (st\<lparr>t_counters := ct, mem_hits := h\<rparr>) = carried_from_previous i p st" for p
    by (simp add: carried_from_previous_def f)
  show ?thesis unfolding drafts_used_def current_usage_def usage_def f c ..
qed

lemma release_used:
  assumes "usage_ok st" and "0 \<le> now" and "0 \<le> k" and "0 \<le> drafts_used i now st"
  shows "drafts_used i now (snd (release alone now i Drafts k st)) = max 0 (drafts_used i now st - k) \<and>
    fst (release alone now i Drafts k st) = Inr ()"
proof -
  note r = release_outcome [OF assms(1,2), of i Drafts k]
  show ?thesis
  proof (cases "find_usage i (period_key now) st")
    case None
    then have "drafts_used i now st = 0" using assms(2) by (simp add: drafts_used_def current_usage_fresh usage_row_def)
    moreover have "snd (release alone now i Drafts k st) = st"
      using None assms(1,2) current_usage_id [OF assms(2,1), of i] by (simp add: release_def usage_now)
    ultimately show ?thesis using r assms(3) by simp
  next
    case (Some row)
    then have "find_usage i (period_key now) (snd (release alone now i Drafts k st)) =
        Some (set_count Drafts (max 0 (u_count Drafts row - k)) row)" using r by simp
    then show ?thesis using r Some current_usage_found by (simp add: drafts_used_def)
  qed
qed

lemma record_cost_used:
  assumes "usage_ok st" and "0 \<le> now"
  shows "drafts_used i now (snd (record_usage alone now i (cost_delta c) st)) = drafts_used i now st \<and>
    fst (record_usage alone now i (cost_delta c) st) = Inr () \<and>
    usage_ok (snd (record_usage alone now i (cost_delta c) st))"
proof (cases "c = 0")
  case True
  then have "cost_delta c = no_delta" by (simp add: cost_delta_def no_delta_def)
  then show ?thesis using assms by (simp add: record_usage_def)
next
  case False
  then have "cost_delta c \<noteq> no_delta" by (simp add: cost_delta_def no_delta_def)
  from record_usage_alone [OF assms this, of i]
  have r: "record_usage alone now i (cost_delta c) st = (Inr (), snd (bump_usage i (period_key now) (cost_delta c) (opened i now st)))" .
  have o: "find_usage i (period_key now) (opened i now st) = Some (current_usage i now (opened i now st))"
    "same_usage (current_usage i now (opened i now st)) (current_usage i now st)"
    using current_usage_opened [OF assms, of i] by auto
  have "current_usage i now (snd (bump_usage i (period_key now) (cost_delta c) (opened i now st))) =
      bump (cost_delta c) (current_usage i now (opened i now st))"
    by (rule current_usage_found) (simp add: find_usage_bump o(1))
  moreover have "u_count Drafts (bump (cost_delta c) r) = u_count Drafts r" for r
    by (simp add: bump_def cost_delta_def no_delta_def)
  ultimately show ?thesis
    using same_usage_counts(1) [OF o(2), of Drafts] bump_usage_ok [OF opened_usage_ok [OF assms]]
    unfolding r drafts_used_def by simp
qed

definition claimed :: "settings \<Rightarrow> request \<Rightarrow> int \<Rightarrow> int \<Rightarrow> store \<Rightarrow> (store \<Rightarrow> ('a, store) outcome) \<Rightarrow> ('a, store) outcome" where
  "claimed c rq i n st k =
    bindr (limit_route c ''draft'' (c_draft_rate_limit_max c) rq st) (\<lambda>_ st0.
    guardr (organization_row i st0) st0 (\<lambda>g.
    bindr (consume c alone (rq_now rq) g Drafts n st0) (\<lambda>_ st1. k st1)))"

text \<open>Whatever is asked of the agent is paid for first, or not asked.\<close>

lemma claimed_cases:
  assumes "c_billing_enforced c" and "usage_ok st" and "0 \<le> rq_now rq" and "0 < n"
  shows "(\<exists>e s. claimed c rq i n st k = (Inl e, s) \<and> drafts_used i (rq_now rq) s = drafts_used i (rq_now rq) st) \<or>
    (\<exists>st1. claimed c rq i n st k = k st1 \<and> usage_ok st1 \<and> drafts_used i (rq_now rq) st1 = drafts_used i (rq_now rq) st + n)"
proof -
  define used where "used = drafts_used i (rq_now rq)"
  obtain ct h where st0: "snd (limit_route c ''draft'' (c_draft_rate_limit_max c) rq st) = st\<lparr>t_counters := ct, mem_hits := h\<rparr>"
    using limit_frame by blast
  let ?st0 = "st\<lparr>t_counters := ct, mem_hits := h\<rparr>"
  have used0: "used ?st0 = used st" unfolding used_def by (rule drafts_used_frame)
  have ok0: "usage_ok ?st0" using assms(2) by (simp add: usage_ok_def)
  show ?thesis
  proof (cases "fst (limit_route c ''draft'' (c_draft_rate_limit_max c) rq st)")
    case (Inl e)
    then have "limit_route c ''draft'' (c_draft_rate_limit_max c) rq st = (Inl e, ?st0)" using st0 by (simp add: prod_eq_iff)
    then show ?thesis using used0 by (simp add: claimed_def used_def)
  next
    case (Inr u)
    then have l: "limit_route c ''draft'' (c_draft_rate_limit_max c) rq st = (Inr u, ?st0)" using st0 by (simp add: prod_eq_iff)
    show ?thesis
    proof (cases "organization_row i ?st0")
      case (Inl e)
      then show ?thesis using used0 l by (simp add: claimed_def used_def)
    next
      case g: (Inr g)
      then have "o_id g = Some i" by (auto simp: organization_row_def dest: get_org_SomeD split: option.splits)
      note co = consume_outcome [OF assms(1,4) this ok0 assms(3), of Drafts]
      obtain res s where r: "consume c alone (rq_now rq) g Drafts n ?st0 = (res, s)" by fastforce
      then show ?thesis
        using co used0 l g by (cases res) (auto simp: claimed_def used_def drafts_used_def split: if_splits)
    qed
  qed
qed

lemma draft_route_claimed:
  "draft_question_route c x pd shown agent alone rq later b org st =
   claimed c rq (m_org_id org) 1 st (\<lambda>st1.
     case draft_question agent (di_brief b) (di_language b) (di_difficulty b) (di_target_complexity b) of
      Inl e \<Rightarrow> bindr (release (\<lambda>_. alone 2) later (m_org_id org) Drafts 1 st1) (\<lambda>_ st2. (Inl (draft_failure x shown e), st2))
    | Inr r \<Rightarrow> guardr (reply_json r) st1 (\<lambda>body. draft_reply x pd alone later (m_org_id org) body st1))"
  by (simp add: draft_question_route_def claimed_def)

lemma set_route_claimed:
  "draft_set_route c x pd shown agent alone rq later b org st =
   claimed c rq (m_org_id org) (di_count b) st (\<lambda>st1.
     case draft_set agent (di_brief b) (di_language b) (di_count b) (di_difficulty b) (di_target_complexity b) of
      Inl e \<Rightarrow> bindr (release (\<lambda>_. alone 2) later (m_org_id org) Drafts (di_count b) st1) (\<lambda>_ st2.
        (Inl (draft_failure x shown e), st2))
    | Inr r \<Rightarrow> guardr (reply_json r) st1 (\<lambda>body. set_reply pd alone later (m_org_id org) (di_count b) body st1))"
  by (simp add: draft_set_route_def claimed_def)

lemma alone_const: "(\<lambda>_. alone k) = alone"
  by (intro ext) (simp add: alone_simp)

lemma bindr_release:
  assumes "usage_ok st" and "0 \<le> now" and "0 \<le> k" and "k \<le> drafts_used i now st"
  obtains s where "release (\<lambda>_. alone 2) now i Drafts k st = (Inr (), s)" and "drafts_used i now s = drafts_used i now st - k"
  using release_used [OF assms(1-3), of i] assms(3,4) that
  by (cases "release alone now i Drafts k st") (auto simp: alone_const)

lemma bindr_record:
  assumes "usage_ok st" and "0 \<le> now"
  obtains s where "record_usage (\<lambda>_. alone 3) now i (cost_delta usd) st = (Inr (), s)"
    and "drafts_used i now s = drafts_used i now st" and "usage_ok s"
  using record_cost_used [OF assms, of i usd] that
  by (cases "record_usage alone now i (cost_delta usd) st") (auto simp: alone_const)

lemma draft_reply_charge:
  assumes "usage_ok st" and "0 \<le> now" and "1 \<le> drafts_used i now st"
  shows "drafts_used i now (snd (draft_reply x pd alone now i body st)) = drafts_used i now st \<and>
      (\<forall>s d. fst (draft_reply x pd alone now i body st) \<noteq> Inl (HTTPException s d)) \<or>
    drafts_used i now (snd (draft_reply x pd alone now i body st)) = drafts_used i now st - 1 \<and>
      fst (draft_reply x pd alone now i body st) = Inl (HTTPException 502 ''the agent drafted a question this platform cannot store'')"
proof -
  define r where "r = draft_reply x pd alone now i body st"
  define used where "used = drafts_used i now"
  have py: "py_float x j \<noteq> Inl (HTTPException a d)" for j a d
    by (auto simp: py_float_def split: json.splits option.splits)
  have ad: "as_dict j \<noteq> Inl (HTTPException a d)" for j a d
    by (auto simp: as_dict_def split: json.splits)
  have qc: "question_create_from_agent pd j \<noteq> Inl (HTTPException a d)" for j a d
    using ad by (auto simp: question_create_from_agent_def sbind_def split: sum.splits)
  have "used (snd r) = used st \<and> (\<forall>s d. fst r \<noteq> Inl (HTTPException s d)) \<or>
    used (snd r) = used st - 1 \<and> fst r = Inl (HTTPException 502 ''the agent drafted a question this platform cannot store'')"
  proof (cases "as_dict body")
    case (Inl e)
    then show ?thesis using ad by (auto simp: r_def draft_reply_def)
  next
    case p: (Inr p)
    let ?cost = "dict_get p ''cost_usd''"
    show ?thesis
    proof (cases "py_float x (if truthy ?cost then ?cost else JFloat 0)")
      case (Inl e)
      then show ?thesis using p py by (auto simp: r_def draft_reply_def Let_def)
    next
      case usd: (Inr usd)
      obtain s where s: "record_usage (\<lambda>_. alone 3) now i (cost_delta usd) st = (Inr (), s)" "used s = used st" "usage_ok s"
        using bindr_record [OF assms(1,2)] unfolding used_def by metis
      show ?thesis
      proof (cases "question_create_from_agent pd (or_dict (dict_get p ''question''))")
        case (Inl e)
        then show ?thesis using p usd s qc by (auto simp: r_def draft_reply_def Let_def)
      next
        case made: (Inr made)
        show ?thesis
        proof (cases made)
          case None
          obtain s2 where "release (\<lambda>_. alone 2) now i Drafts 1 s = (Inr (), s2)" "used s2 = used s - 1"
            using bindr_release [OF s(3) assms(2), of 1 i] assms(3) s(2) unfolding used_def by auto
          with None p usd s made show ?thesis by (simp add: r_def draft_reply_def Let_def)
        next
          case (Some q)
          with p usd s made show ?thesis by (simp add: r_def draft_reply_def Let_def invalid_response_def)
        qed
      qed
    qed
  qed
  then show ?thesis by (simp add: r_def used_def)
qed

lemma set_reply_charge:
  assumes "usage_ok st" and "0 \<le> now" and "n \<le> drafts_used i now st" and "0 \<le> n"
  shows "(\<forall>s d. fst (set_reply pd alone now i n body st) \<noteq> Inl (HTTPException s d)) \<and>
    (case fst (set_reply pd alone now i n body st) of
       Inr out \<Rightarrow> drafts_used i now (snd (set_reply pd alone now i n body st)) =
         drafts_used i now st - max 0 (n - int (length (sd_variants out)))
     | Inl e \<Rightarrow> drafts_used i now st - n \<le> drafts_used i now (snd (set_reply pd alone now i n body st)) \<and>
         drafts_used i now (snd (set_reply pd alone now i n body st)) \<le> drafts_used i now st)"
proof -
  define r where "r = set_reply pd alone now i n body st"
  have ad: "as_dict j \<noteq> Inl (HTTPException a d)" for j a d
    by (auto simp: as_dict_def split: json.splits)
  have it: "py_iter j \<noteq> Inl (HTTPException a d)" for j a d
    by (auto simp: py_iter_def split: json.splits)
  have ac: "add_cost t j \<noteq> Inl (HTTPException a d)" for t j a d
    by (auto simp: add_cost_def split: json.splits)
  have qc: "question_create_from_agent pd j \<noteq> Inl (HTTPException a d)" for j a d
    using ad by (auto simp: question_create_from_agent_def sbind_def split: sum.splits)
  have cv: "collect_variants pd js acc t h \<noteq> Inl (HTTPException a d)" for js acc t h a d
  proof (induction js arbitrary: acc t h)
    case Nil
    then show ?case by simp
  next
    case (Cons j js)
    then show ?case using ad ac qc
      by (auto simp: sbind_def Let_def invalid_response_def split: sum.splits option.splits if_splits)
  qed
  have "(\<forall>s d. fst r \<noteq> Inl (HTTPException s d)) \<and>
    (case fst r of Inr out \<Rightarrow> drafts_used i now (snd r) = drafts_used i now st - max 0 (n - int (length (sd_variants out)))
     | Inl e \<Rightarrow> drafts_used i now st - n \<le> drafts_used i now (snd r) \<and> drafts_used i now (snd r) \<le> drafts_used i now st)"
  proof (cases "as_dict body")
    case (Inl e)
    then show ?thesis using ad assms(4) by (auto simp: r_def set_reply_def)
  next
    case p: (Inr p)
    show ?thesis
    proof (cases "py_iter (get_default p ''variants'' (JList []))")
      case (Inl e)
      then show ?thesis using p it assms(4) by (auto simp: r_def set_reply_def)
    next
      case js: (Inr js)
      show ?thesis
      proof (cases "collect_variants pd js [] 0 False")
        case (Inl e)
        then show ?thesis using p js cv assms(4) by (auto simp: r_def set_reply_def)
      next
        case (Inr res)
        then obtain vs spent h where got: "collect_variants pd js [] 0 False = Inr (vs, spent, h)" by (cases res) auto
        obtain s where s: "record_usage (\<lambda>_. alone 3) now i (cost_delta spent) st = (Inr (), s)"
            "drafts_used i now s = drafts_used i now st" "usage_ok s"
          using bindr_record [OF assms(1,2)] by metis
        show ?thesis
        proof (cases "0 < n - int (length vs)")
          case True
          obtain s2 where "release (\<lambda>_. alone 2) now i Drafts (n - int (length vs)) s = (Inr (), s2)"
              "drafts_used i now s2 = drafts_used i now s - (n - int (length vs))"
            using bindr_release [OF s(3) assms(2), of "n - int (length vs)" i] True assms(3) s(2) by auto
          with p js got s True show ?thesis by (simp add: r_def set_reply_def Let_def invalid_response_def)
        next
          case False
          with p js got s assms(4) show ?thesis by (simp add: r_def set_reply_def Let_def invalid_response_def)
        qed
      qed
    qed
  qed
  then show ?thesis unfolding r_def .
qed

text \<open>
  What the allowance pays: the price of what is delivered; nothing for an answer that refuses (an \<open>HTTPException\<close>);
  and up to what was asked for when the route breaks on a reply it cannot read.
\<close>

definition charged :: "(store \<Rightarrow> int) \<Rightarrow> ('a \<Rightarrow> int) \<Rightarrow> int \<Rightarrow> store \<Rightarrow> ('a, store) outcome \<Rightarrow> bool" where
  "charged used price asked st r = (case fst r of
     Inr out \<Rightarrow> used (snd r) = used st + price out
   | Inl e \<Rightarrow> (case e of HTTPException s d \<Rightarrow> used (snd r) = used st
       | _ \<Rightarrow> used st \<le> used (snd r) \<and> used (snd r) \<le> used st + asked))"

lemma drafts_used_period: "period_key a = period_key b \<Longrightarrow> drafts_used i a = drafts_used i b"
  by (intro ext) (simp add: drafts_used_def current_usage_def usage_row_def split: sum.split)

lemma reply_json_plain: "reply_json rp \<noteq> Inl (HTTPException s d)"
  by (auto simp: reply_json_def split: option.splits)

lemma charged_after_claim:
  assumes "c_billing_enforced c" and "usage_ok st" and "0 \<le> rq_now rq" and "0 < n" and "period_key later = period_key (rq_now rq)"
    and "\<And>st1. usage_ok st1 \<Longrightarrow> drafts_used i later st1 = drafts_used i later st + n \<Longrightarrow>
      charged (drafts_used i later) price n st (k st1)"
  shows "charged (drafts_used i later) price n st (claimed c rq i n st k)"
proof -
  have p: "drafts_used i later = drafts_used i (rq_now rq)" by (rule drafts_used_period [OF assms(5)])
  show ?thesis
    using claimed_cases [OF assms(1-4), of i k]
  proof (elim disjE exE conjE)
    fix e s
    assume "claimed c rq i n st k = (Inl e, s)" and "drafts_used i (rq_now rq) s = drafts_used i (rq_now rq) st"
    then show ?thesis using assms(4) by (simp add: charged_def p split: exn.splits)
  next
    fix st1
    assume "claimed c rq i n st k = k st1" and "usage_ok st1" and "drafts_used i (rq_now rq) st1 = drafts_used i (rq_now rq) st + n"
    then show ?thesis using assms(6) [of st1] by (simp add: p)
  qed
qed

lemma one_draft_charged:
  assumes "c_billing_enforced c" and "usage_ok st" and "0 \<le> rq_now rq" and "0 \<le> drafts_used (m_org_id org) later st"
    and "0 \<le> later" and "period_key later = period_key (rq_now rq)"
  shows "charged (drafts_used (m_org_id org) later) (\<lambda>_. 1) 1 st (draft_question_route c x pd shown agent alone rq later b org st)"
  unfolding draft_route_claimed
proof (rule charged_after_claim [OF assms(1-3) zero_less_one assms(6)])
  fix st1
  let ?i = "m_org_id org" and ?now = "later" and ?call = "draft_question agent (di_brief b) (di_language b) (di_difficulty b) (di_target_complexity b)"
  assume st1: "usage_ok st1" "drafts_used ?i ?now st1 = drafts_used ?i ?now st + 1"
  then have u: "1 \<le> drafts_used ?i ?now st1" using assms(4) by simp
  show "charged (drafts_used ?i ?now) (\<lambda>_. 1) 1 st
     (case ?call of
        Inl e \<Rightarrow> bindr (release (\<lambda>_. alone 2) ?now ?i Drafts 1 st1) (\<lambda>_ st2. (Inl (draft_failure x shown e), st2))
      | Inr r \<Rightarrow> guardr (reply_json r) st1 (\<lambda>body. draft_reply x pd alone ?now ?i body st1))"
  proof (cases ?call)
    case (Inl e)
    obtain s2 where "release (\<lambda>_. alone 2) ?now ?i Drafts 1 st1 = (Inr (), s2)"
        "drafts_used ?i ?now s2 = drafts_used ?i ?now st1 - 1"
      by (rule bindr_release [OF st1(1) assms(5) _ u]) (use zero_less_one in simp_all)
    then show ?thesis using Inl st1(2) by (simp add: charged_def split: exn.splits)
  next
    case (Inr r)
    show ?thesis
    proof (cases "reply_json r")
      case (Inl e)
      then show ?thesis using Inr reply_json_plain st1(2) by (auto simp: charged_def split: exn.splits)
    next
      case body: (Inr body)
      show ?thesis
        using draft_reply_charge [OF st1(1) assms(5) u, of x pd body] st1(2) unfolding Inr sum.case body guardr_simps charged_def
        by (auto split: sum.splits exn.splits)
    qed
  qed
qed

lemma set_draft_charged:
  assumes "c_billing_enforced c" and "usage_ok st" and "0 \<le> rq_now rq" and "0 \<le> drafts_used (m_org_id org) later st"
    and "0 \<le> later" and "period_key later = period_key (rq_now rq)"
    and "0 < di_count bs"
  shows "charged (drafts_used (m_org_id org) later) (\<lambda>out. min (di_count bs) (int (length (sd_variants out)))) (di_count bs) st (draft_set_route c x pd shown agent alone rq later bs org st)"
  unfolding set_route_claimed
proof (rule charged_after_claim [OF assms(1-3) assms(7) assms(6)])
  fix st1
  let ?i = "m_org_id org" and ?now = "later" and ?call = "draft_set agent (di_brief bs) (di_language bs) (di_count bs) (di_difficulty bs) (di_target_complexity bs)"
  assume st1: "usage_ok st1" "drafts_used ?i ?now st1 = drafts_used ?i ?now st + di_count bs"
  then have u: "di_count bs \<le> drafts_used ?i ?now st1" using assms(4) by simp
  show "charged (drafts_used ?i ?now) (\<lambda>out. min (di_count bs) (int (length (sd_variants out)))) (di_count bs) st
     (case ?call of
        Inl e \<Rightarrow> bindr (release (\<lambda>_. alone 2) ?now ?i Drafts (di_count bs) st1) (\<lambda>_ st2. (Inl (draft_failure x shown e), st2))
      | Inr r \<Rightarrow> guardr (reply_json r) st1 (\<lambda>body. set_reply pd alone ?now ?i (di_count bs) body st1))"
  proof (cases ?call)
    case (Inl e)
    obtain s2 where "release (\<lambda>_. alone 2) ?now ?i Drafts (di_count bs) st1 = (Inr (), s2)"
        "drafts_used ?i ?now s2 = drafts_used ?i ?now st1 - di_count bs"
      by (rule bindr_release [OF st1(1) assms(5) _ u]) (use assms(7) in simp_all)
    then show ?thesis using Inl st1(2) assms(7) by (simp add: charged_def split: exn.splits)
  next
    case (Inr r)
    show ?thesis
    proof (cases "reply_json r")
      case (Inl e)
      then show ?thesis using Inr reply_json_plain st1(2) assms(7) by (auto simp: charged_def split: exn.splits)
    next
      case body: (Inr body)
      show ?thesis
        using set_reply_charge [OF st1(1) assms(5) u less_imp_le [OF assms(7)], of pd body] st1(2) assms(7) unfolding Inr sum.case body guardr_simps charged_def
        by (auto split: sum.splits exn.splits)
    qed
  qed
qed

text \<open>
  C29. What the month's allowance pays for drafts. A question that is delivered costs one unit, a delivered set as many as
  the variants it holds (never more than were asked for), and a refusal - by the rate limiter, the quota, the agent, the
  network, or because the question drafted cannot be stored - costs nothing. A reply that breaks the route (a 500) is not handed
  back in full: it costs no more than what was asked for. This is for an answer in the calendar month of the request, with
  no other request on the organisation's allowance in between.
\<close>

theorem drafts_charged_as_delivered:
  assumes "c_billing_enforced c" and "usage_ok st" and "0 \<le> rq_now rq" and "0 \<le> drafts_used (m_org_id org) (rq_now rq) st"
    and "0 \<le> later" and "period_key later = period_key (rq_now rq)" and "0 < di_count bs"
  shows "charged (drafts_used (m_org_id org) (rq_now rq)) (\<lambda>_. 1) 1 st
      (draft_question_route c x pd shown agent alone rq later b org st) \<and>
    charged (drafts_used (m_org_id org) (rq_now rq)) (\<lambda>out. min (di_count bs) (int (length (sd_variants out)))) (di_count bs) st
      (draft_set_route c x pd shown agent alone rq later bs org st)"
proof -
  note p = drafts_used_period [OF assms(6), symmetric]
  have u: "0 \<le> drafts_used (m_org_id org) later st" using assms(4) by (simp add: p)
  show ?thesis
    unfolding p using one_draft_charged [OF assms(1-3) u assms(5,6)] set_draft_charged [OF assms(1-3) u assms(5-7)] by blast
qed

definition example_validator :: validator where
  "example_validator = \<lparr>pd_question = (\<lambda>_. None), pd_response = (\<lambda>_. True)\<rparr>"

definition example_agent :: "json \<Rightarrow> agent" where
  "example_agent body n = Inr \<lparr>rs_status_code = 200, rs_text = [], rs_json = Some (JObj [(''question'', JObj [])])\<rparr>"

definition example_set_draft :: set_draft_in where
  "example_set_draft = \<lparr>di_brief = ''b'', di_language = ''python'', di_difficulty = None, di_target_complexity = None, di_count = 3\<rparr>"

definition drafting_store :: store where
  "drafting_store = empty_store\<lparr>t_orgs := [example_org]\<rparr>"

lemma drafts_charged_as_delivered_witness:
  "charged (drafts_used 1 0) (\<lambda>out. min 3 (int (length (sd_variants out)))) 3 drafting_store
     (draft_set_route default_settings example_externals example_validator (\<lambda>_. []) example_agent alone
        (example_request\<lparr>rq_now := 0\<rparr>) 60 example_set_draft example_admin drafting_store)"
proof -
  have "usage_ok drafting_store" using usage_ok_empty by (simp add: usage_ok_def drafting_store_def)
  moreover have "drafts_used 1 0 drafting_store = 0"
    by (simp add: drafts_used_def current_usage_fresh find_usage_def drafting_store_def empty_store_def usage_row_def)
  moreover have "c_billing_enforced default_settings" by (simp add: default_settings_def)
  moreover have "m_org_id example_admin = 1" by (simp add: example_admin_def)
  moreover have "di_count example_set_draft = 3" by (simp add: example_set_draft_def)
  moreover have "period_key 60 = period_key 0" by code_simp
  ultimately show ?thesis
    using drafts_charged_as_delivered [of default_settings drafting_store "example_request\<lparr>rq_now := 0\<rparr>" example_admin 60 example_set_draft]
    by simp
qed

subsection \<open>Drafts that are paid for and never seen\<close>

text \<open>
  A reply that is an object but whose question is not is answered 500, and its unit stays claimed:
  only a question that pydantic refuses is refunded.
\<close>

lemma malformed_draft_is_charged:
  assumes "usage_ok st" and "0 \<le> now"
  shows "fst (draft_reply x pd alone now i (JObj [(''question'', JList [JNull])]) st) = Inl AttributeError \<and>
    drafts_used i now (snd (draft_reply x pd alone now i (JObj [(''question'', JList [JNull])]) st)) = drafts_used i now st"
proof -
  obtain s where "record_usage (\<lambda>_. alone 3) now i (cost_delta 0) st = (Inr (), s)" "drafts_used i now s = drafts_used i now st"
    using bindr_record [OF assms] by metis
  then show ?thesis
    by (simp add: draft_reply_def as_dict_def dict_get_def py_float_def Let_def or_dict_def question_create_from_agent_def)
qed

text \<open>A draft that fails after the month has turned is handed back to the month that did not pay for it.\<close>

lemma rollover_keeps_the_charge:
  assumes "usage_ok st" and "0 \<le> later" and "period_key later \<noteq> period_key now"
  shows "find_usage i (period_key now) (snd (release alone later i Drafts k st)) = find_usage i (period_key now) st"
  using release_outcome [OF assms(1,2), of i Drafts k] assms(3) by auto

end
