(* ===== verification/Mail.thy ===== *)
theory Mail
  imports Access
begin

section \<open>Mail: what became of each message\<close>

text \<open>
  \<open>email_client.py\<close>. The SMTP server is a parameter (\<open>smtp\<close>): what each step of a session raises, if
  it raises, as the text of the exception, and the readings of the monotonic clock. The steps are
  those of \<open>smtplib\<close>: a session that was opened is ended by QUIT, whatever happened in it, and a QUIT
  that is not answered 221 raises. \<open>deliver\<close> returns, besides its report, the addresses whose
  message the server took.
\<close>

record mail_settings =
  ms_host :: "string option"
  ms_use_tls :: bool
  ms_user :: "string option"
  ms_password :: "string option"
  ms_deadline_s :: rat

definition mail_settings_of :: "(string \<Rightarrow> string option) \<Rightarrow> bool \<Rightarrow> (string \<Rightarrow> rat) \<Rightarrow> mail_settings" where
  "mail_settings_of env testing float_of =
     \<lparr>ms_host = (if testing then None else getenv_or_none env ''SMTP_HOST''),
      ms_use_tls = flag_not_false env ''SMTP_USE_TLS'' ''true'',
      ms_user = getenv_or_none env ''SMTP_USER'', ms_password = getenv_or_none env ''SMTP_PASSWORD'',
      ms_deadline_s = float_of (case env ''SMTP_DEADLINE_S'' of None \<Rightarrow> ''30'' | Some s \<Rightarrow> s)\<rparr>"

record smtp =
  sm_connect :: "string option"
  sm_starttls :: "string option"
  sm_login :: "string option"
  sm_login_refused :: bool  \<comment> \<open>the login error is an \<open>SMTPAuthenticationError\<close>\<close>
  sm_send :: "nat \<Rightarrow> string \<Rightarrow> string option"
  sm_quit :: "string option"
  sm_clock :: "nat \<Rightarrow> rat"

definition NOT_CONFIGURED :: string where
  "NOT_CONFIGURED = ''email is not configured on the server; the link was logged, not sent.''"

definition DEADLINE_EXCEEDED :: string where
  "DEADLINE_EXCEEDED = ''the server's email time budget (SMTP_DEADLINE_S) ran out before this address '' @
     ''was reached; the link was not sent.''"

definition has_credentials :: "mail_settings \<Rightarrow> bool" where
  "has_credentials ms = (ms_user ms \<noteq> None \<and> ms_password ms \<noteq> None)"

text \<open>STARTTLS and LOGIN, when they are asked for; the first failure ends the block.\<close>

definition open_session :: "mail_settings \<Rightarrow> smtp \<Rightarrow> string option" where
  "open_session ms sm =
    (case (if ms_use_tls ms then sm_starttls sm else None) of
       Some e \<Rightarrow> Some e
     | None \<Rightarrow> if has_credentials ms then sm_login sm else None)"

definition send_one :: "smtp \<Rightarrow> nat \<Rightarrow> string \<Rightarrow> delivery" where
  "send_one sm k to = (case sm_send sm k to of
     None \<Rightarrow> \<lparr>d_recipient = to, d_sent = True, d_error = None\<rparr>
   | Some e \<Rightarrow> \<lparr>d_recipient = to, d_sent = False, d_error = Some e\<rparr>)"

definition not_sent :: "string \<Rightarrow> string \<Rightarrow> delivery" where
  "not_sent e to = \<lparr>d_recipient = to, d_sent = False, d_error = Some e\<rparr>"

text \<open>The clock is read once per recipient, before its message.\<close>

fun send_each :: "smtp \<Rightarrow> rat \<Rightarrow> nat \<Rightarrow> string list \<Rightarrow> delivery list" where
  "send_each sm deadline k [] = []"
| "send_each sm deadline k (to # rest) =
     (if sm_clock sm (Suc k) \<ge> deadline then not_sent DEADLINE_EXCEEDED to else send_one sm k to)
     # send_each sm deadline (Suc k) rest"

definition taken :: "delivery list \<Rightarrow> string list" where
  "taken ds = map d_recipient (filter d_sent ds)"

definition deliver :: "mail_settings \<Rightarrow> smtp \<Rightarrow> string list \<Rightarrow> delivery list \<times> string list" where
  "deliver ms sm recipients =
    (case ms_host ms of
       None \<Rightarrow> (map (not_sent NOT_CONFIGURED) recipients, [])
     | Some host \<Rightarrow>
         (case sm_connect sm of
            Some e \<Rightarrow> (map (not_sent e) recipients, [])
          | None \<Rightarrow>
              let out = (case open_session ms sm of
                    Some e \<Rightarrow> Inl e
                  | None \<Rightarrow> Inr (send_each sm (sm_clock sm 0 + ms_deadline_s ms) 0 recipients));
                  sent = (case out of Inl _ \<Rightarrow> [] | Inr ds \<Rightarrow> taken ds)
              in (case sm_quit sm of
                    Some e \<Rightarrow> (map (not_sent e) recipients, sent)
                  | None \<Rightarrow> (case out of Inl e \<Rightarrow> (map (not_sent e) recipients, []) | Inr ds \<Rightarrow> (ds, sent)))))"

definition send_invite_emails :: "mail_settings \<Rightarrow> smtp \<Rightarrow> string list \<Rightarrow> delivery list \<times> string list" where
  "send_invite_emails ms sm recipients = (if recipients = [] then ([], []) else deliver ms sm recipients)"

definition send_account_email :: "mail_settings \<Rightarrow> smtp \<Rightarrow> string \<Rightarrow> delivery" where
  "send_account_email ms sm to = hd (fst (deliver ms sm [to]))"

definition send_results_email :: "mail_settings \<Rightarrow> smtp \<Rightarrow> string \<Rightarrow> delivery" where
  "send_results_email ms sm to = hd (fst (deliver ms sm [to]))"

subsection \<open>The check at the boot\<close>

definition is_local_host :: "string \<Rightarrow> bool" where
  "is_local_host host = (py_lower host \<in>
     {''localhost'', ''127.0.0.1'', ''::1'', ''[::1]'', ''mailhog'', ''mailpit''})"

datatype login_check = Healthy | Unproven string | CredentialsRejected

definition check_login :: "mail_settings \<Rightarrow> smtp \<Rightarrow> login_check" where
  "check_login ms sm =
    (case ms_host ms of
       None \<Rightarrow> Healthy
     | Some host \<Rightarrow>
         let unreachable = (\<lambda>e. Unproven (''could not reach '' @ host @ '': '' @ e));
             ended = (\<lambda>r. case sm_quit sm of Some e \<Rightarrow> unreachable e | None \<Rightarrow> r)
         in (case sm_connect sm of
               Some e \<Rightarrow> unreachable e
             | None \<Rightarrow>
                 (case (if ms_use_tls ms then sm_starttls sm else None) of
                    Some e \<Rightarrow> ended (unreachable e)
                  | None \<Rightarrow>
                      if has_credentials ms
                      then (case sm_login sm of
                              None \<Rightarrow> ended Healthy
                            | Some e \<Rightarrow> ended (if sm_login_refused sm then CredentialsRejected else unreachable e))
                      else if \<not> is_local_host host
                      then ended (Unproven (''SMTP_USER/SMTP_PASSWORD are not both set, so mail to '' @ host @
                        '' is sent unauthenticated and will almost certainly be refused (Gmail answers 530 Authentication '' @
                        ''Required). SMTP_PASSWORD must be a 16-character app password, not the account password.''))
                      else ended Healthy)))"

subsection \<open>Names in the log\<close>

definition mask_email :: "string \<Rightarrow> string" where
  "mask_email addr = (case py_partition (CHR ''@'') addr of (local, sep, domain) \<Rightarrow>
     if domain = [] then ''***'' else take 1 local @ ''***@'' @ take 1 domain @ ''***'')"

definition who :: "bool \<Rightarrow> string list \<Rightarrow> string" where
  "who log_pii recipients = py_join '', '' (map (\<lambda>r. if log_pii then r else mask_email r) recipients)"

subsection \<open>Reports\<close>

lemma send_each_recipients: "map d_recipient (send_each sm dl k rs) = rs"
  by (induction rs arbitrary: k) (auto simp: not_sent_def send_one_def split: option.splits)

lemma send_each_nth:
  "j < length rs \<Longrightarrow> send_each sm dl k rs ! j =
     (if sm_clock sm (Suc (k + j)) \<ge> dl then not_sent DEADLINE_EXCEEDED (rs ! j) else send_one sm (k + j) (rs ! j))"
proof (induction rs arbitrary: k j)
  case Nil
  then show ?case by simp
next
  case (Cons r rs)
  then show ?case by (cases j) auto
qed

lemma length_send_each [simp]: "length (send_each sm dl k rs) = length rs"
  by (induction rs arbitrary: k) auto

lemma taken_not_sent [simp]: "taken (map (not_sent e) rs) = []"
  by (induction rs) (auto simp: taken_def not_sent_def)

text \<open>The report is one line per recipient, in order, whatever the server does.\<close>

lemma deliver_recipients: "map d_recipient (fst (deliver ms sm rs)) = rs"
proof -
  have n: "map (d_recipient \<circ> not_sent e) rs = rs" for e by (simp add: comp_def not_sent_def)
  show ?thesis by (auto simp: deliver_def Let_def n send_each_recipients split: option.splits sum.splits)
qed

text \<open>
  The session is open for messages; the server takes the message to the address at \<open>j\<close>, which is only started before the
  budget is spent.
\<close>

definition mail_open :: "mail_settings \<Rightarrow> smtp \<Rightarrow> bool" where
  "mail_open ms sm = (ms_host ms \<noteq> None \<and> sm_connect sm = None \<and> open_session ms sm = None)"

definition accepted :: "mail_settings \<Rightarrow> smtp \<Rightarrow> string list \<Rightarrow> nat \<Rightarrow> bool" where
  "accepted ms sm rs j = (sm_clock sm (Suc j) < sm_clock sm 0 + ms_deadline_s ms \<and> sm_send sm j (rs ! j) = None)"

lemma filter_by_index: "filter P xs = map ((!) xs) (filter (\<lambda>j. P (xs ! j)) [0..<length xs])"
proof -
  have "filter P (map ((!) xs) [0..<length xs]) = map ((!) xs) (filter (\<lambda>j. P (xs ! j)) [0..<length xs])"
    by (simp only: filter_map comp_def)
  then show ?thesis by (simp only: map_nth)
qed

lemma sent_line:
  assumes "j < length rs"
  shows "d_sent (send_each sm (sm_clock sm 0 + ms_deadline_s ms) 0 rs ! j) = accepted ms sm rs j"
  using assms by (auto simp: send_each_nth accepted_def not_sent_def send_one_def split: option.splits)

lemma taken_send_each:
  "taken (send_each sm (sm_clock sm 0 + ms_deadline_s ms) 0 rs) = map ((!) rs) (filter (accepted ms sm rs) [0..<length rs])"
proof -
  let ?ds = "send_each sm (sm_clock sm 0 + ms_deadline_s ms) 0 rs"
  have r: "d_recipient (?ds ! j) = rs ! j" if "j < length rs" for j
    using that send_each_recipients [of sm "sm_clock sm 0 + ms_deadline_s ms" 0 rs] by (metis length_send_each nth_map)
  have "taken ?ds = map (\<lambda>j. d_recipient (?ds ! j)) (filter (\<lambda>j. d_sent (?ds ! j)) [0..<length rs])"
    unfolding taken_def filter_by_index [of d_sent ?ds] by simp
  also have "\<dots> = map ((!) rs) (filter (accepted ms sm rs) [0..<length rs])"
    using r sent_line [of _ rs sm ms] by (auto intro!: map_cong filter_cong)
  finally show ?thesis .
qed

lemma delivered:
  "deliver ms sm rs =
    (if ms_host ms = None then (map (not_sent NOT_CONFIGURED) rs, [])
     else case sm_connect sm of Some e \<Rightarrow> (map (not_sent e) rs, [])
     | None \<Rightarrow> let sent = (if mail_open ms sm then map ((!) rs) (filter (accepted ms sm rs) [0..<length rs]) else []) in
         (case sm_quit sm of Some e \<Rightarrow> (map (not_sent e) rs, sent)
          | None \<Rightarrow> (case open_session ms sm of Some e \<Rightarrow> (map (not_sent e) rs, [])
              | None \<Rightarrow> (send_each sm (sm_clock sm 0 + ms_deadline_s ms) 0 rs, sent))))"
  by (simp add: deliver_def Let_def mail_open_def taken_send_each split: option.split)

lemma line_consistent: "j < length rs \<Longrightarrow> d_sent (send_each sm dl k rs ! j) = (d_error (send_each sm dl k rs ! j) = None)"
  by (auto simp: send_each_nth not_sent_def send_one_def split: option.splits)

text \<open>
  C30. What the report of a mailing says, whatever the server does: one line per recipient in order, with an error
  exactly on the lines that are not sent. The addresses whose messages the server takes are exactly those reached
  before the time budget is spent and not refused, in a session that opened: one refusal costs no other address its message.
  While QUIT succeeds, the lines reported as sent are exactly these; when QUIT fails, no line is reported as sent - the
  report never claims a message that was not taken, but it can deny one that was.
\<close>

theorem mailing_reported_exactly:
  assumes "deliver ms sm rs = (ds, sent)"
  shows "map d_recipient ds = rs \<and>
    sent = (if mail_open ms sm then map ((!) rs) (filter (accepted ms sm rs) [0..<length rs]) else []) \<and>
    (\<forall>j<length rs. d_sent (ds ! j) = (d_error (ds ! j) = None) \<and>
       d_sent (ds ! j) = (mail_open ms sm \<and> accepted ms sm rs j \<and> sm_quit sm = None))"
proof (intro conjI)
  show "map d_recipient ds = rs" using deliver_recipients [of ms sm rs] assms by simp
  show "sent = (if mail_open ms sm then map ((!) rs) (filter (accepted ms sm rs) [0..<length rs]) else [])"
    using assms by (auto simp: delivered Let_def mail_open_def split: if_splits option.splits)
  show "\<forall>j<length rs. d_sent (ds ! j) = (d_error (ds ! j) = None) \<and>
       d_sent (ds ! j) = (mail_open ms sm \<and> accepted ms sm rs j \<and> sm_quit sm = None)"
    using assms by (auto simp: delivered Let_def mail_open_def not_sent_def sent_line line_consistent [symmetric] split: if_splits option.splits)
qed

definition example_smtp :: smtp where
  "example_smtp = \<lparr>sm_connect = None, sm_starttls = None, sm_login = None, sm_login_refused = False,
     sm_send = (\<lambda>k to. if to = ''b'' then Some ''refused'' else None), sm_quit = None, sm_clock = (\<lambda>k. of_nat k * 10)\<rparr>"

definition example_mail :: mail_settings where
  "example_mail = \<lparr>ms_host = Some ''h'', ms_use_tls = True, ms_user = None, ms_password = None, ms_deadline_s = 30\<rparr>"

lemma mailing_reported_exactly_witness:
  "snd (deliver example_mail example_smtp [''a'', ''b'', ''c'']) = [''a''] \<and>
   map d_sent (fst (deliver example_mail example_smtp [''a'', ''b'', ''c''])) = [True, False, False]"
proof -
  obtain ds sent where d: "deliver example_mail example_smtp [''a'', ''b'', ''c''] = (ds, sent)" by fastforce
  have "sent = (if mail_open example_mail example_smtp then map ((!) [''a'', ''b'', ''c''])
      (filter (accepted example_mail example_smtp [''a'', ''b'', ''c'']) [0..<length [''a'', ''b'', ''c'']]) else [])"
    using mailing_reported_exactly [OF d] by blast
  also have "\<dots> = [''a'']"
    by (simp add: mail_open_def accepted_def example_mail_def example_smtp_def open_session_def has_credentials_def upt_rec)
  finally have "sent = [''a'']" .
  moreover have "map d_sent ds = [True, False, False]"
    using arg_cong [OF d, of "\<lambda>r. map d_sent (fst r)"]
    by (simp add: deliver_def example_mail_def example_smtp_def open_session_def has_credentials_def send_one_def not_sent_def)
  ultimately show ?thesis using d by simp
qed

text \<open>
  An error at QUIT, after every message was taken, lands in the branch for a connection that never
  opened ("nobody was mailed"): every recipient is reported as not sent.
\<close>

lemma failed_quit_denies_all:
  assumes "ms_host ms = Some h" and "sm_connect sm = None" and "open_session ms sm = None" and "sm_quit sm = Some e"
    and "\<And>k to. sm_send sm k to = None" and "\<And>k. sm_clock sm (Suc k) < sm_clock sm 0 + ms_deadline_s ms"
  shows "deliver ms sm rs = (map (not_sent e) rs, rs)"
proof -
  have "taken (send_each sm (sm_clock sm 0 + ms_deadline_s ms) k rs) = rs" for k
  proof (induction rs arbitrary: k)
    case (Cons r rs)
    have "\<not> sm_clock sm (Suc k) \<ge> sm_clock sm 0 + ms_deadline_s ms" using assms(6) [of k] by simp
    then show ?case using Cons assms(5) by (simp add: taken_def send_one_def)
  qed (simp add: taken_def)
  then show ?thesis using assms(1-4) by (simp add: deliver_def)
qed

text \<open>A log line names nobody unless it may.\<close>

lemma mask_email_short: "length (mask_email a) \<le> 9"
  by (auto simp: mask_email_def split: prod.splits)

end
