(* ===== verification/Invites.thy ===== *)
theory Invites
  imports LibrarySafety Mail
begin

section \<open>Invites: links to questions, assessments and variant sets\<close>

text \<open>
  The invite routes of \<open>api.py\<close>. The tokens are arguments; \<open>mailer\<close> is \<open>Mail.send_invite_emails\<close> with
  the settings and the server of the moment. \<open>others 0\<close> stands between the checks and the commit of the
  link (its token is unique and what it points at must still exist), \<open>others 1\<close> runs while the mail is
  sent; the outcome of the mail is written to the row afterwards. The text of the mail is not modelled.
\<close>

subsection \<open>Bodies and answers\<close>

record invite_create =
  ic_recipients :: "string list"
  ic_expires_at :: "instant option"

record set_invite_create = invite_create +
  ic_overrides :: "(string \<times> string) list"

definition invite_create_ok :: "instant \<Rightarrow> 'a invite_create_scheme \<Rightarrow> bool" where
  "invite_create_ok now b = (ic_recipients b \<noteq> [] \<and> (case ic_expires_at b of None \<Rightarrow> True | Some e \<Rightarrow> now < e))"

definition invite_url :: "settings \<Rightarrow> string \<Rightarrow> string" where
  "invite_url c token = c_frontend_base_url c @ ''/t/'' @ token"

record invite_out =
  io_token :: string
  io_url :: string
  io_question_id :: "string option"
  io_assessment_id :: "string option"
  io_variant_set_id :: "string option"
  io_variant_label :: "string option"
  io_recipients :: "string list"
  io_expires_at :: "instant option"
  io_status :: string
  io_deliveries :: "delivery list"

definition invite_out_of :: "settings \<Rightarrow> invite \<Rightarrow> string option \<Rightarrow> invite_out" where
  "invite_out_of c v label =
     \<lparr>io_token = inv_token v, io_url = invite_url c (inv_token v), io_question_id = inv_question_id v,
      io_assessment_id = inv_assessment_id v, io_variant_set_id = inv_variant_set_id v, io_variant_label = label,
      io_recipients = inv_recipients v, io_expires_at = inv_expires_at v, io_status = inv_status v,
      io_deliveries = inv_deliveries v\<rparr>"

definition check_invite_capacity :: "settings \<Rightarrow> instant \<Rightarrow> membership \<Rightarrow> nat \<Rightarrow> store \<Rightarrow> exn + unit" where
  "check_invite_capacity c now org n st =
    (if \<not> c_billing_enforced c then Inr ()
     else sbind (organization_row (m_org_id org) st) (\<lambda>g.
       sbind (usage (m_org_id org) (period_key now) st) (\<lambda>row.
         let limit = allowance g Sittings row in
         require (\<not> (limit - u_sittings row < int n)) (quota_error g (Monthly Sittings) (Some limit)))))"

subsection \<open>Creating a link\<close>

definition new_invite :: "instant \<Rightarrow> string \<Rightarrow> interviewer \<Rightarrow> string list \<Rightarrow> instant option \<Rightarrow> int option \<Rightarrow> store \<Rightarrow> invite" where
  "new_invite now token current recipients expires_at duration st =
     \<lparr>inv_id = fresh_id inv_id (t_invites st), inv_token = token, inv_question_id = None, inv_assessment_id = None,
      inv_variant_set_id = None, inv_created_by = Some (iv_id current), inv_recipients = recipients, inv_deliveries = [],
      inv_expires_at = expires_at, inv_proctored = True, inv_duration_minutes = duration, inv_status = ''active'',
      inv_created_at = now\<rparr>"

definition insert_invite :: "invite \<Rightarrow> store \<Rightarrow> exn + store" where
  "insert_invite v st =
    (if exists_where (\<lambda>r. inv_token r = inv_token v) (t_invites st) \<or>
        \<not> (case inv_question_id v of None \<Rightarrow> True | Some i \<Rightarrow> has_question i st) \<or>
        \<not> (case inv_assessment_id v of None \<Rightarrow> True | Some i \<Rightarrow> has_assessment i st) \<or>
        \<not> (case inv_variant_set_id v of None \<Rightarrow> True | Some i \<Rightarrow> has_set i st)
     then Inl IntegrityError else Inr (st\<lparr>t_invites := t_invites st @ [v]\<rparr>))"

text \<open>The second commit of a create route: the outcome of the mail, on the row as it is by then.\<close>

definition store_deliveries :: "int \<Rightarrow> delivery list \<Rightarrow> store \<Rightarrow> (invite, store) outcome" where
  "store_deliveries i ds st =
    (let st1 = st\<lparr>t_invites := upd_where (\<lambda>r. inv_id r = i) (\<lambda>r. r\<lparr>inv_deliveries := ds\<rparr>) (t_invites st)\<rparr>
     in case get_invite i st1 of
          None \<Rightarrow> (Inl (RuntimeError ''could not refresh instance''), st)
        | Some v \<Rightarrow> (Inr v, st1))"

definition commit_invite :: "settings \<Rightarrow> (string list \<Rightarrow> delivery list) \<Rightarrow> interference \<Rightarrow> (store \<Rightarrow> invite) \<Rightarrow> store \<Rightarrow>
    (invite_out, store) outcome" where
  "commit_invite c mailer others row st =
    (let st1 = others 0 st; v = row st1 in
     guardr (insert_invite v st1) st1 (\<lambda>st2.
     bindr (store_deliveries (inv_id v) (mailer (inv_recipients v)) (others 1 st2)) (\<lambda>w st3.
       (Inr (invite_out_of c w None), st3))))"

definition create_invite :: "settings \<Rightarrow> (string list \<Rightarrow> delivery list) \<Rightarrow> interference \<Rightarrow> instant \<Rightarrow> string \<Rightarrow> string \<Rightarrow>
    invite_create \<Rightarrow> interviewer \<Rightarrow> membership \<Rightarrow> store \<Rightarrow> (invite_out, store) outcome" where
  "create_invite c mailer others now token qid b current org st =
    guardr (owned_question qid org st) st (\<lambda>q.
    guardr (check_invite_capacity c now org (length (ic_recipients b)) st) st (\<lambda>_.
    commit_invite c mailer others (\<lambda>s. (new_invite now token current (map normalize_email (ic_recipients b))
      (ic_expires_at b) (q_duration_minutes q) s)\<lparr>inv_question_id := Some qid\<rparr>) st))"

definition create_assessment_invite :: "settings \<Rightarrow> (string list \<Rightarrow> delivery list) \<Rightarrow> interference \<Rightarrow> instant \<Rightarrow> string \<Rightarrow>
    string \<Rightarrow> invite_create \<Rightarrow> interviewer \<Rightarrow> membership \<Rightarrow> store \<Rightarrow> (invite_out, store) outcome" where
  "create_assessment_invite c mailer others now token aid b current org st =
    guardr (owned_assessment aid org st) st (\<lambda>a.
    guardr (require (assessment_slots a st \<noteq> [])
              (HTTPException 400 ''cannot invite to an assessment with no questions.'')) st (\<lambda>_.
    guardr (check_invite_capacity c now org (length (ic_recipients b)) st) st (\<lambda>_.
    commit_invite c mailer others (\<lambda>s. (new_invite now token current (map normalize_email (ic_recipients b))
      (ic_expires_at b) (a_duration_minutes a) s)\<lparr>inv_assessment_id := Some aid, inv_proctored := a_proctored a\<rparr>) st)))"

subsection \<open>A variant set: one link per recipient\<close>

definition override_of :: "(string \<times> string) list \<Rightarrow> string \<Rightarrow> string option" where
  "override_of overrides recipient =
    (if or_empty (map_of overrides recipient) \<noteq> [] then map_of overrides recipient
     else map_of overrides (normalize_email recipient))"

fun assign_variants :: "question list \<Rightarrow> (string \<times> string) list \<Rightarrow> nat \<Rightarrow> string list \<Rightarrow>
    exn + (string \<times> question) list" where
  "assign_variants variants overrides cursor [] = Inr []"
| "assign_variants variants overrides cursor (recipient # rs) =
    (case override_of overrides recipient of
       Some i \<Rightarrow> (case first_where (\<lambda>q. q_id q = i) variants of
           None \<Rightarrow> Inl (HTTPException 422 (''variant '' @ py_repr i @ '' is not part of this set.''))
         | Some q \<Rightarrow> sbind (assign_variants variants overrides cursor rs) (\<lambda>rest. Inr ((normalize_email recipient, q) # rest)))
     | None \<Rightarrow> sbind (assign_variants variants overrides (Suc cursor) rs) (\<lambda>rest.
         Inr ((normalize_email recipient, variants ! (cursor mod length variants)) # rest)))"

text \<open>The rows of one batch, all or nothing; the \<open>k\<close>-th link has the token \<open>tokens k\<close>.\<close>

fun insert_assigned :: "instant \<Rightarrow> (nat \<Rightarrow> string) \<Rightarrow> string \<Rightarrow> interviewer \<Rightarrow> instant option \<Rightarrow> nat \<Rightarrow>
    (string \<times> question) list \<Rightarrow> store \<Rightarrow> exn + (invite \<times> string option) list \<times> store" where
  "insert_assigned now tokens set_id current expires_at k [] st = Inr ([], st)"
| "insert_assigned now tokens set_id current expires_at k ((email, q) # rest) st =
    (let v = (new_invite now (tokens k) current [email] expires_at (q_duration_minutes q) st)
               \<lparr>inv_question_id := Some (q_id q), inv_variant_set_id := Some set_id\<rparr>
     in sbind (insert_invite v st) (\<lambda>st1.
        sbind (insert_assigned now tokens set_id current expires_at (Suc k) rest st1) (\<lambda>(vs, st2).
          Inr ((v, q_variant_label q) # vs, st2))))"

fun mail_assigned :: "settings \<Rightarrow> (string list \<Rightarrow> delivery list) \<Rightarrow> (invite \<times> string option) list \<Rightarrow> store \<Rightarrow>
    (invite_out list, store) outcome" where
  "mail_assigned c mailer [] st = (Inr [], st)"
| "mail_assigned c mailer ((v, label) # vs) st =
    bindr (store_deliveries (inv_id v) (mailer (inv_recipients v)) st) (\<lambda>w st1.
    bindr (mail_assigned c mailer vs st1) (\<lambda>rest st2. (Inr (invite_out_of c w label # rest), st2)))"

definition set_cursor :: "string \<Rightarrow> store \<Rightarrow> nat" where
  "set_cursor set_id st = count_where (\<lambda>v. inv_variant_set_id v = Some set_id) (t_invites st)"

definition create_variant_set_invites :: "settings \<Rightarrow> (string list \<Rightarrow> delivery list) \<Rightarrow> interference \<Rightarrow> instant \<Rightarrow>
    (nat \<Rightarrow> string) \<Rightarrow> string \<Rightarrow> set_invite_create \<Rightarrow> interviewer \<Rightarrow> membership \<Rightarrow> store \<Rightarrow> (invite_out list, store) outcome" where
  "create_variant_set_invites c mailer others now tokens set_id b current org st =
    guardr (owned_variant_set set_id org st) st (\<lambda>_.
    let variants = set_variants set_id st in
    guardr (require (variants \<noteq> []) (HTTPException 400 ''cannot invite to a variant set with no variants.'')) st (\<lambda>_.
    guardr (check_invite_capacity c now org (length (ic_recipients b)) st) st (\<lambda>_.
    guardr (assign_variants variants (ic_overrides b) (set_cursor set_id st) (ic_recipients b)) st (\<lambda>assigned.
    let st1 = others 0 st in
    guardr (insert_assigned now tokens set_id current (ic_expires_at b) 0 assigned st1) st1 (\<lambda>(vs, st2).
    mail_assigned c mailer vs (others 1 st2))))))"

subsection \<open>Listing and revoking\<close>

definition list_invites :: "settings \<Rightarrow> string \<Rightarrow> membership \<Rightarrow> store \<Rightarrow> exn + invite_out list" where
  "list_invites c qid org st = sbind (owned_question qid org st) (\<lambda>_.
     Inr (map (\<lambda>v. invite_out_of c v None) (filter (\<lambda>v. inv_question_id v = Some qid) (t_invites st))))"

definition list_assessment_invites :: "settings \<Rightarrow> string \<Rightarrow> membership \<Rightarrow> store \<Rightarrow> exn + invite_out list" where
  "list_assessment_invites c aid org st = sbind (owned_assessment aid org st) (\<lambda>_.
     Inr (map (\<lambda>v. invite_out_of c v None) (filter (\<lambda>v. inv_assessment_id v = Some aid) (t_invites st))))"

definition list_variant_set_invites :: "settings \<Rightarrow> string \<Rightarrow> membership \<Rightarrow> store \<Rightarrow> exn + invite_out list" where
  "list_variant_set_invites c set_id org st = sbind (owned_variant_set set_id org st) (\<lambda>_.
     Inr (map (\<lambda>v. invite_out_of c v (Option.bind (inv_question_id v) (\<lambda>i.
            Option.bind (first_where (\<lambda>q. q_id q = i) (set_variants set_id st)) q_variant_label)))
          (filter (\<lambda>v. inv_variant_set_id v = Some set_id) (t_invites st))))"

definition revoke :: "settings \<Rightarrow> invite \<Rightarrow> store \<Rightarrow> (invite_out, store) outcome" where
  "revoke c v st = (Inr (invite_out_of c (v\<lparr>inv_status := ''revoked''\<rparr>) None),
     st\<lparr>t_invites := upd_where (\<lambda>r. inv_id r = inv_id v) (\<lambda>r. r\<lparr>inv_status := ''revoked''\<rparr>) (t_invites st)\<rparr>)"

definition bad_token :: exn where
  "bad_token = HTTPException 404 ''invalid invite token.''"

definition revoke_any_invite :: "settings \<Rightarrow> string \<Rightarrow> membership \<Rightarrow> store \<Rightarrow> (invite_out, store) outcome" where
  "revoke_any_invite c token org st =
    (case invite_by_token token st of
       None \<Rightarrow> (Inl bad_token, st)
     | Some v \<Rightarrow> (case invite_org v st of
           None \<Rightarrow> (Inl bad_token, st)
         | Some owner \<Rightarrow> if o_id owner \<noteq> Some (m_org_id org) then (Inl bad_token, st) else revoke c v st))"

definition revoke_invite :: "settings \<Rightarrow> string \<Rightarrow> string \<Rightarrow> membership \<Rightarrow> store \<Rightarrow> (invite_out, store) outcome" where
  "revoke_invite c qid token org st =
    guardr (owned_question qid org st) st (\<lambda>_.
    case first_where (\<lambda>v. inv_token v = token \<and> inv_question_id v = Some qid) (t_invites st) of
      None \<Rightarrow> (Inl bad_token, st) | Some v \<Rightarrow> revoke c v st)"

end
