(* ===== verification/InviteSafety.thy ===== *)
theory InviteSafety
  imports Invites
begin

section \<open>InviteSafety: what a link promises\<close>

text \<open>
  The links of a variant set use its variants evenly, a link is only handed out while the plan
  has sittings left for everyone on it, and the terms of a link somebody has begun to sit are fixed.
\<close>

subsection \<open>The rotation\<close>

definition share :: "nat \<Rightarrow> nat \<Rightarrow> nat \<Rightarrow> nat" where
  "share len n j = n div len + (if j < n mod len then 1 else 0)"

lemma share_Suc:
  assumes "j < len"
  shows "share len (Suc n) j = share len n j + (if j = n mod len then 1 else 0)"
proof (cases "Suc (n mod len) = len")
  case True
  then have "Suc n div len = Suc (n div len)" "Suc n mod len = 0" by (simp_all add: div_Suc mod_Suc)
  moreover have "j < n mod len \<or> j = n mod len" using True assms by linarith
  ultimately show ?thesis by (auto simp: share_def)
next
  case False
  then have "Suc n div len = n div len" "Suc n mod len = Suc (n mod len)" by (simp_all add: div_Suc mod_Suc)
  then show ?thesis by (auto simp: share_def)
qed

definition given :: "string \<Rightarrow> string \<Rightarrow> store \<Rightarrow> nat" where
  "given set_id qid st = count_where (\<lambda>v. inv_variant_set_id v = Some set_id \<and> inv_question_id v = Some qid) (t_invites st)"

text \<open>Every variant has its share of the links handed out so far.\<close>

definition rotation_ok :: "string \<Rightarrow> store \<Rightarrow> bool" where
  "rotation_ok set_id st = (let qs = set_variants set_id st in distinct (map q_id qs) \<and>
     (\<forall>j<length qs. given set_id (q_id (qs ! j)) st = share (length qs) (set_cursor set_id st) j))"

lemma set_variants_cong: "t_questions st' = t_questions st \<Longrightarrow> set_variants i st' = set_variants i st"
  by (simp add: set_variants_def)

lemma insert_invite_eq: "insert_invite v st = Inr st' \<Longrightarrow> st' = st\<lparr>t_invites := t_invites st @ [v]\<rparr>"
  by (auto simp: insert_invite_def split: if_splits)

lemma rotation_step:
  assumes "rotation_ok set_id st" and "set_variants set_id st \<noteq> []"
    and "insert_invite v st = Inr st'" and "inv_variant_set_id v = Some set_id"
    and "inv_question_id v = Some (q_id (set_variants set_id st ! (set_cursor set_id st mod length (set_variants set_id st))))"
  shows "rotation_ok set_id st' \<and> set_variants set_id st' = set_variants set_id st \<and>
    set_cursor set_id st' = Suc (set_cursor set_id st)"
proof -
  let ?qs = "set_variants set_id st" and ?n = "set_cursor set_id st"
  note st' = insert_invite_eq [OF assms(3)]
  have vs: "set_variants set_id st' = ?qs" by (rule set_variants_cong) (simp add: st')
  have cur: "set_cursor set_id st' = Suc ?n" by (simp add: set_cursor_def st' assms(4))
  have m: "?n mod length ?qs < length ?qs" using assms(2) by simp
  have "given set_id (q_id (?qs ! j)) st' = share (length ?qs) (Suc ?n) j" if "j < length ?qs" for j
  proof -
    have "q_id (?qs ! j) = q_id (?qs ! (?n mod length ?qs)) \<longleftrightarrow> j = ?n mod length ?qs"
      using assms(1) that m nth_eq_iff_index_eq [of "map q_id ?qs" j "?n mod length ?qs"] by (simp add: rotation_ok_def Let_def)
    then have "given set_id (q_id (?qs ! j)) st' = given set_id (q_id (?qs ! j)) st + (if j = ?n mod length ?qs then 1 else 0)"
      using assms(4,5) by (auto simp: given_def st')
    then show ?thesis using assms(1) that share_Suc [OF that] by (simp add: rotation_ok_def Let_def)
  qed
  then show ?thesis using assms(1) vs cur by (simp add: rotation_ok_def Let_def)
qed

lemma override_none: "override_of [] r = None"
  by (simp add: override_of_def or_empty_def)

lemma insert_rotation:
  assumes "assign_variants (set_variants set_id st) [] (set_cursor set_id st) rs = Inr assigned"
    and "insert_assigned now tokens set_id current e k assigned st = Inr (vs, st')"
    and "rotation_ok set_id st" and "set_variants set_id st \<noteq> []"
  shows "rotation_ok set_id st' \<and> set_cursor set_id st' = set_cursor set_id st + length rs \<and> t_usage st' = t_usage st"
  using assms
proof (induction rs arbitrary: st k assigned vs)
  case Nil
  then show ?case by simp
next
  case (Cons r rs)
  let ?qs = "set_variants set_id st" and ?n = "set_cursor set_id st"
  let ?q = "?qs ! (?n mod length ?qs)"
  from Cons.prems(1) obtain rest where rest: "assign_variants ?qs [] (Suc ?n) rs = Inr rest"
    and a: "assigned = (normalize_email r, ?q) # rest"
    by (auto simp: override_none elim!: sbind_InrE)
  define v where "v = (new_invite now (tokens k) current [normalize_email r] e (q_duration_minutes ?q) st)
               \<lparr>inv_question_id := Some (q_id ?q), inv_variant_set_id := Some set_id\<rparr>"
  from Cons.prems(2) obtain st1 vs1 where ins: "insert_invite v st = Inr st1"
    and more: "insert_assigned now tokens set_id current e (Suc k) rest st1 = Inr (vs1, st')"
    by (auto simp: a Let_def v_def elim!: sbind_InrE split: prod.splits)
  have v: "inv_variant_set_id v = Some set_id" "inv_question_id v = Some (q_id ?q)" by (simp_all add: v_def)
  note step = rotation_step [OF Cons.prems(3,4) ins v]
  have u: "t_usage st1 = t_usage st" using insert_invite_eq [OF ins] by simp
  have "rotation_ok set_id st' \<and> set_cursor set_id st' = set_cursor set_id st1 + length rs \<and> t_usage st' = t_usage st1"
    using Cons.IH [of st1 rest "Suc k" vs1] step rest more Cons.prems(4) by simp
  then show ?case using step u by simp
qed

lemma deliveries_rotation:
  "\<lbrakk>rotation_ok set_id st; store_deliveries i ds st = (r, st')\<rbrakk> \<Longrightarrow>
   rotation_ok set_id st' \<and> set_cursor set_id st' = set_cursor set_id st \<and> t_usage st' = t_usage st"
proof -
  assume h: "rotation_ok set_id st" "store_deliveries i ds st = (r, st')"
  let ?st = "st\<lparr>t_invites := upd_where (\<lambda>r. inv_id r = i) (\<lambda>r. r\<lparr>inv_deliveries := ds\<rparr>) (t_invites st)\<rparr>"
  have c: "count_where p (upd_where q (\<lambda>r. r\<lparr>inv_deliveries := ds\<rparr>) t) = count_where p t"
    if "\<And>r. p (r\<lparr>inv_deliveries := ds\<rparr>) = p r" for p q and t :: "invite list"
    by (induction t) (auto simp: that)
  have s: "set_cursor set_id ?st = set_cursor set_id st" "given set_id q ?st = given set_id q st" for q
    by (simp_all add: set_cursor_def given_def c)
  have "set_variants set_id ?st = set_variants set_id st" by (rule set_variants_cong) simp
  then have "rotation_ok set_id ?st" using h(1) s by (simp add: rotation_ok_def Let_def)
  moreover have "st' = st \<or> st' = ?st" using h(2) by (auto simp: store_deliveries_def Let_def split: option.splits)
  ultimately show ?thesis using h(1) s by auto
qed

lemma mail_rotation:
  "rotation_ok set_id st \<Longrightarrow> mail_assigned c mailer vs st = (r, st') \<Longrightarrow>
   rotation_ok set_id st' \<and> set_cursor set_id st' = set_cursor set_id st \<and> t_usage st' = t_usage st"
proof (induction vs arbitrary: st r)
  case Nil
  then show ?case by simp
next
  case (Cons x vs)
  obtain v label where x: "x = (v, label)" by (cases x)
  obtain res s where d: "store_deliveries (inv_id v) (mailer (inv_recipients v)) st = (res, s)" by fastforce
  note s = deliveries_rotation [OF Cons.prems(1) d]
  show ?case
  proof (cases res)
    case (Inl e)
    then show ?thesis using Cons.prems(2) d s by (simp add: x)
  next
    case (Inr w)
    obtain res2 s2 where m: "mail_assigned c mailer vs s = (res2, s2)" by fastforce
    have "st' = s2" using Cons.prems(2) d m Inr by (cases res2) (simp_all add: x)
    then show ?thesis using Cons.IH [of s res2] s m by simp
  qed
qed

definition capacity_left :: "organization \<Rightarrow> instant \<Rightarrow> store \<Rightarrow> int" where
  "capacity_left g now st = (case o_id g of None \<Rightarrow> 0 | Some i \<Rightarrow>
     allowance g Sittings (current_usage i now st) - u_sittings (current_usage i now st))"

lemma capacity_checked:
  assumes "check_invite_capacity c now org n st = Inr ()" and "c_billing_enforced c" and "0 \<le> now"
    and "get_org (m_org_id org) st = Some g"
  shows "int n \<le> capacity_left g now st"
proof -
  have "o_id g = Some (m_org_id org)" using get_org_SomeD [OF assms(4)] by simp
  then show ?thesis
    using assms by (auto simp: check_invite_capacity_def organization_row_def usage_now capacity_left_def Let_def)
qed

text \<open>
  The links of a variant set rotate through its variants however the recipients are spread over calls: after
  each call without pins every variant has been handed out as often as every other, or once more, the
  next call going on where this one stopped; the whole batch fits what the month's plan has left, and handing out
  links uses nothing of it.
\<close>

theorem variant_links_rotate:
  assumes "rotation_ok set_id st" and "ic_overrides b = []" and "get_org (m_org_id org) st = Some g"
    and "0 \<le> now" and "c_billing_enforced c"
    and "create_variant_set_invites c mailer alone now tokens set_id b current org st = (Inr outs, st')"
  shows "rotation_ok set_id st' \<and> set_cursor set_id st' = set_cursor set_id st + length (ic_recipients b) \<and>
    list_all (\<lambda>p. list_all (\<lambda>q. given set_id (q_id p) st' \<le> Suc (given set_id (q_id q) st')) (set_variants set_id st'))
      (set_variants set_id st') \<and>
    int (length (ic_recipients b)) \<le> capacity_left g now st \<and> t_usage st' = t_usage st"
proof -
  from assms(6) obtain assigned vs st2 where ne: "set_variants set_id st \<noteq> []"
    and cap: "check_invite_capacity c now org (length (ic_recipients b)) st = Inr ()"
    and asg: "assign_variants (set_variants set_id st) [] (set_cursor set_id st) (ic_recipients b) = Inr assigned"
    and ins: "insert_assigned now tokens set_id current (ic_expires_at b) 0 assigned st = Inr (vs, st2)"
    and mail: "mail_assigned c mailer vs st2 = (Inr outs, st')"
    unfolding create_variant_set_invites_def Let_def alone_simp assms(2)
    by (auto elim!: guardr_InrE split: prod.splits)
  note i = insert_rotation [OF asg ins assms(1) ne]
  note m = mail_rotation [OF conjunct1 [OF i] mail]
  have "given set_id (q_id p) st' \<le> Suc (given set_id (q_id q) st')"
    if "p \<in> set (set_variants set_id st')" "q \<in> set (set_variants set_id st')" for p q
    using m that by (auto simp: rotation_ok_def Let_def share_def in_set_conv_nth)
  then show ?thesis using i m capacity_checked [OF cap assms(5,4,3)] by (simp add: list_all_iff)
qed

definition set_store :: store where
  "set_store = empty_store\<lparr>t_orgs := [example_org], t_questions := [variant_of ''qb'' ''B'', variant_of ''qa'' ''A''],
     t_variant_sets := [\<lparr>vs_id = ''set'', vs_owner_id = None, vs_org_id = 1, vs_title = ''T'', vs_brief = ''b'',
       vs_language = ''python'', vs_difficulty = None, vs_target_complexity = None, vs_status = ''active'', vs_created_at = 0\<rparr>]\<rparr>"

definition three_links :: set_invite_create where
  "three_links = \<lparr>ic_recipients = [''a@x'', ''b@x'', ''c@x''], ic_expires_at = None, ic_overrides = []\<rparr>"

definition report_sent :: "string list \<Rightarrow> delivery list" where
  "report_sent rs = map (\<lambda>r. \<lparr>d_recipient = r, d_sent = True, d_error = None\<rparr>) rs"

definition number_tokens :: "nat \<Rightarrow> string" where
  "number_tokens k = show_nat k"

lemma set_store_variants: "map q_id (set_variants ''set'' set_store) = [''qa'', ''qb'']"
  by code_simp

lemma set_store_rotation: "rotation_ok ''set'' set_store"
proof -
  have "given ''set'' q set_store = 0" "set_cursor ''set'' set_store = 0" for q
    by (simp_all add: given_def set_cursor_def set_store_def empty_store_def)
  then show ?thesis using set_store_variants by (simp add: rotation_ok_def Let_def share_def)
qed

lemma three_links_made:
  "is_ok (create_variant_set_invites default_settings report_sent alone 0 number_tokens ''set'' three_links example_author example_admin set_store)"
  by code_simp

lemma variant_links_rotate_witness:
  "set_cursor ''set'' (snd (create_variant_set_invites default_settings report_sent alone 0 number_tokens ''set'' three_links
     example_author example_admin set_store)) = 3"
proof -
  let ?r = "create_variant_set_invites default_settings report_sent alone 0 number_tokens ''set'' three_links
     example_author example_admin set_store"
  have b: "ic_overrides three_links = []" "length (ic_recipients three_links) = 3" by (simp_all add: three_links_def)
  have g: "get_org (m_org_id example_admin) set_store = Some example_org"
    by (simp add: get_org_def set_store_def example_admin_def example_org_def)
  have c: "c_billing_enforced default_settings" by (simp add: default_settings_def)
  obtain outs where "fst ?r = Inr outs" using three_links_made by (cases "fst ?r") (auto simp: is_ok_def)
  then have r: "?r = (Inr outs, snd ?r)" by (simp add: prod_eq_iff)
  have "set_cursor ''set'' set_store = 0" by (simp add: set_cursor_def set_store_def empty_store_def)
  with variant_links_rotate [OF set_store_rotation b(1) g _ c r] b(2) show ?thesis by simp
qed

text \<open>
  The code says of a pinned recipient that the pin does not use up a turn of the rotation; it does not within
  the call, but the next call starts from the number of all links of the set, pinned ones included.
\<close>

lemma pin_uses_a_turn:
  "let pinned = three_links\<lparr>ic_recipients := [''a@x''], ic_overrides := [(''a@x'', ''qa'')]\<rparr>;
       st1 = snd (create_variant_set_invites default_settings report_sent alone 0 number_tokens ''set'' pinned
               example_author example_admin set_store);
       r = create_variant_set_invites default_settings report_sent alone 0 (\<lambda>_. ''t'') ''set''
             (three_links\<lparr>ic_recipients := [''b@x'']\<rparr>) example_author example_admin st1
   in map_sum id (map io_variant_label) (fst r) = Inr [Some ''B'']"
  by code_simp

subsection \<open>The terms of a running sitting\<close>

definition running :: "invite \<Rightarrow> candidate_attempt \<Rightarrow> store \<Rightarrow> bool" where
  "running v a st = (v \<in> set (t_invites st) \<and> a \<in> set (t_attempts st) \<and> at_invite_id a = inv_id v)"

lemma running_same: "running v a s \<Longrightarrow> t_invites s' = t_invites s \<Longrightarrow> t_attempts s' = t_attempts s \<Longrightarrow> running v a s'"
  by (simp add: running_def)

interpretation running: library_invariant x "running v a" for x v a
proof (unfold_locales, goal_cases)
  case (1 s q ts s')
  then show ?case by (auto simp: running_def insert_question_def split: if_splits)
next
  case (4 s s' qid)
  have at_attempts_kept: "t_attempts s' = t_attempts s" by (simp add: 4(2))
  have "inv_question_id v \<noteq> Some qid"
  proof
    assume "inv_question_id v = Some qid"
    then have "inv_id v \<in> set (question_invites qid s)" using 4(1) by (auto simp: running_def question_invites_def)
    then have "question_referenced qid (set (question_invites qid s)) s'"
      using 4(1) unfolding question_referenced_def exists_where_iff by (metis (no_types, lifting) running_def at_attempts_kept)
    with 4(3) show False by simp
  qed
  then show ?case using 4(1) by (simp add: running_def 4(2))
next
  case (6 s a' targets s')
  then show ?case by (auto simp: running_def add_slots_def split: if_splits)
next
  case (8 s0 aid s s1 targets s')
  then show ?case by (auto simp: running_def add_slots_def split: if_splits dest!: clear_slots_eq)
next
  case (9 s0 aid s s1)
  have "inv_assessment_id v \<noteq> Some aid"
    using 9(1,3) by (auto simp: running_def assessment_has_invite_def exists_where_iff)
  then have "v \<in> set (upd_where (\<lambda>v. inv_assessment_id v = Some aid) (\<lambda>v. v\<lparr>inv_assessment_id := None\<rparr>) (t_invites s))"
    using 9(4) by (auto simp: set_upd_where running_def)
  then show ?case using 9(4) clear_slots_eq [OF 9(5)] by (simp add: running_def)
qed (auto simp: running_def)

text \<open>
  C24. Nothing that is done to the library moves the goalposts of somebody already sitting: whatever questions and
  assessments are edited, re-timed, archived or deleted, a link with an attempt on it is neither removed nor
  changed, so the time it allows, its monitoring and its expiry stay, and whether a submission is late is decided
  as it was on the day the candidate sat down.
\<close>

theorem running_sitting_terms_fixed:
  assumes "running v a st" and "list_all (request_ok x) rs" and "siblings_keep (running v a) rs"
    and "unique_key inv_id (t_invites (perform_requests rs st))"
    and "unique_key at_key (t_attempts (perform_requests rs st))"
  shows "get_invite (inv_id v) (perform_requests rs st) = Some v \<and>
    find_attempt (inv_id v) (at_candidate_email a) (perform_requests rs st) = Some a"
proof -
  have r: "running v a (perform_requests rs st)" by (rule running.perform_requests_keep [OF assms(1-3)])
  then have "get_invite (inv_id v) (perform_requests rs st) = Some v"
    unfolding get_invite_def by (intro find_unique assms(4)) (simp add: running_def)
  moreover have "find_attempt (inv_id v) (at_candidate_email a) (perform_requests rs st) = Some a"
    using r find_unique [OF assms(5), of a] by (simp add: find_attempt_def running_def at_key_def)
  ultimately show ?thesis by simp
qed

definition sitting_store :: store where
  "sitting_store = example_sent\<lparr>t_attempts := [example_attempt\<lparr>at_invite_id := 1\<rparr>]\<rparr>"

lemma running_sitting_terms_fixed_witness:
  "get_invite 1 (perform_requests example_requests sitting_store) = Some (hd (t_invites example_sent))"
proof -
  let ?v = "hd (t_invites example_sent)" and ?a = "example_attempt\<lparr>at_invite_id := 1\<rparr>"
  have "running ?v ?a sitting_store" by (simp add: running_def sitting_store_def example_sent_def)
  moreover have "siblings_keep P example_requests" for P
    unfolding example_requests_def by (rule siblings_alone)
  moreover have "map inv_id (t_invites (perform_requests example_requests sitting_store)) = [1]" by code_simp
  then have "unique_key inv_id (t_invites (perform_requests example_requests sitting_store))" by (simp add: unique_key_def)
  moreover have "length (t_attempts (perform_requests example_requests sitting_store)) = 1" by code_simp
  then have "unique_key at_key (t_attempts (perform_requests example_requests sitting_store))"
    by (cases "t_attempts (perform_requests example_requests sitting_store)") (auto simp: unique_key_def)
  ultimately have "get_invite (inv_id ?v) (perform_requests example_requests sitting_store) = Some ?v"
    using running_sitting_terms_fixed [OF _ example_requests_ok] by blast
  then show ?thesis by (simp add: example_sent_def)
qed

end
