(* ===== verification/Images.thy ===== *)
theory Images
  imports Prelude
begin

section \<open>Images: what an uploaded logo becomes\<close>

text \<open>
  \<open>images.py\<close>. Bytes are naturals. Pillow is the parameter \<open>pillow\<close>, with its frames of any type \<open>'f\<close>:
  each of its steps returns what it made or what it raised, an exception of one of the four
  classes the pipeline catches (\<open>Unreadable\<close>) or any other. SHA-256 is a parameter too. The limit
  \<open>Image.MAX_IMAGE_PIXELS\<close> is a global of the process; the pipeline takes its value and returns the
  value it leaves. Typographic characters of the messages are written in ASCII.
\<close>

definition MAX_UPLOAD_BYTES :: nat where "MAX_UPLOAD_BYTES = 262144"
definition MAX_STORED_BYTES :: nat where "MAX_STORED_BYTES = MAX_UPLOAD_BYTES"
definition MAX_EDGE :: int where "MAX_EDGE = 512"
definition MAX_PIXELS :: int where "MAX_PIXELS = 16000000"

datatype format = PNG | JPEG | WEBP

definition PNG_magic :: "nat list" where "PNG_magic = [137, 80, 78, 71, 13, 10, 26, 10]"
definition JPEG_magic :: "nat list" where "JPEG_magic = [255, 216, 255]"
definition RIFF_magic :: "nat list" where "RIFF_magic = [82, 73, 70, 70]"
definition WEBP_magic :: "nat list" where "WEBP_magic = [87, 69, 66, 80]"

fun OUTPUT :: "format \<Rightarrow> string" where
  "OUTPUT PNG = ''image/png''"
| "OUTPUT JPEG = ''image/jpeg''"
| "OUTPUT WEBP = ''image/webp''"

fun DECODES_AS :: "format \<Rightarrow> string list" where
  "DECODES_AS PNG = [''PNG'']"
| "DECODES_AS JPEG = [''JPEG'', ''MPO'']"
| "DECODES_AS WEBP = [''WEBP'']"

datatype pil_failure = Unreadable | OtherError exn

record 'f pillow =
  pl_open :: "int option \<Rightarrow> nat list \<Rightarrow> pil_failure + ((int \<times> int) \<times> string)"
  pl_load :: "nat list \<Rightarrow> pil_failure + 'f"  \<comment> \<open>\<open>load\<close> and \<open>convert("RGBA")\<close>\<close>
  pl_thumbnail :: "int \<Rightarrow> 'f \<Rightarrow> 'f"
  pl_flatten :: "'f \<Rightarrow> 'f"
  pl_save :: "format \<Rightarrow> 'f \<Rightarrow> pil_failure + nat list"
  pl_size :: "'f \<Rightarrow> int \<times> int"

datatype image_error = ImageRejectedError string | Raised exn

record normalized_image =
  ni_data :: "nat list"
  ni_content_type :: string
  ni_width :: int
  ni_height :: int
  ni_sha256 :: string

definition has_prefix :: "nat list \<Rightarrow> nat list \<Rightarrow> bool" where
  "has_prefix data p = (take (length p) data = p)"

definition sniff :: "nat list \<Rightarrow> image_error + format" where
  "sniff data =
    (if has_prefix data PNG_magic then Inr PNG
     else if has_prefix data JPEG_magic then Inr JPEG
     else if has_prefix data RIFF_magic \<and> take 4 (drop 8 data) = WEBP_magic then Inr WEBP
     else Inl (ImageRejectedError ''that file is not a PNG, JPEG or WebP image. SVG and PDF logos aren't accepted.''))"

definition encode_frame :: "'f pillow \<Rightarrow> 'f \<Rightarrow> format \<Rightarrow> pil_failure + (format \<times> nat list)" where
  "encode_frame pl frame declared =
    (if declared = JPEG
     then (case pl_save pl JPEG (pl_flatten pl frame) of Inl e \<Rightarrow> Inl e | Inr out \<Rightarrow> Inr (JPEG, out))
     else (case pl_save pl PNG frame of
         Inl e \<Rightarrow> Inl e
       | Inr out \<Rightarrow>
           if length out \<le> MAX_STORED_BYTES then Inr (PNG, out)
           else (case pl_save pl WEBP frame of Inl e \<Rightarrow> Inl e | Inr out' \<Rightarrow> Inr (WEBP, out'))))"

text \<open>The \<open>except\<close> clauses of the pipeline.\<close>

definition rejected :: "pil_failure \<Rightarrow> image_error" where
  "rejected e = (case e of
     Unreadable \<Rightarrow> ImageRejectedError ''that image couldn't be read. Try re-exporting it.''
   | OtherError x \<Rightarrow> Raised x)"

definition decode_logo :: "'f pillow \<Rightarrow> nat list \<Rightarrow> format \<Rightarrow> image_error + (format \<times> nat list \<times> int \<times> int)" where
  "decode_logo pl data declared =
    (case pl_open pl (Some MAX_PIXELS) data of
       Inl e \<Rightarrow> Inl (rejected e)
     | Inr ((w, h), fmt) \<Rightarrow>
         if w * h > MAX_PIXELS
         then Inl (ImageRejectedError ''that image is far larger than a logo needs to be.'')
         else if fmt \<notin> set (DECODES_AS declared)
         then Inl (ImageRejectedError ''that image's contents don't match its format.'')
         else (case pl_load pl data of
             Inl e \<Rightarrow> Inl (rejected e)
           | Inr rgba \<Rightarrow>
               let frame = pl_thumbnail pl MAX_EDGE rgba in
               (case encode_frame pl frame declared of
                  Inl e \<Rightarrow> Inl (rejected e)
                | Inr (out_format, encoded) \<Rightarrow> Inr (out_format, encoded, pl_size pl frame))))"

text \<open>The global limit: taken and set on the way in, put back on the way out.\<close>

datatype guard_step = Enter nat | Leave nat

fun guard_run :: "guard_step list \<Rightarrow> (nat \<Rightarrow> int option) \<Rightarrow> int option \<Rightarrow> int option" where
  "guard_run [] previous limit = limit"
| "guard_run (Enter t # steps) previous limit = guard_run steps (previous(t := limit)) (Some MAX_PIXELS)"
| "guard_run (Leave t # steps) previous limit = guard_run steps previous (previous t)"

definition normalize_logo :: "'f pillow \<Rightarrow> (nat list \<Rightarrow> string) \<Rightarrow> nat list \<Rightarrow> int option \<Rightarrow>
    (image_error + normalized_image) \<times> int option" where
  "normalize_logo pl sha data limit =
    (if data = [] then (Inl (ImageRejectedError ''that file is empty.''), limit)
     else if length data > MAX_UPLOAD_BYTES then (Inl (ImageRejectedError ''logos are limited to 256 KB.''), limit)
     else (case sniff data of
         Inl e \<Rightarrow> (Inl e, limit)
       | Inr declared \<Rightarrow>
           ((case decode_logo pl data declared of
               Inl e \<Rightarrow> Inl e
             | Inr (out_format, encoded, width, height) \<Rightarrow>
                 Inr \<lparr>ni_data = encoded, ni_content_type = OUTPUT out_format, ni_width = width, ni_height = height,
                      ni_sha256 = sha encoded\<rparr>),
            guard_run [Enter 0, Leave 0] (\<lambda>_. None) limit)))"

subsection \<open>Properties\<close>

text \<open>What Pillow documents of \<open>thumbnail\<close>: it never leaves an edge longer than asked.\<close>

definition thumbnail_fits :: "'f pillow \<Rightarrow> bool" where
  "thumbnail_fits pl = (\<forall>n f. fst (pl_size pl (pl_thumbnail pl n f)) \<le> n \<and> snd (pl_size pl (pl_thumbnail pl n f)) \<le> n)"

lemma encode_written:
  "encode_frame pl frame declared = Inr (fmt, out) \<Longrightarrow> (\<exists>f. pl_save pl fmt f = Inr out) \<and>
     (fmt = PNG \<longrightarrow> length out \<le> MAX_STORED_BYTES) \<and> (fmt = JPEG \<longleftrightarrow> declared = JPEG)"
  by (auto simp: encode_frame_def split: if_splits sum.splits)

text \<open>
  What comes out of the pipeline is made by the platform, not by the uploader: an accepted upload was not
  empty, at most 256 KB, announced one of the three formats by its leading bytes and decoded as that format within
  the pixel limit; the bytes to store are what Pillow wrote in the format the content type names, under the digest of
  exactly those bytes, no edge longer than 512 and no PNG larger than the cap; and the pixel limit of the
  process is back at what it was, accepted or refused.
\<close>

theorem logo_is_reencoded:
  assumes "thumbnail_fits pl"
  shows "snd (normalize_logo pl sha data limit) = limit \<and>
    (case fst (normalize_logo pl sha data limit) of
       Inl e \<Rightarrow> True
     | Inr img \<Rightarrow> 0 < length data \<and> length data \<le> MAX_UPLOAD_BYTES \<and>
         ni_sha256 img = sha (ni_data img) \<and> ni_width img \<le> MAX_EDGE \<and> ni_height img \<le> MAX_EDGE \<and>
         (\<exists>declared fmt f w h shown. sniff data = Inr declared \<and>
            pl_open pl (Some MAX_PIXELS) data = Inr ((w, h), shown) \<and> w * h \<le> MAX_PIXELS \<and> shown \<in> set (DECODES_AS declared) \<and>
            pl_save pl fmt f = Inr (ni_data img) \<and> ni_content_type img = OUTPUT fmt \<and>
            \<not> (fmt = PNG \<and> MAX_STORED_BYTES < length (ni_data img)) \<and> (fmt = JPEG) = (declared = JPEG)))"
proof
  show "snd (normalize_logo pl sha data limit) = limit"
    by (auto simp: normalize_logo_def split: sum.splits)
  have dec: "\<exists>f w' h' shown. pl_open pl (Some MAX_PIXELS) data = Inr ((w', h'), shown) \<and> w' * h' \<le> MAX_PIXELS \<and>
      shown \<in> set (DECODES_AS declared) \<and> pl_save pl fmt f = Inr out \<and> (fmt = PNG \<longrightarrow> length out \<le> MAX_STORED_BYTES) \<and>
      (fmt = JPEG \<longleftrightarrow> declared = JPEG) \<and> w \<le> MAX_EDGE \<and> h \<le> MAX_EDGE"
    if d: "decode_logo pl data declared = Inr (fmt, out, w, h)" for declared fmt out w h
  proof -
    from d obtain w' h' shown rgba where o: "pl_open pl (Some MAX_PIXELS) data = Inr ((w', h'), shown)" "w' * h' \<le> MAX_PIXELS"
        "shown \<in> set (DECODES_AS declared)"
      and e: "encode_frame pl (pl_thumbnail pl MAX_EDGE rgba) declared = Inr (fmt, out)"
      and s: "pl_size pl (pl_thumbnail pl MAX_EDGE rgba) = (w, h)"
      by (auto simp: decode_logo_def Let_def split: sum.splits if_splits prod.splits)
    have "w \<le> MAX_EDGE \<and> h \<le> MAX_EDGE" using assms s unfolding thumbnail_fits_def by (metis fst_conv snd_conv)
    with o encode_written [OF e] show ?thesis by blast
  qed
  show "case fst (normalize_logo pl sha data limit) of
       Inl e \<Rightarrow> True
     | Inr img \<Rightarrow> 0 < length data \<and> length data \<le> MAX_UPLOAD_BYTES \<and>
         ni_sha256 img = sha (ni_data img) \<and> ni_width img \<le> MAX_EDGE \<and> ni_height img \<le> MAX_EDGE \<and>
         (\<exists>declared fmt f w h shown. sniff data = Inr declared \<and>
            pl_open pl (Some MAX_PIXELS) data = Inr ((w, h), shown) \<and> w * h \<le> MAX_PIXELS \<and> shown \<in> set (DECODES_AS declared) \<and>
            pl_save pl fmt f = Inr (ni_data img) \<and> ni_content_type img = OUTPUT fmt \<and>
            \<not> (fmt = PNG \<and> MAX_STORED_BYTES < length (ni_data img)) \<and> (fmt = JPEG) = (declared = JPEG))"
  proof (cases "fst (normalize_logo pl sha data limit)")
    case (Inl e)
    then show ?thesis by simp
  next
    case (Inr img)
    then obtain declared fmt out w h where d: "data \<noteq> []" "length data \<le> MAX_UPLOAD_BYTES" "sniff data = Inr declared"
      "decode_logo pl data declared = Inr (fmt, out, w, h)"
      and i: "img = \<lparr>ni_data = out, ni_content_type = OUTPUT fmt, ni_width = w, ni_height = h, ni_sha256 = sha out\<rparr>"
      by (auto simp: normalize_logo_def split: sum.splits if_splits)
    from dec [OF d(4)] d(1-3) show ?thesis unfolding Inr sum.case i by (simp add: not_less) blast
  qed
qed

definition example_pillow :: "(int \<times> int) pillow" where
  "example_pillow = \<lparr>pl_open = (\<lambda>_ _. Inr ((600, 300), ''PNG'')), pl_load = (\<lambda>_. Inr (600, 300)),
     pl_thumbnail = (\<lambda>n f. (min n (fst f), min n (snd f))), pl_flatten = id, pl_save = (\<lambda>_ _. Inr [1, 2, 3]), pl_size = id\<rparr>"

lemma logo_is_reencoded_witness:
  "fst (normalize_logo example_pillow (\<lambda>_. ''d'') PNG_magic None) =
     Inr \<lparr>ni_data = [1, 2, 3], ni_content_type = ''image/png'', ni_width = 512, ni_height = 300, ni_sha256 = ''d''\<rparr> \<and>
   snd (normalize_logo example_pillow (\<lambda>_. ''d'') PNG_magic None) = None"
proof
  show "fst (normalize_logo example_pillow (\<lambda>_. ''d'') PNG_magic None) =
     Inr \<lparr>ni_data = [1, 2, 3], ni_content_type = ''image/png'', ni_width = 512, ni_height = 300, ni_sha256 = ''d''\<rparr>"
    by (simp add: normalize_logo_def sniff_def has_prefix_def decode_logo_def encode_frame_def example_pillow_def
        PNG_magic_def MAX_UPLOAD_BYTES_def MAX_STORED_BYTES_def MAX_PIXELS_def MAX_EDGE_def)
  have "thumbnail_fits example_pillow" by (simp add: thumbnail_fits_def example_pillow_def)
  from logo_is_reencoded [OF this] show "snd (normalize_logo example_pillow (\<lambda>_. ''d'') PNG_magic None) = None" by blast
qed

text \<open>
  Two uploads decoded at the same time, in two threads of the pool: the second to enter takes the limit of the first
  for the one to restore, and leaves the process with it for good.
\<close>

lemma concurrent_uploads_leave_the_limit:
  "guard_run [Enter 0, Enter 1, Leave 0, Leave 1] previous limit = Some MAX_PIXELS"
  by simp

end
