(* ===== verification/Blobs.thy ===== *)
theory Blobs
  imports Images Tables
begin

section \<open>Blobs: the store of uploaded binaries\<close>

text \<open>
  \<open>blobstore.py\<close>. The seam is a locale: \<open>held\<close> is what each organisation holds at each address, and
  the laws say what the operations do to it; everything else about a store is free. \<open>SqlBlobStore\<close>
  on the \<open>org_asset\<close> table is its instance. An asset has one row per organisation and
  address; reads go by the address alone.
\<close>

record served =
  sd_data :: "nat list"
  sd_content_type :: string
  sd_sha256 :: string

subsection \<open>The table\<close>

definition as_key :: "org_asset \<Rightarrow> int \<times> string" where
  "as_key r = (as_org_id r, as_sha256 r)"

definition assets_ok :: "store \<Rightarrow> bool" where
  "assets_ok st = unique_key as_key (t_assets st)"

definition asset_row :: "int \<Rightarrow> string \<Rightarrow> normalized_image \<Rightarrow> store \<Rightarrow> org_asset" where
  "asset_row org_id kind img st = \<lparr>as_id = fresh_id as_id (t_assets st), as_org_id = org_id, as_kind = kind,
     as_content_type = ni_content_type img, as_sha256 = ni_sha256 img, as_data = ni_data img,
     as_width = ni_width img, as_height = ni_height img\<rparr>"

definition blob_put :: "int \<Rightarrow> string \<Rightarrow> normalized_image \<Rightarrow> store \<Rightarrow> string \<times> store" where
  "blob_put org_id kind img st =
    (ni_sha256 img,
     if exists_where (\<lambda>r. as_key r = (org_id, ni_sha256 img)) (t_assets st) then st
     else st\<lparr>t_assets := t_assets st @ [asset_row org_id kind img st]\<rparr>)"

definition blob_read :: "string \<Rightarrow> store \<Rightarrow> served option" where
  "blob_read sha st = map_option (\<lambda>r. \<lparr>sd_data = as_data r, sd_content_type = as_content_type r, sd_sha256 = sha\<rparr>)
     (first_where (\<lambda>r. as_sha256 r = sha) (t_assets st))"

definition blob_head :: "string \<Rightarrow> store \<Rightarrow> string option" where
  "blob_head sha st = map_option as_content_type (first_where (\<lambda>r. as_sha256 r = sha) (t_assets st))"

definition blob_delete :: "int \<Rightarrow> string \<Rightarrow> store \<Rightarrow> store" where
  "blob_delete org_id sha st =
    (case first_where (\<lambda>r. as_key r = (org_id, sha)) (t_assets st) of
       None \<Rightarrow> st
     | Some a \<Rightarrow> st\<lparr>t_assets := del_where (\<lambda>r. as_key r = as_key a) (t_assets st)\<rparr>)"

subsection \<open>The seam\<close>

definition image_served :: "normalized_image \<Rightarrow> served" where
  "image_served img = \<lparr>sd_data = ni_data img, sd_content_type = ni_content_type img, sd_sha256 = ni_sha256 img\<rparr>"

datatype blob_op = Put int string normalized_image | Delete int string

text \<open>The promise, on the map alone.\<close>

type_synonym holdings = "int \<times> string \<Rightarrow> served option"

fun abstract_op :: "blob_op \<Rightarrow> holdings \<Rightarrow> holdings" where
  "abstract_op (Put org_id kind img) m =
     (if m (org_id, ni_sha256 img) = None then m((org_id, ni_sha256 img) \<mapsto> image_served img) else m)"
| "abstract_op (Delete org_id sha) m = m((org_id, sha) := None)"

definition abstract_run :: "blob_op list \<Rightarrow> holdings \<Rightarrow> holdings" where
  "abstract_run ops m = fold abstract_op ops m"

locale blob_store =
  fixes ok :: "'s \<Rightarrow> bool" and held :: "'s \<Rightarrow> holdings"
    and put :: "int \<Rightarrow> string \<Rightarrow> normalized_image \<Rightarrow> 's \<Rightarrow> string \<times> 's"
    and read_at :: "string \<Rightarrow> 's \<Rightarrow> served option" and head_at :: "string \<Rightarrow> 's \<Rightarrow> string option"
    and delete :: "int \<Rightarrow> string \<Rightarrow> 's \<Rightarrow> 's"
  assumes put_address: "fst (put g k img s) = ni_sha256 img"
    and put_ok: "ok s \<Longrightarrow> ok (snd (put g k img s))"
    and put_held: "ok s \<Longrightarrow> held (snd (put g k img s)) = abstract_op (Put g k img) (held s)"
    and delete_ok: "ok s \<Longrightarrow> ok (delete g sha s)"
    and delete_held: "ok s \<Longrightarrow> held (delete g sha s) = abstract_op (Delete g sha) (held s)"
    and read_held: "ok s \<Longrightarrow> read_at sha s = Some v \<Longrightarrow> \<exists>g. held s (g, sha) = Some v"
    and read_none: "ok s \<Longrightarrow> read_at sha s = None \<Longrightarrow> held s (g, sha) = None"
    and head_read: "ok s \<Longrightarrow> head_at sha s = map_option sd_content_type (read_at sha s)"
begin

fun perform :: "blob_op \<Rightarrow> 's \<Rightarrow> 's" where
  "perform (Put g k img) s = snd (put g k img s)"
| "perform (Delete g sha) s = delete g sha s"

lemma perform_refines: "ok s \<Longrightarrow> ok (perform c s) \<and> held (perform c s) = abstract_op c (held s)"
  by (cases c) (simp_all add: put_ok put_held delete_ok delete_held)

lemma run_refines: "ok s \<Longrightarrow> ok (fold perform cs s) \<and> held (fold perform cs s) = abstract_run cs (held s)"
proof (induction cs arbitrary: s)
  case Nil
  then show ?case by (simp add: abstract_run_def)
next
  case (Cons c cs)
  then show ?case using perform_refines [of s c] by (simp add: abstract_run_def)
qed

text \<open>An address answers exactly while somebody holds it.\<close>

lemma served_iff: "ok s \<Longrightarrow> read_at sha s \<noteq> None \<longleftrightarrow> (\<exists>g. held s (g, sha) \<noteq> None)"
  using read_held [of s sha] read_none [of s sha] by (cases "read_at sha s") auto

text \<open>One tenant's deletion never takes the other's asset.\<close>

lemma delete_is_own: "ok s \<Longrightarrow> g' \<noteq> g \<Longrightarrow> held s (g', sha) \<noteq> None \<Longrightarrow> read_at sha (delete g sha s) \<noteq> None"
proof -
  assume h: "ok s" "g' \<noteq> g" "held s (g', sha) \<noteq> None"
  then have "held (delete g sha s) (g', sha) \<noteq> None" by (simp add: delete_held)
  then show ?thesis using served_iff [OF delete_ok [OF h(1)], of sha] by blast
qed

text \<open>What is served under an address has that digest, if everything that was put had.\<close>

lemma served_digest:
  assumes "ok s" and "\<And>g sha v. held s (g, sha) = Some v \<Longrightarrow> dig (sd_data v) = sha" and "read_at sha s = Some v"
  shows "dig (sd_data v) = sha"
  using read_held [OF assms(1,3)] assms(2) by blast

end

subsection \<open>The instance\<close>

definition assets_held :: "store \<Rightarrow> holdings" where
  "assets_held st = (\<lambda>key. map_option (\<lambda>r. \<lparr>sd_data = as_data r, sd_content_type = as_content_type r, sd_sha256 = as_sha256 r\<rparr>)
     (first_where (\<lambda>r. as_key r = key) (t_assets st)))"

lemma find_deleted:
  "first_where (\<lambda>r. as_key r = key) (del_where (\<lambda>r. as_key r = k) t) =
     (if key = k then None else first_where (\<lambda>r. as_key r = key) t)"
  by (induction t) auto

lemma assets_held_put:
  "assets_held (snd (blob_put g k img st)) = abstract_op (Put g k img) (assets_held st)"
proof (rule ext)
  fix key
  let ?p = "\<lambda>r. as_key r = (g, ni_sha256 img)"
  show "assets_held (snd (blob_put g k img st)) key = abstract_op (Put g k img) (assets_held st) key"
  proof (cases "first_where ?p (t_assets st)")
    case None
    then have "snd (blob_put g k img st) = st\<lparr>t_assets := t_assets st @ [asset_row g k img st]\<rparr>"
      by (simp add: blob_put_def exists_where_find)
    then show ?thesis
      using None by (auto simp: assets_held_def find_append as_key_def asset_row_def image_served_def split: option.splits)
  next
    case (Some r)
    then show ?thesis by (simp add: blob_put_def exists_where_find assets_held_def)
  qed
qed

lemma assets_held_delete: "assets_held (blob_delete g sha st) = abstract_op (Delete g sha) (assets_held st)"
proof (rule ext)
  fix key
  show "assets_held (blob_delete g sha st) key = abstract_op (Delete g sha) (assets_held st) key"
  proof (cases "first_where (\<lambda>r. as_key r = (g, sha)) (t_assets st)")
    case None
    then show ?thesis by (auto simp: blob_delete_def assets_held_def)
  next
    case (Some r)
    then have "as_key r = (g, sha)" by (auto dest: find_SomeD)
    then show ?thesis using Some by (simp add: blob_delete_def assets_held_def find_deleted)
  qed
qed

interpretation sql: blob_store assets_ok assets_held blob_put blob_read blob_head blob_delete
proof (unfold_locales, goal_cases)
  case (1 g k img s)
  show ?case by (simp add: blob_put_def)
next
  case (2 s g k img)
  then show ?case
    by (auto simp: assets_ok_def blob_put_def unique_key_append exists_where_iff as_key_def asset_row_def image_iff)
next
  case (3 s g k img)
  show ?case by (rule assets_held_put)
next
  case (4 s g sha)
  then show ?case by (auto simp: assets_ok_def blob_delete_def unique_key_del split: option.splits)
next
  case (5 s g sha)
  show ?case by (rule assets_held_delete)
next
  case (6 s sha v)
  then obtain r where r: "first_where (\<lambda>r. as_sha256 r = sha) (t_assets s) = Some r"
    "v = \<lparr>sd_data = as_data r, sd_content_type = as_content_type r, sd_sha256 = sha\<rparr>"
    by (auto simp: blob_read_def)
  then have "first_where (\<lambda>x. as_key x = as_key r) (t_assets s) = Some r"
    using find_unique [of as_key "t_assets s" r] 6(1) by (auto simp: assets_ok_def dest: find_SomeD)
  then have "assets_held s (as_org_id r, sha) = Some v"
    using r find_SomeD [OF r(1)] by (simp add: assets_held_def as_key_def)
  then show ?case by blast
next
  case (7 s sha g)
  then show ?case by (auto simp: blob_read_def assets_held_def find_None_iff' as_key_def)
next
  case (8 s sha)
  show ?case by (cases "first_where (\<lambda>r. as_sha256 r = sha) (t_assets s)") (simp_all add: blob_head_def blob_read_def)
qed

fun perform_blob :: "blob_op \<Rightarrow> store \<Rightarrow> store" where
  "perform_blob (Put org_id kind img) st = snd (blob_put org_id kind img st)"
| "perform_blob (Delete org_id sha) st = blob_delete org_id sha st"

lemma sql_perform: "sql.perform = perform_blob"
proof (intro ext)
  fix c s
  show "sql.perform c s = perform_blob c s" by (cases c) (simp_all add: sql.perform.simps)
qed

text \<open>
  C26. The asset table is a map from organisation and address to what was first put there: after any uploads and
  deletions by any organisations it holds exactly what the map holds, an address is served as long
  as somebody holds it - so no tenant's deletion takes another's image - what is served is what some holder put there,
  and the content type alone is what a full read would say.
\<close>

theorem blobs_refine_map:
  assumes "assets_ok st" and "st' = fold perform_blob ops st"
  shows "assets_held st' = abstract_run ops (assets_held st) \<and> assets_ok st' \<and>
    (blob_read sha st' = None) = (\<forall>g. abstract_run ops (assets_held st) (g, sha) = None) \<and>
    (blob_read sha st' = Some v \<longrightarrow> (\<exists>g. abstract_run ops (assets_held st) (g, sha) = Some v)) \<and>
    blob_head sha st' = map_option sd_content_type (blob_read sha st')"
proof -
  note r = sql.run_refines [OF assms(1), of ops, unfolded sql_perform]
  have ok: "assets_ok st'" using r by (simp add: assms(2))
  show ?thesis
    using r sql.served_iff [OF ok, of sha] sql.read_held [OF ok, of sha v] sql.head_read [OF ok, of sha]
    by (auto simp: assms(2))
qed

definition example_image :: normalized_image where
  "example_image = \<lparr>ni_data = [1, 2], ni_content_type = ''image/png'', ni_width = 1, ni_height = 1, ni_sha256 = ''d''\<rparr>"

lemma blobs_refine_map_witness:
  "(blob_read ''d'' (fold perform_blob [Put 1 ''logo'' example_image, Put 2 ''logo'' example_image, Delete 1 ''d''] empty_store) = None) =
   (\<forall>g. abstract_run [Put 1 ''logo'' example_image, Put 2 ''logo'' example_image, Delete 1 ''d''] (assets_held empty_store) (g, ''d'') = None)"
proof -
  have "assets_ok empty_store" by (simp add: assets_ok_def empty_store_def)
  from blobs_refine_map [OF this refl] show ?thesis by blast
qed

end
