(* ===== verification/Logos.thy ===== *)
theory Logos
  imports Blobs Team LibrarySafety
begin

section \<open>Logos: the branding of organisations and of the assessments they sent\<close>

text \<open>
  The logo routes of \<open>api.py\<close>. An assessment keeps the address its organisation's logo had when it
  was created, so an address that the organisation has left is deleted only when none of its
  assessments shows it. \<open>others 0\<close> stands between reading the organisation and the writes.
\<close>

subsection \<open>The routes\<close>

definition drop_unreferenced_logo :: "string option \<Rightarrow> int \<Rightarrow> store \<Rightarrow> store" where
  "drop_unreferenced_logo sha org_id st =
    (case sha of
       None \<Rightarrow> st
     | Some s \<Rightarrow>
         if exists_where (\<lambda>g. o_id g = Some org_id \<and> o_logo_sha g = Some s) (t_orgs st) \<or>
            exists_where (\<lambda>a. a_org_id a = org_id \<and> a_logo_sha a = Some s) (t_assessments st)
         then st else blob_delete org_id s st)"

definition point_at :: "int \<Rightarrow> string option \<Rightarrow> store \<Rightarrow> store" where
  "point_at org_id sha st =
     st\<lparr>t_orgs := upd_where (\<lambda>g. o_id g = Some org_id) (\<lambda>g. g\<lparr>o_logo_sha := sha\<rparr>) (t_orgs st)\<rparr>"

definition set_org_logo :: "'f pillow \<Rightarrow> (nat list \<Rightarrow> string) \<Rightarrow> int option \<Rightarrow> interference \<Rightarrow> nat list \<Rightarrow> membership \<Rightarrow>
    store \<Rightarrow> (organization_out, store) outcome" where
  "set_org_logo pl digest limit others upload org st =
    guardr (require_admin org) st (\<lambda>_.
    case fst (normalize_logo pl digest (take (MAX_UPLOAD_BYTES + 1) upload) limit) of
      Inl (ImageRejectedError d) \<Rightarrow> (Inl (HTTPException 422 d), st)
    | Inl (Raised e) \<Rightarrow> (Inl e, st)
    | Inr img \<Rightarrow>
        guardr (organization_row (m_org_id org) st) st (\<lambda>g.
        let st1 = others 0 st;
            (sha, st2) = blob_put (m_org_id org) ''logo'' img st1;
            st3 = point_at (m_org_id org) (Some sha) st2;
            st4 = (if o_logo_sha g \<noteq> Some sha then drop_unreferenced_logo (o_logo_sha g) (m_org_id org) st3 else st3)
        in guardr (organization_out_of org None st4) st4 (\<lambda>out. (Inr out, st4))))"

definition clear_org_logo :: "interference \<Rightarrow> membership \<Rightarrow> store \<Rightarrow> (organization_out, store) outcome" where
  "clear_org_logo others org st =
    guardr (require_admin org) st (\<lambda>_.
    guardr (organization_row (m_org_id org) st) st (\<lambda>g.
    let st1 = drop_unreferenced_logo (o_logo_sha g) (m_org_id org) (point_at (m_org_id org) None (others 0 st))
    in guardr (organization_out_of org None st1) st1 (\<lambda>out. (Inr out, st1))))"

record logo_response =
  lg_status :: int
  lg_content :: "nat list"
  lg_media_type :: "string option"
  lg_headers :: "(string \<times> string) list"

definition logo_name_ok :: "string \<Rightarrow> bool" where
  "logo_name_ok sha = (length sha = 64 \<and> list_all (\<lambda>ch. ch \<in> set ''0123456789abcdef'') sha)"

definition get_logo :: "string \<Rightarrow> string option \<Rightarrow> store \<Rightarrow> exn + logo_response" where
  "get_logo sha if_none_match st =
    (let missing = Inl (HTTPException 404 ''no such logo.''); etag = CHR 0x22 # sha @ [CHR 0x22];
         headers = [(''Cache-Control'', ''public, max-age=31536000, immutable''), (''ETag'', etag),
                    (''X-Content-Type-Options'', ''nosniff'')]
     in if \<not> logo_name_ok sha then missing
        else if if_none_match = Some etag
        then (case blob_head sha st of None \<Rightarrow> missing
              | Some _ \<Rightarrow> Inr \<lparr>lg_status = 304, lg_content = [], lg_media_type = None, lg_headers = headers\<rparr>)
        else (case blob_read sha st of None \<Rightarrow> missing
              | Some v \<Rightarrow> Inr \<lparr>lg_status = 200, lg_content = sd_data v, lg_media_type = Some (sd_content_type v), lg_headers = headers\<rparr>))"

subsection \<open>No logo dangles\<close>

definition shows_held :: "store \<Rightarrow> int \<Rightarrow> string option \<Rightarrow> bool" where
  "shows_held st org_id sha = (case sha of None \<Rightarrow> True | Some s \<Rightarrow> assets_held st (org_id, s) \<noteq> None)"

definition logos_ok :: "store \<Rightarrow> bool" where
  "logos_ok st = (assets_ok st \<and> (\<forall>r\<in>set (t_assets st). logo_name_ok (as_sha256 r)) \<and>
     (\<forall>g\<in>set (t_orgs st). \<forall>i. o_id g = Some i \<longrightarrow> shows_held st i (o_logo_sha g)) \<and>
     (\<forall>a\<in>set (t_assessments st). shows_held st (a_org_id a) (a_logo_sha a)))"

lemma shows_held_put: "shows_held st i s \<Longrightarrow> shows_held (snd (blob_put g k img st)) i s"
  by (auto simp: shows_held_def assets_held_put split: option.splits)

lemma put_frame [simp]:
  "t_orgs (snd (blob_put g k img st)) = t_orgs st"
  "t_assessments (snd (blob_put g k img st)) = t_assessments st"
  by (simp_all add: blob_put_def)

lemma blob_delete_frame [simp]:
  "t_orgs (blob_delete g s st) = t_orgs st" "t_assessments (blob_delete g s st) = t_assessments st"
  by (simp_all add: blob_delete_def split: option.split)

lemma put_assets: "r \<in> set (t_assets (snd (blob_put g k img st))) \<Longrightarrow> r \<in> set (t_assets st) \<or> as_sha256 r = ni_sha256 img"
  by (auto simp: blob_put_def asset_row_def split: if_splits)

lemma blob_delete_assets: "r \<in> set (t_assets (blob_delete g s st)) \<Longrightarrow> r \<in> set (t_assets st)"
  by (auto simp: blob_delete_def split: option.splits)

lemma logos_put:
  assumes "logos_ok st" and "logo_name_ok (ni_sha256 img)"
  shows "logos_ok (snd (blob_put g k img st))"
proof -
  have "assets_ok (snd (blob_put g k img st))" using assms by (intro sql.put_ok) (simp add: logos_ok_def)
  moreover have "shows_held (snd (blob_put g k img st)) i s" if "shows_held st i s" for i s
    using that by (rule shows_held_put)
  moreover have "logo_name_ok (as_sha256 r)" if "r \<in> set (t_assets (snd (blob_put g k img st)))" for r
    using put_assets [OF that] assms by (auto simp: logos_ok_def)
  ultimately show ?thesis using assms unfolding logos_ok_def put_frame by blast
qed

lemma shows_held_point_at: "shows_held (point_at org_id sha st) = shows_held st"
  by (intro ext) (simp add: shows_held_def point_at_def assets_held_def split: option.split)

lemma logos_point_at:
  assumes "logos_ok st" and "shows_held st org_id sha"
  shows "logos_ok (point_at org_id sha st)"
proof -
  have ok: "assets_ok (point_at org_id sha st) \<and> (\<forall>r\<in>set (t_assets (point_at org_id sha st)). logo_name_ok (as_sha256 r))"
    using assms(1) by (simp add: logos_ok_def assets_ok_def point_at_def)
  have orgs: "shows_held st i (o_logo_sha g)"
    if "g \<in> set (t_orgs (point_at org_id sha st))" "o_id g = Some i" for g i
  proof -
    from that obtain h where h: "h \<in> set (t_orgs st)"
      "g = (if o_id h = Some org_id then h\<lparr>o_logo_sha := sha\<rparr> else h)"
      by (auto simp: point_at_def in_upd_where)
    show ?thesis using assms that h by (cases "o_id h = Some org_id") (auto simp: logos_ok_def)
  qed
  show ?thesis
    unfolding logos_ok_def shows_held_point_at using ok orgs assms(1) by (simp add: logos_ok_def point_at_def)
qed

lemma shows_held_delete:
  "shows_held st i t \<Longrightarrow> (i, t) \<noteq> (org_id, Some s) \<Longrightarrow> shows_held (blob_delete org_id s st) i t"
  by (auto simp: shows_held_def assets_held_delete split: option.splits)

lemma drop_cases:
  obtains (kept) "drop_unreferenced_logo sha org_id st = st"
  | (dropped) s where "drop_unreferenced_logo sha org_id st = blob_delete org_id s st"
      and "\<And>g. g \<in> set (t_orgs st) \<Longrightarrow> o_id g = Some org_id \<Longrightarrow> o_logo_sha g \<noteq> Some s"
      and "\<And>a. a \<in> set (t_assessments st) \<Longrightarrow> a_org_id a = org_id \<Longrightarrow> a_logo_sha a \<noteq> Some s"
proof (cases sha)
  case None
  then show ?thesis using kept by (simp add: drop_unreferenced_logo_def)
next
  case (Some s)
  show ?thesis
  proof (cases "exists_where (\<lambda>g. o_id g = Some org_id \<and> o_logo_sha g = Some s) (t_orgs st) \<or>
      exists_where (\<lambda>a. a_org_id a = org_id \<and> a_logo_sha a = Some s) (t_assessments st)")
    case True
    then show ?thesis using kept Some by (simp add: drop_unreferenced_logo_def)
  next
    case False
    then have "drop_unreferenced_logo sha org_id st = blob_delete org_id s st"
      using Some by (simp add: drop_unreferenced_logo_def)
    then show ?thesis using False by (intro dropped [of s]) (auto simp: exists_where_iff)
  qed
qed

lemma logos_drop:
  assumes "logos_ok st"
  shows "logos_ok (drop_unreferenced_logo sha org_id st)"
proof (cases rule: drop_cases [of sha org_id st])
  case kept
  then show ?thesis using assms by simp
next
  case (dropped s)
  have "assets_ok (blob_delete org_id s st)" using assms by (intro sql.delete_ok) (simp add: logos_ok_def)
  moreover have "shows_held (blob_delete org_id s st) i (o_logo_sha x)" if "x \<in> set (t_orgs st)" "o_id x = Some i" for x i
    using assms that dropped(2) [OF that(1)] by (intro shows_held_delete) (auto simp: logos_ok_def)
  moreover have "shows_held (blob_delete org_id s st) (a_org_id x) (a_logo_sha x)" if "x \<in> set (t_assessments st)" for x
    using assms that dropped(3) [OF that] by (intro shows_held_delete) (auto simp: logos_ok_def)
  moreover have "logo_name_ok (as_sha256 r)" if "r \<in> set (t_assets (blob_delete org_id s st))" for r
    using blob_delete_assets [OF that] assms by (simp add: logos_ok_def)
  ultimately show ?thesis unfolding dropped(1) logos_ok_def blob_delete_frame by blast
qed


lemma logos_frame:
  assumes "logos_ok s" and "t_assets s' = t_assets s" and "t_orgs s' = t_orgs s"
    and "\<And>a. a \<in> set (t_assessments s') \<Longrightarrow> shows_held s (a_org_id a) (a_logo_sha a)"
  shows "logos_ok s'"
proof -
  have "shows_held s' = shows_held s" "assets_ok s' = assets_ok s"
    using assms(2) by (auto simp: shows_held_def assets_held_def assets_ok_def fun_eq_iff split: option.split)
  then show ?thesis using assms by (simp add: logos_ok_def)
qed

subsection \<open>The requests that move or show a logo\<close>

datatype logo_op =
    SetLogo "int option" "nat list"
  | ClearLogo
  | Snapshot "nat \<Rightarrow> string" string assessment_body interviewer
  | Edit string assessment_body
  | Drop string

record logo_request =
  gr_others :: interference
  gr_now :: instant
  gr_org :: membership
  gr_op :: logo_op

definition perform_logo :: "'f pillow \<Rightarrow> (nat list \<Rightarrow> string) \<Rightarrow> logo_request \<Rightarrow> store \<Rightarrow> store" where
  "perform_logo pl digest r st =
    (case gr_op r of
       SetLogo limit upload \<Rightarrow> snd (set_org_logo pl digest limit (gr_others r) upload (gr_org r) st)
     | ClearLogo \<Rightarrow> snd (clear_org_logo (gr_others r) (gr_org r) st)
     | Snapshot tokens last_token b current \<Rightarrow>
         snd (create_assessment (gr_others r) (gr_now r) tokens last_token b current (gr_org r) st)
     | Edit aid b \<Rightarrow> snd (update_assessment (gr_others r) aid b (gr_org r) st)
     | Drop aid \<Rightarrow> snd (delete_assessment (gr_others r) aid (gr_org r) st))"

lemma shown_assessment: "logos_ok s \<Longrightarrow> a \<in> set (t_assessments s) \<Longrightarrow> shows_held s (a_org_id a) (a_logo_sha a)"
  by (simp add: logos_ok_def)

lemma add_slots_frame:
  "add_slots aid ts s = Inr s' \<Longrightarrow> t_assets s' = t_assets s \<and> t_orgs s' = t_orgs s \<and> t_assessments s' = t_assessments s"
  by (auto simp: add_slots_def split: if_splits)

lemma clear_slots_frame:
  "clear_slots aid s = Inr s' \<Longrightarrow> t_assets s' = t_assets s \<and> t_orgs s' = t_orgs s \<and> t_assessments s' = t_assessments s"
  by (auto simp: clear_slots_def Let_def split: if_splits)

lemma normalized_address: "fst (normalize_logo pl digest data limit) = Inr img \<Longrightarrow> ni_sha256 img = digest (ni_data img)"
  by (auto simp: normalize_logo_def split: sum.splits if_splits)

text \<open>What \<open>hashlib\<close> documents of \<open>sha256(...).hexdigest()\<close>: 64 lower-case hexadecimal digits.\<close>

definition hex_digests :: "(nat list \<Rightarrow> string) \<Rightarrow> bool" where
  "hex_digests digest = (\<forall>b. logo_name_ok (digest b))"

lemma put_shows: "logos_ok st \<Longrightarrow> shows_held (snd (blob_put g k img st)) g (Some (fst (blob_put g k img st)))"
  by (simp add: shows_held_def assets_held_put sql.put_address)

lemma logos_set:
  assumes "logos_ok st" and "logos_ok (others 0 st)" and "hex_digests digest"
  shows "logos_ok (snd (set_org_logo pl digest limit others upload org st))"
proof -
  have p: "logos_ok (point_at (m_org_id org) (Some sha) s')"
    if n: "fst (normalize_logo pl digest data limit) = Inr img"
      and b: "blob_put (m_org_id org) ''logo'' img (others 0 st) = (sha, s')" for data img sha s'
  proof -
    have "logo_name_ok (ni_sha256 img)" using normalized_address [OF n] assms(3) by (simp add: hex_digests_def)
    from logos_point_at [OF logos_put put_shows, OF assms(2) this assms(2)] b show ?thesis by (metis fst_conv snd_conv)
  qed
  show ?thesis
    unfolding set_org_logo_def Let_def
    by (intro guardr_keeps [where P = logos_ok] assms(1))
      (auto simp: assms p logos_drop guardr_def split: sum.splits prod.splits image_error.splits
        intro!: guardr_keeps [where P = logos_ok])
qed

lemma logos_clear:
  assumes "logos_ok st" and "logos_ok (others 0 st)"
  shows "logos_ok (snd (clear_org_logo others org st))"
proof -
  have p: "logos_ok (drop_unreferenced_logo s (m_org_id org) (point_at (m_org_id org) None (others 0 st)))" for s
    by (intro logos_drop logos_point_at assms) (simp add: shows_held_def)
  show ?thesis
    unfolding clear_org_logo_def Let_def
    by (intro guardr_keeps [where P = logos_ok] assms(1)) (simp_all add: p)
qed

text \<open>The siblings of a new assessment may do anything but take away an asset that is held.\<close>

definition keeps_assets :: "interference \<Rightarrow> bool" where
  "keeps_assets others = (\<forall>s. logos_ok s \<longrightarrow> (\<forall>i t. shows_held s i t \<longrightarrow> shows_held (others 0 s) i t))"

lemma logos_snapshot:
  assumes "logos_ok st" and "logos_ok (others 0 st)" and "keeps_assets others"
  shows "logos_ok (snd (create_assessment others now tokens lt b current org st))"
proof -
  let ?s = "others 0 st"
  have new: "logos_ok s'"
    if s: "add_slots i ts (?s\<lparr>t_assessments := t_assessments ?s @ [a]\<rparr>) = Inr s'"
      and g: "organization_row (m_org_id org) st = Inr g" and a: "a_org_id a = m_org_id org" "a_logo_sha a = o_logo_sha g" for i ts a s' g
  proof (rule logos_frame [OF assms(2)])
    from g have "g \<in> set (t_orgs st)" "o_id g = Some (m_org_id org)"
      by (auto simp: organization_row_def get_org_def split: option.splits dest!: find_SomeD)
    then have "shows_held ?s (m_org_id org) (o_logo_sha g)" using assms(1,3) by (simp add: logos_ok_def keeps_assets_def)
    then show "shows_held ?s (a_org_id x) (a_logo_sha x)" if "x \<in> set (t_assessments s')" for x
      using that a add_slots_frame [OF s] shown_assessment [OF assms(2)] by auto
  qed (use add_slots_frame [OF s] in simp_all)
  show ?thesis
    unfolding create_assessment_def Let_def
    by (intro guardr_keeps [where P = logos_ok] assms) (auto simp: guardr_def assms split: sum.splits intro: new)
qed

lemma logos_edit:
  assumes "logos_ok st" and "logos_ok (others 0 st)"
  shows "logos_ok (snd (update_assessment others aid b org st))"
proof -
  let ?s = "\<lambda>name. (others 0 st)\<lparr>t_assessments := upd_where (\<lambda>r. a_id r = aid) (restyled b name) (t_assessments (others 0 st))\<rparr>"
  have s: "logos_ok (?s name)" for name
    using shown_assessment [OF assms(2)]
    by (intro logos_frame [OF assms(2)]) (auto simp: in_upd_where restyled_def split: if_splits)
  have re: "logos_ok s'" if c: "clear_slots aid (?s name) = Inr s1" and a: "add_slots aid ts s1 = Inr s'" for name s1 ts s'
    using clear_slots_frame [OF c] add_slots_frame [OF a] shown_assessment [OF s [of name]]
    by (intro logos_frame [OF s [of name]]) simp_all
  show ?thesis
    unfolding update_assessment_def Let_def
    by (intro guardr_keeps [where P = logos_ok] assms)
      (auto simp: s split: if_splits elim!: sbind_InrE intro: re)
qed

lemma logos_delete:
  assumes "logos_ok st" and "logos_ok (others 0 st)"
  shows "logos_ok (snd (delete_assessment others aid org st))"
proof -
  have re: "logos_ok (s'\<lparr>t_invites := vs, t_assessments := del_where (\<lambda>r. a_id r = aid) (t_assessments s')\<rparr>)"
    if "clear_slots aid (others 0 st) = Inr s'" for s' vs
    using clear_slots_frame [OF that] shown_assessment [OF assms(2)]
    by (intro logos_frame [OF assms(2)]) simp_all
  show ?thesis
    unfolding delete_assessment_def Let_def
    by (intro guardr_keeps [where P = logos_ok] assms) (auto intro: re)
qed

definition logo_siblings_ok :: "logo_request \<Rightarrow> bool" where
  "logo_siblings_ok r = ((\<forall>s. logos_ok s \<longrightarrow> logos_ok (gr_others r 0 s)) \<and>
     (case gr_op r of Snapshot _ _ _ _ \<Rightarrow> keeps_assets (gr_others r) | _ \<Rightarrow> True))"

lemma perform_logo_ok:
  "logos_ok st \<Longrightarrow> logo_siblings_ok r \<Longrightarrow> hex_digests digest \<Longrightarrow> logos_ok (perform_logo pl digest r st)"
  by (auto simp: perform_logo_def logo_siblings_ok_def logos_set logos_clear logos_snapshot logos_edit logos_delete
      split: logo_op.splits)

lemma perform_logos_ok:
  "logos_ok st \<Longrightarrow> list_all logo_siblings_ok rs \<Longrightarrow> hex_digests digest \<Longrightarrow> logos_ok (fold (perform_logo pl digest) rs st)"
  by (induction rs arbitrary: st) (simp_all add: perform_logo_ok)

text \<open>What a browser gets for an address that somebody holds, with whatever ETag it sends.\<close>

definition logo_answered :: "string \<Rightarrow> store \<Rightarrow> bool" where
  "logo_answered s st = (\<forall>etag. \<exists>out. get_logo s etag st = Inr out \<and>
     (lg_status out = 304 \<and> etag = Some (CHR 0x22 # s @ [CHR 0x22]) \<or>
      lg_status out = 200 \<and> (\<exists>r\<in>set (t_assets st). as_sha256 r = s \<and> lg_content out = as_data r \<and>
        lg_media_type out = Some (as_content_type r))))"

lemma held_answered:
  assumes "logos_ok st" and "shows_held st i (Some s)"
  shows "logo_answered s st"
proof -
  have "blob_read s st \<noteq> None"
    using assms sql.served_iff [of st s] by (auto simp: logos_ok_def shows_held_def)
  then obtain r where r: "first_where (\<lambda>r. as_sha256 r = s) (t_assets st) = Some r" by (auto simp: blob_read_def)
  then have "r \<in> set (t_assets st)" "as_sha256 r = s" by (auto dest: find_SomeD)
  moreover from this have "logo_name_ok s" using assms(1) by (auto simp: logos_ok_def)
  ultimately show ?thesis using r by (auto simp: logo_answered_def get_logo_def Let_def blob_head_def blob_read_def)
qed

text \<open>
  C25. Whatever administrators upload or clear and whatever assessments are sent, edited and deleted, in any order,
  the address that an organisation or any of its assessments shows is answered by the logo route: with the picture
  stored under it, or with 304 to the browser that has it. A logo is deleted only when the last of its organisation's
  readers is gone. Siblings may commit between the steps of each request, as long as they keep that themselves and no
  asset is deleted while a new assessment takes its snapshot - the one race the code leaves open.
\<close>

theorem logos_never_dangle:
  assumes "logos_ok st" and "list_all logo_siblings_ok rs" and "hex_digests digest"
    and "st' = fold (perform_logo pl digest) rs st"
  shows "logos_ok st' \<and>
    (\<forall>a\<in>set (t_assessments st'). pred_option (\<lambda>s. logo_answered s st') (a_logo_sha a)) \<and>
    (\<forall>g\<in>set (t_orgs st'). o_id g \<noteq> None \<longrightarrow> pred_option (\<lambda>s. logo_answered s st') (o_logo_sha g))"
proof -
  have ok: "logos_ok st'" using assms perform_logos_ok by simp
  have r: "pred_option (\<lambda>s. logo_answered s st') t" if "shows_held st' i t" for i t
    using that held_answered [OF ok] by (cases t) auto
  have g: "pred_option (\<lambda>s. logo_answered s st') (o_logo_sha g)" if "g \<in> set (t_orgs st')" "o_id g \<noteq> None" for g
    using that ok r [of _ "o_logo_sha g"] by (cases "o_logo_sha g") (auto simp: logos_ok_def)
  show ?thesis using ok r g by (auto simp: logos_ok_def)
qed

definition example_digest :: string where
  "example_digest = replicate 64 (CHR ''d'')"

lemma example_digest_ok: "logo_name_ok example_digest"
  by code_simp

definition example_branded :: store where
  "example_branded = empty_store\<lparr>t_orgs := [(org_named 1 ''Acme'')\<lparr>o_logo_sha := Some example_digest\<rparr>],
     t_assets := [asset_row 1 ''logo'' (example_image\<lparr>ni_sha256 := example_digest\<rparr>) empty_store]\<rparr>"

definition example_snapshot :: "interference \<Rightarrow> logo_request" where
  "example_snapshot others = \<lparr>gr_others = others, gr_now = 0, gr_org = example_admin,
     gr_op = Snapshot (\<lambda>_. ''0a'') ''z'' \<lparr>ab_question_ids = None, ab_slots = None, ab_id = Some ''a1'', ab_title = ''T'',
       ab_duration_minutes = None, ab_org_name = None, ab_proctored = True\<rparr> example_author\<rparr>"

definition example_clearing :: logo_request where
  "example_clearing = \<lparr>gr_others = alone, gr_now = 1, gr_org = example_admin, gr_op = ClearLogo\<rparr>"

definition no_pillow :: "unit pillow" where
  "no_pillow = \<lparr>pl_open = \<lambda>_ _. Inl Unreadable, pl_load = \<lambda>_. Inl Unreadable, pl_thumbnail = \<lambda>_ f. f, pl_flatten = \<lambda>f. f,
     pl_save = \<lambda>_ _. Inl Unreadable, pl_size = \<lambda>_. (0, 0)\<rparr>"

lemma example_branded_ok: "logos_ok example_branded"
  by (auto simp: logos_ok_def example_branded_def empty_store_def assets_ok_def shows_held_def assets_held_def as_key_def
      asset_row_def example_image_def org_named_def unique_key_def example_digest_ok)

lemma logos_never_dangle_witness:
  "logos_ok (fold (perform_logo no_pillow (\<lambda>_. example_digest)) [example_snapshot alone, example_clearing] example_branded)"
proof -
  have "list_all logo_siblings_ok [example_snapshot alone, example_clearing]"
    by (simp add: logo_siblings_ok_def keeps_assets_def example_snapshot_def example_clearing_def alone_simp)
  moreover have "hex_digests (\<lambda>_. example_digest)" by (simp add: hex_digests_def example_digest_ok)
  ultimately show ?thesis using logos_never_dangle [OF example_branded_ok _ _ refl] by blast
qed

text \<open>
  The snapshot is read before the new assessment's row is written: when the organisation's administrator clears the
  logo in between, the address is deleted as unreferenced and the assessment keeps showing it.
\<close>

lemma snapshot_race_dangles:
  "let st = perform_logo no_pillow (\<lambda>_. ''h'') (example_snapshot (\<lambda>_ s. perform_logo no_pillow (\<lambda>_. ''h'') example_clearing s))
              example_branded
   in map a_logo_sha (t_assessments st) = [Some example_digest] \<and> get_logo example_digest None st = Inl (HTTPException 404 ''no such logo.'')"
  by code_simp

end
