(* ===== verification/Integrity.thy ===== *)
theory Integrity
  imports Access Sitting "HOL-Library.Multiset"
begin

section \<open>Integrity: the risk score of a sitting and its report\<close>

text \<open>
  \<open>integrity.py\<close>, and the views of \<open>api.py\<close> on the stored signals: the report of a sitting and the
  triage columns of the lists of submissions. The score is a function of how many signals of each kind there
  are and of the time away.
\<close>

subsection \<open>The score\<close>

definition PASTE_BLOCKED_POINTS :: int where "PASTE_BLOCKED_POINTS = 30"
definition PASTE_BLOCKED_CAP :: int where "PASTE_BLOCKED_CAP = 60"
definition DEVTOOLS_POINTS :: int where "DEVTOOLS_POINTS = 15"
definition DEVTOOLS_CAP :: int where "DEVTOOLS_CAP = 30"
definition FULLSCREEN_EXIT_POINTS :: int where "FULLSCREEN_EXIT_POINTS = 8"
definition FULLSCREEN_EXIT_CAP :: int where "FULLSCREEN_EXIT_CAP = 24"
definition FOCUS_LOSS_POINTS :: int where "FOCUS_LOSS_POINTS = 4"
definition FOCUS_LOSS_CAP :: int where "FOCUS_LOSS_CAP = 20"
definition AWAY_LONG_MS :: int where "AWAY_LONG_MS = 300000"
definition AWAY_LONG_POINTS :: int where "AWAY_LONG_POINTS = 20"
definition AWAY_SHORT_MS :: int where "AWAY_SHORT_MS = 120000"
definition AWAY_SHORT_POINTS :: int where "AWAY_SHORT_POINTS = 10"
definition LEVEL_ELEVATED :: int where "LEVEL_ELEVATED = 20"
definition LEVEL_HIGH :: int where "LEVEL_HIGH = 50"
definition SCORE_MAX :: int where "SCORE_MAX = 100"

lemmas score_defs = PASTE_BLOCKED_POINTS_def PASTE_BLOCKED_CAP_def DEVTOOLS_POINTS_def DEVTOOLS_CAP_def
  FULLSCREEN_EXIT_POINTS_def FULLSCREEN_EXIT_CAP_def FOCUS_LOSS_POINTS_def FOCUS_LOSS_CAP_def AWAY_LONG_MS_def
  AWAY_LONG_POINTS_def AWAY_SHORT_MS_def AWAY_SHORT_POINTS_def LEVEL_ELEVATED_def LEVEL_HIGH_def SCORE_MAX_def

definition of_kind :: "string \<Rightarrow> integrity_event list \<Rightarrow> nat" where
  "of_kind k es = count_where (\<lambda>e. ev_kind e = k) es"

definition is_blocked_paste :: "integrity_event \<Rightarrow> bool" where
  "is_blocked_paste e = (ev_kind e = ''paste_external'' \<and> ev_blocked e)"

definition away_ms :: "integrity_event list \<Rightarrow> int" where
  "away_ms es = sum_list (map (\<lambda>e. case ev_duration_ms e of None \<Rightarrow> 0 | Some d \<Rightarrow> d) (filter (\<lambda>e. ev_kind e = ''focus_loss'') es))"

definition plural_s :: "nat \<Rightarrow> string" where
  "plural_s n = (if n = 1 then [] else ''s'')"

definition reason :: "nat \<Rightarrow> string \<Rightarrow> int \<Rightarrow> int \<Rightarrow> (string \<times> int) list" where
  "reason n label points cap = (if n \<noteq> 0 then [(label, min (int n * points) cap)] else [])"

definition away_reason :: "int \<Rightarrow> (string \<times> int) list" where
  "away_reason away =
    (if AWAY_LONG_MS \<le> away then [(show_int (away div 60000) @ '' min away from the tab'', AWAY_LONG_POINTS)]
     else if AWAY_SHORT_MS \<le> away then [(show_int (away div 60000) @ '' min away from the tab'', AWAY_SHORT_POINTS)]
     else [])"

definition risk_reasons :: "integrity_event list \<Rightarrow> (string \<times> int) list" where
  "risk_reasons events =
    (let pastes = count_where is_blocked_paste events;
         devtools = of_kind ''devtools'' events;
         fs_exits = of_kind ''fullscreen_exit'' events;
         focus = of_kind ''focus_loss'' events
     in reason pastes (show_nat pastes @ '' outside paste'' @ plural_s pastes @ '' blocked'') PASTE_BLOCKED_POINTS PASTE_BLOCKED_CAP @
        reason devtools (''devtools opened '' @ show_nat devtools @ '' time'' @ plural_s devtools) DEVTOOLS_POINTS DEVTOOLS_CAP @
        reason fs_exits (''left fullscreen '' @ show_nat fs_exits @ '' time'' @ plural_s fs_exits)
          FULLSCREEN_EXIT_POINTS FULLSCREEN_EXIT_CAP @
        reason focus (show_nat focus @ '' focus loss'' @ (if focus \<noteq> 1 then ''es'' else [])) FOCUS_LOSS_POINTS FOCUS_LOSS_CAP @
        away_reason (away_ms events))"

definition risk_score :: "integrity_event list \<Rightarrow> int \<times> (string \<times> int) list" where
  "risk_score events =
    (let ranked = sort_key (\<lambda>r. - snd r) (risk_reasons events)
     in (min (sum_list (map snd ranked)) SCORE_MAX, ranked))"

definition risk_level :: "int \<Rightarrow> string" where
  "risk_level score =
    (if LEVEL_HIGH \<le> score then ''high'' else if LEVEL_ELEVATED \<le> score then ''elevated''
     else if 0 < score then ''low'' else ''none'')"

subsection \<open>The report of a sitting\<close>

record integrity_event_out =
  eo_kind :: string
  eo_offset_ms :: int
  eo_duration_ms :: "int option"
  eo_size :: "int option"
  eo_blocked :: bool
  eo_question_id :: "string option"
  eo_question_title :: "string option"

record integrity_summary_out =
  so_total :: nat
  so_focus_losses :: nat
  so_away_ms :: int
  so_fullscreen_exits :: nat
  so_pastes_blocked :: nat
  so_devtools_opens :: nat

record integrity_risk_out =
  ro_score :: int
  ro_level :: string
  ro_reasons :: "(string \<times> int) list"

record integrity_report_out =
  ir_monitored :: bool
  ir_consent_at :: "instant option"
  ir_consent_version :: "string option"
  ir_summary :: integrity_summary_out
  ir_risk :: "integrity_risk_out option"
  ir_events :: "integrity_event_out list"

text \<open>The title of a question the browser named, when it is one of the organisation's.\<close>

definition own_title :: "membership \<Rightarrow> store \<Rightarrow> string option \<Rightarrow> string option" where
  "own_title org st qid =
    (case qid of
       None \<Rightarrow> None
     | Some i \<Rightarrow> if i = [] then None
         else (case get_question i st of
             None \<Rightarrow> None | Some q \<Rightarrow> if q_org_id q = m_org_id org then Some (q_title q) else None))"

definition integrity_report :: "bool \<Rightarrow> integrity_event list \<Rightarrow> membership \<Rightarrow> candidate_attempt option \<Rightarrow> store \<Rightarrow>
    integrity_report_out" where
  "integrity_report monitored events org attempt st =
     \<lparr>ir_monitored = monitored, ir_consent_at = Option.bind attempt at_consent_at,
      ir_consent_version = Option.bind attempt at_consent_version,
      ir_summary = \<lparr>so_total = length events, so_focus_losses = of_kind ''focus_loss'' events, so_away_ms = away_ms events,
        so_fullscreen_exits = of_kind ''fullscreen_exit'' events, so_pastes_blocked = count_where is_blocked_paste events,
        so_devtools_opens = of_kind ''devtools'' events\<rparr>,
      ir_risk = (if events \<noteq> [] \<or> monitored
        then Some \<lparr>ro_score = fst (risk_score events), ro_level = risk_level (fst (risk_score events)),
                   ro_reasons = snd (risk_score events)\<rparr>
        else None),
      ir_events = map (\<lambda>e. \<lparr>eo_kind = ev_kind e, eo_offset_ms = ev_offset_ms e, eo_duration_ms = ev_duration_ms e,
        eo_size = ev_size e, eo_blocked = ev_blocked e, eo_question_id = ev_question_id e,
        eo_question_title = own_title org st (ev_question_id e)\<rparr>) events\<rparr>"

definition sitting_events :: "int \<Rightarrow> string \<Rightarrow> store \<Rightarrow> integrity_event list" where
  "sitting_events i email st = filter (\<lambda>e. ev_invite_id e = i \<and> ev_candidate_email e = email) (t_events st)"

definition get_submission_integrity :: "string \<Rightarrow> membership \<Rightarrow> store \<Rightarrow> exn + integrity_report_out" where
  "get_submission_integrity sid org st =
    sbind (owned_submission sid org st) (\<lambda>sub.
    case (s_invite_id sub, s_candidate_email sub) of
      (Some i, Some email) \<Rightarrow>
        let monitored = (case get_invite i st of Some v \<Rightarrow> inv_proctored v | None \<Rightarrow> True);
            rows = sort_key ev_offset_ms (sort_key ev_id (sitting_events i email st))
        in Inr (integrity_report monitored rows org (find_attempt i email st) st)
    | _ \<Rightarrow> Inr (integrity_report False [] org None st))"

text \<open>The triage columns of a submission: signals, blocked pastes and level, absent for a sitting that was not monitored.\<close>

definition integrity_of_submission :: "store \<Rightarrow> submission \<Rightarrow> int option \<times> int \<times> string option" where
  "integrity_of_submission st s =
    (case (s_invite_id s, s_candidate_email s) of
       (Some i, Some email) \<Rightarrow>
         if (case get_invite i st of Some v \<Rightarrow> inv_proctored v | None \<Rightarrow> False)
         then let evs = sitting_events i email st
              in (Some (int (length evs)), int (count_where is_blocked_paste evs), Some (risk_level (fst (risk_score evs))))
         else (None, 0, None)
     | _ \<Rightarrow> (None, 0, None))"

subsection \<open>What the score says\<close>

text \<open>The score as it is documented: a function of the multiset of the signals.\<close>

definition per_kind :: "int \<Rightarrow> int \<Rightarrow> (integrity_event \<Rightarrow> bool) \<Rightarrow> integrity_event multiset \<Rightarrow> int" where
  "per_kind points cap p es = min (int (size (filter_mset p es)) * points) cap"

definition time_away :: "integrity_event multiset \<Rightarrow> int" where
  "time_away es = sum_mset (image_mset (\<lambda>e. case ev_duration_ms e of None \<Rightarrow> 0 | Some d \<Rightarrow> d)
     (filter_mset (\<lambda>e. ev_kind e = ''focus_loss'') es))"

definition away_points :: "int \<Rightarrow> int" where
  "away_points away = (if AWAY_LONG_MS \<le> away then AWAY_LONG_POINTS else if AWAY_SHORT_MS \<le> away then AWAY_SHORT_POINTS else 0)"

definition triage :: "integrity_event multiset \<Rightarrow> int" where
  "triage es = min SCORE_MAX
     (per_kind PASTE_BLOCKED_POINTS PASTE_BLOCKED_CAP is_blocked_paste es +
      per_kind DEVTOOLS_POINTS DEVTOOLS_CAP (\<lambda>e. ev_kind e = ''devtools'') es +
      per_kind FULLSCREEN_EXIT_POINTS FULLSCREEN_EXIT_CAP (\<lambda>e. ev_kind e = ''fullscreen_exit'') es +
      per_kind FOCUS_LOSS_POINTS FOCUS_LOSS_CAP (\<lambda>e. ev_kind e = ''focus_loss'') es +
      away_points (time_away es))"

lemma count_where_mset: "count_where p es = size (filter_mset p (mset es))"
  by (simp add: count_where_def flip: mset_filter)

lemma away_mset: "away_ms es = time_away (mset es)"
  by (simp add: away_ms_def time_away_def sum_mset_sum_list flip: mset_filter mset_map)

lemma sum_sort_key: "sum_list (map g (sort_key f xs)) = (sum_list (map g xs) :: int)"
proof -
  have "mset (map g (sort_key f xs)) = mset (map g xs)" by simp
  then show ?thesis by (metis sum_mset_sum_list)
qed

lemma reason_points: "0 \<le> cap \<Longrightarrow> sum_list (map snd (reason n label points cap)) = min (int n * points) cap"
  by (simp add: reason_def)

lemma away_reason_points: "sum_list (map snd (away_reason away)) = away_points away"
  by (simp add: away_reason_def away_points_def)

lemma caps_nonneg: "0 \<le> PASTE_BLOCKED_CAP" "0 \<le> DEVTOOLS_CAP" "0 \<le> FULLSCREEN_EXIT_CAP" "0 \<le> FOCUS_LOSS_CAP"
  by (simp_all add: score_defs)

lemma risk_score_triage: "fst (risk_score es) = triage (mset es)"
  by (simp add: risk_score_def sum_sort_key risk_reasons_def Let_def reason_points caps_nonneg away_reason_points triage_def
      per_kind_def of_kind_def count_where_mset away_mset min.commute add.assoc)

lemma per_kind_mono: "es \<subseteq># es' \<Longrightarrow> 0 \<le> points \<Longrightarrow> per_kind points cap p es \<le> per_kind points cap p es'"
proof -
  assume h: "es \<subseteq># es'" "0 \<le> points"
  have "size (filter_mset p es) \<le> size (filter_mset p es')"
    by (intro size_mset_mono multiset_filter_mono h)
  then have "int (size (filter_mset p es)) * points \<le> int (size (filter_mset p es')) * points"
    using h(2) by (intro mult_right_mono) simp_all
  then show ?thesis by (auto simp: per_kind_def min_def)
qed

definition durations_ok :: "integrity_event multiset \<Rightarrow> bool" where
  "durations_ok es = (\<forall>e\<in>#es. pred_option (\<lambda>d. 0 \<le> d) (ev_duration_ms e))"

lemma time_away_mono:
  assumes "es \<subseteq># es'" and "durations_ok es'"
  shows "time_away es \<le> time_away es'"
proof -
  obtain rest where r: "es' = es + rest" using assms(1) by (metis mset_subset_eq_exists_conv)
  have nonneg: "0 \<le> sum_mset (image_mset f M)" if "\<forall>x\<in>#M. (0::int) \<le> f x" for f and M :: "integrity_event multiset"
    using that by (induction M) auto
  have "\<forall>x\<in>#rest. pred_option (\<lambda>d. 0 \<le> d) (ev_duration_ms x)"
    using assms(2) by (simp add: durations_ok_def r)
  then have "0 \<le> time_away rest"
    unfolding time_away_def by (intro nonneg) (auto split: option.split simp: option.pred_set)
  then show ?thesis by (simp add: r time_away_def)
qed

lemma triage_mono:
  assumes "es \<subseteq># es'" and "durations_ok es'"
  shows "triage es \<le> triage es'"
proof -
  have "away_points (time_away es) \<le> away_points (time_away es')"
    using time_away_mono [OF assms] by (simp add: away_points_def score_defs)
  then show ?thesis
    unfolding triage_def
    by (intro min.mono add_mono order_refl per_kind_mono assms(1)) (simp_all add: score_defs)
qed

lemma reason_positive: "r \<in> set (reason n label points cap) \<Longrightarrow> 0 < points \<Longrightarrow> 0 < cap \<Longrightarrow> 0 < snd r"
  by (auto simp: reason_def split: if_splits)

lemma reasons_positive: "r \<in> set (risk_reasons es) \<Longrightarrow> 0 < snd r"
  unfolding risk_reasons_def Let_def set_append Un_iff
  by (elim disjE; (erule reason_positive)?) (auto simp: score_defs away_reason_def split: if_splits)

lemma sorted_reasons: "sorted_wrt (\<ge>) (map snd (snd (risk_score es)))"
proof -
  have "sorted_wrt (\<lambda>x y. - snd x \<le> - snd y) (sort_key (\<lambda>r. - snd r) (risk_reasons es))"
    using sorted_sort_key [of "\<lambda>r. - snd r" "risk_reasons es"] unfolding sorted_wrt_map by simp
  then show ?thesis by (simp add: risk_score_def Let_def sorted_wrt_map)
qed

text \<open>
  C33. The triage score is what is documented and nothing more: however the signals are ordered it is the capped sum per kind plus the
  tier of the time away, between 0 and 100; it is explained in full by its reasons, which all count and come
  largest first; another signal never lowers it; and a sitting is rated \<open>none\<close> exactly when nothing counted.
\<close>

theorem risk_score_explained:
  assumes "mset es \<subseteq># mset es'" and "durations_ok (mset es')"
  shows "fst (risk_score es) = triage (mset es) \<and> fst (risk_score es) \<le> fst (risk_score es') \<and>
    (case risk_score es of (score, reasons) \<Rightarrow>
       score = min SCORE_MAX (sum_list (map snd reasons)) \<and> 0 \<le> score \<and> score \<le> 100 \<and>
       list_all (\<lambda>r. 0 < snd r) reasons \<and> sorted_wrt (\<ge>) (map snd reasons) \<and>
       (risk_level score = ''none'') = (reasons = []))"
proof -
  obtain score reasons where rs: "risk_score es = (score, reasons)" by (cases "risk_score es")
  have sum: "score = min SCORE_MAX (sum_list (map snd reasons))"
    using rs by (auto simp: risk_score_def Let_def min.commute)
  have pos: "list_all (\<lambda>r. 0 < snd r) reasons" using reasons_positive [of _ es] rs by (auto simp: list_all_iff risk_score_def Let_def)
  then have "0 \<le> sum_list (map snd reasons) \<and> (sum_list (map snd reasons) = 0) = (reasons = [])"
    by (induction reasons) auto
  then have b: "0 \<le> score" "score \<le> 100" "(risk_level score = ''none'') = (reasons = [])"
    using sum by (auto simp: risk_level_def score_defs)
  show ?thesis
    using risk_score_triage [of es] risk_score_triage [of es'] triage_mono [OF assms] sorted_reasons [of es] sum b pos
    by (simp add: rs)
qed

definition example_signal :: "string \<Rightarrow> int \<Rightarrow> integrity_event" where
  "example_signal kind ms = \<lparr>ev_id = 1, ev_invite_id = 1, ev_candidate_email = ''c@d'', ev_question_id = None, ev_kind = kind,
     ev_offset_ms = 0, ev_duration_ms = Some ms, ev_size = None, ev_blocked = True, ev_created_at = 0\<rparr>"

lemma risk_score_explained_witness:
  "risk_score [example_signal ''focus_loss'' 5, example_signal ''paste_external'' 0] =
     (34, [(''1 outside paste blocked'', 30), (''1 focus loss'', 4)]) \<and>
   fst (risk_score [example_signal ''focus_loss'' 5]) \<le> 34"
proof
  show *: "risk_score [example_signal ''focus_loss'' 5, example_signal ''paste_external'' 0] =
     (34, [(''1 outside paste blocked'', 30), (''1 focus loss'', 4)])" by code_simp
  have "mset [example_signal ''focus_loss'' 5] \<subseteq># mset [example_signal ''focus_loss'' 5, example_signal ''paste_external'' 0]"
    by simp
  moreover have "durations_ok (mset [example_signal ''focus_loss'' 5, example_signal ''paste_external'' 0])"
    by (simp add: durations_ok_def example_signal_def)
  ultimately show "fst (risk_score [example_signal ''focus_loss'' 5]) \<le> 34"
    using risk_score_explained [of "[example_signal ''focus_loss'' 5]"] * by fastforce
qed

text \<open>
  The comment on the caps says that the severe kinds alone can reach \<open>high\<close>. The ambient kinds reach it together,
  and developer tools by themselves never do.
\<close>

lemma ambient_reaches_high:
  "risk_level (fst (risk_score (replicate 3 (example_signal ''fullscreen_exit'' 0) @ replicate 5 (example_signal ''focus_loss'' 60000)))) = ''high''"
  by code_simp

lemma devtools_stay_elevated:
  assumes "\<forall>e\<in>set es. ev_kind e = ''devtools''"
  shows "risk_level (fst (risk_score es)) \<noteq> ''high''"
proof -
  have z: "filter_mset p (mset es) = {#}" if "\<And>e. ev_kind e = ''devtools'' \<Longrightarrow> \<not> p e" for p
    using assms that by (auto simp: filter_mset_eq_conv filter_mset_False)
  have "triage (mset es) \<le> DEVTOOLS_CAP"
    by (simp add: triage_def per_kind_def time_away_def away_points_def z is_blocked_paste_def)
      (simp add: score_defs)
  then show ?thesis by (simp add: risk_score_triage risk_level_def score_defs)
qed

end
