(* ===== verification/Analytics.thy ===== *)
theory Analytics
  imports PyTime "HOL-Library.AList" "HOL-Library.Multiset"
begin

section \<open>Analytics: the arithmetic of the dashboards\<close>

text \<open>
  \<open>analytics.py\<close>: means, medians, rates, the daily series, the histogram and the ranking. Floats are
  rationals. \<open>day_bump\<close> is the entry of the \<open>defaultdict\<close>. The loop that makes the edges of the
  histogram does not end for a bucket size that is not positive, and is \<open>None\<close> then. Each routine is
  compared with what it is documented to compute.
\<close>

definition mean :: "rat list \<Rightarrow> rat option" where
  "mean xs = (if xs \<noteq> [] then Some (sum_list xs / of_nat (length xs)) else None)"

text \<open>\<open>statistics.median\<close>.\<close>

definition median_of :: "rat list \<Rightarrow> rat" where
  "median_of xs =
    (let d = sort xs; n = length d
     in if n mod 2 = 1 then d ! (n div 2) else (d ! (n div 2 - 1) + d ! (n div 2)) / 2)"

definition median_value :: "rat list \<Rightarrow> rat option" where
  "median_value xs = (if xs \<noteq> [] then Some (median_of xs) else None)"

definition rate :: "nat \<Rightarrow> nat \<Rightarrow> rat option" where
  "rate numerator denominator = (if denominator \<noteq> 0 then Some (of_nat numerator / of_nat denominator) else None)"

definition time_to_solve_seconds :: "instant option \<Rightarrow> instant option \<Rightarrow> rat option" where
  "time_to_solve_seconds started_at submitted_at =
    (case (started_at, submitted_at) of
       (Some s, Some e) \<Rightarrow> (let delta = of_int (e - s) / 1000000 in if 0 \<le> delta then Some delta else None)
     | _ \<Rightarrow> None)"

subsection \<open>The daily series\<close>

type_synonym event = "instant \<times> bool \<times> bool"

record day_point =
  tp_date :: int
  tp_submissions :: nat
  tp_graded :: nat
  tp_passed :: nat
  tp_pass_rate :: "rat option"

type_synonym buckets = "(int \<times> nat \<times> nat \<times> nat) list"

definition day_bump :: "event \<Rightarrow> buckets \<Rightarrow> buckets" where
  "day_bump e bs =
    (case e of (created_at, graded, passed) \<Rightarrow>
       let day = date_ordinal created_at;
           (s, g, p) = (case map_of bs day of None \<Rightarrow> (0, 0, 0) | Some b \<Rightarrow> b)
       in AList.update day (s + 1, if graded then g + 1 else g, if graded \<and> passed then p + 1 else p) bs)"

definition day_point_of :: "int \<Rightarrow> nat \<times> nat \<times> nat \<Rightarrow> day_point" where
  "day_point_of day b = (case b of (s, g, p) \<Rightarrow>
     \<lparr>tp_date = day, tp_submissions = s, tp_graded = g, tp_passed = p, tp_pass_rate = rate p g\<rparr>)"

definition daily_series :: "event list \<Rightarrow> day_point list" where
  "daily_series events =
    (let bs = fold day_bump events []
     in map (\<lambda>day. day_point_of day (the (map_of bs day))) (sort (map fst bs)))"

subsection \<open>The histogram\<close>

partial_function (option) edges_from :: "rat \<Rightarrow> rat \<Rightarrow> rat list option" where
  "edges_from bucket_size lo =
    (if lo < 100 then Option.bind (edges_from bucket_size (lo + bucket_size)) (\<lambda>es. Some (lo # es))
     else Some [])"

record score_bucket =
  sb_low :: rat
  sb_high :: rat
  sb_count :: nat

definition bucket_index :: "rat \<Rightarrow> nat \<Rightarrow> rat \<Rightarrow> nat" where
  "bucket_index bucket_size n s = nat (max (min \<lfloor>s / bucket_size\<rfloor> (int n - 1)) 0)"

definition tally_score :: "rat \<Rightarrow> rat \<Rightarrow> nat list \<Rightarrow> nat list" where
  "tally_score bucket_size s counts =
    (let i = bucket_index bucket_size (length counts) s in counts[i := counts ! i + 1])"

definition score_distribution :: "rat \<Rightarrow> rat list \<Rightarrow> score_bucket list option" where
  "score_distribution bucket_size scores =
    (case edges_from bucket_size 0 of
       None \<Rightarrow> None
     | Some edges \<Rightarrow>
         let counts = fold (tally_score bucket_size) scores (replicate (length edges) 0)
         in Some (map2 (\<lambda>edge n. \<lparr>sb_low = edge, sb_high = min (edge + bucket_size) 100, sb_count = n\<rparr>) edges counts))"

subsection \<open>The ranking\<close>

definition rank_and_percentile :: "rat \<Rightarrow> rat list \<Rightarrow> nat \<times> rat option" where
  "rank_and_percentile value population =
    (if population = [] then (1, None)
     else (count_where (\<lambda>v. v > value) population + 1,
           Some (of_nat (count_where (\<lambda>v. v \<le> value) population) / of_nat (length population))))"

subsection \<open>The series is a grouping by day\<close>

definition on_day :: "int \<Rightarrow> event list \<Rightarrow> event list" where
  "on_day day events = filter (\<lambda>e. date_ordinal (fst e) = day) events"

definition day_summary :: "event list \<Rightarrow> int \<Rightarrow> day_point" where
  "day_summary events day =
    (let es = on_day day events;
         g = length (filter (\<lambda>e. fst (snd e)) es); p = length (filter (\<lambda>e. fst (snd e) \<and> snd (snd e)) es)
     in \<lparr>tp_date = day, tp_submissions = length es, tp_graded = g, tp_passed = p, tp_pass_rate = rate p g\<rparr>)"

definition days_of :: "event list \<Rightarrow> int set" where
  "days_of events = (\<lambda>e. date_ordinal (fst e)) ` set events"

definition tally :: "event list \<Rightarrow> int \<Rightarrow> nat \<times> nat \<times> nat" where
  "tally events day = (let es = on_day day events in
     (length es, length (filter (\<lambda>e. fst (snd e)) es), length (filter (\<lambda>e. fst (snd e) \<and> snd (snd e)) es)))"

lemma tally_none: "d \<notin> days_of es \<Longrightarrow> tally es d = (0, 0, 0)"
  by (auto simp: tally_def on_day_def days_of_def filter_empty_conv Let_def image_iff)

lemma tally_snoc:
  "tally (es @ [(t, g, p)]) d =
     (if d = date_ordinal t
      then (case tally es d of (s, n, q) \<Rightarrow> (s + 1, if g then n + 1 else n, if g \<and> p then q + 1 else q)) else tally es d)"
  by (simp add: tally_def on_day_def Let_def)

lemma fold_day_bump:
  "map_of (fold day_bump es []) = (\<lambda>d. if d \<in> days_of es then Some (tally es d) else None)"
proof (induction es rule: rev_induct)
  case Nil
  then show ?case by (simp add: days_of_def fun_eq_iff)
next
  case (snoc e es)
  obtain t g p where e: "e = (t, g, p)" by (cases e)
  have old: "(case map_of (fold day_bump es []) (date_ordinal t) of None \<Rightarrow> (0, 0, 0) | Some b \<Rightarrow> b) = tally es (date_ordinal t)"
    by (simp add: snoc tally_none)
  have "map_of (fold day_bump (es @ [e]) []) =
      (map_of (fold day_bump es []))(date_ordinal t \<mapsto> tally (es @ [e]) (date_ordinal t))"
    unfolding e by (simp add: day_bump_def Let_def old update_conv' tally_snoc split: prod.split)
  moreover have "days_of (es @ [e]) = insert (date_ordinal t) (days_of es)" by (simp add: days_of_def e)
  ultimately show ?case by (auto simp: snoc e tally_snoc fun_eq_iff)
qed

lemma day_bump_distinct: "distinct (map fst bs) \<Longrightarrow> distinct (map fst (day_bump e bs))"
  by (auto simp: day_bump_def Let_def distinct_update split: prod.split)

lemma fold_day_bump_distinct: "distinct (map fst bs) \<Longrightarrow> distinct (map fst (fold day_bump es bs))"
  by (induction es arbitrary: bs) (simp_all add: day_bump_distinct)

lemma fold_day_bump_days: "set (map fst (fold day_bump es [])) = days_of es"
proof -
  have "fst ` set (fold day_bump es []) = dom (map_of (fold day_bump es []))" by (simp add: dom_map_of_conv_image_fst)
  also have "\<dots> = days_of es" by (auto simp: fold_day_bump split: if_splits)
  finally show ?thesis by simp
qed

lemma sort_distinct_keys: "distinct ks \<Longrightarrow> sort ks = sorted_list_of_set (set ks)"
  by (simp add: sorted_list_of_set_sort_remdups distinct_remdups_id)

lemma series_days: "sort (map fst (fold day_bump es [])) = sorted_list_of_set (days_of es)"
proof -
  have "distinct (map fst (fold day_bump es []))" by (rule fold_day_bump_distinct) simp
  then show ?thesis using sort_distinct_keys unfolding fold_day_bump_days [symmetric] by blast
qed

lemma day_point_tally: "day_point_of d (tally es d) = day_summary es d"
  by (simp add: day_point_of_def tally_def day_summary_def Let_def)

lemma finite_days [simp]: "finite (days_of es)"
  by (simp add: days_of_def)

lemma daily_series_eq: "daily_series es = map (day_summary es) (sorted_list_of_set (days_of es))"
  by (simp add: daily_series_def Let_def series_days fold_day_bump day_point_tally)

lemma sum_by_day:
  assumes "finite D" and "days_of es \<subseteq> D"
  shows "(\<Sum>d\<in>D. length (filter P (on_day d es))) = length (filter P es)"
  using assms(2)
proof (induction es)
  case Nil
  then show ?case by (simp add: on_day_def)
next
  case (Cons e es)
  have d: "date_ordinal (fst e) \<in> D" and s: "days_of es \<subseteq> D" using Cons.prems by (auto simp: days_of_def)
  have "(\<Sum>d\<in>D. length (filter P (on_day d (e # es)))) =
      (\<Sum>d\<in>D. (if d = date_ordinal (fst e) then if P e then 1 else 0 else 0) + length (filter P (on_day d es)))"
    by (intro sum.cong) (auto simp: on_day_def)
  also have "\<dots> = length (filter P (e # es))"
    using d assms(1) by (simp add: sum.distrib Cons.IH [OF s])
  finally show ?case .
qed

lemma daily_counts:
  "sum_list (map tp_submissions (daily_series es)) = length es"
  "sum_list (map tp_graded (daily_series es)) = length (filter (\<lambda>e. fst (snd e)) es)"
proof -
  have total: "sum_list (map f (daily_series es)) = (\<Sum>d\<in>days_of es. f (day_summary es d))" for f :: "day_point \<Rightarrow> nat"
    by (simp add: daily_series_eq comp_def sum_list_distinct_conv_sum_set)
  show "sum_list (map tp_submissions (daily_series es)) = length es"
    using sum_by_day [OF finite_days order_refl, where P = "\<lambda>_. True" and es = es] by (simp add: total day_summary_def Let_def)
  show "sum_list (map tp_graded (daily_series es)) = length (filter (\<lambda>e. fst (snd e)) es)"
    using sum_by_day [OF finite_days order_refl, where P = "\<lambda>e. fst (snd e)" and es = es] by (simp add: total day_summary_def Let_def)
qed

text \<open>
  The trend is exactly the submissions grouped by day: one point for each day that has any, in order, with the counts of that
  day alone whatever order the rows come in; every submission is in one point, and the pass rate of a day
  is a fraction of its graded rows, absent when there are none.
\<close>

theorem daily_series_groups:
  "daily_series es = map (day_summary es) (sorted_list_of_set (days_of es)) \<and>
   sum_list (map tp_submissions (daily_series es)) = length es \<and>
   sum_list (map tp_graded (daily_series es)) = length (filter (\<lambda>e. fst (snd e)) es) \<and>
   (\<forall>p\<in>set (daily_series es). 0 < tp_submissions p \<and> tp_passed p \<le> tp_graded p \<and> tp_graded p \<le> tp_submissions p \<and>
      (tp_pass_rate p = None) = (tp_graded p = 0) \<and> pred_option (\<lambda>r. 0 \<le> r \<and> r \<le> 1) (tp_pass_rate p))"
proof (intro conjI ballI)
  show eq: "daily_series es = map (day_summary es) (sorted_list_of_set (days_of es))" by (rule daily_series_eq)
  show "sum_list (map tp_submissions (daily_series es)) = length es"
    and "sum_list (map tp_graded (daily_series es)) = length (filter (\<lambda>e. fst (snd e)) es)" by (rule daily_counts)+
  fix p
  assume "p \<in> set (daily_series es)"
  then obtain d where d: "d \<in> days_of es" "p = day_summary es d" by (auto simp: eq)
  show "0 < tp_submissions p" using d by (auto simp: day_summary_def Let_def days_of_def on_day_def filter_empty_conv)
  show pg: "tp_passed p \<le> tp_graded p"
    unfolding d(2) day_summary_def Let_def by (simp add: filter_filter [symmetric] conj_commute del: filter_filter)
  show "tp_graded p \<le> tp_submissions p" by (simp add: d(2) day_summary_def Let_def)
  have "tp_pass_rate p = rate (tp_passed p) (tp_graded p)" by (simp add: d(2) day_summary_def Let_def)
  then show "(tp_pass_rate p = None) = (tp_graded p = 0)" "pred_option (\<lambda>r. 0 \<le> r \<and> r \<le> 1) (tp_pass_rate p)"
    using pg by (auto simp: rate_def divide_le_eq)
qed

definition example_events :: "event list" where
  "example_events = [(86400000000, True, True), (5, False, False), (86400000001, True, False)]"

lemma daily_series_groups_witness:
  "map tp_submissions (daily_series example_events) = [1, 2] \<and> map tp_pass_rate (daily_series example_events) = [None, Some (1/2)] \<and>
   list_all (\<lambda>p. 0 < tp_submissions p) (daily_series example_events)"
proof (intro conjI)
  show "map tp_submissions (daily_series example_events) = [1, 2]"
    and "map tp_pass_rate (daily_series example_events) = [None, Some (1/2)]" by code_simp+
  show "list_all (\<lambda>p. 0 < tp_submissions p) (daily_series example_events)"
    using daily_series_groups [of example_events] by (simp add: list_all_iff)
qed

subsection \<open>The histogram is a partition\<close>

lemma edges_from_eq:
  assumes "0 < width" and "n = nat \<lceil>(100 - lo) / width\<rceil>"
  shows "edges_from width lo = Some (map (\<lambda>i. lo + of_nat i * width) [0..<n])"
  using assms(2)
proof (induction n arbitrary: lo)
  case 0
  then have "(100 - lo) / width \<le> 0" by simp
  then have "\<not> lo < 100" using assms(1) by (simp add: divide_le_0_iff)
  then show ?case by (subst edges_from.simps) simp
next
  case (Suc n)
  have "0 < (100 - lo) / width" using Suc.prems by (cases "0 < (100 - lo) / width") auto
  then have lo: "lo < 100" using assms(1) by (simp add: zero_less_divide_iff)
  have "(100 - (lo + width)) / width = (100 - lo) / width - 1" using assms(1) by (simp add: field_simps)
  then have "n = nat \<lceil>(100 - (lo + width)) / width\<rceil>" using Suc.prems by simp
  note IH = Suc.IH [OF this]
  have "map (\<lambda>i. lo + of_nat i * width) [0..<Suc n] = lo # map (\<lambda>i. lo + width + of_nat i * width) [0..<n]"
    by (simp add: upt_conv_Cons map_Suc_upt [symmetric] comp_def algebra_simps del: upt_Suc)
  then show ?case using lo IH by (subst edges_from.simps) simp
qed

text \<open>The loop ends exactly for a positive width.\<close>

lemma edges_from_diverges:
  assumes "width \<le> 0" and "lo < 100"
  shows "edges_from width lo = None"
proof -
  have "edges_from width l \<noteq> Some es" if "l < 100" for es l
    using that
  proof (induction es arbitrary: l)
    case Nil
    then show ?case by (subst edges_from.simps) (simp split: bind_split)
  next
    case (Cons e es)
    have "edges_from width (l + width) \<noteq> Some es" using Cons assms(1) by simp
    then show ?case by (subst edges_from.simps) (auto split: bind_split)
  qed
  then show ?thesis using assms(2) by (cases "edges_from width lo") auto
qed

lemma bucket_index_less: "0 < n \<Longrightarrow> bucket_index width n s < n"
  by (auto simp: bucket_index_def nat_less_iff)

lemma length_tally [simp]: "length (fold (tally_score width) ss counts) = length counts"
  by (induction ss arbitrary: counts) (simp_all add: tally_score_def Let_def)

lemma fold_tally:
  "i < length counts \<Longrightarrow> fold (tally_score width) ss counts ! i =
     counts ! i + count_where (\<lambda>s. bucket_index width (length counts) s = i) ss"
proof (induction ss arbitrary: counts)
  case Nil
  then show ?case by simp
next
  case (Cons s ss)
  have l: "length (tally_score width s counts) = length counts" by (simp add: tally_score_def Let_def)
  have "fold (tally_score width) (s # ss) counts ! i =
      tally_score width s counts ! i + count_where (\<lambda>s. bucket_index width (length counts) s = i) ss"
    using Cons.IH [of "tally_score width s counts"] Cons.prems by (simp add: l)
  moreover have "tally_score width s counts ! i = counts ! i + (if bucket_index width (length counts) s = i then 1 else 0)"
    using Cons.prems by (auto simp: tally_score_def Let_def nth_list_update)
  ultimately show ?case by simp
qed

lemma count_indices:
  assumes "0 < n"
  shows "(\<Sum>i<n. count_where (\<lambda>s. bucket_index width n s = i) ss) = length ss"
proof (induction ss)
  case Nil
  then show ?case by simp
next
  case (Cons s ss)
  have "(\<Sum>i<n. if bucket_index width n s = i then 1 else (0::nat)) = 1"
    using bucket_index_less [OF assms, of width s] by simp
  moreover have "(\<Sum>i<n. count_where (\<lambda>s. bucket_index width n s = i) (s # ss)) =
      (\<Sum>i<n. (if bucket_index width n s = i then 1 else 0) + count_where (\<lambda>s. bucket_index width n s = i) ss)"
    by (intro sum.cong) auto
  ultimately show ?case by (simp only: sum.distrib Cons list.size)
qed

lemma bucket_index_iff:
  assumes "0 < width" and "0 \<le> s" and "i < n"
  shows "bucket_index width n s = i \<longleftrightarrow> of_nat i * width \<le> s \<and> (s < of_nat (Suc i) * width \<or> Suc i = n)"
proof -
  let ?f = "\<lfloor>s / width\<rfloor>"
  have f0: "0 \<le> ?f" using assms by simp
  have le: "of_nat i * width \<le> s \<longleftrightarrow> int i \<le> ?f"
    using assms(1) by (simp add: le_floor_iff pos_le_divide_eq)
  have lt: "s < of_nat (Suc i) * width \<longleftrightarrow> ?f < int (Suc i)"
    using assms(1) by (simp add: floor_less_iff pos_divide_less_eq)
  have "bucket_index width n s = i \<longleftrightarrow> min ?f (int n - 1) = int i"
    using f0 assms(3) by (auto simp: bucket_index_def)
  then show ?thesis unfolding le lt using assms(3) by auto
qed

lemma length_edges: "0 < width \<Longrightarrow> edges_from width 0 = Some (map (\<lambda>i. of_nat i * width) [0..<nat \<lceil>100 / width\<rceil>])"
  using edges_from_eq [of width "nat \<lceil>100 / width\<rceil>" 0] by simp

lemma histogram_total:
  assumes "0 < width"
  shows "\<exists>bs. score_distribution width scores = Some bs \<and> sum_list (map sb_count bs) = length scores"
proof -
  define n where "n = nat \<lceil>100 / width\<rceil>"
  have n0: "0 < n" using assms by (simp add: n_def)
  define counts where "counts = fold (tally_score width) scores (replicate n 0)"
  have c: "counts ! i = count_where (\<lambda>s. bucket_index width n s = i) scores" if "i < n" for i
    using fold_tally [of i "replicate n 0" width scores] that by (simp add: counts_def)
  have l: "length counts = n" by (simp add: counts_def)
  have counted: "map sb_count (map2 (\<lambda>edge k. \<lparr>sb_low = edge, sb_high = min (edge + width) 100, sb_count = k\<rparr>)
      (map (\<lambda>i. of_nat i * width) [0..<n]) counts) = counts"
    using l by (intro nth_equalityI) simp_all
  have "sum_list counts = (\<Sum>i<n. counts ! i)" by (simp add: sum_list_sum_nth l atLeast0LessThan)
  also have "\<dots> = length scores" using count_indices [OF n0, of width scores] by (simp add: c)
  finally show ?thesis
    using counted by (simp add: score_distribution_def length_edges [OF assms] n_def [symmetric] Let_def counts_def)
qed

text \<open>
  The histogram returns for every positive width and is a partition of the scores: its buckets cover 0 to 100 without gap or
  overlap, a score from 0 to 100 is counted in exactly the bucket that holds it, the top edge belonging to the
  last one, and the counts add up to the number of scores.
\<close>

theorem histogram_partitions:
  assumes "0 < width" and "list_all (\<lambda>s. 0 \<le> s \<and> s \<le> 100) scores"
  shows "\<exists>bs. score_distribution width scores = Some bs \<and> length bs = nat \<lceil>100 / width\<rceil> \<and>
    sum_list (map sb_count bs) = length scores \<and>
    (\<forall>i<length bs. sb_low (bs ! i) = of_nat i * width \<and> sb_high (bs ! i) = min (of_nat (Suc i) * width) 100 \<and>
       sb_count (bs ! i) = count_where (\<lambda>s. sb_low (bs ! i) \<le> s \<and> (s < sb_high (bs ! i) \<or> Suc i = length bs)) scores)"
proof -
  define n where "n = nat \<lceil>100 / width\<rceil>"
  have n0: "0 < n" using assms(1) by (simp add: n_def)
  define edges where "edges = map (\<lambda>i. of_nat i * width) [0..<n]"
  have e: "edges_from width 0 = Some edges" using edges_from_eq [OF assms(1), of n 0] by (simp add: n_def edges_def)
  define counts where "counts = fold (tally_score width) scores (replicate n 0)"
  have c: "counts ! i = count_where (\<lambda>s. bucket_index width n s = i) scores" if "i < n" for i
    using fold_tally [of i "replicate n 0" width scores] that by (simp add: counts_def)
  have lc: "length counts = n" "length edges = n" by (simp_all add: counts_def edges_def)
  define bs where "bs = map2 (\<lambda>edge n. \<lparr>sb_low = edge, sb_high = min (edge + width) 100, sb_count = n\<rparr>) edges counts"
  have bs: "score_distribution width scores = Some bs"
    by (simp add: score_distribution_def e Let_def bs_def counts_def lc(2))
  have lb: "length bs = n" by (simp add: bs_def lc)
  have nth: "bs ! i = \<lparr>sb_low = of_nat i * width, sb_high = min (of_nat (Suc i) * width) 100, sb_count = counts ! i\<rparr>" if "i < n" for i
    using that by (simp add: bs_def lc edges_def algebra_simps)
  have high: "of_nat (Suc i) * width < 100" if "Suc i < n" for i
  proof -
    have "int (Suc i) < \<lceil>100 / width\<rceil>" using that by (simp add: n_def)
    then have "of_nat (Suc i) < 100 / width" by (metis less_ceiling_iff of_int_of_nat_eq)
    then show ?thesis using assms(1) by (simp add: pos_less_divide_eq)
  qed
  have count: "counts ! i = count_where (\<lambda>s. of_nat i * width \<le> s \<and> (s < min (of_nat (Suc i) * width) 100 \<or> Suc i = n)) scores"
    if "i < n" for i
  proof -
    have "(bucket_index width n s = i) = (of_nat i * width \<le> s \<and> (s < min (of_nat (Suc i) * width) 100 \<or> Suc i = n))"
      if "s \<in> set scores" for s
    proof -
      have "0 \<le> s" using assms(2) that by (simp add: list_all_iff)
      then show ?thesis
        using bucket_index_iff [OF assms(1) _ \<open>i < n\<close>, of s] high [of i] \<open>i < n\<close> by (cases "Suc i = n") auto
    qed
    then show ?thesis unfolding c [OF that] count_where_def by (intro arg_cong [of _ _ length] filter_cong refl)
  qed
  have "sum_list (map sb_count bs) = (\<Sum>i<n. counts ! i)"
    by (simp add: sum_list_sum_nth lb nth atLeast0LessThan)
  also have "\<dots> = length scores" using count_indices [OF n0, of width scores] by (simp add: c)
  finally have total: "sum_list (map sb_count bs) = length scores" .
  have each: "sb_low (bs ! i) = of_nat i * width \<and> sb_high (bs ! i) = min (of_nat (Suc i) * width) 100 \<and>
       sb_count (bs ! i) = count_where (\<lambda>s. sb_low (bs ! i) \<le> s \<and> (s < sb_high (bs ! i) \<or> Suc i = length bs)) scores"
    if "i < length bs" for i
  proof -
    have i: "i < n" using that lb by simp
    show ?thesis unfolding nth [OF i] lb by (simp only: score_bucket.simps count [OF i] simp_thms)
  qed
  show ?thesis
    by (rule exI [of _ bs], intro conjI allI impI) (use bs lb total each in \<open>simp_all only: n_def\<close>)
qed

lemma histogram_partitions_witness:
  "map_option (map sb_count) (score_distribution 20 [0, 19, 20, 100, 80]) = Some [2, 1, 0, 0, 2]"
proof -
  obtain bs where b: "score_distribution 20 [0, 19, 20, 100, 80] = Some bs" "length bs = nat \<lceil>(100 :: rat) / 20\<rceil>"
    "\<forall>i<length bs. sb_low (bs ! i) = of_nat i * 20 \<and> sb_high (bs ! i) = min (of_nat (Suc i) * 20) 100 \<and>
       sb_count (bs ! i) = count_where (\<lambda>s. sb_low (bs ! i) \<le> s \<and> (s < sb_high (bs ! i) \<or> Suc i = length bs)) [0, 19, 20, 100, 80]"
    using histogram_partitions [of 20 "[0, 19, 20, 100, 80]"] by auto
  have l: "length bs = 5" using b(2) by simp
  have "map sb_count bs = [sb_count (bs ! 0), sb_count (bs ! 1), sb_count (bs ! 2), sb_count (bs ! 3), sb_count (bs ! 4)]"
    using l by (auto simp: list_eq_iff_nth_eq less_Suc_eq numeral_eq_Suc)
  then show ?thesis using b(3) l by (simp add: b(1) numeral_eq_Suc)
qed

subsection \<open>The ranking is the standard competition ranking\<close>

lemma greater_first: "count_where (\<lambda>v. v > score) xs = length (takeWhile (\<lambda>v. v > score) (rev (sort xs)))"
proof -
  have "count_where (\<lambda>v. v > score) xs = length (filter (\<lambda>v. v > score) (rev (sort xs)))"
    unfolding count_where_def by (metis mset_filter mset_rev mset_sort size_mset)
  also have "filter (\<lambda>v. v > score) (rev (sort xs)) = takeWhile (\<lambda>v. v > score) (rev (sort xs))"
    using filter_equals_takeWhile_sorted_rev [of id "rev (sort xs)" score] by simp
  finally show ?thesis .
qed

lemma first_of_sorted:
  assumes "score \<in> set xs"
  shows "rev (sort xs) ! length (takeWhile (\<lambda>v. v > score) (rev (sort xs))) = score"
proof -
  let ?d = "rev (sort xs)" let ?k = "length (takeWhile (\<lambda>v. v > score) ?d)"
  have k: "?k < length ?d"
  proof (rule ccontr)
    assume "\<not> ?k < length ?d"
    then have "takeWhile (\<lambda>v. v > score) ?d = ?d" by (metis le_antisym length_takeWhile_le linorder_not_less takeWhile_eq_take take_all)
    then have "\<forall>v\<in>set ?d. v > score" by (metis takeWhile_eq_all_conv)
    then show False using assms by auto
  qed
  then have le: "\<not> ?d ! ?k > score" by (rule nth_length_takeWhile)
  obtain j where j: "j < length ?d" "?d ! j = score" using assms by (metis in_set_conv_nth set_rev set_sort)
  have "?k \<le> j"
  proof (rule ccontr)
    assume "\<not> ?k \<le> j"
    then have "?d ! j > score" by (metis linorder_not_le nth_mem set_takeWhileD takeWhile_nth)
    then show False using j by simp
  qed
  then have "?d ! j \<le> ?d ! ?k" using sorted_rev_nth_mono [of ?d ?k j] j(1) by simp
  then show ?thesis using le j(2) by simp
qed

text \<open>
  A candidate's standing is the standard competition ranking: the rank is the place of the first such score in the list
  ordered from the best, so equal scores share a rank, the next one skips, a better score has the smaller
  rank and the best has rank 1; the percentile is the share at or below, positive and 1 exactly for
  the best.
\<close>

theorem standings_ranked:
  assumes "score \<in> set pop"
  shows "\<exists>rank share. rank_and_percentile score pop = (rank, Some share) \<and>
    rank = length (takeWhile (\<lambda>v. v > score) (rev (sort pop))) + 1 \<and> rev (sort pop) ! (rank - 1) = score \<and>
    rank \<le> length pop \<and> 0 < share \<and> share \<le> 1 \<and> (rank = 1 \<longleftrightarrow> share = 1) \<and>
    (\<forall>other\<in>set pop. fst (rank_and_percentile other pop) < rank \<longleftrightarrow> other > score)"
proof -
  let ?g = "\<lambda>x. count_where (\<lambda>v. v > x) pop" and ?l = "count_where (\<lambda>v. v \<le> score) pop"
  have ne: "pop \<noteq> []" using assms by auto
  have split: "?g score + ?l = length pop"
    using sum_length_filter_compl [of "\<lambda>v. v > score" pop] by (simp add: count_where_def not_less)
  have pos: "0 < ?l" using assms by (auto simp: count_where_pos)
  have strict: "?g a < ?g b" if "a > b" "a \<in> set pop" for a b
  proof -
    have "filter (\<lambda>v. v > a) pop = filter (\<lambda>v. v > a) (filter (\<lambda>v. v > b) pop)"
      using that(1) by (auto intro!: filter_cong)
    moreover have "length (filter (\<lambda>v. v > a) (filter (\<lambda>v. v > b) pop)) < length (filter (\<lambda>v. v > b) pop)"
      using that by (intro length_filter_less [of a]) auto
    ultimately show ?thesis by (simp add: count_where_def)
  qed
  have mono: "?g b \<le> ?g a" if "a \<le> b" for a b
    by (rule count_where_mono) (use that in auto)
  have order: "?g other + 1 < ?g score + 1 \<longleftrightarrow> other > score" if "other \<in> set pop" for other
    using strict [OF _ that] mono [of other score] by (cases "other > score") auto
  define share :: rat where "share = of_nat ?l / of_nat (length pop)"
  have n: "0 < length pop" and le: "?l \<le> length pop" using ne split by auto
  have "0 < share" "share \<le> 1" "share = 1 \<longleftrightarrow> ?l = length pop"
    using pos n le by (auto simp: share_def divide_le_eq_1 divide_eq_1_iff)
  moreover have "?l = length pop \<longleftrightarrow> ?g score = 0" using split by linarith
  moreover have "rank_and_percentile score pop = (?g score + 1, Some share)" "fst (rank_and_percentile x pop) = ?g x + 1" for x
    using ne by (simp_all add: rank_and_percentile_def share_def)
  ultimately show ?thesis
    using split pos first_of_sorted [OF assms] order greater_first [of score pop] by auto
qed

lemma standings_ranked_witness:
  "fst (rank_and_percentile 70 [90, 70, 70, 50]) = 2 \<and> (\<exists>share. rank_and_percentile 70 [90, 70, 70, 50] = (2, Some share) \<and> share < 1)"
proof -
  have r: "rank_and_percentile 70 [90, 70, 70, 50] = (2, Some (3/4))" by code_simp
  obtain rank share where "rank_and_percentile 70 [90, 70, 70, 50] = (rank, Some share)" "share \<le> 1"
    using standings_ranked [of 70 "[90, 70, 70, 50]"] by auto
  then show ?thesis using r by auto
qed

end
