(* ===== verification/Results.thy ===== *)
theory Results
  imports Integrity Analytics Questions Privacy
begin

section \<open>Results: what an interviewer sees of the sittings\<close>

text \<open>
  The reading routes of \<open>api.py\<close> on submissions, sittings and their aggregates. A dict that is filled from a
  query keeps the last row of each key: \<open>last_where\<close>. Ids of the database are never 0. Floats are
  rationals; \<open>now\<close> is the time of the window of an aggregate.
\<close>

definition last_where :: "('r \<Rightarrow> bool) \<Rightarrow> 'r list \<Rightarrow> 'r option" where
  "last_where p rows = first_where p (rev rows)"

subsection \<open>Rows\<close>

record result_out =
  ru_verdict :: string
  ru_score_pct :: rat
  ru_reason :: string
  ru_full_result :: "(string \<times> json) list"
  ru_received_at :: instant

record submission_out =
  su_id :: string
  su_question_id :: string
  su_candidate :: string
  su_erased :: bool
  su_language :: string
  su_code :: string
  su_status :: string
  su_agent_job_id :: "string option"
  su_created_at :: instant
  su_late :: bool
  su_error_reason :: "string option"
  su_result :: "result_out option"

definition submission_out_of :: "submission \<Rightarrow> assessment_result option \<Rightarrow> submission_out" where
  "submission_out_of s r =
     \<lparr>su_id = s_id s, su_question_id = s_question_id s, su_candidate = s_candidate s,
      su_erased = is_erased (s_candidate_email s), su_language = s_language s, su_code = s_code s, su_status = s_status s,
      su_agent_job_id = s_agent_job_id s, su_created_at = s_created_at s, su_late = s_late s, su_error_reason = s_error_reason s,
      su_result = map_option (\<lambda>r. \<lparr>ru_verdict = r_verdict r, ru_score_pct = r_score_pct r, ru_reason = r_reason r,
        ru_full_result = r_full_result r, ru_received_at = r_received_at r\<rparr>) r\<rparr>"

definition result_of :: "store \<Rightarrow> submission \<Rightarrow> assessment_result option" where
  "result_of st s = last_where (\<lambda>r. r_submission_id r = s_id s) (t_results st)"

definition assessment_of :: "store \<Rightarrow> submission \<Rightarrow> assessment option" where
  "assessment_of st s =
    Option.bind (s_invite_id s) (\<lambda>i. Option.bind (get_invite i st) (\<lambda>v.
    Option.bind (inv_assessment_id v) (\<lambda>aid. get_assessment aid st)))"

record submission_summary_out =
  ss_id :: string
  ss_question_id :: string
  ss_candidate :: string
  ss_candidate_email :: "string option"
  ss_erased :: bool
  ss_language :: string
  ss_status :: string
  ss_agent_job_id :: "string option"
  ss_created_at :: instant
  ss_verdict :: "string option"
  ss_score_pct :: "rat option"
  ss_late :: bool
  ss_integrity_signals :: "int option"
  ss_integrity_blocked :: int
  ss_integrity_risk :: "string option"
  ss_assessment_id :: "string option"
  ss_assessment_title :: "string option"

definition submission_summary :: "store \<Rightarrow> submission \<Rightarrow> submission_summary_out" where
  "submission_summary st s =
    (let r = result_of st s; a = assessment_of st s; (signals, blocked, risk) = integrity_of_submission st s in
     \<lparr>ss_id = s_id s, ss_question_id = s_question_id s, ss_candidate = s_candidate s, ss_candidate_email = s_candidate_email s,
      ss_erased = is_erased (s_candidate_email s), ss_language = s_language s, ss_status = s_status s,
      ss_agent_job_id = s_agent_job_id s, ss_created_at = s_created_at s, ss_verdict = map_option r_verdict r,
      ss_score_pct = map_option r_score_pct r, ss_late = s_late s, ss_integrity_signals = signals,
      ss_integrity_blocked = blocked, ss_integrity_risk = risk, ss_assessment_id = map_option a_id a,
      ss_assessment_title = map_option a_title a\<rparr>)"

text \<open>\<open>select(Submission).join(Question).where(Question.org_id == org_id)\<close>.\<close>

definition of_org :: "int \<Rightarrow> store \<Rightarrow> submission \<Rightarrow> bool" where
  "of_org org_id st s = (case get_question (s_question_id s) st of None \<Rightarrow> False | Some q \<Rightarrow> q_org_id q = org_id)"

definition org_submissions :: "membership \<Rightarrow> store \<Rightarrow> submission list" where
  "org_submissions org st = filter (of_org (m_org_id org) st) (t_submissions st)"

definition list_submissions :: "nat \<Rightarrow> nat \<Rightarrow> membership \<Rightarrow> store \<Rightarrow> submission_summary_out page" where
  "list_submissions limit offset org st =
     page_of limit offset (submission_summary st) (newest_first s_created_at s_id (org_submissions org st))"

definition read_submission :: "string \<Rightarrow> membership \<Rightarrow> store \<Rightarrow> exn + submission_out" where
  "read_submission sid org st = sbind (owned_submission sid org st) (\<lambda>s.
     Inr (submission_out_of s (first_where (\<lambda>r. r_submission_id r = s_id s) (t_results st))))"

record dashboard_submission_out =
  db_submission_id :: string
  db_candidate_name :: string
  db_candidate_email :: "string option"
  db_erased :: bool
  db_language :: string
  db_status :: string
  db_verdict :: "string option"
  db_score_pct :: "rat option"
  db_late :: bool
  db_integrity_signals :: "int option"
  db_integrity_blocked :: int
  db_integrity_risk :: "string option"
  db_created_at :: instant

definition dashboard_row :: "store \<Rightarrow> submission \<Rightarrow> dashboard_submission_out" where
  "dashboard_row st s =
    (let r = result_of st s; (signals, blocked, risk) = integrity_of_submission st s in
     \<lparr>db_submission_id = s_id s, db_candidate_name = s_candidate s, db_candidate_email = s_candidate_email s,
      db_erased = is_erased (s_candidate_email s), db_language = s_language s, db_status = s_status s,
      db_verdict = map_option r_verdict r, db_score_pct = map_option r_score_pct r, db_late = s_late s,
      db_integrity_signals = signals, db_integrity_blocked = blocked, db_integrity_risk = risk, db_created_at = s_created_at s\<rparr>)"

definition question_submissions :: "string \<Rightarrow> nat \<Rightarrow> nat \<Rightarrow> membership \<Rightarrow> store \<Rightarrow> exn + dashboard_submission_out page" where
  "question_submissions qid limit offset org st =
    sbind (owned_question qid org st) (\<lambda>_.
      Inr (page_of limit offset (dashboard_row st)
        (newest_first s_created_at s_id (filter (\<lambda>s. s_question_id s = qid) (t_submissions st)))))"

subsection \<open>The report\<close>

text \<open>The renderer answers the posted body with the status and the bytes of the PDF.\<close>

record pdf_response =
  pf_status_code :: int
  pf_content :: "nat list"

type_synonym renderer = "json \<Rightarrow> unit + pdf_response"

definition request_report :: "renderer \<Rightarrow> (string \<times> json) list \<Rightarrow> question \<Rightarrow> string \<Rightarrow> string \<Rightarrow> store \<Rightarrow> unit + nat list" where
  "request_report renderer res q cd candidate st =
    (case renderer (JObj ([(''result'', JObj res), (''question'', build_question_payload q st), (''code'', JStr cd)] @
                          (if candidate \<noteq> [] then [(''candidate'', JStr candidate)] else []))) of
       Inl _ \<Rightarrow> Inl ()
     | Inr r \<Rightarrow> if 200 \<le> pf_status_code r \<and> pf_status_code r < 300 then Inr (pf_content r) else Inl ())"

definition submission_report :: "renderer \<Rightarrow> string \<Rightarrow> membership \<Rightarrow> store \<Rightarrow> exn + (nat list \<times> string)" where
  "submission_report renderer sid org st =
    sbind (owned_submission sid org st) (\<lambda>s.
    case first_where (\<lambda>r. r_submission_id r = s_id s) (t_results st) of
      None \<Rightarrow> Inl (HTTPException 409 ''submission has not been graded yet.'')
    | Some r \<Rightarrow>
        (case get_question (s_question_id s) st of
           None \<Rightarrow> Inl (HTTPException 404 (''no question with id '' @ py_repr (s_question_id s) @ ''.''))
         | Some q \<Rightarrow>
             if is_erased (s_candidate_email s)
             then Inl (HTTPException 409 ''this candidate's data was erased; there is no report to generate.'')
             else (case request_report renderer (r_full_result r) q (s_code s) (s_candidate s) st of
                     Inl _ \<Rightarrow> Inl (HTTPException 502 ''could not generate the report.'')
                   | Inr pdf \<Rightarrow> Inr (pdf, ''attachment; filename=\"report-'' @ s_id s @ ''.pdf\"''))))"

subsection \<open>The grid of an assessment\<close>

record attempt_question_out =
  tq_question_id :: "string option"
  tq_variant_set_id :: "string option"
  tq_variant_label :: "string option"
  tq_title :: string
  tq_submitted :: bool
  tq_late :: bool
  tq_submission_id :: "string option"
  tq_verdict :: "string option"
  tq_score_pct :: "rat option"

record attempt_feedback_out =
  af_rating :: int
  af_difficulty_fair :: string
  af_comment :: string
  af_created_at :: instant

record attempt_out =
  to_candidate_name :: string
  to_candidate_email :: string
  to_erased :: bool
  to_questions :: "attempt_question_out list"
  to_passed_count :: nat
  to_total_count :: nat
  to_avg_score_pct :: "rat option"
  to_integrity_signals :: "nat option"
  to_integrity_blocked :: nat
  to_integrity_risk :: "string option"
  to_feedback :: "attempt_feedback_out option"

definition attempt_feedback :: "candidate_feedback option \<Rightarrow> attempt_feedback_out option" where
  "attempt_feedback = map_option (\<lambda>fb. \<lparr>af_rating = fb_rating fb, af_difficulty_fair = fb_difficulty_fair fb,
     af_comment = fb_comment fb, af_created_at = fb_created_at fb\<rparr>)"

definition assessment_invite_ids :: "string \<Rightarrow> store \<Rightarrow> int list" where
  "assessment_invite_ids aid st = map inv_id (filter (\<lambda>v. inv_assessment_id v = Some aid) (t_invites st))"

text \<open>What the loop over the submissions keeps per pair of address and question: the last one, the last graded one.\<close>

definition pair_submissions :: "int list \<Rightarrow> store \<Rightarrow> string \<Rightarrow> string \<Rightarrow> submission list" where
  "pair_submissions ids st email qid =
     filter (\<lambda>s. (\<exists>i\<in>set ids. s_invite_id s = Some i) \<and> s_candidate_email s = Some email \<and> s_question_id s = qid) (t_submissions st)"

definition pair_submission :: "int list \<Rightarrow> store \<Rightarrow> string \<Rightarrow> string \<Rightarrow> submission option" where
  "pair_submission ids st email qid = last_where (\<lambda>_. True) (pair_submissions ids st email qid)"

definition pair_result :: "int list \<Rightarrow> store \<Rightarrow> string \<Rightarrow> string \<Rightarrow> assessment_result option" where
  "pair_result ids st email qid =
     Option.bind (last_where (\<lambda>s. result_of st s \<noteq> None) (pair_submissions ids st email qid)) (result_of st)"

text \<open>A question id that is absent or empty names no question.\<close>

definition named :: "string option \<Rightarrow> string option" where
  "named qid = (if qid = Some [] then None else qid)"

definition slot_question_id :: "store \<Rightarrow> candidate_attempt \<Rightarrow> assessment_question \<Rightarrow> string option" where
  "slot_question_id st t aq =
    (if aq_variant_set_id aq \<noteq> None
     then map_option sv_question_id
            (last_where (\<lambda>r. sv_key r = (at_invite_id t, at_candidate_email t, aq_id aq)) (t_slot_variants st))
     else aq_question_id aq)"

definition slot_title :: "store \<Rightarrow> assessment_question \<Rightarrow> string" where
  "slot_title st aq =
    (case aq_variant_set_id aq of
       Some set_id \<Rightarrow> (case first_where (\<lambda>v. vs_id v = set_id) (t_variant_sets st) of None \<Rightarrow> set_id | Some v \<Rightarrow> vs_title v)
     | None \<Rightarrow> (case Option.bind (aq_question_id aq) (\<lambda>i. get_question i st) of
         Some q \<Rightarrow> q_title q | None \<Rightarrow> or_empty (aq_question_id aq)))"

definition label_of :: "assessment_question list \<Rightarrow> store \<Rightarrow> string \<Rightarrow> string option" where
  "label_of slots st qid =
     map_option (\<lambda>q. or_empty (q_variant_label q))
       (last_where (\<lambda>q. q_id q = qid)
          (concat (map (\<lambda>aq. case aq_variant_set_id aq of None \<Rightarrow> [] | Some i \<Rightarrow> set_variants i st) slots)))"

definition question_cell :: "int list \<Rightarrow> assessment_question list \<Rightarrow> store \<Rightarrow> candidate_attempt \<Rightarrow> assessment_question \<Rightarrow>
    attempt_question_out" where
  "question_cell ids slots st t aq =
    (let qid = slot_question_id st t aq;
         sub = Option.bind (named qid) (pair_submission ids st (at_candidate_email t));
         r = Option.bind (named qid) (pair_result ids st (at_candidate_email t))
     in \<lparr>tq_question_id = qid, tq_variant_set_id = aq_variant_set_id aq,
         tq_variant_label = (if aq_variant_set_id aq \<noteq> None then Option.bind (named qid) (label_of slots st) else None),
         tq_title = slot_title st aq, tq_submitted = (sub \<noteq> None),
         tq_late = (case sub of None \<Rightarrow> False | Some s \<Rightarrow> s_late s), tq_submission_id = map_option s_id sub,
         tq_verdict = map_option r_verdict r, tq_score_pct = map_option r_score_pct r\<rparr>)"

definition attempt_row :: "int list \<Rightarrow> assessment_question list \<Rightarrow> store \<Rightarrow> candidate_attempt \<Rightarrow> attempt_out" where
  "attempt_row ids slots st t =
    (let email = at_candidate_email t;
         cells = map (question_cell ids slots st t) slots;
         scores = List.map_filter tq_score_pct cells;
         evs = filter (\<lambda>e. ev_invite_id e \<in> set ids \<and> ev_candidate_email e = email) (t_events st);
         monitored = (at_invite_id t \<in> set ids \<and> (case get_invite (at_invite_id t) st of None \<Rightarrow> False | Some v \<Rightarrow> inv_proctored v))
     in \<lparr>to_candidate_name = (if or_empty (at_candidate_name t) \<noteq> [] then or_empty (at_candidate_name t) else email),
         to_candidate_email = email, to_erased = (at_erased_at t \<noteq> None), to_questions = cells,
         to_passed_count = count_where (\<lambda>c. tq_verdict c = Some ''PASS'') cells, to_total_count = length slots,
         to_avg_score_pct = (if scores \<noteq> [] then Some (sum_list scores / of_nat (length scores)) else None),
         to_integrity_signals = (if monitored then Some (length evs) else None),
         to_integrity_blocked = count_where is_blocked_paste evs,
         to_integrity_risk = (if monitored then Some (risk_level (fst (risk_score evs))) else None),
         to_feedback = attempt_feedback (last_where (\<lambda>fb. fb_attempt_id fb = at_id t) (t_feedback st))\<rparr>)"

definition assessment_attempt_rows :: "assessment \<Rightarrow> store \<Rightarrow> attempt_out list" where
  "assessment_attempt_rows a st =
    (let slots = assessment_slots a st; ids = assessment_invite_ids (a_id a) st
     in if ids = [] then []
        else map (attempt_row ids slots st) (sort_key at_started_at (filter (\<lambda>t. at_invite_id t \<in> set ids) (t_attempts st))))"

definition list_assessment_attempts :: "string \<Rightarrow> membership \<Rightarrow> store \<Rightarrow> exn + attempt_out list" where
  "list_assessment_attempts aid org st = sbind (owned_assessment aid org st) (\<lambda>a. Inr (assessment_attempt_rows a st))"

subsection \<open>Feedback\<close>

record feedback_comment_out = attempt_feedback_out +
  fo_candidate_name :: string

record assessment_feedback_out =
  fs_responses :: nat
  fs_finished :: nat
  fs_avg_rating :: "rat option"
  fs_too_easy :: nat
  fs_fair :: nat
  fs_too_hard :: nat
  fs_comments :: "feedback_comment_out list"

definition feedback_rollup :: "attempt_out list \<Rightarrow> assessment_feedback_out" where
  "feedback_rollup rows =
    (let answers = List.map_filter (\<lambda>r. map_option (\<lambda>fb. (to_candidate_name r, fb)) (to_feedback r)) rows;
         level = (\<lambda>l. count_where (\<lambda>p. af_difficulty_fair (snd p) = l) answers);
         comments = map (\<lambda>(name, fb). \<lparr>af_rating = af_rating fb, af_difficulty_fair = af_difficulty_fair fb,
             af_comment = af_comment fb, af_created_at = af_created_at fb, fo_candidate_name = name\<rparr>)
           (filter (\<lambda>p. af_comment (snd p) \<noteq> []) answers)
     in \<lparr>fs_responses = length answers,
         fs_finished = count_where (\<lambda>r. list_ex tq_submitted (to_questions r)) rows,
         fs_avg_rating = mean (map (\<lambda>p. of_int (af_rating (snd p))) answers),
         fs_too_easy = level ''too_easy'', fs_fair = level ''fair'', fs_too_hard = level ''too_hard'',
         fs_comments = sort_key (\<lambda>c. - af_created_at c) comments\<rparr>)"

end
