(* ===== verification/Rollups.thy ===== *)
theory Rollups
  imports Results
begin

section \<open>Rollups: the aggregates of an organisation and the export\<close>

text \<open>
  The analytics routes of \<open>api.py\<close> over the arithmetic of \<open>Analytics\<close>, and the CSV of all submissions. What
  Python writes for a float, for a cost with six decimals and for an instant are the parameters of \<open>spelling\<close>.
\<close>

definition since_cutoff :: "instant \<Rightarrow> int option \<Rightarrow> instant option" where
  "since_cutoff now days = map_option (\<lambda>d. now - days_us d) days"

definition submitted_since :: "instant option \<Rightarrow> submission list \<Rightarrow> submission list" where
  "submitted_since cutoff subs = (case cutoff of None \<Rightarrow> subs | Some c \<Rightarrow> filter (\<lambda>s. c \<le> s_created_at s) subs)"

definition attempt_start :: "store \<Rightarrow> submission \<Rightarrow> instant option" where
  "attempt_start st s =
    (case (s_invite_id s, s_candidate_email s) of
       (Some i, Some email) \<Rightarrow> map_option at_started_at (last_where (\<lambda>t. at_key t = (i, email)) (t_attempts st))
     | _ \<Rightarrow> None)"

definition in_library :: "membership \<Rightarrow> question \<Rightarrow> bool" where
  "in_library org q = (q_org_id q = m_org_id org \<and> q_status q = ''active'' \<and> q_variant_set_id q = None)"

text \<open>The edges of the histogram are those of the default width; the loop ends for it.\<close>

definition BUCKET_SIZE :: rat where
  "BUCKET_SIZE = 20"

definition distribution :: "rat list \<Rightarrow> score_bucket list" where
  "distribution scores = (case score_distribution BUCKET_SIZE scores of None \<Rightarrow> [] | Some bs \<Rightarrow> bs)"

definition passed_result :: "assessment_result option \<Rightarrow> bool" where
  "passed_result r = (case r of None \<Rightarrow> False | Some r \<Rightarrow> r_verdict r = ''PASS'')"

subsection \<open>The workspace\<close>

record overview_out =
  ov_questions :: nat
  ov_submissions :: nat
  ov_graded :: nat
  ov_candidates :: nat
  ov_passed :: nat
  ov_pass_rate :: "rat option"
  ov_avg_score_pct :: "rat option"
  ov_trend :: "day_point list"
  ov_distribution :: "score_bucket list"

definition analytics_overview :: "instant \<Rightarrow> int option \<Rightarrow> membership \<Rightarrow> store \<Rightarrow> overview_out" where
  "analytics_overview now days org st =
    (let subs = submitted_since (since_cutoff now days) (org_submissions org st);
         results = List.map_filter (result_of st) subs;
         scores = map r_score_pct results;
         graded = length results;
         passed = count_where (\<lambda>s. passed_result (result_of st s)) subs
     in \<lparr>ov_questions = count_where (in_library org) (t_questions st), ov_submissions = length subs, ov_graded = graded,
         ov_candidates = length (remdups (filter (\<lambda>e. e \<noteq> []) (List.map_filter s_candidate_email subs))),
         ov_passed = passed, ov_pass_rate = rate passed graded, ov_avg_score_pct = mean scores,
         ov_trend = daily_series (map (\<lambda>s. (s_created_at s, result_of st s \<noteq> None, passed_result (result_of st s))) subs),
         ov_distribution = distribution scores\<rparr>)"

subsection \<open>The questions\<close>

record question_analytics_out =
  qa_question_id :: string
  qa_title :: string
  qa_difficulty :: "string option"
  qa_submissions :: nat
  qa_graded :: nat
  qa_passed :: nat
  qa_pass_rate :: "rat option"
  qa_avg_score_pct :: "rat option"
  qa_median_score_pct :: "rat option"
  qa_late :: nat
  qa_avg_time_to_solve_s :: "rat option"
  qa_median_time_to_solve_s :: "rat option"

definition question_stats :: "instant option \<Rightarrow> store \<Rightarrow> question \<Rightarrow> question_analytics_out" where
  "question_stats cutoff st q =
    (let subs = submitted_since cutoff (filter (\<lambda>s. s_question_id s = q_id q) (t_submissions st));
         scores = map r_score_pct (List.map_filter (result_of st) subs);
         graded = length scores;
         passed = count_where (\<lambda>s. passed_result (result_of st s)) subs;
         tts = List.map_filter (\<lambda>s. time_to_solve_seconds (attempt_start st s) (Some (s_created_at s))) subs
     in \<lparr>qa_question_id = q_id q, qa_title = q_title q, qa_difficulty = q_difficulty q, qa_submissions = length subs,
         qa_graded = graded, qa_passed = passed, qa_pass_rate = rate passed graded, qa_avg_score_pct = mean scores,
         qa_median_score_pct = median_value scores, qa_late = count_where s_late subs, qa_avg_time_to_solve_s = mean tts,
         qa_median_time_to_solve_s = median_value tts\<rparr>)"

definition analytics_questions :: "instant \<Rightarrow> nat \<Rightarrow> nat \<Rightarrow> int option \<Rightarrow> membership \<Rightarrow> store \<Rightarrow> question_analytics_out page" where
  "analytics_questions now limit offset days org st =
     page_of limit offset (question_stats (since_cutoff now days) st)
       (newest_first q_created_at q_id (filter (in_library org) (t_questions st)))"

subsection \<open>One assessment\<close>

record candidate_analytics_out =
  ca_candidate_name :: string
  ca_candidate_email :: string
  ca_erased :: bool
  ca_passed_count :: nat
  ca_submitted_count :: nat
  ca_total_count :: nat
  ca_avg_score_pct :: "rat option"
  ca_rank :: "nat option"
  ca_percentile :: "rat option"
  ca_time_to_solve_s :: "rat option"

record assessment_analytics_out =
  aa_feedback :: assessment_feedback_out
  aa_assessment_id :: string
  aa_title :: string
  aa_slot_count :: nat
  aa_candidates_started :: nat
  aa_candidates_completed :: nat
  aa_avg_score_pct :: "rat option"
  aa_pass_rate :: "rat option"
  aa_distribution :: "score_bucket list"
  aa_candidates :: "candidate_analytics_out list"

text \<open>The earliest start and the latest submission of an address, over all links of the assessment.\<close>

fun earliest :: "instant list \<Rightarrow> instant option" where
  "earliest [] = None"
| "earliest (t # ts) = Some (case earliest ts of None \<Rightarrow> t | Some u \<Rightarrow> min t u)"

fun latest :: "instant list \<Rightarrow> instant option" where
  "latest [] = None"
| "latest (t # ts) = Some (case latest ts of None \<Rightarrow> t | Some u \<Rightarrow> max t u)"

definition started_by :: "int list \<Rightarrow> store \<Rightarrow> string \<Rightarrow> instant option" where
  "started_by ids st email =
     earliest (map at_started_at (filter (\<lambda>t. at_invite_id t \<in> set ids \<and> at_candidate_email t = email) (t_attempts st)))"

definition last_submit_by :: "int list \<Rightarrow> store \<Rightarrow> string \<Rightarrow> instant option" where
  "last_submit_by ids st email =
     latest (map s_created_at (filter (\<lambda>s. (\<exists>i\<in>set ids. s_invite_id s = Some i) \<and> s_candidate_email s = Some email) (t_submissions st)))"

definition candidate_standing :: "int list \<Rightarrow> rat list \<Rightarrow> store \<Rightarrow> attempt_out \<Rightarrow> candidate_analytics_out" where
  "candidate_standing ids population st r =
     \<lparr>ca_candidate_name = to_candidate_name r, ca_candidate_email = to_candidate_email r,
      ca_erased = is_erased (Some (to_candidate_email r)), ca_passed_count = to_passed_count r,
      ca_submitted_count = count_where tq_submitted (to_questions r), ca_total_count = to_total_count r,
      ca_avg_score_pct = to_avg_score_pct r,
      ca_rank = map_option (\<lambda>s. fst (rank_and_percentile s population)) (to_avg_score_pct r),
      ca_percentile = Option.bind (to_avg_score_pct r) (\<lambda>s. snd (rank_and_percentile s population)),
      ca_time_to_solve_s = time_to_solve_seconds (started_by ids st (to_candidate_email r)) (last_submit_by ids st (to_candidate_email r))\<rparr>"

definition analytics_assessment :: "string \<Rightarrow> membership \<Rightarrow> store \<Rightarrow> exn + assessment_analytics_out" where
  "analytics_assessment aid org st =
    sbind (owned_assessment aid org st) (\<lambda>a.
    let rows = assessment_attempt_rows a st;
        ids = assessment_invite_ids (a_id a) st;
        population = List.map_filter to_avg_score_pct rows;
        cells = concat (map to_questions rows)
    in Inr \<lparr>aa_feedback = feedback_rollup rows, aa_assessment_id = a_id a, aa_title = a_title a,
            aa_slot_count = length (assessment_slots a st), aa_candidates_started = length rows,
            aa_candidates_completed = count_where (\<lambda>r. to_questions r \<noteq> [] \<and> list_all tq_submitted (to_questions r)) rows,
            aa_avg_score_pct = mean population,
            aa_pass_rate = rate (sum_list (map to_passed_count rows)) (count_where (\<lambda>c. tq_verdict c \<noteq> None) cells),
            aa_distribution = distribution population,
            aa_candidates = map (candidate_standing ids population st) rows\<rparr>)"

subsection \<open>The export\<close>

text \<open>
  \<open>csv.writer\<close> in its default dialect: a field with a comma, a quote or a line end is quoted and its quotes doubled,
  and so is a row's only field when it is empty.
\<close>

definition csv_special :: "char \<Rightarrow> bool" where
  "csv_special ch = (ch = CHR '','' \<or> ch = CHR 0x22 \<or> ch = CHR 0x0D \<or> ch = CHR 0x0A)"

definition doubled :: "string \<Rightarrow> string" where
  "doubled s = concat (map (\<lambda>ch. if ch = CHR 0x22 then [ch, ch] else [ch]) s)"

definition csv_field :: "string \<Rightarrow> string" where
  "csv_field s = (if list_ex csv_special s then CHR 0x22 # doubled s @ [CHR 0x22] else s)"

definition csv_row :: "string list \<Rightarrow> string" where
  "csv_row fs = (if fs = [[]] then [CHR 0x22, CHR 0x22] else py_join '','' (map csv_field fs)) @ [CHR 0x0D, CHR 0x0A]"

record spelling =
  sp_float :: "rat \<Rightarrow> string"
  sp_cost :: "rat \<Rightarrow> string"
  sp_instant :: "instant \<Rightarrow> string"

definition export_header :: "string list" where
  "export_header = [''submission_id'', ''question_id'', ''question_title'', ''candidate'', ''candidate_email'', ''language'',
     ''status'', ''verdict'', ''score_pct'', ''late'', ''integrity_signals'', ''integrity_blocked_pastes'', ''integrity_risk'',
     ''judge_cost_usd'', ''created_at'']"

definition export_row :: "spelling \<Rightarrow> membership \<Rightarrow> store \<Rightarrow> submission \<Rightarrow> string list" where
  "export_row sp org st s =
    (let r = result_of st s; (signals, blocked, risk) = integrity_of_submission st s; erased = is_erased (s_candidate_email s)
     in [s_id s, s_question_id s,
         (case get_question (s_question_id s) st of None \<Rightarrow> []
          | Some q \<Rightarrow> if q_org_id q = m_org_id org then q_title q else []),
         if erased then ''Erased candidate'' else s_candidate s,
         if erased then [] else or_empty (s_candidate_email s),
         s_language s, s_status s,
         (case r of None \<Rightarrow> [] | Some r \<Rightarrow> r_verdict r), (case r of None \<Rightarrow> [] | Some r \<Rightarrow> sp_float sp (r_score_pct r)),
         if s_late s then ''True'' else ''False'',
         (case signals of None \<Rightarrow> [] | Some n \<Rightarrow> show_int n), if signals \<noteq> None then show_int blocked else [], or_empty risk,
         (case s_judge_cost_usd s of None \<Rightarrow> [] | Some c \<Rightarrow> sp_cost sp c), sp_instant sp (s_created_at s)])"

definition export_submissions :: "spelling \<Rightarrow> membership \<Rightarrow> store \<Rightarrow> string" where
  "export_submissions sp org st =
     concat (map csv_row (export_header # map (export_row sp org st) (newest_first s_created_at s_id (org_submissions org st))))"

subsection \<open>The export reads back\<close>

text \<open>A reader of the format: the state after a closing quote decides whether it was doubled.\<close>

datatype csv_state = Start | Bare | Quoted | Closing

fun csv_read :: "csv_state \<Rightarrow> string \<Rightarrow> string list \<Rightarrow> string list list \<Rightarrow> string \<Rightarrow> string list list option" where
  "csv_read q f row rows [] = (if q = Start \<and> row = [] then Some (rev rows) else None)"
| "csv_read Quoted f row rows (ch # cs) =
     (if ch = CHR 0x22 then csv_read Closing f row rows cs else csv_read Quoted (ch # f) row rows cs)"
| "csv_read Closing f row rows (ch # cs) =
     (if ch = CHR 0x22 then csv_read Quoted (ch # f) row rows cs
      else if ch = CHR '','' then csv_read Start [] (rev f # row) rows cs
      else if ch = CHR 0x0D then (case cs of [] \<Rightarrow> None | c2 # cs' \<Rightarrow> csv_read Start [] [] (rev (rev f # row) # rows) cs')
      else None)"
| "csv_read q f row rows (ch # cs) =
     (if ch = CHR 0x22 \<and> q = Start then csv_read Quoted f row rows cs
      else if ch = CHR '','' then csv_read Start [] (rev f # row) rows cs
      else if ch = CHR 0x0D then (case cs of [] \<Rightarrow> None | c2 # cs' \<Rightarrow> csv_read Start [] [] (rev (rev f # row) # rows) cs')
      else csv_read Bare (ch # f) row rows cs)"

lemma read_bare:
  "\<not> list_ex csv_special s \<Longrightarrow> csv_read Bare f row rows (s @ rest) = csv_read Bare (rev s @ f) row rows rest"
  by (induction s arbitrary: f) (auto simp: csv_special_def)

lemma read_start:
  "\<not> list_ex csv_special s \<Longrightarrow> s \<noteq> [] \<Longrightarrow> csv_read Start [] row rows (s @ rest) = csv_read Bare (rev s) row rows rest"
  by (cases s) (auto simp: csv_special_def read_bare)

lemma read_quoted:
  "csv_read Quoted f row rows (doubled s @ CHR 0x22 # rest) = csv_read Closing (rev s @ f) row rows rest"
  by (induction s arbitrary: f) (auto simp: doubled_def)

lemma read_field_comma: "csv_read Start [] row rows (csv_field s @ CHR '','' # rest) = csv_read Start [] (s # row) rows rest"
  using read_start [of s row rows "CHR '','' # rest"]
  by (cases "s = []") (auto simp: csv_field_def read_quoted)

lemma read_field_end:
  "csv_read Start [] row rows (csv_field s @ CHR 0x0D # CHR 0x0A # rest) = csv_read Start [] [] (rev (s # row) # rows) rest"
  using read_start [of s row rows "CHR 0x0D # CHR 0x0A # rest"]
  by (cases "s = []") (auto simp: csv_field_def read_quoted)

lemma read_fields:
  "fs \<noteq> [] \<Longrightarrow> csv_read Start [] row rows (py_join '','' (map csv_field fs) @ CHR 0x0D # CHR 0x0A # rest) =
     csv_read Start [] [] ((rev row @ fs) # rows) rest"
proof (induction fs arbitrary: row)
  case Nil
  then show ?case by simp
next
  case (Cons s fs)
  show ?case
  proof (cases fs)
    case Nil
    then show ?thesis by (simp add: read_field_end)
  next
    case (Cons s2 fs2)
    then show ?thesis using Cons.IH [of "s # row"] by (simp add: read_field_comma)
  qed
qed

lemma read_row: "fs \<noteq> [] \<Longrightarrow> csv_read Start [] [] rows (csv_row fs @ rest) = csv_read Start [] [] (fs # rows) rest"
  using read_fields [of fs "[]" rows rest] by (simp add: csv_row_def)

lemma read_rows:
  "list_all (\<lambda>fs. fs \<noteq> []) table \<Longrightarrow> csv_read Start [] [] rows (concat (map csv_row table)) = Some (rev rows @ table)"
  by (induction table arbitrary: rows) (simp_all add: read_row)

lemma export_row_length: "length (export_row sp org st s) = length export_header"
  by (simp add: export_row_def export_header_def Let_def split: prod.split)

text \<open>What the row of a submission says, by the names of the header.\<close>

definition column :: "string list \<Rightarrow> string \<Rightarrow> string option" where
  "column fs name = map_of (zip export_header fs) name"

definition tells :: "spelling \<Rightarrow> membership \<Rightarrow> store \<Rightarrow> submission \<Rightarrow> string list \<Rightarrow> bool" where
  "tells sp org st s fs =
    (length fs = length export_header \<and>
     column fs ''submission_id'' = Some (s_id s) \<and> column fs ''question_id'' = Some (s_question_id s) \<and>
     pred_option (\<lambda>q. q_org_id q = m_org_id org \<and> column fs ''question_title'' = Some (q_title q)) (get_question (s_question_id s) st) \<and>
     column fs ''candidate'' = Some (if is_erased (s_candidate_email s) then ''Erased candidate'' else s_candidate s) \<and>
     column fs ''candidate_email'' = Some (if is_erased (s_candidate_email s) then [] else or_empty (s_candidate_email s)) \<and>
     column fs ''language'' = Some (s_language s) \<and> column fs ''status'' = Some (s_status s) \<and>
     column fs ''verdict'' = Some (case result_of st s of None \<Rightarrow> [] | Some r \<Rightarrow> r_verdict r) \<and>
     column fs ''score_pct'' = Some (case result_of st s of None \<Rightarrow> [] | Some r \<Rightarrow> sp_float sp (r_score_pct r)) \<and>
     column fs ''late'' = Some (if s_late s then ''True'' else ''False'') \<and>
     (case integrity_of_submission st s of (signals, blocked, risk) \<Rightarrow>
        column fs ''integrity_signals'' = Some (case signals of None \<Rightarrow> [] | Some n \<Rightarrow> show_int n) \<and>
        column fs ''integrity_blocked_pastes'' = Some (case signals of None \<Rightarrow> [] | Some _ \<Rightarrow> show_int blocked) \<and>
        column fs ''integrity_risk'' = Some (or_empty risk)) \<and>
     column fs ''judge_cost_usd'' = Some (case s_judge_cost_usd s of None \<Rightarrow> [] | Some c \<Rightarrow> sp_cost sp c) \<and>
     column fs ''created_at'' = Some (sp_instant sp (s_created_at s)))"

lemma export_row_tells:
  assumes "s \<in> set (org_submissions org st)"
  shows "tells sp org st s (export_row sp org st s)"
proof -
  have q: "pred_option (\<lambda>q. q_org_id q = m_org_id org) (get_question (s_question_id s) st)"
    using assms by (auto simp: org_submissions_def of_org_def split: option.splits)
  obtain signals blocked risk where i: "integrity_of_submission st s = (signals, blocked, risk)" by (metis prod_cases3)
  show ?thesis
    using q by (cases "get_question (s_question_id s) st"; cases signals)
      (simp_all add: tells_def column_def export_row_def export_header_def Let_def i)
qed

text \<open>
  C32. The export reads back: a CSV reader gets the header and then, newest first, one row for each submission to the
  organisation's questions and for no other. Under each name of the header the row holds what that submission and its
  grade say - ids, title, candidate and address, language, status, verdict, score, lateness, integrity, cost and instant -
  character for character, whatever a candidate typed into it; and the row of an erased candidate holds neither name
  nor address.
\<close>

theorem export_reads_back:
  "\<exists>subs rows. csv_read Start [] [] [] (export_submissions sp org st) = Some (export_header # rows) \<and>
     list_all2 (tells sp org st) subs rows \<and>
     mset subs = mset (org_submissions org st) \<and> sorted_wrt (\<ge>) (map s_created_at subs)"
proof (intro exI conjI)
  let ?subs = "newest_first s_created_at s_id (org_submissions org st)"
  have ne: "export_row sp org st s \<noteq> []" for s using export_row_length [of sp org st s] by (auto simp: export_header_def)
  show "csv_read Start [] [] [] (export_submissions sp org st) = Some (export_header # map (export_row sp org st) ?subs)"
    unfolding export_submissions_def
    by (subst read_rows) (simp_all add: list_all_iff ne export_header_def)
  show same: "mset ?subs = mset (org_submissions org st)" by (simp add: newest_first_def)
  have "s \<in> set (org_submissions org st)" if "s \<in> set ?subs" for s using that mset_eq_setD [OF same] by blast
  then show "list_all2 (tells sp org st) ?subs (map (export_row sp org st) ?subs)"
    by (auto simp: list_all2_map2 list_all2_same export_row_tells)
  have "sorted_wrt (\<lambda>x y. - s_created_at x \<le> - s_created_at y) ?subs"
    using sorted_sort_key [of "\<lambda>r. - s_created_at r"] unfolding newest_first_def sorted_wrt_map by blast
  then show "sorted_wrt (\<ge>) (map s_created_at ?subs)" by (simp add: sorted_wrt_map)
qed

definition example_spelling :: spelling where
  "example_spelling = \<lparr>sp_float = \<lambda>_. ''1.0'', sp_cost = \<lambda>_. ''0.000000'', sp_instant = \<lambda>_. ''1970-01-01T00:00:00''\<rparr>"

definition example_submission :: submission where
  "example_submission = \<lparr>s_id = ''s1'', s_question_id = ''q1'', s_invite_id = None, s_candidate = ''a,\"b'', s_candidate_email = None,
     s_language = ''python'', s_code = ''x'', s_status = ''pending'', s_late = False, s_agent_job_id = None, s_attempts = 0,
     s_error_reason = None, s_judge_cost_usd = None, s_created_at = 0, s_updated_at = 0\<rparr>"

definition exported_store :: store where
  "exported_store = empty_store\<lparr>t_questions := [example_question], t_submissions := [example_submission]\<rparr>"

lemma export_reads_back_witness:
  "\<exists>fs. csv_read Start [] [] [] (export_submissions example_spelling example_admin exported_store) = Some [export_header, fs] \<and>
     column fs ''candidate'' = Some ''a,\"b''"
proof -
  obtain subs rows where s: "csv_read Start [] [] [] (export_submissions example_spelling example_admin exported_store) =
      Some (export_header # rows)" "list_all2 (tells example_spelling example_admin exported_store) subs rows"
    "mset subs = mset (org_submissions example_admin exported_store)"
    using export_reads_back [of example_spelling example_admin exported_store] by blast
  have "org_submissions example_admin exported_store = [example_submission]" by code_simp
  then have "subs = [example_submission]" using s(3) by simp
  then obtain fs where "rows = [fs]" "tells example_spelling example_admin exported_store example_submission fs"
    using s(2) by (auto simp: list_all2_Cons1)
  moreover have "\<not> is_erased (s_candidate_email example_submission)" "s_candidate example_submission = ''a,\"b''" by code_simp+
  ultimately show ?thesis using s(1) by (auto simp: tells_def)
qed

end
