(* ===== verification/Payments.thy ===== *)
theory Payments
  imports Team
begin

section \<open>Payments: plans sold, checkouts and what Stripe reports\<close>

text \<open>
  The billing routes of \<open>api.py\<close> and \<open>stripe_client.py\<close>. Stripe is the parameter \<open>stripe\<close>: what each of its calls
  returns, or the text of the \<open>StripeError\<close> it raises, and the event \<open>construct_event\<close> makes at an instant of a payload, a
  signature and the secret, if it accepts them: it checks the signature and that its timestamp is within a tolerance of the
  clock, so that what it accepts now it may refuse later. An event's object is a JSON object. \<open>others 0\<close>
  stands between reading an organisation and writing it; the write updates the columns whose value has changed.
\<close>

record stripe_event =
  se_type :: string
  se_object :: "(string \<times> json) list"

record stripe =
  sr_customer :: "(string \<times> json) list \<Rightarrow> string + string"
  sr_checkout :: "(string \<times> json) list \<Rightarrow> string + string"
  sr_portal :: "(string \<times> json) list \<Rightarrow> string + string"
  sr_event :: "instant \<Rightarrow> string \<Rightarrow> string \<Rightarrow> string \<Rightarrow> stripe_event option"

subsection \<open>Prices and plans\<close>

definition STRIPE_PRICE_IDS :: "settings \<Rightarrow> (string \<times> string option) list" where
  "STRIPE_PRICE_IDS c = [(''starter'', c_stripe_price_starter c), (''growth'', c_stripe_price_growth c)]"

definition price_id :: "settings \<Rightarrow> string \<Rightarrow> string option" where
  "price_id c plan = (case map_of (STRIPE_PRICE_IDS c) plan of None \<Rightarrow> None | Some p \<Rightarrow> p)"

definition plan_for_price :: "settings \<Rightarrow> string option \<Rightarrow> string option" where
  "plan_for_price c price =
    (case price of
       None \<Rightarrow> None
     | Some p \<Rightarrow> map_option fst (first_where (\<lambda>(plan, configured). or_empty configured \<noteq> [] \<and> configured = Some p) (STRIPE_PRICE_IDS c)))"

definition purchasable :: "settings \<Rightarrow> plan \<Rightarrow> bool" where
  "purchasable c p = (p_price_usd_month p = 0 \<or> price_id c (p_key p) \<noteq> None)"

subsection \<open>The billing page\<close>

text \<open>\<open>round(x, 4)\<close>, ties to even.\<close>

definition round4 :: "rat \<Rightarrow> rat" where
  "round4 x =
    (let y = x * 10000; f = \<lfloor>y\<rfloor>; d = y - of_int f
     in of_int (if d < 1/2 then f else if d > 1/2 then f + 1 else if even f then f else f + 1) / 10000)"

record usage_out =
  uo_period :: string
  uo_sittings :: int
  uo_drafts :: int
  uo_seats :: nat
  uo_sittings_carried :: int
  uo_drafts_carried :: int
  uo_sittings_over :: int
  uo_drafts_over :: int
  uo_judge_cost_usd :: rat
  uo_draft_cost_usd :: rat

record billing_out =
  bo_plan :: plan
  bo_status :: string
  bo_usage :: usage_out
  bo_current_period_end :: "instant option"
  bo_enforced :: bool
  bo_payments_enabled :: bool
  bo_plans :: "plan list"

definition get_billing :: "settings \<Rightarrow> instant \<Rightarrow> membership \<Rightarrow> store \<Rightarrow> exn + billing_out" where
  "get_billing c now org st =
    sbind (organization_row (m_org_id org) st) (\<lambda>g.
    sbind (usage (m_org_id org) (period_key now) st) (\<lambda>row.
      Inr \<lparr>bo_plan = plan_for g, bo_status = o_plan_status g,
           bo_usage = \<lparr>uo_period = u_period row, uo_sittings = u_sittings row, uo_drafts = u_drafts row,
             uo_seats = seats_used now (m_org_id org) st, uo_sittings_carried = u_sittings_carried row,
             uo_drafts_carried = u_drafts_carried row, uo_sittings_over = u_sittings_over row,
             uo_drafts_over = u_drafts_over row, uo_judge_cost_usd = round4 (u_judge_cost_usd row),
             uo_draft_cost_usd = round4 (u_draft_cost_usd row)\<rparr>,
           bo_current_period_end = o_current_period_end g, bo_enforced = c_billing_enforced c,
           bo_payments_enabled = billing_enabled c, bo_plans = filter (purchasable c) (map snd PLANS)\<rparr>))"

subsection \<open>Writing an organisation\<close>

definition written :: "'a \<Rightarrow> 'a \<Rightarrow> 'a \<Rightarrow> 'a" where
  "written loaded new current = (if new = loaded then current else new)"

definition merge_org :: "organization \<Rightarrow> organization \<Rightarrow> organization \<Rightarrow> organization" where
  "merge_org loaded new g = g\<lparr>
     o_plan := written (o_plan loaded) (o_plan new) (o_plan g),
     o_plan_status := written (o_plan_status loaded) (o_plan_status new) (o_plan_status g),
     o_stripe_customer_id := written (o_stripe_customer_id loaded) (o_stripe_customer_id new) (o_stripe_customer_id g),
     o_stripe_subscription_id := written (o_stripe_subscription_id loaded) (o_stripe_subscription_id new) (o_stripe_subscription_id g),
     o_current_period_end := written (o_current_period_end loaded) (o_current_period_end new) (o_current_period_end g)\<rparr>"

definition save_org :: "interference \<Rightarrow> organization \<Rightarrow> organization \<Rightarrow> store \<Rightarrow> (unit, store) outcome" where
  "save_org others loaded new st =
    (let st1 = others 0 st in
     if new = loaded then (Inr (), st1)
     else if \<not> exists_where (\<lambda>g. o_id g = o_id loaded) (t_orgs st1) then (Inl (RuntimeError ''UPDATE expected to match 1 row''), st1)
     else (Inr (), st1\<lparr>t_orgs := upd_where (\<lambda>g. o_id g = o_id loaded) (merge_org loaded new) (t_orgs st1)\<rparr>))"

subsection \<open>Checkout and portal\<close>

definition require_payments :: "settings \<Rightarrow> exn + unit" where
  "require_payments c = require (billing_enabled c) (HTTPException 503 ''payments are not configured on this deployment.'')"

definition payment_error :: "string \<Rightarrow> exn" where
  "payment_error e = HTTPException 502 (''Stripe refused the request: '' @ e)"

definition create_customer :: "stripe \<Rightarrow> int \<Rightarrow> string \<Rightarrow> string \<Rightarrow> string + string" where
  "create_customer sr org_id name email =
     sr_customer sr [(''name'', JStr name), (''email'', JStr email), (''metadata'', JObj [(''org_id'', JStr (show_int org_id))])]"

definition create_portal_session :: "stripe \<Rightarrow> string \<Rightarrow> string \<Rightarrow> string + string" where
  "create_portal_session sr customer_id return_url =
     sr_portal sr [(''customer'', JStr customer_id), (''return_url'', JStr return_url)]"

definition stripe_customer :: "stripe \<Rightarrow> interference \<Rightarrow> organization \<Rightarrow> interviewer \<Rightarrow> store \<Rightarrow> (string, store) outcome" where
  "stripe_customer sr others g current st =
    (if or_empty (o_stripe_customer_id g) \<noteq> [] then (Inr (or_empty (o_stripe_customer_id g)), st)
     else guardr (require_org_id g) st (\<lambda>i.
       case create_customer sr i (o_name g) (iv_email current) of
         Inl e \<Rightarrow> (Inl (payment_error e), st)
       | Inr cid \<Rightarrow> bindr (save_org others g (g\<lparr>o_stripe_customer_id := Some cid\<rparr>) st) (\<lambda>_ st1. (Inr cid, st1))))"

definition checkout_params :: "settings \<Rightarrow> string \<Rightarrow> string \<Rightarrow> string \<Rightarrow> int \<Rightarrow> string \<Rightarrow> string \<Rightarrow> (string \<times> json) list" where
  "checkout_params c customer plan price org_id success_url cancel_url =
     [(''mode'', JStr ''subscription''), (''customer'', JStr customer), (''client_reference_id'', JStr (show_int org_id)),
      (''line_items'', JList [JObj [(''price'', JStr price), (''quantity'', JInt 1)]]), (''success_url'', JStr success_url),
      (''cancel_url'', JStr cancel_url),
      (''subscription_data'', JObj [(''metadata'', JObj [(''org_id'', JStr (show_int org_id)), (''plan'', JStr plan)])])] @
     (if c_stripe_automatic_tax c
      then [(''automatic_tax'', JObj [(''enabled'', JBool True)]),
            (''customer_update'', JObj [(''address'', JStr ''auto''), (''name'', JStr ''auto'')]),
            (''tax_id_collection'', JObj [(''enabled'', JBool True)]), (''billing_address_collection'', JStr ''required'')]
      else [])"

definition start_checkout :: "settings \<Rightarrow> stripe \<Rightarrow> interference \<Rightarrow> string \<Rightarrow> interviewer \<Rightarrow> membership \<Rightarrow> store \<Rightarrow>
    (string, store) outcome" where
  "start_checkout c sr others plan current org st =
    guardr (require_admin org) st (\<lambda>_.
    guardr (require_payments c) st (\<lambda>_.
    guardr (require (or_empty (price_id c plan) \<noteq> [])
              (HTTPException 503 (''the '' @ plan @ '' plan is not available on this deployment.''))) st (\<lambda>_.
    guardr (organization_row (m_org_id org) st) st (\<lambda>g.
    guardr (require (\<not> (or_empty (o_stripe_subscription_id g) \<noteq> [] \<and> o_plan_status g \<in> set ENTITLED_STATUSES))
              (HTTPException 409 ''this organisation already has a subscription; change the plan in the payment portal.'')) st (\<lambda>_.
    bindr (stripe_customer sr others g current st) (\<lambda>customer st1.
    case sr_checkout sr (checkout_params c customer plan (or_empty (price_id c plan)) (m_org_id org)
           (c_frontend_base_url c @ ''/settings/billing?billing=success'')
           (c_frontend_base_url c @ ''/settings/billing?billing=cancelled'')) of
      Inl e \<Rightarrow> (Inl (payment_error e), st1)
    | Inr url \<Rightarrow> (Inr url, st1)))))))"

definition open_billing_portal :: "settings \<Rightarrow> stripe \<Rightarrow> membership \<Rightarrow> store \<Rightarrow> exn + string" where
  "open_billing_portal c sr org st =
    sbind (require_admin org) (\<lambda>_.
    sbind (require_payments c) (\<lambda>_.
    sbind (organization_row (m_org_id org) st) (\<lambda>g.
    if or_empty (o_stripe_customer_id g) = []
    then Inl (HTTPException 409 ''this organisation has no subscription to manage yet.'')
    else (case create_portal_session sr (or_empty (o_stripe_customer_id g)) (c_frontend_base_url c @ ''/settings/billing'') of
            Inl e \<Rightarrow> Inl (payment_error e) | Inr url \<Rightarrow> Inr url))))"

subsection \<open>The end of an organisation\<close>

text \<open>
  The subscription that \<open>_purge_org\<close> asks Stripe to cancel before it deletes the rows. Without a key the call raises,
  and whatever it raises is logged; the deletion goes on.
\<close>

definition cancelled_by_purge :: "settings \<Rightarrow> int \<Rightarrow> store \<Rightarrow> string option" where
  "cancelled_by_purge c org_id st =
    (case get_org org_id st of
       None \<Rightarrow> None
     | Some g \<Rightarrow> if or_empty (o_stripe_subscription_id g) \<noteq> [] \<and> or_empty (c_stripe_secret_key c) \<noteq> []
                then o_stripe_subscription_id g else None)"

subsection \<open>Reading an event\<close>

text \<open>\<open>(v or {}).get(key)\<close>.\<close>

definition sub_get :: "json \<Rightarrow> string \<Rightarrow> exn + json" where
  "sub_get v key = (if \<not> truthy v then Inr JNull else case v of JObj d \<Rightarrow> Inr (dict_get d key) | _ \<Rightarrow> Inl AttributeError)"

text \<open>\<open>items[0] if items else None\<close>.\<close>

definition first_item :: "json \<Rightarrow> exn + json option" where
  "first_item items =
    (if \<not> truthy items then Inr None
     else case items of
       JList js \<Rightarrow> Inr (Some (hd js)) | JStr s \<Rightarrow> Inr (Some (JStr [hd s]))
     | JObj _ \<Rightarrow> Inl (RuntimeError ''KeyError'') | _ \<Rightarrow> Inl TypeError)"

text \<open>\<open>datetime.fromtimestamp\<close> of an integer (a boolean is one) within the years 1 to 9999.\<close>

definition as_datetime :: "json \<Rightarrow> exn + instant option" where
  "as_datetime epoch =
    (case (case epoch of JInt i \<Rightarrow> Some i | JBool b \<Rightarrow> Some (if b then 1 else 0) | _ \<Rightarrow> None) of
       None \<Rightarrow> Inr None
     | Some i \<Rightarrow> if -62135596800 \<le> i \<and> i \<le> 253402300799 then Inr (Some (seconds i)) else Inl (ValueError ''year is out of range''))"

record subscription =
  sub_id :: string
  sub_customer_id :: string
  sub_status :: string
  sub_plan :: "string option"
  sub_current_period_end :: "instant option"

definition text_of :: "json \<Rightarrow> string option" where
  "text_of j = (case j of JStr s \<Rightarrow> Some s | _ \<Rightarrow> None)"

definition item_get :: "json option \<Rightarrow> string \<Rightarrow> exn + json" where
  "item_get item key = (case item of None \<Rightarrow> Inr JNull | Some (JObj d) \<Rightarrow> Inr (dict_get d key) | Some _ \<Rightarrow> Inl AttributeError)"

definition subscription_from :: "settings \<Rightarrow> externals \<Rightarrow> (string \<times> json) list \<Rightarrow> exn + subscription option" where
  "subscription_from c x obj =
    (case (text_of (dict_get obj ''id''), text_of (dict_get obj ''customer'')) of
       (Some i, Some customer) \<Rightarrow>
         sbind (sub_get (dict_get obj ''items'') ''data'') (\<lambda>items.
         sbind (first_item items) (\<lambda>item.
         sbind (item_get item ''price'') (\<lambda>pr.
         sbind (sub_get pr ''id'') (\<lambda>price.
         sbind (if dict_get obj ''current_period_end'' = JNull then item_get item ''current_period_end''
                else Inr (dict_get obj ''current_period_end'')) (\<lambda>period_end.
         sbind (as_datetime period_end) (\<lambda>ends.
           let status = dict_get obj ''status'' in
           Inr (Some \<lparr>sub_id = i, sub_customer_id = customer,
                      sub_status = (if truthy status then py_str x status else ''active''),
                      sub_plan = plan_for_price c (text_of price), sub_current_period_end = ends\<rparr>)))))))
     | _ \<Rightarrow> Inr None)"

definition org_for_stripe :: "(string \<times> json) list \<Rightarrow> store \<Rightarrow> exn + organization option" where
  "org_for_stripe obj st =
    (case Option.bind (text_of (dict_get obj ''customer'')) (\<lambda>cid. first_where (\<lambda>g. o_stripe_customer_id g = Some cid) (t_orgs st)) of
       Some g \<Rightarrow> Inr (Some g)
     | None \<Rightarrow>
         sbind (sub_get (dict_get obj ''metadata'') ''org_id'') (\<lambda>m.
           case text_of (if truthy m then m else dict_get obj ''client_reference_id'') of
             None \<Rightarrow> Inr None
           | Some raw \<Rightarrow>
               if py_isdigit raw
               then (case py_int raw of None \<Rightarrow> Inl (ValueError ''invalid literal for int()'') | Some i \<Rightarrow> Inr (get_org i st))
               else Inr None))"

subsection \<open>The webhook\<close>

datatype webhook_reply = Handled | Ignored

text \<open>What an event makes of the organisation it is about; \<open>None\<close>: the event is ignored.\<close>

definition after_checkout :: "(string \<times> json) list \<Rightarrow> organization \<Rightarrow> organization" where
  "after_checkout obj g = g\<lparr>
     o_stripe_customer_id := (case text_of (dict_get obj ''customer'') of None \<Rightarrow> o_stripe_customer_id g | Some i \<Rightarrow> Some i),
     o_stripe_subscription_id := (case text_of (dict_get obj ''subscription'') of None \<Rightarrow> o_stripe_subscription_id g | Some i \<Rightarrow> Some i)\<rparr>"

definition after_update :: "subscription \<Rightarrow> organization \<Rightarrow> organization" where
  "after_update s g = g\<lparr>o_stripe_subscription_id := Some (sub_id s), o_plan_status := sub_status s,
     o_current_period_end := sub_current_period_end s, o_plan := (case sub_plan s of None \<Rightarrow> o_plan g | Some p \<Rightarrow> p)\<rparr>"

definition after_deletion :: "organization \<Rightarrow> organization" where
  "after_deletion g = g\<lparr>o_plan := ''free'', o_plan_status := ''canceled'', o_stripe_subscription_id := None,
     o_current_period_end := None\<rparr>"

definition after_event :: "settings \<Rightarrow> externals \<Rightarrow> stripe_event \<Rightarrow> organization \<Rightarrow> exn + organization option" where
  "after_event c x e g =
    (if se_type e = ''checkout.session.completed'' then Inr (Some (after_checkout (se_object e) g))
     else if se_type e \<in> {''customer.subscription.created'', ''customer.subscription.updated''}
     then sbind (if se_object e = [] then Inr None else subscription_from c x (se_object e)) (\<lambda>s. Inr (map_option (\<lambda>s. after_update s g) s))
     else if se_type e = ''customer.subscription.deleted''
     then (if or_empty (o_stripe_subscription_id g) \<noteq> [] \<and> dict_get (se_object e) ''id'' \<noteq> JStr (or_empty (o_stripe_subscription_id g))
           then Inr None else Inr (Some (after_deletion g)))
     else Inr None)"

definition handle_event :: "settings \<Rightarrow> externals \<Rightarrow> interference \<Rightarrow> stripe_event \<Rightarrow> store \<Rightarrow> (webhook_reply, store) outcome" where
  "handle_event c x others e st =
    guardr (org_for_stripe (se_object e) st) st (\<lambda>found.
    case found of
      None \<Rightarrow> (Inr Ignored, st)
    | Some g \<Rightarrow>
        guardr (after_event c x e g) st (\<lambda>new.
        case new of
          None \<Rightarrow> (Inr Ignored, st)
        | Some g' \<Rightarrow> bindr (save_org others g g' st) (\<lambda>_ st1. (Inr Handled, st1))))"

definition parse_event :: "settings \<Rightarrow> stripe \<Rightarrow> instant \<Rightarrow> string \<Rightarrow> string option \<Rightarrow> exn + stripe_event" where
  "parse_event c sr now payload_text signature =
    (case c_stripe_webhook_secret c of
       None \<Rightarrow> Inl (HTTPException 503 ''webhooks are not configured.'')
     | Some secret \<Rightarrow> (case sr_event sr now payload_text (or_empty signature) secret of
         None \<Rightarrow> Inl (HTTPException 400 ''invalid webhook.'') | Some e \<Rightarrow> Inr e))"

definition stripe_webhook :: "settings \<Rightarrow> externals \<Rightarrow> stripe \<Rightarrow> interference \<Rightarrow> instant \<Rightarrow> string \<Rightarrow> string option \<Rightarrow> store \<Rightarrow>
    (webhook_reply, store) outcome" where
  "stripe_webhook c x sr others now payload_text signature st =
     guardr (parse_event c sr now payload_text signature) st (\<lambda>e. handle_event c x others e st)"

end
