(* ===== verification/PaymentsSafety.thy ===== *)
theory PaymentsSafety
  imports Payments
begin

section \<open>PaymentsSafety: what moves an organisation between plans\<close>

text \<open>
  Only events that Stripe signed move a plan, an event moves its own organisation alone, and it may be
  delivered any number of times. What is not so: events overtaken by others, and checkouts that are open at the
  same time.
\<close>

subsection \<open>Requests\<close>

datatype payment_op =
    Checkout string interviewer membership
  | Portal membership
  | Webhook string "string option"

record payment_request =
  pr_others :: interference
  pr_now :: instant
  pr_op :: payment_op

definition perform_payment :: "settings \<Rightarrow> externals \<Rightarrow> stripe \<Rightarrow> payment_request \<Rightarrow> store \<Rightarrow> store" where
  "perform_payment c x sr r st =
    (case pr_op r of
       Checkout plan current org \<Rightarrow> snd (start_checkout c sr (pr_others r) plan current org st)
     | Portal org \<Rightarrow> st
     | Webhook payload_text signature \<Rightarrow> snd (stripe_webhook c x sr (pr_others r) (pr_now r) payload_text signature st))"

text \<open>The terms an organisation is on.\<close>

definition terms_of :: "organization \<Rightarrow> int option \<times> string \<times> string \<times> string option \<times> instant option" where
  "terms_of g = (o_id g, o_plan g, o_plan_status g, o_stripe_subscription_id g, o_current_period_end g)"

definition terms :: "store \<Rightarrow> (int option \<times> string \<times> string \<times> string option \<times> instant option) list" where
  "terms st = map terms_of (t_orgs st)"

definition plan_keys :: "string list" where
  "plan_keys = map fst PLANS"

definition plans_known :: "store \<Rightarrow> bool" where
  "plans_known st = (\<forall>g\<in>set (t_orgs st). o_plan g \<in> set plan_keys)"

text \<open>At the time of the request the SDK accepts the signature that came with the body, for the secret of the deployment.\<close>

definition trusted :: "settings \<Rightarrow> stripe \<Rightarrow> payment_request \<Rightarrow> bool" where
  "trusted c sr r = (case pr_op r of
     Webhook p s \<Rightarrow> (case c_stripe_webhook_secret c of None \<Rightarrow> False | Some secret \<Rightarrow> sr_event sr (pr_now r) p (or_empty s) secret \<noteq> None)
   | _ \<Rightarrow> False)"

lemma save_org_keeps:
  assumes "P (others 0 st)"
    and "\<And>s. s = others 0 st \<Longrightarrow> P (s\<lparr>t_orgs := upd_where (\<lambda>g. o_id g = o_id loaded) (merge_org loaded new) (t_orgs s)\<rparr>)"
  shows "P (snd (save_org others loaded new st))"
  using assms by (simp add: save_org_def Let_def)

lemma merge_customer:
  "merge_org g (g\<lparr>o_stripe_customer_id := cid\<rparr>) r = r\<lparr>o_stripe_customer_id := written (o_stripe_customer_id g) cid (o_stripe_customer_id r)\<rparr>"
  by (simp add: merge_org_def written_def)

lemma checkout_keeps:
  assumes "P st" and "P (others 0 st)"
    and "\<And>s p f. P s \<Longrightarrow> P (s\<lparr>t_orgs := upd_where p (\<lambda>r. r\<lparr>o_stripe_customer_id := f r\<rparr>) (t_orgs s)\<rparr>)"
  shows "P (snd (start_checkout c sr others plan current org st))"
proof -
  have save: "P (snd (save_org others g (g\<lparr>o_stripe_customer_id := cid\<rparr>) st))" for g cid
    by (rule save_org_keeps) (simp_all add: assms(2,3) merge_customer [abs_def])
  have cust: "P (snd (stripe_customer sr others g current st))" for g
    unfolding stripe_customer_def
    by (auto simp: assms(1) guardr_def snd_bindr intro!: save split: sum.splits)
  show ?thesis
    unfolding start_checkout_def
    by (intro guardr_keeps [where P = P] bindr_keeps [where P = P] assms(1) cust) (auto split: sum.splits)
qed

lemma terms_customer:
  "terms (s\<lparr>t_orgs := upd_where p (\<lambda>r. r\<lparr>o_stripe_customer_id := f r\<rparr>) (t_orgs s)\<rparr>) = terms s"
  by (simp add: terms_def map_upd_where terms_of_def)

lemma plans_known_merge:
  assumes "plans_known s" and "o_plan new \<in> set plan_keys"
  shows "plans_known (s\<lparr>t_orgs := upd_where p (merge_org loaded new) (t_orgs s)\<rparr>)"
  using assms by (auto simp: plans_known_def in_upd_where merge_org_def written_def)

lemma org_for_stripe_in:
  assumes "org_for_stripe obj st = Inr (Some g)"
  shows "g \<in> set (t_orgs st)"
proof (cases "Option.bind (text_of (dict_get obj ''customer'')) (\<lambda>cid. first_where (\<lambda>g. o_stripe_customer_id g = Some cid) (t_orgs st))")
  case None
  then show ?thesis
    using assms by (auto simp: org_for_stripe_def split: option.splits if_splits elim!: sbind_InrE dest!: get_org_SomeD)
next
  case (Some h)
  then have "h \<in> set (t_orgs st)" by (auto simp: Option.bind_eq_Some_conv dest!: find_SomeD)
  then show ?thesis using assms Some by (simp add: org_for_stripe_def)
qed

lemma plan_for_price_known: "plan_for_price c price = Some p \<Longrightarrow> p \<in> set plan_keys"
  by (auto simp: plan_for_price_def STRIPE_PRICE_IDS_def plan_keys_def PLANS_def split: option.splits if_splits)

lemma subscription_plan:
  "subscription_from c x obj = Inr (Some s) \<Longrightarrow> sub_plan s = Some p \<Longrightarrow> p \<in> set plan_keys"
  by (auto simp: subscription_from_def Let_def split: option.splits elim!: sbind_InrE dest: plan_for_price_known)

lemma after_event_plan:
  assumes "after_event c x e g = Inr (Some g')" and "o_plan g \<in> set plan_keys"
  shows "o_plan g' \<in> set plan_keys"
  using assms subscription_plan
  by (auto simp: after_event_def after_checkout_def after_update_def after_deletion_def split: if_splits option.splits
      elim!: sbind_InrE) (auto simp: plan_keys_def PLANS_def)

lemma event_keeps_plans:
  assumes "plans_known st" and "plans_known (others 0 st)"
  shows "plans_known (snd (handle_event c x others e st))"
proof -
  have save: "plans_known (snd (save_org others g g' st))"
    if "org_for_stripe (se_object e) st = Inr (Some g)" and "after_event c x e g = Inr (Some g')" for g g'
  proof (rule save_org_keeps [where P = plans_known and others = others, OF assms(2)])
    fix s
    assume "s = others 0 st"
    moreover have "o_plan g' \<in> set plan_keys"
      using after_event_plan [OF that(2)] org_for_stripe_in [OF that(1)] assms(1) by (simp add: plans_known_def)
    ultimately show "plans_known (s\<lparr>t_orgs := upd_where (\<lambda>h. o_id h = o_id g) (merge_org g g') (t_orgs s)\<rparr>)"
      using assms(2) by (intro plans_known_merge) simp_all
  qed
  show ?thesis
    unfolding handle_event_def
    by (intro guardr_keeps [where P = plans_known] assms(1))
      (auto simp: assms(1) guardr_def snd_bindr save split: option.splits sum.splits)
qed

lemma perform_payment_terms:
  assumes "\<not> trusted c sr r" and "terms (pr_others r 0 st) = terms st"
  shows "terms (perform_payment c x sr r st) = terms st"
proof (cases "pr_op r")
  case (Checkout plan current org)
  show ?thesis
    unfolding perform_payment_def Checkout payment_op.case
    by (rule checkout_keeps [where P = "\<lambda>s. terms s = terms st"]) (simp_all add: assms(2) terms_customer)
next
  case (Portal org)
  then show ?thesis by (simp add: perform_payment_def)
next
  case (Webhook p s)
  then obtain err where "parse_event c sr (pr_now r) p s = Inl err" using assms(1) by (auto simp: trusted_def parse_event_def split: option.splits)
  then show ?thesis using Webhook by (simp add: perform_payment_def stripe_webhook_def)
qed

lemma perform_payment_plans:
  assumes "plans_known st" and "plans_known (pr_others r 0 st)"
  shows "plans_known (perform_payment c x sr r st)"
proof (cases "pr_op r")
  case (Checkout plan current org)
  have "plans_known (s\<lparr>t_orgs := upd_where p (\<lambda>r. r\<lparr>o_stripe_customer_id := f r\<rparr>) (t_orgs s)\<rparr>)" if "plans_known s" for s p f
    using that by (auto simp: plans_known_def in_upd_where)
  then show ?thesis
    unfolding perform_payment_def Checkout payment_op.case by (intro checkout_keeps [where P = plans_known] assms) blast
next
  case (Portal org)
  then show ?thesis using assms(1) by (simp add: perform_payment_def)
next
  case (Webhook p s)
  then show ?thesis
    using event_keeps_plans [where others = "pr_others r", OF assms]
    by (auto simp: perform_payment_def stripe_webhook_def guardr_def assms(1) split: sum.splits)
qed

text \<open>
  C15. Nothing but an event that Stripe signed moves an organisation on or off a plan: whatever checkouts are begun, portals
  opened and webhooks forged, every organisation keeps its plan, its status, its subscription and its
  period; and whatever is signed, no organisation is ever on a plan that is not sold.
\<close>

theorem only_signed_events_move_plans:
  assumes "plans_known st" and "list_all (\<lambda>r. (\<forall>s. terms (pr_others r 0 s) = terms s)) rs"
  shows "plans_known (fold (perform_payment c x sr) rs st) \<and>
    (list_all (\<lambda>r. \<not> trusted c sr r) rs \<longrightarrow> terms (fold (perform_payment c x sr) rs st) = terms st)"
proof -
  have same: "plans_known s' = plans_known s" if "terms s' = terms s" for s s'
  proof -
    have "plans_known s = list_all (\<lambda>t. fst (snd t) \<in> set plan_keys) (terms s)" for s
      by (auto simp: plans_known_def terms_def terms_of_def list_all_iff)
    then show ?thesis using that by simp
  qed
  have known: "plans_known (fold (perform_payment c x sr) rs st)"
    using assms
  proof (induction rs arbitrary: st)
    case Nil
    then show ?case by simp
  next
    case (Cons r rs)
    have "plans_known (pr_others r 0 st)" using Cons.prems same [of "pr_others r 0 st" st] by simp
    then show ?case using Cons perform_payment_plans [of st r] by simp
  qed
  have "terms (fold (perform_payment c x sr) rs st) = terms st" if "list_all (\<lambda>r. \<not> trusted c sr r) rs"
    using that assms(2)
  proof (induction rs arbitrary: st)
    case Nil
    then show ?case by simp
  next
    case (Cons r rs)
    then show ?case using perform_payment_terms [of c sr r st x] by simp
  qed
  with known show ?thesis by blast
qed

subsection \<open>An event may be delivered again\<close>

definition steady :: "stripe_event \<Rightarrow> organization \<Rightarrow> organization \<Rightarrow> bool" where
  "steady e g g' = (o_id g' = o_id g \<and> merge_org g g' g = g' \<and>
     (o_stripe_customer_id g' = o_stripe_customer_id g \<or>
      text_of (dict_get (se_object e) ''customer'') \<noteq> None \<and> o_stripe_customer_id g' = text_of (dict_get (se_object e) ''customer'')))"

lemma steady_checkout: "steady e g (after_checkout (se_object e) g)"
  by (auto simp: steady_def after_checkout_def merge_org_def written_def split: option.split)

lemma steady_update: "steady e g (after_update s g)"
  by (simp add: steady_def after_update_def merge_org_def written_def)

lemma steady_deletion: "steady e g (after_deletion g)"
  by (simp add: steady_def after_deletion_def merge_org_def written_def)

lemma after_idem:
  "after_checkout obj (after_checkout obj g) = after_checkout obj g" "after_update s (after_update s g) = after_update s g"
  "after_deletion (after_deletion g) = after_deletion g"
  by (simp_all add: after_checkout_def after_update_def after_deletion_def split: option.split)

lemma after_event_cases:
  assumes "after_event c x e g = Inr (Some g')"
  shows "steady e g g' \<and> after_event c x e g' = Inr (Some g')"
proof -
  consider (checkout) "se_type e = ''checkout.session.completed''"
    | (update) "se_type e \<noteq> ''checkout.session.completed''" "se_type e \<in> {''customer.subscription.created'', ''customer.subscription.updated''}"
    | (deletion) "se_type e = ''customer.subscription.deleted''"
    using assms by (auto simp: after_event_def split: if_splits)
  then show ?thesis
  proof cases
    case checkout
    then show ?thesis using assms steady_checkout by (auto simp: after_event_def after_idem)
  next
    case update
    then have e: "after_event c x e h = sbind (if se_object e = [] then Inr None else subscription_from c x (se_object e))
        (\<lambda>s. Inr (map_option (\<lambda>s. after_update s h) s))" for h by (auto simp: after_event_def)
    obtain s where s: "(if se_object e = [] then Inr None else subscription_from c x (se_object e)) = Inr (Some s)" "g' = after_update s g"
      using assms unfolding e by (auto elim!: sbind_InrE)
    then show ?thesis unfolding e s(1) by (simp add: after_idem steady_update)
  next
    case deletion
    then have "g' = after_deletion g" using assms by (auto simp: after_event_def split: if_splits)
    moreover have "after_event c x e (after_deletion g) = Inr (Some (after_deletion g))"
      using deletion by (simp add: after_event_def or_empty_def after_idem after_deletion_def [of g])
        (simp add: after_deletion_def)
    ultimately show ?thesis by (simp add: steady_deletion)
  qed
qed

lemma found_again:
  assumes u: "unique_key o_id (t_orgs st)" and g: "org_for_stripe obj st = Inr (Some g)"
    and id: "o_id g' = o_id g"
    and c: "o_stripe_customer_id g' = o_stripe_customer_id g \<or>
      text_of (dict_get obj ''customer'') \<noteq> None \<and> o_stripe_customer_id g' = text_of (dict_get obj ''customer'')"
    and st': "st' = st\<lparr>t_orgs := upd_where (\<lambda>h. o_id h = o_id g) (\<lambda>_. g') (t_orgs st)\<rparr>"
  shows "org_for_stripe obj st' = Inr (Some g')"
proof -
  note mem = org_for_stripe_in [OF g]
  have only: "h = g" if "h \<in> set (t_orgs st)" "o_id h = o_id g" for h using unique_keyD [OF u that(1) mem that(2)] .
  define byc :: "store \<Rightarrow> organization option" where "byc = (\<lambda>s. Option.bind (text_of (dict_get obj ''customer''))
      (\<lambda>cid. first_where (\<lambda>g. o_stripe_customer_id g = Some cid) (t_orgs s)))"
  have un: "org_for_stripe obj s = (case byc s of Some g \<Rightarrow> Inr (Some g)
      | None \<Rightarrow> sbind (sub_get (dict_get obj ''metadata'') ''org_id'') (\<lambda>m.
           case text_of (if truthy m then m else dict_get obj ''client_reference_id'') of
             None \<Rightarrow> Inr None
           | Some raw \<Rightarrow>
               if py_isdigit raw
               then (case py_int raw of None \<Rightarrow> Inl (ValueError ''invalid literal for int()'') | Some i \<Rightarrow> Inr (get_org i s))
               else Inr None))" for s
    by (simp add: org_for_stripe_def byc_def)
  have ups: "upd_where (\<lambda>h. o_id h = o_id g) (\<lambda>_. g') (t_orgs st) = map (\<lambda>h. if h = g then g' else h) (t_orgs st)"
    unfolding upd_where_def by (intro map_cong refl) (use only in auto)
  have first: "first_where q (map (\<lambda>h. if h = g then g' else h) t) = map_option (\<lambda>h. if h = g then g' else h) (first_where q t)"
    if "q g' = q g" for q and t :: "organization list"
    using that by (induction t) auto
  show ?thesis
  proof (cases "byc st")
    case (Some h)
    then have h: "h = g" using g un [of st] by simp
    obtain cid where cid: "text_of (dict_get obj ''customer'') = Some cid" using Some by (auto simp: byc_def Option.bind_eq_Some_conv)
    then have f: "first_where (\<lambda>g. o_stripe_customer_id g = Some cid) (t_orgs st) = Some g" using Some h by (simp add: byc_def)
    then have "o_stripe_customer_id g = Some cid" by (auto dest: find_SomeD)
    then have "o_stripe_customer_id g' = Some cid" using c cid by auto
    then have "byc st' = Some g'"
      using f \<open>o_stripe_customer_id g = Some cid\<close> by (simp add: byc_def cid st' ups first)
    then show ?thesis by (simp add: un)
  next
    case None
    have byc': "byc st' = None \<or> byc st' = Some g'"
    proof (cases "text_of (dict_get obj ''customer'')")
      case (Some cid)
      have "first_where (\<lambda>h. o_stripe_customer_id h = Some cid) (t_orgs st) = None" using None Some by (simp add: byc_def)
      then have "o_stripe_customer_id h \<noteq> Some cid" if "h \<in> set (t_orgs st)" for h
        using that by (auto simp: find_None_iff')
      then have "first_where (\<lambda>h. o_stripe_customer_id h = Some cid) (map (\<lambda>h. if h = g then g' else h) t) \<in> {None, Some g'}"
        if "set t \<subseteq> set (t_orgs st)" for t
        using that by (induction t) auto
      then show ?thesis by (auto simp: byc_def Some st' ups)
    qed (simp add: byc_def)
    have "get_org i st' = Some g'" if "get_org i st = Some g" for i
    proof -
      have "o_id g = Some i" using get_org_SomeD [OF that] by simp
      then show ?thesis using that id by (simp add: get_org_def st' find_upd_where)
    qed
    then have "org_for_stripe obj st' = Inr (Some g')" if "byc st' = None"
      using g that None unfolding un by (auto split: option.splits if_splits elim!: sbind_InrE)
    then show ?thesis using byc' by (auto simp: un)
  qed
qed

lemma save_alone:
  assumes "g \<in> set (t_orgs st)" and "unique_key o_id (t_orgs st)" and "merge_org g g' g = g'"
  shows "save_org alone g g' st = (Inr (), st\<lparr>t_orgs := upd_where (\<lambda>h. o_id h = o_id g) (\<lambda>_. g') (t_orgs st)\<rparr>)"
proof -
  have m: "upd_where (\<lambda>h. o_id h = o_id g) (merge_org g g') (t_orgs st) = upd_where (\<lambda>h. o_id h = o_id g) (\<lambda>_. g') (t_orgs st)"
    unfolding upd_where_def
    by (intro map_cong refl) (use unique_keyD [OF assms(2) _ assms(1)] assms(3) in auto)
  show ?thesis
  proof (cases "g' = g")
    case True
    have "upd_where (\<lambda>h. o_id h = o_id g) (\<lambda>_. g) (t_orgs st) = t_orgs st"
      unfolding upd_where_def by (rule map_idI) (use unique_keyD [OF assms(2) _ assms(1)] in auto)
    then show ?thesis using True by (simp add: save_org_def alone_simp)
  next
    case False
    then show ?thesis using assms(1) by (auto simp: save_org_def alone_simp Let_def exists_where_iff m)
  qed
qed

text \<open>What an event can read or write of an organisation.\<close>

definition billing_of :: "organization \<Rightarrow> int option \<times> string option \<times> string \<times> string \<times> string option \<times> instant option" where
  "billing_of g = (o_id g, o_stripe_customer_id g, o_plan g, o_plan_status g, o_stripe_subscription_id g, o_current_period_end g)"

lemma first_where_related:
  assumes "map f xs = map f ys" and "\<And>x y. f x = f y \<Longrightarrow> p x = p y"
  shows "map_option f (first_where p xs) = map_option f (first_where p ys)"
  using assms(1)
proof (induction xs arbitrary: ys)
  case (Cons x xs)
  then obtain y zs where ys: "ys = y # zs" "f x = f y" "map f xs = map f zs" by (cases ys) auto
  then show ?case using Cons.IH [OF ys(3)] assms(2) [OF ys(2)] by simp
qed simp

lemma org_for_stripe_related:
  assumes "map billing_of (t_orgs st2) = map billing_of (t_orgs st1)"
  shows "map_sum id (map_option billing_of) (org_for_stripe obj st2) =
    map_sum id (map_option billing_of) (org_for_stripe obj st1)"
proof -
  have byc: "map_option billing_of (first_where (\<lambda>g. o_stripe_customer_id g = k) (t_orgs st2)) =
      map_option billing_of (first_where (\<lambda>g. o_stripe_customer_id g = k) (t_orgs st1))" for k
    by (rule first_where_related [OF assms]) (simp add: billing_of_def)
  have byi: "map_option billing_of (get_org i st2) = map_option billing_of (get_org i st1)" for i
    unfolding get_org_def by (rule first_where_related [OF assms]) (simp add: billing_of_def)
  let ?ref = "\<lambda>s. sbind (sub_get (dict_get obj ''metadata'') ''org_id'') (\<lambda>m.
           case text_of (if truthy m then m else dict_get obj ''client_reference_id'') of
             None \<Rightarrow> Inr None
           | Some raw \<Rightarrow>
               if py_isdigit raw
               then (case py_int raw of None \<Rightarrow> Inl (ValueError ''invalid literal for int()'') | Some i \<Rightarrow> Inr (get_org i s))
               else Inr None)"
  have ref: "map_sum id (map_option billing_of) (?ref st2) = map_sum id (map_option billing_of) (?ref st1)"
    by (simp add: sbind_def byi split: sum.split option.split)
  show ?thesis
  proof (cases "text_of (dict_get obj ''customer'')")
    case None
    then show ?thesis using ref by (simp add: org_for_stripe_def)
  next
    case (Some k)
    then show ?thesis
      using ref byc [of "Some k"] by (auto simp: org_for_stripe_def split: option.splits)
  qed
qed

lemma after_unchanged:
  "after_checkout obj g = g \<longleftrightarrow> (\<forall>i. text_of (dict_get obj ''customer'') = Some i \<longrightarrow> o_stripe_customer_id g = Some i) \<and>
     (\<forall>i. text_of (dict_get obj ''subscription'') = Some i \<longrightarrow> o_stripe_subscription_id g = Some i)"
  "after_update s g = g \<longleftrightarrow> o_stripe_subscription_id g = Some (sub_id s) \<and> o_plan_status g = sub_status s \<and>
     o_current_period_end g = sub_current_period_end s \<and> (\<forall>p. sub_plan s = Some p \<longrightarrow> o_plan g = p)"
  "after_deletion g = g \<longleftrightarrow> o_plan g = ''free'' \<and> o_plan_status g = ''canceled'' \<and> o_stripe_subscription_id g = None \<and>
     o_current_period_end g = None"
  by (cases g, auto simp: after_checkout_def after_update_def after_deletion_def split: option.splits)+

lemma after_event_related:
  assumes "billing_of h = billing_of g"
  shows "after_event c x e g = Inl err \<Longrightarrow> after_event c x e h = Inl err"
    and "after_event c x e g = Inr None \<Longrightarrow> after_event c x e h = Inr None"
    and "after_event c x e g = Inr (Some g) \<Longrightarrow> after_event c x e h = Inr (Some h)"
proof -
  have same: "o_stripe_customer_id h = o_stripe_customer_id g" "o_stripe_subscription_id h = o_stripe_subscription_id g"
    "o_plan h = o_plan g" "o_plan_status h = o_plan_status g" "o_current_period_end h = o_current_period_end g"
    using assms by (simp_all add: billing_of_def)
  have upd: "(sbind r (\<lambda>s. Inr (map_option (\<lambda>s. after_update s h) s)) =
      (case r of Inl err \<Rightarrow> Inl err | Inr None \<Rightarrow> Inr None | Inr (Some s) \<Rightarrow> Inr (Some (after_update s h))))" for r h
    by (simp add: sbind_def split: sum.split option.split)
  show "after_event c x e g = Inl err \<Longrightarrow> after_event c x e h = Inl err"
    and "after_event c x e g = Inr None \<Longrightarrow> after_event c x e h = Inr None"
    unfolding after_event_def upd same by (auto split: if_splits sum.splits option.splits)
  show "after_event c x e g = Inr (Some g) \<Longrightarrow> after_event c x e h = Inr (Some h)"
    unfolding after_event_def upd
    by (auto simp: after_unchanged same split: if_splits sum.splits option.splits)
qed

text \<open>
  C16. Stripe may deliver an event any number of times, signed anew and with other requests in between. An event that is accepted
  again, at whatever time and under whatever signature, is answered as the first time and changes nothing, as long as
  the organisations stand, in the columns that events are about, as the first delivery left them; whatever
  else of them or of the rest of the store has changed. (An event overtaken by another one for its
  organisation is not covered: see \<open>late_update_revives\<close>.) A delivery that is not accepted, its signature being too old for
  instance, is refused and changes nothing either.
\<close>

theorem webhook_redelivered:
  assumes "unique_key o_id (t_orgs st)" and "parse_event c sr now payload_text signature = Inr e"
    and "stripe_webhook c x sr alone now payload_text signature st = (reply, st1)"
    and "map billing_of (t_orgs st2) = map billing_of (t_orgs st1)"
  shows "case parse_event c sr later payload_text2 signature2 of
      Inl err \<Rightarrow> stripe_webhook c x sr alone later payload_text2 signature2 st2 = (Inl err, st2)
    | Inr e2 \<Rightarrow> e2 = e \<longrightarrow> stripe_webhook c x sr alone later payload_text2 signature2 st2 = (reply, st2)"
proof -
  have h: "handle_event c x alone e st = (reply, st1)" using assms(2,3) by (simp add: stripe_webhook_def)
  have "handle_event c x alone e st2 = (reply, st2)"
  proof (cases "\<exists>g g'. org_for_stripe (se_object e) st = Inr (Some g) \<and> after_event c x e g = Inr (Some g')")
    case False
    then have "st1 = st"
      using h by (auto simp: handle_event_def guardr_def split: sum.splits option.splits)
    then have o: "map billing_of (t_orgs st2) = map billing_of (t_orgs st)" using assms(4) by simp
    show ?thesis
    proof (cases "org_for_stripe (se_object e) st")
      case (Inl err)
      then have "org_for_stripe (se_object e) st2 = Inl err"
        using org_for_stripe_related [OF o, of "se_object e"] by (cases "org_for_stripe (se_object e) st2") auto
      then show ?thesis using h Inl by (simp add: handle_event_def)
    next
      case (Inr found)
      show ?thesis
      proof (cases found)
        case None
        then have "org_for_stripe (se_object e) st2 = Inr None"
          using org_for_stripe_related [OF o, of "se_object e"] Inr by (cases "org_for_stripe (se_object e) st2") auto
        then show ?thesis using h Inr None by (simp add: handle_event_def)
      next
        case (Some g)
        then obtain k where k: "org_for_stripe (se_object e) st2 = Inr (Some k)" "billing_of k = billing_of g"
          using org_for_stripe_related [OF o, of "se_object e"] Inr by (cases "org_for_stripe (se_object e) st2") auto
        have "(\<exists>err. after_event c x e g = Inl err) \<or> after_event c x e g = Inr None"
          using False Inr Some by (cases "after_event c x e g") (auto simp: not_Some_eq [symmetric] simp del: not_Some_eq)
        then show ?thesis
          using h Inr Some k after_event_related(1,2) [OF k(2), of c x e] by (auto simp: handle_event_def)
      qed
    qed
  next
    case True
    then obtain g g' where g: "org_for_stripe (se_object e) st = Inr (Some g)" and g': "after_event c x e g = Inr (Some g')" by blast
    note a = after_event_cases [OF g']
    then have m: "merge_org g g' g = g'" by (simp add: steady_def)
    note save = save_alone [OF org_for_stripe_in [OF g] assms(1) m]
    have st1: "st1 = st\<lparr>t_orgs := upd_where (\<lambda>h. o_id h = o_id g) (\<lambda>_. g') (t_orgs st)\<rparr>" and r: "reply = Inr Handled"
      using h by (auto simp: handle_event_def g g' save)
    have "org_for_stripe (se_object e) st1 = Inr (Some g')"
      using found_again [OF assms(1) g _ _ st1] a by (simp add: steady_def)
    then obtain k where k: "org_for_stripe (se_object e) st2 = Inr (Some k)" "billing_of k = billing_of g'"
      using org_for_stripe_related [OF assms(4), of "se_object e"] by (cases "org_for_stripe (se_object e) st2") auto
    then have "after_event c x e k = Inr (Some k)"
      using after_event_related(3) [OF k(2), of c x e] a by simp
    then show ?thesis using r k(1) by (simp add: handle_event_def save_org_def alone_simp)
  qed
  then show ?thesis by (simp add: stripe_webhook_def guardr_def split: sum.split)
qed

subsection \<open>Concrete events\<close>

definition sold_settings :: settings where
  "sold_settings = default_settings\<lparr>c_stripe_secret_key := Some ''sk'', c_stripe_webhook_secret := Some ''wh'',
     c_stripe_price_starter := Some ''p1''\<rparr>"

text \<open>A Stripe whose payloads name the event: the type, a space and the id of the subscription.\<close>

definition example_object :: "string \<Rightarrow> (string \<times> json) list" where
  "example_object sid = [(''id'', JStr sid), (''customer'', JStr ''cus''), (''subscription'', JStr sid), (''status'', JStr ''active''),
     (''client_reference_id'', JStr ''1''),
     (''items'', JObj [(''data'', JList [JObj [(''price'', JObj [(''id'', JStr ''p1'')])]])])]"

definition example_stripe :: stripe where
  "example_stripe = \<lparr>sr_customer = \<lambda>_. Inr ''cus'', sr_checkout = \<lambda>_. Inr ''url'', sr_portal = \<lambda>_. Inr ''url'',
     sr_event = \<lambda>now text signature secret. if signature = secret \<and> now < 100
       then (case py_partition (CHR '' '') text of (t, _, sid) \<Rightarrow> Some \<lparr>se_type = t, se_object = example_object sid\<rparr>) else None\<rparr>"

definition delivered :: "string \<Rightarrow> string \<Rightarrow> payment_request" where
  "delivered text signature = \<lparr>pr_others = alone, pr_now = 0, pr_op = Webhook text (Some signature)\<rparr>"

definition buyer :: interviewer where
  "buyer = \<lparr>iv_id = 1, iv_email = ''a@b'', iv_password_hash = ''h'', iv_name = ''A'', iv_token_version = 0, iv_email_verified_at = None\<rparr>"

definition bought :: payment_request where
  "bought = \<lparr>pr_others = alone, pr_now = 0, pr_op = Checkout ''starter'' buyer example_admin\<rparr>"

definition free_store :: store where
  "free_store = empty_store\<lparr>t_orgs := [org_named 1 ''Acme'']\<rparr>"

definition after_payments :: "payment_request list \<Rightarrow> store" where
  "after_payments rs = fold (perform_payment sold_settings example_externals example_stripe) rs free_store"

lemma only_signed_events_move_plans_witness:
  "terms (after_payments [bought, delivered ''customer.subscription.updated s1'' ''forged'']) = terms free_store \<and>
   plans_known (after_payments [bought, delivered ''customer.subscription.updated s1'' ''wh''])"
proof
  have k: "plans_known free_store" by (simp add: plans_known_def free_store_def org_named_def plan_keys_def PLANS_def)
  have o: "list_all (\<lambda>r. \<forall>s. terms (pr_others r 0 s) = terms s) [bought, delivered t s]" for t s
    by (simp add: bought_def delivered_def alone_simp)
  have "list_all (\<lambda>r. \<not> trusted sold_settings example_stripe r) [bought, delivered ''customer.subscription.updated s1'' ''forged'']"
    by (simp add: trusted_def bought_def delivered_def parse_event_def sold_settings_def example_stripe_def or_empty_def)
  then show "terms (after_payments [bought, delivered ''customer.subscription.updated s1'' ''forged'']) = terms free_store"
    unfolding after_payments_def using only_signed_events_move_plans [OF k o] by blast
  show "plans_known (after_payments [bought, delivered ''customer.subscription.updated s1'' ''wh''])"
    unfolding after_payments_def using only_signed_events_move_plans [OF k o] by blast
qed

text \<open>The same event under two signatures, at two times, with the organisation renamed in between.\<close>

lemma webhook_redelivered_witness:
  "\<exists>reply st1. stripe_webhook sold_settings example_externals example_stripe alone 5 ''customer.subscription.updated s1'' (Some ''wh'') free_store =
       (reply, st1) \<and> map o_plan (t_orgs st1) = [''starter''] \<and>
     stripe_webhook sold_settings example_externals example_stripe alone 50 ''customer.subscription.updated s1'' (Some ''wh'')
       (st1\<lparr>t_orgs := map (\<lambda>g. g\<lparr>o_name := ''New''\<rparr>) (t_orgs st1)\<rparr>) = (reply, st1\<lparr>t_orgs := map (\<lambda>g. g\<lparr>o_name := ''New''\<rparr>) (t_orgs st1)\<rparr>)"
proof -
  let ?p = "''customer.subscription.updated s1''"
  let ?r = "stripe_webhook sold_settings example_externals example_stripe alone 5 ?p (Some ''wh'') free_store"
  let ?st2 = "(snd ?r)\<lparr>t_orgs := map (\<lambda>g. g\<lparr>o_name := ''New''\<rparr>) (t_orgs (snd ?r))\<rparr>"
  have p: "map o_plan (t_orgs (snd ?r)) = [''starter'']" by code_simp
  have u: "unique_key o_id (t_orgs free_store)" by (simp add: free_store_def unique_key_def)
  have "\<exists>e. parse_event sold_settings example_stripe 5 ?p (Some ''wh'') = Inr e \<and> parse_event sold_settings example_stripe 50 ?p (Some ''wh'') = Inr e"
    by (simp add: parse_event_def example_stripe_def sold_settings_def or_empty_def split: prod.split)
  then obtain e where e: "parse_event sold_settings example_stripe 5 ?p (Some ''wh'') = Inr e"
    "parse_event sold_settings example_stripe 50 ?p (Some ''wh'') = Inr e" by blast
  have o: "map billing_of (t_orgs ?st2) = map billing_of (t_orgs (snd ?r))" by (simp add: billing_of_def comp_def)
  have "?r = (fst ?r, snd ?r)" by simp
  from webhook_redelivered [OF u e(1) this o, of 50 ?p "Some ''wh''"] e(2) p show ?thesis
    by (intro exI [of _ "fst ?r"] exI [of _ "snd ?r"]) simp
qed

subsection \<open>Events overtaken by others\<close>

text \<open>
  The code drops a cancellation of a subscription that is no longer the current one, because webhooks are not
  ordered. An update has no such guard: one that is overtaken by the cancellation of its own subscription puts the organisation
  back on the paid plan, with nothing left that would end it.
\<close>

lemma late_update_revives:
  "map (\<lambda>g. p_key (plan_for g)) (t_orgs (after_payments
     [delivered ''customer.subscription.created s1'' ''wh'', delivered ''customer.subscription.deleted s1'' ''wh'',
      delivered ''customer.subscription.updated s1'' ''wh''])) = [''starter'']"
  by code_simp

text \<open>
  The guard of a second checkout looks at the subscription the webhook stored. Two checkouts that are open before
  either is paid both pass it, and the completion of the second overwrites the first subscription, whose later
  cancellation is ignored as stale and which the deletion of the organisation does not cancel.
\<close>

lemma two_open_checkouts:
  "is_ok (start_checkout sold_settings example_stripe alone ''starter'' buyer example_admin (after_payments [bought]))"
  "map o_stripe_subscription_id (t_orgs (after_payments [bought, bought, delivered ''checkout.session.completed s1'' ''wh'',
     delivered ''checkout.session.completed s2'' ''wh''])) = [Some ''s2'']"
  "cancelled_by_purge sold_settings 1 (after_payments [bought, bought, delivered ''checkout.session.completed s1'' ''wh'',
     delivered ''checkout.session.completed s2'' ''wh'']) = Some ''s2''"
  subgoal by code_simp
  subgoal by code_simp
  by code_simp

end
