(* ===== verification/Observability.thy ===== *)
theory Observability
  imports Access
begin

section \<open>Observability: request ids, log lines, error reports\<close>

text \<open>
  \<open>observability.py\<close> without its metrics, and the middleware of \<open>api.py\<close>. A log record is its \<open>__dict__\<close>, as JSON
  values; an error report is the JSON object that Sentry's SDK hands to \<open>before_send\<close>. The ids minted by \<open>uuid4\<close> are an
  argument, and \<open>float\<close> of a setting is a parameter.
\<close>

record ops_settings =
  op_log_pii :: bool
  op_log_level :: string
  op_log_format :: string
  op_max_body_bytes :: int
  op_sentry_dsn :: string
  op_sentry_environment :: string
  op_sentry_release :: "string option"
  op_sentry_traces_rate :: rat
  op_metrics_window_s :: int
  op_metrics_max_samples :: int

definition py_upper :: "string \<Rightarrow> string" where
  "py_upper s = map (\<lambda>ch. if 97 \<le> code ch \<and> code ch \<le> 122 then char_of (code ch - 32) else ch) s"

definition load_ops :: "environ \<Rightarrow> (string \<Rightarrow> exn + rat) \<Rightarrow> exn + ops_settings" where
  "load_ops env float_of =
     sbind (getenv_int env ''MAX_BODY_BYTES'' ''16777216'') (\<lambda>max_body.
     sbind (float_of (getenv env ''SENTRY_TRACES_SAMPLE_RATE'' ''0'')) (\<lambda>rate.
     sbind (getenv_int env ''METRICS_WINDOW_S'' ''86400'') (\<lambda>window.
     sbind (getenv_int env ''METRICS_MAX_SAMPLES'' ''5000'') (\<lambda>samples.
     Inr \<lparr>op_log_pii = flag_set env ''LOG_PII'' [], op_log_level = py_upper (getenv env ''LOG_LEVEL'' ''INFO''),
          op_log_format = py_lower (getenv env ''LOG_FORMAT'' ''text''), op_max_body_bytes = max_body,
          op_sentry_dsn = getenv env ''SENTRY_DSN'' [], op_sentry_environment = getenv env ''SENTRY_ENVIRONMENT'' ''production'',
          op_sentry_release = getenv_or_none env ''SENTRY_RELEASE'', op_sentry_traces_rate = rate,
          op_metrics_window_s = window, op_metrics_max_samples = samples\<rparr>))))"

subsection \<open>Request ids\<close>

definition REQUEST_ID_HEADER :: string where "REQUEST_ID_HEADER = ''X-Request-Id''"

definition NO_REQUEST_ID :: string where "NO_REQUEST_ID = ''-''"

definition id_char :: "char \<Rightarrow> bool" where
  "id_char ch = (let n = code ch in 65 \<le> n \<and> n \<le> 90 \<or> 97 \<le> n \<and> n \<le> 122 \<or> 48 \<le> n \<and> n \<le> 57 \<or> n = 95 \<or> n = 45)"

definition id_body :: "string \<Rightarrow> bool" where
  "id_body s = (1 \<le> length s \<and> length s \<le> 64 \<and> list_all id_char s)"

text \<open>\<open>re.match\<close> of \<open>^[A-Za-z0-9_-]{1,64}$\<close>: the dollar also matches before a line feed at the end.\<close>

definition id_pattern :: "string \<Rightarrow> bool" where
  "id_pattern s = (id_body s \<or> s \<noteq> [] \<and> last s = CHR 0x0A \<and> id_body (butlast s))"

definition adopt_request_id :: "string option \<Rightarrow> string \<Rightarrow> string" where
  "adopt_request_id inbound minted = (case inbound of
     None \<Rightarrow> minted | Some i \<Rightarrow> if i \<noteq> [] \<and> id_pattern i then i else minted)"

subsection \<open>Redaction\<close>

definition segment_char :: "char \<Rightarrow> bool" where
  "segment_char ch = (ch \<noteq> CHR ''/'' \<and> ch \<noteq> CHR ''?'')"

definition redacted :: string where "redacted = ''<redacted>''"

text \<open>\<open>_TOKEN_IN_PATH.sub\<close>: from the left, without overlaps.\<close>

function redact_path :: "string \<Rightarrow> string" where
  "redact_path [] = []"
| "redact_path (c # cs) =
     (if startswith (c # cs) ''/invite/'' \<and> takeWhile segment_char (drop 7 cs) \<noteq> []
      then ''/invite/'' @ redacted @ redact_path (dropWhile segment_char (drop 7 cs))
      else c # redact_path cs)"
  by pat_completeness auto
termination
proof (relation "measure length")
  fix c :: char and cs :: string
  have "length (dropWhile segment_char (drop 7 cs)) \<le> length cs"
    using length_dropWhile_le [of segment_char "drop 7 cs"] by simp
  then show "(dropWhile segment_char (drop 7 cs), c # cs) \<in> measure length" by simp
qed simp_all

definition redact_url :: "string \<Rightarrow> string" where
  "redact_url url = (case py_partition (CHR ''?'') url of
     (path, found, _) \<Rightarrow> redact_path path @ (if found then CHR ''?'' # redacted else []))"

text \<open>
  The arguments of a record: \<open>None\<close> when they are not a tuple, \<open>Inr\<close> for one that is a string. The filter
  always lets the record pass.
\<close>

definition query_string_filter :: "bool \<Rightarrow> ('a + string) list option \<Rightarrow> ('a + string) list option" where
  "query_string_filter log_pii args =
    (if log_pii then args
     else case args of
       None \<Rightarrow> None
     | Some as \<Rightarrow>
         if length as \<le> 2 then args
         else (case as ! 2 of Inl _ \<Rightarrow> args | Inr path \<Rightarrow> Some (as[2 := Inr (redact_url path)])))"

subsection \<open>Log lines\<close>

definition request_id_filter :: "string \<Rightarrow> (string \<times> json) list \<Rightarrow> (string \<times> json) list" where
  "request_id_filter current r = filter (\<lambda>(k, _). k \<noteq> ''request_id'') r @ [(''request_id'', JStr current)]"

definition RECORD_BUILTINS :: "string list" where
  "RECORD_BUILTINS = [''args'', ''asctime'', ''created'', ''exc_info'', ''exc_text'', ''filename'', ''funcName'', ''levelname'',
     ''levelno'', ''lineno'', ''message'', ''module'', ''msecs'', ''msg'', ''name'', ''pathname'', ''process'', ''processName'',
     ''relativeCreated'', ''stack_info'', ''taskName'', ''thread'', ''threadName'']"

text \<open>\<open>stamp\<close>, \<open>message\<close> and \<open>traceback\<close> are what \<open>logging\<close> makes of the record.\<close>

definition json_format :: "string \<Rightarrow> string \<Rightarrow> string option \<Rightarrow> (string \<times> json) list \<Rightarrow> (string \<times> json) list" where
  "json_format stamp message traceback r =
    (let fixed = [(''ts'', JStr stamp), (''level'', dict_get r ''levelname''), (''logger'', dict_get r ''name''),
           (''request_id'', case map_of r ''request_id'' of None \<Rightarrow> JStr NO_REQUEST_ID | Some v \<Rightarrow> v), (''msg'', JStr message)] @
           (case traceback of None \<Rightarrow> [] | Some t \<Rightarrow> [(''exc'', JStr t)])
     in fold (\<lambda>(k, v) payload. if k \<notin> set RECORD_BUILTINS \<and> k \<notin> set (map fst payload) then payload @ [(k, v)] else payload) r fixed)"

text \<open>The configuration of the loggers, with a class by its name.\<close>

definition logging_config :: "string \<Rightarrow> bool \<Rightarrow> (string \<times> json) list" where
  "logging_config level json_lines =
    (let formatter = (if json_lines then ''json'' else ''plain'') in
     [(''version'', JInt 1), (''disable_existing_loggers'', JBool False),
      (''filters'', JObj [(''request_id'', JObj [(''()'', JStr ''RequestIdFilter'')]),
                          (''query_string'', JObj [(''()'', JStr ''QueryStringFilter'')])]),
      (''formatters'', JObj
         [(''plain'', JObj [(''format'', JStr ''%(asctime)s %(levelname)-8s %(name)s [%(request_id)s]: %(message)s'')]),
          (''json'', JObj [(''()'', JStr ''JsonFormatter'')])]),
      (''handlers'', JObj
         [(''console'', JObj [(''class'', JStr ''logging.StreamHandler''), (''stream'', JStr ''ext://sys.stderr''),
             (''formatter'', JStr formatter), (''filters'', JList [JStr ''request_id''])]),
          (''access'', JObj [(''class'', JStr ''logging.StreamHandler''), (''stream'', JStr ''ext://sys.stderr''),
             (''formatter'', JStr formatter), (''filters'', JList [JStr ''request_id'', JStr ''query_string''])])]),
      (''root'', JObj [(''level'', JStr level), (''handlers'', JList [JStr ''console''])]),
      (''loggers'', JObj
         [(''uvicorn'', JObj [(''handlers'', JList []), (''propagate'', JBool True)]),
          (''uvicorn.error'', JObj [(''handlers'', JList []), (''propagate'', JBool True)]),
          (''uvicorn.access'', JObj [(''handlers'', JList [JStr ''access'']), (''propagate'', JBool False), (''level'', JStr level)])])])"

definition configure_logging :: "ops_settings \<Rightarrow> (string \<times> json) list" where
  "configure_logging op = logging_config (op_log_level op) (op_log_format op = ''json'')"

subsection \<open>Error reports\<close>

definition SAFE_HEADERS :: "string list" where
  "SAFE_HEADERS = [''host'', ''user-agent'', ''content-type'', ''content-length'']"

definition dict_pop :: "string \<Rightarrow> (string \<times> json) list \<Rightarrow> (string \<times> json) list" where
  "dict_pop k d = filter (\<lambda>(n, _). n \<noteq> k) d"

definition dict_put :: "string \<Rightarrow> json \<Rightarrow> (string \<times> json) list \<Rightarrow> (string \<times> json) list" where
  "dict_put k v d = map (\<lambda>(n, w). if n = k then (n, v) else (n, w)) d"

definition safe_headers :: "(string \<times> json) list \<Rightarrow> (string \<times> json) list" where
  "safe_headers hs = filter (\<lambda>(n, _). py_lower n \<in> set SAFE_HEADERS) hs"

definition scrub_request :: "(string \<times> json) list \<Rightarrow> (string \<times> json) list" where
  "scrub_request r =
    (let r1 = dict_pop ''query_string'' (dict_pop ''cookies'' (dict_pop ''data'' r));
         r2 = (case dict_get r1 ''headers'' of JObj hs \<Rightarrow> dict_put ''headers'' (JObj (safe_headers hs)) r1 | _ \<Rightarrow> r1)
     in case dict_get r2 ''url'' of JStr url \<Rightarrow> dict_put ''url'' (JStr (redact_url url)) r2 | _ \<Rightarrow> r2)"

definition scrub_event :: "(string \<times> json) list \<Rightarrow> (string \<times> json) list" where
  "scrub_event e =
     dict_pop ''user'' (case dict_get e ''request'' of JObj r \<Rightarrow> dict_put ''request'' (JObj (scrub_request r)) e | _ \<Rightarrow> e)"

record sentry_options =
  so_dsn :: string
  so_environment :: string
  so_release :: "string option"
  so_traces_sample_rate :: rat
  so_send_default_pii :: bool
  so_max_request_body_size :: string
  so_include_local_variables :: bool
  so_before_send :: "(string \<times> json) list \<Rightarrow> (string \<times> json) list"

definition init_sentry :: "settings \<Rightarrow> ops_settings \<Rightarrow> sentry_options option" where
  "init_sentry c op =
    (if c_testing c \<or> op_sentry_dsn op = [] then None
     else Some \<lparr>so_dsn = op_sentry_dsn op, so_environment = op_sentry_environment op, so_release = op_sentry_release op,
       so_traces_sample_rate = op_sentry_traces_rate op, so_send_default_pii = False, so_max_request_body_size = ''never'',
       so_include_local_variables = False, so_before_send = scrub_event\<rparr>)"

subsection \<open>The middleware\<close>

text \<open>
  A response is a status, a body and headers; what the rest of the application answers is an argument, which may
  raise.
\<close>

record response =
  rs_status :: int
  rs_body :: json
  rs_headers :: "(string \<times> string) list"

definition json_response :: "int \<Rightarrow> json \<Rightarrow> response" where
  "json_response status body = \<lparr>rs_status = status, rs_body = body, rs_headers = []\<rparr>"

definition limit_body_size :: "ops_settings \<Rightarrow> string option \<Rightarrow> (exn + response) \<Rightarrow> exn + response" where
  "limit_body_size op declared next_response =
    (case declared of
       None \<Rightarrow> next_response
     | Some d \<Rightarrow>
         if d \<noteq> [] \<and> py_isdigit d
         then (case py_int d of
                 None \<Rightarrow> Inl (ValueError ''invalid literal for int()'')
               | Some n \<Rightarrow>
                   if n > op_max_body_bytes op
                   then Inr (json_response 413 (JObj [(''detail'',
                          JStr (''request body exceeds '' @ show_int (op_max_body_bytes op) @ '' bytes.''))]))
                   else next_response)
         else next_response)"

definition put_header :: "string \<Rightarrow> string \<Rightarrow> response \<Rightarrow> response" where
  "put_header k v rs = rs\<lparr>rs_headers := filter (\<lambda>(n, _). n \<noteq> k) (rs_headers rs) @ [(k, v)]\<rparr>"

definition unhandled_exception :: "string \<Rightarrow> response" where
  "unhandled_exception request_id =
     put_header REQUEST_ID_HEADER request_id (json_response 500 (JObj [(''detail'', JStr ''internal error.'')]))"

text \<open>The exception handler runs outside the middleware, in the same request.\<close>

definition request_context :: "string option \<Rightarrow> string \<Rightarrow> (exn + response) \<Rightarrow> response" where
  "request_context inbound minted next_response =
    (let request_id = adopt_request_id inbound minted
     in case next_response of
          Inr rs \<Rightarrow> put_header REQUEST_ID_HEADER request_id rs
        | Inl _ \<Rightarrow> unhandled_exception request_id)"

definition serve :: "ops_settings \<Rightarrow> string option \<Rightarrow> string \<Rightarrow> string option \<Rightarrow> (exn + response) \<Rightarrow> response" where
  "serve op inbound minted declared app = request_context inbound minted (limit_body_size op declared app)"

definition validation_error :: "(string \<times> json) list list \<Rightarrow> response" where
  "validation_error errors =
    (let get = (\<lambda>e k d. case map_of e k of None \<Rightarrow> d | Some v \<Rightarrow> v)
     in json_response 422 (JObj [(''detail'', JList (map (\<lambda>e. JObj
          [(''type'', get e ''type'' (JStr [])), (''loc'', get e ''loc'' (JList [])), (''msg'', get e ''msg'' (JStr []))]) errors))]))"

subsection \<open>What leaves the server\<close>

lemma endswith_iff: "endswith s p \<longleftrightarrow> (\<exists>a. s = a @ p)"
proof
  assume "endswith s p"
  then have "rev (rev s) = rev (drop (length p) (rev s)) @ rev (rev p)"
    unfolding endswith_def startswith_def by (metis append_take_drop_id length_rev rev_append)
  then show "\<exists>a. s = a @ p" by auto
qed auto

definition is_token :: "string \<Rightarrow> bool" where
  "is_token t = (t \<noteq> [] \<and> list_all segment_char t)"

definition path_rest :: "string \<Rightarrow> bool" where
  "path_rest p = (p = [] \<or> hd p = CHR ''/'')"

lemma segment_stops: "path_rest p \<Longrightarrow> list_all segment_char t \<Longrightarrow> takeWhile segment_char (t @ p) = t \<and> dropWhile segment_char (t @ p) = p"
  by (cases p) (auto simp: path_rest_def segment_char_def list_all_iff takeWhile_append dropWhile_append)

lemma redact_token:
  assumes "is_token t" and "path_rest p"
  shows "redact_path (''/invite/'' @ t @ p) = ''/invite/'' @ redacted @ redact_path p"
proof -
  have "drop 7 (''invite/'' @ t @ p) = t @ p" by simp
  then show ?thesis
    using segment_stops [OF assms(2)] assms(1) by (simp add: is_token_def startswith_def)
qed

lemma startswith_invite: "startswith s ''/invite/'' \<longleftrightarrow> take 8 s = ''/invite/''"
  by (simp add: startswith_def numeral_eq_Suc)

lemma no_match_across:
  assumes "\<not> endswith b ''/invite''" and "b \<noteq> []" and "CHR ''?'' \<notin> set b"
    and "\<not> (startswith b ''/invite/'' \<and> takeWhile segment_char (drop 8 b) \<noteq> [])"
  shows "\<not> (startswith (b @ CHR ''/'' # r) ''/invite/'' \<and> takeWhile segment_char (drop 8 (b @ CHR ''/'' # r)) \<noteq> [])"
proof (cases "8 \<le> length b")
  case True
  then have s: "startswith (b @ CHR ''/'' # r) ''/invite/'' = startswith b ''/invite/''" by (simp add: startswith_def)
  show ?thesis
  proof (cases "drop 8 b")
    case Nil
    then show ?thesis using True by (simp add: segment_char_def)
  next
    case (Cons ch cs)
    then show ?thesis using assms(4) True s by auto
  qed
next
  case False
  show ?thesis
  proof
    assume "startswith (b @ CHR ''/'' # r) ''/invite/'' \<and> takeWhile segment_char (drop 8 (b @ CHR ''/'' # r)) \<noteq> []"
    then have t: "take 8 (b @ CHR ''/'' # r) = ''/invite/''" by (simp only: startswith_invite)
    have n: "''/invite/'' ! length b = CHR ''/''"
      using False by (simp add: t [symmetric] nth_append)
    have "0 < length b" "length b < 8" using False assms(2) by auto
    then consider "length b = 1" | "length b = 2" | "length b = 3" | "length b = 4" | "length b = 5" | "length b = 6" | "length b = 7"
      by linarith
    then have seven: "length b = 7" by cases (use n in \<open>simp_all add: numeral_eq_Suc\<close>)
    then have "b = take 7 (take 8 (b @ CHR ''/'' # r))" by simp
    then have "b = ''/invite''" unfolding t by simp
    then show False using assms(1) endswith_append [of "[]" "''/invite''"] by simp
  qed
qed

lemma redact_inside:
  assumes "is_token t" and "path_rest p"
  shows "\<not> endswith b ''/invite'' \<Longrightarrow> CHR ''?'' \<notin> set b \<Longrightarrow>
    redact_path (b @ ''/invite/'' @ t @ p) = redact_path b @ ''/invite/'' @ redacted @ redact_path p"
proof (induction b rule: redact_path.induct)
  case 1
  then show ?case using redact_token [OF assms] by simp
next
  case (2 c cs)
  let ?r = "''/invite/'' @ t @ p"
  have tail: "\<not> endswith b' ''/invite''" if "c # cs = a @ b'" for a b'
    using 2(3) that by (auto simp: endswith_iff)
  show ?case
  proof (cases "startswith (c # cs) ''/invite/'' \<and> takeWhile segment_char (drop 7 cs) \<noteq> []")
    case True
    let ?d = "dropWhile segment_char (drop 7 cs)"
    have "take 8 (c # cs) = ''/invite/''" using True by (simp only: startswith_invite)
    then have "length (take 8 (c # cs)) = length ''/invite/''" by (simp only:)
    then have l: "7 \<le> length cs" by (simp add: numeral_eq_Suc split: if_splits)
    have s: "startswith ((c # cs) @ ?r) ''/invite/''" using True l unfolding startswith_invite by simp
    have dr: "drop 7 (cs @ ?r) = drop 7 cs @ ?r" using l by simp
    have tw: "takeWhile segment_char (drop 7 cs @ ?r) \<noteq> []" using True by (cases "drop 7 cs") (auto split: if_splits)
    have dw: "dropWhile segment_char (drop 7 cs @ ?r) = ?d @ ?r"
      by (auto simp: dropWhile_append segment_char_def)
    have "c # cs = (c # take 7 cs @ takeWhile segment_char (drop 7 cs)) @ ?d" by simp
    note e = tail [OF this]
    have q: "CHR ''?'' \<notin> set ?d" using 2(4) set_dropWhileD [of "CHR ''?''" segment_char "drop 7 cs"] by (auto dest: in_set_dropD)
    have "redact_path ((c # cs) @ ?r) = ''/invite/'' @ redacted @ redact_path (?d @ ?r)"
      using s tw dr dw by simp
    also have "\<dots> = ''/invite/'' @ redacted @ (redact_path ?d @ ''/invite/'' @ redacted @ redact_path p)"
      using 2(1) [OF True e q] by simp
    finally show ?thesis using True by simp
  next
    case False
    have d: "drop 8 (x # xs) = drop 7 xs" for x :: char and xs by (simp add: numeral_eq_Suc)
    have "\<not> (startswith ((c # cs) @ ?r) ''/invite/'' \<and> takeWhile segment_char (drop 8 ((c # cs) @ ?r)) \<noteq> [])"
      using no_match_across [of "c # cs" "''invite/'' @ t @ p"] 2(3,4) False d by simp
    then have "\<not> (startswith (c # (cs @ ?r)) ''/invite/'' \<and> takeWhile segment_char (drop 7 (cs @ ?r)) \<noteq> [])"
      by (simp only: d append_Cons [of c cs ?r] not_False_eq_True)
    then have "redact_path ((c # cs) @ ?r) = c # redact_path (cs @ ?r)"
      by (simp only: redact_path.simps if_False append_Cons [of c cs ?r] not_False_eq_True)
    moreover have "redact_path (c # cs) = c # redact_path cs" using False by (simp only: redact_path.simps if_False)
    moreover have "redact_path (cs @ ?r) = redact_path cs @ ''/invite/'' @ redacted @ redact_path p"
      using 2(2) [OF False] tail [of "[c]" cs] 2(4) by simp
    ultimately show ?thesis by (simp only: append_Cons [of c])
  qed
qed

lemma redact_url_token:
  assumes "is_token t" and "path_rest p" and "CHR ''?'' \<notin> set (b @ p)" and "\<not> endswith b ''/invite''"
    and "q = [] \<or> hd q = CHR ''?''"
  shows "redact_url (b @ ''/invite/'' @ t @ p @ q) =
    redact_path b @ ''/invite/'' @ redacted @ redact_path p @ (if q = [] then [] else CHR ''?'' # redacted)"
proof -
  have n: "CHR ''?'' \<notin> set (b @ ''/invite/'' @ t @ p)"
    using assms(1,3) by (auto simp: is_token_def segment_char_def list_all_iff)
  have r: "redact_path (b @ ''/invite/'' @ t @ p) = redact_path b @ ''/invite/'' @ redacted @ redact_path p"
    using redact_inside [OF assms(1,2)] assms(3,4) by simp
  show ?thesis
  proof (cases q)
    case Nil
    then show ?thesis unfolding redact_url_def using py_partition_missing [OF n] r by simp
  next
    case (Cons ch cs)
    then have "b @ ''/invite/'' @ t @ p @ q = (b @ ''/invite/'' @ t @ p) @ CHR ''?'' # cs" using assms(5) by simp
    then show ?thesis unfolding redact_url_def using py_partition_found [OF n, of cs] r Cons by simp
  qed
qed

text \<open>An error report on a request, and an access line of it. The event is whatever object the SDK hands over.\<close>

lemma map_of_put: "map_of (dict_put k v d) n = (if n = k \<and> map_of d k \<noteq> None then Some v else map_of d n)"
  by (induction d) (auto simp: dict_put_def)

lemma map_of_pop: "map_of (dict_pop k d) n = (if n = k then None else map_of d n)"
  by (induction d) (auto simp: dict_pop_def)

lemma dict_get_Some: "map_of d k = Some v \<Longrightarrow> dict_get d k = v"
  by (simp add: dict_get_def)

text \<open>The members of the request that are removed, and the two that are rewritten.\<close>

definition stripped :: "string set" where
  "stripped = {''data'', ''cookies'', ''query_string''}"

lemma map_of_scrub_request:
  assumes "map_of r ''headers'' = Some (JObj hs)" and "map_of r ''url'' = Some (JStr url)"
  shows "map_of (scrub_request r) n =
    (if n \<in> stripped then None else if n = ''headers'' then Some (JObj (safe_headers hs))
     else if n = ''url'' then Some (JStr (redact_url url)) else map_of r n)"
  using assms by (auto simp: scrub_request_def Let_def dict_get_def map_of_put map_of_pop stripped_def)

lemma map_of_scrub_event:
  assumes "map_of e ''request'' = Some (JObj r)"
  shows "map_of (scrub_event e) n =
    (if n = ''user'' then None else if n = ''request'' then Some (JObj (scrub_request r)) else map_of e n)"
  using assms by (auto simp: scrub_event_def dict_get_def map_of_put map_of_pop)

definition harmless :: "(string \<times> json) list \<Rightarrow> (string \<times> json) list" where
  "harmless hs = filter (\<lambda>(n, _). py_lower n \<in> {''host'', ''user-agent'', ''content-type'', ''content-length''}) hs"

lemma only_harmless_headers: "safe_headers hs = harmless hs"
  by (simp add: safe_headers_def harmless_def SAFE_HEADERS_def)

text \<open>
  C28. What an error report tells of the request, and what an access line tells of it, holds no credential of a candidate.
  For any two events of the SDK, on requests to a candidate route that agree in the four harmless headers and in whatever else
  the SDK says of the request, but not in the invite token, the query, the body, the cookies, the user or any other
  header: the requests reported are the same, no user is reported, and without \<open>LOG_PII\<close> the access lines are the same.
  Every other member of the event - exception text, breadcrumbs, extras - is sent exactly as the SDK collected it: the
  scrubber does not look there.
\<close>

theorem credentials_leave_no_trace:
  assumes "is_token t" and "is_token t'" and "path_rest p" and "CHR ''?'' \<notin> set (b @ p)" and "\<not> endswith b ''/invite''"
    and "q = [] \<longleftrightarrow> q' = []" and "q = [] \<or> hd q = CHR ''?''" and "q' = [] \<or> hd q' = CHR ''?''"
    and "map_of e ''request'' = Some (JObj r)" and "map_of e' ''request'' = Some (JObj r')"
    and "map_of r ''url'' = Some (JStr (b @ ''/invite/'' @ t @ p @ q))"
    and "map_of r' ''url'' = Some (JStr (b @ ''/invite/'' @ t' @ p @ q'))"
    and "map_of r ''headers'' = Some (JObj hs)" and "map_of r' ''headers'' = Some (JObj hs')"
    and "harmless hs = harmless hs'"
    and "\<And>n. n \<notin> stripped \<union> {''url'', ''headers''} \<Longrightarrow> map_of r n = map_of r' n"
  shows "(\<exists>told told'. map_of (scrub_event e) ''request'' = Some (JObj told) \<and>
        map_of (scrub_event e') ''request'' = Some (JObj told') \<and> map_of told = map_of told') \<and>
    map_of (scrub_event e) ''user'' = None \<and>
    (\<forall>n. n \<noteq> ''request'' \<longrightarrow> n \<noteq> ''user'' \<longrightarrow> map_of (scrub_event e) n = map_of e n) \<and>
    query_string_filter False (Some (client # verb # Inr (b @ ''/invite/'' @ t @ p @ q) # rest)) =
      query_string_filter False (Some (client # verb # Inr (b @ ''/invite/'' @ t' @ p @ q') # rest))"
proof -
  have u: "redact_url (b @ ''/invite/'' @ t @ p @ q) = redact_url (b @ ''/invite/'' @ t' @ p @ q')"
    unfolding redact_url_token [OF assms(1,3,4,5,7)] redact_url_token [OF assms(2,3,4,5,8)] using assms(6) by auto
  have "map_of (scrub_request r) n = map_of (scrub_request r') n" for n
    unfolding map_of_scrub_request [OF assms(13,11)] map_of_scrub_request [OF assms(14,12)] using u assms(15) assms(16) [of n] by (auto simp: only_harmless_headers)
  then have "map_of (scrub_request r) = map_of (scrub_request r')" by blast
  then show ?thesis
    by (simp add: map_of_scrub_event [OF assms(9)] map_of_scrub_event [OF assms(10)] query_string_filter_def u
        numeral_2_eq_2 del: append_Cons)
qed

definition example_event :: "string \<Rightarrow> (string \<times> json) list \<Rightarrow> json \<Rightarrow> string \<Rightarrow> (string \<times> json) list" where
  "example_event url headers body text = [(''level'', JStr ''error''), (''request'', JObj [(''method'', JStr ''POST''), (''url'', JStr url),
     (''headers'', JObj headers), (''data'', body)]), (''user'', JObj [(''ip'', body)]), (''exception'', JStr text)]"

lemma credentials_leave_no_trace_witness:
  "let e = example_event ''https://x/invite/s3cret/submit?e=a@b'' [(''Host'', JStr ''x''), (''Cookie'', JStr ''c'')] (JStr ''code'') ''boom a@b'';
       e' = example_event ''https://x/invite/other/submit?'' [(''Host'', JStr ''x'')] JNull ''boom''
   in map_of (scrub_event e) ''user'' = None \<and> dict_get (scrub_event e) ''request'' = dict_get (scrub_event e') ''request'' \<and>
     dict_get (scrub_event e) ''exception'' = JStr ''boom a@b'' \<and>
     (\<exists>told. map_of (scrub_event e') ''request'' = Some (JObj told))"
proof -
  let ?r = "[(''method'', JStr ''POST''), (''url'', JStr ''https://x/invite/s3cret/submit?e=a@b''),
     (''headers'', JObj [(''Host'', JStr ''x''), (''Cookie'', JStr ''c'')]), (''data'', JStr ''code'')]"
  let ?r' = "[(''method'', JStr ''POST''), (''url'', JStr ''https://x/invite/other/submit?''), (''headers'', JObj [(''Host'', JStr ''x'')]), (''data'', JNull)]"
  let ?e = "example_event ''https://x/invite/s3cret/submit?e=a@b'' [(''Host'', JStr ''x''), (''Cookie'', JStr ''c'')] (JStr ''code'') ''boom a@b''"
  let ?e' = "example_event ''https://x/invite/other/submit?'' [(''Host'', JStr ''x'')] JNull ''boom''"
  have a: "is_token ''s3cret''" "is_token ''other''" "path_rest ''/submit''" "CHR ''?'' \<notin> set (''https://x'' @ ''/submit'')"
    "\<not> endswith ''https://x'' ''/invite''" "''?e=a@b'' = [] \<longleftrightarrow> ''?'' = []"
    "''?e=a@b'' = [] \<or> hd ''?e=a@b'' = CHR ''?''" "''?'' = [] \<or> hd ''?'' = CHR ''?''"
    "map_of ?e ''request'' = Some (JObj ?r)" "map_of ?e' ''request'' = Some (JObj ?r')"
    "map_of ?r ''url'' = Some (JStr (''https://x'' @ ''/invite/'' @ ''s3cret'' @ ''/submit'' @ ''?e=a@b''))"
    "map_of ?r' ''url'' = Some (JStr (''https://x'' @ ''/invite/'' @ ''other'' @ ''/submit'' @ ''?''))"
    "map_of ?r ''headers'' = Some (JObj [(''Host'', JStr ''x''), (''Cookie'', JStr ''c'')])" "map_of ?r' ''headers'' = Some (JObj [(''Host'', JStr ''x'')])"
    "harmless [(''Host'', JStr ''x''), (''Cookie'', JStr ''c'')] = harmless [(''Host'', JStr ''x'')]" by code_simp+
  have m: "map_of ?r n = map_of ?r' n" if "n \<notin> stripped \<union> {''url'', ''headers''}" for n
    using that by (auto simp: stripped_def)
  note c = credentials_leave_no_trace [OF a m]
  have "dict_get (scrub_event ?e) ''request'' = dict_get (scrub_event ?e') ''request''" by code_simp
  moreover have "map_of (scrub_event ?e) ''user'' = None" by (rule c [THEN conjunct2, THEN conjunct1])
  moreover have "map_of (scrub_event ?e) ''exception'' = map_of ?e ''exception''"
    by (rule c [THEN conjunct2, THEN conjunct2, THEN conjunct1, rule_format]) simp_all
  then have "dict_get (scrub_event ?e) ''exception'' = JStr ''boom a@b''" by (simp add: dict_get_def example_event_def)
  moreover have "\<exists>told. map_of (scrub_event ?e') ''request'' = Some (JObj told)" using c [THEN conjunct1] by blast
  ultimately show ?thesis unfolding Let_def by blast
qed

text \<open>
  The pattern of the redactor knows one of the routes that carry a token in the path. The token of an
  invitation to an organisation, which makes whoever holds it a member, and the token of a link that is being revoked stay in
  the line and in the report.
\<close>

lemma other_tokens_stay:
  "redact_url ''https://x/org-invites/s3cret/accept'' = ''https://x/org-invites/s3cret/accept''"
  "redact_url ''https://x/invites/s3cret/revoke'' = ''https://x/invites/s3cret/revoke''"
  by code_simp+

subsection \<open>The id of a request\<close>

text \<open>Every response carries the id of its request: the one the caller sent, when it has the form, or a minted one.\<close>

lemma every_response_named:
  "map_of (rs_headers (serve op inbound minted declared app)) REQUEST_ID_HEADER = Some (adopt_request_id inbound minted)"
proof -
  have last: "map_of (filter (\<lambda>(n, _). n \<noteq> k) hs) k = None" for k and hs :: "(string \<times> string) list"
    by (auto simp: map_of_eq_None_iff)
  show ?thesis
    by (auto simp: serve_def request_context_def unhandled_exception_def put_header_def Let_def last map_add_def split: sum.split)
qed

lemma adopted_id: "id_body minted \<Longrightarrow> id_pattern (adopt_request_id inbound minted)"
  by (auto simp: adopt_request_id_def id_pattern_def split: option.split)

text \<open>A body that declares more than the cap is answered 413 whatever the application would say, and still named.\<close>

lemma oversized_refused:
  assumes "py_isdigit d" and "py_int d = Some n" and "n > op_max_body_bytes op"
  shows "rs_status (serve op inbound minted (Some d) app) = 413"
  using assms by (auto simp: serve_def limit_body_size_def request_context_def put_header_def json_response_def py_isdigit_def)

text \<open>
  An id is meant to be too dull for log injection, but the dollar of the pattern lets a line feed at the
  end pass.
\<close>

lemma id_with_line_feed: "adopt_request_id (Some (''abc'' @ [CHR 0x0A])) minted = ''abc'' @ [CHR 0x0A]"
  by (simp add: adopt_request_id_def id_pattern_def id_body_def id_char_def code_def)

end
