(* ===== verification/Templates.thy ===== *)
theory Templates
  imports Contact Agent
begin

section \<open>Templates: what the messages say\<close>

text \<open>
  \<open>email_templates.py\<close>, the construction of a message in \<open>email_client.py\<close> and \<open>_invite_email\<close> of \<open>api.py\<close>. The
  dash and the dot outside ASCII are written by their UTF-8 bytes. A score is a rational, formatted with
  ties to even.
\<close>

definition nl :: string where "nl = [CHR 0x0A]"

definition em_dash :: string where "em_dash = [CHR 0xE2, CHR 0x80, CHR 0x94]"

definition middle_dot :: string where "middle_dot = [CHR 0xC2, CHR 0xB7]"

record email =
  e_subject :: string
  e_text :: string
  e_html :: string

subsection \<open>Escaping\<close>

text \<open>\<open>s.replace(c, r)\<close> for one character, and \<open>html.escape\<close>, which quotes by default.\<close>

definition replace_char :: "char \<Rightarrow> string \<Rightarrow> string \<Rightarrow> string" where
  "replace_char ch r s = concat (map (\<lambda>x. if x = ch then r else [x]) s)"

definition html_escape :: "string \<Rightarrow> string" where
  "html_escape s =
     replace_char (CHR 0x27) ''&#x27;'' (replace_char (CHR 0x22) ''&quot;''
       (replace_char (CHR ''>'') ''&gt;'' (replace_char (CHR ''<'') ''&lt;'' (replace_char (CHR ''&'') ''&amp;'' s))))"

subsection \<open>The shell\<close>

definition INK :: string where "INK = ''#1a1a1a''"
definition MUTED :: string where "MUTED = ''#6b7280''"
definition LINE :: string where "LINE = ''#e5e7eb''"
definition PAGE :: string where "PAGE = ''#f6f7f9''"
definition CARD :: string where "CARD = ''#ffffff''"
definition ACTION :: string where "ACTION = ''#1f6feb''"

definition VERDICT :: "(string \<times> string) list" where
  "VERDICT = [(''PASS'', ''#0f7b3f''), (''FAIL'', ''#b42318''), (''ERROR'', ''#8a5a00'')]"

definition FONT :: string where
  "FONT = ''-apple-system,BlinkMacSystemFont,'Segoe UI',Roboto,Helvetica,Arial,sans-serif''"

definition button :: "string \<Rightarrow> string \<Rightarrow> string" where
  "button label url =
     ''<a href=\"'' @ html_escape url @ ''\" '' @
     ''style=\"display:inline-block;padding:11px 20px;border-radius:6px;'' @
     ''background:'' @ ACTION @ '';color:#ffffff;font-weight:600;font-size:15px;'' @
     ''text-decoration:none\">'' @ html_escape label @ ''</a>''"

definition layout :: "string \<Rightarrow> string list \<Rightarrow> string \<Rightarrow> string" where
  "layout heading blocks footer =
     ''<div style=\"margin:0;padding:24px 12px;background:'' @ PAGE @ '';font-family:'' @ FONT @ ''\">'' @
     ''<div style=\"max-width:560px;margin:0 auto;background:'' @ CARD @ '';'' @
     ''border:1px solid '' @ LINE @ '';border-radius:10px;padding:32px\">'' @
     ''<h1 style=\"margin:0 0 18px;font-size:20px;line-height:1.3;color:'' @ INK @ ''\">'' @
     html_escape heading @ ''</h1>'' @
     concat blocks @
     ''<p style=\"margin:28px 0 0;padding-top:18px;border-top:1px solid '' @ LINE @ '';'' @
     ''font-size:12px;line-height:1.6;color:'' @ MUTED @ ''\">'' @ html_escape footer @ ''</p>'' @
     ''</div></div>''"

definition para :: "string \<Rightarrow> string" where
  "para text =
     ''<p style=\"margin:0 0 14px;font-size:15px;line-height:1.6;color:'' @ INK @ ''\">'' @
     html_escape text @ ''</p>''"

definition fallback :: "string \<Rightarrow> string" where
  "fallback url =
     ''<p style=\"margin:22px 0 0;font-size:12px;line-height:1.6;color:'' @ MUTED @ ''\">'' @
     ''Or paste this into your browser:<br><span style=\"color:'' @ INK @ ''\">'' @
     html_escape url @ ''</span></p>''"

definition action :: "string \<Rightarrow> string \<Rightarrow> string" where
  "action label url = ''<p style=\"margin:24px 0 0\">'' @ button label url @ ''</p>''"

subsection \<open>The messages\<close>

definition questions_line :: "string option \<Rightarrow> string" where
  "questions_line support = (if or_empty support \<noteq> [] then ''Questions about this assessment? Email '' @ or_empty support @ ''.'' else [])"

definition sender_name :: "string option \<Rightarrow> string" where
  "sender_name org_name = (if or_empty org_name \<noteq> [] then or_empty org_name else ''A hiring team'')"

definition invite_mail :: "string \<Rightarrow> string \<Rightarrow> string option \<Rightarrow> string option \<Rightarrow> email" where
  "invite_mail url title org_name support =
    (let named = or_empty org_name \<noteq> [];
         sender = sender_name org_name;
         asked = questions_line support
     in \<lparr>e_subject = (if named then or_empty org_name @ '' '' @ em_dash @ '' coding assessment: '' @ title
                     else ''Coding assessment: '' @ title),
         e_text = sender @ '' has invited you to complete a coding assessment ('' @ title @ '').'' @ nl @ nl @
           ''Open your assessment here:'' @ nl @ url @ nl @ nl @
           ''This link is personal to you '' @ em_dash @ '' you'll be asked to confirm this email'' @ nl @
           ''address to begin, and it won't work for anyone else.'' @ nl @ nl @
           (if asked = [] then [] else asked @ nl @ nl) @
           ''If you weren't expecting this, you can ignore this email.'',
         e_html = layout ''You've been invited to a coding assessment''
           [para (sender @ '' has invited you to complete '' @ title @ ''.''),
            para (''The link below is personal to you: you'll confirm this email address to begin, '' @
                  ''and it won't work for anyone else.''),
            action ''Start the assessment'' url, fallback url]
           ((if asked = [] then [] else asked @ '' '') @ ''If you weren't expecting this, you can ignore this email.'')\<rparr>)"

text \<open>\<open>f"{x:.1f}"\<close>, \<open>f"{x:.0f}"\<close>, and the paddings of \<open>:<5\<close> and \<open>:5\<close>.\<close>

definition round_even :: "rat \<Rightarrow> int" where
  "round_even y = (let f = \<lfloor>y\<rfloor>; d = y - of_int f in if d < 1/2 then f else if d > 1/2 then f + 1 else if even f then f else f + 1)"

definition fixed0 :: "rat \<Rightarrow> string" where
  "fixed0 x = (if x < 0 then ''-'' else []) @ show_int (round_even \<bar>x\<bar>)"

definition fixed1 :: "rat \<Rightarrow> string" where
  "fixed1 x = (let n = round_even (\<bar>x\<bar> * 10)
     in (if x < 0 then ''-'' else []) @ show_int (n div 10) @ ''.'' @ show_int (n mod 10))"

definition ljust :: "nat \<Rightarrow> string \<Rightarrow> string" where
  "ljust n s = s @ replicate (n - length s) (CHR '' '')"

definition rjust :: "nat \<Rightarrow> string \<Rightarrow> string" where
  "rjust n s = replicate (n - length s) (CHR '' '') @ s"

definition text_row :: "string \<times> string \<times> rat \<Rightarrow> string" where
  "text_row = (\<lambda>(qtitle, verdict, score). ''  '' @ ljust 5 verdict @ '' '' @ rjust 5 (fixed1 score) @ ''%  '' @ qtitle)"

definition colour_of :: "string \<Rightarrow> string" where
  "colour_of verdict = (case map_of VERDICT verdict of None \<Rightarrow> MUTED | Some col \<Rightarrow> col)"

definition html_row :: "string \<times> string \<times> rat \<Rightarrow> string" where
  "html_row = (\<lambda>(qtitle, verdict, score).
     ''<tr><td style=\"padding:8px 0;border-bottom:1px solid '' @ LINE @ '';'' @
     ''font-size:14px;color:'' @ INK @ ''\">'' @ html_escape qtitle @ ''</td>'' @
     ''<td style=\"padding:8px 0;border-bottom:1px solid '' @ LINE @ '';'' @
     ''text-align:right;font-size:14px;font-weight:600;color:'' @ colour_of verdict @ '';'' @
     ''white-space:nowrap\">'' @ html_escape verdict @ '' '' @ middle_dot @ '' '' @ fixed0 score @ ''%</td></tr>'')"

definition results_table :: "(string \<times> string \<times> rat) list \<Rightarrow> string" where
  "results_table questions =
     ''<table style=\"width:100%;border-collapse:collapse;margin:4px 0 0\">'' @ concat (map html_row questions) @ ''</table>''"

definition results_email :: "string \<Rightarrow> string \<Rightarrow> string \<Rightarrow> (string \<times> string \<times> rat) list \<Rightarrow> email" where
  "results_email candidate title results_url questions =
    \<lparr>e_subject = ''Assessment complete: '' @ candidate @ '' '' @ em_dash @ '' '' @ title,
     e_text = candidate @ '' has completed '' @ title @ ''.'' @ nl @ nl @ py_join nl (map text_row questions) @ nl @ nl @
       ''Full result, code and per-test-case detail:'' @ nl @ results_url,
     e_html = layout (candidate @ '' finished '' @ title)
       [para ''Here's how the sitting went:'', results_table questions,
        action ''Open the full result'' results_url, fallback results_url]
       ''You're receiving this because you sent this candidate's invitation.''\<rparr>"

definition org_invitation :: "string \<Rightarrow> string \<Rightarrow> string \<Rightarrow> email" where
  "org_invitation inviter_name org_name url =
    \<lparr>e_subject = ''You've been invited to '' @ org_name,
     e_text = inviter_name @ '' invited you to join '' @ org_name @ '' on the coding-assessment '' @ ''platform.'' @ nl @ nl @
       ''Accept the invitation:'' @ nl @ url @ nl @ nl @
       ''The link is valid for 7 days. If you weren't expecting this, ignore it.'',
     e_html = layout (''Join '' @ org_name)
       [para (inviter_name @ '' invited you to join '' @ org_name @ '' on the coding-assessment platform.''),
        action ''Accept the invitation'' url, fallback url]
       ''The link is valid for 7 days. If you weren't expecting this, ignore it.''\<rparr>"

definition confirm_address :: "string \<Rightarrow> string \<Rightarrow> email" where
  "confirm_address name url =
    \<lparr>e_subject = ''Confirm your email address'',
     e_text = ''Hi '' @ name @ '','' @ nl @ nl @
       ''Confirm this address for your coding-assessment account by opening:'' @ nl @ url @ nl @ nl @
       ''The link is valid for 3 days. If you didn't create an account, ignore this email.'',
     e_html = layout ''Confirm your email address''
       [para (''Hi '' @ name @ '',''), para ''Confirm this address for your coding-assessment account.'',
        action ''Confirm my address'' url, fallback url]
       ''The link is valid for 3 days. If you didn't create an account, ignore this email.''\<rparr>"

definition unasked_change :: string where
  "unasked_change = ''The link is valid for 3 days. If you didn't ask for this, ignore this '' @
     ''email '' @ em_dash @ '' the account keeps its current address.''"

definition change_email_mail :: "string \<Rightarrow> string \<Rightarrow> string \<Rightarrow> email" where
  "change_email_mail name url old_email =
    \<lparr>e_subject = ''Confirm your new email address'',
     e_text = ''Hi '' @ name @ '','' @ nl @ nl @
       ''Confirm this address as the new sign-in email for your coding-assessment '' @
       ''account (currently '' @ old_email @ '') by opening:'' @ nl @ url @ nl @ nl @
       ''Nothing changes until you do. '' @ unasked_change,
     e_html = layout ''Confirm your new email address''
       [para (''Hi '' @ name @ '',''),
        para (''Confirm this address as the new sign-in email for your '' @ ''coding-assessment account (currently '' @ old_email @
              ''). Nothing '' @ ''changes until you do.''),
        action ''Confirm new address'' url, fallback url]
       unasked_change\<rparr>"

definition unasked_reset :: string where
  "unasked_reset = ''The link works once and expires in 1 hour. If you didn't ask for it, '' @
     ''ignore this email '' @ em_dash @ '' your password is unchanged.''"

definition reset_password_mail :: "string \<Rightarrow> string \<Rightarrow> email" where
  "reset_password_mail name url =
    \<lparr>e_subject = ''Reset your password'',
     e_text = ''Hi '' @ name @ '','' @ nl @ nl @
       ''Someone asked to reset the password for this coding-assessment account. '' @
       ''If that was you, open:'' @ nl @ url @ nl @ nl @ unasked_reset,
     e_html = layout ''Reset your password''
       [para (''Hi '' @ name @ '',''), para ''Someone asked to reset the password for this coding-assessment account.'',
        action ''Choose a new password'' url, fallback url]
       unasked_reset\<rparr>"

definition invite_email :: "settings \<Rightarrow> string \<Rightarrow> string \<Rightarrow> membership \<Rightarrow> store \<Rightarrow> email" where
  "invite_email c title url org st =
    (let g = get_org (m_org_id org) st in invite_mail url title (map_option o_name g) (contact_email c g))"

subsection \<open>Building the message\<close>

text \<open>
  \<open>email.utils.formataddr\<close> for an address and a name in ASCII; a name outside ASCII is encoded by the parameter.
  Assigning a header that breaks into lines raises.
\<close>

definition special :: "char \<Rightarrow> bool" where
  "special ch = (ch \<in> {CHR '']'', CHR ''['', CHR 0x5C, CHR ''('', CHR '')'', CHR ''<'', CHR ''>'', CHR ''@'', CHR '','', CHR '':'',
     CHR '';'', CHR 0x22, CHR ''.''})"

definition escape_quoted :: "string \<Rightarrow> string" where
  "escape_quoted s = concat (map (\<lambda>ch. if ch = CHR 0x5C \<or> ch = CHR 0x22 then [CHR 0x5C, ch] else [ch]) s)"

definition ascii :: "string \<Rightarrow> bool" where
  "ascii s = list_all (\<lambda>ch. code ch < 128) s"

definition formataddr :: "(string \<Rightarrow> string) \<Rightarrow> string \<Rightarrow> string \<Rightarrow> exn + string" where
  "formataddr encoded name address =
    (if \<not> ascii address then Inl (ValueError ''UnicodeEncodeError'')
     else if name = [] then Inr address
     else if \<not> ascii name then Inr (encoded name @ '' <'' @ address @ ''>'')
     else let q = (if list_ex special name then [CHR 0x22] else [])
          in Inr (q @ escape_quoted name @ q @ '' <'' @ address @ ''>''))"

definition line_break :: "char \<Rightarrow> bool" where
  "line_break ch = (code ch \<in> {10, 11, 12, 13, 28, 29, 30, 133})"

fun broken :: "string \<Rightarrow> bool" where
  "broken [] = False"
| "broken (ch # cs) =
     (if line_break ch
      then (case cs of [] \<Rightarrow> False | d # ds \<Rightarrow> if ch = CHR 0x0D \<and> d = CHR 0x0A then ds \<noteq> [] else True)
      else broken cs)"

definition mail_header :: "string \<Rightarrow> exn + string" where
  "mail_header s = (if broken s then Inl (ValueError ''Header values may not contain linefeed or carriage return characters'') else Inr s)"

record mime =
  mi_subject :: string
  mi_from :: string
  mi_to :: string
  mi_reply_to :: "string option"
  mi_parts :: "(string \<times> string) list"

definition mime_message :: "(string \<Rightarrow> string) \<Rightarrow> string \<Rightarrow> string \<Rightarrow> string \<Rightarrow> email \<Rightarrow> string option \<Rightarrow> exn + mime" where
  "mime_message encoded from_name from_address to e reply_to =
    sbind (mail_header (e_subject e)) (\<lambda>subject.
    sbind (if from_name = [] then Inr from_address else formataddr encoded from_name from_address) (\<lambda>from_raw.
    sbind (mail_header from_raw) (\<lambda>sender.
    sbind (mail_header to) (\<lambda>recipient.
    sbind (if or_empty reply_to = [] then Inr None else sbind (mail_header (or_empty reply_to)) (\<lambda>r. Inr (Some r))) (\<lambda>reply.
      Inr \<lparr>mi_subject = subject, mi_from = sender, mi_to = recipient, mi_reply_to = reply,
           mi_parts = [(''text/plain'', e_text e), (''text/html'', e_html e)]\<rparr>)))))"

subsection \<open>What a reader of the markup sees\<close>

text \<open>
  A reader of HTML: it collects the markup, the attributes with their values, and the text between the tags. Its
  accumulators are kept in reverse.
\<close>

datatype mode = InText | InTag | InValue

datatype reader = Reader mode string string string "(string \<times> string) list" string

fun read_char :: "reader \<Rightarrow> char \<Rightarrow> reader" where
  "read_char (Reader InText n v t a x) ch =
     (if ch = CHR ''<'' then Reader InTag [] [] (ch # t) a x else Reader InText n v t a (ch # x))"
| "read_char (Reader InTag n v t a x) ch =
     (if ch = CHR ''>'' then Reader InText [] [] (ch # t) a x
      else if ch = CHR '' '' then Reader InTag [] [] (ch # t) a x
      else if ch = CHR 0x22 then Reader InValue n [] (ch # t) a x
      else Reader InTag (ch # n) v (ch # t) a x)"
| "read_char (Reader InValue n v t a x) ch =
     (if ch = CHR 0x22 then Reader InTag [] [] (ch # t) ((rev n, rev v) # a) x else Reader InValue n (ch # v) t a x)"

definition read_html :: "string \<Rightarrow> reader" where
  "read_html s = foldl read_char (Reader InText [] [] [] [] []) s"

fun html_unescape :: "string \<Rightarrow> string" where
  "html_unescape [] = []"
| "html_unescape (ch # cs) =
     (if ch \<noteq> CHR ''&'' then ch # html_unescape cs
      else if startswith cs ''amp;'' then CHR ''&'' # html_unescape (drop 4 cs)
      else if startswith cs ''lt;'' then CHR ''<'' # html_unescape (drop 3 cs)
      else if startswith cs ''gt;'' then CHR ''>'' # html_unescape (drop 3 cs)
      else if startswith cs ''quot;'' then CHR 0x22 # html_unescape (drop 5 cs)
      else if startswith cs ''#x27;'' then CHR 0x27 # html_unescape (drop 5 cs)
      else ch # html_unescape cs)"

definition markup :: "string \<Rightarrow> string" where
  "markup s = (case read_html s of Reader _ _ _ t _ _ \<Rightarrow> rev t)"

definition links :: "string \<Rightarrow> string list" where
  "links s = (case read_html s of Reader _ _ _ _ a _ \<Rightarrow> map (\<lambda>(n, v). html_unescape v) (filter (\<lambda>(n, v). n = ''href='') (rev a)))"

definition shown :: "string \<Rightarrow> string" where
  "shown s = (case read_html s of Reader _ _ _ _ _ x \<Rightarrow> html_unescape (rev x))"

definition escaped_char :: "char \<Rightarrow> string" where
  "escaped_char ch =
    (if ch = CHR ''&'' then ''&amp;'' else if ch = CHR ''<'' then ''&lt;'' else if ch = CHR ''>'' then ''&gt;''
     else if ch = CHR 0x22 then ''&quot;'' else if ch = CHR 0x27 then ''&#x27;'' else [ch])"

lemma html_escape_chars: "html_escape s = concat (map escaped_char s)"
  by (induction s) (auto simp: html_escape_def replace_char_def escaped_char_def)

lemma html_escape_append: "html_escape (s @ t) = html_escape s @ html_escape t"
  by (simp add: html_escape_chars)

lemma html_unescape_escaped: "html_unescape (escaped_char ch @ t) = ch # html_unescape t"
  by (auto simp: escaped_char_def startswith_def)

lemma html_unescape_escape [simp]: "html_unescape (html_escape s @ t) = s @ html_unescape t"
  by (induction s) (simp_all add: html_escape_chars html_unescape_escaped)

lemma escaped_char_safe: "set (escaped_char ch) \<inter> {CHR ''<'', CHR ''>'', CHR 0x22} = {}"
  by (auto simp: escaped_char_def)

lemma html_escape_safe: "c \<in> set (html_escape s) \<Longrightarrow> c \<noteq> CHR ''<'' \<and> c \<noteq> CHR ''>'' \<and> c \<noteq> CHR 0x22"
  using escaped_char_safe by (fastforce simp: html_escape_chars)

lemma read_shown:
  "(\<And>c. c \<in> set s \<Longrightarrow> c \<noteq> CHR ''<'') \<Longrightarrow> foldl read_char (Reader InText n v t a x) s = Reader InText n v t a (rev s @ x)"
  by (induction s arbitrary: x) auto

lemma read_value:
  "(\<And>c. c \<in> set s \<Longrightarrow> c \<noteq> CHR 0x22) \<Longrightarrow> foldl read_char (Reader InValue n v t a x) s = Reader InValue n (rev s @ v) t a x"
  by (induction s arbitrary: v) auto

lemma read_escaped [simp]:
  "foldl read_char (Reader InText n v t a x) (html_escape s) = Reader InText n v t a (rev (html_escape s) @ x)"
  "foldl read_char (Reader InValue n v t a x) (html_escape s) = Reader InValue n (rev (html_escape s) @ v) t a x"
  by (rule read_shown, use html_escape_safe in blast) (rule read_value, use html_escape_safe in blast)

text \<open>A fragment of markup with its tags, attributes and text: it starts and ends between tags.\<close>

definition fragment :: "string \<Rightarrow> string \<Rightarrow> (string \<times> string) list \<Rightarrow> string \<Rightarrow> bool" where
  "fragment s tags attrs text = (\<forall>t a x. foldl read_char (Reader InText [] [] t a x) s =
     Reader InText [] [] (rev tags @ t) (rev attrs @ a) (rev text @ x))"

lemma fragment_Nil: "fragment [] [] [] []"
  by (simp add: fragment_def)

lemma fragment_append:
  "fragment s t a x \<Longrightarrow> fragment s' t' a' x' \<Longrightarrow> fragment (s @ s') (t @ t') (a @ a') (x @ x')"
  by (simp add: fragment_def)

lemma fragment_escape: "fragment (html_escape s) [] [] (html_escape s)"
  by (simp add: fragment_def)

lemma fragment_read:
  "fragment s t a x \<Longrightarrow> markup s = t \<and> shown s = html_unescape x \<and> links s = map (\<lambda>(n, v). html_unescape v) (filter (\<lambda>(n, v). n = ''href='') a)"
  by (simp add: fragment_def read_html_def markup_def shown_def links_def)

text \<open>A block whose text is the escape of what it says.\<close>

definition says :: "string \<Rightarrow> string \<Rightarrow> (string \<times> string) list \<Rightarrow> string \<Rightarrow> bool" where
  "says s tags attrs text = fragment s tags attrs (html_escape text)"

lemma says_append: "says s t a x \<Longrightarrow> says s' t' a' x' \<Longrightarrow> says (s @ s') (t @ t') (a @ a') (x @ x')"
  unfolding says_def html_escape_append by (rule fragment_append)

lemma html_escape_plain: "(\<And>ch. ch \<in> set s \<Longrightarrow> escaped_char ch = [ch]) \<Longrightarrow> html_escape s = s"
  by (induction s) (simp_all add: html_escape_chars)

lemma says_shown: "says s t a x \<Longrightarrow> shown s = x"
  unfolding says_def using fragment_read html_unescape_escape [of x "[]"] by fastforce

definition style :: "string \<Rightarrow> string \<times> string" where
  "style v = (''style='', v)"

definition P_STYLE :: string where
  "P_STYLE = ''margin:0 0 14px;font-size:15px;line-height:1.6;color:#1a1a1a''"

lemma says_para: "says (para s) ''<p style=\"\"></p>'' [style P_STYLE] s"
  by (simp add: says_def fragment_def para_def INK_def P_STYLE_def style_def)

definition B_STYLE :: string where
  "B_STYLE = ''display:inline-block;padding:11px 20px;border-radius:6px;background:#1f6feb;color:#ffffff;'' @
     ''font-weight:600;font-size:15px;text-decoration:none''"

lemma says_action:
  "says (action label url) ''<p style=\"\"><a href=\"\" style=\"\"></a></p>''
     [style ''margin:24px 0 0'', (''href='', html_escape url), style B_STYLE] label"
  by (simp add: says_def fragment_def action_def button_def ACTION_def B_STYLE_def style_def)

definition F_STYLE :: string where
  "F_STYLE = ''margin:22px 0 0;font-size:12px;line-height:1.6;color:#6b7280''"

lemma says_fallback:
  "says (fallback url) ''<p style=\"\"><br><span style=\"\"></span></p>''
     [style F_STYLE, style ''color:#1a1a1a''] (''Or paste this into your browser:'' @ url)"
proof -
  have "html_escape ''Or paste this into your browser:'' = ''Or paste this into your browser:''" by code_simp
  then have e: "html_escape (''Or paste this into your browser:'' @ url) = ''Or paste this into your browser:'' @ html_escape url"
    by (simp only: html_escape_append)
  show ?thesis
    unfolding says_def e by (simp add: fragment_def fallback_def INK_def MUTED_def F_STYLE_def style_def)
qed

definition T_STYLE :: string where
  "T_STYLE = ''padding:8px 0;border-bottom:1px solid #e5e7eb;''"

definition row_said :: "string \<times> string \<times> rat \<Rightarrow> string" where
  "row_said = (\<lambda>(qtitle, verdict, score). qtitle @ verdict @ '' '' @ middle_dot @ '' '' @ fixed0 score @ ''%'')"

definition row_styles :: "string \<times> string \<times> rat \<Rightarrow> (string \<times> string) list" where
  "row_styles = (\<lambda>(qtitle, verdict, score). [style (T_STYLE @ ''font-size:14px;color:#1a1a1a''),
     style (T_STYLE @ ''text-align:right;font-size:14px;font-weight:600;color:'' @ colour_of verdict @ '';white-space:nowrap'')])"

lemma colour_plain: "CHR 0x22 \<notin> set (colour_of verdict)"
  by (simp add: colour_of_def VERDICT_def MUTED_def)

lemma show_nat_plain: "ch \<in> set (show_nat n) \<Longrightarrow> escaped_char ch = [ch]"
  by (drule show_nat_digits) (auto simp: is_digit_def code_def escaped_char_def)

lemma fixed0_plain: "ch \<in> set (fixed0 x) \<Longrightarrow> escaped_char ch = [ch]"
proof -
  assume "ch \<in> set (fixed0 x)"
  then have "ch = CHR ''-'' \<or> (\<exists>n. ch \<in> set (show_nat n))" by (auto simp: fixed0_def show_int_def split: if_splits)
  then show "escaped_char ch = [ch]" using show_nat_plain by (auto simp: escaped_char_def [of "CHR ''-''"])
qed

lemma fixed0_escape: "html_escape (fixed0 x) = fixed0 x"
  by (intro html_escape_plain fixed0_plain)

lemma read_colour [simp]:
  "foldl read_char (Reader InValue n v t a x) (colour_of verdict) = Reader InValue n (rev (colour_of verdict) @ v) t a x"
  by (rule read_value) (use colour_plain in auto)

lemma read_fixed0 [simp]:
  "foldl read_char (Reader InText n v t a x) (fixed0 q) = Reader InText n v t a (rev (fixed0 q) @ x)"
  by (rule read_shown) (auto dest!: fixed0_plain simp: escaped_char_def)

lemma says_row: "says (html_row q) ''<tr><td style=\"\"></td><td style=\"\"></td></tr>'' (row_styles q) (row_said q)"
proof -
  obtain qtitle verdict score where q: "q = (qtitle, verdict, score)" by (cases q)
  have c: "html_escape '' '' = '' ''" "html_escape middle_dot = middle_dot" "html_escape ''%'' = ''%''" by code_simp+
  have e: "html_escape (row_said q) = html_escape qtitle @ html_escape verdict @ '' '' @ middle_dot @ '' '' @ fixed0 score @ ''%''"
    unfolding q row_said_def prod.case html_escape_append c fixed0_escape by simp
  show ?thesis
    unfolding says_def e unfolding q
    by (simp add: fragment_def html_row_def row_styles_def T_STYLE_def LINE_def INK_def middle_dot_def style_def)
qed

lemma says_rows:
  "says (concat (map html_row qs)) (concat (map (\<lambda>_. ''<tr><td style=\"\"></td><td style=\"\"></td></tr>'') qs))
     (concat (map row_styles qs)) (concat (map row_said qs))"
proof (induction qs)
  case Nil
  then show ?case using fragment_Nil by (simp add: says_def html_escape_def replace_char_def)
next
  case (Cons q qs)
  show ?case unfolding list.map concat.simps by (rule says_append [OF says_row Cons])
qed

lemma says_table:
  "says (results_table qs) (''<table style=\"\">'' @ concat (map (\<lambda>_. ''<tr><td style=\"\"></td><td style=\"\"></td></tr>'') qs) @ ''</table>'')
     (style ''width:100%;border-collapse:collapse;margin:4px 0 0'' # concat (map row_styles qs)) (concat (map row_said qs))"
proof -
  have "says ''<table style=\"width:100%;border-collapse:collapse;margin:4px 0 0\">'' ''<table style=\"\">''
      [style ''width:100%;border-collapse:collapse;margin:4px 0 0''] []"
    and "says ''</table>'' ''</table>'' [] []"
    by (simp_all add: says_def fragment_def style_def html_escape_def replace_char_def)
  from says_append [OF this(1) says_append [OF says_rows this(2)]] show ?thesis by (simp add: results_table_def)
qed

definition shell :: "(string \<times> string) list" where
  "shell = [style (''margin:0;padding:24px 12px;background:#f6f7f9;font-family:'' @ FONT),
     style (''max-width:560px;margin:0 auto;background:#ffffff;border:1px solid #e5e7eb;border-radius:10px;padding:32px''),
     style ''margin:0 0 18px;font-size:20px;line-height:1.3;color:#1a1a1a'']"

definition foot :: "(string \<times> string) list" where
  "foot = [style ''margin:28px 0 0;padding-top:18px;border-top:1px solid #e5e7eb;font-size:12px;line-height:1.6;color:#6b7280'']"

lemma says_open:
  "says (''<div style=\"margin:0;padding:24px 12px;background:'' @ PAGE @ '';font-family:'' @ FONT @ ''\">'' @
     ''<div style=\"max-width:560px;margin:0 auto;background:'' @ CARD @ '';'' @
     ''border:1px solid '' @ LINE @ '';border-radius:10px;padding:32px\">'' @
     ''<h1 style=\"margin:0 0 18px;font-size:20px;line-height:1.3;color:'' @ INK @ ''\">'' @
     html_escape heading @ ''</h1>'') ''<div style=\"\"><div style=\"\"><h1 style=\"\"></h1>'' shell heading"
  by (simp add: says_def fragment_def shell_def style_def PAGE_def FONT_def CARD_def LINE_def INK_def)

lemma says_close:
  "says (''<p style=\"margin:28px 0 0;padding-top:18px;border-top:1px solid '' @ LINE @ '';'' @
     ''font-size:12px;line-height:1.6;color:'' @ MUTED @ ''\">'' @ html_escape footer @ ''</p>'' @
     ''</div></div>'') ''<p style=\"\"></p></div></div>'' foot footer"
  by (simp add: says_def fragment_def foot_def style_def LINE_def MUTED_def)

lemma says_layout:
  assumes "says (concat blocks) t a x"
  shows "says (layout heading blocks footer) (''<div style=\"\"><div style=\"\"><h1 style=\"\"></h1>'' @ t @ ''<p style=\"\"></p></div></div>'')
    (shell @ a @ foot) (heading @ x @ footer)"
  using says_append [OF says_open says_append [OF assms says_close]] by (simp add: layout_def)

subsection \<open>Every message\<close>

datatype mail =
    InviteMail string string "string option" "string option"
  | ResultsMail string string string "(string \<times> string \<times> rat) list"
  | OrgMail string string string
  | ConfirmMail string string
  | ChangeMail string string string
  | ResetMail string string

fun render :: "mail \<Rightarrow> email" where
  "render (InviteMail url title org_name support) = invite_mail url title org_name support"
| "render (ResultsMail url candidate title questions) = results_email candidate title url questions"
| "render (OrgMail url inviter org_name) = org_invitation inviter org_name url"
| "render (ConfirmMail url name) = confirm_address name url"
| "render (ChangeMail url name old_email) = change_email_mail name url old_email"
| "render (ResetMail url name) = reset_password_mail name url"

fun mail_url :: "mail \<Rightarrow> string" where
  "mail_url (InviteMail url _ _ _) = url"
| "mail_url (ResultsMail url _ _ _) = url"
| "mail_url (OrgMail url _ _) = url"
| "mail_url (ConfirmMail url _) = url"
| "mail_url (ChangeMail url _ _) = url"
| "mail_url (ResetMail url _) = url"

text \<open>The message with every value that somebody typed left out.\<close>

fun blank :: "mail \<Rightarrow> mail" where
  "blank (InviteMail _ _ _ _) = InviteMail [] [] None None"
| "blank (ResultsMail _ _ _ questions) = ResultsMail [] [] [] (map (\<lambda>_. ([], [], 0)) questions)"
| "blank (OrgMail _ _ _) = OrgMail [] [] []"
| "blank (ConfirmMail _ _) = ConfirmMail [] []"
| "blank (ChangeMail _ _ _) = ChangeMail [] [] []"
| "blank (ResetMail _ _) = ResetMail [] []"

text \<open>The values themselves, in the order in which the page shows them.\<close>

fun values_of :: "mail \<Rightarrow> string list" where
  "values_of (InviteMail url title org_name support) =
     [sender_name org_name, title, url, or_empty support]"
| "values_of (ResultsMail url candidate title questions) = [candidate, title] @ concat (map (\<lambda>(t, v, _). [t, v]) questions) @ [url]"
| "values_of (OrgMail url inviter org_name) = [org_name, inviter, org_name, url]"
| "values_of (ConfirmMail url name) = [name, url]"
| "values_of (ChangeMail url name old_email) = [name, old_email, url]"
| "values_of (ResetMail url name) = [name, url]"

text \<open>The strings occur in the text one after another.\<close>

fun in_order :: "string list \<Rightarrow> string \<Rightarrow> bool" where
  "in_order [] s = True"
| "in_order (w # ws) s = (\<exists>a b. s = a @ w @ b \<and> in_order ws b)"

declare in_order.simps(2) [simp del]

lemma in_order_nil: "in_order [] s" by simp

lemma in_order_take: "in_order ws s \<Longrightarrow> in_order (w # ws) (w @ s)"
  unfolding in_order.simps by (rule exI [of _ "[]"]) auto

lemma in_order_skip: "in_order ws s \<Longrightarrow> in_order ws (a @ s)"
  by (cases ws) (auto simp: in_order.simps, metis append_assoc)

lemma in_order_self: "in_order [w] w"
  using in_order_take [OF in_order_nil, of w "[]"] by simp

lemma in_order_append: "in_order ws s \<Longrightarrow> in_order ws' s' \<Longrightarrow> in_order (ws @ ws') (s @ s')"
proof (induction ws arbitrary: s)
  case Nil
  then show ?case by (simp add: in_order_skip)
next
  case (Cons w ws)
  then obtain a b where s: "s = a @ w @ b" "in_order ws b" by (auto simp: in_order.simps)
  then have "in_order (ws @ ws') (b @ s')" using Cons by simp
  then have "in_order (w # (ws @ ws')) (a @ w @ b @ s')" by (rule in_order_skip [OF in_order_take])
  then show ?case by (simp only: s append_assoc append_Cons)
qed

lemma says_paras:
  "says (concat (map para ps)) (concat (map (\<lambda>_. ''<p style=\"\"></p>'') ps)) (map (\<lambda>_. style P_STYLE) ps) (concat ps)"
proof (induction ps)
  case Nil
  then show ?case using fragment_Nil by (simp add: says_def html_escape_def replace_char_def)
next
  case (Cons q qs)
  show ?case unfolding list.map concat.simps using says_append [OF says_para Cons] by simp
qed

definition page_markup :: "nat \<Rightarrow> string \<Rightarrow> string" where
  "page_markup n extra = ''<div style=\"\"><div style=\"\"><h1 style=\"\"></h1>'' @ concat (replicate n ''<p style=\"\"></p>'') @ extra @
     ''<p style=\"\"><a href=\"\" style=\"\"></a></p>'' @ ''<p style=\"\"><br><span style=\"\"></span></p>'' @ ''<p style=\"\"></p></div></div>''"

text \<open>A page of paragraphs, one more block, the button and the link to copy.\<close>

lemma page_read:
  assumes "says extra t a x" and "list_all (\<lambda>(n, v). n \<noteq> ''href='') a"
    and blocks: "concat blocks = concat (map para ps) @ extra @ action label url @ fallback url"
  shows "markup (layout heading blocks footer) = page_markup (length ps) t"
    and "links (layout heading blocks footer) = [url]"
    and "shown (layout heading blocks footer) = heading @ concat ps @ x @ label @ ''Or paste this into your browser:'' @ url @ footer"
proof -
  have "says (concat blocks) (concat (map (\<lambda>_. ''<p style=\"\"></p>'') ps) @ t @ ''<p style=\"\"><a href=\"\" style=\"\"></a></p>'' @ ''<p style=\"\"><br><span style=\"\"></span></p>'')
     (map (\<lambda>_. style P_STYLE) ps @ a @ [style ''margin:24px 0 0'', (''href='', html_escape url), style B_STYLE] @ [style F_STYLE, style ''color:#1a1a1a''])
     (concat ps @ x @ label @ ''Or paste this into your browser:'' @ url)"
    unfolding blocks by (intro says_append says_paras assms(1) says_action says_fallback)
  note page = says_layout [OF this, of heading footer]
  have p: "filter (\<lambda>(n, v). n = ''href='') (map (\<lambda>_. style P_STYLE) ps) = []" by (induction ps) (simp_all add: style_def)
  have q: "filter (\<lambda>(n, v). n = ''href='') a = []" using assms(2) by (induction a) auto
  note read = fragment_read [OF page [unfolded says_def]]
  have r: "concat (map (\<lambda>_. ''<p style=\"\"></p>'') ps) = concat (replicate (length ps) ''<p style=\"\"></p>'')"
    by (induction ps) auto
  show "markup (layout heading blocks footer) = page_markup (length ps) t"
    using read by (simp add: page_markup_def r)
  show "links (layout heading blocks footer) = [url]"
    using read html_unescape_escape [of url "[]"] by (simp add: p q style_def shell_def foot_def)
  show "shown (layout heading blocks footer) = heading @ concat ps @ x @ label @ ''Or paste this into your browser:'' @ url @ footer"
    using says_shown [OF page] by simp
qed

lemma single_append: "[w] @ ws = w # ws" by simp

lemma says_nil: "says [] [] [] []"
  using fragment_Nil by (simp add: says_def html_escape_def replace_char_def)

lemma no_href_table: "list_all (\<lambda>(n, v). n \<noteq> ''href='') (style z # concat (map row_styles qs))"
  by (induction qs) (auto simp: row_styles_def style_def)

lemma page_one:
  "markup (layout h [para p, action l u, fallback u] f) = page_markup 1 []" (is "?m")
  "links (layout h [para p, action l u, fallback u] f) = [u]" (is "?l")
  "shown (layout h [para p, action l u, fallback u] f) = h @ p @ l @ ''Or paste this into your browser:'' @ u @ f" (is "?s")
proof -
  have b: "concat [para p, action l u, fallback u] = concat (map para [p]) @ [] @ action l u @ fallback u"
    by (simp only: list.map concat.simps append_Nil append_Nil2 append_assoc)
  note r = page_read [OF says_nil _ b, of h f]
  show ?m by (subst r(1)) simp_all
  show ?l by (rule r(2)) simp
  show ?s by (subst r(3)) (simp_all only: list.pred_inject concat.simps append_Nil append_Nil2)
qed

lemma page_two:
  "markup (layout h [para p, para q, action l u, fallback u] f) = page_markup 2 []" (is "?m")
  "links (layout h [para p, para q, action l u, fallback u] f) = [u]" (is "?l")
  "shown (layout h [para p, para q, action l u, fallback u] f) = h @ p @ q @ l @ ''Or paste this into your browser:'' @ u @ f" (is "?s")
proof -
  have b: "concat [para p, para q, action l u, fallback u] = concat (map para [p, q]) @ [] @ action l u @ fallback u"
    by (simp only: list.map concat.simps append_Nil append_Nil2 append_assoc)
  note r = page_read [OF says_nil _ b, of h f]
  show ?m by (subst r(1)) (simp_all add: numeral_2_eq_2)
  show ?l by (rule r(2)) simp
  show ?s by (subst r(3)) (simp_all only: list.pred_inject concat.simps append_Nil append_Nil2 append_assoc)
qed

lemma page_results:
  "markup (layout h [para p, results_table qs, action l u, fallback u] f) =
     page_markup 1 (''<table style=\"\">'' @ concat (replicate (length qs) ''<tr><td style=\"\"></td><td style=\"\"></td></tr>'') @ ''</table>'')" (is "?m")
  "links (layout h [para p, results_table qs, action l u, fallback u] f) = [u]" (is "?l")
  "shown (layout h [para p, results_table qs, action l u, fallback u] f) =
     h @ p @ concat (map row_said qs) @ l @ ''Or paste this into your browser:'' @ u @ f" (is "?s")
proof -
  have b: "concat [para p, results_table qs, action l u, fallback u] = concat (map para [p]) @ results_table qs @ action l u @ fallback u"
    by (simp only: list.map concat.simps append_Nil append_Nil2 append_assoc)
  note r = page_read [OF says_table no_href_table b, of h f]
  show ?m unfolding r(1) by (simp add: map_replicate_const)
  show ?l by (rule r(2))
  show ?s unfolding r(3) by (simp only: list.map concat.simps append_Nil append_Nil2)
qed

lemmas mail_parts = render.simps mail_url.simps blank.simps values_of.simps Let_def email.simps page_one page_two page_results append_assoc

lemma support_shown:
  "in_order [or_empty support] ((if questions_line support = [] then [] else questions_line support @ '' '') @ rest)"
proof (cases "or_empty support = []")
  case False
  then have "(if questions_line support = [] then [] else questions_line support @ '' '') @ rest =
      ''Questions about this assessment? Email '' @ or_empty support @ ''.'' @ '' '' @ rest"
    by (simp add: questions_line_def)
  then show ?thesis by (simp only:) ((rule in_order_nil | rule in_order_take | rule in_order_skip)+)
qed (use in_order_take [OF in_order_nil, of "[]"] in simp)

lemma rows_shown: "in_order (concat (map (\<lambda>(t, v, _). [t, v]) qs)) (concat (map row_said qs))"
proof (induction qs)
  case (Cons q qs)
  obtain t v r where q: "q = (t, v, r)" by (cases q)
  have "in_order [t, v] (row_said (t, v, r))"
    unfolding row_said_def prod.case by (rule in_order_nil | rule in_order_take | rule in_order_skip)+
  from in_order_append [OF this Cons] show ?case by (simp add: q)
qed simp

text \<open>
  C27. Whatever was typed as a title, a name, an address or a verdict, the HTML of every message has the markup of
  the message without any of it, its one link is the link that was meant, and the page shows each of the values as it was typed,
  in the order of the message; the text alternative spells out the link as well.
\<close>

theorem mail_values_stay_text:
  "links (e_html (render m)) = [mail_url m] \<and> markup (e_html (render m)) = markup (e_html (render (blank m))) \<and>
   in_order (values_of m) (shown (e_html (render m))) \<and> in_order [mail_url m] (e_text (render m))"
proof (cases m)
  case (InviteMail url title org_name support)
  show ?thesis
    unfolding InviteMail mail_parts invite_mail_def
    by (intro conjI refl; (rule support_shown | rule in_order_nil | rule in_order_take | rule in_order_skip)+)
next
  case (ResultsMail url candidate title questions)
  have "in_order ([candidate, title] @ concat (map (\<lambda>(t, v, _). [t, v]) questions) @ [url])
      ((candidate @ '' finished '' @ title @ ''Here's how the sitting went:'') @ concat (map row_said questions) @
       ''Open the full result'' @ ''Or paste this into your browser:'' @ url @ ''You're receiving this because you sent this candidate's invitation.'')"
    by (rule in_order_append [OF _ in_order_append [OF rows_shown]])
      ((rule in_order_nil | rule in_order_take | rule in_order_skip)+)
  note shown = this [unfolded append_assoc]
  show ?thesis
    unfolding ResultsMail mail_parts results_email_def length_map
    by (intro conjI refl; (rule shown | rule in_order_self | rule in_order_nil | rule in_order_take | rule in_order_skip)+)
next
  case (OrgMail url inviter org_name)
  show ?thesis
    unfolding OrgMail mail_parts org_invitation_def
    by (intro conjI refl; (rule in_order_nil | rule in_order_take | rule in_order_skip)+)
next
  case (ConfirmMail url name)
  show ?thesis
    unfolding ConfirmMail mail_parts confirm_address_def
    by (intro conjI refl; (rule in_order_nil | rule in_order_take | rule in_order_skip)+)
next
  case (ChangeMail url name old_email)
  show ?thesis
    unfolding ChangeMail mail_parts change_email_mail_def
    by (intro conjI refl; (rule in_order_nil | rule in_order_take | rule in_order_skip)+)
next
  case (ResetMail url name)
  show ?thesis
    unfolding ResetMail mail_parts reset_password_mail_def
    by (intro conjI refl; (rule in_order_nil | rule in_order_take | rule in_order_skip)+)
qed

subsection \<open>Headers\<close>

text \<open>How a mail server splits a list of addresses: at the commas outside quotes.\<close>

fun split_addresses :: "bool \<Rightarrow> string \<Rightarrow> string \<Rightarrow> string list" where
  "split_addresses q acc [] = [rev acc]"
| "split_addresses False acc (ch # cs) =
     (if ch = CHR '','' then rev acc # split_addresses False [] cs
      else split_addresses (ch = CHR 0x22) (ch # acc) cs)"
| "split_addresses True acc (ch # cs) =
     (if ch = CHR 0x5C then (case cs of [] \<Rightarrow> [rev (ch # acc)] | d # ds \<Rightarrow> split_addresses True (d # ch # acc) ds)
      else split_addresses (ch \<noteq> CHR 0x22) (ch # acc) cs)"

lemma split_plain:
  "(\<And>ch. ch \<in> set s \<Longrightarrow> ch \<noteq> CHR '','' \<and> ch \<noteq> CHR 0x22) \<Longrightarrow>
   split_addresses False acc (s @ t) = split_addresses False (rev s @ acc) t"
  by (induction s arbitrary: acc) auto

lemma split_quoted: "split_addresses True acc (escape_quoted s @ t) = split_addresses True (rev (escape_quoted s) @ acc) t"
  by (induction s arbitrary: acc) (simp_all add: escape_quoted_def)

lemma formataddr_one_address:
  assumes "formataddr encoded name address = Inr a"
    and "list_all (\<lambda>ch. ch \<noteq> CHR '','' \<and> ch \<noteq> CHR 0x22) (address @ encoded name)"
  shows "split_addresses False [] a = [a]"
proof -
  have plain: "split_addresses False acc (s @ '' <'' @ address @ ''>'') = [rev acc @ s @ '' <'' @ address @ ''>'']"
    if "\<And>ch. ch \<in> set s \<Longrightarrow> ch \<noteq> CHR '','' \<and> ch \<noteq> CHR 0x22" for s acc
    using split_plain [of "s @ '' <'' @ address @ ''>''" acc "[]"] that assms(2) by (auto simp: list_all_iff)
  consider "name = []" "a = address" | "a = encoded name @ '' <'' @ address @ ''>''"
    | "list_ex special name" "a = CHR 0x22 # escape_quoted name @ CHR 0x22 # '' <'' @ address @ ''>''"
    | "\<not> list_ex special name" "a = escape_quoted name @ '' <'' @ address @ ''>''"
    using assms(1) by (auto simp: formataddr_def Let_def split: if_splits)
  then show ?thesis
  proof cases
    case 1
    then show ?thesis using split_plain [of address "[]" "[]"] assms(2) by (auto simp: list_all_iff)
  next
    case 2
    then show ?thesis using plain [of "encoded name" "[]"] assms(2) by (auto simp: list_all_iff)
  next
    case 3
    then show ?thesis
      using plain [of "[]" "CHR 0x22 # rev (escape_quoted name) @ [CHR 0x22]"] by (simp add: split_quoted)
  next
    case 4
    have "escape_quoted s = s" if "\<not> list_ex special s" for s
      using that by (induction s) (auto simp: escape_quoted_def special_def)
    then have "escape_quoted name = name" using 4 by simp
    then show ?thesis using 4 plain [of name "[]"] by (auto simp: list_ex_iff special_def)
  qed
qed

lemma broken_append: "broken s \<Longrightarrow> broken (a @ s)"
proof (induction a)
  case (Cons ch a)
  have s: "2 \<le> length s" using Cons.prems by (induction s) (auto split: if_splits list.splits)
  then have "a @ s \<noteq> []" "tl (a @ s) \<noteq> []" by (cases a; cases s; auto)+
  then show ?case using Cons by (cases "a @ s") auto
qed simp

text \<open>
  A title is only asked to hold something besides white space. One with a line break in it is accepted, stored and
  shown, but no invitation to it can be sent: the subject does not pass as a header.
\<close>

lemma broken_title_unsendable:
  assumes "broken title"
  shows "mime_message encoded from_name from_address to (invite_mail url title org_name support) reply_to =
    Inl (ValueError ''Header values may not contain linefeed or carriage return characters'')"
proof -
  have "broken (e_subject (invite_mail url title org_name support))"
    unfolding invite_mail_def Let_def email.simps
    by (cases "or_empty org_name \<noteq> []") (simp_all only: if_True if_False not_False_eq_True, (intro broken_append assms)+)
  then show ?thesis by (simp add: mime_message_def mail_header_def)
qed

end
