(* ===== verification/Metrics.thy ===== *)
theory Metrics
  imports Observability Grading Templates "HOL-Library.List_Lexorder" "HOL-Library.Char_ord"
begin

section \<open>Metrics: what a scrape reads\<close>

text \<open>
  The text exposition of \<open>observability.py\<close> and the route \<open>/metrics\<close> of \<open>api.py\<close> with its guard. A float is a rational; what
  Python writes for one that is not whole is \<open>x_repr\<close>. Results received at the same instant are in the order of their
  rows.
\<close>

subsection \<open>Text exposition\<close>

definition LATENCY_BUCKETS :: "rat list" where
  "LATENCY_BUCKETS = [1, 5/2, 5, 10, 30, 60, 120, 300]"

definition prom_escape :: "string \<Rightarrow> string" where
  "prom_escape s = replace_char (CHR 0x0A) [CHR 0x5C, CHR ''n''] (replace_char (CHR 0x22) [CHR 0x5C, CHR 0x22]
     (replace_char (CHR 0x5C) [CHR 0x5C, CHR 0x5C] s))"

definition prom_labels :: "(string \<times> string) list \<Rightarrow> string" where
  "prom_labels labels =
    (if labels = [] then []
     else ''{'' @ py_join '','' (map (\<lambda>(n, v). n @ ''=\"'' @ prom_escape v @ ''\"'') (sort_key fst labels)) @ ''}'')"

definition prom_number :: "externals \<Rightarrow> rat \<Rightarrow> string" where
  "prom_number x q = (if of_int \<lfloor>q\<rfloor> = q then show_int \<lfloor>q\<rfloor> else x_repr x (JFloat q))"

definition prom_family :: "string \<Rightarrow> string \<Rightarrow> string \<Rightarrow> string list \<Rightarrow> string" where
  "prom_family name help kind ls = ''# HELP '' @ name @ '' '' @ help @ nl @ ''# TYPE '' @ name @ '' '' @ kind @ nl @ concat ls"

definition prom_metric :: "externals \<Rightarrow> string \<Rightarrow> string \<Rightarrow> string \<Rightarrow> ((string \<times> string) list \<times> rat) list \<Rightarrow> string" where
  "prom_metric x name help kind samples =
     prom_family name help kind (map (\<lambda>(labels, v). name @ prom_labels labels @ '' '' @ prom_number x v @ nl) samples)"

definition bucket_counts :: "rat list \<Rightarrow> rat list \<Rightarrow> nat list" where
  "bucket_counts buckets values = map (\<lambda>b. count_where (\<lambda>v. v \<le> b) values) buckets"

definition prom_histogram :: "externals \<Rightarrow> string \<Rightarrow> string \<Rightarrow> rat list \<Rightarrow> rat list \<Rightarrow> string" where
  "prom_histogram x name help values buckets =
     prom_family name help ''histogram''
       (map (\<lambda>(b, n). name @ ''_bucket{le=\"'' @ prom_number x b @ ''\"} '' @ show_nat n @ nl) (zip buckets (bucket_counts buckets values)) @
        [name @ ''_bucket{le=\"+Inf\"} '' @ show_nat (length values) @ nl,
         name @ ''_sum '' @ prom_number x (sum_list values) @ nl,
         name @ ''_count '' @ show_nat (length values) @ nl])"

subsection \<open>The scrape\<close>

definition require_metrics_token :: "settings \<Rightarrow> string option \<Rightarrow> exn + unit" where
  "require_metrics_token c header =
    (if c_metrics_token c = []
     then require (c_testing c \<or> c_metrics_auth_disabled c) (HTTPException 503
            (''metrics auth is not configured: set METRICS_TOKEN, or set '' @ ''METRICS_AUTH_DISABLED=true to scrape without auth (dev only).''))
     else require (secret_matches header (c_metrics_token c)) (HTTPException 401 ''invalid or missing X-Assess-Token.''))"

definition SUBMISSION_STATUSES :: "string list" where
  "SUBMISSION_STATUSES = [''pending'', ''running'', ''done'', ''error'']"

definition METRIC_VERDICTS :: "string list" where
  "METRIC_VERDICTS = [''PASS'', ''FAIL'', ''ERROR'']"

definition status_count :: "store \<Rightarrow> string \<Rightarrow> nat" where
  "status_count st status = count_where (\<lambda>s. s_status s = status) (t_submissions st)"

definition verdict_count :: "store \<Rightarrow> string \<Rightarrow> nat" where
  "verdict_count st verdict = count_where (\<lambda>r. r_verdict r = verdict) (t_results st)"

definition giveups :: "settings \<Rightarrow> store \<Rightarrow> nat" where
  "giveups c st = count_where (\<lambda>s. s_status s = ''error'' \<and> s_attempts s \<ge> c_max_trigger_attempts c) (t_submissions st)"

text \<open>The most recent grades, each with the submission it is for.\<close>

definition graded :: "ops_settings \<Rightarrow> store \<Rightarrow> (instant \<times> instant) list" where
  "graded op st = take (nat (op_metrics_max_samples op))
     (sort_key (\<lambda>(received, _). - received)
       (concat (map (\<lambda>r. map (\<lambda>s. (r_received_at r, s_created_at s)) (filter (\<lambda>s. s_id s = r_submission_id r) (t_submissions st)))
         (t_results st))))"

definition latencies :: "ops_settings \<Rightarrow> instant \<Rightarrow> store \<Rightarrow> rat list" where
  "latencies op now st =
     filter (\<lambda>d. d \<ge> 0) (map (\<lambda>(received, created). of_int (received - created) / 1000000)
       (filter (\<lambda>(received, _). received \<ge> now - seconds (op_metrics_window_s op)) (graded op st)))"

definition stalled :: "settings \<Rightarrow> instant \<Rightarrow> store \<Rightarrow> string \<Rightarrow> nat" where
  "stalled c now st state = count_where (\<lambda>s. s_status s = state \<and> s_status s \<in> {''pending'', ''running''} \<and>
      grace_of c s > 0 \<and> s_updated_at s < now - seconds (grace_of c s)) (t_submissions st)"

definition metrics :: "settings \<Rightarrow> ops_settings \<Rightarrow> externals \<Rightarrow> instant \<Rightarrow> store \<Rightarrow> string" where
  "metrics c op x now st =
     prom_metric x ''platform_submissions'' ''Submissions stored, by grading status.'' ''gauge''
       (map (\<lambda>s. ([(''status'', s)], of_nat (status_count st s))) SUBMISSION_STATUSES) @
     prom_metric x ''platform_submissions_stalled'' ''Submissions past their re-trigger grace and awaiting the reaper.'' ''gauge''
       (map (\<lambda>s. ([(''state'', s)], of_nat (stalled c now st s))) [''pending'', ''running'']) @
     prom_metric x ''platform_grade_giveups'' ''Submissions abandoned after MAX_TRIGGER_ATTEMPTS; each needs a human.'' ''gauge''
       [([], of_nat (giveups c st))] @
     prom_metric x ''platform_results'' ''Stored agent results, by verdict.'' ''gauge''
       (map (\<lambda>v. ([(''verdict'', v)], of_nat (verdict_count st v))) METRIC_VERDICTS) @
     prom_histogram x ''platform_grade_latency_seconds''
       (''Submit to stored result, over the last METRICS_WINDOW_S '' @ ''(the most recent METRICS_MAX_SAMPLES grades at most).'')
       (latencies op now st) LATENCY_BUCKETS"

definition get_metrics :: "settings \<Rightarrow> ops_settings \<Rightarrow> externals \<Rightarrow> instant \<Rightarrow> string option \<Rightarrow> store \<Rightarrow> exn + string" where
  "get_metrics c op x now header st = sbind (require_metrics_token c header) (\<lambda>_. Inr (metrics c op x now st))"

subsection \<open>The gauge of the reaper\<close>

lemma reap_rows_ids:
  "\<lbrakk>never_accepts agent; subs_ok st; distinct is; \<forall>j\<in>set is. get_submission j st \<noteq> None\<rbrakk> \<Longrightarrow>
   fst (reap_rows c x agent alone now is st) =
     Inr (filter (\<lambda>j. case get_submission j st of None \<Rightarrow> False | Some r \<Rightarrow> is_stale c now r) is)"
proof (induction "is" arbitrary: st)
  case Nil
  then show ?case by simp
next
  case (Cons j js)
  obtain r where r: "get_submission j st = Some r" using Cons.prems(4) by auto
  obtain st1 where one: "reap_one c x agent alone now j st = (Inr (if is_stale c now r then [j] else []), st1)"
    using reap_one_down [OF Cons.prems(1,2) r, of c x now] by (cases "reap_one c x agent alone now j st") auto
  note down = reap_one_down [OF Cons.prems(1,2) r, of c x now, unfolded one snd_conv]
  have same: "get_submission k st1 = get_submission k st" if "k \<in> set js" for k
    using down that Cons.prems(3) by auto
  have "fst (reap_rows c x agent alone now js st1) =
      Inr (filter (\<lambda>j. case get_submission j st1 of None \<Rightarrow> False | Some r \<Rightarrow> is_stale c now r) js)"
    using Cons.IH [of st1] down Cons.prems same by auto
  also have "filter (\<lambda>j. case get_submission j st1 of None \<Rightarrow> False | Some r \<Rightarrow> is_stale c now r) js =
      filter (\<lambda>j. case get_submission j st of None \<Rightarrow> False | Some r \<Rightarrow> is_stale c now r) js"
    by (rule filter_cong) (simp_all add: same)
  finally have rest: "fst (reap_rows c x agent alone now js st1) =
      Inr (filter (\<lambda>j. case get_submission j st of None \<Rightarrow> False | Some r \<Rightarrow> is_stale c now r) js)" .
  then show ?case
    by (cases "reap_rows c x agent alone now js st1") (simp add: one r)
qed

lemma get_submission_of: "subs_ok st \<Longrightarrow> s \<in> set (t_submissions st) \<Longrightarrow> get_submission (s_id s) st = Some s"
  unfolding subs_ok_def get_submission_def by (rule find_unique)

text \<open>
  The gauge of stalled submissions counts exactly the rows that the reaper acts on, whichever attempts they have left: a
  pass of the reaper at the time of the scrape, while the agent is down, answers with as many ids as the scrape reports, and every
  one of them is a submission that the scrape counted.
\<close>

theorem stalled_is_the_reapers:
  assumes "never_accepts agent" and "subs_ok st"
  shows "\<exists>ids. fst (reap_tick c x agent alone now st) = Inr ids \<and> distinct ids \<and>
     length ids = stalled c now st ''pending'' + stalled c now st ''running'' \<and>
     (\<forall>state. length (filter (\<lambda>i. map_option s_status (get_submission i st) = Some state) ids) = stalled c now st state)"
proof -
  let ?ids = "map s_id (filter (\<lambda>s. is_stale c now s) (filter (\<lambda>s. s_status s \<in> {''pending'', ''running''}) (t_submissions st)))"
  have u: "distinct (map s_id (t_submissions st))" using assms(2) by (simp add: subs_ok_def unique_key_def)
  have d: "distinct (stranded st)" unfolding stranded_def using u by (rule distinct_map_filter)
  have e: "\<forall>j\<in>set (stranded st). get_submission j st \<noteq> None" using get_submission_in by (auto simp: stranded_def)
  have f: "filter (\<lambda>j. case get_submission j st of None \<Rightarrow> False | Some r \<Rightarrow> is_stale c now r) (map s_id ss) =
      map s_id (filter (\<lambda>s. is_stale c now s) ss)" if "set ss \<subseteq> set (t_submissions st)" for ss
    using that by (induction ss) (auto simp: get_submission_of [OF assms(2)])
  have ids: "fst (reap_tick c x agent alone now st) = Inr ?ids"
    using reap_rows_ids [OF assms d e, of c x now] f [of "filter (\<lambda>s. s_status s \<in> {''pending'', ''running''}) (t_submissions st)"]
    by (simp add: reap_tick_def stranded_def)
  have g: "filter (\<lambda>i. map_option s_status (get_submission i st) = Some state) (map s_id ss) = map s_id (filter (\<lambda>s. s_status s = state) ss)"
    if "set ss \<subseteq> set (t_submissions st)" for ss state
    using that by (induction ss) (auto simp: get_submission_of [OF assms(2)])
  have per: "length (filter (\<lambda>i. map_option s_status (get_submission i st) = Some state) ?ids) = stalled c now st state" for state
    by (subst g) (auto simp: stalled_def count_where_def is_stale_def intro!: arg_cong [where f = length] filter_cong)
  have two: "length (filter p ss) = length (filter (\<lambda>s. s_status s = ''pending'' \<and> p s) ss) + length (filter (\<lambda>s. s_status s = ''running'' \<and> p s) ss)"
    if "\<And>s. p s \<Longrightarrow> s_status s \<in> {''pending'', ''running''}" for p and ss :: "submission list"
    using that by (induction ss) auto
  have "length ?ids = stalled c now st ''pending'' + stalled c now st ''running''"
    using two [of "\<lambda>s. s_status s \<in> {''pending'', ''running''} \<and> is_stale c now s" "t_submissions st"]
    by (simp add: stalled_def count_where_def is_stale_def conj_commute conj_left_commute)
  moreover have "distinct ?ids" using u by (intro distinct_map_filter)
  ultimately show ?thesis using ids per by blast
qed

lemma stalled_is_the_reapers_witness:
  "\<exists>ids. fst (reap_tick default_settings example_externals (\<lambda>_ _. Inl ConnectError) alone 1000000000
      (empty_store\<lparr>t_submissions := [example_submission]\<rparr>)) = Inr ids \<and> length ids = 1"
proof -
  have a: "never_accepts (\<lambda>_ _. Inl ConnectError)" by (simp add: never_accepts_def outcome_of_def trigger_refusal_def)
  have b: "subs_ok (empty_store\<lparr>t_submissions := [example_submission]\<rparr>)" by (simp add: subs_ok_def unique_key_def)
  have "stalled default_settings 1000000000 (empty_store\<lparr>t_submissions := [example_submission]\<rparr>) ''pending'' +
      stalled default_settings 1000000000 (empty_store\<lparr>t_submissions := [example_submission]\<rparr>) ''running'' = 1" by code_simp
  then show ?thesis
    using stalled_is_the_reapers [OF a b, of default_settings example_externals 1000000000] by metis
qed

subsection \<open>The histogram and the labels\<close>

text \<open>The buckets are cumulative, and the last one never exceeds the count.\<close>

lemma filter_more: "(\<And>v. p v \<Longrightarrow> q v) \<Longrightarrow> length (filter p vs) \<le> length (filter q vs)"
  by (induction vs) (auto simp: le_SucI)

lemma buckets_cumulative:
  "sorted bs \<Longrightarrow> sorted (bucket_counts bs vs) \<and> list_all (\<lambda>n. n \<le> length vs) (bucket_counts bs vs)"
proof
  assume "sorted bs"
  then show "sorted (bucket_counts bs vs)"
    unfolding bucket_counts_def sorted_map count_where_def
    by (rule sorted_wrt_mono_rel [rotated]) (rule filter_more, simp)
  show "list_all (\<lambda>n. n \<le> length vs) (bucket_counts bs vs)"
    by (auto simp: bucket_counts_def count_where_def list_all_iff)
qed

text \<open>How a scraper reads a label: up to the quote, with the escapes undone.\<close>

fun read_label :: "string \<Rightarrow> string \<times> string" where
  "read_label [] = ([], [])"
| "read_label (ch # cs) =
     (if ch = CHR 0x22 then ([], cs)
      else if ch = CHR 0x5C
      then (case cs of [] \<Rightarrow> ([], [])
            | d # ds \<Rightarrow> (case read_label ds of (v, rest) \<Rightarrow> ((if d = CHR ''n'' then CHR 0x0A else d) # v, rest)))
      else (case read_label cs of (v, rest) \<Rightarrow> (ch # v, rest)))"

definition prom_char :: "char \<Rightarrow> string" where
  "prom_char ch = (if ch = CHR 0x5C then [CHR 0x5C, CHR 0x5C] else if ch = CHR 0x22 then [CHR 0x5C, CHR 0x22]
     else if ch = CHR 0x0A then [CHR 0x5C, CHR ''n''] else [ch])"

lemma prom_escape_chars: "prom_escape s = concat (map prom_char s)"
  by (induction s) (auto simp: prom_escape_def replace_char_def prom_char_def)

lemma label_round_trip: "read_label (prom_escape s @ CHR 0x22 # rest) = (s, rest)"
  by (induction s) (auto simp: prom_escape_chars prom_char_def)

text \<open>Nothing is served without a secret unless the deployment says so.\<close>

lemma metrics_closed:
  "c_metrics_token c = [] \<Longrightarrow> \<not> c_testing c \<Longrightarrow> \<not> c_metrics_auth_disabled c \<Longrightarrow>
   \<exists>d. get_metrics c op x now header st = Inl (HTTPException 503 d)"
  by (simp add: get_metrics_def require_metrics_token_def require_def)

end
