(* ===== verification/Boot.thy ===== *)
theory Boot
  imports Mail Observability Templates LibrarySafety
begin

section \<open>Boot: when the server starts, and what it answers before it knows anybody\<close>

text \<open>
  The boot checks and the lifespan of \<open>api.py\<close> with \<open>missing_smtp_vars\<close> of \<open>config.py\<close>, the probes \<open>/health\<close> and
  \<open>/public-config\<close>, and the audit that \<open>scripts/check_question_cases.py\<close> runs at a deployment.
\<close>

subsection \<open>Mail must be configured\<close>

definition SMTP_FROM_PLACEHOLDER :: string where
  "SMTP_FROM_PLACEHOLDER = ''no-reply@assessment.local''"

definition missing_smtp_vars :: "environ \<Rightarrow> string list" where
  "missing_smtp_vars env =
    (let from_address = getenv env ''SMTP_FROM'' ''no-reply@assessment.local'' in
     map fst (filter (\<lambda>(_, value). or_empty value = [])
       [(''SMTP_HOST'', env ''SMTP_HOST''), (''SMTP_PORT'', Some (getenv env ''SMTP_PORT'' ''587'')),
        (''SMTP_USER'', getenv_or_none env ''SMTP_USER''), (''SMTP_PASSWORD'', getenv_or_none env ''SMTP_PASSWORD''),
        (''SMTP_FROM'', if from_address = SMTP_FROM_PLACEHOLDER then None else Some from_address)]))"

definition require_email_configured :: "settings \<Rightarrow> environ \<Rightarrow> exn + unit" where
  "require_email_configured c env =
    (if c_testing c \<or> flag_set env ''ALLOW_UNCONFIGURED_EMAIL'' [] then Inr ()
     else require (missing_smtp_vars env = []) (RuntimeError
       (''Email is not configured, so invites, address confirmations and password resets could not be delivered. Missing: '' @
        py_join '', '' (missing_smtp_vars env) @ ''. Set them in .env (see .env.example) '' @ em_dash @ '' for a Gmail sender SMTP_PASSWORD is a '' @
        ''16-character app password, not the account password, and SMTP_FROM must be a real mailbox rather than the '' @
        ''no-reply@assessment.local placeholder. For offline local dev, start with ALLOW_UNCONFIGURED_EMAIL=true to log '' @
        ''links instead of sending them.'')))"

text \<open>What is logged as a problem, if anything; rejected credentials raise.\<close>

definition check_email_deliverable :: "settings \<Rightarrow> mail_settings \<Rightarrow> smtp \<Rightarrow> exn + string option" where
  "check_email_deliverable c ms sm =
    (if c_testing c then Inr None
     else case check_login ms sm of
       Healthy \<Rightarrow> Inr None
     | Unproven problem \<Rightarrow> Inr (Some problem)
     | CredentialsRejected \<Rightarrow> Inl (RuntimeError ''SmtpCredentialsRejectedError''))"

subsection \<open>The lifespan\<close>

datatype background_task = ReaperLoop | RetentionLoop

record running =
  ru_logging :: "(string \<times> json) list option"
  ru_sentry :: "sentry_options option"
  ru_mail_problem :: "string option"
  ru_creates_tables :: bool
  ru_tasks :: "background_task list"

definition lifespan :: "settings \<Rightarrow> ops_settings \<Rightarrow> environ \<Rightarrow> mail_settings \<Rightarrow> smtp \<Rightarrow> exn + running" where
  "lifespan c op env ms sm =
     sbind (require_email_configured c env) (\<lambda>_.
     sbind (check_email_deliverable c ms sm) (\<lambda>problem.
       Inr \<lparr>ru_logging = (if c_testing c then None else Some (configure_logging op)), ru_sentry = init_sentry c op,
            ru_mail_problem = problem, ru_creates_tables = flag_true env ''AUTO_CREATE_TABLES'' ''false'',
            ru_tasks = (if c_reap_interval_s c > 0 then [ReaperLoop] else []) @ (if c_retention_interval_s c > 0 then [RetentionLoop] else [])\<rparr>))"

text \<open>
  A server that is up has a mailer: unless it is told otherwise, it has a host, a login and a sender of its own, and the
  provider has not refused the login.
\<close>

lemma started_server_has_mail:
  assumes "lifespan c op env (mail_settings_of env (c_testing c) float_of) sm = Inr r" and "\<not> c_testing c"
    and "\<not> flag_set env ''ALLOW_UNCONFIGURED_EMAIL'' []"
  shows "ms_host (mail_settings_of env (c_testing c) float_of) \<noteq> None \<and> has_credentials (mail_settings_of env (c_testing c) float_of) \<and>
    check_login (mail_settings_of env (c_testing c) float_of) sm \<noteq> CredentialsRejected"
proof -
  from assms obtain p where m: "missing_smtp_vars env = []"
    and p: "check_email_deliverable c (mail_settings_of env (c_testing c) float_of) sm = Inr p"
    by (auto simp: lifespan_def require_email_configured_def require_def elim!: sbind_InrE split: if_splits)
  have "or_empty (env ''SMTP_HOST'') \<noteq> []" "getenv_or_none env ''SMTP_USER'' \<noteq> None" "getenv_or_none env ''SMTP_PASSWORD'' \<noteq> None"
    using m by (auto simp: missing_smtp_vars_def Let_def or_empty_def split: if_splits option.splits)
  then show ?thesis
    using p assms(2) by (auto simp: mail_settings_of_def has_credentials_def getenv_or_none_def or_empty_def check_email_deliverable_def
        split: option.splits if_splits)
qed

lemma test_server_runs_alone:
  assumes "load_settings env e = Inr c" and "c_testing c" and "lifespan c op env ms sm = Inr r"
  shows "ru_tasks r = [] \<and> ru_sentry r = None \<and> ru_logging r = None"
  using load_settings_testing [OF assms(1,2)] assms(2,3) by (auto simp: lifespan_def init_sentry_def elim!: sbind_InrE)

subsection \<open>Probes\<close>

definition health :: "string option \<Rightarrow> exn + string" where
  "health database_error = (case database_error of None \<Rightarrow> Inr ''ok'' | Some _ \<Rightarrow> Inl (HTTPException 503 ''database unavailable''))"

definition public_config :: "settings \<Rightarrow> string option" where
  "public_config c = generic_contact_email c"

subsection \<open>The audit of the stored questions\<close>

definition find_offenders :: "store \<Rightarrow> (string \<times> string list) list" where
  "find_offenders st = filter (\<lambda>(_, problems). problems \<noteq> [])
     (map (\<lambda>q. (q_id q, case_floor_violations (map tc_category (question_cases q st)))) (t_questions st))"

definition audit :: "store \<Rightarrow> int \<times> string list" where
  "audit st =
    (let offenders = find_offenders st
     in if offenders = [] then (0, [''OK: every stored question satisfies the case floor.''])
        else (1, (''FAIL: '' @ show_nat (length offenders) @ '' question(s) would fail grading:'') #
               map (\<lambda>(qid, problems). ''  - '' @ qid @ '': '' @ py_join ''; '' problems) offenders))"

text \<open>Where every stored question satisfies today's rules, the audit finds nothing.\<close>

lemma audit_of_the_library:
  assumes "\<forall>q\<in>set (t_questions st). sound_question x st q"
  shows "audit st = (0, [''OK: every stored question satisfies the case floor.''])"
proof -
  have "case_floor_violations (map tc_category (question_cases q st)) = []" if "q \<in> set (t_questions st)" for q
  proof -
    have "enforce_case_floor (cases_in q st) = Inr ()" using assms that by (simp add: sound_question_def)
    then show ?thesis by (simp add: enforce_case_floor_def cases_in_def comp_def case_in_of_def Let_def split: if_splits)
  qed
  then have "find_offenders st = []" by (auto simp: find_offenders_def)
  then show ?thesis by (simp add: audit_def)
qed

end
