(* ===== verification/Contract.thy ===== *)
theory Contract
  imports Grading
begin

section \<open>Contract: the callback the agent promises and the one the platform takes\<close>

text \<open>
  \<open>contract/callback_contract.py\<close>, the boundary between the two repositories, and what its promise means to the callback
  route. The agent checks a payload with \<open>validate_callback\<close> before it sends it.
\<close>

definition VERDICTS :: "string list" where
  "VERDICTS = [''PASS'', ''FAIL'', ''ERROR'']"

text \<open>\<open>isinstance\<close>: a bool is an int.\<close>

definition is_text :: "json \<Rightarrow> bool" where
  "is_text j = (case j of JStr _ \<Rightarrow> True | _ \<Rightarrow> False)"

definition is_number :: "json \<Rightarrow> bool" where
  "is_number j = (case j of JInt _ \<Rightarrow> True | JFloat _ \<Rightarrow> True | JBool _ \<Rightarrow> True | _ \<Rightarrow> False)"

definition GRADED_REQUIRED :: "(string \<times> (json \<Rightarrow> bool)) list" where
  "GRADED_REQUIRED = [(''verdict'', is_text), (''score_pct'', is_number), (''reason'', is_text)]"

definition type_name :: "json \<Rightarrow> string" where
  "type_name j = (case j of JNull \<Rightarrow> ''NoneType'' | JBool _ \<Rightarrow> ''bool'' | JInt _ \<Rightarrow> ''int'' | JFloat _ \<Rightarrow> ''float''
     | JStr _ \<Rightarrow> ''str'' | JList _ \<Rightarrow> ''list'' | JObj _ \<Rightarrow> ''dict'')"

definition sends_error :: "payload_dict \<Rightarrow> bool" where
  "sends_error p = (truthy (dict_get p ''error'') \<or> dict_get p ''status'' = JStr ''error'')"

definition job_id_errors :: "payload_dict \<Rightarrow> string list" where
  "job_id_errors p = (if is_text (dict_get p ''job_id'') \<and> dict_get p ''job_id'' \<noteq> JStr [] then []
     else [''missing or empty required field: '' @ py_repr ''job_id''])"

definition field_errors :: "payload_dict \<Rightarrow> string \<times> (json \<Rightarrow> bool) \<Rightarrow> string list" where
  "field_errors p = (\<lambda>(key, typed).
     if map_of p key = None then [''missing required field: '' @ py_repr key]
     else if \<not> typed (dict_get p key) then [''field '' @ py_repr key @ '' has wrong type: '' @ type_name (dict_get p key)]
     else [])"

definition verdict_repr :: "externals \<Rightarrow> json \<Rightarrow> string" where
  "verdict_repr x j = (case j of JStr s \<Rightarrow> py_repr s | _ \<Rightarrow> py_str x j)"

definition verdict_errors :: "externals \<Rightarrow> payload_dict \<Rightarrow> string list" where
  "verdict_errors x p =
    (let v = dict_get p ''verdict''
     in if v \<noteq> JNull \<and> v \<notin> JStr ` set VERDICTS
        then [''verdict '' @ verdict_repr x v @ '' not in ('' @ py_join '', '' (map py_repr VERDICTS) @ '')''] else [])"

definition validate_callback :: "externals \<Rightarrow> json \<Rightarrow> string list" where
  "validate_callback x j =
    (case j of
       JObj p \<Rightarrow>
         if sends_error p then job_id_errors p
         else job_id_errors p @ concat (map (field_errors p) GRADED_REQUIRED) @ verdict_errors x p
     | _ \<Rightarrow> [''payload is not a JSON object''])"

subsection \<open>What conforms is stored as it was sent\<close>

text \<open>A graded payload that conforms: its verdict is one of the three, its score a number, its reason a text.\<close>

lemma conforming_parts:
  assumes "validate_callback x (JObj p) = []" and "\<not> sends_error p"
  shows "\<exists>job v r. dict_get p ''job_id'' = JStr job \<and> job \<noteq> [] \<and> dict_get p ''verdict'' = JStr v \<and> v \<in> set VERDICTS \<and>
    is_number (dict_get p ''score_pct'') \<and> dict_get p ''reason'' = JStr r"
proof -
  have job: "is_text (dict_get p ''job_id'')" "dict_get p ''job_id'' \<noteq> JStr []"
    and v: "is_text (dict_get p ''verdict'')" and sc: "is_number (dict_get p ''score_pct'')" and r: "is_text (dict_get p ''reason'')"
    and k: "verdict_errors x p = []"
    using assms by (auto simp: validate_callback_def job_id_errors_def GRADED_REQUIRED_def field_errors_def split: if_splits)
  obtain j w t where e: "dict_get p ''job_id'' = JStr j" "dict_get p ''verdict'' = JStr w" "dict_get p ''reason'' = JStr t"
    using job(1) v r by (auto simp: is_text_def split: json.splits)
  have "w \<in> set VERDICTS" using k e by (auto simp: verdict_errors_def Let_def split: if_splits)
  then show ?thesis using e job(2) sc by auto
qed

lemma score_of_number: "is_number j \<Longrightarrow> \<exists>q. py_float x (if truthy j then j else JFloat 0) = Inr q \<and> py_float x j = Inr q"
  by (cases j) (auto simp: is_number_def py_float_def)

text \<open>
  What the contract lets through is what the platform records: a graded payload that conforms, for a known
  job, is accepted, and the result row holds exactly its verdict, its score, its reason and the payload; the submission is \<open>done\<close>
  unless the verdict is ERROR or the infrastructure failed, and nobody else's row moves.
\<close>

theorem conforming_grade_stored:
  fixes c :: settings
  assumes "validate_callback x (JObj p) = []" and "\<not> sends_error p" and "job_submission p st = Some sub"
    and "subs_ok st" and "results_ok st" and "usage_ok st" and "0 \<le> now"
  shows "\<exists>st' res row. assessments_callback c x alone now p st = (Inr (Accepted (s_id sub)), st') \<and>
    result_for (s_id sub) st' = Some res \<and> get_submission (s_id sub) st' = Some row \<and>
    JStr (r_verdict res) = dict_get p ''verdict'' \<and> r_verdict res \<in> set VERDICTS \<and>
    Inr (r_score_pct res) = py_float x (dict_get p ''score_pct'') \<and> JStr (r_reason res) = dict_get p ''reason'' \<and> r_full_result res = p \<and>
    s_status row = (if r_verdict res = ''ERROR'' \<or> truthy (dict_get p ''infra_error'') then ''error'' else ''done'') \<and>
    (\<forall>j. j \<noteq> s_id sub \<longrightarrow> get_submission j st' = get_submission j st \<and> result_for j st' = result_for j st)"
proof -
  obtain job v t where p: "dict_get p ''job_id'' = JStr job" "job \<noteq> []" "dict_get p ''verdict'' = JStr v" "v \<in> set VERDICTS"
    "is_number (dict_get p ''score_pct'')" "dict_get p ''reason'' = JStr t" using conforming_parts [OF assms(1,2)] by blast
  obtain q where q: "py_float x (get_or p ''score_pct'' (JFloat 0)) = Inr q" "py_float x (dict_get p ''score_pct'') = Inr q"
    using score_of_number [OF p(5), of x] by (auto simp: get_or_def)
  have err: "\<not> truthy (dict_get p ''error'')" using assms(2) by (simp add: sends_error_def)
  have cv: "callback_verdict x p = v" using p(3,4) by (auto simp: callback_verdict_def get_or_def py_str_def VERDICTS_def)
  have cr: "callback_reason x p = t" using p(6) err by (auto simp: callback_reason_def get_or_def py_str_def)
  have tj: "truthy (dict_get p ''job_id'')" and nn: "dict_get p ''verdict'' \<noteq> JNull" using p by simp_all
  obtain reply st' where r: "assessments_callback c x alone now p st = (reply, st')" by fastforce
  note stored = callback_stores_result [OF assms(3) tj nn q(1) assms(4-7), of c, unfolded r fst_conv snd_conv cv cr]
  then obtain res row where "reply = Inr (Accepted (s_id sub))" "result_for (s_id sub) st' = Some res" "r_full_result res = p"
    "r_score_pct res = q" "r_verdict res = v" "r_reason res = t" "get_submission (s_id sub) st' = Some row"
    "s_status row = (if is_error_payload p v then ''error'' else ''done'')"
    "\<forall>j. j \<noteq> s_id sub \<longrightarrow> get_submission j st' = get_submission j st \<and> result_for j st' = result_for j st" by blast
  then show ?thesis using r p q(2) err by (auto simp: is_error_payload_def)
qed

lemma conforming_grade_stored_witness:
  "validate_callback example_externals (JObj example_payload) = [] \<and>
   (\<exists>st' res. assessments_callback default_settings example_externals alone 9 example_payload graded_store = (Inr (Accepted ''s1''), st') \<and>
     result_for ''s1'' st' = Some res \<and> r_verdict res = ''PASS'' \<and> r_score_pct res = 90)"
proof -
  have a: "validate_callback example_externals (JObj example_payload) = []" "\<not> sends_error example_payload" by code_simp+
  have i: "s_id example_graded = ''s1''" by (simp add: example_graded_def)
  have s: "py_float example_externals (dict_get example_payload ''score_pct'') = Inr 90"
    by (simp add: example_payload_def dict_get_def py_float_def)
  show ?thesis
    using conforming_grade_stored [OF a example_payload_facts(4,5,6,7), of 9 default_settings] a(1) i s
    by (auto simp: example_payload_facts)
qed

text \<open>
  The other half of the contract only asks for a job: an error payload may carry any verdict and any score. A
  verdict that is not one of the three is stored and shown, and no gauge counts it; a score that is no number is answered 500.
\<close>

definition odd_error :: "json \<Rightarrow> json \<Rightarrow> payload_dict" where
  "odd_error verdict score = [(''job_id'', JStr ''s1''), (''error'', JStr ''boom''), (''verdict'', verdict), (''score_pct'', score)]"

lemma conforming_error_stored_oddly:
  "validate_callback example_externals (JObj (odd_error (JStr ''MAYBE'') (JInt 1))) = []"
  "map r_verdict (t_results (snd (assessments_callback default_settings example_externals alone 9 (odd_error (JStr ''MAYBE'') (JInt 1)) graded_store))) = [''MAYBE'']"
  "validate_callback example_externals (JObj (odd_error (JStr ''FAIL'') (JList [JInt 1]))) = []"
  "fst (assessments_callback default_settings example_externals alone 9 (odd_error (JStr ''FAIL'') (JList [JInt 1])) graded_store) = Inl TypeError"
  subgoal by code_simp
  subgoal by code_simp
  subgoal by code_simp
  by code_simp

end
