(* ===== verification/Schema.thy ===== *)
theory Schema
  imports Prelude
begin

text \<open>
  The database schema as the tables of \<open>models.py\<close> declare it, and what the schema operations of
  a migration do to one. \<open>model_table\<close> follows SQLModel's \<open>Field\<close>: an index is named
  \<open>ix_<table>_<column>\<close>, a field both unique and indexed gets one unique index, a field only
  unique a constraint without a name. \<open>effect\<close> is the documented effect of Alembic's
  operations on a database: it refuses (\<open>None\<close>) an operation on something missing or
  already there, and a NOT NULL column without a default, which a table that has rows
  cannot take. The engine that really runs them is an argument of \<open>migrate\<close>.
\<close>

section \<open>Tables, columns and what hangs on them\<close>

datatype coltype = TInteger | TText | TFloat | TDateTime | TBoolean | TJson | TBlob

record column_def =
  c_name :: string
  c_type :: coltype
  c_null :: bool
  c_default :: "string option"

record fkey =
  fk_name :: "string option"
  fk_col :: string
  fk_table :: string
  fk_ref :: string

record index_def =
  ix_name :: string
  ix_cols :: "string list"
  ix_unique :: bool

record table_def =
  tb_name :: string
  tb_cols :: "column_def list"
  tb_pk :: "string list"
  tb_fks :: "fkey list"
  tb_uniques :: "(string option \<times> string list) list"
  tb_indexes :: "index_def list"

type_synonym schema = "table_def list"

definition required :: "string \<Rightarrow> coltype \<Rightarrow> column_def" where
  "required n t = \<lparr>c_name = n, c_type = t, c_null = False, c_default = None\<rparr>"

definition nullable :: "string \<Rightarrow> coltype \<Rightarrow> column_def" where
  "nullable n t = \<lparr>c_name = n, c_type = t, c_null = True, c_default = None\<rparr>"

definition with_default :: "string \<Rightarrow> column_def \<Rightarrow> column_def" where
  "with_default d c = c\<lparr>c_default := Some d\<rparr>"

definition fk_on :: "string \<Rightarrow> string \<Rightarrow> fkey" where
  "fk_on col ref = \<lparr>fk_name = None, fk_col = col, fk_table = ref, fk_ref = ''id''\<rparr>"

definition new_table :: "string \<Rightarrow> column_def list \<Rightarrow> string list \<Rightarrow> fkey list
    \<Rightarrow> (string option \<times> string list) list \<Rightarrow> table_def" where
  "new_table n cs pk fks us = \<lparr>tb_name = n, tb_cols = cs, tb_pk = pk, tb_fks = fks,
     tb_uniques = us, tb_indexes = []\<rparr>"

section \<open>The operations of a migration\<close>

datatype ddl = CreateTable table_def
  | DropTable string
  | AddColumn string column_def
  | DropColumn string string
  | AlterColumn string string bool
  | CreateIndex string string "string list" bool
  | DropIndex string string
  | CreateUnique string string "string list"
  | CreateForeignKey string string string string
  | DropConstraint string string
  | Backfill

definition has_column :: "string \<Rightarrow> table_def \<Rightarrow> bool" where
  "has_column c t = list_ex (\<lambda>k. c_name k = c) (tb_cols t)"

definition has_table :: "string \<Rightarrow> schema \<Rightarrow> bool" where
  "has_table n s = list_ex (\<lambda>t. tb_name t = n) s"

definition has_index :: "string \<Rightarrow> schema \<Rightarrow> bool" where
  "has_index n s = list_ex (\<lambda>t. list_ex (\<lambda>i. ix_name i = n) (tb_indexes t)) s"

definition constraint_names :: "table_def \<Rightarrow> string option list" where
  "constraint_names t = map fst (tb_uniques t) @ map fk_name (tb_fks t)"

definition well_formed :: "schema \<Rightarrow> table_def \<Rightarrow> bool" where
  "well_formed s t =
     (distinct (map c_name (tb_cols t)) \<and> list_all (\<lambda>c. has_column c t) (tb_pk t)
      \<and> list_all (\<lambda>f. has_column (fk_col f) t \<and> (fk_table f = tb_name t \<or> has_table (fk_table f) s)) (tb_fks t)
      \<and> list_all (\<lambda>u. list_all (\<lambda>c. has_column c t) (snd u)) (tb_uniques t)
      \<and> list_all (\<lambda>i. list_all (\<lambda>c. has_column c t) (ix_cols i)) (tb_indexes t))"

fun on_table :: "string \<Rightarrow> (table_def \<Rightarrow> table_def option) \<Rightarrow> schema \<Rightarrow> schema option" where
  "on_table n f [] = None"
| "on_table n f (t # s) =
     (if tb_name t = n then map_option (\<lambda>t'. t' # s) (f t) else map_option ((#) t) (on_table n f s))"

definition add_column :: "column_def \<Rightarrow> table_def \<Rightarrow> table_def option" where
  "add_column c t =
     (if has_column (c_name c) t \<or> \<not> c_null c \<and> c_default c = None then None
      else Some (t\<lparr>tb_cols := tb_cols t @ [c]\<rparr>))"

text \<open>Dropping a column drops the indexes and the constraints it is part of.\<close>

definition drop_column :: "string \<Rightarrow> table_def \<Rightarrow> table_def option" where
  "drop_column c t =
     (if \<not> has_column c t \<or> c \<in> set (tb_pk t) then None
      else Some (t\<lparr>tb_cols := filter (\<lambda>k. c_name k \<noteq> c) (tb_cols t),
                    tb_fks := filter (\<lambda>f. fk_col f \<noteq> c) (tb_fks t),
                    tb_uniques := filter (\<lambda>u. c \<notin> set (snd u)) (tb_uniques t),
                    tb_indexes := filter (\<lambda>i. c \<notin> set (ix_cols i)) (tb_indexes t)\<rparr>))"

definition alter_column :: "string \<Rightarrow> bool \<Rightarrow> table_def \<Rightarrow> table_def option" where
  "alter_column c nul t =
     (if has_column c t
      then Some (t\<lparr>tb_cols := map (\<lambda>k. if c_name k = c then k\<lparr>c_null := nul\<rparr> else k) (tb_cols t)\<rparr>)
      else None)"

definition create_index :: "string \<Rightarrow> string list \<Rightarrow> bool \<Rightarrow> table_def \<Rightarrow> table_def option" where
  "create_index n cs u t =
     (if list_all (\<lambda>c. has_column c t) cs
      then Some (t\<lparr>tb_indexes := tb_indexes t @ [\<lparr>ix_name = n, ix_cols = cs, ix_unique = u\<rparr>]\<rparr>)
      else None)"

definition drop_index :: "string \<Rightarrow> table_def \<Rightarrow> table_def option" where
  "drop_index n t =
     (if list_ex (\<lambda>i. ix_name i = n) (tb_indexes t)
      then Some (t\<lparr>tb_indexes := filter (\<lambda>i. ix_name i \<noteq> n) (tb_indexes t)\<rparr>) else None)"

definition create_unique :: "string \<Rightarrow> string list \<Rightarrow> table_def \<Rightarrow> table_def option" where
  "create_unique n cs t =
     (if list_all (\<lambda>c. has_column c t) cs \<and> Some n \<notin> set (constraint_names t)
      then Some (t\<lparr>tb_uniques := tb_uniques t @ [(Some n, cs)]\<rparr>) else None)"

definition create_fk :: "string \<Rightarrow> string \<Rightarrow> string \<Rightarrow> table_def \<Rightarrow> table_def option" where
  "create_fk n ref c t =
     (if has_column c t \<and> Some n \<notin> set (constraint_names t)
      then Some (t\<lparr>tb_fks := tb_fks t @ [\<lparr>fk_name = Some n, fk_col = c, fk_table = ref, fk_ref = ''id''\<rparr>]\<rparr>)
      else None)"

definition drop_constraint :: "string \<Rightarrow> table_def \<Rightarrow> table_def option" where
  "drop_constraint n t =
     (if Some n \<in> set (constraint_names t)
      then Some (t\<lparr>tb_uniques := filter (\<lambda>u. fst u \<noteq> Some n) (tb_uniques t),
                    tb_fks := filter (\<lambda>f. fk_name f \<noteq> Some n) (tb_fks t)\<rparr>) else None)"

fun effect :: "ddl \<Rightarrow> schema \<Rightarrow> schema option" where
  "effect (CreateTable t) s =
     (if has_table (tb_name t) s \<or> \<not> well_formed s t then None else Some (t # s))"
| "effect (DropTable n) s =
     (if has_table n s \<and> \<not> list_ex (\<lambda>t. tb_name t \<noteq> n \<and> list_ex (\<lambda>f. fk_table f = n) (tb_fks t)) s
      then Some (filter (\<lambda>t. tb_name t \<noteq> n) s) else None)"
| "effect (AddColumn n c) s = on_table n (add_column c) s"
| "effect (DropColumn n c) s = on_table n (drop_column c) s"
| "effect (AlterColumn n c nul) s = on_table n (alter_column c nul) s"
| "effect (CreateIndex i n cs u) s = (if has_index i s then None else on_table n (create_index i cs u) s)"
| "effect (DropIndex i n) s = on_table n (drop_index i) s"
| "effect (CreateUnique k n cs) s = on_table n (create_unique k cs) s"
| "effect (CreateForeignKey k n ref c) s =
     (if has_table ref s then on_table n (create_fk k ref c) s else None)"
| "effect (DropConstraint k n) s = on_table n (drop_constraint k) s"
| "effect Backfill s = Some s"

type_synonym engine = "ddl \<Rightarrow> schema \<Rightarrow> schema option"

text \<open>What the migrations rely on: an operation whose documented effect is defined has it.\<close>

definition documented :: "engine \<Rightarrow> bool" where
  "documented eng = (\<forall>d s s'. effect d s = Some s' \<longrightarrow> eng d s = Some s')"

fun migrate :: "engine \<Rightarrow> ddl list \<Rightarrow> schema \<Rightarrow> schema option" where
  "migrate eng [] s = Some s"
| "migrate eng (d # ds) s = (case eng d s of None \<Rightarrow> None | Some s' \<Rightarrow> migrate eng ds s')"

lemma documented_effect: "documented effect"
  by (simp add: documented_def)

lemma migrate_documented:
  assumes "documented eng" and "migrate effect ds s = Some s'"
  shows "migrate eng ds s = Some s'"
  using assms(2)
  by (induction ds arbitrary: s) (use assms(1) in \<open>auto simp: documented_def split: option.splits\<close>)

lemma migrate_append:
  "migrate eng (ds @ es) s = (case migrate eng ds s of None \<Rightarrow> None | Some s' \<Rightarrow> migrate eng es s')"
  by (induction ds arbitrary: s) (auto split: option.splits)

section \<open>A schema stays sound, and an operation can be undone\<close>

text \<open>Every key, constraint and index of a table names columns it has, and refers to a table there is.\<close>

definition sound :: "schema \<Rightarrow> bool" where
  "sound s = list_all (well_formed s) s"

lemma on_table_names:
  assumes "on_table n f s = Some s'" and "\<And>t t'. f t = Some t' \<Longrightarrow> tb_name t' = tb_name t"
  shows "map tb_name s' = map tb_name s"
  using assms(1) by (induction s arbitrary: s') (auto simp: assms(2) split: if_splits)

lemma on_table_elem:
  assumes "on_table n f s = Some s'" and "u \<in> set s'"
  shows "u \<in> set s \<or> (\<exists>t \<in> set s. tb_name t = n \<and> f t = Some u)"
  using assms by (induction s arbitrary: s') (auto split: if_splits)

lemma has_table_names: "has_table n s \<longleftrightarrow> n \<in> set (map tb_name s)"
  by (auto simp: has_table_def list_ex_iff)

lemma well_formed_names:
  assumes "\<And>n. has_table n s \<Longrightarrow> has_table n s'" and "well_formed s t"
  shows "well_formed s' t"
  using assms by (auto simp: well_formed_def list_all_iff)

lemma sound_on_table:
  assumes on: "on_table n f s = Some s'" and sound: "sound s"
    and name: "\<And>t t'. f t = Some t' \<Longrightarrow> tb_name t' = tb_name t"
    and ok: "\<And>t t'. well_formed s t \<Longrightarrow> f t = Some t' \<Longrightarrow> well_formed s t'"
  shows "sound s'"
proof -
  have names: "has_table k s' = has_table k s" for k
    using on_table_names [OF on name] by (simp add: has_table_names)
  have "well_formed s u" if "u \<in> set s'" for u
    using on_table_elem [OF on that] ok sound by (auto simp: sound_def list_all_iff)
  then have "well_formed s' u" if "u \<in> set s'" for u
    using that names well_formed_names by blast
  then show ?thesis by (simp add: sound_def list_all_iff)
qed

lemmas table_ops = add_column_def drop_column_def alter_column_def create_index_def drop_index_def
  create_unique_def create_fk_def drop_constraint_def

lemma table_ops_name:
  "add_column c t = Some t' \<Longrightarrow> tb_name t' = tb_name t"
  "drop_column n t = Some t' \<Longrightarrow> tb_name t' = tb_name t"
  "alter_column n b t = Some t' \<Longrightarrow> tb_name t' = tb_name t"
  "create_index i cs b t = Some t' \<Longrightarrow> tb_name t' = tb_name t"
  "drop_index i t = Some t' \<Longrightarrow> tb_name t' = tb_name t"
  "create_unique k cs t = Some t' \<Longrightarrow> tb_name t' = tb_name t"
  "create_fk k ref n t = Some t' \<Longrightarrow> tb_name t' = tb_name t"
  "drop_constraint k t = Some t' \<Longrightarrow> tb_name t' = tb_name t"
  by (auto simp: table_ops split: if_splits)

lemma has_column_names: "has_column c t \<longleftrightarrow> c \<in> set (map c_name (tb_cols t))"
  by (auto simp: has_column_def list_ex_iff)

lemmas well_formed_iff = well_formed_def has_column_names list_all_iff

lemma well_formed_add: "well_formed s t \<Longrightarrow> add_column c t = Some t' \<Longrightarrow> well_formed s t'"
  by (auto simp: add_column_def well_formed_iff split: if_splits)

lemma well_formed_drop:
  assumes "well_formed s t" and "drop_column n t = Some t'"
  shows "well_formed s t'"
proof -
  have "set (map c_name (filter (\<lambda>k. c_name k \<noteq> n) cs)) = set (map c_name cs) - {n}"
    and "distinct (map c_name cs) \<Longrightarrow> distinct (map c_name (filter (\<lambda>k. c_name k \<noteq> n) cs))"
    for cs :: "column_def list"
    by (auto simp: distinct_map_filter)
  then show ?thesis
    using assms unfolding drop_column_def well_formed_iff
    by (auto simp del: set_map split: if_splits)
qed

lemma well_formed_alter:
  assumes "well_formed s t" and "alter_column n b t = Some t'"
  shows "well_formed s t'"
proof -
  have "map c_name (map (\<lambda>k. if c_name k = n then k\<lparr>c_null := b\<rparr> else k) cs) = map c_name cs"
    for cs :: "column_def list"
    by (induction cs) auto
  then show ?thesis
    using assms by (auto simp: alter_column_def well_formed_iff simp del: set_map map_map split: if_splits)
qed

lemma well_formed_index:
  "well_formed s t \<Longrightarrow> create_index i cs b t = Some t' \<Longrightarrow> well_formed s t'"
  by (auto simp: create_index_def well_formed_iff simp del: set_map split: if_splits)

lemma well_formed_unindex:
  "well_formed s t \<Longrightarrow> drop_index i t = Some t' \<Longrightarrow> well_formed s t'"
  by (auto simp: drop_index_def well_formed_iff simp del: set_map split: if_splits)

lemma well_formed_unique:
  "well_formed s t \<Longrightarrow> create_unique k cs t = Some t' \<Longrightarrow> well_formed s t'"
  by (auto simp: create_unique_def well_formed_iff simp del: set_map split: if_splits)

lemma well_formed_fk:
  "has_table ref s \<Longrightarrow> well_formed s t \<Longrightarrow> create_fk k ref n t = Some t' \<Longrightarrow> well_formed s t'"
  by (auto simp: create_fk_def well_formed_iff simp del: set_map split: if_splits)

lemma well_formed_unconstrain:
  "well_formed s t \<Longrightarrow> drop_constraint k t = Some t' \<Longrightarrow> well_formed s t'"
  by (auto simp: drop_constraint_def well_formed_iff simp del: set_map split: if_splits)

lemmas well_formed_ops = well_formed_add well_formed_drop well_formed_alter well_formed_index
  well_formed_unindex well_formed_unique well_formed_fk well_formed_unconstrain

lemma sound_effect:
  assumes "sound s" and "effect d s = Some s'"
  shows "sound s'"
proof (cases d)
  case (CreateTable t)
  then have new: "well_formed s t" "s' = t # s"
    using assms by (auto split: if_splits)
  have more: "has_table n s \<Longrightarrow> has_table n s'" for n
    using new by (simp add: has_table_names)
  show ?thesis
    using assms(1) new well_formed_names [OF more] by (auto simp: sound_def list_all_iff)
next
  case (DropTable n)
  then have drop: "s' = filter (\<lambda>t. tb_name t \<noteq> n) s"
    and refs: "\<And>t f. t \<in> set s \<Longrightarrow> tb_name t \<noteq> n \<Longrightarrow> f \<in> set (tb_fks t) \<Longrightarrow> fk_table f \<noteq> n"
    using assms by (auto simp: list_ex_iff split: if_splits)
  have "well_formed s' t" if "t \<in> set s" "tb_name t \<noteq> n" for t
    using assms(1) that refs [OF that] drop
    by (fastforce simp: sound_def well_formed_def list_all_iff has_table_def list_ex_iff)
  then show ?thesis by (auto simp: sound_def list_all_iff drop)
next
  case (AddColumn n c)
  then have "on_table n (add_column c) s = Some s'"
    using assms by (auto split: if_splits)
  then show ?thesis
    using assms(1) by (blast intro: sound_on_table table_ops_name well_formed_add)
next
  case (DropColumn n c)
  then have "on_table n (drop_column c) s = Some s'"
    using assms by (auto split: if_splits)
  then show ?thesis
    using assms(1) by (blast intro: sound_on_table table_ops_name well_formed_drop)
next
  case (AlterColumn n c b)
  then have "on_table n (alter_column c b) s = Some s'"
    using assms by (auto split: if_splits)
  then show ?thesis
    using assms(1) by (blast intro: sound_on_table table_ops_name well_formed_alter)
next
  case (CreateIndex i n cs u)
  then have "on_table n (create_index i cs u) s = Some s'"
    using assms by (auto split: if_splits)
  then show ?thesis
    using assms(1) by (blast intro: sound_on_table table_ops_name well_formed_index)
next
  case (DropIndex i n)
  then have "on_table n (drop_index i) s = Some s'"
    using assms by (auto split: if_splits)
  then show ?thesis
    using assms(1) by (blast intro: sound_on_table table_ops_name well_formed_unindex)
next
  case (CreateUnique k n cs)
  then have "on_table n (create_unique k cs) s = Some s'"
    using assms by (auto split: if_splits)
  then show ?thesis
    using assms(1) by (blast intro: sound_on_table table_ops_name well_formed_unique)
next
  case (CreateForeignKey k n ref c)
  then have "on_table n (create_fk k ref c) s = Some s'" and "has_table ref s"
    using assms by (auto split: if_splits)
  then show ?thesis
    using assms(1) by (blast intro: sound_on_table table_ops_name well_formed_fk)
next
  case (DropConstraint k n)
  then have "on_table n (drop_constraint k) s = Some s'"
    using assms by (auto split: if_splits)
  then show ?thesis
    using assms(1) by (blast intro: sound_on_table table_ops_name well_formed_unconstrain)
next
  case Backfill
  then show ?thesis using assms by simp
qed

lemma sound_migrate: "sound s \<Longrightarrow> migrate effect ds s = Some s' \<Longrightarrow> sound s'"
  by (induction ds arbitrary: s) (auto split: option.splits dest: sound_effect)

text \<open>The operation that takes one back, when a schema alone says what to restore.\<close>

fun undo :: "ddl \<Rightarrow> ddl option" where
  "undo (CreateTable t) = Some (DropTable (tb_name t))"
| "undo (AddColumn n c) = Some (DropColumn n (c_name c))"
| "undo (CreateIndex i n cs u) = Some (DropIndex i n)"
| "undo (CreateUnique k n cs) = Some (DropConstraint k n)"
| "undo (CreateForeignKey k n ref c) = Some (DropConstraint k n)"
| "undo _ = None"

fun undo_all :: "ddl list \<Rightarrow> ddl list option" where
  "undo_all [] = Some []"
| "undo_all (d # ds) =
     (if d = Backfill then undo_all ds
      else case (undo d, undo_all ds) of (Some e, Some es) \<Rightarrow> Some (es @ [e]) | _ \<Rightarrow> None)"

lemma on_table_back:
  assumes "on_table n f s = Some s'"
    and "\<And>t t'. t \<in> set s \<Longrightarrow> tb_name t = n \<Longrightarrow> f t = Some t' \<Longrightarrow> tb_name t' = n \<and> g t' = Some t"
  shows "on_table n g s' = Some s"
  using assms
proof (induction s arbitrary: s')
  case (Cons t s)
  show ?case
  proof (cases "tb_name t = n")
    case True
    then obtain t' where "f t = Some t'" "s' = t' # s" using Cons.prems(1) by auto
    moreover from this have "tb_name t' = n \<and> g t' = Some t"
      by (intro Cons.prems(2)) (simp_all add: True)
    ultimately show ?thesis by simp
  next
    case False
    then obtain s1 where s1: "on_table n f s = Some s1" "s' = t # s1" using Cons.prems(1) by auto
    have "tb_name u' = n \<and> g u' = Some u" if "u \<in> set s" "tb_name u = n" "f u = Some u'" for u u'
      by (rule Cons.prems(2)) (use that in simp_all)
    then have "on_table n g s1 = Some s"
      by (rule Cons.IH [OF s1(1)])
    then show ?thesis using False s1(2) by simp
  qed
qed simp

lemma well_formedD:
  assumes "well_formed s t"
  shows "c \<in> set (tb_pk t) \<Longrightarrow> has_column c t"
    and "f \<in> set (tb_fks t) \<Longrightarrow> has_column (fk_col f) t"
    and "f \<in> set (tb_fks t) \<Longrightarrow> fk_table f \<noteq> tb_name t \<Longrightarrow> has_table (fk_table f) s"
    and "u \<in> set (tb_uniques t) \<Longrightarrow> c \<in> set (snd u) \<Longrightarrow> has_column c t"
    and "i \<in> set (tb_indexes t) \<Longrightarrow> c \<in> set (ix_cols i) \<Longrightarrow> has_column c t"
  using assms unfolding well_formed_def list_all_iff by blast+

lemma add_column_back:
  assumes wf: "well_formed s t" and "add_column c t = Some t'"
  shows "drop_column (c_name c) t' = Some t"
proof -
  have fresh: "\<not> has_column (c_name c) t" and t': "t' = t\<lparr>tb_cols := tb_cols t @ [c]\<rparr>"
    using assms(2) by (auto simp: add_column_def split: if_splits)
  have "filter (\<lambda>k. c_name k \<noteq> c_name c) (tb_cols t) = tb_cols t"
    using fresh by (auto simp: has_column_def list_ex_iff intro!: filter_True)
  moreover have "filter (\<lambda>f. fk_col f \<noteq> c_name c) (tb_fks t) = tb_fks t"
    using fresh well_formedD(2) [OF wf] by (intro filter_True) metis
  moreover have "filter (\<lambda>u. c_name c \<notin> set (snd u)) (tb_uniques t) = tb_uniques t"
    using fresh well_formedD(4) [OF wf] by (intro filter_True) metis
  moreover have "filter (\<lambda>i. c_name c \<notin> set (ix_cols i)) (tb_indexes t) = tb_indexes t"
    using fresh well_formedD(5) [OF wf] by (intro filter_True) metis
  moreover have "c_name c \<notin> set (tb_pk t)"
    using fresh well_formedD(1) [OF wf] by metis
  ultimately show ?thesis by (simp add: drop_column_def has_column_def t')
qed

lemma create_index_back:
  assumes "\<not> has_index i s" and "t \<in> set s" and "create_index i cs u t = Some t'"
  shows "drop_index i t' = Some t"
proof -
  have "filter (\<lambda>k. ix_name k \<noteq> i) (tb_indexes t) = tb_indexes t"
    using assms(1,2) by (auto simp: has_index_def list_ex_iff intro!: filter_True)
  then show ?thesis
    using assms(3) by (auto simp: create_index_def drop_index_def split: if_splits)
qed

lemma unconstrained_filters:
  assumes "Some k \<notin> set (constraint_names t)"
  shows "filter (\<lambda>u. fst u \<noteq> Some k) (tb_uniques t) = tb_uniques t"
    and "filter (\<lambda>f. fk_name f \<noteq> Some k) (tb_fks t) = tb_fks t"
  using assms by (intro filter_True; force simp: constraint_names_def)+

lemma create_unique_back: "create_unique k cs t = Some t' \<Longrightarrow> drop_constraint k t' = Some t"
  by (auto simp: create_unique_def drop_constraint_def unconstrained_filters constraint_names_def
      split: if_splits)

lemma create_fk_back: "create_fk k ref c t = Some t' \<Longrightarrow> drop_constraint k t' = Some t"
  using unconstrained_filters [of k t]
  by (auto simp: create_fk_def drop_constraint_def constraint_names_def simp del: filter_eq_Cons_iff split: if_splits)

lemma undo_effect:
  assumes sound: "sound s" and eff: "effect d s = Some s'" and un: "undo d = Some e"
  shows "effect e s' = Some s"
proof (cases d)
  case (CreateTable t)
  then have new: "s' = t # s" "\<not> has_table (tb_name t) s" "e = DropTable (tb_name t)"
    using eff un by (auto split: if_splits)
  then have others: "\<forall>u \<in> set s. tb_name u \<noteq> tb_name t"
    by (simp add: has_table_def list_ex_iff)
  then have "fk_table f \<noteq> tb_name t" if "u \<in> set s" "f \<in> set (tb_fks u)" for u f
    using that sound new(2) others well_formedD(3) [of s u f] by (force simp: sound_def list_all_iff)
  then show ?thesis
    using others by (auto simp: new(1,3) has_table_def list_ex_iff intro!: filter_True)
next
  case (AddColumn n c)
  then have "on_table n (add_column c) s = Some s'" and e: "e = DropColumn n (c_name c)"
    using eff un by auto
  then have "on_table n (drop_column (c_name c)) s' = Some s"
    using sound by (fastforce simp: sound_def list_all_iff elim!: on_table_back
        intro: table_ops_name add_column_back)
  then show ?thesis by (simp add: e)
next
  case (CreateIndex i n cs u)
  then have "on_table n (create_index i cs u) s = Some s'" "\<not> has_index i s" and e: "e = DropIndex i n"
    using eff un by (auto split: if_splits)
  then have "on_table n (drop_index i) s' = Some s"
    by (fastforce elim!: on_table_back intro: table_ops_name create_index_back)
  then show ?thesis by (simp add: e)
next
  case (CreateUnique k n cs)
  then have "on_table n (create_unique k cs) s = Some s'" and e: "e = DropConstraint k n"
    using eff un by auto
  then have "on_table n (drop_constraint k) s' = Some s"
    by (fastforce elim!: on_table_back intro: table_ops_name create_unique_back)
  then show ?thesis by (simp add: e)
next
  case (CreateForeignKey k n ref c)
  then have "on_table n (create_fk k ref c) s = Some s'" and e: "e = DropConstraint k n"
    using eff un by (auto split: if_splits)
  then have "on_table n (drop_constraint k) s' = Some s"
    by (fastforce elim!: on_table_back intro: table_ops_name create_fk_back)
  then show ?thesis by (simp add: e)
qed (use un in simp_all)

lemma undo_all_migrate:
  assumes "sound s" and "migrate effect ds s = Some s'" and "undo_all ds = Some es"
  shows "migrate effect es s' = Some s"
  using assms
proof (induction ds arbitrary: s es)
  case Nil
  then show ?case by simp
next
  case (Cons d ds)
  then obtain s1 where s1: "effect d s = Some s1" "migrate effect ds s1 = Some s'"
    by (auto split: option.splits)
  show ?case
  proof (cases "d = Backfill")
    case True
    then show ?thesis using Cons s1 by simp
  next
    case False
    then obtain e es1 where e: "undo d = Some e" "undo_all ds = Some es1" "es = es1 @ [e]"
      using Cons.prems(3) by (auto split: option.splits)
    have "migrate effect es1 s' = Some s1"
      using Cons.IH [OF sound_effect [OF Cons.prems(1) s1(1)] s1(2) e(2)] .
    then show ?thesis
      using undo_effect [OF Cons.prems(1) s1(1) e(1)] by (simp add: e(3) migrate_append)
  qed
qed

section \<open>Comparing two schemas\<close>

text \<open>
  The order of tables, columns and constraints, the names of the constraints and the defaults
  a column was added with are not part of what a table is to the program.
\<close>

definition same_set :: "'a list \<Rightarrow> 'a list \<Rightarrow> bool" where
  "same_set xs ys = (list_all (\<lambda>x. List.member ys x) xs \<and> list_all (\<lambda>y. List.member xs y) ys)"

definition col_shape :: "column_def \<Rightarrow> string \<times> coltype \<times> bool" where
  "col_shape c = (c_name c, c_type c, c_null c)"

definition fk_shape :: "fkey \<Rightarrow> string \<times> string \<times> string" where
  "fk_shape f = (fk_col f, fk_table f, fk_ref f)"

definition same_shape :: "table_def \<Rightarrow> table_def \<Rightarrow> bool" where
  "same_shape t u =
     (same_set (map col_shape (tb_cols t)) (map col_shape (tb_cols u))
      \<and> tb_pk t = tb_pk u
      \<and> same_set (map fk_shape (tb_fks t)) (map fk_shape (tb_fks u))
      \<and> same_set (map snd (tb_uniques t)) (map snd (tb_uniques u))
      \<and> same_set (tb_indexes t) (tb_indexes u))"

definition find_table :: "string \<Rightarrow> schema \<Rightarrow> table_def option" where
  "find_table n s = List.find (\<lambda>t. tb_name t = n) s"

definition schema_matches :: "schema \<Rightarrow> schema \<Rightarrow> bool" where
  "schema_matches s s' =
     (length s = length s' \<and> distinct (map tb_name s)
      \<and> list_all (\<lambda>t. case find_table (tb_name t) s' of None \<Rightarrow> False | Some u \<Rightarrow> same_shape t u) s)"

text \<open>The same schema up to the order of its columns: what a downgrade has to give back.\<close>

definition same_table :: "table_def \<Rightarrow> table_def \<Rightarrow> bool" where
  "same_table t u =
     (same_set (tb_cols t) (tb_cols u) \<and> tb_pk t = tb_pk u \<and> same_set (tb_fks t) (tb_fks u)
      \<and> same_set (tb_uniques t) (tb_uniques u) \<and> same_set (tb_indexes t) (tb_indexes u))"

definition same_schema :: "schema \<Rightarrow> schema \<Rightarrow> bool" where
  "same_schema s s' =
     (length s = length s' \<and> distinct (map tb_name s)
      \<and> list_all (\<lambda>t. case find_table (tb_name t) s' of None \<Rightarrow> False | Some u \<Rightarrow> same_table t u) s)"

section \<open>The tables the models declare\<close>

record field =
  f_name :: string
  f_type :: coltype
  f_optional :: bool
  f_key :: bool
  f_unique :: bool
  f_index :: bool
  f_refers :: "string option"

definition plain :: "string \<Rightarrow> coltype \<Rightarrow> field" where
  "plain n t = \<lparr>f_name = n, f_type = t, f_optional = False, f_key = False, f_unique = False,
     f_index = False, f_refers = None\<rparr>"

definition optional :: "string \<Rightarrow> coltype \<Rightarrow> field" where
  "optional n t = (plain n t)\<lparr>f_optional := True\<rparr>"

definition key :: "field \<Rightarrow> field" where
  "key f = f\<lparr>f_key := True\<rparr>"

definition unique :: "field \<Rightarrow> field" where
  "unique f = f\<lparr>f_unique := True\<rparr>"

definition indexed :: "field \<Rightarrow> field" where
  "indexed f = f\<lparr>f_index := True\<rparr>"

definition refers :: "string \<Rightarrow> field \<Rightarrow> field" where
  "refers t f = f\<lparr>f_refers := Some t\<rparr>"

definition field_column :: "field \<Rightarrow> column_def" where
  "field_column f = \<lparr>c_name = f_name f, c_type = f_type f,
     c_null = (f_optional f \<and> \<not> f_key f), c_default = None\<rparr>"

definition model_table :: "string \<Rightarrow> field list \<Rightarrow> (string option \<times> string list) list \<Rightarrow> table_def" where
  "model_table n fs us = \<lparr>tb_name = n, tb_cols = map field_column fs,
     tb_pk = map f_name (filter f_key fs),
     tb_fks = List.map_filter (\<lambda>f. map_option (fk_on (f_name f)) (f_refers f)) fs,
     tb_uniques = us @ map (\<lambda>f. (None, [f_name f])) (filter (\<lambda>f. f_unique f \<and> \<not> f_index f) fs),
     tb_indexes = map (\<lambda>f. \<lparr>ix_name = ''ix_'' @ n @ ''_'' @ f_name f, ix_cols = [f_name f],
                              ix_unique = f_unique f\<rparr>) (filter f_index fs)\<rparr>"

definition model_organization :: table_def where
  "model_organization = model_table ''organization''
    [key (optional ''id'' TInteger),
     plain ''name'' TText,
     indexed (optional ''logo_sha'' TText),
     plain ''plan'' TText,
     plain ''plan_status'' TText,
     indexed (unique (optional ''stripe_customer_id'' TText)),
     indexed (optional ''stripe_subscription_id'' TText),
     optional ''current_period_end'' TDateTime,
     optional ''retention_days'' TInteger,
     optional ''results_webhook_url'' TText,
     optional ''results_webhook_secret'' TText,
     plain ''created_at'' TDateTime,
     plain ''updated_at'' TDateTime]
    []"

definition model_orgusage :: table_def where
  "model_orgusage = model_table ''orgusage''
    [key (optional ''id'' TInteger),
     indexed (refers ''organization'' (plain ''org_id'' TInteger)),
     indexed (plain ''period'' TText),
     plain ''sittings'' TInteger,
     plain ''drafts'' TInteger,
     plain ''sittings_over'' TInteger,
     plain ''drafts_over'' TInteger,
     plain ''sittings_carried'' TInteger,
     plain ''drafts_carried'' TInteger,
     plain ''judge_cost_usd'' TFloat,
     plain ''draft_cost_usd'' TFloat,
     plain ''created_at'' TDateTime,
     plain ''updated_at'' TDateTime]
    [(Some ''uq_org_usage_period'', [''org_id'', ''period''])]"

definition model_orgasset :: table_def where
  "model_orgasset = model_table ''orgasset''
    [key (optional ''id'' TInteger),
     indexed (refers ''organization'' (plain ''org_id'' TInteger)),
     plain ''kind'' TText,
     plain ''content_type'' TText,
     indexed (plain ''sha256'' TText),
     plain ''data'' TBlob,
     plain ''width'' TInteger,
     plain ''height'' TInteger,
     plain ''created_at'' TDateTime]
    [(Some ''uq_orgasset_org_sha'', [''org_id'', ''sha256''])]"

definition model_interviewer :: table_def where
  "model_interviewer = model_table ''interviewer''
    [key (optional ''id'' TInteger),
     indexed (unique (plain ''email'' TText)),
     plain ''password_hash'' TText,
     plain ''name'' TText,
     plain ''token_version'' TInteger,
     optional ''email_verified_at'' TDateTime,
     plain ''created_at'' TDateTime,
     plain ''updated_at'' TDateTime]
    []"

definition model_membership :: table_def where
  "model_membership = model_table ''membership''
    [key (optional ''id'' TInteger),
     indexed (refers ''organization'' (plain ''org_id'' TInteger)),
     indexed (refers ''interviewer'' (plain ''interviewer_id'' TInteger)),
     plain ''role'' TText,
     refers ''interviewer'' (optional ''invited_by'' TInteger),
     plain ''created_at'' TDateTime,
     plain ''updated_at'' TDateTime]
    [(Some ''uq_membership_interviewer'', [''interviewer_id''])]"

definition model_orginvite :: table_def where
  "model_orginvite = model_table ''orginvite''
    [key (optional ''id'' TInteger),
     indexed (refers ''organization'' (plain ''org_id'' TInteger)),
     indexed (unique (plain ''token'' TText)),
     indexed (plain ''email'' TText),
     plain ''role'' TText,
     indexed (refers ''interviewer'' (optional ''invited_by'' TInteger)),
     optional ''expires_at'' TDateTime,
     optional ''accepted_at'' TDateTime,
     plain ''sent'' TBoolean,
     optional ''send_error'' TText,
     plain ''created_at'' TDateTime,
     plain ''updated_at'' TDateTime]
    []"

definition model_question :: table_def where
  "model_question = model_table ''question''
    [key (plain ''id'' TText),
     indexed (refers ''interviewer'' (optional ''owner_id'' TInteger)),
     indexed (refers ''organization'' (plain ''org_id'' TInteger)),
     plain ''title'' TText,
     plain ''prompt'' TText,
     plain ''constraints'' TText,
     plain ''time_limit_s'' TFloat,
     plain ''pass_threshold'' TFloat,
     optional ''required_complexity'' TText,
     optional ''example_input'' TText,
     optional ''example_output'' TText,
     optional ''difficulty'' TText,
     indexed (refers ''variantset'' (optional ''variant_set_id'' TText)),
     optional ''variant_label'' TText,
     optional ''reference_solution'' TText,
     optional ''reference_language'' TText,
     optional ''duration_minutes'' TInteger,
     indexed (plain ''status'' TText),
     plain ''created_at'' TDateTime,
     plain ''updated_at'' TDateTime]
    []"

definition model_variantset :: table_def where
  "model_variantset = model_table ''variantset''
    [key (plain ''id'' TText),
     indexed (refers ''interviewer'' (optional ''owner_id'' TInteger)),
     indexed (refers ''organization'' (plain ''org_id'' TInteger)),
     plain ''title'' TText,
     plain ''brief'' TText,
     plain ''language'' TText,
     optional ''difficulty'' TText,
     optional ''target_complexity'' TText,
     indexed (plain ''status'' TText),
     plain ''created_at'' TDateTime,
     plain ''updated_at'' TDateTime]
    []"

definition model_questiontestcase :: table_def where
  "model_questiontestcase = model_table ''questiontestcase''
    [key (optional ''id'' TInteger),
     indexed (refers ''question'' (plain ''question_id'' TText)),
     plain ''name'' TText,
     plain ''stdin'' TText,
     plain ''expected'' TText,
     plain ''category'' TText,
     plain ''weight'' TFloat,
     plain ''created_at'' TDateTime,
     plain ''updated_at'' TDateTime]
    []"

definition model_assessment :: table_def where
  "model_assessment = model_table ''assessment''
    [key (plain ''id'' TText),
     indexed (refers ''interviewer'' (optional ''owner_id'' TInteger)),
     indexed (refers ''organization'' (plain ''org_id'' TInteger)),
     plain ''title'' TText,
     optional ''duration_minutes'' TInteger,
     optional ''org_name'' TText,
     indexed (optional ''logo_sha'' TText),
     plain ''proctored'' TBoolean,
     indexed (plain ''status'' TText),
     plain ''created_at'' TDateTime,
     plain ''updated_at'' TDateTime]
    []"

definition model_assessmentquestion :: table_def where
  "model_assessmentquestion = model_table ''assessmentquestion''
    [key (optional ''id'' TInteger),
     indexed (refers ''assessment'' (plain ''assessment_id'' TText)),
     indexed (refers ''question'' (optional ''question_id'' TText)),
     indexed (refers ''variantset'' (optional ''variant_set_id'' TText)),
     plain ''position'' TInteger,
     plain ''created_at'' TDateTime,
     plain ''updated_at'' TDateTime]
    [(Some ''uq_assessment_question'', [''assessment_id'', ''question_id''])]"

definition model_invite :: table_def where
  "model_invite = model_table ''invite''
    [key (optional ''id'' TInteger),
     indexed (unique (plain ''token'' TText)),
     indexed (refers ''question'' (optional ''question_id'' TText)),
     indexed (refers ''assessment'' (optional ''assessment_id'' TText)),
     indexed (refers ''variantset'' (optional ''variant_set_id'' TText)),
     indexed (refers ''interviewer'' (optional ''created_by'' TInteger)),
     optional ''recipients'' TJson,
     optional ''deliveries'' TJson,
     optional ''expires_at'' TDateTime,
     plain ''proctored'' TBoolean,
     optional ''duration_minutes'' TInteger,
     plain ''status'' TText,
     plain ''created_at'' TDateTime,
     plain ''updated_at'' TDateTime]
    []"

definition model_candidateattempt :: table_def where
  "model_candidateattempt = model_table ''candidateattempt''
    [key (optional ''id'' TInteger),
     indexed (refers ''invite'' (plain ''invite_id'' TInteger)),
     indexed (plain ''candidate_email'' TText),
     optional ''candidate_name'' TText,
     plain ''started_at'' TDateTime,
     optional ''consent_at'' TDateTime,
     optional ''consent_version'' TText,
     optional ''results_notified_at'' TDateTime,
     optional ''erased_at'' TDateTime,
     plain ''created_at'' TDateTime,
     plain ''updated_at'' TDateTime]
    [(Some ''uq_attempt_invite_candidate'', [''invite_id'', ''candidate_email''])]"

definition model_candidateslotvariant :: table_def where
  "model_candidateslotvariant = model_table ''candidateslotvariant''
    [key (optional ''id'' TInteger),
     indexed (refers ''invite'' (plain ''invite_id'' TInteger)),
     indexed (plain ''candidate_email'' TText),
     indexed (refers ''assessmentquestion'' (plain ''assessment_question_id'' TInteger)),
     indexed (refers ''question'' (plain ''question_id'' TText)),
     plain ''created_at'' TDateTime]
    [(Some ''uq_candidate_slot_variant'', [''invite_id'', ''candidate_email'', ''assessment_question_id''])]"

definition model_integrityevent :: table_def where
  "model_integrityevent = model_table ''integrityevent''
    [key (optional ''id'' TInteger),
     indexed (refers ''invite'' (plain ''invite_id'' TInteger)),
     indexed (plain ''candidate_email'' TText),
     indexed (refers ''question'' (optional ''question_id'' TText)),
     indexed (plain ''kind'' TText),
     plain ''offset_ms'' TInteger,
     optional ''duration_ms'' TInteger,
     optional ''size'' TInteger,
     plain ''blocked'' TBoolean,
     plain ''created_at'' TDateTime]
    []"

definition model_candidatedraft :: table_def where
  "model_candidatedraft = model_table ''candidatedraft''
    [key (optional ''id'' TInteger),
     indexed (refers ''invite'' (plain ''invite_id'' TInteger)),
     indexed (plain ''candidate_email'' TText),
     refers ''question'' (plain ''question_id'' TText),
     plain ''code'' TText,
     plain ''language'' TText,
     plain ''updated_at'' TDateTime]
    [(Some ''uq_draft_invite_candidate_question'', [''invite_id'', ''candidate_email'', ''question_id''])]"

definition model_candidatefeedback :: table_def where
  "model_candidatefeedback = model_table ''candidatefeedback''
    [key (optional ''id'' TInteger),
     indexed (refers ''organization'' (plain ''org_id'' TInteger)),
     unique (refers ''candidateattempt'' (plain ''attempt_id'' TInteger)),
     plain ''rating'' TInteger,
     plain ''difficulty_fair'' TText,
     plain ''comment'' TText,
     plain ''created_at'' TDateTime]
    []"

definition model_submission :: table_def where
  "model_submission = model_table ''submission''
    [key (plain ''id'' TText),
     indexed (refers ''question'' (plain ''question_id'' TText)),
     indexed (refers ''invite'' (optional ''invite_id'' TInteger)),
     plain ''candidate'' TText,
     optional ''candidate_email'' TText,
     plain ''language'' TText,
     plain ''code'' TText,
     indexed (plain ''status'' TText),
     plain ''late'' TBoolean,
     indexed (optional ''agent_job_id'' TText),
     plain ''attempts'' TInteger,
     optional ''error_reason'' TText,
     optional ''judge_cost_usd'' TFloat,
     plain ''created_at'' TDateTime,
     plain ''updated_at'' TDateTime]
    [(Some ''uq_submission_invite_candidate_question'', [''invite_id'', ''candidate_email'', ''question_id''])]"

definition model_assessmentresult :: table_def where
  "model_assessmentresult = model_table ''assessmentresult''
    [key (optional ''id'' TInteger),
     indexed (unique (refers ''submission'' (plain ''submission_id'' TText))),
     plain ''verdict'' TText,
     plain ''score_pct'' TFloat,
     plain ''reason'' TText,
     optional ''full_result'' TJson,
     plain ''received_at'' TDateTime,
     plain ''created_at'' TDateTime,
     plain ''updated_at'' TDateTime]
    []"

definition model_ratelimitcounter :: table_def where
  "model_ratelimitcounter = model_table ''ratelimitcounter''
    [key (plain ''bucket'' TText),
     key (plain ''client'' TText),
     key (indexed (plain ''window_start'' TInteger)),
     plain ''count'' TInteger]
    []"

definition declared :: schema where
  "declared = [model_organization,
     model_orgusage,
     model_orgasset,
     model_interviewer,
     model_membership,
     model_orginvite,
     model_question,
     model_variantset,
     model_questiontestcase,
     model_assessment,
     model_assessmentquestion,
     model_invite,
     model_candidateattempt,
     model_candidateslotvariant,
     model_integrityevent,
     model_candidatedraft,
     model_candidatefeedback,
     model_submission,
     model_assessmentresult,
     model_ratelimitcounter]"

end
