(* ===== verification/Migrations.thy ===== *)
theory Migrations
  imports Schema
begin

text \<open>
  \<open>src/alembic/versions/\<close>: every revision's \<open>upgrade\<close> and \<open>downgrade\<close> as the list of
  schema operations it runs, in the order of the chain, and the chain itself, which Alembic
  finds by following \<open>down_revision\<close> from the head. A \<open>Backfill\<close> marks the place of
  statements that write rows and leave the schema as it is.
\<close>

section \<open>The revisions\<close>

subsubsection \<open>initial schema\<close>

definition upgrade_cae37faa2bff :: "ddl list" where
  "upgrade_cae37faa2bff =
    [CreateTable (new_table ''interviewer''
      [required ''id'' TInteger,
       required ''email'' TText,
       required ''password_hash'' TText,
       required ''name'' TText,
       required ''created_at'' TDateTime,
       required ''updated_at'' TDateTime]
      [''id''] [] []),
     CreateIndex ''ix_interviewer_email'' ''interviewer'' [''email''] True,
     CreateTable (new_table ''question''
      [required ''id'' TText,
       required ''owner_id'' TInteger,
       required ''title'' TText,
       required ''prompt'' TText,
       required ''constraints'' TText,
       required ''time_limit_s'' TFloat,
       required ''pass_threshold'' TFloat,
       nullable ''required_complexity'' TText,
       nullable ''example_input'' TText,
       nullable ''example_output'' TText,
       required ''created_at'' TDateTime,
       required ''updated_at'' TDateTime]
      [''id''] [fk_on ''owner_id'' ''interviewer''] []),
     CreateIndex ''ix_question_owner_id'' ''question'' [''owner_id''] False,
     CreateTable (new_table ''invite''
      [required ''id'' TInteger,
       required ''token'' TText,
       required ''question_id'' TText,
       required ''created_by'' TInteger,
       nullable ''recipients'' TJson,
       nullable ''expires_at'' TDateTime,
       required ''status'' TText,
       required ''created_at'' TDateTime,
       required ''updated_at'' TDateTime]
      [''id''] [fk_on ''created_by'' ''interviewer'', fk_on ''question_id'' ''question''] []),
     CreateIndex ''ix_invite_created_by'' ''invite'' [''created_by''] False,
     CreateIndex ''ix_invite_question_id'' ''invite'' [''question_id''] False,
     CreateIndex ''ix_invite_token'' ''invite'' [''token''] True,
     CreateTable (new_table ''questiontestcase''
      [required ''id'' TInteger,
       required ''question_id'' TText,
       required ''name'' TText,
       required ''stdin'' TText,
       required ''expected'' TText,
       required ''category'' TText,
       required ''weight'' TFloat,
       required ''created_at'' TDateTime,
       required ''updated_at'' TDateTime]
      [''id''] [fk_on ''question_id'' ''question''] []),
     CreateIndex ''ix_questiontestcase_question_id'' ''questiontestcase'' [''question_id''] False,
     CreateTable (new_table ''submission''
      [required ''id'' TText,
       required ''question_id'' TText,
       nullable ''invite_id'' TInteger,
       required ''candidate'' TText,
       nullable ''candidate_email'' TText,
       required ''language'' TText,
       required ''code'' TText,
       required ''status'' TText,
       nullable ''agent_job_id'' TText,
       required ''created_at'' TDateTime,
       required ''updated_at'' TDateTime]
      [''id''] [fk_on ''invite_id'' ''invite'', fk_on ''question_id'' ''question''] []),
     CreateIndex ''ix_submission_agent_job_id'' ''submission'' [''agent_job_id''] False,
     CreateIndex ''ix_submission_invite_id'' ''submission'' [''invite_id''] False,
     CreateIndex ''ix_submission_question_id'' ''submission'' [''question_id''] False,
     CreateTable (new_table ''assessmentresult''
      [required ''id'' TInteger,
       required ''submission_id'' TText,
       required ''verdict'' TText,
       required ''score_pct'' TFloat,
       required ''reason'' TText,
       nullable ''full_result'' TJson,
       required ''received_at'' TDateTime,
       required ''created_at'' TDateTime,
       required ''updated_at'' TDateTime]
      [''id''] [fk_on ''submission_id'' ''submission''] []),
     CreateIndex ''ix_assessmentresult_submission_id'' ''assessmentresult'' [''submission_id''] True]"

definition downgrade_cae37faa2bff :: "ddl list" where
  "downgrade_cae37faa2bff =
    [DropIndex ''ix_assessmentresult_submission_id'' ''assessmentresult'',
     DropTable ''assessmentresult'',
     DropIndex ''ix_submission_question_id'' ''submission'',
     DropIndex ''ix_submission_invite_id'' ''submission'',
     DropIndex ''ix_submission_agent_job_id'' ''submission'',
     DropTable ''submission'',
     DropIndex ''ix_questiontestcase_question_id'' ''questiontestcase'',
     DropTable ''questiontestcase'',
     DropIndex ''ix_invite_token'' ''invite'',
     DropIndex ''ix_invite_question_id'' ''invite'',
     DropIndex ''ix_invite_created_by'' ''invite'',
     DropTable ''invite'',
     DropIndex ''ix_question_owner_id'' ''question'',
     DropTable ''question'',
     DropIndex ''ix_interviewer_email'' ''interviewer'',
     DropTable ''interviewer'']"

subsubsection \<open>unique submission per invite and\<close>

definition upgrade_4134ffc10adb :: "ddl list" where
  "upgrade_4134ffc10adb =
    [CreateUnique ''uq_submission_invite_candidate'' ''submission'' [''invite_id'', ''candidate_email'']]"

definition downgrade_4134ffc10adb :: "ddl list" where
  "downgrade_4134ffc10adb =
    [DropConstraint ''uq_submission_invite_candidate'' ''submission'']"

subsubsection \<open>question difficulty and status\<close>

definition upgrade_40b262e3d6b5 :: "ddl list" where
  "upgrade_40b262e3d6b5 =
    [AddColumn ''question'' (nullable ''difficulty'' TText),
     AddColumn ''question'' (with_default ''active'' (required ''status'' TText)),
     CreateIndex ''ix_question_status'' ''question'' [''status''] False]"

definition downgrade_40b262e3d6b5 :: "ddl list" where
  "downgrade_40b262e3d6b5 =
    [DropIndex ''ix_question_status'' ''question'',
     DropColumn ''question'' ''status'',
     DropColumn ''question'' ''difficulty'']"

subsubsection \<open>invite deliveries audit trail\<close>

definition upgrade_330f96008258 :: "ddl list" where
  "upgrade_330f96008258 =
    [AddColumn ''invite'' (with_default ''[]'' (nullable ''deliveries'' TJson))]"

definition downgrade_330f96008258 :: "ddl list" where
  "downgrade_330f96008258 =
    [DropColumn ''invite'' ''deliveries'']"

subsubsection \<open>question reference solution and\<close>

definition upgrade_3c8072a71f16 :: "ddl list" where
  "upgrade_3c8072a71f16 =
    [AddColumn ''question'' (nullable ''reference_solution'' TText),
     AddColumn ''question'' (nullable ''reference_language'' TText)]"

definition downgrade_3c8072a71f16 :: "ddl list" where
  "downgrade_3c8072a71f16 =
    [DropColumn ''question'' ''reference_language'',
     DropColumn ''question'' ''reference_solution'']"

subsubsection \<open>question duration minutes and candidate\<close>

definition upgrade_f21c8592dee0 :: "ddl list" where
  "upgrade_f21c8592dee0 =
    [CreateTable (new_table ''candidateattempt''
      [required ''id'' TInteger,
       required ''invite_id'' TInteger,
       required ''candidate_email'' TText,
       required ''started_at'' TDateTime,
       required ''created_at'' TDateTime,
       required ''updated_at'' TDateTime]
      [''id''] [fk_on ''invite_id'' ''invite''] [(Some ''uq_attempt_invite_candidate'', [''invite_id'', ''candidate_email''])]),
     CreateIndex ''ix_candidateattempt_candidate_email'' ''candidateattempt'' [''candidate_email''] False,
     CreateIndex ''ix_candidateattempt_invite_id'' ''candidateattempt'' [''invite_id''] False,
     AddColumn ''question'' (nullable ''duration_minutes'' TInteger)]"

definition downgrade_f21c8592dee0 :: "ddl list" where
  "downgrade_f21c8592dee0 =
    [DropColumn ''question'' ''duration_minutes'',
     DropIndex ''ix_candidateattempt_invite_id'' ''candidateattempt'',
     DropIndex ''ix_candidateattempt_candidate_email'' ''candidateattempt'',
     DropTable ''candidateattempt'']"

subsubsection \<open>assessment and assessment question\<close>

definition upgrade_15556d728532 :: "ddl list" where
  "upgrade_15556d728532 =
    [CreateTable (new_table ''assessment''
      [required ''id'' TText,
       required ''owner_id'' TInteger,
       required ''title'' TText,
       nullable ''duration_minutes'' TInteger,
       required ''status'' TText,
       required ''created_at'' TDateTime,
       required ''updated_at'' TDateTime]
      [''id''] [fk_on ''owner_id'' ''interviewer''] []),
     CreateIndex ''ix_assessment_owner_id'' ''assessment'' [''owner_id''] False,
     CreateIndex ''ix_assessment_status'' ''assessment'' [''status''] False,
     CreateTable (new_table ''assessmentquestion''
      [required ''id'' TInteger,
       required ''assessment_id'' TText,
       required ''question_id'' TText,
       required ''position'' TInteger,
       required ''created_at'' TDateTime,
       required ''updated_at'' TDateTime]
      [''id''] [fk_on ''assessment_id'' ''assessment'', fk_on ''question_id'' ''question''] [(Some ''uq_assessment_question'', [''assessment_id'', ''question_id''])]),
     CreateIndex ''ix_assessmentquestion_assessment_id'' ''assessmentquestion'' [''assessment_id''] False,
     CreateIndex ''ix_assessmentquestion_question_id'' ''assessmentquestion'' [''question_id''] False,
     AddColumn ''invite'' (nullable ''assessment_id'' TText),
     AlterColumn ''invite'' ''question_id'' True,
     CreateIndex ''ix_invite_assessment_id'' ''invite'' [''assessment_id''] False,
     CreateForeignKey ''fk_invite_assessment_id'' ''invite'' ''assessment'' ''assessment_id'']"

definition downgrade_15556d728532 :: "ddl list" where
  "downgrade_15556d728532 =
    [DropConstraint ''fk_invite_assessment_id'' ''invite'',
     DropIndex ''ix_invite_assessment_id'' ''invite'',
     AlterColumn ''invite'' ''question_id'' False,
     DropColumn ''invite'' ''assessment_id'',
     DropIndex ''ix_assessmentquestion_question_id'' ''assessmentquestion'',
     DropIndex ''ix_assessmentquestion_assessment_id'' ''assessmentquestion'',
     DropTable ''assessmentquestion'',
     DropIndex ''ix_assessment_status'' ''assessment'',
     DropIndex ''ix_assessment_owner_id'' ''assessment'',
     DropTable ''assessment'']"

subsubsection \<open>submission unique per invite candidate\<close>

definition upgrade_ad5e81ec2b2b :: "ddl list" where
  "upgrade_ad5e81ec2b2b =
    [DropConstraint ''uq_submission_invite_candidate'' ''submission'',
     CreateUnique ''uq_submission_invite_candidate_question'' ''submission'' [''invite_id'', ''candidate_email'', ''question_id'']]"

definition downgrade_ad5e81ec2b2b :: "ddl list" where
  "downgrade_ad5e81ec2b2b =
    [DropConstraint ''uq_submission_invite_candidate_question'' ''submission'',
     CreateUnique ''uq_submission_invite_candidate'' ''submission'' [''invite_id'', ''candidate_email'']]"

subsubsection \<open>assessment org name and logo url a12\<close>

definition upgrade_0ae2d36aff72 :: "ddl list" where
  "upgrade_0ae2d36aff72 =
    [AddColumn ''assessment'' (nullable ''org_name'' TText),
     AddColumn ''assessment'' (nullable ''logo_url'' TText)]"

definition downgrade_0ae2d36aff72 :: "ddl list" where
  "downgrade_0ae2d36aff72 =
    [DropColumn ''assessment'' ''logo_url'',
     DropColumn ''assessment'' ''org_name'']"

subsubsection \<open>candidate attempt candidate name a10\<close>

definition upgrade_4185e1964c38 :: "ddl list" where
  "upgrade_4185e1964c38 =
    [AddColumn ''candidateattempt'' (nullable ''candidate_name'' TText)]"

definition downgrade_4185e1964c38 :: "ddl list" where
  "downgrade_4185e1964c38 =
    [DropColumn ''candidateattempt'' ''candidate_name'']"

subsubsection \<open>interviewer default branding a12\<close>

definition upgrade_b7e2c1a4d9f0 :: "ddl list" where
  "upgrade_b7e2c1a4d9f0 =
    [AddColumn ''interviewer'' (nullable ''default_org_name'' TText),
     AddColumn ''interviewer'' (nullable ''default_logo_url'' TText)]"

definition downgrade_b7e2c1a4d9f0 :: "ddl list" where
  "downgrade_b7e2c1a4d9f0 =
    [DropColumn ''interviewer'' ''default_logo_url'',
     DropColumn ''interviewer'' ''default_org_name'']"

subsubsection \<open>variant sets\<close>

definition upgrade_c3f1a7b2e5d8 :: "ddl list" where
  "upgrade_c3f1a7b2e5d8 =
    [CreateTable (new_table ''variantset''
      [required ''id'' TText,
       required ''owner_id'' TInteger,
       required ''title'' TText,
       required ''brief'' TText,
       required ''language'' TText,
       nullable ''difficulty'' TText,
       nullable ''target_complexity'' TText,
       required ''status'' TText,
       required ''created_at'' TDateTime,
       required ''updated_at'' TDateTime]
      [''id''] [fk_on ''owner_id'' ''interviewer''] []),
     CreateIndex ''ix_variantset_owner_id'' ''variantset'' [''owner_id''] False,
     CreateIndex ''ix_variantset_status'' ''variantset'' [''status''] False,
     AddColumn ''question'' (nullable ''variant_set_id'' TText),
     AddColumn ''question'' (nullable ''variant_label'' TText),
     CreateIndex ''ix_question_variant_set_id'' ''question'' [''variant_set_id''] False,
     CreateForeignKey ''fk_question_variant_set_id'' ''question'' ''variantset'' ''variant_set_id'']"

definition downgrade_c3f1a7b2e5d8 :: "ddl list" where
  "downgrade_c3f1a7b2e5d8 =
    [DropConstraint ''fk_question_variant_set_id'' ''question'',
     DropIndex ''ix_question_variant_set_id'' ''question'',
     DropColumn ''question'' ''variant_label'',
     DropColumn ''question'' ''variant_set_id'',
     DropIndex ''ix_variantset_status'' ''variantset'',
     DropIndex ''ix_variantset_owner_id'' ''variantset'',
     DropTable ''variantset'']"

subsubsection \<open>invite variant set\<close>

definition upgrade_d4a2b8c6f1e0 :: "ddl list" where
  "upgrade_d4a2b8c6f1e0 =
    [AddColumn ''invite'' (nullable ''variant_set_id'' TText),
     CreateIndex ''ix_invite_variant_set_id'' ''invite'' [''variant_set_id''] False,
     CreateForeignKey ''fk_invite_variant_set_id'' ''invite'' ''variantset'' ''variant_set_id'']"

definition downgrade_d4a2b8c6f1e0 :: "ddl list" where
  "downgrade_d4a2b8c6f1e0 =
    [DropConstraint ''fk_invite_variant_set_id'' ''invite'',
     DropIndex ''ix_invite_variant_set_id'' ''invite'',
     DropColumn ''invite'' ''variant_set_id'']"

subsubsection \<open>assessment slot variant sets\<close>

definition upgrade_e5b3c9d7a2f1 :: "ddl list" where
  "upgrade_e5b3c9d7a2f1 =
    [AlterColumn ''assessmentquestion'' ''question_id'' True,
     AddColumn ''assessmentquestion'' (nullable ''variant_set_id'' TText),
     CreateIndex ''ix_assessmentquestion_variant_set_id'' ''assessmentquestion'' [''variant_set_id''] False,
     CreateForeignKey ''fk_assessmentquestion_variant_set_id'' ''assessmentquestion'' ''variantset'' ''variant_set_id'',
     CreateTable (new_table ''candidateslotvariant''
      [required ''id'' TInteger,
       required ''invite_id'' TInteger,
       required ''candidate_email'' TText,
       required ''assessment_question_id'' TInteger,
       required ''question_id'' TText,
       required ''created_at'' TDateTime]
      [''id''] [fk_on ''invite_id'' ''invite'', fk_on ''assessment_question_id'' ''assessmentquestion'', fk_on ''question_id'' ''question''] [(Some ''uq_candidate_slot_variant'', [''invite_id'', ''candidate_email'', ''assessment_question_id''])]),
     CreateIndex ''ix_candidateslotvariant_invite_id'' ''candidateslotvariant'' [''invite_id''] False,
     CreateIndex ''ix_candidateslotvariant_candidate_email'' ''candidateslotvariant'' [''candidate_email''] False,
     CreateIndex ''ix_candidateslotvariant_assessment_question_id'' ''candidateslotvariant'' [''assessment_question_id''] False,
     CreateIndex ''ix_candidateslotvariant_question_id'' ''candidateslotvariant'' [''question_id''] False]"

definition downgrade_e5b3c9d7a2f1 :: "ddl list" where
  "downgrade_e5b3c9d7a2f1 =
    [DropIndex ''ix_candidateslotvariant_question_id'' ''candidateslotvariant'',
     DropIndex ''ix_candidateslotvariant_assessment_question_id'' ''candidateslotvariant'',
     DropIndex ''ix_candidateslotvariant_candidate_email'' ''candidateslotvariant'',
     DropIndex ''ix_candidateslotvariant_invite_id'' ''candidateslotvariant'',
     DropTable ''candidateslotvariant'',
     DropConstraint ''fk_assessmentquestion_variant_set_id'' ''assessmentquestion'',
     DropIndex ''ix_assessmentquestion_variant_set_id'' ''assessmentquestion'',
     DropColumn ''assessmentquestion'' ''variant_set_id'',
     AlterColumn ''assessmentquestion'' ''question_id'' False]"

subsubsection \<open>submission late flag\<close>

definition upgrade_f6c4d0b9e3a2 :: "ddl list" where
  "upgrade_f6c4d0b9e3a2 =
    [AddColumn ''submission'' (with_default ''false'' (required ''late'' TBoolean))]"

definition downgrade_f6c4d0b9e3a2 :: "ddl list" where
  "downgrade_f6c4d0b9e3a2 =
    [DropColumn ''submission'' ''late'']"

subsubsection \<open>integrity events and proctored flag\<close>

definition upgrade_a9d1f4c07b53 :: "ddl list" where
  "upgrade_a9d1f4c07b53 =
    [CreateTable (new_table ''integrityevent''
      [required ''id'' TInteger,
       required ''invite_id'' TInteger,
       required ''candidate_email'' TText,
       nullable ''question_id'' TText,
       required ''kind'' TText,
       required ''offset_ms'' TInteger,
       nullable ''duration_ms'' TInteger,
       nullable ''size'' TInteger,
       with_default ''false'' (required ''blocked'' TBoolean),
       required ''created_at'' TDateTime]
      [''id''] [fk_on ''invite_id'' ''invite'', fk_on ''question_id'' ''question''] []),
     CreateIndex ''ix_integrityevent_invite_id'' ''integrityevent'' [''invite_id''] False,
     CreateIndex ''ix_integrityevent_candidate_email'' ''integrityevent'' [''candidate_email''] False,
     CreateIndex ''ix_integrityevent_question_id'' ''integrityevent'' [''question_id''] False,
     CreateIndex ''ix_integrityevent_kind'' ''integrityevent'' [''kind''] False,
     AddColumn ''assessment'' (with_default ''true'' (required ''proctored'' TBoolean))]"

definition downgrade_a9d1f4c07b53 :: "ddl list" where
  "downgrade_a9d1f4c07b53 =
    [DropColumn ''assessment'' ''proctored'',
     DropIndex ''ix_integrityevent_kind'' ''integrityevent'',
     DropIndex ''ix_integrityevent_question_id'' ''integrityevent'',
     DropIndex ''ix_integrityevent_candidate_email'' ''integrityevent'',
     DropIndex ''ix_integrityevent_invite_id'' ''integrityevent'',
     DropTable ''integrityevent'']"

subsubsection \<open>invite proctored snapshot\<close>

definition upgrade_b1e7f3a52c94 :: "ddl list" where
  "upgrade_b1e7f3a52c94 =
    [AddColumn ''invite'' (with_default ''true'' (required ''proctored'' TBoolean)),
     Backfill]"

definition downgrade_b1e7f3a52c94 :: "ddl list" where
  "downgrade_b1e7f3a52c94 =
    [DropColumn ''invite'' ''proctored'']"

subsubsection \<open>candidate draft\<close>

definition upgrade_c8a4e6f2d190 :: "ddl list" where
  "upgrade_c8a4e6f2d190 =
    [CreateTable (new_table ''candidatedraft''
      [required ''id'' TInteger,
       required ''invite_id'' TInteger,
       required ''candidate_email'' TText,
       required ''question_id'' TText,
       required ''code'' TText,
       required ''language'' TText,
       required ''updated_at'' TDateTime]
      [''id''] [fk_on ''invite_id'' ''invite'', fk_on ''question_id'' ''question''] [(Some ''uq_draft_invite_candidate_question'', [''invite_id'', ''candidate_email'', ''question_id''])]),
     CreateIndex ''ix_candidatedraft_invite_id'' ''candidatedraft'' [''invite_id''] False,
     CreateIndex ''ix_candidatedraft_candidate_email'' ''candidatedraft'' [''candidate_email''] False]"

definition downgrade_c8a4e6f2d190 :: "ddl list" where
  "downgrade_c8a4e6f2d190 =
    [DropIndex ''ix_candidatedraft_candidate_email'' ''candidatedraft'',
     DropIndex ''ix_candidatedraft_invite_id'' ''candidatedraft'',
     DropTable ''candidatedraft'']"

subsubsection \<open>rate limit counter\<close>

definition upgrade_a4f8c2d6e9b1 :: "ddl list" where
  "upgrade_a4f8c2d6e9b1 =
    [CreateTable (new_table ''ratelimitcounter''
      [required ''bucket'' TText,
       required ''client'' TText,
       required ''window_start'' TInteger,
       required ''count'' TInteger]
      [''bucket'', ''client'', ''window_start''] [] []),
     CreateIndex ''ix_ratelimitcounter_window_start'' ''ratelimitcounter'' [''window_start''] False]"

definition downgrade_a4f8c2d6e9b1 :: "ddl list" where
  "downgrade_a4f8c2d6e9b1 =
    [DropIndex ''ix_ratelimitcounter_window_start'' ''ratelimitcounter'',
     DropTable ''ratelimitcounter'']"

subsubsection \<open>submission attempts and status index\<close>

definition upgrade_d7c3e9a1b5f2 :: "ddl list" where
  "upgrade_d7c3e9a1b5f2 =
    [AddColumn ''submission'' (with_default ''0'' (required ''attempts'' TInteger)),
     CreateIndex ''ix_submission_status'' ''submission'' [''status''] False]"

definition downgrade_d7c3e9a1b5f2 :: "ddl list" where
  "downgrade_d7c3e9a1b5f2 =
    [DropIndex ''ix_submission_status'' ''submission'',
     DropColumn ''submission'' ''attempts'']"

subsubsection \<open>interviewer account lifecycle\<close>

definition upgrade_e3b9a7c1d052 :: "ddl list" where
  "upgrade_e3b9a7c1d052 =
    [AddColumn ''interviewer'' (with_default ''0'' (required ''token_version'' TInteger)),
     AddColumn ''interviewer'' (nullable ''email_verified_at'' TDateTime),
     Backfill]"

definition downgrade_e3b9a7c1d052 :: "ddl list" where
  "downgrade_e3b9a7c1d052 =
    [DropColumn ''interviewer'' ''email_verified_at'',
     DropColumn ''interviewer'' ''token_version'']"

subsubsection \<open>organizations and membership x01\<close>

definition OWNED :: "string list" where
  "OWNED = [''question'', ''variantset'', ''assessment'']"

definition upgrade_a1c4e07b2d93 :: "ddl list" where
  "upgrade_a1c4e07b2d93 =
    [CreateTable (new_table ''organization''
      [required ''id'' TInteger,
       required ''name'' TText,
       required ''created_at'' TDateTime,
       required ''updated_at'' TDateTime]
      [''id''] [] []),
     CreateTable (new_table ''membership''
      [required ''id'' TInteger,
       required ''org_id'' TInteger,
       required ''interviewer_id'' TInteger,
       required ''role'' TText,
       nullable ''invited_by'' TInteger,
       required ''created_at'' TDateTime,
       required ''updated_at'' TDateTime]
      [''id''] [fk_on ''org_id'' ''organization'', fk_on ''interviewer_id'' ''interviewer'', fk_on ''invited_by'' ''interviewer''] [(Some ''uq_membership_interviewer'', [''interviewer_id''])]),
     CreateIndex ''ix_membership_org_id'' ''membership'' [''org_id''] False,
     CreateIndex ''ix_membership_interviewer_id'' ''membership'' [''interviewer_id''] False,
     CreateTable (new_table ''orginvite''
      [required ''id'' TInteger,
       required ''org_id'' TInteger,
       required ''token'' TText,
       required ''email'' TText,
       required ''role'' TText,
       nullable ''invited_by'' TInteger,
       nullable ''expires_at'' TDateTime,
       nullable ''accepted_at'' TDateTime,
       with_default ''true'' (required ''sent'' TBoolean),
       nullable ''send_error'' TText,
       required ''created_at'' TDateTime,
       required ''updated_at'' TDateTime]
      [''id''] [fk_on ''org_id'' ''organization'', fk_on ''invited_by'' ''interviewer''] []),
     CreateIndex ''ix_orginvite_org_id'' ''orginvite'' [''org_id''] False,
     CreateIndex ''ix_orginvite_email'' ''orginvite'' [''email''] False,
     CreateIndex ''ix_orginvite_token'' ''orginvite'' [''token''] True,
     CreateIndex ''ix_orginvite_invited_by'' ''orginvite'' [''invited_by''] False,
     Backfill] @
    concat (map (\<lambda>table.
      [AddColumn table (nullable ''org_id'' TInteger),
       Backfill,
       AlterColumn table ''org_id'' False,
       AlterColumn table ''owner_id'' True,
       CreateForeignKey (''fk_'' @ table @ ''_org_id'') table ''organization'' ''org_id'',
       CreateIndex (''ix_'' @ table @ ''_org_id'') table [''org_id''] False]) OWNED) @
    [AlterColumn ''invite'' ''created_by'' True]"

definition downgrade_a1c4e07b2d93 :: "ddl list" where
  "downgrade_a1c4e07b2d93 =
    concat (map (\<lambda>table.
      [DropIndex (''ix_'' @ table @ ''_org_id'') table,
       DropColumn table ''org_id'']) OWNED) @
    [DropTable ''orginvite'', DropTable ''membership'', DropTable ''organization'']"

subsubsection \<open>billing plans and usage x02\<close>

definition upgrade_b8f2c4d16a07 :: "ddl list" where
  "upgrade_b8f2c4d16a07 =
    [AddColumn ''organization'' (with_default ''free'' (required ''plan'' TText)),
     AddColumn ''organization'' (with_default ''active'' (required ''plan_status'' TText)),
     AddColumn ''organization'' (nullable ''stripe_customer_id'' TText),
     AddColumn ''organization'' (nullable ''stripe_subscription_id'' TText),
     AddColumn ''organization'' (nullable ''current_period_end'' TDateTime),
     CreateIndex ''ix_organization_stripe_customer_id'' ''organization'' [''stripe_customer_id''] True,
     CreateIndex ''ix_organization_stripe_subscription_id'' ''organization'' [''stripe_subscription_id''] False,
     CreateTable (new_table ''orgusage''
      [required ''id'' TInteger,
       required ''org_id'' TInteger,
       required ''period'' TText,
       with_default ''0'' (required ''sittings'' TInteger),
       with_default ''0'' (required ''drafts'' TInteger),
       with_default ''0'' (required ''judge_cost_usd'' TFloat),
       with_default ''0'' (required ''draft_cost_usd'' TFloat),
       required ''created_at'' TDateTime,
       required ''updated_at'' TDateTime]
      [''id''] [fk_on ''org_id'' ''organization''] [(Some ''uq_org_usage_period'', [''org_id'', ''period''])]),
     CreateIndex ''ix_orgusage_org_id'' ''orgusage'' [''org_id''] False,
     CreateIndex ''ix_orgusage_period'' ''orgusage'' [''period''] False,
     AddColumn ''submission'' (nullable ''judge_cost_usd'' TFloat)]"

definition downgrade_b8f2c4d16a07 :: "ddl list" where
  "downgrade_b8f2c4d16a07 =
    [DropColumn ''submission'' ''judge_cost_usd'',
     DropIndex ''ix_orgusage_period'' ''orgusage'',
     DropIndex ''ix_orgusage_org_id'' ''orgusage'',
     DropTable ''orgusage'',
     DropIndex ''ix_organization_stripe_subscription_id'' ''organization'',
     DropIndex ''ix_organization_stripe_customer_id'' ''organization'',
     DropColumn ''organization'' ''current_period_end'',
     DropColumn ''organization'' ''stripe_subscription_id'',
     DropColumn ''organization'' ''stripe_customer_id'',
     DropColumn ''organization'' ''plan_status'',
     DropColumn ''organization'' ''plan'']"

subsubsection \<open>usage carry over x02\<close>

definition upgrade_c4a71e3b9d28 :: "ddl list" where
  "upgrade_c4a71e3b9d28 =
    [AddColumn ''orgusage'' (with_default ''0'' (required ''sittings_carried'' TInteger)),
     AddColumn ''orgusage'' (with_default ''0'' (required ''drafts_carried'' TInteger))]"

definition downgrade_c4a71e3b9d28 :: "ddl list" where
  "downgrade_c4a71e3b9d28 =
    [DropColumn ''orgusage'' ''drafts_carried'',
     DropColumn ''orgusage'' ''sittings_carried'']"

subsubsection \<open>record overruns when they happen x02\<close>

definition upgrade_d5b82f4c1e63 :: "ddl list" where
  "upgrade_d5b82f4c1e63 =
    [AddColumn ''orgusage'' (with_default ''0'' (required ''sittings_over'' TInteger)),
     AddColumn ''orgusage'' (with_default ''0'' (required ''drafts_over'' TInteger))]"

definition downgrade_d5b82f4c1e63 :: "ddl list" where
  "downgrade_d5b82f4c1e63 =
    [DropColumn ''orgusage'' ''drafts_over'',
     DropColumn ''orgusage'' ''sittings_over'']"

subsubsection \<open>privacy retention consent erasure\<close>

definition upgrade_a8f2c30d91b4 :: "ddl list" where
  "upgrade_a8f2c30d91b4 =
    [AddColumn ''organization'' (nullable ''retention_days'' TInteger),
     AddColumn ''candidateattempt'' (nullable ''consent_at'' TDateTime),
     AddColumn ''candidateattempt'' (nullable ''consent_version'' TText),
     AddColumn ''candidateattempt'' (nullable ''erased_at'' TDateTime)]"

definition downgrade_a8f2c30d91b4 :: "ddl list" where
  "downgrade_a8f2c30d91b4 =
    [DropColumn ''candidateattempt'' ''erased_at'',
     DropColumn ''candidateattempt'' ''consent_version'',
     DropColumn ''candidateattempt'' ''consent_at'',
     DropColumn ''organization'' ''retention_days'']"

subsubsection \<open>results ready notification x06\<close>

definition upgrade_b1d7e4f9c8a3 :: "ddl list" where
  "upgrade_b1d7e4f9c8a3 =
    [AddColumn ''organization'' (nullable ''results_webhook_url'' TText),
     AddColumn ''organization'' (nullable ''results_webhook_secret'' TText),
     AddColumn ''candidateattempt'' (nullable ''results_notified_at'' TDateTime)]"

definition downgrade_b1d7e4f9c8a3 :: "ddl list" where
  "downgrade_b1d7e4f9c8a3 =
    [DropColumn ''candidateattempt'' ''results_notified_at'',
     DropColumn ''organization'' ''results_webhook_secret'',
     DropColumn ''organization'' ''results_webhook_url'']"

subsubsection \<open>candidate feedback\<close>

definition upgrade_a9c3f5e17b24 :: "ddl list" where
  "upgrade_a9c3f5e17b24 =
    [CreateTable (new_table ''candidatefeedback''
      [required ''id'' TInteger,
       required ''org_id'' TInteger,
       required ''attempt_id'' TInteger,
       required ''rating'' TInteger,
       required ''difficulty_fair'' TText,
       required ''comment'' TText,
       required ''created_at'' TDateTime]
      [''id''] [fk_on ''attempt_id'' ''candidateattempt'', fk_on ''org_id'' ''organization''] [(None, [''attempt_id''])]),
     CreateIndex ''ix_candidatefeedback_org_id'' ''candidatefeedback'' [''org_id''] False]"

definition downgrade_a9c3f5e17b24 :: "ddl list" where
  "downgrade_a9c3f5e17b24 =
    [DropIndex ''ix_candidatefeedback_org_id'' ''candidatefeedback'',
     DropTable ''candidatefeedback'']"

subsubsection \<open>org logo asset\<close>

definition upgrade_c5e81a7d34b6 :: "ddl list" where
  "upgrade_c5e81a7d34b6 =
    [CreateTable (new_table ''orgasset''
      [required ''id'' TInteger,
       required ''org_id'' TInteger,
       required ''kind'' TText,
       required ''content_type'' TText,
       required ''sha256'' TText,
       required ''data'' TBlob,
       required ''width'' TInteger,
       required ''height'' TInteger,
       required ''created_at'' TDateTime]
      [''id''] [fk_on ''org_id'' ''organization''] [(Some ''uq_orgasset_org_sha'', [''org_id'', ''sha256''])]),
     CreateIndex ''ix_orgasset_org_id'' ''orgasset'' [''org_id''] False,
     CreateIndex ''ix_orgasset_sha256'' ''orgasset'' [''sha256''] False,
     AddColumn ''organization'' (nullable ''logo_sha'' TText),
     CreateIndex ''ix_organization_logo_sha'' ''organization'' [''logo_sha''] False,
     AddColumn ''assessment'' (nullable ''logo_sha'' TText),
     CreateIndex ''ix_assessment_logo_sha'' ''assessment'' [''logo_sha''] False,
     DropColumn ''assessment'' ''logo_url'',
     DropColumn ''interviewer'' ''default_logo_url'',
     DropColumn ''interviewer'' ''default_org_name'']"

definition downgrade_c5e81a7d34b6 :: "ddl list" where
  "downgrade_c5e81a7d34b6 =
    [AddColumn ''interviewer'' (nullable ''default_org_name'' TText),
     AddColumn ''interviewer'' (nullable ''default_logo_url'' TText),
     AddColumn ''assessment'' (nullable ''logo_url'' TText),
     DropIndex ''ix_assessment_logo_sha'' ''assessment'',
     DropColumn ''assessment'' ''logo_sha'',
     DropIndex ''ix_organization_logo_sha'' ''organization'',
     DropColumn ''organization'' ''logo_sha'',
     DropIndex ''ix_orgasset_sha256'' ''orgasset'',
     DropIndex ''ix_orgasset_org_id'' ''orgasset'',
     DropTable ''orgasset'']"

subsubsection \<open>submission error reason\<close>

definition upgrade_a4f2c7b81e60 :: "ddl list" where
  "upgrade_a4f2c7b81e60 =
    [AddColumn ''submission'' (nullable ''error_reason'' TText)]"

definition downgrade_a4f2c7b81e60 :: "ddl list" where
  "downgrade_a4f2c7b81e60 =
    [DropColumn ''submission'' ''error_reason'']"

subsubsection \<open>invite duration snapshot\<close>

definition upgrade_b3f1d64c2a07 :: "ddl list" where
  "upgrade_b3f1d64c2a07 =
    [AddColumn ''invite'' (nullable ''duration_minutes'' TInteger),
     Backfill]"

definition downgrade_b3f1d64c2a07 :: "ddl list" where
  "downgrade_b3f1d64c2a07 =
    [DropColumn ''invite'' ''duration_minutes'']"

section \<open>The chain\<close>

record revision =
  rev_id :: string
  rev_down :: "string option"
  rev_up :: "ddl list"
  rev_back :: "ddl list"

definition revision_of :: "string \<Rightarrow> string option \<Rightarrow> ddl list \<Rightarrow> ddl list \<Rightarrow> revision" where
  "revision_of i d up back = \<lparr>rev_id = i, rev_down = d, rev_up = up, rev_back = back\<rparr>"

text \<open>The files, in the order of the directory.\<close>

definition revisions :: "revision list" where
  "revisions =
    [revision_of ''0ae2d36aff72'' (Some ''ad5e81ec2b2b'') upgrade_0ae2d36aff72 downgrade_0ae2d36aff72,
     revision_of ''15556d728532'' (Some ''f21c8592dee0'') upgrade_15556d728532 downgrade_15556d728532,
     revision_of ''330f96008258'' (Some ''40b262e3d6b5'') upgrade_330f96008258 downgrade_330f96008258,
     revision_of ''3c8072a71f16'' (Some ''330f96008258'') upgrade_3c8072a71f16 downgrade_3c8072a71f16,
     revision_of ''40b262e3d6b5'' (Some ''4134ffc10adb'') upgrade_40b262e3d6b5 downgrade_40b262e3d6b5,
     revision_of ''4134ffc10adb'' (Some ''cae37faa2bff'') upgrade_4134ffc10adb downgrade_4134ffc10adb,
     revision_of ''4185e1964c38'' (Some ''0ae2d36aff72'') upgrade_4185e1964c38 downgrade_4185e1964c38,
     revision_of ''a1c4e07b2d93'' (Some ''e3b9a7c1d052'') upgrade_a1c4e07b2d93 downgrade_a1c4e07b2d93,
     revision_of ''a4f2c7b81e60'' (Some ''c5e81a7d34b6'') upgrade_a4f2c7b81e60 downgrade_a4f2c7b81e60,
     revision_of ''a4f8c2d6e9b1'' (Some ''c8a4e6f2d190'') upgrade_a4f8c2d6e9b1 downgrade_a4f8c2d6e9b1,
     revision_of ''a8f2c30d91b4'' (Some ''d5b82f4c1e63'') upgrade_a8f2c30d91b4 downgrade_a8f2c30d91b4,
     revision_of ''a9c3f5e17b24'' (Some ''b1d7e4f9c8a3'') upgrade_a9c3f5e17b24 downgrade_a9c3f5e17b24,
     revision_of ''a9d1f4c07b53'' (Some ''f6c4d0b9e3a2'') upgrade_a9d1f4c07b53 downgrade_a9d1f4c07b53,
     revision_of ''ad5e81ec2b2b'' (Some ''15556d728532'') upgrade_ad5e81ec2b2b downgrade_ad5e81ec2b2b,
     revision_of ''b1d7e4f9c8a3'' (Some ''a8f2c30d91b4'') upgrade_b1d7e4f9c8a3 downgrade_b1d7e4f9c8a3,
     revision_of ''b1e7f3a52c94'' (Some ''a9d1f4c07b53'') upgrade_b1e7f3a52c94 downgrade_b1e7f3a52c94,
     revision_of ''b3f1d64c2a07'' (Some ''a4f2c7b81e60'') upgrade_b3f1d64c2a07 downgrade_b3f1d64c2a07,
     revision_of ''b7e2c1a4d9f0'' (Some ''4185e1964c38'') upgrade_b7e2c1a4d9f0 downgrade_b7e2c1a4d9f0,
     revision_of ''b8f2c4d16a07'' (Some ''a1c4e07b2d93'') upgrade_b8f2c4d16a07 downgrade_b8f2c4d16a07,
     revision_of ''c3f1a7b2e5d8'' (Some ''b7e2c1a4d9f0'') upgrade_c3f1a7b2e5d8 downgrade_c3f1a7b2e5d8,
     revision_of ''c4a71e3b9d28'' (Some ''b8f2c4d16a07'') upgrade_c4a71e3b9d28 downgrade_c4a71e3b9d28,
     revision_of ''c5e81a7d34b6'' (Some ''a9c3f5e17b24'') upgrade_c5e81a7d34b6 downgrade_c5e81a7d34b6,
     revision_of ''c8a4e6f2d190'' (Some ''b1e7f3a52c94'') upgrade_c8a4e6f2d190 downgrade_c8a4e6f2d190,
     revision_of ''cae37faa2bff'' None upgrade_cae37faa2bff downgrade_cae37faa2bff,
     revision_of ''d4a2b8c6f1e0'' (Some ''c3f1a7b2e5d8'') upgrade_d4a2b8c6f1e0 downgrade_d4a2b8c6f1e0,
     revision_of ''d5b82f4c1e63'' (Some ''c4a71e3b9d28'') upgrade_d5b82f4c1e63 downgrade_d5b82f4c1e63,
     revision_of ''d7c3e9a1b5f2'' (Some ''a4f8c2d6e9b1'') upgrade_d7c3e9a1b5f2 downgrade_d7c3e9a1b5f2,
     revision_of ''e3b9a7c1d052'' (Some ''d7c3e9a1b5f2'') upgrade_e3b9a7c1d052 downgrade_e3b9a7c1d052,
     revision_of ''e5b3c9d7a2f1'' (Some ''d4a2b8c6f1e0'') upgrade_e5b3c9d7a2f1 downgrade_e5b3c9d7a2f1,
     revision_of ''f21c8592dee0'' (Some ''3c8072a71f16'') upgrade_f21c8592dee0 downgrade_f21c8592dee0,
     revision_of ''f6c4d0b9e3a2'' (Some ''e5b3c9d7a2f1'') upgrade_f6c4d0b9e3a2 downgrade_f6c4d0b9e3a2]"

definition heads :: "revision list \<Rightarrow> string list" where
  "heads rs = filter (\<lambda>i. \<not> list_ex (\<lambda>r. rev_down r = Some i) rs) (map rev_id rs)"

definition find_revision :: "string \<Rightarrow> revision list \<Rightarrow> revision option" where
  "find_revision i rs = List.find (\<lambda>r. rev_id r = i) rs"

text \<open>From a revision down to the base; \<open>n\<close> bounds the length of the walk.\<close>

fun walk_down :: "nat \<Rightarrow> string option \<Rightarrow> revision list \<Rightarrow> revision list option" where
  "walk_down n None rs = Some []"
| "walk_down 0 (Some i) rs = None"
| "walk_down (Suc n) (Some i) rs =
     (case find_revision i rs of None \<Rightarrow> None
      | Some r \<Rightarrow> map_option ((#) r) (walk_down n (rev_down r) rs))"

definition history :: "revision list \<Rightarrow> revision list option" where
  "history rs = (case heads rs of [h] \<Rightarrow> map_option rev (walk_down (length rs) (Some h) rs) | _ \<Rightarrow> None)"

definition upgrade_head :: "engine \<Rightarrow> revision list \<Rightarrow> schema \<Rightarrow> schema option" where
  "upgrade_head eng rs s = (case history rs of None \<Rightarrow> None | Some h \<Rightarrow> migrate eng (concat (map rev_up h)) s)"

definition downgrade_base :: "engine \<Rightarrow> revision list \<Rightarrow> schema \<Rightarrow> schema option" where
  "downgrade_base eng rs s =
     (case history rs of None \<Rightarrow> None | Some h \<Rightarrow> migrate eng (concat (map rev_back (rev h))) s)"

end
