(* ===== verification/MigrationSafety.thy ===== *)
theory MigrationSafety
  imports Migrations
begin

text \<open>
  What the migrations come to. Run on an empty database, in the order of the chain, none of their
  operations is refused and the schema they leave is the one \<open>models.py\<close> declares; a revision
  whose \<open>downgrade\<close> reverses its \<open>upgrade\<close> operation by operation gives back the schema it
  was applied to, whatever that was.
\<close>

section \<open>The chain has one head and one order\<close>

lemma revision_of_sel [simp]:
  "rev_id (revision_of i d u b) = i" "rev_down (revision_of i d u b) = d"
  "rev_up (revision_of i d u b) = u" "rev_back (revision_of i d u b) = b"
  by (simp_all add: revision_of_def)

definition chain :: "revision list" where
  "chain =
    [revision_of ''cae37faa2bff'' None upgrade_cae37faa2bff downgrade_cae37faa2bff,
     revision_of ''4134ffc10adb'' (Some ''cae37faa2bff'') upgrade_4134ffc10adb downgrade_4134ffc10adb,
     revision_of ''40b262e3d6b5'' (Some ''4134ffc10adb'') upgrade_40b262e3d6b5 downgrade_40b262e3d6b5,
     revision_of ''330f96008258'' (Some ''40b262e3d6b5'') upgrade_330f96008258 downgrade_330f96008258,
     revision_of ''3c8072a71f16'' (Some ''330f96008258'') upgrade_3c8072a71f16 downgrade_3c8072a71f16,
     revision_of ''f21c8592dee0'' (Some ''3c8072a71f16'') upgrade_f21c8592dee0 downgrade_f21c8592dee0,
     revision_of ''15556d728532'' (Some ''f21c8592dee0'') upgrade_15556d728532 downgrade_15556d728532,
     revision_of ''ad5e81ec2b2b'' (Some ''15556d728532'') upgrade_ad5e81ec2b2b downgrade_ad5e81ec2b2b,
     revision_of ''0ae2d36aff72'' (Some ''ad5e81ec2b2b'') upgrade_0ae2d36aff72 downgrade_0ae2d36aff72,
     revision_of ''4185e1964c38'' (Some ''0ae2d36aff72'') upgrade_4185e1964c38 downgrade_4185e1964c38,
     revision_of ''b7e2c1a4d9f0'' (Some ''4185e1964c38'') upgrade_b7e2c1a4d9f0 downgrade_b7e2c1a4d9f0,
     revision_of ''c3f1a7b2e5d8'' (Some ''b7e2c1a4d9f0'') upgrade_c3f1a7b2e5d8 downgrade_c3f1a7b2e5d8,
     revision_of ''d4a2b8c6f1e0'' (Some ''c3f1a7b2e5d8'') upgrade_d4a2b8c6f1e0 downgrade_d4a2b8c6f1e0,
     revision_of ''e5b3c9d7a2f1'' (Some ''d4a2b8c6f1e0'') upgrade_e5b3c9d7a2f1 downgrade_e5b3c9d7a2f1,
     revision_of ''f6c4d0b9e3a2'' (Some ''e5b3c9d7a2f1'') upgrade_f6c4d0b9e3a2 downgrade_f6c4d0b9e3a2,
     revision_of ''a9d1f4c07b53'' (Some ''f6c4d0b9e3a2'') upgrade_a9d1f4c07b53 downgrade_a9d1f4c07b53,
     revision_of ''b1e7f3a52c94'' (Some ''a9d1f4c07b53'') upgrade_b1e7f3a52c94 downgrade_b1e7f3a52c94,
     revision_of ''c8a4e6f2d190'' (Some ''b1e7f3a52c94'') upgrade_c8a4e6f2d190 downgrade_c8a4e6f2d190,
     revision_of ''a4f8c2d6e9b1'' (Some ''c8a4e6f2d190'') upgrade_a4f8c2d6e9b1 downgrade_a4f8c2d6e9b1,
     revision_of ''d7c3e9a1b5f2'' (Some ''a4f8c2d6e9b1'') upgrade_d7c3e9a1b5f2 downgrade_d7c3e9a1b5f2,
     revision_of ''e3b9a7c1d052'' (Some ''d7c3e9a1b5f2'') upgrade_e3b9a7c1d052 downgrade_e3b9a7c1d052,
     revision_of ''a1c4e07b2d93'' (Some ''e3b9a7c1d052'') upgrade_a1c4e07b2d93 downgrade_a1c4e07b2d93,
     revision_of ''b8f2c4d16a07'' (Some ''a1c4e07b2d93'') upgrade_b8f2c4d16a07 downgrade_b8f2c4d16a07,
     revision_of ''c4a71e3b9d28'' (Some ''b8f2c4d16a07'') upgrade_c4a71e3b9d28 downgrade_c4a71e3b9d28,
     revision_of ''d5b82f4c1e63'' (Some ''c4a71e3b9d28'') upgrade_d5b82f4c1e63 downgrade_d5b82f4c1e63,
     revision_of ''a8f2c30d91b4'' (Some ''d5b82f4c1e63'') upgrade_a8f2c30d91b4 downgrade_a8f2c30d91b4,
     revision_of ''b1d7e4f9c8a3'' (Some ''a8f2c30d91b4'') upgrade_b1d7e4f9c8a3 downgrade_b1d7e4f9c8a3,
     revision_of ''a9c3f5e17b24'' (Some ''b1d7e4f9c8a3'') upgrade_a9c3f5e17b24 downgrade_a9c3f5e17b24,
     revision_of ''c5e81a7d34b6'' (Some ''a9c3f5e17b24'') upgrade_c5e81a7d34b6 downgrade_c5e81a7d34b6,
     revision_of ''a4f2c7b81e60'' (Some ''c5e81a7d34b6'') upgrade_a4f2c7b81e60 downgrade_a4f2c7b81e60,
     revision_of ''b3f1d64c2a07'' (Some ''a4f2c7b81e60'') upgrade_b3f1d64c2a07 downgrade_b3f1d64c2a07]"

text \<open>Each revision of the list follows the next one, and the last is the base.\<close>

definition id_of_first :: "revision list \<Rightarrow> string option" where
  "id_of_first c = (case c of [] \<Rightarrow> None | r # _ \<Rightarrow> Some (rev_id r))"

fun linked :: "revision list \<Rightarrow> bool" where
  "linked [] = True"
| "linked (r # c) = (rev_down r = id_of_first c \<and> linked c)"

lemma find_revision_member:
  assumes "distinct (map rev_id rs)" and "r \<in> set rs"
  shows "find_revision (rev_id r) rs = Some r"
  using assms by (induction rs) (auto simp: find_revision_def)

lemma walk_linked:
  assumes "distinct (map rev_id rs)" and "set c \<subseteq> set rs" and "linked c" and "length c \<le> n"
  shows "walk_down n (id_of_first c) rs = Some c"
  using assms(2-)
proof (induction c arbitrary: n)
  case (Cons r c)
  then obtain m where "n = Suc m" by (cases n) auto
  then show ?case
    using Cons find_revision_member [OF assms(1), of r] by (simp add: id_of_first_def)
qed (simp add: id_of_first_def)

lemma revisions_distinct: "distinct (map rev_id revisions)"
  by (simp add: revisions_def)

lemma revisions_heads: "heads revisions = [''b3f1d64c2a07'']"
  by (simp add: heads_def revisions_def)

lemma chain_revisions: "set chain = set revisions" and chain_length: "length chain = length revisions"
  by (auto simp: chain_def revisions_def)

lemma chain_linked: "linked (rev chain)"
  by (simp add: chain_def id_of_first_def)

lemma history_chain: "history revisions = Some chain"
proof -
  have "walk_down (length revisions) (id_of_first (rev chain)) revisions = Some (rev chain)"
    by (rule walk_linked) (simp_all add: revisions_distinct chain_revisions chain_linked chain_length)
  moreover have "id_of_first (rev chain) = Some ''b3f1d64c2a07''"
    by (simp add: chain_def id_of_first_def)
  ultimately show ?thesis by (simp add: history_def revisions_heads)
qed

section \<open>Evaluating the migrations\<close>

text \<open>Comparisons of names that stop at the first difference.\<close>

lemma equal_char_short [code]:
  "HOL.equal (Char a0 a1 a2 a3 a4 a5 a6 a7) (Char b0 b1 b2 b3 b4 b5 b6 b7) \<longleftrightarrow>
    (if a0 = b0 then if a1 = b1 then if a2 = b2 then if a3 = b3 then if a4 = b4 then
     if a5 = b5 then if a6 = b6 then a7 = b7 else False else False else False else False else False
     else False else False)"
  by (simp add: equal_eq)

lemma equal_list_short [code]:
  "HOL.equal (x # xs) (y # ys) \<longleftrightarrow> (if x = y then HOL.equal xs ys else False)"
  "HOL.equal [] [] \<longleftrightarrow> True" "HOL.equal (x # xs) [] \<longleftrightarrow> False" "HOL.equal [] (x # xs) \<longleftrightarrow> False"
  by (simp_all add: equal_eq)

lemma list_ex_short [code]:
  "list_ex P (x # xs) = (if P x then True else list_ex P xs)" "list_ex P [] = False"
  by simp_all

lemma all_upgrades:
  "concat (map rev_up chain) =
    upgrade_cae37faa2bff @ upgrade_4134ffc10adb @ upgrade_40b262e3d6b5 @ upgrade_330f96008258 @
    upgrade_3c8072a71f16 @ upgrade_f21c8592dee0 @ upgrade_15556d728532 @ upgrade_ad5e81ec2b2b @
    upgrade_0ae2d36aff72 @ upgrade_4185e1964c38 @ upgrade_b7e2c1a4d9f0 @ upgrade_c3f1a7b2e5d8 @
    upgrade_d4a2b8c6f1e0 @ upgrade_e5b3c9d7a2f1 @ upgrade_f6c4d0b9e3a2 @ upgrade_a9d1f4c07b53 @
    upgrade_b1e7f3a52c94 @ upgrade_c8a4e6f2d190 @ upgrade_a4f8c2d6e9b1 @ upgrade_d7c3e9a1b5f2 @
    upgrade_e3b9a7c1d052 @ upgrade_a1c4e07b2d93 @ upgrade_b8f2c4d16a07 @ upgrade_c4a71e3b9d28 @
    upgrade_d5b82f4c1e63 @ upgrade_a8f2c30d91b4 @ upgrade_b1d7e4f9c8a3 @ upgrade_a9c3f5e17b24 @
    upgrade_c5e81a7d34b6 @ upgrade_a4f2c7b81e60 @ upgrade_b3f1d64c2a07"
  by (simp add: chain_def)

lemma upgrades_evaluated:
  "case migrate effect (
    upgrade_cae37faa2bff @ upgrade_4134ffc10adb @ upgrade_40b262e3d6b5 @ upgrade_330f96008258 @
    upgrade_3c8072a71f16 @ upgrade_f21c8592dee0 @ upgrade_15556d728532 @ upgrade_ad5e81ec2b2b @
    upgrade_0ae2d36aff72 @ upgrade_4185e1964c38 @ upgrade_b7e2c1a4d9f0 @ upgrade_c3f1a7b2e5d8 @
    upgrade_d4a2b8c6f1e0 @ upgrade_e5b3c9d7a2f1 @ upgrade_f6c4d0b9e3a2 @ upgrade_a9d1f4c07b53 @
    upgrade_b1e7f3a52c94 @ upgrade_c8a4e6f2d190 @ upgrade_a4f8c2d6e9b1 @ upgrade_d7c3e9a1b5f2 @
    upgrade_e3b9a7c1d052 @ upgrade_a1c4e07b2d93 @ upgrade_b8f2c4d16a07 @ upgrade_c4a71e3b9d28 @
    upgrade_d5b82f4c1e63 @ upgrade_a8f2c30d91b4 @ upgrade_b1d7e4f9c8a3 @ upgrade_a9c3f5e17b24 @
    upgrade_c5e81a7d34b6 @ upgrade_a4f2c7b81e60 @ upgrade_b3f1d64c2a07) [] of
     None \<Rightarrow> False | Some s \<Rightarrow> schema_matches s declared"
  by code_simp

section \<open>Properties\<close>

text \<open>
  C20. Whatever engine runs the operations as documented, \<open>alembic upgrade head\<close> on an empty
  database finds one head, refuses nothing (no table or index made twice, none missing, no NOT NULL
  column added without a default) and leaves exactly the tables, columns, types, nullability, keys,
  references, uniqueness rules and indexes that \<open>models.py\<close> declares.
\<close>

theorem upgrade_reaches_the_models:
  assumes "documented eng"
  shows "\<exists>s. upgrade_head eng revisions [] = Some s \<and> schema_matches s declared"
proof -
  obtain s where "migrate effect (concat (map rev_up chain)) [] = Some s" "schema_matches s declared"
    using upgrades_evaluated unfolding all_upgrades by (auto split: option.splits)
  then show ?thesis
    using migrate_documented [OF assms] by (auto simp: upgrade_head_def history_chain)
qed

lemma upgrade_reaches_the_models_witness:
  "\<exists>s. upgrade_head effect revisions [] = Some s \<and> schema_matches s declared"
  by (rule upgrade_reaches_the_models [OF documented_effect])

text \<open>The revisions whose downgrade is not the plain reversal: two that tighten a NOT NULL back, one that
  swaps a constraint, the organisations (which leave the authors nullable) and the logos (which bring
  back columns at the end).\<close>

definition exceptional :: "string list" where
  "exceptional = [''15556d728532'', ''ad5e81ec2b2b'', ''e5b3c9d7a2f1'', ''a1c4e07b2d93'', ''c5e81a7d34b6'']"

lemmas plain_revisions =
    upgrade_cae37faa2bff_def downgrade_cae37faa2bff_def
    upgrade_4134ffc10adb_def downgrade_4134ffc10adb_def
    upgrade_40b262e3d6b5_def downgrade_40b262e3d6b5_def
    upgrade_330f96008258_def downgrade_330f96008258_def
    upgrade_3c8072a71f16_def downgrade_3c8072a71f16_def
    upgrade_f21c8592dee0_def downgrade_f21c8592dee0_def
    upgrade_0ae2d36aff72_def downgrade_0ae2d36aff72_def
    upgrade_4185e1964c38_def downgrade_4185e1964c38_def
    upgrade_b7e2c1a4d9f0_def downgrade_b7e2c1a4d9f0_def
    upgrade_c3f1a7b2e5d8_def downgrade_c3f1a7b2e5d8_def
    upgrade_d4a2b8c6f1e0_def downgrade_d4a2b8c6f1e0_def
    upgrade_f6c4d0b9e3a2_def downgrade_f6c4d0b9e3a2_def
    upgrade_a9d1f4c07b53_def downgrade_a9d1f4c07b53_def
    upgrade_b1e7f3a52c94_def downgrade_b1e7f3a52c94_def
    upgrade_c8a4e6f2d190_def downgrade_c8a4e6f2d190_def
    upgrade_a4f8c2d6e9b1_def downgrade_a4f8c2d6e9b1_def
    upgrade_d7c3e9a1b5f2_def downgrade_d7c3e9a1b5f2_def
    upgrade_e3b9a7c1d052_def downgrade_e3b9a7c1d052_def
    upgrade_b8f2c4d16a07_def downgrade_b8f2c4d16a07_def
    upgrade_c4a71e3b9d28_def downgrade_c4a71e3b9d28_def
    upgrade_d5b82f4c1e63_def downgrade_d5b82f4c1e63_def
    upgrade_a8f2c30d91b4_def downgrade_a8f2c30d91b4_def
    upgrade_b1d7e4f9c8a3_def downgrade_b1d7e4f9c8a3_def
    upgrade_a9c3f5e17b24_def downgrade_a9c3f5e17b24_def
    upgrade_a4f2c7b81e60_def downgrade_a4f2c7b81e60_def
    upgrade_b3f1d64c2a07_def downgrade_b3f1d64c2a07_def

lemma downgrade_is_undo:
  assumes "r \<in> set revisions" and "rev_id r \<notin> set exceptional"
  shows "undo_all (rev_up r) = Some (rev_back r)"
proof -
  have "list_all (\<lambda>r. rev_id r \<in> set exceptional \<or> undo_all (rev_up r) = Some (rev_back r)) revisions"
    unfolding revisions_def exceptional_def
    by (simp add: plain_revisions new_table_def required_def nullable_def with_default_def)
  then show ?thesis using assms by (auto simp: list_all_iff)
qed

text \<open>
  C21. Taking a revision back restores the schema it was applied to, column order and names included:
  for every revision but the five exceptional ones and every sound schema on which the upgrade
  goes through, the downgrade goes through too and ends where the upgrade began.
\<close>

theorem downgrade_restores:
  assumes "documented eng" and "sound s" and "r \<in> set revisions" and "rev_id r \<notin> set exceptional"
    and "migrate effect (rev_up r) s = Some s'"
  shows "migrate eng (rev_up r @ rev_back r) s = Some s"
proof -
  have "migrate effect (rev_back r) s' = Some s"
    using undo_all_migrate [OF assms(2,5) downgrade_is_undo [OF assms(3,4)]] .
  then show ?thesis
    using migrate_documented [OF assms(1)] assms(5) by (simp add: migrate_append)
qed

lemma initial_revision:
  "revision_of ''cae37faa2bff'' None upgrade_cae37faa2bff downgrade_cae37faa2bff \<in> set revisions"
  by (simp add: revisions_def)

lemma initial_upgrade: "migrate effect upgrade_cae37faa2bff [] \<noteq> None"
  by code_simp

lemma downgrade_restores_witness:
  "migrate effect (upgrade_cae37faa2bff @ downgrade_cae37faa2bff) [] = Some []"
proof -
  obtain s where "migrate effect upgrade_cae37faa2bff [] = Some s"
    using initial_upgrade by auto
  then show ?thesis
    using downgrade_restores [OF documented_effect _ initial_revision, of "[]" s]
    by (simp add: sound_def exceptional_def)
qed

end
