(* ===== verification/Backfills.thy ===== *)
theory Backfills
  imports Tables PyText
begin

text \<open>
  The rows the migrations rewrite: the e-mail addresses in lower case (\<open>e3b9a7c1d052\<close>), one
  organisation per account (\<open>a1c4e07b2d93\<close>), and the two settings frozen on the invites
  (\<open>b1e7f3a52c94\<close>, \<open>b3f1d64c2a07\<close>). A statement that breaks a unique index or puts a NULL where
  the column takes none aborts the migration: \<open>None\<close>.
\<close>

section \<open>E-mail addresses in lower case\<close>

text \<open>\<open>by_lower.setdefault(key, []).append(row_id)\<close>; the dictionary keeps the order of insertion.\<close>

fun append_under :: "string \<Rightarrow> int \<Rightarrow> (string \<times> int list) list \<Rightarrow> (string \<times> int list) list" where
  "append_under k i [] = [(k, [i])]"
| "append_under k i ((k', is) # d) = (if k' = k then (k', is @ [i]) # d else (k', is) # append_under k i d)"

definition by_lower :: "interviewer list \<Rightarrow> (string \<times> int list) list" where
  "by_lower rows = foldl (\<lambda>d r. append_under (py_lower (iv_email r)) (iv_id r) d) [] rows"

definition set_email :: "string \<Rightarrow> int \<Rightarrow> interviewer list \<Rightarrow> interviewer list option" where
  "set_email email i rows =
     (let rows' = upd_where (\<lambda>r. iv_id r = i \<and> iv_email r \<noteq> email) (\<lambda>r. r\<lparr>iv_email := email\<rparr>) rows
      in if unique_key iv_email rows' then Some rows' else None)"

fun lower_groups :: "(string \<times> int list) list \<Rightarrow> interviewer list \<Rightarrow> interviewer list option" where
  "lower_groups [] rows = Some rows"
| "lower_groups ((lowered, is) # gs) rows =
     (if length is > 1 then lower_groups gs rows
      else case set_email lowered (hd is) rows of None \<Rightarrow> None | Some rows' \<Rightarrow> lower_groups gs rows')"

definition lower_emails :: "interviewer list \<Rightarrow> interviewer list option" where
  "lower_emails rows = lower_groups (by_lower rows) rows"

section \<open>One organisation per account\<close>

record account_then =
  ac_id :: int
  ac_name :: "string option"
  ac_default_org_name :: "string option"

record org_seed =
  os_id :: int
  os_name :: string

record member_seed =
  ms_org_id :: int
  ms_interviewer_id :: int
  ms_role :: string
  ms_invited_by :: "int option"

record owned_row =
  ow_owner_id :: int
  ow_org_id :: "int option"

text \<open>SQL's \<open>TRIM\<close> takes off spaces alone.\<close>

definition sql_trim :: "string \<Rightarrow> string" where
  "sql_trim s = rev (dropWhile (\<lambda>c. c = CHR '' '') (rev (dropWhile (\<lambda>c. c = CHR '' '') s)))"

definition org_name_of :: "account_then \<Rightarrow> string" where
  "org_name_of a =
     (case ac_default_org_name a of
        Some d \<Rightarrow> if sql_trim d \<noteq> '''' then sql_trim d else
          (case ac_name a of Some n \<Rightarrow> if sql_trim n \<noteq> '''' then sql_trim n @ [CHR 0x27] @ ''s organisation''
             else ''My organisation'' | None \<Rightarrow> ''My organisation'')
      | None \<Rightarrow>
          (case ac_name a of Some n \<Rightarrow> if sql_trim n \<noteq> '''' then sql_trim n @ [CHR 0x27] @ ''s organisation''
             else ''My organisation'' | None \<Rightarrow> ''My organisation''))"

definition seed_organizations :: "account_then list \<Rightarrow> org_seed list" where
  "seed_organizations as = map (\<lambda>a. \<lparr>os_id = ac_id a, os_name = org_name_of a\<rparr>) as"

definition seed_memberships :: "account_then list \<Rightarrow> member_seed list" where
  "seed_memberships as =
     map (\<lambda>a. \<lparr>ms_org_id = ac_id a, ms_interviewer_id = ac_id a, ms_role = ''admin'', ms_invited_by = None\<rparr>) as"

text \<open>\<open>UPDATE <table> SET org_id = (SELECT m.org_id ...)\<close>, and the column made NOT NULL.\<close>

definition give_to_org :: "member_seed list \<Rightarrow> owned_row list \<Rightarrow> owned_row list option" where
  "give_to_org ms rows =
     (let rows' = map (\<lambda>w. w\<lparr>ow_org_id := map_option ms_org_id
            (first_where (\<lambda>m. ms_interviewer_id m = ow_owner_id w) ms)\<rparr>) rows
      in if list_all (\<lambda>w. ow_org_id w \<noteq> None) rows' then Some rows' else None)"

section \<open>Settings frozen on the invites\<close>

fun all_or_none :: "'a option list \<Rightarrow> 'a list option" where
  "all_or_none [] = Some []"
| "all_or_none (None # xs) = None"
| "all_or_none (Some x # xs) = map_option ((#) x) (all_or_none xs)"

definition freeze_proctored_row :: "store \<Rightarrow> invite \<Rightarrow> invite option" where
  "freeze_proctored_row st v =
     (case inv_assessment_id v of None \<Rightarrow> Some v
      | Some a \<Rightarrow> map_option (\<lambda>r. v\<lparr>inv_proctored := a_proctored r\<rparr>) (get_assessment a st))"

definition freeze_proctored :: "store \<Rightarrow> store option" where
  "freeze_proctored st =
     map_option (\<lambda>vs. st\<lparr>t_invites := vs\<rparr>) (all_or_none (map (freeze_proctored_row st) (t_invites st)))"

definition freeze_assessment_duration :: "store \<Rightarrow> store" where
  "freeze_assessment_duration st = st\<lparr>t_invites :=
     upd_where (\<lambda>v. inv_assessment_id v \<noteq> None)
       (\<lambda>v. v\<lparr>inv_duration_minutes := Option.bind (get_assessment (the (inv_assessment_id v)) st) a_duration_minutes\<rparr>)
       (t_invites st)\<rparr>"

definition freeze_question_duration :: "store \<Rightarrow> store" where
  "freeze_question_duration st = st\<lparr>t_invites :=
     upd_where (\<lambda>v. inv_assessment_id v = None \<and> inv_question_id v \<noteq> None)
       (\<lambda>v. v\<lparr>inv_duration_minutes := Option.bind (get_question (the (inv_question_id v)) st) q_duration_minutes\<rparr>)
       (t_invites st)\<rparr>"

definition freeze_durations :: "store \<Rightarrow> store" where
  "freeze_durations st = freeze_question_duration (freeze_assessment_duration st)"

section \<open>The addresses stay unique at every step\<close>

text \<open>The reference: an address nobody shares up to case goes to lower case, the others stay.\<close>

definition shared_address :: "interviewer list \<Rightarrow> interviewer \<Rightarrow> bool" where
  "shared_address rows r = list_ex (\<lambda>x. iv_id x \<noteq> iv_id r \<and> py_lower (iv_email x) = py_lower (iv_email r)) rows"

definition lowered_in :: "string set \<Rightarrow> interviewer \<Rightarrow> interviewer" where
  "lowered_in K r = (if py_lower (iv_email r) \<in> K then r\<lparr>iv_email := py_lower (iv_email r)\<rparr> else r)"

definition ids_under :: "interviewer list \<Rightarrow> string \<Rightarrow> int list" where
  "ids_under rows k = map iv_id (filter (\<lambda>r. py_lower (iv_email r) = k) rows)"

lemma append_under_keys:
  "distinct (map fst d) \<Longrightarrow> distinct (map fst (append_under k i d))
   \<and> fst ` set (append_under k i d) = insert k (fst ` set d)"
  by (induction d rule: append_under.induct [of _ k i]) auto

lemma append_under_get:
  "distinct (map fst d) \<Longrightarrow> map_of (append_under k i d) k' =
     (if k' = k then Some ((case map_of d k of None \<Rightarrow> [] | Some is \<Rightarrow> is) @ [i]) else map_of d k')"
  by (induction d) auto

lemma by_lower_snoc:
  "by_lower (rows @ [r]) = append_under (py_lower (iv_email r)) (iv_id r) (by_lower rows)"
  by (simp add: by_lower_def)

lemma ids_under_snoc: "ids_under (rows @ [r]) k = ids_under rows k @ (if py_lower (iv_email r) = k then [iv_id r] else [])"
  by (simp add: ids_under_def)

lemma by_lower_spec:
  "distinct (map fst (by_lower rows)) \<and>
   map_of (by_lower rows) k = (if ids_under rows k = [] then None else Some (ids_under rows k))"
proof (induction rows arbitrary: k rule: rev_induct)
  case Nil
  then show ?case by (simp add: by_lower_def ids_under_def)
next
  case (snoc r rows)
  then show ?case
    using append_under_keys [of "by_lower rows"] append_under_get [of "by_lower rows"]
    by (auto simp: by_lower_snoc ids_under_snoc)
qed

lemma by_lower_group: "(k, is) \<in> set (by_lower rows) \<longleftrightarrow> is = ids_under rows k \<and> is \<noteq> []"
  using by_lower_spec [of rows k] map_of_eq_Some_iff [of "by_lower rows" k "is"] by (auto split: if_splits)

text \<open>Lower-casing the addresses of groups of one keeps all addresses apart.\<close>

lemma lowered_in_unique:
  assumes "unique_key iv_email rows" and single: "\<And>k. k \<in> K \<Longrightarrow> length (ids_under rows k) \<le> 1"
  shows "unique_key iv_email (map (lowered_in K) rows)"
proof -
  have lower: "py_lower (iv_email (lowered_in K r)) = py_lower (iv_email r)" for r
    by (simp add: lowered_in_def)
  have "distinct (map (\<lambda>r. iv_email (lowered_in K r)) rows)"
    using assms
  proof (induction rows)
    case (Cons r rows)
    have shorter: "length (ids_under rows k) \<le> 1" if "k \<in> K" for k
      using Cons.prems(2) [OF that] by (auto simp: ids_under_def split: if_splits)
    have "iv_email (lowered_in K x) \<noteq> iv_email (lowered_in K r)" if "x \<in> set rows" for x
    proof
      assume eq: "iv_email (lowered_in K x) = iv_email (lowered_in K r)"
      then have key: "py_lower (iv_email x) = py_lower (iv_email r)"
        using lower by metis
      have "ids_under rows (py_lower (iv_email r)) \<noteq> []"
        using that key by (auto simp: ids_under_def filter_empty_conv)
      then have "py_lower (iv_email r) \<notin> K"
        using Cons.prems(2) [of "py_lower (iv_email r)"] by (auto simp: ids_under_def)
      then have "iv_email x = iv_email r"
        using eq key by (simp add: lowered_in_def)
      then show False
        using Cons.prems(1) imageI [OF that, of iv_email] by (simp add: unique_key_def)
    qed
    then show ?case
      using Cons.IH [OF _ shorter] Cons.prems(1) by (force simp: unique_key_def)
  qed simp
  then show ?thesis by (simp add: unique_key_def comp_def)
qed

lemma single_group:
  assumes "unique_key iv_id rows" and "ids_under rows k = [i]" and "r \<in> set rows"
  shows "iv_id r = i \<longleftrightarrow> py_lower (iv_email r) = k"
proof -
  obtain r0 where r0: "filter (\<lambda>r. py_lower (iv_email r) = k) rows = [r0]" "iv_id r0 = i"
    using assms(2) by (auto simp: ids_under_def)
  then have "r0 \<in> set rows" "py_lower (iv_email r0) = k"
    using filter_eq_ConsD [OF r0(1)] by auto
  moreover have "r = r0" if "py_lower (iv_email r) = k"
  proof -
    have "r \<in> set (filter (\<lambda>r. py_lower (iv_email r) = k) rows)"
      using that assms(3) by simp
    then show ?thesis by (simp only: r0(1)) simp
  qed
  ultimately show ?thesis
    using unique_keyD [OF assms(1,3), of r0] r0(2) by metis
qed

lemma set_email_group:
  assumes ids: "unique_key iv_id rows" and emails: "unique_key iv_email rows"
    and K: "\<And>k. k \<in> K \<Longrightarrow> length (ids_under rows k) \<le> 1" and one: "ids_under rows k = [i]"
  shows "set_email k i (map (lowered_in K) rows) = Some (map (lowered_in (insert k K)) rows)"
proof -
  have "(if iv_id (lowered_in K r) = i \<and> iv_email (lowered_in K r) \<noteq> k
           then (lowered_in K r)\<lparr>iv_email := k\<rparr> else lowered_in K r) = lowered_in (insert k K) r"
    if "r \<in> set rows" for r
    using single_group [OF ids one that] by (auto simp: lowered_in_def)
  then have "upd_where (\<lambda>r. iv_id r = i \<and> iv_email r \<noteq> k) (\<lambda>r. r\<lparr>iv_email := k\<rparr>) (map (lowered_in K) rows)
      = map (lowered_in (insert k K)) rows"
    by (simp add: upd_where_def)
  moreover have "unique_key iv_email (map (lowered_in (insert k K)) rows)"
  proof (rule lowered_in_unique [OF emails])
    show "length (ids_under rows k') \<le> 1" if "k' \<in> insert k K" for k'
      using that K [of k'] one by auto
  qed
  ultimately show ?thesis by (simp add: set_email_def)
qed

lemma lower_groups_run:
  assumes "unique_key iv_id rows" and "unique_key iv_email rows"
    and "\<And>k. k \<in> K \<Longrightarrow> length (ids_under rows k) \<le> 1"
    and "\<And>k is. (k, is) \<in> set gs \<Longrightarrow> is = ids_under rows k \<and> is \<noteq> []"
  shows "lower_groups gs (map (lowered_in K) rows) =
    Some (map (lowered_in (K \<union> {k. \<exists>is. (k, is) \<in> set gs \<and> length is \<le> 1})) rows)"
  using assms(3,4)
proof (induction gs arbitrary: K)
  case (Cons g gs)
  obtain k "is" where g: "g = (k, is)" by (cases g)
  have group: "is = ids_under rows k" "is \<noteq> []" using Cons.prems(2) g by auto
  show ?case
  proof (cases "length is > 1")
    case True
    then have "{k'. \<exists>js. (k', js) \<in> set (g # gs) \<and> length js \<le> 1} = {k'. \<exists>js. (k', js) \<in> set gs \<and> length js \<le> 1}"
      by (auto simp: g)
    moreover have "lower_groups gs (map (lowered_in K) rows) =
        Some (map (lowered_in (K \<union> {k'. \<exists>js. (k', js) \<in> set gs \<and> length js \<le> 1})) rows)"
      using Cons.prems by (intro Cons.IH) auto
    ultimately show ?thesis using True by (simp only: g lower_groups.simps if_True)
  next
    case False
    then obtain i where i: "is = [i]" using group(2) by (cases "is") auto
    have "{k'. \<exists>js. (k', js) \<in> set (g # gs) \<and> length js \<le> 1} = insert k {k'. \<exists>js. (k', js) \<in> set gs \<and> length js \<le> 1}"
      using i by (auto simp: g)
    moreover have "lower_groups gs (map (lowered_in (insert k K)) rows) =
        Some (map (lowered_in (insert k K \<union> {k'. \<exists>js. (k', js) \<in> set gs \<and> length js \<le> 1})) rows)"
      using Cons.prems i group(1) by (intro Cons.IH) auto
    moreover have "set_email k i (map (lowered_in K) rows) = Some (map (lowered_in (insert k K)) rows)"
      using set_email_group [OF assms(1,2) Cons.prems(1)] i group(1) by simp
    ultimately show ?thesis using i by (simp add: g)
  qed
qed simp

lemma two_members:
  assumes "r \<in> set xs" and "distinct xs"
  shows "(\<exists>x \<in> set xs. x \<noteq> r) \<longleftrightarrow> length xs > 1"
proof -
  consider y where "xs = [y]" | y z ys where "xs = y # z # ys"
    using assms(1) by (metis list.set_cases neq_Nil_conv)
  then show ?thesis
    by cases (use assms in \<open>auto; metis\<close>)+
qed

lemma shared_group:
  assumes ids: "unique_key iv_id rows" and r: "r \<in> set rows"
  shows "shared_address rows r \<longleftrightarrow> length (ids_under rows (py_lower (iv_email r))) > 1"
proof -
  let ?xs = "filter (\<lambda>x. py_lower (iv_email x) = py_lower (iv_email r)) rows"
  have mem: "r \<in> set ?xs" using r by simp
  have dis: "distinct ?xs" using ids by (simp add: unique_key_def distinct_map)
  have "shared_address rows r \<longleftrightarrow> (\<exists>x \<in> set ?xs. x \<noteq> r)"
    using unique_keyD [OF ids _ r] by (fastforce simp: shared_address_def list_ex_iff)
  also have "\<dots> \<longleftrightarrow> length ?xs > 1"
    using mem dis by (rule two_members)
  finally show ?thesis by (simp add: ids_under_def)
qed

lemma lowered_groups:
  assumes "unique_key iv_id rows" and "r \<in> set rows"
  shows "lowered_in {k. \<exists>is. (k, is) \<in> set (by_lower rows) \<and> length is \<le> 1} r =
    (if shared_address rows r then r else r\<lparr>iv_email := py_lower (iv_email r)\<rparr>)"
proof -
  have "ids_under rows (py_lower (iv_email r)) \<noteq> []"
    using assms(2) by (auto simp: ids_under_def filter_empty_conv)
  then show ?thesis
    using shared_group [OF assms] by (auto simp: lowered_in_def by_lower_group)
qed

lemma lower_emails_reference:
  assumes "unique_key iv_id rows" and "unique_key iv_email rows"
  shows "lower_emails rows = Some (map (\<lambda>r. if shared_address rows r then r
           else r\<lparr>iv_email := py_lower (iv_email r)\<rparr>) rows)"
proof -
  let ?K = "{k. \<exists>is. (k, is) \<in> set (by_lower rows) \<and> length is \<le> 1}"
  have "lower_groups (by_lower rows) (map (lowered_in {}) rows) = Some (map (lowered_in ({} \<union> ?K)) rows)"
    by (rule lower_groups_run [OF assms]) (use by_lower_group in blast)+
  moreover have "map (lowered_in {}) rows = rows"
    by (simp add: lowered_in_def map_idI)
  ultimately have "lower_emails rows = Some (map (lowered_in ?K) rows)"
    by (simp only: lower_emails_def Un_empty_left)
  then show ?thesis using lowered_groups [OF assms(1)] by simp
qed

section \<open>The organisations keep the tenants apart\<close>

lemma no_members: "i \<notin> ac_id ` set as \<Longrightarrow> filter (\<lambda>m. ms_org_id m = i) (seed_memberships as) = []"
  by (induction as) (auto simp: seed_memberships_def)

lemma own_members:
  assumes "unique_key ac_id as" and "i \<in> ac_id ` set as"
  shows "filter (\<lambda>m. ms_org_id m = i) (seed_memberships as) =
    [\<lparr>ms_org_id = i, ms_interviewer_id = i, ms_role = ''admin'', ms_invited_by = None\<rparr>]"
  using assms
proof (induction as)
  case (Cons a as)
  show ?case
  proof (cases "ac_id a = i")
    case True
    then have "filter (\<lambda>m. ms_org_id m = i) (seed_memberships as) = []"
      using Cons.prems(1) by (intro no_members) (simp add: unique_key_def)
    then show ?thesis using True by (simp add: seed_memberships_def)
  next
    case False
    then show ?thesis using Cons by (auto simp: unique_key_def seed_memberships_def)
  qed
qed simp

lemma own_membership:
  "i \<in> ac_id ` set as \<Longrightarrow> first_where (\<lambda>m. ms_interviewer_id m = i) (seed_memberships as) =
    Some \<lparr>ms_org_id = i, ms_interviewer_id = i, ms_role = ''admin'', ms_invited_by = None\<rparr>"
  by (induction as) (auto simp: seed_memberships_def)

lemma give_to_own_org:
  assumes "\<And>w. w \<in> set rows \<Longrightarrow> ow_owner_id w \<in> ac_id ` set as"
  shows "give_to_org (seed_memberships as) rows = Some (map (\<lambda>w. w\<lparr>ow_org_id := Some (ow_owner_id w)\<rparr>) rows)"
  using assms by (simp add: give_to_org_def Let_def list_all_iff own_membership)

section \<open>The frozen settings\<close>

lemma all_or_none_some: "(\<And>x. x \<in> set xs \<Longrightarrow> f x = Some (g x)) \<Longrightarrow> all_or_none (map f xs) = Some (map g xs)"
  by (induction xs) auto

text \<open>No invite is refused as long as the assessments the invites name are there.\<close>

lemma freeze_proctored_total:
  assumes "\<And>v a. v \<in> set (t_invites st) \<Longrightarrow> inv_assessment_id v = Some a \<Longrightarrow> get_assessment a st \<noteq> None"
  shows "freeze_proctored st = Some (st\<lparr>t_invites := map (\<lambda>v. case inv_assessment_id v of None \<Rightarrow> v
           | Some a \<Rightarrow> v\<lparr>inv_proctored := a_proctored (the (get_assessment a st))\<rparr>) (t_invites st)\<rparr>)"
proof -
  have "freeze_proctored_row st v = Some (case inv_assessment_id v of None \<Rightarrow> v
      | Some a \<Rightarrow> v\<lparr>inv_proctored := a_proctored (the (get_assessment a st))\<rparr>)"
    if "v \<in> set (t_invites st)" for v
    using assms [OF that] by (auto simp: freeze_proctored_row_def split: option.splits)
  then show ?thesis
    by (simp add: freeze_proctored_def all_or_none_some)
qed

definition live_duration :: "store \<Rightarrow> invite \<Rightarrow> int option" where
  "live_duration st v =
     (case inv_assessment_id v of Some a \<Rightarrow> Option.bind (get_assessment a st) a_duration_minutes
      | None \<Rightarrow> (case inv_question_id v of Some q \<Rightarrow> Option.bind (get_question q st) q_duration_minutes
                | None \<Rightarrow> inv_duration_minutes v))"

lemma freeze_durations_row:
  "t_invites (freeze_durations st) = map (\<lambda>v. v\<lparr>inv_duration_minutes := live_duration st v\<rparr>) (t_invites st)"
  by (auto simp: freeze_durations_def freeze_assessment_duration_def freeze_question_duration_def
      upd_where_def live_duration_def get_assessment_def get_question_def split: option.splits)

text \<open>
  \<open>SET NOT NULL\<close> on a column that holds a NULL is refused. The downgrades of \<open>15556d728532\<close> and
  \<open>e5b3c9d7a2f1\<close> ask for it on columns that are NULL by design: one link to an assessment, or
  one slot drawn from a variant set, and the downgrade aborts.
\<close>

definition tighten :: "('r \<Rightarrow> 'a option) \<Rightarrow> 'r list \<Rightarrow> 'r list option" where
  "tighten col rows = (if list_all (\<lambda>r. col r \<noteq> None) rows then Some rows else None)"

lemma assessment_link_blocks_downgrade:
  "v \<in> set (t_invites st) \<Longrightarrow> inv_question_id v = None \<Longrightarrow> tighten inv_question_id (t_invites st) = None"
  by (auto simp: tighten_def list_all_iff)

section \<open>Properties\<close>

text \<open>
  C22. The lower-casing of the addresses never aborts on the unique index, at none of its UPDATEs, and
  its outcome is the reference: an address that no other account shares up to case is put in lower
  case, every account of a group that differs only in case keeps the spelling it had, and nothing
  else of a row changes.
\<close>

theorem emails_lowered_safely:
  assumes "unique_key iv_id rows" and "unique_key iv_email rows"
  shows "\<exists>rows'. lower_emails rows = Some rows' \<and> unique_key iv_email rows' \<and>
    rows' = map (\<lambda>r. if shared_address rows r then r else r\<lparr>iv_email := py_lower (iv_email r)\<rparr>) rows"
proof -
  let ?K = "{k. \<exists>is. (k, is) \<in> set (by_lower rows) \<and> length is \<le> 1}"
  have low: "lowered_in ?K r = (if shared_address rows r then r else r\<lparr>iv_email := py_lower (iv_email r)\<rparr>)"
    if "r \<in> set rows" for r
    using lowered_groups [OF assms(1) that] .
  have "unique_key iv_email (map (lowered_in ?K) rows)"
    by (rule lowered_in_unique [OF assms(2)]) (auto simp: by_lower_group)
  moreover have "map (lowered_in ?K) rows =
      map (\<lambda>r. if shared_address rows r then r else r\<lparr>iv_email := py_lower (iv_email r)\<rparr>) rows"
    using low by simp
  ultimately show ?thesis using lower_emails_reference [OF assms] by metis
qed

definition three_accounts :: "interviewer list" where
  "three_accounts =
     [\<lparr>iv_id = 1, iv_email = ''Ann@x'', iv_password_hash = ''h'', iv_name = ''n'', iv_token_version = 0, iv_email_verified_at = None\<rparr>,
      \<lparr>iv_id = 2, iv_email = ''Bob@x'', iv_password_hash = ''h'', iv_name = ''n'', iv_token_version = 0, iv_email_verified_at = None\<rparr>,
      \<lparr>iv_id = 3, iv_email = ''ann@X'', iv_password_hash = ''h'', iv_name = ''n'', iv_token_version = 0, iv_email_verified_at = None\<rparr>]"

lemma emails_lowered_safely_witness:
  "\<exists>rows'. lower_emails three_accounts = Some rows' \<and> unique_key iv_email rows' \<and>
     map iv_email rows' = [''Ann@x'', ''bob@x'', ''ann@X'']"
proof -
  have "unique_key iv_id three_accounts" "unique_key iv_email three_accounts"
    by (simp_all add: three_accounts_def unique_key_def)
  from emails_lowered_safely [OF this] obtain rows' where
    "lower_emails three_accounts = Some rows'" "unique_key iv_email rows'" and rows':
    "rows' = map (\<lambda>r. if shared_address three_accounts r then r else r\<lparr>iv_email := py_lower (iv_email r)\<rparr>) three_accounts"
    by blast
  moreover have "map iv_email rows' = [''Ann@x'', ''bob@x'', ''ann@X'']"
    unfolding rows' three_accounts_def
    by (simp add: shared_address_def py_lower_def lower_char_def code_def char_of_def bit_Suc_0_iff)
  ultimately show ?thesis by (intro exI [of _ rows'] conjI)
qed

text \<open>
  C23. Moving ownership to organisations changes nobody's view: the column can be made NOT NULL, two
  rows end in the same organisation exactly when they had the same owner, and that organisation
  exists and has the owner, as its admin, for its only member.
\<close>

theorem tenants_kept_apart:
  assumes "unique_key ac_id as" and "\<And>w. w \<in> set rows \<Longrightarrow> ow_owner_id w \<in> ac_id ` set as"
  shows "\<exists>rows'. give_to_org (seed_memberships as) rows = Some rows' \<and>
    map ow_owner_id rows' = map ow_owner_id rows \<and>
    (\<forall>w \<in> set rows'. \<forall>v \<in> set rows'. ow_org_id w = ow_org_id v \<longleftrightarrow> ow_owner_id w = ow_owner_id v) \<and>
    (\<forall>w \<in> set rows'. \<exists>g \<in> set (seed_organizations as). ow_org_id w = Some (os_id g) \<and>
       filter (\<lambda>m. ms_org_id m = os_id g) (seed_memberships as) =
         [\<lparr>ms_org_id = os_id g, ms_interviewer_id = ow_owner_id w, ms_role = ''admin'', ms_invited_by = None\<rparr>])"
proof -
  let ?f = "\<lambda>w. w\<lparr>ow_org_id := Some (ow_owner_id w)\<rparr>"
  have "give_to_org (seed_memberships as) rows = Some (map ?f rows)"
    by (rule give_to_own_org [OF assms(2)])
  moreover have "\<exists>g \<in> set (seed_organizations as). ow_org_id (?f w) = Some (os_id g) \<and>
       filter (\<lambda>m. ms_org_id m = os_id g) (seed_memberships as) =
         [\<lparr>ms_org_id = os_id g, ms_interviewer_id = ow_owner_id w, ms_role = ''admin'', ms_invited_by = None\<rparr>]"
    if "w \<in> set rows" for w
    using own_members [OF assms(1) assms(2) [OF that]] assms(2) [OF that]
    by (force simp: seed_organizations_def)
  moreover have "map ow_owner_id (map ?f rows) = map ow_owner_id rows"
    by simp
  moreover have "\<forall>w \<in> set (map ?f rows). \<forall>v \<in> set (map ?f rows). ow_org_id w = ow_org_id v \<longleftrightarrow> ow_owner_id w = ow_owner_id v"
    by simp
  ultimately show ?thesis by (intro exI [of _ "map ?f rows"]) simp
qed

lemma tenants_kept_apart_witness:
  "\<exists>rows'. give_to_org (seed_memberships [\<lparr>ac_id = 4, ac_name = Some ''Ann'', ac_default_org_name = None\<rparr>,
      \<lparr>ac_id = 7, ac_name = Some ''Bob'', ac_default_org_name = Some ''Acme''\<rparr>])
    [\<lparr>ow_owner_id = 7, ow_org_id = None\<rparr>, \<lparr>ow_owner_id = 4, ow_org_id = None\<rparr>, \<lparr>ow_owner_id = 7, ow_org_id = None\<rparr>]
    = Some rows' \<and> map ow_owner_id rows' = [7, 4, 7] \<and>
    (\<forall>w \<in> set rows'. \<forall>v \<in> set rows'. ow_org_id w = ow_org_id v \<longleftrightarrow> ow_owner_id w = ow_owner_id v)"
proof -
  let ?as = "[\<lparr>ac_id = 4, ac_name = Some ''Ann'', ac_default_org_name = None\<rparr>,
      \<lparr>ac_id = 7, ac_name = Some ''Bob'', ac_default_org_name = Some ''Acme''\<rparr>]"
  let ?rows = "[\<lparr>ow_owner_id = 7, ow_org_id = None\<rparr>, \<lparr>ow_owner_id = 4, ow_org_id = None\<rparr>, \<lparr>ow_owner_id = 7, ow_org_id = None\<rparr>]"
  have "unique_key ac_id ?as" "\<And>w. w \<in> set ?rows \<Longrightarrow> ow_owner_id w \<in> ac_id ` set ?as"
    by (auto simp: unique_key_def)
  from tenants_kept_apart [OF this] obtain rows' where
    "give_to_org (seed_memberships ?as) ?rows = Some rows'" "map ow_owner_id rows' = map ow_owner_id ?rows"
    "\<forall>w \<in> set rows'. \<forall>v \<in> set rows'. ow_org_id w = ow_org_id v \<longleftrightarrow> ow_owner_id w = ow_owner_id v"
    by blast
  then show ?thesis by (intro exI [of _ rows']) (simp only: list.map owned_row.select_convs)
qed

end
