(* ===== verification/Spec2Isabelle.thy ===== *)
theory Spec2Isabelle
  imports RateLimit CandidateRoutes Privacy Seats Signing LibrarySafety Drafting InviteSafety Logos ResultsSafety PaymentsSafety Metrics Boot Contract MigrationSafety Backfills
begin

text \<open>
  \<^bold>\<open>The assessment platform in Isabelle/HOL.\<close>

  The program (\<open>src/assessment_platform/\<close>) is a FastAPI service on a SQL database. The members of an organisation
  write coding questions, put them into assessments and send links; a candidate opens a link, sits the questions against a
  clock and submits code; an external agent grades it and calls back; the members read the results. Around this are
  accounts, seats and plans, payments, privacy, mail and operations. The development follows the modules and handlers:
  a table of \<open>models.py\<close> is a \<open>record\<close>, the database is the record \<open>store\<close> of lists of rows, and a handler is a
  function from its request and the store to an \<open>outcome\<close>, the answer or the exception together with the store it
  leaves. Names are those of the source where Isabelle has them free.

  \<^bold>\<open>Conventions.\<close>

  \<^item> \<^emph>\<open>Concurrency.\<close> A handler runs between the commits of its siblings. The argument \<open>others k\<close> is whatever they
    commit at its \<open>k\<close>-th gap (each theory says which gaps it numbers); \<open>alone\<close> is no sibling. A property names what it
    assumes of \<open>others\<close>; one that takes \<open>alone\<close> or says nothing is about requests served one at a time. Lemmas named
    \<open>.._race_..\<close> show what interleavings break.
  \<^item> \<^emph>\<open>Errors.\<close> Every raise is a value of \<open>exn\<close>; a unique constraint or a foreign key that a handler can hit is a
    branch that answers \<open>IntegrityError\<close>. Pydantic's validators are predicates on bodies (\<open>.._ok\<close>).
  \<^item> \<^emph>\<open>Numbers, time, text.\<close> Python's integers are \<open>int\<close>, its floats are rationals, an instant is a count of
    microseconds. Strings are lists of characters up to code point 255; \<open>strip\<close>, \<open>lower\<close> and \<open>int\<close> follow Python there.
  \<^item> \<^emph>\<open>Outside code is a parameter\<close>: the agent behind \<open>httpx\<close> (\<open>agent\<close>), Stripe (\<open>stripe\<close>), the SMTP server (\<open>smtp\<close>),
    Pillow (\<open>pillow\<close>), PyJWT, bcrypt and digests (\<open>crypto\<close>), name resolution (\<open>network\<close>), pydantic where it parses the agent's
    drafts (\<open>validator\<close>), Sentry's event, Alembic and its database. What is relied on of them is a named hypothesis, such as
    \<open>crypto_lawful\<close>, \<open>hex_digests\<close> or \<open>thumbnail_fits\<close>, with a concrete instance in the witness.
  \<^item> \<^emph>\<open>Loops.\<close> Everything is total. The retry loop of the agent client counts its attempts down, the reaper's passes are
    a list of instants, the edges of the histogram are a \<open>partial_function (option)\<close> that is shown to end for the bucket
    size in use, and a CSV reader and the URL redactor recurse on the text.

  \<^bold>\<open>Foundations.\<close>
  \<^item> \<open>Prelude\<close>: exceptions, outcomes and their sequencing, lists of rows as tables. \<open>PyText\<close>, \<open>PyTime\<close>: what is used of
    Python's strings, JSON and datetimes. \<open>Tables\<close> (\<open>models.py\<close>): rows and the store. \<open>Settings\<close> (\<open>config.py\<close>).
  \<^item> \<open>Counter\<close>, \<open>Swap\<close>: locales for a conditional UPDATE of a counter and for a compare-and-swap, each with its race
    theorem. They are interpreted by the quota of \<open>Billing\<close>, the row of the database limiter (\<open>RateLimit\<close>), the
    submission row (\<open>Grading\<close>) and the notified stamp (\<open>Notify\<close>).

  \<^bold>\<open>Sittings and grading.\<close>
  \<^item> \<open>Access\<close>, \<open>Sitting\<close>, \<open>Candidate\<close> (\<open>api.py\<close>): ownership, the gates of a link, variants, the attempt and its clock, and the
    candidate routes. \<open>CandidateSafety\<close> lists every kind of write a candidate route makes as the locale \<open>candidate_writes\<close>;
    its interpretations are the unique constraints, the clock and a recorded submission, kept by any sequence of
    requests and siblings. \<open>CandidateRoutes\<close>: closed links, lateness, drafts, and the secrecy of the answer key.
  \<^item> \<open>Agent\<close> (\<open>agent_client.py\<close>), \<open>Grading\<close> (\<open>api.py\<close>), \<open>Notify\<close> (\<open>notify.py\<close>), \<open>Contract\<close> (\<open>contract/callback_contract.py\<close>),
    \<open>Signing\<close> (\<open>signing.py\<close>): the retry loop, trigger, reaper, callback and retry, the claim on a finished sitting with mail
    and webhook, and the body signatures.
  \<^item> \<open>RateLimit\<close> (\<open>ratelimit.py\<close>): both limiters under the locale \<open>rate_limiter\<close>, with their window bounds.
  \<^item> \<open>Privacy\<close> (\<open>privacy.py\<close>): erasure and retention, as exact equations on every table.

  \<^bold>\<open>Accounts, organisations, money.\<close>
  \<^item> \<open>Auth\<close>, \<open>AccountSafety\<close> (\<open>auth.py\<close>): tokens and account routes; what a token opens and a password change closes.
  \<^item> \<open>Team\<close>, \<open>TeamSafety\<close>, \<open>Seats\<close> (\<open>api.py\<close>): sign-up, members, invitations; the last administrator, seats.
  \<^item> \<open>Billing\<close> (\<open>billing.py\<close>), \<open>Payments\<close>, \<open>PaymentsSafety\<close> (\<open>stripe_client.py\<close>, \<open>api.py\<close>): allowances with carry-over; checkouts,
    the webhook and what moves a plan. \<open>Contact\<close> (\<open>support.py\<close>).

  \<^bold>\<open>The library.\<close>
  \<^item> \<open>Questions\<close>, \<open>Assessments\<close> (\<open>question_rules.py\<close>, \<open>schemas.py\<close>, \<open>api.py\<close>): bodies with their rules, and the routes. \<open>Library\<close>
    puts them together as requests in any order with siblings, under the locale \<open>library_invariant\<close> with one law for each
    kind of write; it is interpreted for the foreign keys, for the slots of a sent assessment, in \<open>LibrarySafety\<close>
    for the rules of the questions (those stored by earlier releases excepted, as long as nobody rewrites them), and in
    \<open>InviteSafety\<close> for the terms of a sitting that runs.
  \<^item> \<open>Invites\<close>, \<open>Drafting\<close>, \<open>Images\<close>, \<open>Blobs\<close>, \<open>Logos\<close> (\<open>api.py\<close>, \<open>images.py\<close>, \<open>blobstore.py\<close>): links and the rotation of a
    set, questions drafted by the agent and their cost, uploads, the seam of the blob store as a locale refined to a map, and
    the logos shown.

  \<^bold>\<open>Reading and running.\<close>
  \<^item> \<open>Integrity\<close>, \<open>Analytics\<close>, \<open>Results\<close>, \<open>Rollups\<close>, \<open>ResultsSafety\<close> (\<open>integrity.py\<close>, \<open>analytics.py\<close>, \<open>api.py\<close>): the risk score against an
    order-free reference, the grid, the aggregates, and the export read back by a CSV reader.
  \<^item> \<open>Mail\<close>, \<open>Templates\<close> (\<open>email_client.py\<close>, \<open>email_templates.py\<close>): a mailing and its report; every message, and that
    values stay text in it.
  \<^item> \<open>Observability\<close>, \<open>Metrics\<close>, \<open>Boot\<close> (\<open>observability.py\<close>, \<open>api.py\<close>): request ids, log lines, what is scrubbed of error reports
    (the request and the user, and nothing else), the scrape, boot checks and probes.
  \<^item> \<open>Schema\<close>, \<open>Migrations\<close>, \<open>MigrationSafety\<close>, \<open>Backfills\<close> (\<open>models.py\<close>, \<open>alembic/versions/\<close>): the declared schema, every
    revision both ways as schema operations, that the chain reaches the schema and what a downgrade restores, and the
    rows the migrations rewrite.

  \<^bold>\<open>Where the code falls short\<close>, a lemma says so next to the property it limits, on a concrete run: for instance
  \<open>release_loses_a_claim\<close>, \<open>worker_error_race_regresses\<close>, \<open>demote_race_strands\<close>, \<open>sign_up_takes_no_seat_check\<close>,
  \<open>late_update_revives\<close>, \<open>two_links_share_a_grade\<close>, \<open>snapshot_race_dangles\<close>, \<open>rebinding_reaches_private\<close>, \<open>failed_quit_denies_all\<close>.

  \<^bold>\<open>Not modelled\<close>: the engine and session set-up (\<open>db.py\<close>), \<open>alembic/env.py\<close>, the operator scripts that drive a running server
  (\<open>check-lifecycle.py\<close>, \<open>check-schema-limits.py\<close>, \<open>smoke_e2e.py\<close>), the endless sleep around the background passes, the event loop and
  thread pools, settings read by infrastructure only, the web client under \<open>web/\<close>, tests and documents. The two
  environment settings of the trigger's transport retries have their defaults where the trigger is called.
\<close>

end
